(* ===== verification/Prelude.thy ===== *)
theory Prelude
  imports Complex_Main "HOL-Library.Multiset" "HOL-Library.AList"
begin

text \<open>
  Shared vocabulary of the development: the exception values of the NestJS handlers, the
  result type of fallible code, the in-place table updates of the Prisma models, the stable
  sort of \<open>Array.prototype.sort\<close>, and the two interface locales that several components
  use (\<open>comparator\<close> for the order-book comparators, \<open>compound_where\<close> for the
  \<open>updateMany\<close> status transitions).
\<close>

section \<open>Exceptions and results\<close>

text \<open>
  A value of type \<open>exn\<close> is an exception object the TypeScript throws: the NestJS HTTP
  exceptions with their code string, the structured validation failure (message and the codes
  of its \<open>issues\<close>), plain \<open>Error\<close>s, and the errors the JavaScript runtime and Prisma raise.
\<close>

datatype exn =
    BadRequest string
  | ValidationFailed string "string list"
  | NotFound string
  | Conflict string
  | Unauthorized string
  | Forbidden string
  | InternalError string
  | PlainError string
  | RangeError
  | SyntaxError
  | TypeError
  | RecordNotFound

type_synonym 'a result = "exn + 'a"

text \<open>\<open>e.message\<close>, as the catch blocks read it.\<close>

fun exn_message :: "exn \<Rightarrow> string" where
  "exn_message (BadRequest m) = m"
| "exn_message (ValidationFailed m _) = m"
| "exn_message (NotFound m) = m"
| "exn_message (Conflict m) = m"
| "exn_message (Unauthorized m) = m"
| "exn_message (Forbidden m) = m"
| "exn_message (InternalError m) = m"
| "exn_message (PlainError m) = m"
| "exn_message RangeError = ''RangeError''"
| "exn_message SyntaxError = ''SyntaxError''"
| "exn_message TypeError = ''TypeError''"
| "exn_message RecordNotFound = ''Record to update not found.''"

text \<open>\<open>e instanceof BadRequestException\<close>.\<close>

fun is_bad_request :: "exn \<Rightarrow> bool" where
  "is_bad_request (BadRequest _) = True"
| "is_bad_request (ValidationFailed _ _) = True"
| "is_bad_request _ = False"

fun bind_res :: "'a result \<Rightarrow> ('a \<Rightarrow> 'b result) \<Rightarrow> 'b result" where
  "bind_res (Inl e) f = Inl e"
| "bind_res (Inr x) f = f x"

text \<open>A map that ends with the first exception.\<close>

fun map_res :: "('a \<Rightarrow> 'b result) \<Rightarrow> 'a list \<Rightarrow> 'b list result" where
  "map_res f [] = Inr []"
| "map_res f (x # xs) = bind_res (f x) (\<lambda>y. bind_res (map_res f xs) (\<lambda>ys. Inr (y # ys)))"

lemma bind_res_Inr_iff [simp]:
  "bind_res m f = Inr y \<longleftrightarrow> (\<exists>x. m = Inr x \<and> f x = Inr y)"
  by (cases m) auto

lemma bind_res_Inl_iff:
  "bind_res m f = Inl e \<longleftrightarrow> m = Inl e \<or> (\<exists>x. m = Inr x \<and> f x = Inl e)"
  by (cases m) auto

named_theorems frame_simps \<open>equations that say which part of the state an operation leaves alone\<close>
named_theorems step_intros \<open>preservation lemmas of the component invariants\<close>

section \<open>Tables\<close>

text \<open>
  A Prisma model is the list of its rows, oldest first. \<open>update_where\<close> is the effect of
  \<open>update\<close>/\<open>updateMany\<close>, \<open>count_where\<close> its \<open>count\<close>.
\<close>

definition update_where :: "('r \<Rightarrow> bool) \<Rightarrow> ('r \<Rightarrow> 'r) \<Rightarrow> 'r list \<Rightarrow> 'r list" where
  "update_where P f rows = map (\<lambda>r. if P r then f r else r) rows"

definition count_where :: "('r \<Rightarrow> bool) \<Rightarrow> 'r list \<Rightarrow> nat" where
  "count_where P rows = length (filter P rows)"

definition row_by :: "('r \<Rightarrow> 'k) \<Rightarrow> 'k \<Rightarrow> 'r list \<Rightarrow> 'r option" where
  "row_by key k rows = find (\<lambda>r. key r = k) rows"

lemma row_by_Nil [simp]: "row_by key k [] = None"
  by (simp add: row_by_def)

lemma row_by_Cons [simp]:
  "row_by key k (r # rs) = (if key r = k then Some r else row_by key k rs)"
  by (simp add: row_by_def)

lemma row_by_SomeD: "row_by key k rows = Some r \<Longrightarrow> r \<in> set rows \<and> key r = k"
  by (induction rows) (auto split: if_splits)

lemma row_by_None_iff: "row_by key k rows = None \<longleftrightarrow> (\<forall>r \<in> set rows. key r \<noteq> k)"
  by (induction rows) auto

lemma row_by_append:
  "row_by key k (xs @ ys) = (case row_by key k xs of None \<Rightarrow> row_by key k ys | Some r \<Rightarrow> Some r)"
  by (induction xs) auto

lemma row_by_distinct:
  "distinct (map key rows) \<Longrightarrow> r \<in> set rows \<Longrightarrow> row_by key (key r) rows = Some r"
  by (induction rows) (auto simp: image_iff)

lemma update_where_Nil [simp]: "update_where P f [] = []"
  by (simp add: update_where_def)

lemma update_where_Cons [simp]:
  "update_where P f (r # rs) = (if P r then f r else r) # update_where P f rs"
  by (simp add: update_where_def)

lemma length_update_where [simp]: "length (update_where P f rows) = length rows"
  by (simp add: update_where_def)

lemma set_update_where: "set (update_where P f rows) = (\<lambda>r. if P r then f r else r) ` set rows"
  by (simp add: update_where_def)

lemma map_key_update_where:
  "(\<And>r. key (f r) = key r) \<Longrightarrow> map key (update_where P f rows) = map key rows"
  by (simp add: update_where_def)

lemma row_by_update_where:
  assumes "\<And>r. key (f r) = key r"
  shows "row_by key k (update_where P f rows) =
    map_option (\<lambda>r. if P r then f r else r) (row_by key k rows)"
  using assms by (induction rows) auto

lemma update_where_none: "\<forall>r \<in> set rows. \<not> P r \<Longrightarrow> update_where P f rows = rows"
  by (induction rows) auto

lemma count_where_pos_iff: "0 < count_where P rows \<longleftrightarrow> (\<exists>r \<in> set rows. P r)"
  by (induction rows) (auto simp: count_where_def)

text \<open>Under a unique key, a compound \<open>where\<close> on the key hits at most the row of that key.\<close>

lemma count_where_key:
  assumes "distinct (map key rows)"
  shows "0 < count_where (\<lambda>r. key r = k \<and> P r) rows \<longleftrightarrow>
    (\<exists>r. row_by key k rows = Some r \<and> P r)"
  using assms row_by_distinct [OF assms] row_by_SomeD [of key k rows]
  by (auto simp: count_where_pos_iff)

section \<open>The stable sort of Array.prototype.sort\<close>

text \<open>
  \<open>insert_cmp c x ys\<close> puts \<open>x\<close> before the first element it does not come after; folding it
  from the right keeps equal elements in their order, as the specification of
  \<open>Array.prototype.sort\<close> demands. The comparator's result is read by its sign only.
\<close>

fun insert_cmp :: "('a \<Rightarrow> 'a \<Rightarrow> int) \<Rightarrow> 'a \<Rightarrow> 'a list \<Rightarrow> 'a list" where
  "insert_cmp c x [] = [x]"
| "insert_cmp c x (y # ys) = (if c x y \<le> 0 then x # y # ys else y # insert_cmp c x ys)"

definition js_sort :: "('a \<Rightarrow> 'a \<Rightarrow> int) \<Rightarrow> 'a list \<Rightarrow> 'a list" where
  "js_sort c xs = foldr (insert_cmp c) xs []"

lemma js_sort_Nil [simp]: "js_sort c [] = []"
  by (simp add: js_sort_def)

lemma js_sort_Cons [simp]: "js_sort c (x # xs) = insert_cmp c x (js_sort c xs)"
  by (simp add: js_sort_def)

lemma mset_insert_cmp [simp]: "mset (insert_cmp c x ys) = add_mset x (mset ys)"
  by (induction ys) auto

lemma mset_js_sort [simp]: "mset (js_sort c xs) = mset xs"
  by (induction xs) auto

lemma set_insert_cmp [simp]: "set (insert_cmp c x ys) = insert x (set ys)"
  by (induction ys) auto

lemma set_js_sort [simp]: "set (js_sort c xs) = set xs"
  by (induction xs) auto

lemma length_js_sort [simp]: "length (js_sort c xs) = length xs"
  by (metis mset_js_sort size_mset)

lemma distinct_map_js_sort [simp]: "distinct (map f (js_sort c xs)) = distinct (map f xs)"
proof -
  have "mset (map f (js_sort c xs)) = mset (map f xs)" by simp
  then show ?thesis by (metis mset_eq_imp_distinct_iff)
qed

text \<open>
  The contract a comparator passed to \<open>sort\<close> has to keep: comparing is total and transitive.
  Under it the result is sorted, elements that compare equal keep their order, and a list that
  is already sorted is not moved.
\<close>

locale comparator =
  fixes c :: "'a \<Rightarrow> 'a \<Rightarrow> int"
  assumes total: "c x y \<le> 0 \<or> c y x \<le> 0"
    and trans: "c x y \<le> 0 \<Longrightarrow> c y z \<le> 0 \<Longrightarrow> c x z \<le> 0"
begin

lemma sorted_insert_cmp:
  "sorted_wrt (\<lambda>x y. c x y \<le> 0) ys \<Longrightarrow> sorted_wrt (\<lambda>x y. c x y \<le> 0) (insert_cmp c x ys)"
proof (induction ys)
  case Nil
  then show ?case by simp
next
  case (Cons y ys)
  show ?case
  proof (cases "c x y \<le> 0")
    case True
    with Cons.prems show ?thesis by (auto intro: trans)
  next
    case False
    with total have "c y x \<le> 0" by blast
    with False Cons show ?thesis by auto
  qed
qed

lemma sorted_js_sort: "sorted_wrt (\<lambda>x y. c x y \<le> 0) (js_sort c xs)"
  by (induction xs) (auto intro: sorted_insert_cmp)

lemma insert_cmp_hd:
  "\<forall>y \<in> set ys. c x y \<le> 0 \<Longrightarrow> insert_cmp c x ys = x # ys"
  by (cases ys) auto

lemma js_sort_sorted: "sorted_wrt (\<lambda>x y. c x y \<le> 0) xs \<Longrightarrow> js_sort c xs = xs"
  by (induction xs) (auto intro: insert_cmp_hd)

lemma filter_insert_cmp_in:
  "sorted_wrt (\<lambda>x y. c x y \<le> 0) ys \<Longrightarrow> P x \<Longrightarrow> (\<And>y. P y \<Longrightarrow> c x y \<le> 0) \<Longrightarrow>
    filter P (insert_cmp c x ys) = x # filter P ys"
  by (induction ys) auto

lemma filter_insert_cmp_out: "\<not> P x \<Longrightarrow> filter P (insert_cmp c x ys) = filter P ys"
  by (induction ys) auto

lemma js_sort_stable:
  assumes "\<And>x y. P x \<Longrightarrow> P y \<Longrightarrow> c x y \<le> 0"
  shows "filter P (js_sort c xs) = filter P xs"
proof (induction xs)
  case (Cons x xs)
  show ?case
  proof (cases "P x")
    case True
    with Cons assms show ?thesis
      by (simp add: filter_insert_cmp_in sorted_js_sort)
  next
    case False
    with Cons show ?thesis by (simp add: filter_insert_cmp_out)
  qed
qed simp

end

section \<open>Compound-where status transitions\<close>

text \<open>
  The contract of every \<open>updateMany(\{ where: \{ id, status, ... \}, data: \{ status, ... \} \})\<close>
  of the repositories. \<open>op\<close> is the update as a function of the store, returning whether
  \<open>count > 0\<close>; \<open>tid\<close> the row it addresses, \<open>guard\<close> the rest of the \<open>where\<close> clause, \<open>to\<close>
  the status it writes. The store well-formedness is \<open>wf\<close>.
\<close>

locale compound_where =
  fixes wf :: "'s \<Rightarrow> bool"
    and op :: "'s \<Rightarrow> bool \<times> 's"
    and row :: "'s \<Rightarrow> 'k \<Rightarrow> 'r option"
    and st :: "'r \<Rightarrow> 'status"
    and tid :: 'k
    and guard :: "'r \<Rightarrow> bool"
    and to :: 'status
  assumes keeps_wf: "wf s \<Longrightarrow> wf (snd (op s))"
    and hit_iff: "wf s \<Longrightarrow> fst (op s) \<longleftrightarrow> (\<exists>r. row s tid = Some r \<and> guard r)"
    and hit_status: "wf s \<Longrightarrow> fst (op s) \<Longrightarrow> \<exists>r. row (snd (op s)) tid = Some r \<and> st r = to"
    and miss_same: "wf s \<Longrightarrow> \<not> fst (op s) \<Longrightarrow> snd (op s) = s"
    and frame: "wf s \<Longrightarrow> k \<noteq> tid \<Longrightarrow> row (snd (op s)) k = row s k"
    and leaves: "guard r \<Longrightarrow> st r \<noteq> to"
begin

text \<open>A transition latches: repeating it straight away is refused and changes nothing.\<close>

lemma once: "wf s \<Longrightarrow> fst (op s) \<Longrightarrow> \<not> fst (op (snd (op s)))"
  using hit_status hit_iff keeps_wf leaves by (metis option.inject)

lemma twice_same: "wf s \<Longrightarrow> fst (op s) \<Longrightarrow> snd (op (snd (op s))) = snd (op s)"
  using once miss_same keeps_wf by blast

lemma status_after: "wf s \<Longrightarrow> fst (op s) \<Longrightarrow> map_option st (row (snd (op s)) tid) = Some to"
  using hit_status by fastforce

lemma untouched_or_moved:
  "wf s \<Longrightarrow> row (snd (op s)) k = row s k \<or> k = tid \<and> fst (op s)"
  using frame miss_same by metis

end

end
