(* ===== verification/JsBase.thy ===== *)
theory JsBase
  imports Prelude
begin

text \<open>
  The part of the JavaScript language the sources use: strings and their methods, the number
  and bigint conversions, and JSON-like values of type \<open>unknown\<close>.

  \<^item> A string is the list of its code units, restricted to the Latin-1 range (0 to 255);
    \<open>toLowerCase\<close> is the Unicode mapping on that range.
  \<^item> A \<open>number\<close> is an exact rational or one of the special values; the rounding of IEEE
    doubles and the sign of zero are not modelled.
  \<^item> A \<open>bigint\<close> is an \<open>int\<close>.
\<close>

section \<open>Strings\<close>

definition code :: "char \<Rightarrow> int" where
  "code c = of_char c"

definition lower_char :: "char \<Rightarrow> char" where
  "lower_char c =
    (if (65 \<le> code c \<and> code c \<le> 90) \<or> (192 \<le> code c \<and> code c \<le> 222 \<and> code c \<noteq> 215)
     then char_of (code c + 32) else c)"

definition to_lower :: "string \<Rightarrow> string" where
  "to_lower s = map lower_char s"

definition is_space :: "char \<Rightarrow> bool" where
  "is_space c \<longleftrightarrow> (9 \<le> code c \<and> code c \<le> 13) \<or> code c = 32 \<or> code c = 160"

definition trim :: "string \<Rightarrow> string" where
  "trim s = rev (dropWhile is_space (rev (dropWhile is_space s)))"

fun starts_with :: "string \<Rightarrow> string \<Rightarrow> bool" where
  "starts_with s [] = True"
| "starts_with [] (p # ps) = False"
| "starts_with (c # s) (p # ps) = (c = p \<and> starts_with s ps)"

text \<open>\<open>s.split(c)\<close> for one character.\<close>

fun split_on :: "char \<Rightarrow> string \<Rightarrow> string list" where
  "split_on c [] = [[]]"
| "split_on c (a # s) =
    (if a = c then [] # split_on c s
     else case split_on c s of [] \<Rightarrow> [[a]] | w # ws \<Rightarrow> (a # w) # ws)"

text \<open>\<open>s.js_slice(i, j)\<close> for \<open>0 \<le> i \<le> j\<close>, and \<open>[...].join('|')\<close>.\<close>

definition js_slice :: "nat \<Rightarrow> nat \<Rightarrow> 'a list \<Rightarrow> 'a list" where
  "js_slice i j s = take (j - i) (drop i s)"

fun join_bar :: "string list \<Rightarrow> string" where
  "join_bar [] = []"
| "join_bar [s] = s"
| "join_bar (s # ss) = s @ ''|'' @ join_bar ss"

lemma code_range: "0 \<le> code c \<and> code c < 256"
proof -
  have "of_char c < (256 :: nat)" by (metis of_char_mod_256 mod_less_divisor zero_less_numeral)
  moreover have "code c = int (of_char c)"
    unfolding code_def by (metis of_nat_of_char)
  ultimately show ?thesis by simp
qed

lemma code_char_of: "0 \<le> n \<Longrightarrow> n < 256 \<Longrightarrow> code (char_of n) = n"
  by (simp add: code_def)

lemma char_of_code [simp]: "char_of (code c) = c"
  by (simp add: code_def)

lemma lower_char_idem [simp]: "lower_char (lower_char c) = lower_char c"
proof (cases "(65 \<le> code c \<and> code c \<le> 90) \<or> (192 \<le> code c \<and> code c \<le> 222 \<and> code c \<noteq> 215)")
  case True
  then have "code (char_of (code c + 32)) = code c + 32"
    by (intro code_char_of) auto
  with True show ?thesis by (auto simp: lower_char_def)
next
  case False
  then have "lower_char c = c" by (simp only: lower_char_def if_False)
  then show ?thesis by simp
qed

lemma to_lower_idem [simp]: "to_lower (to_lower s) = to_lower s"
  by (simp add: to_lower_def)

lemma to_lower_Nil [simp]: "to_lower [] = []"
  by (simp add: to_lower_def)

lemma length_to_lower [simp]: "length (to_lower s) = length s"
  by (simp add: to_lower_def)

lemma to_lower_append: "to_lower (s @ t) = to_lower s @ to_lower t"
  by (simp add: to_lower_def)

lemma to_lower_take: "to_lower (take n s) = take n (to_lower s)"
  by (simp add: to_lower_def take_map)

lemma to_lower_drop: "to_lower (drop n s) = drop n (to_lower s)"
  by (simp add: to_lower_def drop_map)

section \<open>Digits\<close>

text \<open>The value of a digit in a radix up to 16, \<open>None\<close> when it is not one.\<close>

definition digit_val :: "int \<Rightarrow> char \<Rightarrow> int option" where
  "digit_val radix c =
    (let n = code c;
         d = (if 48 \<le> n \<and> n \<le> 57 then n - 48
              else if 97 \<le> n \<and> n \<le> 102 then n - 87
              else if 65 \<le> n \<and> n \<le> 70 then n - 55 else 99)
     in if d < radix then Some d else None)"

definition is_digit :: "int \<Rightarrow> char \<Rightarrow> bool" where
  "is_digit radix c \<longleftrightarrow> digit_val radix c \<noteq> None"

definition digits_val :: "int \<Rightarrow> string \<Rightarrow> int" where
  "digits_val radix s =
    foldl (\<lambda>acc c. acc * radix + (case digit_val radix c of Some d \<Rightarrow> d | None \<Rightarrow> 0)) 0 s"

definition all_digits :: "int \<Rightarrow> string \<Rightarrow> bool" where
  "all_digits radix s \<longleftrightarrow> s \<noteq> [] \<and> list_all (is_digit radix) s"

text \<open>The regular expression \<open>/^0x[0-9a-fA-F]{n}$/\<close>.\<close>

definition is_0x_hex :: "nat \<Rightarrow> string \<Rightarrow> bool" where
  "is_0x_hex n s \<longleftrightarrow>
    starts_with s ''0x'' \<and> length s = n + 2 \<and> list_all (is_digit 16) (drop 2 s)"

text \<open>\<open>d.toString(16)\<close> for one digit, lower case.\<close>

definition hex_digit :: "int \<Rightarrow> char" where
  "hex_digit d = char_of (if d < 10 then 48 + d else 87 + d)"

lemma digit_val_range: "digit_val radix c = Some d \<Longrightarrow> 0 \<le> d \<and> d < radix"
  by (auto simp: digit_val_def Let_def split: if_splits)

lemma digit_val_hex_digit:
  "0 \<le> d \<Longrightarrow> d < radix \<Longrightarrow> radix \<le> 16 \<Longrightarrow> digit_val radix (hex_digit d) = Some d"
  by (auto simp: digit_val_def hex_digit_def Let_def code_char_of)

lemma code_inject: "code c = code d \<Longrightarrow> c = d"
  by (metis char_of_code)

lemma char_of_eq_code: "code c = n \<Longrightarrow> char_of n = c"
  by (metis char_of_code)

lemma hex_digit_digit_val: "digit_val 16 c = Some d \<Longrightarrow> hex_digit d = lower_char c"
  by (auto simp: digit_val_def hex_digit_def lower_char_def Let_def algebra_simps
      intro!: char_of_eq_code split: if_splits)

section \<open>Decimal strings of bigints\<close>

text \<open>\<open>n.toString()\<close> of a bigint.\<close>

function nat_digits :: "int \<Rightarrow> string" where
  "nat_digits n = (if n < 10 then [hex_digit n] else nat_digits (n div 10) @ [hex_digit (n mod 10)])"
  by pat_completeness auto
termination
  by (relation "measure nat") auto

declare nat_digits.simps [simp del]

definition big_to_string :: "int \<Rightarrow> string" where
  "big_to_string n = (if n < 0 then ''-'' @ nat_digits (- n) else nat_digits n)"

text \<open>
  \<open>BigInt(s)\<close> of a string: white space trimmed, empty is 0, an optional sign before decimal
  digits, or an unsigned \<open>0x\<close>/\<open>0o\<close>/\<open>0b\<close> literal; anything else is a \<open>SyntaxError\<close>.
\<close>

definition radix_literal :: "string \<Rightarrow> (int \<times> string) option" where
  "radix_literal s =
    (if starts_with s ''0x'' \<or> starts_with s ''0X'' then Some (16, drop 2 s)
     else if starts_with s ''0o'' \<or> starts_with s ''0O'' then Some (8, drop 2 s)
     else if starts_with s ''0b'' \<or> starts_with s ''0B'' then Some (2, drop 2 s)
     else None)"

definition str_to_bigint :: "string \<Rightarrow> int result" where
  "str_to_bigint s0 =
    (let s = trim s0 in
     if s = [] then Inr 0
     else case radix_literal s of
       Some (r, ds) \<Rightarrow> if all_digits r ds then Inr (digits_val r ds) else Inl SyntaxError
     | None \<Rightarrow>
         if starts_with s ''-'' then
           (if all_digits 10 (drop 1 s) then Inr (- digits_val 10 (drop 1 s)) else Inl SyntaxError)
         else if starts_with s ''+'' then
           (if all_digits 10 (drop 1 s) then Inr (digits_val 10 (drop 1 s)) else Inl SyntaxError)
         else if all_digits 10 s then Inr (digits_val 10 s) else Inl SyntaxError)"

lemma code_hex_digit10: "0 \<le> d \<Longrightarrow> d < 10 \<Longrightarrow> code (hex_digit d) = 48 + d"
  by (simp add: hex_digit_def code_char_of)

lemma nat_digits_codes: "0 \<le> n \<Longrightarrow> \<forall>c \<in> set (nat_digits n). 48 \<le> code c \<and> code c \<le> 57"
proof (induction n rule: nat_digits.induct)
  case (1 n)
  show ?case
  proof (cases "n < 10")
    case True
    with 1 show ?thesis by (simp add: nat_digits.simps [of n] code_hex_digit10)
  next
    case False
    with 1 show ?thesis
      using code_hex_digit10 [of "n mod 10"] by (auto simp: nat_digits.simps [of n])
  qed
qed

lemma nat_digits_not_Nil: "nat_digits n \<noteq> []"
  by (simp add: nat_digits.simps [of n])

lemma is_digit_codes: "48 \<le> code c \<Longrightarrow> code c \<le> 57 \<Longrightarrow> is_digit 10 c"
  by (simp add: is_digit_def digit_val_def)

lemma all_digits_nat_digits: "0 \<le> n \<Longrightarrow> all_digits 10 (nat_digits n)"
  using nat_digits_codes [of n]
  by (auto simp: all_digits_def nat_digits_not_Nil list_all_iff intro: is_digit_codes)

lemma digits_val_snoc:
  "digits_val r (s @ [c]) = digits_val r s * r + (case digit_val r c of Some d \<Rightarrow> d | None \<Rightarrow> 0)"
  by (simp add: digits_val_def)

lemma digits_val_nat_digits: "0 \<le> n \<Longrightarrow> digits_val 10 (nat_digits n) = n"
proof (induction n rule: nat_digits.induct)
  case (1 n)
  show ?case
  proof (cases "n < 10")
    case True
    with 1 show ?thesis
      using digits_val_snoc [of 10 "[]"]
      by (simp add: nat_digits.simps [of n] digit_val_hex_digit digits_val_def)
  next
    case False
    with 1 have "digits_val 10 (nat_digits (n div 10)) = n div 10" by simp
    with 1 False show ?thesis
      by (simp add: nat_digits.simps [of n] digits_val_snoc digit_val_hex_digit)
  qed
qed

lemma trim_no_space: "\<forall>c \<in> set s. \<not> is_space c \<Longrightarrow> trim s = s"
proof -
  assume a: "\<forall>c \<in> set s. \<not> is_space c"
  have drop_id: "dropWhile is_space t = t" if "\<forall>c \<in> set t. \<not> is_space c" for t
    using that by (cases t) auto
  from a show ?thesis by (simp add: trim_def drop_id)
qed

lemma digit_not_space: "48 \<le> code c \<Longrightarrow> code c \<le> 57 \<Longrightarrow> \<not> is_space c"
  by (simp add: is_space_def)

lemma code_dash: "code (CHR ''-'') = 45" and code_plus: "code (CHR ''+'') = 43"
  and code_x: "code (CHR ''x'') = 120" "code (CHR ''X'') = 88" "code (CHR ''o'') = 111"
    "code (CHR ''O'') = 79" "code (CHR ''b'') = 98" "code (CHR ''B'') = 66"
  by (simp_all add: code_def)

lemma starts_with_two:
  "starts_with s [a, b] \<longleftrightarrow> (\<exists>t. s = a # b # t)"
  by (cases s; cases "tl s") auto

lemma starts_with_one: "starts_with s [a] \<longleftrightarrow> (\<exists>t. s = a # t)"
  by (cases s) auto

lemma radix_literal_digits:
  assumes "\<forall>c \<in> set s. 48 \<le> code c \<and> code c \<le> 57"
  shows "radix_literal s = None" "\<not> starts_with s ''-''" "\<not> starts_with s ''+''"
  using assms
  by (auto simp: radix_literal_def starts_with_two starts_with_one code_x code_dash code_plus)

lemma radix_literal_neg: "radix_literal (CHR ''-'' # s) = None"
  by (simp add: radix_literal_def)

theorem str_to_bigint_big_to_string [simp]: "str_to_bigint (big_to_string n) = Inr n"
proof (cases "n < 0")
  case True
  let ?d = "nat_digits (- n)"
  from True have c: "\<forall>c \<in> set ?d. 48 \<le> code c \<and> code c \<le> 57"
    by (intro nat_digits_codes) simp
  then have "\<forall>c \<in> set (CHR ''-'' # ?d). \<not> is_space c"
    by (auto simp: is_space_def code_dash)
  then have "trim (CHR ''-'' # ?d) = CHR ''-'' # ?d" by (rule trim_no_space)
  with True show ?thesis
    by (simp add: str_to_bigint_def big_to_string_def radix_literal_neg all_digits_nat_digits
        digits_val_nat_digits)
next
  case False
  let ?d = "nat_digits n"
  from False have c: "\<forall>c \<in> set ?d. 48 \<le> code c \<and> code c \<le> 57"
    by (intro nat_digits_codes) simp
  then have "trim ?d = ?d"
    by (intro trim_no_space) (auto simp: is_space_def)
  with False show ?thesis
    using radix_literal_digits [OF c]
    by (simp add: str_to_bigint_def big_to_string_def nat_digits_not_Nil all_digits_nat_digits
        digits_val_nat_digits)
qed

lemma big_to_string_not_Nil [simp]: "big_to_string n \<noteq> []"
  by (simp add: big_to_string_def nat_digits_not_Nil)

lemma big_to_string_inject [simp]: "big_to_string m = big_to_string n \<longleftrightarrow> m = n"
  by (metis str_to_bigint_big_to_string sum.inject(2))

end
