(* ===== verification/JsVal.thy ===== *)
theory JsVal
  imports JsBase
begin

text \<open>
  JavaScript numbers, values of type \<open>unknown\<close>, and the conversions between them that the
  handlers apply to wire data and to environment variables.
\<close>

section \<open>Numbers\<close>

datatype jnum = Fin rat | PInf | NInf | NaN

abbreviation num :: "int \<Rightarrow> jnum" where
  "num i \<equiv> Fin (of_int i)"

fun num_finite :: "jnum \<Rightarrow> bool" where
  "num_finite (Fin _) = True"
| "num_finite _ = False"

fun num_less :: "jnum \<Rightarrow> jnum \<Rightarrow> bool" where
  "num_less (Fin a) (Fin b) = (a < b)"
| "num_less NaN _ = False"
| "num_less _ NaN = False"
| "num_less NInf x = (x \<noteq> NInf)"
| "num_less _ PInf = True"
| "num_less _ _ = False"

text \<open>Product with a positive integer constant.\<close>

fun num_scale :: "int \<Rightarrow> jnum \<Rightarrow> jnum" where
  "num_scale k (Fin a) = Fin (of_int k * a)"
| "num_scale k x = x"

definition trunc_rat :: "rat \<Rightarrow> int" where
  "trunc_rat q = (if q < 0 then - \<lfloor>- q\<rfloor> else \<lfloor>q\<rfloor>)"

fun num_trunc :: "jnum \<Rightarrow> jnum" where
  "num_trunc (Fin q) = num (trunc_rat q)"
| "num_trunc x = x"

definition is_int_rat :: "rat \<Rightarrow> bool" where
  "is_int_rat q \<longleftrightarrow> of_int \<lfloor>q\<rfloor> = q"

lemma trunc_rat_of_int [simp]: "trunc_rat (of_int i) = i"
  by (simp add: trunc_rat_def flip: of_int_minus)

lemma trunc_rat_0 [simp]: "trunc_rat 0 = 0"
  using trunc_rat_of_int [of 0] by simp

lemma is_int_rat_of_int [simp]: "is_int_rat (of_int i)"
  by (simp add: is_int_rat_def)

lemma num_trunc_idem [simp]: "num_trunc (num_trunc x) = num_trunc x"
  by (cases x) auto

section \<open>Number of a string\<close>

definition take_sign :: "string \<Rightarrow> int \<times> string" where
  "take_sign s =
    (if starts_with s ''-'' then (- 1, drop 1 s)
     else if starts_with s ''+'' then (1, drop 1 s) else (1, s))"

text \<open>The unsigned decimal literal: digits, an optional fraction, an optional exponent.\<close>

definition split_at :: "(char \<Rightarrow> bool) \<Rightarrow> string \<Rightarrow> string \<times> string option" where
  "split_at p s =
    (let a = takeWhile (\<lambda>c. \<not> p c) s; b = dropWhile (\<lambda>c. \<not> p c) s
     in (a, if b = [] then None else Some (drop 1 b)))"

definition unsigned_decimal :: "string \<Rightarrow> rat option" where
  "unsigned_decimal s =
    (let (mant, ex) = split_at (\<lambda>c. c = CHR ''e'' \<or> c = CHR ''E'') s;
         (ip, fp) = split_at (\<lambda>c. c = CHR ''.'') mant;
         f = (case fp of None \<Rightarrow> [] | Some f \<Rightarrow> f);
         m = (of_int (digits_val 10 (ip @ f)) :: rat) / 10 ^ length f
     in if \<not> all_digits 10 (ip @ f) then None
        else case ex of
          None \<Rightarrow> Some m
        | Some e0 \<Rightarrow>
            (let (sg, e) = take_sign e0 in
             if \<not> all_digits 10 e then None
             else if sg = 1 then Some (m * 10 ^ nat (digits_val 10 e))
             else Some (m / 10 ^ nat (digits_val 10 e))))"

text \<open>\<open>Number(s)\<close>.\<close>

definition str_to_num :: "string \<Rightarrow> jnum" where
  "str_to_num s0 =
    (let s = trim s0 in
     if s = [] then Fin 0
     else case radix_literal s of
       Some (r, ds) \<Rightarrow> if all_digits r ds then num (digits_val r ds) else NaN
     | None \<Rightarrow>
         (let (sg, t) = take_sign s in
          if t = ''Infinity'' then (if sg = 1 then PInf else NInf)
          else case unsigned_decimal t of
            Some q \<Rightarrow> Fin (of_int sg * q)
          | None \<Rightarrow> NaN))"

text \<open>\<open>parseInt(s, radix)\<close>: the longest numeric prefix, \<open>NaN\<close> when it is empty.\<close>

definition parse_int :: "int \<Rightarrow> string \<Rightarrow> jnum" where
  "parse_int radix s0 =
    (let (sg, s) = take_sign (dropWhile is_space s0);
         t = (if radix = 16 \<and> (starts_with s ''0x'' \<or> starts_with s ''0X'') then drop 2 s else s);
         ds = takeWhile (is_digit radix) t
     in if ds = [] then NaN else num (sg * digits_val radix ds))"

section \<open>Values of type unknown\<close>

text \<open>
  JSON-shaped values, with the two extra cases the handlers pass around in memory:
  \<open>undefined\<close> and \<open>bigint\<close>. Arrays do not occur where these conversions are applied and are
  not modelled.
\<close>

datatype jval =
    JUndef | JNull | JBool bool | JNum jnum | JBig int | JStr string
  | JObj "(string \<times> jval) list"

text \<open>\<open>(v ?? \{\}).k\<close>: a property read that never throws.\<close>

fun jget :: "jval \<Rightarrow> string \<Rightarrow> jval" where
  "jget (JObj fs) k = (case map_of fs k of None \<Rightarrow> JUndef | Some v \<Rightarrow> v)"
| "jget _ k = JUndef"

fun jnullish :: "jval \<Rightarrow> bool" where
  "jnullish JUndef = True"
| "jnullish JNull = True"
| "jnullish _ = False"

text \<open>\<open>BigInt(v)\<close>.\<close>

fun js_BigInt :: "jval \<Rightarrow> int result" where
  "js_BigInt (JBig i) = Inr i"
| "js_BigInt (JNum (Fin q)) = (if is_int_rat q then Inr \<lfloor>q\<rfloor> else Inl RangeError)"
| "js_BigInt (JNum _) = Inl RangeError"
| "js_BigInt (JStr s) = str_to_bigint s"
| "js_BigInt (JBool b) = Inr (if b then 1 else 0)"
| "js_BigInt JUndef = Inl TypeError"
| "js_BigInt JNull = Inl TypeError"
| "js_BigInt (JObj _) = Inl SyntaxError"

text \<open>\<open>Number(v)\<close>.\<close>

fun js_Number :: "jval \<Rightarrow> jnum" where
  "js_Number (JBig i) = num i"
| "js_Number (JNum n) = n"
| "js_Number (JStr s) = str_to_num s"
| "js_Number (JBool b) = num (if b then 1 else 0)"
| "js_Number JNull = num 0"
| "js_Number _ = NaN"

text \<open>Truthiness, as \<open>!v\<close>, \<open>v \<and> ...\<close> and \<open>v || d\<close> read it.\<close>

fun truthy :: "jval \<Rightarrow> bool" where
  "truthy (JBool b) = b"
| "truthy (JNum n) = (n \<noteq> num 0 \<and> n \<noteq> NaN)"
| "truthy (JBig i) = (i \<noteq> 0)"
| "truthy (JStr s) = (s \<noteq> [])"
| "truthy (JObj _) = True"
| "truthy _ = False"

text \<open>
  \<open>/\<close> and \<open>%\<close> on bigints truncate towards zero and throw \<open>RangeError\<close> on a zero divisor.
\<close>

definition tdiv :: "int \<Rightarrow> int \<Rightarrow> int" where
  "tdiv a b = sgn a * sgn b * (\<bar>a\<bar> div \<bar>b\<bar>)"

definition big_div :: "int \<Rightarrow> int \<Rightarrow> int result" where
  "big_div a b = (if b = 0 then Inl RangeError else Inr (tdiv a b))"

definition big_rem :: "int \<Rightarrow> int \<Rightarrow> int result" where
  "big_rem a b = (if b = 0 then Inl RangeError else Inr (sgn a * (\<bar>a\<bar> mod \<bar>b\<bar>)))"

lemma tdiv_pos: "0 \<le> a \<Longrightarrow> 0 < b \<Longrightarrow> tdiv a b = a div b"
  by (cases "a = 0") (auto simp: tdiv_def)

lemma big_div_pos: "0 \<le> a \<Longrightarrow> 0 < b \<Longrightarrow> big_div a b = Inr (a div b)"
  by (simp add: big_div_def tdiv_pos)

lemma big_rem_pos: "0 \<le> a \<Longrightarrow> 0 < b \<Longrightarrow> big_rem a b = Inr (a mod b)"
  by (cases "a = 0") (auto simp: big_rem_def)

text \<open>
  \<open>Math.trunc(v).toString()\<close> of a finite number, for magnitudes below \<open>10^21\<close>, where it is
  plain decimal notation.
\<close>

definition rat_trunc_to_string :: "rat \<Rightarrow> string" where
  "rat_trunc_to_string q = big_to_string (trunc_rat q)"

section \<open>Environment variables\<close>

type_synonym penv = "string \<Rightarrow> string option"

text \<open>\<open>process.env.K ?? d\<close> and \<open>process.env.K || d\<close>.\<close>

definition env_or_nullish :: "penv \<Rightarrow> string \<Rightarrow> string \<Rightarrow> string" where
  "env_or_nullish pe k d = (case pe k of Some v \<Rightarrow> v | None \<Rightarrow> d)"

definition env_or_falsy :: "penv \<Rightarrow> string \<Rightarrow> string \<Rightarrow> string" where
  "env_or_falsy pe k d = (case pe k of Some v \<Rightarrow> (if v = [] then d else v) | None \<Rightarrow> d)"

definition env_is :: "penv \<Rightarrow> string \<Rightarrow> string \<Rightarrow> bool" where
  "env_is pe k v \<longleftrightarrow> pe k = Some v"

lemma digits_val_append_aux:
  "digits_val r (s @ t) = foldl (\<lambda>acc c. acc * r +
    (case digit_val r c of Some d \<Rightarrow> d | None \<Rightarrow> 0)) (digits_val r s) t"
  by (simp add: digits_val_def)

lemma digits_val_two:
  "digit_val r a = Some x \<Longrightarrow> digit_val r b = Some y \<Longrightarrow> digits_val r [a, b] = x * r + y"
  by (simp add: digits_val_def)

lemma hex_not_special:
  assumes "is_digit 16 c"
  shows "\<not> is_space c" "c \<noteq> CHR ''-''" "c \<noteq> CHR ''+''" "c \<noteq> CHR ''x''" "c \<noteq> CHR ''X''"
  using assms
  by (auto simp: is_digit_def digit_val_def is_space_def Let_def code_def split: if_splits)

lemma parse_int_hex_pair:
  assumes "digit_val 16 a = Some x" and "digit_val 16 b = Some y"
  shows "parse_int 16 [a, b] = num (16 * x + y)"
proof -
  have "is_digit 16 a" "is_digit 16 b" using assms by (auto simp: is_digit_def)
  then show ?thesis
    using assms hex_not_special [of a] hex_not_special [of b]
    by (simp add: parse_int_def take_sign_def digits_val_two algebra_simps)
qed

end
