(* ===== verification/RawOrder.thy ===== *)
theory RawOrder
  imports JsVal "HOL-Library.Word"
begin

text \<open>
  \<open>apps/api/src/matching/raw-order.util.ts\<close>: the signature tuple of a 0x v4 order, its
  66-byte packed form in \<open>Order.signature\<close>, and the JSON-safe normal form of the order itself.
\<close>

section \<open>Signature tuples\<close>

record sig_tuple =
  signatureType :: int
  sig_v :: int
  sig_r :: string
  sig_s :: string

definition isHex32 :: "string \<Rightarrow> bool" where
  "isHex32 s \<longleftrightarrow> is_0x_hex 64 s"

definition strip_0x :: "string \<Rightarrow> string" where
  "strip_0x s = (if starts_with s ''0x'' then drop 2 s else s)"

definition lift_v :: "jnum \<Rightarrow> jnum" where
  "lift_v v = (if v = num 0 then num 27 else if v = num 1 then num 28 else v)"

definition signatureToTuple :: "jval \<Rightarrow> sig_tuple option" where
  "signatureToTuple x =
    (case x of
       JStr s \<Rightarrow>
         (let hex = strip_0x s in
          if \<not> (length hex = 130 \<and> list_all (is_digit 16) hex) then None
          else
            let r = ''0x'' @ js_slice 0 64 hex;
                sv = ''0x'' @ js_slice 64 128 hex;
                v = lift_v (parse_int 16 (js_slice 128 130 hex))
            in if v = num 27 then Some \<lparr>signatureType = 2, sig_v = 27, sig_r = r, sig_s = sv\<rparr>
               else if v = num 28 then Some \<lparr>signatureType = 2, sig_v = 28, sig_r = r, sig_s = sv\<rparr>
               else None)
     | JObj _ \<Rightarrow>
         (case (jget x ''r'', jget x ''s'') of
            (JStr r, JStr s) \<Rightarrow>
              if \<not> isHex32 r \<or> \<not> isHex32 s then None
              else (case jget x ''v'' of
                JNum vRaw \<Rightarrow>
                  if \<not> num_finite vRaw then None
                  else let v = lift_v vRaw;
                           st = (case jget x ''signatureType'' of
                                   JNum n \<Rightarrow> if num_finite n then n else num 2
                                 | _ \<Rightarrow> num 2)
                       in if v \<noteq> num 27 \<and> v \<noteq> num 28 then None
                          else if st \<noteq> num 2 \<and> st \<noteq> num 3 then None
                          else Some \<lparr>signatureType = (if st = num 2 then 2 else 3),
                                     sig_v = (if v = num 27 then 27 else 28),
                                     sig_r = r, sig_s = s\<rparr>
              | _ \<Rightarrow> None)
          | _ \<Rightarrow> None)
     | _ \<Rightarrow> None)"

text \<open>The shape the TypeScript type \<open>ZeroExSigTuple\<close> promises.\<close>

definition valid_tuple :: "sig_tuple \<Rightarrow> bool" where
  "valid_tuple t \<longleftrightarrow>
    signatureType t \<in> {2, 3} \<and> sig_v t \<in> {27, 28} \<and> isHex32 (sig_r t) \<and> isHex32 (sig_s t)"

section \<open>Packing\<close>

text \<open>
  A \<open>Uint8Array\<close> is a list of bytes; an element store converts modulo 256 and \<open>NaN\<close> to 0;
  \<open>buf.set(xs, off)\<close> overwrites in place.
\<close>

type_synonym bytes = "8 word list"

fun to_byte :: "jnum \<Rightarrow> 8 word" where
  "to_byte (Fin q) = word_of_int (trunc_rat q)"
| "to_byte _ = 0"

function hexToBytes :: "string \<Rightarrow> bytes" where
  "hexToBytes hex =
    (if length hex < 2 then [] else to_byte (parse_int 16 (js_slice 0 2 hex)) # hexToBytes (drop 2 hex))"
  by pat_completeness auto
termination
  by (relation "measure length") auto

declare hexToBytes.simps [simp del]

definition buf_set :: "bytes \<Rightarrow> nat \<Rightarrow> bytes \<Rightarrow> bytes" where
  "buf_set xs off buf = take off buf @ xs @ drop (off + length xs) buf"

definition tupleToPackedBytes :: "sig_tuple \<Rightarrow> bytes" where
  "tupleToPackedBytes t =
    (let buf0 = replicate 66 0;
         buf1 = buf0[0 := word_of_int (signatureType t)];
         buf2 = buf_set (hexToBytes (drop 2 (sig_r t))) 1 buf1;
         buf3 = buf_set (hexToBytes (drop 2 (sig_s t))) 33 buf2
     in buf3[65 := word_of_int (sig_v t)])"

definition byte_to_hex :: "8 word \<Rightarrow> string" where
  "byte_to_hex b =
    (let n = uint b; s = (if n < 16 then [hex_digit n] else [hex_digit (n div 16), hex_digit (n mod 16)])
     in replicate (2 - length s) CHR ''0'' @ s)"

definition bytesToHex :: "bytes \<Rightarrow> string" where
  "bytesToHex bs = concat (map byte_to_hex bs)"

definition packedBytesToTuple :: "bytes option \<Rightarrow> sig_tuple option" where
  "packedBytesToTuple b =
    (case b of
       None \<Rightarrow> None
     | Some buf \<Rightarrow>
         if length buf \<noteq> 66 then None
         else let st = uint (buf ! 0); v = uint (buf ! 65) in
           if st \<noteq> 2 \<and> st \<noteq> 3 then None
           else if v \<noteq> 27 \<and> v \<noteq> 28 then None
           else Some \<lparr>signatureType = st, sig_v = v,
                      sig_r = ''0x'' @ bytesToHex (js_slice 1 33 buf),
                      sig_s = ''0x'' @ bytesToHex (js_slice 33 65 buf)\<rparr>)"

section \<open>The JSON-safe order\<close>

definition toLowerAddr :: "jval \<Rightarrow> string" where
  "toLowerAddr v = (case v of JStr s \<Rightarrow> to_lower s | _ \<Rightarrow> '''')"

definition toLowerHex :: "jval \<Rightarrow> string" where
  "toLowerHex v = (case v of JStr s \<Rightarrow> to_lower s | _ \<Rightarrow> '''')"

definition toDecimalString :: "jval \<Rightarrow> string" where
  "toDecimalString v =
    (case v of
       JBig i \<Rightarrow> big_to_string i
     | JNum (Fin q) \<Rightarrow> rat_trunc_to_string q
     | JStr s \<Rightarrow> s
     | _ \<Rightarrow> ''0'')"

definition toNumber :: "jval \<Rightarrow> jnum" where
  "toNumber v =
    (case v of
       JNum (Fin q) \<Rightarrow> num (trunc_rat q)
     | JBig i \<Rightarrow> num i
     | JStr s \<Rightarrow> (case str_to_num s of Fin q \<Rightarrow> num (trunc_rat q) | _ \<Rightarrow> num 0)
     | _ \<Rightarrow> num 0)"

definition normalizeOrderForJson :: "jval \<Rightarrow> jval" where
  "normalizeOrderForJson o' = JObj
    [(''makerToken'', JStr (toLowerAddr (jget o' ''makerToken''))),
     (''takerToken'', JStr (toLowerAddr (jget o' ''takerToken''))),
     (''makerAmount'', JStr (toDecimalString (jget o' ''makerAmount''))),
     (''takerAmount'', JStr (toDecimalString (jget o' ''takerAmount''))),
     (''takerTokenFeeAmount'', JStr (toDecimalString (jget o' ''takerTokenFeeAmount''))),
     (''maker'', JStr (toLowerAddr (jget o' ''maker''))),
     (''taker'', JStr (toLowerAddr (jget o' ''taker''))),
     (''sender'', JStr (toLowerAddr (jget o' ''sender''))),
     (''feeRecipient'', JStr (toLowerAddr (jget o' ''feeRecipient''))),
     (''pool'', JStr (toLowerHex (jget o' ''pool''))),
     (''expiry'', JNum (toNumber (jget o' ''expiry''))),
     (''salt'', JStr (toDecimalString (jget o' ''salt'')))]"

section \<open>Lengths and bytes\<close>

lemma length_buf_set [simp]:
  "off + length xs \<le> length buf \<Longrightarrow> length (buf_set xs off buf) = length buf"
  by (simp add: buf_set_def)

lemma length_hexToBytes [simp]: "length (hexToBytes s) = length s div 2"
  by (induction s rule: hexToBytes.induct) (subst hexToBytes.simps, auto)

lemma length_byte_to_hex [simp]: "length (byte_to_hex b) = 2"
  by (simp add: byte_to_hex_def Let_def)

lemma uint_byte_range: "0 \<le> uint (b :: 8 word) \<and> uint b < 256"
  using uint_range_size [of b] by (simp add: word_size)

lemma uint_word_of_int8: "0 \<le> n \<Longrightarrow> n < 256 \<Longrightarrow> uint (word_of_int n :: 8 word) = n"
  by (simp add: uint_word_of_int)

lemma byte_nibbles:
  "0 \<le> uint (b :: 8 word) div 16" "uint b div 16 < 16" "0 \<le> uint b mod 16" "uint b mod 16 < 16"
  using uint_byte_range [of b] by (simp_all add: pos_imp_zdiv_nonneg_iff)

lemma hex_digit_zero: "hex_digit 0 = CHR ''0''"
  by (simp add: hex_digit_def char_of_eq_code code_def)

lemma byte_to_hex_eq: "byte_to_hex b = [hex_digit (uint b div 16), hex_digit (uint b mod 16)]"
proof (cases "uint b < 16")
  case True
  then show ?thesis
    using uint_byte_range [of b]
    by (simp add: byte_to_hex_def hex_digit_zero div_pos_pos_trivial mod_pos_pos_trivial)
next
  case False
  then show ?thesis by (simp add: byte_to_hex_def Let_def)
qed

lemma hexToBytes_Cons2:
  "hexToBytes (a # b # s) = to_byte (parse_int 16 [a, b]) # hexToBytes s"
  by (subst hexToBytes.simps) (simp add: js_slice_def)

lemma hexToBytes_Nil [simp]: "hexToBytes [] = []"
  by (simp add: hexToBytes.simps)

lemma to_byte_pair:
  assumes "digit_val 16 a = Some x" and "digit_val 16 b = Some y"
  shows "to_byte (parse_int 16 [a, b]) = word_of_int (16 * x + y)"
  using assms by (simp add: parse_int_hex_pair del: of_int_add of_int_mult)

lemma byte_to_hex_to_byte:
  assumes "is_digit 16 a" and "is_digit 16 b"
  shows "byte_to_hex (to_byte (parse_int 16 [a, b])) = [lower_char a, lower_char b]"
proof -
  obtain x y where xy: "digit_val 16 a = Some x" "digit_val 16 b = Some y"
    using assms by (auto simp: is_digit_def)
  have r: "0 \<le> x" "x < 16" "0 \<le> y" "y < 16"
    using xy digit_val_range by blast+
  then have "uint (word_of_int (16 * x + y) :: 8 word) = 16 * x + y"
    by (intro uint_word_of_int8) auto
  then show ?thesis
    using xy r hex_digit_digit_val
    by (simp add: to_byte_pair byte_to_hex_eq del: wi_hom_syms of_int_add of_int_mult)
qed

lemma bytesToHex_hexToBytes:
  "even (length s) \<Longrightarrow> list_all (is_digit 16) s \<Longrightarrow> bytesToHex (hexToBytes s) = to_lower s"
proof (induction s rule: hexToBytes.induct)
  case (1 hex)
  show ?case
  proof (cases hex)
    case Nil
    then show ?thesis by (simp add: bytesToHex_def to_lower_def)
  next
    case (Cons a t)
    with "1.prems" obtain b u where hex: "hex = a # b # u"
      by (cases t) auto
    with 1 have "bytesToHex (hexToBytes u) = to_lower u" by simp
    with hex 1 show ?thesis
      by (simp add: hexToBytes_Cons2 bytesToHex_def to_lower_def byte_to_hex_to_byte)
  qed
qed

lemma hexToBytes_byte:
  "hexToBytes (byte_to_hex b @ s) = b # hexToBytes s"
proof -
  have "to_byte (parse_int 16 (byte_to_hex b)) = word_of_int (16 * (uint b div 16) + uint b mod 16)"
    unfolding byte_to_hex_eq
    by (intro to_byte_pair digit_val_hex_digit) (simp_all add: byte_nibbles)
  also have "\<dots> = b" by (simp only: mult_div_mod_eq word_of_int_uint)
  finally show ?thesis by (simp add: byte_to_hex_eq hexToBytes_Cons2)
qed

lemma hexToBytes_bytesToHex [simp]: "hexToBytes (bytesToHex bs) = bs"
proof (induction bs)
  case Nil
  then show ?case by (simp add: bytesToHex_def)
next
  case (Cons b bs)
  then show ?case by (simp add: bytesToHex_def hexToBytes_byte)
qed

lemma length_bytesToHex [simp]: "length (bytesToHex bs) = 2 * length bs"
  by (induction bs) (auto simp: bytesToHex_def)

lemma bytesToHex_digits: "list_all (is_digit 16) (bytesToHex bs)"
proof (induction bs)
  case (Cons b bs)
  have "list_all (is_digit 16) (byte_to_hex b)"
    by (simp add: byte_to_hex_eq is_digit_def digit_val_hex_digit byte_nibbles)
  with Cons show ?case by (simp add: bytesToHex_def)
qed (simp add: bytesToHex_def)

section \<open>The packed layout\<close>

lemma isHex32_drop:
  "isHex32 s \<Longrightarrow> length s = 66 \<and> s = ''0x'' @ drop 2 s \<and> list_all (is_digit 16) (drop 2 s)"
  by (auto simp: isHex32_def is_0x_hex_def starts_with_two)

lemma length_tupleToPackedBytes:
  "valid_tuple t \<Longrightarrow> length (tupleToPackedBytes t) = 66"
  by (simp add: valid_tuple_def tupleToPackedBytes_def Let_def isHex32_drop)

text \<open>The four fields of the buffer, \<open>[signatureType][r][s][v]\<close>, as one append.\<close>

lemma tupleToPackedBytes_layout:
  assumes "valid_tuple t"
  shows "tupleToPackedBytes t =
    word_of_int (signatureType t) # hexToBytes (drop 2 (sig_r t)) @
    hexToBytes (drop 2 (sig_s t)) @ [word_of_int (sig_v t)]"
proof -
  let ?r = "hexToBytes (drop 2 (sig_r t))" and ?s = "hexToBytes (drop 2 (sig_s t))"
  have l: "length ?r = 32" "length ?s = 32"
    using assms isHex32_drop by (auto simp: valid_tuple_def)
  have "replicate 66 (0 :: 8 word) = 0 # replicate 65 0"
    by (simp flip: replicate_Suc)
  then have "buf_set ?r 1 ((replicate 66 0)[0 := word_of_int (signatureType t)]) =
      word_of_int (signatureType t) # ?r @ replicate 33 0"
    using l by (simp add: buf_set_def)
  moreover have "buf_set ?s 33 (word_of_int (signatureType t) # ?r @ replicate 33 0) =
      word_of_int (signatureType t) # ?r @ ?s @ replicate 1 0"
    using l by (simp add: buf_set_def)
  ultimately show ?thesis
    using l by (simp add: tupleToPackedBytes_def Let_def list_update_append)
qed

lemma packedBytes_layout:
  assumes "length r = 32" and "length s = 32" and "st = 2 \<or> st = 3" and "v = 27 \<or> v = 28"
  shows "packedBytesToTuple (Some (word_of_int st # r @ s @ [word_of_int v])) =
    Some \<lparr>signatureType = st, sig_v = v, sig_r = ''0x'' @ bytesToHex r, sig_s = ''0x'' @ bytesToHex s\<rparr>"
  using assms
  by (auto simp: packedBytesToTuple_def Let_def js_slice_def nth_append)

section \<open>Properties\<close>

lemma signatureToTuple_valid: "signatureToTuple x = Some t \<Longrightarrow> valid_tuple t"
proof -
  assume a: "signatureToTuple x = Some t"
  have hex: "isHex32 (''0x'' @ js_slice 0 64 h)" "isHex32 (''0x'' @ js_slice 64 128 h)"
    if "length h = 130" "list_all (is_digit 16) h" for h
    using that
    by (auto simp: isHex32_def is_0x_hex_def js_slice_def list_all_iff
        dest: in_set_takeD in_set_dropD)
  show ?thesis
  proof (cases x)
    case (JStr s)
    with a show ?thesis
      using hex [of "strip_0x s"]
      by (auto simp: signatureToTuple_def Let_def valid_tuple_def split: if_splits)
  next
    case (JObj fs)
    with a show ?thesis
      by (auto simp: signatureToTuple_def Let_def valid_tuple_def split: if_splits jval.splits)
  qed (use a in \<open>simp_all add: signatureToTuple_def\<close>)
qed

text \<open>
  What placement stores in \<open>Order.signature\<close> is what the fill builder reads back: every
  signature \<open>signatureToTuple\<close> accepts, hex string or tuple, packs into exactly 66 bytes, and
  unpacking returns the same type discriminator (EIP712 or ETHSIGN), the same \<open>v\<close> and the same
  \<open>r\<close> and \<open>s\<close>, in lower case.
\<close>

theorem signature_store_roundtrip:
  assumes "signatureToTuple x = Some t"
  shows "length (tupleToPackedBytes t) = 66 \<and>
    packedBytesToTuple (Some (tupleToPackedBytes t)) =
      Some (t\<lparr>sig_r := to_lower (sig_r t), sig_s := to_lower (sig_s t)\<rparr>)"
proof -
  have v: "valid_tuple t" using assms by (rule signatureToTuple_valid)
  then have r: "isHex32 (sig_r t)" "isHex32 (sig_s t)"
    and st: "signatureType t = 2 \<or> signatureType t = 3" "sig_v t = 27 \<or> sig_v t = 28"
    by (auto simp: valid_tuple_def)
  have low: "''0x'' @ bytesToHex (hexToBytes (drop 2 h)) = to_lower h" if "isHex32 h" for h
  proof -
    from isHex32_drop [OF that] have "h = ''0x'' @ drop 2 h" and "length h = 66"
      and d: "list_all (is_digit 16) (drop 2 h)" by auto
    then have "to_lower h = to_lower ''0x'' @ to_lower (drop 2 h)"
      by (metis to_lower_append)
    also have "to_lower ''0x'' = ''0x''" by (simp add: to_lower_def lower_char_def code_def)
    finally show ?thesis using d \<open>length h = 66\<close> by (simp add: bytesToHex_hexToBytes)
  qed
  have "packedBytesToTuple (Some (tupleToPackedBytes t)) =
      Some \<lparr>signatureType = signatureType t, sig_v = sig_v t,
        sig_r = to_lower (sig_r t), sig_s = to_lower (sig_s t)\<rparr>"
    using packedBytes_layout [of "hexToBytes (drop 2 (sig_r t))" "hexToBytes (drop 2 (sig_s t))"]
      isHex32_drop r st
    by (simp add: tupleToPackedBytes_layout v low [symmetric])
  then show ?thesis by (simp add: length_tupleToPackedBytes v)
qed

theorem signature_store_roundtrip_witness:
  "length (tupleToPackedBytes \<lparr>signatureType = 2, sig_v = 28,
     sig_r = ''0x'' @ replicate 64 CHR ''A'', sig_s = ''0x'' @ replicate 64 CHR ''1''\<rparr>) = 66"
proof -
  have "signatureToTuple (JStr (''0x'' @ replicate 64 CHR ''A'' @ replicate 64 CHR ''1'' @ ''01'')) =
      Some \<lparr>signatureType = 2, sig_v = 28, sig_r = ''0x'' @ replicate 64 CHR ''A'',
         sig_s = ''0x'' @ replicate 64 CHR ''1''\<rparr>"
    by code_simp
  from signature_store_roundtrip [OF this] show ?thesis by blast
qed

text \<open>
  The reader is strict: a stored buffer it accepts has the 66-byte layout, decodes to a
  well-formed tuple, and re-encoding that tuple gives back the very same bytes, so the legacy
  0-byte and 65-byte rows and rows with a foreign discriminator are never read as signatures.
\<close>

theorem packed_bytes_reencode:
  assumes "packedBytesToTuple b = Some t"
  shows "b = Some (tupleToPackedBytes t) \<and> valid_tuple t"
proof -
  obtain buf where b: "b = Some buf" and len: "length buf = 66"
    using assms by (auto simp: packedBytesToTuple_def split: option.splits if_splits)
  let ?r = "js_slice 1 33 buf" and ?s = "js_slice 33 65 buf"
  have t: "t = \<lparr>signatureType = uint (buf ! 0), sig_v = uint (buf ! 65),
      sig_r = ''0x'' @ bytesToHex ?r, sig_s = ''0x'' @ bytesToHex ?s\<rparr>"
    and st: "uint (buf ! 0) = 2 \<or> uint (buf ! 0) = 3" "uint (buf ! 65) = 27 \<or> uint (buf ! 65) = 28"
    using assms b len by (auto simp: packedBytesToTuple_def Let_def split: if_splits)
  have l: "length ?r = 32" "length ?s = 32" using len by (auto simp: js_slice_def)
  have h: "isHex32 (''0x'' @ bytesToHex ?r)" "isHex32 (''0x'' @ bytesToHex ?s)"
    using l by (simp_all add: isHex32_def is_0x_hex_def bytesToHex_digits)
  have v: "valid_tuple t" using st h by (auto simp: t valid_tuple_def)
  have "buf = buf ! 0 # ?r @ ?s @ [buf ! 65]"
  proof (rule nth_equalityI)
    show "length buf = length (buf ! 0 # ?r @ ?s @ [buf ! 65])" using l len by simp
    show "buf ! i = (buf ! 0 # ?r @ ?s @ [buf ! 65]) ! i" if "i < length buf" for i
      using that len l by (cases "i = 65") (auto simp: js_slice_def nth_append nth_Cons')
  qed
  also have "\<dots> = tupleToPackedBytes t"
    using v by (simp add: tupleToPackedBytes_layout t)
  finally show ?thesis using b v by simp
qed

theorem packed_bytes_reencode_witness:
  "\<exists>b t. packedBytesToTuple b = Some t \<and> b = Some (tupleToPackedBytes t) \<and> signatureType t = 3"
proof -
  let ?b = "Some (3 # replicate 64 7 @ [28]) :: bytes option"
  let ?t = "\<lparr>signatureType = 3, sig_v = 28, sig_r = ''0x'' @ bytesToHex (replicate 32 7),
      sig_s = ''0x'' @ bytesToHex (replicate 32 7)\<rparr>"
  have "packedBytesToTuple ?b = Some ?t"
    by (simp add: packedBytesToTuple_def js_slice_def nth_append)
  with packed_bytes_reencode [OF this] show ?thesis by (intro exI [of _ ?b] exI [of _ ?t]) simp
qed

text \<open>Normalising is idempotent, so the in-memory copy and the persisted copy agree.\<close>

lemma normal_fields [simp]:
  "toLowerAddr (JStr (toLowerAddr v)) = toLowerAddr v"
  "toLowerHex (JStr (toLowerHex v)) = toLowerHex v"
  "toDecimalString (JStr (toDecimalString v)) = toDecimalString v"
  "toNumber (JNum (toNumber v)) = toNumber v"
  by (auto simp: toLowerAddr_def toLowerHex_def toDecimalString_def toNumber_def
      split: jval.splits jnum.splits)

lemma normalizeOrderForJson_idem [simp]:
  "normalizeOrderForJson (normalizeOrderForJson o') = normalizeOrderForJson o'"
  by (simp add: normalizeOrderForJson_def)

end
