(* ===== verification/Dates.thy ===== *)
theory Dates
  imports JsVal
begin

text \<open>
  \<open>Date\<close> values are milliseconds since the epoch (UTC, no leap seconds, as ECMAScript has
  them). \<open>toISOString\<close> is the \<open>YYYY-MM-DDTHH:mm:ss.sssZ\<close> rendering, given here for the years
  0 to 9999, where it has its 24-character form; the handlers only render current times and
  validated lock and expiry times.
\<close>

section \<open>Calendar\<close>

text \<open>
  Days since 1970-01-01 to year, month and day of the proleptic Gregorian calendar, counting
  years from March: 400-year eras, then the century, the four-year cycle and the year in it.
\<close>

definition year_and_day :: "int \<Rightarrow> int \<times> int" where
  "year_and_day doe =
    (let c = min 3 (doe div 36524);
         r1 = doe - c * 36524;
         q = r1 div 1461;
         r2 = r1 mod 1461;
         y1 = min 3 (r2 div 365)
     in (100 * c + 4 * q + y1, r2 - 365 * y1))"

definition civil_of_days :: "int \<Rightarrow> int \<times> int \<times> int" where
  "civil_of_days days =
    (let z = days + 719468;
         era = z div 146097;
         (yoe, doy) = year_and_day (z mod 146097);
         mp = (5 * doy + 2) div 153;
         d = doy - (153 * mp + 2) div 5 + 1;
         m = (if mp < 10 then mp + 3 else mp - 9);
         y = yoe + era * 400 + (if m \<le> 2 then 1 else 0)
     in (y, m, d))"

definition days_of_civil :: "int \<times> int \<times> int \<Rightarrow> int" where
  "days_of_civil = (\<lambda>(y0, m, d).
    (let y = (if m \<le> 2 then y0 - 1 else y0);
         era = y div 400;
         yoe = y mod 400;
         mp = (if m > 2 then m - 3 else m + 9);
         doy = (153 * mp + 2) div 5 + d - 1;
         doe = yoe * 365 + yoe div 4 - yoe div 100 + doy
     in era * 146097 + doe - 719468))"

section \<open>Rendering\<close>

text \<open>The \<open>k\<close> low decimal digits of a number, most significant first.\<close>

fun pad_digits :: "nat \<Rightarrow> int \<Rightarrow> string" where
  "pad_digits 0 n = []"
| "pad_digits (Suc k) n = pad_digits k (n div 10) @ [hex_digit (n mod 10)]"

definition ms_per_day :: int where
  "ms_per_day = 86400000"

definition toISOString :: "int \<Rightarrow> string" where
  "toISOString ms =
    (let (y, m, d) = civil_of_days (ms div ms_per_day);
         t = ms mod ms_per_day
     in pad_digits 4 y @ ''-'' @ pad_digits 2 m @ ''-'' @ pad_digits 2 d @ ''T'' @
        pad_digits 2 (t div 3600000) @ '':'' @ pad_digits 2 (t div 60000 mod 60) @ '':'' @
        pad_digits 2 (t div 1000 mod 60) @ ''.'' @ pad_digits 3 (t mod 1000) @ ''Z'')"

text \<open>The inverse, used to parse this format back.\<close>

definition read_digits :: "nat \<Rightarrow> nat \<Rightarrow> string \<Rightarrow> int" where
  "read_digits i j s = digits_val 10 (js_slice i j s)"

definition parse_iso :: "string \<Rightarrow> int" where
  "parse_iso s =
    days_of_civil (read_digits 0 4 s, read_digits 5 7 s, read_digits 8 10 s) * ms_per_day
    + read_digits 11 13 s * 3600000 + read_digits 14 16 s * 60000
    + read_digits 17 19 s * 1000 + read_digits 20 23 s"

definition iso_parse :: "string \<Rightarrow> int option" where
  "iso_parse s = (if toISOString (parse_iso s) = s then Some (parse_iso s) else None)"

text \<open>The times whose ISO form has a four-digit year.\<close>

definition iso_range :: "int \<Rightarrow> bool" where
  "iso_range ms \<longleftrightarrow>
    0 \<le> fst (civil_of_days (ms div ms_per_day)) \<and> fst (civil_of_days (ms div ms_per_day)) \<le> 9999"

section \<open>Rendering and parsing are inverse\<close>

lemma year_and_day_bounds:
  assumes "0 \<le> doe" and "doe < 146097" and "year_and_day doe = (yoe, doy)"
  shows "0 \<le> yoe \<and> yoe < 400 \<and> 0 \<le> doy \<and> doy \<le> 365 \<and>
    doe = yoe * 365 + yoe div 4 - yoe div 100 + doy"
proof -
  define c where "c = min 3 (doe div 36524)"
  define r1 where "r1 = doe - c * 36524"
  define q where "q = r1 div 1461"
  define r2 where "r2 = r1 mod 1461"
  define y1 where "y1 = min 3 (r2 div 365)"
  have c: "0 \<le> c" "c \<le> 3" using assms by (auto simp: c_def)
  have r1: "0 \<le> r1" "r1 \<le> 36524"
    using assms by (auto simp: r1_def c_def min_def)
  have q: "0 \<le> q" "q \<le> 24" using r1 by (auto simp: q_def)
  have r2: "0 \<le> r2" "r2 \<le> 1460" by (auto simp: r2_def)
  have y1: "0 \<le> y1" "y1 \<le> 3" "365 * y1 \<le> r2" "r2 - 365 * y1 \<le> 365"
    using r2 by (auto simp: y1_def min_def)
  have yd: "yoe = 100 * c + 4 * q + y1" "doy = r2 - 365 * y1"
    using assms(3) by (auto simp: year_and_day_def Let_def c_def r1_def q_def r2_def y1_def)
  have d4: "yoe div 4 = 25 * c + q" using y1 by (simp add: yd)
  have d100: "yoe div 100 = c" using y1 q c by (simp add: yd)
  have "r1 = 1461 * q + r2" by (simp add: q_def r2_def)
  moreover have "doe = 36524 * c + r1" by (simp add: r1_def)
  ultimately have "doe = yoe * 365 + yoe div 4 - yoe div 100 + doy"
    using d4 d100 yd by linarith
  moreover have "0 \<le> yoe" "yoe < 400" using c q y1 by (simp_all add: yd)
  moreover have "0 \<le> doy" "doy \<le> 365" using y1 by (simp_all add: yd)
  ultimately show ?thesis by simp
qed

lemma days_of_civil_inverse:
  "days_of_civil (civil_of_days days) = days \<and>
   (case civil_of_days days of (y, m, d) \<Rightarrow> 1 \<le> m \<and> m \<le> 12 \<and> 1 \<le> d \<and> d \<le> 31)"
proof -
  define z where "z = days + 719468"
  obtain yoe doy where yd: "year_and_day (z mod 146097) = (yoe, doy)" by fastforce
  define mp where "mp = (5 * doy + 2) div 153"
  define m where "m = (if mp < 10 then mp + 3 else mp - 9)"
  define d where "d = doy - (153 * mp + 2) div 5 + 1"
  have b: "0 \<le> yoe" "yoe < 400" "0 \<le> doy" "doy \<le> 365"
    and doe: "z mod 146097 = yoe * 365 + yoe div 4 - yoe div 100 + doy"
    using year_and_day_bounds [OF _ _ yd] by simp_all
  define e where "e = (153 * mp + 2) div 5"
  have "153 * mp \<le> 5 * doy + 2" "5 * doy + 2 < 153 * mp + 153"
    using mult_div_mod_eq [of 153 "5 * doy + 2"] pos_mod_bound [of 153 "5 * doy + 2"]
      pos_mod_sign [of 153 "5 * doy + 2"] unfolding mp_def by linarith+
  moreover have "5 * e \<le> 153 * mp + 2" "153 * mp + 2 < 5 * e + 5"
    using mult_div_mod_eq [of 5 "153 * mp + 2"] pos_mod_bound [of 5 "153 * mp + 2"]
      pos_mod_sign [of 5 "153 * mp + 2"] unfolding e_def by linarith+
  ultimately have mp: "0 \<le> mp" "mp \<le> 11" "1 \<le> d" "d \<le> 31"
    using b unfolding d_def e_def [symmetric] by linarith+
  have civil: "civil_of_days days =
      (yoe + z div 146097 * 400 + (if m \<le> 2 then 1 else 0), m, d)"
    by (simp add: civil_of_days_def Let_def yd mp_def m_def d_def flip: z_def)
  have inv_mp: "(if m > 2 then m - 3 else m + 9) = mp" using mp by (auto simp: m_def)
  have inv_y: "(if m \<le> 2 then (yoe + z div 146097 * 400 + (if m \<le> 2 then 1 else 0)) - 1
      else yoe + z div 146097 * 400 + (if m \<le> 2 then 1 else 0)) = yoe + z div 146097 * 400"
    by simp
  have "(yoe + z div 146097 * 400) div 400 = z div 146097"
    "(yoe + z div 146097 * 400) mod 400 = yoe" using b by simp_all
  then have "days_of_civil (civil_of_days days) =
      z div 146097 * 146097 + (yoe * 365 + yoe div 4 - yoe div 100 + doy) - 719468"
    unfolding civil days_of_civil_def prod.case Let_def inv_mp inv_y by (simp add: d_def)
  also have "\<dots> = days" unfolding doe [symmetric] by (simp add: z_def)
  finally have "days_of_civil (civil_of_days days) = days" .
  moreover have "1 \<le> m" "m \<le> 12" using mp by (auto simp: m_def)
  ultimately show ?thesis using mp by (simp add: civil)
qed

lemma length_pad_digits [simp]: "length (pad_digits k n) = k"
  by (induction k arbitrary: n) auto

lemma digits_val_pad: "0 \<le> n \<Longrightarrow> n < 10 ^ k \<Longrightarrow> digits_val 10 (pad_digits k n) = n"
proof (induction k arbitrary: n)
  case 0
  then show ?case by (simp add: digits_val_def)
next
  case (Suc k)
  then have "n div 10 < 10 ^ k" by (simp add: div_less_iff_less_mult pos_imp_zdiv_nonneg_iff)
  with Suc show ?case
    by (simp add: digits_val_snoc digit_val_hex_digit pos_imp_zdiv_nonneg_iff)
qed

lemma js_slice_app:
  "length a = i \<Longrightarrow> length b = j - i \<Longrightarrow> js_slice i j (a @ b @ c) = b"
  by (simp add: js_slice_def)

lemma toISOString_parts:
  "civil_of_days (ms div ms_per_day) = (y, m, d) \<Longrightarrow> t = ms mod ms_per_day \<Longrightarrow>
   js_slice 0 4 (toISOString ms) = pad_digits 4 y \<and>
   js_slice 5 7 (toISOString ms) = pad_digits 2 m \<and>
   js_slice 8 10 (toISOString ms) = pad_digits 2 d \<and>
   js_slice 11 13 (toISOString ms) = pad_digits 2 (t div 3600000) \<and>
   js_slice 14 16 (toISOString ms) = pad_digits 2 (t div 60000 mod 60) \<and>
   js_slice 17 19 (toISOString ms) = pad_digits 2 (t div 1000 mod 60) \<and>
   js_slice 20 23 (toISOString ms) = pad_digits 3 (t mod 1000)"
  by (simp add: toISOString_def Let_def js_slice_def)

lemma time_of_day:
  "(t :: int) div 3600000 * 3600000 + t div 60000 mod 60 * 60000 + t div 1000 mod 60 * 1000
    + t mod 1000 = t"
proof -
  define a where "a = t div 1000"
  define b where "b = a div 60"
  define h where "h = b div 60"
  have "t div 60000 = b" "t div 3600000 = h"
    by (simp_all add: a_def b_def h_def flip: zdiv_zmult2_eq)
  moreover have "t = a * 1000 + t mod 1000" by (simp add: a_def)
  moreover have "a = b * 60 + a mod 60" by (simp add: b_def)
  moreover have "b = h * 60 + b mod 60" by (simp add: h_def)
  moreover have "h * 3600000 + bm * 60000 + am * 1000 + tm = t"
    if "t = a * 1000 + tm" "a = b * 60 + am" "b = h * 60 + bm" for tm am bm :: int
    using that by simp
  ultimately show ?thesis by (simp only: flip: a_def)
qed

lemma parse_iso_toISOString:
  assumes "iso_range ms"
  shows "parse_iso (toISOString ms) = ms"
proof -
  obtain y m d where c: "civil_of_days (ms div ms_per_day) = (y, m, d)"
    by (metis prod_cases3)
  define t where "t = ms mod ms_per_day"
  have t: "0 \<le> t" "t < 86400000" by (auto simp: t_def ms_per_day_def)
  have ymd: "0 \<le> y" "y < 10 ^ 4" "0 \<le> m" "m < 10 ^ 2" "0 \<le> d" "d < 10 ^ 2"
    using assms days_of_civil_inverse [of "ms div ms_per_day"] by (auto simp: iso_range_def c)
  have m60: "0 \<le> a mod 60" "a mod 60 < 10 ^ 2" for a :: int
    using pos_mod_sign [of 60 a] pos_mod_bound [of 60 a] by simp_all
  have h: "0 \<le> t div 3600000" "t div 3600000 < 10 ^ 2"
    using t by (simp_all add: pos_imp_zdiv_nonneg_iff div_less_iff_less_mult)
  have s: "0 \<le> t mod 1000" "t mod 1000 < 10 ^ 3" by simp_all
  have "parse_iso (toISOString ms) = days_of_civil (y, m, d) * ms_per_day
      + (t div 3600000 * 3600000 + t div 60000 mod 60 * 60000 + t div 1000 mod 60 * 1000
         + t mod 1000)"
    using ymd h s m60 toISOString_parts [OF c t_def]
    by (simp only: parse_iso_def read_digits_def digits_val_pad simp_thms add.assoc)
  also have "\<dots> = days_of_civil (y, m, d) * ms_per_day + t"
    by (simp only: time_of_day)
  also have "\<dots> = ms"
    using days_of_civil_inverse [of "ms div ms_per_day"] by (simp add: c t_def)
  finally show ?thesis .
qed

lemma iso_parse_toISOString: "iso_range ms \<Longrightarrow> iso_parse (toISOString ms) = Some ms"
  by (simp add: iso_parse_def parse_iso_toISOString)

lemma toISOString_inject:
  "iso_range a \<Longrightarrow> iso_range b \<Longrightarrow> toISOString a = toISOString b \<longleftrightarrow> a = b"
  by (metis parse_iso_toISOString)

end
