(* ===== verification/Persistence.thy ===== *)
theory Persistence
  imports RawOrder Dates
begin

text \<open>
  \<open>apps/api/src/matching/persistence.repository.ts\<close> over the Prisma models of
  \<open>apps/api/prisma/schema.prisma\<close> it reads and writes. A model is the list of its rows in
  insertion order; each repository method is a function of the database that returns its result
  (or the exception it throws) together with the new database. A method that throws half way
  keeps the writes it made: nothing is rolled back.

  The WebSocket emissions and the metric counters the repository touches are the logs
  \<open>d_ws\<close> and \<open>d_metrics\<close>. \<open>now\<close> is \<open>Date.now()\<close> in milliseconds.
\<close>

section \<open>Rows\<close>

datatype side = BUY | SELL

datatype order_status =
  O_PLACED | O_PARTIALLY_FILLED | O_FILLED | O_CANCELLED | O_EXPIRED

datatype event_type =
  E_PLACED | E_PARTIAL_FILL | E_FILLED | E_CANCELLED | E_EXPIRED

fun side_str :: "side \<Rightarrow> string" where
  "side_str BUY = ''BUY''"
| "side_str SELL = ''SELL''"

record market_row =
  mk_id :: string
  mk_symbol :: string
  mk_baseAddress :: string
  mk_quoteAddress :: string
  mk_baseDecimals :: nat
  mk_quoteDecimals :: nat
  mk_minNotionalQ :: int
  mk_minSizeB :: int
  mk_priceTickQ :: int

record order_row =
  o_hash :: string
  o_marketId :: string
  o_maker :: string
  o_side :: side
  o_priceTicks :: int
  o_sizeBase :: int
  o_remaining :: int
  o_status :: order_status
  o_expiry :: int
  o_salt :: string
  o_zeroEx :: jval
  o_signature :: bytes
  o_placedAt :: int

record trade_row =
  t_marketId :: string
  t_makerHash :: string
  t_taker :: string
  t_priceTicks :: int
  t_sizeBase :: int
  t_txHash :: "string option"
  t_ts :: int

record event_row =
  ev_marketId :: string
  ev_hash :: string
  ev_type :: event_type
  ev_payload :: jval

text \<open>A message emitted to a room: the maker's order room or the symbol's trade room.\<close>

datatype ws_msg = WsOrder string jval | WsTrade string jval

record db =
  d_markets :: "market_row list"
  d_orders :: "order_row list"
  d_trades :: "trade_row list"
  d_events :: "event_row list"
  d_ws :: "ws_msg list"
  d_metrics :: "string list"

record trading_ctx =
  ctx_id :: string
  ctx_symbol :: string
  ctx_baseDecimals :: nat
  ctx_quoteDecimals :: nat
  ctx_minNotionalQ :: int
  ctx_minSizeB :: int
  ctx_priceTickQ :: int
  ctx_baseAddress :: string
  ctx_quoteAddress :: string

record market_basic =
  mb_id :: string
  mb_symbol :: string
  mb_baseAddress :: string
  mb_quoteAddress :: string

section \<open>Table access\<close>

definition order_of :: "db \<Rightarrow> string \<Rightarrow> order_row option" where
  "order_of d h = row_by o_hash h (d_orders d)"

definition market_by_id :: "db \<Rightarrow> string \<Rightarrow> market_row option" where
  "market_by_id d i = row_by mk_id i (d_markets d)"

text \<open>\<open>select: \{ market: \{ select: \{ symbol \} \} \}\<close> of a row whose foreign key is \<open>i\<close>.\<close>

definition symbol_of :: "db \<Rightarrow> string \<Rightarrow> string" where
  "symbol_of d i = (case market_by_id d i of Some m \<Rightarrow> mk_symbol m | None \<Rightarrow> '''')"

definition update_order :: "string \<Rightarrow> (order_row \<Rightarrow> order_row) \<Rightarrow> db \<Rightarrow> db" where
  "update_order h f d = d\<lparr>d_orders := update_where (\<lambda>r. o_hash r = h) f (d_orders d)\<rparr>"

text \<open>
  The column constraints of the schema: \<open>BigInt\<close> is a signed 64-bit column, \<open>Decimal(78,0)\<close> has
  78 digits, \<open>VarChar(42)\<close> 42 characters, and \<open>marketId\<close> refers to a market.
\<close>

definition fits_int64 :: "int \<Rightarrow> bool" where
  "fits_int64 n \<longleftrightarrow> - (2 ^ 63) \<le> n \<and> n < 2 ^ 63"

definition fits_dec78 :: "int \<Rightarrow> bool" where
  "fits_dec78 n \<longleftrightarrow> \<bar>n\<bar> < 10 ^ 78"

definition append_event :: "string \<Rightarrow> string \<Rightarrow> event_type \<Rightarrow> jval \<Rightarrow> db \<Rightarrow> unit result \<times> db" where
  "append_event mid h ty payload d =
    (if market_by_id d mid = None then (Inl (PlainError ''P2003''), d)
     else (Inr (), d\<lparr>d_events := d_events d @
       [\<lparr>ev_marketId = mid, ev_hash = h, ev_type = ty, ev_payload = payload\<rparr>]\<rparr>))"

definition emit_order :: "string \<Rightarrow> jval \<Rightarrow> db \<Rightarrow> db" where
  "emit_order maker payload d = d\<lparr>d_ws := d_ws d @ [WsOrder maker payload]\<rparr>"

definition inc_metric :: "string \<Rightarrow> db \<Rightarrow> db" where
  "inc_metric k d = d\<lparr>d_metrics := d_metrics d @ [k]\<rparr>"

section \<open>Reads\<close>

definition getTradingContext :: "db \<Rightarrow> string \<Rightarrow> trading_ctx result" where
  "getTradingContext d marketOrSymbol =
    (case find (\<lambda>m. mk_id m = marketOrSymbol \<or> mk_symbol m = marketOrSymbol) (d_markets d) of
       None \<Rightarrow> Inl (PlainError ''market_not_found'')
     | Some m \<Rightarrow> Inr
         \<lparr>ctx_id = mk_id m, ctx_symbol = mk_symbol m,
          ctx_baseDecimals = mk_baseDecimals m, ctx_quoteDecimals = mk_quoteDecimals m,
          ctx_minNotionalQ = mk_minNotionalQ m, ctx_minSizeB = mk_minSizeB m,
          ctx_priceTickQ = mk_priceTickQ m,
          ctx_baseAddress = to_lower (mk_baseAddress m),
          ctx_quoteAddress = to_lower (mk_quoteAddress m)\<rparr>)"

definition listMarketsBasic :: "db \<Rightarrow> market_basic list" where
  "listMarketsBasic d =
    map (\<lambda>m. \<lparr>mb_id = mk_id m, mb_symbol = mk_symbol m,
      mb_baseAddress = to_lower (mk_baseAddress m),
      mb_quoteAddress = to_lower (mk_quoteAddress m)\<rparr>) (d_markets d)"

definition getOrderRemaining :: "db \<Rightarrow> string \<Rightarrow> int option" where
  "getOrderRemaining d h = map_option o_remaining (order_of d h)"

record placed_core =
  pc_hash :: string
  pc_symbol :: string
  pc_maker :: string
  pc_side :: side
  pc_priceTicks :: int
  pc_remaining :: int

definition core_of :: "db \<Rightarrow> order_row \<Rightarrow> placed_core" where
  "core_of d r =
    \<lparr>pc_hash = o_hash r, pc_symbol = symbol_of d (o_marketId r), pc_maker = o_maker r,
     pc_side = o_side r, pc_priceTicks = o_priceTicks r, pc_remaining = o_remaining r\<rparr>"

definition findPlacedOrderCore :: "db \<Rightarrow> string \<Rightarrow> placed_core option" where
  "findPlacedOrderCore d h =
    (case order_of d h of
       None \<Rightarrow> None
     | Some r \<Rightarrow> if o_status r \<noteq> O_PLACED then None else Some (core_of d r))"

text \<open>\<open>orderBy: [\{ placedAt: 'asc' \}, \{ orderHash: 'asc' \}]\<close>, hashes by code unit.\<close>

fun str_le :: "string \<Rightarrow> string \<Rightarrow> bool" where
  "str_le [] t = True"
| "str_le (a # s) [] = False"
| "str_le (a # s) (b # t) = (code a < code b \<or> (code a = code b \<and> str_le s t))"

definition cmp_placedAt :: "order_row \<Rightarrow> order_row \<Rightarrow> int" where
  "cmp_placedAt a b =
    (if o_placedAt a \<noteq> o_placedAt b then o_placedAt a - o_placedAt b
     else if o_hash a = o_hash b then 0
     else if str_le (o_hash a) (o_hash b) then - 1 else 1)"

definition listPlacedBySymbol :: "db \<Rightarrow> string \<Rightarrow> placed_core list" where
  "listPlacedBySymbol d symbol =
    map (core_of d)
      (take 10000
        (js_sort cmp_placedAt
          (filter (\<lambda>r. o_status r = O_PLACED \<and> symbol_of d (o_marketId r) = symbol \<and> 0 < o_remaining r)
            (d_orders d))))"

definition is_open :: "order_status \<Rightarrow> bool" where
  "is_open s \<longleftrightarrow> s = O_PLACED \<or> s = O_PARTIALLY_FILLED"

definition sumOpenBaseByMakerSymbol :: "db \<Rightarrow> string \<Rightarrow> string \<Rightarrow> int" where
  "sumOpenBaseByMakerSymbol d maker symbol =
    sum_list (map o_remaining
      (filter (\<lambda>r. o_maker r = to_lower (trim maker) \<and> symbol_of d (o_marketId r) = symbol
                 \<and> is_open (o_status r)) (d_orders d)))"

definition findTradeByTxHashForIntent :: "db \<Rightarrow> string \<Rightarrow> string \<Rightarrow> string \<Rightarrow> trade_row option" where
  "findTradeByTxHashForIntent d txHash marketId owner =
    find (\<lambda>t. t_txHash t = Some (to_lower txHash) \<and> t_marketId t = marketId
            \<and> t_taker t = to_lower owner) (d_trades d)"

text \<open>\<open>zeroExOrder\<close> null reads as \<open>null\<close>; the packed signature through \<open>packedBytesToTuple\<close>.\<close>

definition findRawOrderByHash :: "db \<Rightarrow> string \<Rightarrow> jval option \<times> sig_tuple option" where
  "findRawOrderByHash d h =
    (let row = order_of d h;
         raw = (case row of None \<Rightarrow> JUndef | Some r \<Rightarrow> o_zeroEx r)
     in (if jnullish raw then None else Some raw,
         packedBytesToTuple (map_option o_signature row)))"

section \<open>Writes\<close>

definition expireOrder :: "int \<Rightarrow> string \<Rightarrow> string \<Rightarrow> db \<Rightarrow> unit result \<times> db" where
  "expireOrder now marketId h d =
    (case order_of d h of
       None \<Rightarrow> (Inl RecordNotFound, d)
     | Some row \<Rightarrow>
         let d1 = update_order h (\<lambda>r. r\<lparr>o_status := O_EXPIRED\<rparr>) d in
         (case append_event marketId h E_EXPIRED JNull d1 of
            (Inl e, d2) \<Rightarrow> (Inl e, d2)
          | (Inr _, d2) \<Rightarrow>
              (Inr (), inc_metric ''expired''
                (emit_order (to_lower (o_maker row)) (JObj
                  [(''type'', JStr ''expired''), (''orderHash'', JStr h),
                   (''symbol'', JStr (symbol_of d2 (o_marketId row))),
                   (''ts'', JStr (toISOString now))]) d2))))"

definition cancelOrder :: "int \<Rightarrow> string \<Rightarrow> string \<Rightarrow> db \<Rightarrow> unit result \<times> db" where
  "cancelOrder now marketId h d =
    (case order_of d h of
       None \<Rightarrow> (Inl RecordNotFound, d)
     | Some row \<Rightarrow>
         let d1 = update_order h (\<lambda>r. r\<lparr>o_status := O_CANCELLED\<rparr>) d in
         (case append_event marketId h E_CANCELLED JNull d1 of
            (Inl e, d2) \<Rightarrow> (Inl e, d2)
          | (Inr _, d2) \<Rightarrow>
              (Inr (), inc_metric ''cancelled''
                (emit_order (to_lower (o_maker row)) (JObj
                  [(''type'', JStr ''cancelled''), (''orderHash'', JStr h),
                   (''symbol'', JStr (symbol_of d2 (o_marketId row))),
                   (''ts'', JStr (toISOString now))]) d2))))"

record placed_input =
  pi_hash :: string
  pi_marketId :: string
  pi_maker :: string
  pi_side :: side
  pi_priceTicks :: int
  pi_sizeBase :: int

text \<open>The row \<open>create\<close> inserts; the placeholders of the source included.\<close>

definition new_order_row :: "int \<Rightarrow> placed_input \<Rightarrow> order_row" where
  "new_order_row now p =
    \<lparr>o_hash = pi_hash p, o_marketId = pi_marketId p, o_maker = to_lower (pi_maker p),
     o_side = pi_side p, o_priceTicks = pi_priceTicks p, o_sizeBase = pi_sizeBase p,
     o_remaining = pi_sizeBase p, o_status = O_PLACED, o_expiry = 0, o_salt = '''',
     o_zeroEx = JNull, o_signature = [], o_placedAt = now\<rparr>"

definition order_row_fits :: "db \<Rightarrow> order_row \<Rightarrow> bool" where
  "order_row_fits d r \<longleftrightarrow>
    market_by_id d (o_marketId r) \<noteq> None \<and> length (o_maker r) \<le> 42 \<and>
    fits_int64 (o_priceTicks r) \<and> fits_dec78 (o_sizeBase r)"

definition upsert_row :: "int \<Rightarrow> placed_input \<Rightarrow> db \<Rightarrow> db result" where
  "upsert_row now p d =
    (if order_of d (pi_hash p) \<noteq> None
     then Inr (update_order (pi_hash p) (\<lambda>r. r\<lparr>o_status := O_PLACED\<rparr>) d)
     else if order_row_fits d (new_order_row now p)
     then Inr (d\<lparr>d_orders := d_orders d @ [new_order_row now p]\<rparr>)
     else Inl (PlainError ''PrismaClientKnownRequestError''))"

definition upsertOrderPlaced :: "int \<Rightarrow> placed_input \<Rightarrow> db \<Rightarrow> unit result \<times> db" where
  "upsertOrderPlaced now p d =
    (case upsert_row now p d of
       Inl e \<Rightarrow> (Inl e, d)
     | Inr d1 \<Rightarrow>
         (case append_event (pi_marketId p) (pi_hash p) E_PLACED (JObj
             [(''side'', JStr (side_str (pi_side p))),
              (''priceTicks'', JStr (big_to_string (pi_priceTicks p))),
              (''sizeBase'', JStr (big_to_string (pi_sizeBase p)))]) d1 of
            (Inl e, d2) \<Rightarrow> (Inl e, d2)
          | (Inr _, d2) \<Rightarrow>
              (let sym = (case market_by_id d2 (pi_marketId p) of
                            Some m \<Rightarrow> mk_symbol m | None \<Rightarrow> ''UNKNOWN'')
               in (Inr (), inc_metric ''placed''
                    (emit_order (to_lower (pi_maker p)) (JObj
                      [(''type'', JStr ''placed''), (''orderHash'', JStr (pi_hash p)),
                       (''symbol'', JStr sym),
                       (''priceTicks'', JStr (big_to_string (pi_priceTicks p))),
                       (''sizeBase'', JStr (big_to_string (pi_sizeBase p))),
                       (''remainingBase'', JStr (big_to_string (pi_sizeBase p))),
                       (''ts'', JStr (toISOString now))]) d2)))))"

definition norm_tx_hash :: "string option \<Rightarrow> string option" where
  "norm_tx_hash tx =
    (case tx of Some h \<Rightarrow> if is_0x_hex 64 h then Some (to_lower h) else None | None \<Rightarrow> None)"

definition trade_row_fits :: "db \<Rightarrow> trade_row \<Rightarrow> bool" where
  "trade_row_fits d t \<longleftrightarrow>
    market_by_id d (t_marketId t) \<noteq> None \<and> length (t_taker t) \<le> 42 \<and>
    fits_int64 (t_priceTicks t) \<and> fits_dec78 (t_sizeBase t)"

definition addTrade ::
  "int \<Rightarrow> string \<Rightarrow> string \<Rightarrow> string \<Rightarrow> int \<Rightarrow> int \<Rightarrow> string option \<Rightarrow> db \<Rightarrow> unit result \<times> db" where
  "addTrade now marketId makerHash taker priceTicks sizeBase txHash d =
    (let row = \<lparr>t_marketId = marketId, t_makerHash = makerHash, t_taker = to_lower taker,
                t_priceTicks = priceTicks, t_sizeBase = sizeBase, t_txHash = norm_tx_hash txHash,
                t_ts = now\<rparr>
     in if \<not> trade_row_fits d row then (Inl (PlainError ''PrismaClientKnownRequestError''), d)
        else
          let d1 = d\<lparr>d_trades := d_trades d @ [row]\<rparr>;
              symbol = symbol_of d1 marketId
          in (Inr (), d1\<lparr>d_ws := d_ws d1 @ [WsTrade symbol (JObj
                [(''symbol'', JStr symbol), (''makerOrderHash'', JStr makerHash),
                 (''taker'', JStr (to_lower taker)),
                 (''priceTicks'', JStr (big_to_string priceTicks)),
                 (''sizeBase'', JStr (big_to_string sizeBase)),
                 (''ts'', JStr (toISOString now))])]\<rparr>))"

definition decreaseOrderRemaining ::
  "int \<Rightarrow> string \<Rightarrow> int \<Rightarrow> order_status \<Rightarrow> db \<Rightarrow> unit result \<times> db" where
  "decreaseOrderRemaining now h execSizeBase newStatus d =
    (case order_of d h of
       None \<Rightarrow> (Inl RecordNotFound, d)
     | Some row \<Rightarrow>
         let d1 = update_order h
               (\<lambda>r. r\<lparr>o_remaining := o_remaining r - execSizeBase, o_status := newStatus\<rparr>) d
         in (Inr (), inc_metric (if newStatus = O_FILLED then ''filled'' else ''partial_fill'')
              (emit_order (to_lower (o_maker row)) (JObj
                [(''type'', JStr (if newStatus = O_FILLED then ''filled'' else ''partial_fill'')),
                 (''orderHash'', JStr h),
                 (''symbol'', JStr (symbol_of d1 (o_marketId row))),
                 (''remainingBase'', JStr (big_to_string (o_remaining row - execSizeBase))),
                 (''ts'', JStr (toISOString now))]) d1)))"

text \<open>
  \<open>BigInt(Number(normalizedOrder.expiry))\<close> is the integer \<open>toNumber\<close> left in the field; the
  column is a 64-bit integer.
\<close>

definition expiry_column :: "jval \<Rightarrow> int result" where
  "expiry_column normalized =
    bind_res (js_BigInt (jget normalized ''expiry''))
      (\<lambda>n. if fits_int64 n then Inr n else Inl (PlainError ''PrismaClientKnownRequestError''))"

definition json_string :: "jval \<Rightarrow> string" where
  "json_string v = (case v of JStr s \<Rightarrow> s | _ \<Rightarrow> '''')"

definition attachRawToOrder :: "string \<Rightarrow> jval \<Rightarrow> jval \<Rightarrow> db \<Rightarrow> unit result \<times> db" where
  "attachRawToOrder h order signature d =
    (case signatureToTuple signature of
       None \<Rightarrow> (Inl (PlainError ''attachRawToOrder: signature''), d)
     | Some tuple \<Rightarrow>
         let sigBuf = tupleToPackedBytes tuple;
             normalizedOrder = normalizeOrderForJson order
         in (case expiry_column normalizedOrder of
               Inl e \<Rightarrow> (Inl e, d)
             | Inr expiryBig \<Rightarrow>
                 if order_of d h = None then (Inl RecordNotFound, d)
                 else (Inr (), update_order h
                   (\<lambda>r. r\<lparr>o_zeroEx := normalizedOrder, o_signature := sigBuf,
                         o_expiry := expiryBig,
                         o_salt := json_string (jget normalizedOrder ''salt'')\<rparr>) d)))"

section \<open>Lemmas on the tables\<close>

text \<open>What the primary and foreign keys of the schema enforce.\<close>

definition db_keys :: "db \<Rightarrow> bool" where
  "db_keys d \<longleftrightarrow> distinct (map o_hash (d_orders d)) \<and> distinct (map mk_id (d_markets d)) \<and>
    distinct (map mk_symbol (d_markets d)) \<and>
    (\<forall>r \<in> set (d_orders d). market_by_id d (o_marketId r) \<noteq> None)"

lemma update_order_frame [simp, frame_simps]:
  "d_markets (update_order h f d) = d_markets d" "d_trades (update_order h f d) = d_trades d"
  "d_events (update_order h f d) = d_events d" "d_ws (update_order h f d) = d_ws d"
  by (simp_all add: update_order_def)

lemma log_frame [simp, frame_simps]:
  "d_markets (emit_order m p d) = d_markets d" "d_markets (inc_metric k d) = d_markets d"
  "d_orders (emit_order m p d) = d_orders d" "d_orders (inc_metric k d) = d_orders d"
  "d_trades (emit_order m p d) = d_trades d" "d_trades (inc_metric k d) = d_trades d"
  by (simp_all add: emit_order_def inc_metric_def)

lemma market_by_id_cong: "d_markets d' = d_markets d \<Longrightarrow> market_by_id d' = market_by_id d"
  by (simp add: market_by_id_def fun_eq_iff)

lemma symbol_of_cong: "d_markets d' = d_markets d \<Longrightarrow> symbol_of d' = symbol_of d"
  by (simp add: symbol_of_def market_by_id_def fun_eq_iff)

lemma getTradingContext_cong:
  "d_markets d' = d_markets d \<Longrightarrow> getTradingContext d' k = getTradingContext d k"
  by (simp add: getTradingContext_def)

lemma order_of_update:
  assumes "\<And>r. o_hash (f r) = o_hash r"
  shows "order_of (update_order h f d) k = map_option (\<lambda>r. if k = h then f r else r) (order_of d k)"
proof -
  have "row_by o_hash k (update_where (\<lambda>r. o_hash r = h) f rs) =
      map_option (\<lambda>r. if k = h then f r else r) (row_by o_hash k rs)" for rs
    using assms by (induction rs) auto
  then show ?thesis by (simp add: order_of_def update_order_def)
qed

lemma order_of_log [simp]:
  "order_of (emit_order m p d) = order_of d" "order_of (inc_metric k d) = order_of d"
  by (simp_all add: order_of_def fun_eq_iff)

lemma append_event_frame [simp, frame_simps]:
  "d_markets (snd (append_event i h t p d)) = d_markets d"
  "d_orders (snd (append_event i h t p d)) = d_orders d"
  "d_trades (snd (append_event i h t p d)) = d_trades d"
  by (simp_all add: append_event_def)

lemma append_event_ok:
  "market_by_id d i \<noteq> None \<Longrightarrow> append_event i h t p d =
    (Inr (), d\<lparr>d_events := d_events d @
       [\<lparr>ev_marketId = i, ev_hash = h, ev_type = t, ev_payload = p\<rparr>]\<rparr>)"
  by (simp add: append_event_def)

text \<open>The effect of each write on the \<open>Order\<close> table, and what it never touches.\<close>

lemma update_order_missing: "order_of d h = None \<Longrightarrow> update_order h f d = d"
  by (simp add: order_of_def update_order_def row_by_None_iff update_where_none)

lemma cancelOrder_db [simp, frame_simps]:
  "d_orders (snd (cancelOrder now i h d)) = d_orders (update_order h (\<lambda>r. r\<lparr>o_status := O_CANCELLED\<rparr>) d)"
  "d_markets (snd (cancelOrder now i h d)) = d_markets d"
  "d_trades (snd (cancelOrder now i h d)) = d_trades d"
  by (auto simp: cancelOrder_def update_order_missing append_event_def Let_def split: option.splits)

lemma expireOrder_db [simp, frame_simps]:
  "d_orders (snd (expireOrder now i h d)) = d_orders (update_order h (\<lambda>r. r\<lparr>o_status := O_EXPIRED\<rparr>) d)"
  "d_markets (snd (expireOrder now i h d)) = d_markets d"
  "d_trades (snd (expireOrder now i h d)) = d_trades d"
  by (auto simp: expireOrder_def update_order_missing append_event_def Let_def split: option.splits)

lemma decreaseOrderRemaining_db [simp, frame_simps]:
  "d_orders (snd (decreaseOrderRemaining now h x st d)) =
     d_orders (update_order h (\<lambda>r. r\<lparr>o_remaining := o_remaining r - x, o_status := st\<rparr>) d)"
  "d_markets (snd (decreaseOrderRemaining now h x st d)) = d_markets d"
  "d_trades (snd (decreaseOrderRemaining now h x st d)) = d_trades d"
  by (auto simp: decreaseOrderRemaining_def update_order_missing Let_def split: option.splits)

lemma addTrade_db [simp, frame_simps]:
  "d_orders (snd (addTrade now i h t p x tx d)) = d_orders d"
  "d_markets (snd (addTrade now i h t p x tx d)) = d_markets d"
  by (auto simp: addTrade_def Let_def)

lemma upsertOrderPlaced_db [simp, frame_simps]:
  "d_markets (snd (upsertOrderPlaced now p d)) = d_markets d"
  "d_trades (snd (upsertOrderPlaced now p d)) = d_trades d"
  by (auto simp: upsertOrderPlaced_def upsert_row_def append_event_def Let_def split: sum.splits)

lemma attachRawToOrder_db [simp, frame_simps]:
  "d_markets (snd (attachRawToOrder h ord sig d)) = d_markets d"
  "d_trades (snd (attachRawToOrder h ord sig d)) = d_trades d"
  by (auto simp: attachRawToOrder_def Let_def split: option.splits sum.splits)

lemma order_of_cong: "d_orders d' = d_orders d \<Longrightarrow> order_of d' = order_of d"
  by (simp add: order_of_def fun_eq_iff)

lemma order_of_cancelOrder [simp]:
  "order_of (snd (cancelOrder now i h d)) k =
    map_option (\<lambda>r. if k = h then r\<lparr>o_status := O_CANCELLED\<rparr> else r) (order_of d k)"
  using order_of_cong [OF cancelOrder_db(1)] by (simp add: order_of_update)

lemma order_of_expireOrder [simp]:
  "order_of (snd (expireOrder now i h d)) k =
    map_option (\<lambda>r. if k = h then r\<lparr>o_status := O_EXPIRED\<rparr> else r) (order_of d k)"
  using order_of_cong [OF expireOrder_db(1)] by (simp add: order_of_update)

lemma order_of_decrease [simp]:
  "order_of (snd (decreaseOrderRemaining now h x st d)) k =
    map_option (\<lambda>r. if k = h then r\<lparr>o_remaining := o_remaining r - x, o_status := st\<rparr> else r)
      (order_of d k)"
  using order_of_cong [OF decreaseOrderRemaining_db(1)] by (simp add: order_of_update)

lemma order_of_addTrade [simp]: "order_of (snd (addTrade now i h t p x tx d)) = order_of d"
  by (rule order_of_cong) simp

lemma cancelOrder_ok:
  "fst (cancelOrder now i h d) = Inr () \<longleftrightarrow> order_of d h \<noteq> None \<and> market_by_id d i \<noteq> None"
  by (auto simp: cancelOrder_def Let_def append_event_def market_by_id_def split: option.splits)

lemma expireOrder_ok:
  "fst (expireOrder now i h d) = Inr () \<longleftrightarrow> order_of d h \<noteq> None \<and> market_by_id d i \<noteq> None"
  by (auto simp: expireOrder_def Let_def append_event_def market_by_id_def split: option.splits)

lemma decreaseOrderRemaining_ok:
  "fst (decreaseOrderRemaining now h x st d) = Inr () \<longleftrightarrow> order_of d h \<noteq> None"
  by (auto simp: decreaseOrderRemaining_def Let_def split: option.splits)

lemma upsert_existing:
  assumes "order_of d (pi_hash p) = Some r" and "market_by_id d (pi_marketId p) \<noteq> None"
  shows "fst (upsertOrderPlaced now p d) = Inr () \<and>
    order_of (snd (upsertOrderPlaced now p d)) k =
      map_option (\<lambda>r. if k = pi_hash p then r\<lparr>o_status := O_PLACED\<rparr> else r) (order_of d k)"
proof -
  let ?d = "update_order (pi_hash p) (\<lambda>r. r\<lparr>o_status := O_PLACED\<rparr>) d"
  have "market_by_id ?d (pi_marketId p) \<noteq> None" using assms by (simp add: market_by_id_def)
  then show ?thesis
    using assms
    by (simp add: upsertOrderPlaced_def upsert_row_def append_event_def Let_def order_of_update
        order_of_cong [of "_\<lparr>d_events := _\<rparr>" ?d])
qed

lemma upsert_new:
  assumes "order_of d (pi_hash p) = None" and "order_row_fits d (new_order_row now p)"
  shows "fst (upsertOrderPlaced now p d) = Inr () \<and>
    d_orders (snd (upsertOrderPlaced now p d)) = d_orders d @ [new_order_row now p] \<and>
    order_of (snd (upsertOrderPlaced now p d)) k =
      (if k = pi_hash p then Some (new_order_row now p) else order_of d k)"
proof -
  let ?d = "d\<lparr>d_orders := d_orders d @ [new_order_row now p]\<rparr>"
  have m: "market_by_id ?d (pi_marketId p) \<noteq> None"
    using assms by (auto simp: order_row_fits_def new_order_row_def market_by_id_def)
  have o: "d_orders (snd (upsertOrderPlaced now p d)) = d_orders ?d"
    "fst (upsertOrderPlaced now p d) = Inr ()"
    using m assms by (simp_all add: upsertOrderPlaced_def upsert_row_def append_event_def Let_def)
  have h: "o_hash (new_order_row now p) = pi_hash p" by (simp add: new_order_row_def)
  have "order_of ?d k = (if k = pi_hash p then Some (new_order_row now p) else order_of d k)"
    using assms(1) h by (auto simp: order_of_def row_by_append split: option.splits)
  with o order_of_cong [OF o(1)] show ?thesis by simp
qed

section \<open>A sample market\<close>

text \<open>The concrete database on which the theorems are instantiated.\<close>

definition sample_market :: market_row where
  "sample_market =
    \<lparr>mk_id = ''m1'', mk_symbol = ''B-Q'', mk_baseAddress = ''0xB'', mk_quoteAddress = ''0xQ'',
     mk_baseDecimals = 2, mk_quoteDecimals = 2, mk_minNotionalQ = 1, mk_minSizeB = 1,
     mk_priceTickQ = 10\<rparr>"

definition sample_db :: db where
  "sample_db = \<lparr>d_markets = [sample_market], d_orders = [], d_trades = [], d_events = [],
     d_ws = [], d_metrics = []\<rparr>"

end
