(* ===== verification/OrderBook.thy ===== *)
theory OrderBook
  imports Persistence
begin

text \<open>
  \<open>apps/api/src/matching/orderbook.service.ts\<close>: the in-memory limit order book, a
  \<open>Map\<close> from market symbol to the resting bids and asks, kept beside the database rows of
  \<open>Persistence\<close>. Every method is a function of the engine state (books and database) that
  returns its result, or the exception it throws, together with the state it leaves; what a
  method wrote before it threw stays written. Each method is one uninterrupted step.

  \<open>TAKER_FEE_BPS\<close> (a number read from the environment at load time) and \<open>Date.now()\<close> are
  arguments. Log output is not modelled.
\<close>

section \<open>State\<close>

record level =
  lv_id :: string
  lv_maker :: string
  lv_side :: side
  lv_priceTicks :: int
  lv_sizeBase :: int
  lv_ts :: int
  lv_rawOrder :: "jval option"
  lv_rawSig :: "jval option"
  lv_expirySec :: "rat option"

record book =
  bids :: "level list"
  asks :: "level list"

text \<open>A JavaScript \<open>Map\<close>: its entries in insertion order.\<close>

type_synonym books = "(string \<times> book) list"

record engine =
  eng_books :: books
  eng_db :: db

definition empty_book :: book where
  "empty_book = \<lparr>bids = [], asks = []\<rparr>"

abbreviation book_at :: "engine \<Rightarrow> string \<Rightarrow> book option" where
  "book_at e k \<equiv> map_of (eng_books e) k"

definition set_book :: "string \<Rightarrow> book \<Rightarrow> engine \<Rightarrow> engine" where
  "set_book k b e = e\<lparr>eng_books := AList.update k b (eng_books e)\<rparr>"

text \<open>\<open>this.book(marketId)\<close>: creates the book on first use.\<close>

definition ensure_book :: "string \<Rightarrow> engine \<Rightarrow> book \<times> engine" where
  "ensure_book k e =
    (case book_at e k of Some b \<Rightarrow> (b, e) | None \<Rightarrow> (empty_book, set_book k empty_book e))"

definition listMarkets :: "engine \<Rightarrow> string list" where
  "listMarkets e = map fst (eng_books e)"

section \<open>Price-time order\<close>

definition cmp_bids :: "level \<Rightarrow> level \<Rightarrow> int" where
  "cmp_bids a b =
    (if lv_priceTicks a = lv_priceTicks b then lv_ts a - lv_ts b
     else lv_priceTicks b - lv_priceTicks a)"

definition cmp_asks :: "level \<Rightarrow> level \<Rightarrow> int" where
  "cmp_asks a b =
    (if lv_priceTicks a = lv_priceTicks b then lv_ts a - lv_ts b
     else lv_priceTicks a - lv_priceTicks b)"

definition sortBids :: "level list \<Rightarrow> level list" where
  "sortBids = js_sort cmp_bids"

definition sortAsks :: "level list \<Rightarrow> level list" where
  "sortAsks = js_sort cmp_asks"

definition pow10 :: "nat \<Rightarrow> int" where
  "pow10 n = 10 ^ n"

text \<open>\<open>o.id.toLowerCase() = target\<close>, and the list without such orders.\<close>

definition same_id :: "string \<Rightarrow> level \<Rightarrow> bool" where
  "same_id target l \<longleftrightarrow> to_lower (lv_id l) = target"

definition without_id :: "string \<Rightarrow> level list \<Rightarrow> level list" where
  "without_id target ls = filter (\<lambda>l. \<not> same_id target l) ls"

text \<open>The update, in place, of the object the first \<open>find\<close> that succeeds returns.\<close>

fun update_first :: "('a \<Rightarrow> bool) \<Rightarrow> ('a \<Rightarrow> 'a) \<Rightarrow> 'a list \<Rightarrow> 'a list" where
  "update_first P f [] = []"
| "update_first P f (x # xs) = (if P x then f x # xs else x # update_first P f xs)"

definition find_level :: "(level \<Rightarrow> bool) \<Rightarrow> book \<Rightarrow> level option" where
  "find_level P b =
    (case find P (bids b) of Some l \<Rightarrow> Some l | None \<Rightarrow> find P (asks b))"

definition mutate_level :: "(level \<Rightarrow> bool) \<Rightarrow> (level \<Rightarrow> level) \<Rightarrow> book \<Rightarrow> book" where
  "mutate_level P f b =
    (if find P (bids b) \<noteq> None then b\<lparr>bids := update_first P f (bids b)\<rparr>
     else b\<lparr>asks := update_first P f (asks b)\<rparr>)"

definition add_level :: "level \<Rightarrow> book \<Rightarrow> book" where
  "add_level l b =
    (case lv_side l of
       BUY \<Rightarrow> b\<lparr>bids := sortBids (bids b @ [l])\<rparr>
     | SELL \<Rightarrow> b\<lparr>asks := sortAsks (asks b @ [l])\<rparr>)"

definition drop_id :: "string \<Rightarrow> book \<Rightarrow> book" where
  "drop_id target b = b\<lparr>bids := without_id target (bids b), asks := without_id target (asks b)\<rparr>"

section \<open>Views\<close>

record snap_row =
  sn_priceTicks :: string
  sn_sizeBase :: string
  sn_ts :: string

definition snap_of :: "level \<Rightarrow> snap_row" where
  "snap_of o' = \<lparr>sn_priceTicks = big_to_string (lv_priceTicks o'),
     sn_sizeBase = big_to_string (lv_sizeBase o'), sn_ts = toISOString (lv_ts o')\<rparr>"

definition snapshot :: "string \<Rightarrow> nat \<Rightarrow> engine \<Rightarrow> snap_row list \<times> snap_row list" where
  "snapshot marketId depth e =
    (case book_at e marketId of
       None \<Rightarrow> ([], [])
     | Some b \<Rightarrow> (map snap_of (take depth (bids b)), map snap_of (take depth (asks b))))"

definition upper_char :: "char \<Rightarrow> char" where
  "upper_char c = (let n = code c in
     if 97 \<le> n \<and> n \<le> 122 then char_of (n - 32) else c)"

record dump_order =
  du_id :: string
  du_priceTicks :: string
  du_sizeBase :: string

definition dump_of :: "level \<Rightarrow> dump_order" where
  "dump_of o' = \<lparr>du_id = lv_id o', du_priceTicks = big_to_string (lv_priceTicks o'),
     du_sizeBase = big_to_string (lv_sizeBase o')\<rparr>"

text \<open>\<open>toUpperCase\<close> on a symbol, which is ASCII.\<close>

definition dump :: "string \<Rightarrow> engine \<Rightarrow> dump_order list \<times> dump_order list" where
  "dump symbolOrId e =
    (case book_at e (map upper_char symbolOrId) of
       None \<Rightarrow> ([], [])
     | Some b \<Rightarrow> (map dump_of (bids b), map dump_of (asks b)))"

definition getRaw :: "string \<Rightarrow> string \<Rightarrow> engine \<Rightarrow> (jval \<times> jval) option result" where
  "getRaw marketIdOrSymbol orderHash e =
    bind_res (getTradingContext (eng_db e) marketIdOrSymbol) (\<lambda>ctx. Inr
      (case book_at e (ctx_symbol ctx) of
         None \<Rightarrow> None
       | Some b \<Rightarrow>
           (case find_level (same_id (to_lower orderHash)) b of
              None \<Rightarrow> None
            | Some hit \<Rightarrow>
                (case (lv_rawOrder hit, lv_rawSig hit) of
                   (Some ro, Some sg) \<Rightarrow> if truthy ro \<and> truthy sg then Some (ro, sg) else None
                 | _ \<Rightarrow> None))))"

section \<open>Attaching, hydrating, cancelling\<close>

text \<open>\<open>Number.isFinite(expNum) \<and> expNum > 0\<close>, for the two readings of \<open>expiry\<close>.\<close>

definition raw_expiry :: "jval \<Rightarrow> rat option" where
  "raw_expiry order =
    (let v = jget order ''expiry'';
         expNum = (case v of JNum n \<Rightarrow> n | _ \<Rightarrow> if jnullish v then num 0 else js_Number v)
     in case expNum of Fin q \<Rightarrow> if 0 < q then Some q else None | _ \<Rightarrow> None)"

definition attach_to :: "jval \<Rightarrow> jval \<Rightarrow> level \<Rightarrow> level" where
  "attach_to order signature hit =
    (let hit1 = hit\<lparr>lv_rawOrder := Some (normalizeOrderForJson order), lv_rawSig := Some signature\<rparr>
     in case raw_expiry order of None \<Rightarrow> hit1 | Some q \<Rightarrow> hit1\<lparr>lv_expirySec := Some q\<rparr>)"

definition attachRaw :: "string \<Rightarrow> string \<Rightarrow> jval \<Rightarrow> jval \<Rightarrow> engine \<Rightarrow> bool result \<times> engine" where
  "attachRaw marketIdOrSymbol orderHash order signature e =
    (case getTradingContext (eng_db e) marketIdOrSymbol of
       Inl x \<Rightarrow> (Inl x, e)
     | Inr ctx \<Rightarrow>
         (case book_at e (ctx_symbol ctx) of
            None \<Rightarrow> (Inr False, e)
          | Some b \<Rightarrow>
              if find_level (\<lambda>o'. lv_id o' = orderHash) b = None then (Inr False, e)
              else (Inr True, set_book (ctx_symbol ctx)
                     (mutate_level (\<lambda>o'. lv_id o' = orderHash) (attach_to order signature) b) e)))"

record hydrate_input =
  hy_hash :: string
  hy_maker :: string
  hy_side :: side
  hy_priceTicks :: int
  hy_sizeBase :: int
  hy_expirySec :: "rat option"

definition hydrateLevel :: "int \<Rightarrow> string \<Rightarrow> hydrate_input \<Rightarrow> engine \<Rightarrow> engine" where
  "hydrateLevel now symbol p e =
    (let (b, e1) = ensure_book symbol e;
         b1 = drop_id (to_lower (hy_hash p)) b;
         o' = \<lparr>lv_id = hy_hash p, lv_maker = to_lower (hy_maker p), lv_side = hy_side p,
               lv_priceTicks = hy_priceTicks p, lv_sizeBase = hy_sizeBase p, lv_ts = now,
               lv_rawOrder = None, lv_rawSig = None,
               lv_expirySec = (case hy_expirySec p of
                 Some q \<Rightarrow> if 0 < q then Some q else None | None \<Rightarrow> None)\<rparr>
     in set_book symbol (add_level o' b1) e1)"

datatype cancel_status = CancelledStatus | CancelNotFound

definition cancel :: "int \<Rightarrow> string \<Rightarrow> string \<Rightarrow> engine \<Rightarrow> cancel_status result \<times> engine" where
  "cancel now marketIdKey orderHash e =
    (case getTradingContext (eng_db e) marketIdKey of
       Inl x \<Rightarrow> (Inl x, e)
     | Inr ctx \<Rightarrow>
         (let (b, e1) = ensure_book (ctx_symbol ctx) e;
              b1 = drop_id (to_lower orderHash) b;
              e2 = set_book (ctx_symbol ctx) b1 e1
          in if length (bids b1) \<noteq> length (bids b) \<or> length (asks b1) \<noteq> length (asks b)
             then (case cancelOrder now (ctx_id ctx) orderHash (eng_db e2) of
                     (Inl x, d) \<Rightarrow> (Inl x, e2\<lparr>eng_db := d\<rparr>)
                   | (Inr _, d) \<Rightarrow> (Inr CancelledStatus, e2\<lparr>eng_db := d\<rparr>))
             else (Inr CancelNotFound, e2)))"

definition clear :: "engine \<Rightarrow> engine" where
  "clear e = e\<lparr>eng_books := []\<rparr>"

section \<open>External fills\<close>

datatype fill_status = FillPartial | FillFilled | FillDbOnly | FillNotFound

definition apply_db_only ::
  "int \<Rightarrow> trading_ctx \<Rightarrow> string \<Rightarrow> int \<Rightarrow> engine \<Rightarrow> fill_status result \<times> engine" where
  "apply_db_only now ctx orderHash execBase e =
    (case getOrderRemaining (eng_db e) orderHash of
       None \<Rightarrow> (Inr FillNotFound, e)
     | Some rem \<Rightarrow>
         (let core = find (\<lambda>p. to_lower (pc_hash p) = to_lower orderHash)
                       (listPlacedBySymbol (eng_db e) (ctx_symbol ctx));
              exec = (if execBase > rem then rem else execBase);
              filledAll = (exec \<ge> rem)
          in case decreaseOrderRemaining now orderHash exec
                    (if filledAll then O_FILLED else O_PARTIALLY_FILLED) (eng_db e) of
               (Inl x, d) \<Rightarrow> (Inl x, e\<lparr>eng_db := d\<rparr>)
             | (Inr _, d) \<Rightarrow>
                 (let e1 = e\<lparr>eng_db := d\<rparr> in
                  (Inr FillDbOnly,
                   case core of
                     None \<Rightarrow> e1
                   | Some c \<Rightarrow>
                       if filledAll then e1
                       else hydrateLevel now (ctx_symbol ctx)
                         \<lparr>hy_hash = orderHash, hy_maker = pc_maker c, hy_side = pc_side c,
                          hy_priceTicks = pc_priceTicks c, hy_sizeBase = rem - exec,
                          hy_expirySec = None\<rparr> e1))))"

definition apply_to_level ::
  "int \<Rightarrow> trading_ctx \<Rightarrow> string \<Rightarrow> int \<Rightarrow> book \<Rightarrow> level \<Rightarrow> engine \<Rightarrow> fill_status result \<times> engine" where
  "apply_to_level now ctx orderHash execBase b level e =
    (let target = to_lower orderHash;
         exec = (if execBase > lv_sizeBase level then lv_sizeBase level else execBase);
         left = lv_sizeBase level - exec;
         b1 = mutate_level (same_id target) (\<lambda>l. l\<lparr>lv_sizeBase := left\<rparr>) b;
         e1 = set_book (ctx_symbol ctx) b1 e
     in case decreaseOrderRemaining now orderHash exec
               (if left > 0 then O_PARTIALLY_FILLED else O_FILLED) (eng_db e1) of
          (Inl x, d) \<Rightarrow> (Inl x, e1\<lparr>eng_db := d\<rparr>)
        | (Inr _, d) \<Rightarrow>
            (let e2 = e1\<lparr>eng_db := d\<rparr>;
                 e3 = (if left = 0 then set_book (ctx_symbol ctx) (drop_id target b1) e2 else e2)
             in (Inr (if left > 0 then FillPartial else FillFilled), e3)))"

definition applyExternalFill ::
  "int \<Rightarrow> string \<Rightarrow> string \<Rightarrow> int \<Rightarrow> engine \<Rightarrow> fill_status result \<times> engine" where
  "applyExternalFill now marketIdOrSymbol orderHash execBase e =
    (case getTradingContext (eng_db e) marketIdOrSymbol of
       Inl x \<Rightarrow> (Inl x, e)
     | Inr ctx \<Rightarrow>
         (case book_at e (ctx_symbol ctx) of
            None \<Rightarrow> apply_db_only now ctx orderHash execBase e
          | Some b \<Rightarrow>
              (case find_level (same_id (to_lower orderHash)) b of
                 None \<Rightarrow> apply_db_only now ctx orderHash execBase e
               | Some level \<Rightarrow> apply_to_level now ctx orderHash execBase b level e)))"

section \<open>Expiry\<close>

definition expired_at :: "int \<Rightarrow> level \<Rightarrow> bool" where
  "expired_at nowSec o' =
    (case lv_expirySec o' of Some q \<Rightarrow> 0 < q \<and> q \<le> of_int nowSec | None \<Rightarrow> False)"

fun expire_orders :: "int \<Rightarrow> string \<Rightarrow> level list \<Rightarrow> int \<Rightarrow> db \<Rightarrow> int result \<times> db" where
  "expire_orders now cid [] removedCount d = (Inr removedCount, d)"
| "expire_orders now cid (o' # os) removedCount d =
    (case expireOrder now cid (lv_id o') d of
       (Inl x, d1) \<Rightarrow> (Inl x, d1)
     | (Inr _, d1) \<Rightarrow> expire_orders now cid os (removedCount + 1) d1)"

fun sweep_books :: "int \<Rightarrow> int \<Rightarrow> string list \<Rightarrow> int \<Rightarrow> engine \<Rightarrow> int result \<times> engine" where
  "sweep_books now nowSec [] removedCount e = (Inr removedCount, e)"
| "sweep_books now nowSec (bookKey # ks) removedCount e =
    (case book_at e bookKey of
       None \<Rightarrow> sweep_books now nowSec ks removedCount e
     | Some b \<Rightarrow>
         (let aliveBids = filter (\<lambda>o'. \<not> expired_at nowSec o') (bids b);
              expiredBids = filter (expired_at nowSec) (bids b);
              aliveAsks = filter (\<lambda>o'. \<not> expired_at nowSec o') (asks b);
              expiredAsks = filter (expired_at nowSec) (asks b)
          in if expiredBids = [] \<and> expiredAsks = [] then sweep_books now nowSec ks removedCount e
             else let e1 = set_book bookKey (b\<lparr>bids := aliveBids, asks := aliveAsks\<rparr>) e in
               (case getTradingContext (eng_db e1) bookKey of
                  Inl x \<Rightarrow> (Inl x, e1)
                | Inr ctx \<Rightarrow>
                    (case expire_orders now (ctx_id ctx) (expiredBids @ expiredAsks) removedCount
                            (eng_db e1) of
                       (Inl x, d) \<Rightarrow> (Inl x, e1\<lparr>eng_db := d\<rparr>)
                     | (Inr n, d) \<Rightarrow> sweep_books now nowSec ks n (e1\<lparr>eng_db := d\<rparr>)))))"

definition sweepExpired :: "int \<Rightarrow> int \<Rightarrow> engine \<Rightarrow> int result \<times> engine" where
  "sweepExpired now nowSec e = sweep_books now nowSec (listMarkets e) 0 e"

section \<open>Placing\<close>

record place_input =
  pl_marketId :: string
  pl_orderHash :: string
  pl_maker :: string
  pl_side :: side
  pl_priceTicks :: int
  pl_sizeBase :: int

definition place_checks :: "trading_ctx \<Rightarrow> place_input \<Rightarrow> exn option" where
  "place_checks rules p =
    (if pl_sizeBase p \<le> 0 then Some (PlainError ''size_must_be_positive'')
     else if pl_priceTicks p \<le> 0 then Some (PlainError ''price_ticks_must_be_positive'')
     else if pl_sizeBase p < ctx_minSizeB rules then Some (PlainError ''min_size_violation'')
     else if tdiv (pl_priceTicks p * ctx_priceTickQ rules * pl_sizeBase p)
               (pow10 (ctx_baseDecimals rules)) < ctx_minNotionalQ rules
     then Some (PlainError ''min_notional_violation'')
     else None)"

definition placed_level :: "int \<Rightarrow> place_input \<Rightarrow> level" where
  "placed_level now p =
    \<lparr>lv_id = pl_orderHash p, lv_maker = to_lower (pl_maker p), lv_side = pl_side p,
     lv_priceTicks = pl_priceTicks p, lv_sizeBase = pl_sizeBase p, lv_ts = now,
     lv_rawOrder = None, lv_rawSig = None, lv_expirySec = None\<rparr>"

definition place_core :: "int \<Rightarrow> trading_ctx \<Rightarrow> place_input \<Rightarrow> engine \<Rightarrow> string result \<times> engine" where
  "place_core now rules p e =
    (let bookKey = ctx_symbol rules in
     case cancel now bookKey (pl_orderHash p) e of
       (Inl x, e1) \<Rightarrow> (Inl x, e1)
     | (Inr _, e1) \<Rightarrow>
         (let (b, e2) = ensure_book bookKey e1;
              e3 = set_book bookKey (add_level (placed_level now p) b) e2
          in case upsertOrderPlaced now
                    \<lparr>pi_hash = pl_orderHash p, pi_marketId = ctx_id rules, pi_maker = pl_maker p,
                     pi_side = pl_side p, pi_priceTicks = pl_priceTicks p,
                     pi_sizeBase = pl_sizeBase p\<rparr> (eng_db e3) of
               (Inl x, d) \<Rightarrow> (Inl x, e3\<lparr>eng_db := d\<rparr>)
             | (Inr _, d) \<Rightarrow> (Inr (pl_orderHash p), e3\<lparr>eng_db := d\<rparr>)))"

definition place :: "int \<Rightarrow> place_input \<Rightarrow> engine \<Rightarrow> string result \<times> engine" where
  "place now p e =
    (case getTradingContext (eng_db e) (pl_marketId p) of
       Inl x \<Rightarrow> (Inl x, e)
     | Inr rules \<Rightarrow>
         (case place_checks rules p of
            Some x \<Rightarrow> (Inl x, e)
          | None \<Rightarrow> place_core now rules p e))"

section \<open>Quoting and taking\<close>

text \<open>The levels a taker of the given side trades against.\<close>

fun against :: "side \<Rightarrow> book \<Rightarrow> level list" where
  "against BUY b = asks b"
| "against SELL b = bids b"

fun set_against :: "side \<Rightarrow> level list \<Rightarrow> book \<Rightarrow> book" where
  "set_against BUY ls b = b\<lparr>asks := ls\<rparr>"
| "set_against SELL ls b = b\<lparr>bids := ls\<rparr>"

definition beyond_limit :: "side \<Rightarrow> int option \<Rightarrow> int \<Rightarrow> bool" where
  "beyond_limit sd limit px =
    (case limit of None \<Rightarrow> False
     | Some l \<Rightarrow> (case sd of BUY \<Rightarrow> px > l | SELL \<Rightarrow> px < l))"

record quote_fill =
  qf_hash :: string
  qf_maker :: string
  qf_priceTicks :: string
  qf_sizeBase :: string
  qf_rawOrder :: "jval option"
  qf_rawSig :: "jval option"

text \<open>The local \<open>toBig\<close> of \<open>quote\<close>.\<close>

definition quote_toBig :: "jval \<Rightarrow> int result" where
  "quote_toBig v =
    (case v of JBig _ \<Rightarrow> js_BigInt v | JNum _ \<Rightarrow> js_BigInt v | JStr _ \<Rightarrow> js_BigInt v | _ \<Rightarrow> Inr 0)"

definition fee_part :: "jnum \<Rightarrow> side \<Rightarrow> level \<Rightarrow> int \<Rightarrow> int \<Rightarrow> int result" where
  "fee_part taker_fee_bps sd level exec notionalQ =
    (let raw = (case lv_rawOrder level of Some ro \<Rightarrow> ro | None \<Rightarrow> JUndef) in
     if truthy raw \<and> jget raw ''takerTokenFeeAmount'' \<noteq> JUndef then
       (case bind_res (quote_toBig (jget raw ''makerAmount'')) (\<lambda>makerAmt.
               bind_res (quote_toBig (jget raw ''takerTokenFeeAmount'')) (\<lambda>takerFeeFull.
                 Inr (if makerAmt > 0 then tdiv (takerFeeFull * exec) makerAmt else 0))) of
          Inl _ \<Rightarrow> Inr 0
        | Inr f \<Rightarrow> Inr f)
     else if num_less (num 0) taker_fee_bps then
       bind_res (js_BigInt (JNum taker_fee_bps)) (\<lambda>bps.
         Inr (tdiv ((case sd of BUY \<Rightarrow> notionalQ | SELL \<Rightarrow> exec) * bps) 10000))
     else Inr 0)"

record sweep_plan =
  sp_remaining :: int
  sp_totalQ :: int
  sp_feeTotal :: int
  sp_fills :: "quote_fill list"

definition notional_of :: "trading_ctx \<Rightarrow> level \<Rightarrow> int \<Rightarrow> int" where
  "notional_of ctx level exec =
    tdiv (lv_priceTicks level * ctx_priceTickQ ctx * exec) (10 ^ ctx_baseDecimals ctx)"

fun quote_loop ::
  "jnum \<Rightarrow> trading_ctx \<Rightarrow> side \<Rightarrow> int option \<Rightarrow> level list \<Rightarrow> sweep_plan \<Rightarrow> sweep_plan result" where
  "quote_loop fb ctx sd limit [] acc = Inr acc"
| "quote_loop fb ctx sd limit (level # levels) acc =
    (if sp_remaining acc \<le> 0 then Inr acc
     else if beyond_limit sd limit (lv_priceTicks level) then Inr acc
     else
       let exec = (if sp_remaining acc < lv_sizeBase level then sp_remaining acc else lv_sizeBase level);
           notionalQ = notional_of ctx level exec
       in bind_res (fee_part fb sd level exec notionalQ) (\<lambda>feePart.
            quote_loop fb ctx sd limit levels
              \<lparr>sp_remaining = sp_remaining acc - exec,
               sp_totalQ = sp_totalQ acc + notionalQ,
               sp_feeTotal = sp_feeTotal acc + feePart,
               sp_fills = sp_fills acc @
                 [\<lparr>qf_hash = lv_id level, qf_maker = lv_maker level,
                   qf_priceTicks = big_to_string (lv_priceTicks level),
                   qf_sizeBase = big_to_string exec,
                   qf_rawOrder = lv_rawOrder level, qf_rawSig = lv_rawSig level\<rparr>]\<rparr>))"

record quote_res =
  q_marketId :: string
  q_symbol :: string
  q_side :: side
  q_requestedBase :: string
  q_remainingBase :: string
  q_takerToken :: string
  q_takerAmount :: string
  q_takerFeeAmount :: string
  q_takerTotalAmount :: string
  q_fills :: "quote_fill list"

definition quote ::
  "jnum \<Rightarrow> string \<Rightarrow> side \<Rightarrow> int \<Rightarrow> int option \<Rightarrow> engine \<Rightarrow> quote_res result \<times> engine" where
  "quote taker_fee_bps marketIdOrSymbol sd sizeBase limit e =
    (case getTradingContext (eng_db e) marketIdOrSymbol of
       Inl x \<Rightarrow> (Inl x, e)
     | Inr ctx \<Rightarrow>
         (let (b, e1) = ensure_book (ctx_symbol ctx) e in
          (bind_res (quote_loop taker_fee_bps ctx sd limit (against sd b)
              \<lparr>sp_remaining = sizeBase, sp_totalQ = 0, sp_feeTotal = 0, sp_fills = []\<rparr>)
            (\<lambda>r. Inr
              \<lparr>q_marketId = ctx_id ctx, q_symbol = ctx_symbol ctx, q_side = sd,
               q_requestedBase = big_to_string sizeBase,
               q_remainingBase = big_to_string (sp_remaining r),
               q_takerToken = (case sd of BUY \<Rightarrow> ctx_quoteAddress ctx | SELL \<Rightarrow> ctx_baseAddress ctx),
               q_takerAmount = big_to_string (sp_totalQ r),
               q_takerFeeAmount = big_to_string (sp_feeTotal r),
               q_takerTotalAmount = big_to_string (sp_totalQ r + sp_feeTotal r),
               q_fills = sp_fills r\<rparr>), e1)))"

record market_fill =
  mf_hash :: string
  mf_priceTicks :: string
  mf_sizeBase :: string

definition zero_address :: string where
  "zero_address = ''0x0000000000000000000000000000000000000000''"

text \<open>The three writes of one fill of \<open>market\<close>.\<close>

definition record_fill ::
  "int \<Rightarrow> trading_ctx \<Rightarrow> level \<Rightarrow> int \<Rightarrow> db \<Rightarrow> unit result \<times> db" where
  "record_fill now ctx level exec d =
    (case addTrade now (ctx_id ctx) (lv_id level) zero_address (lv_priceTicks level) exec None d of
       (Inl x, d1) \<Rightarrow> (Inl x, d1)
     | (Inr _, d1) \<Rightarrow>
         (let newStatus = (if lv_sizeBase level - exec > 0 then O_PARTIALLY_FILLED else O_FILLED) in
          case decreaseOrderRemaining now (lv_id level) exec newStatus d1 of
            (Inl x, d2) \<Rightarrow> (Inl x, d2)
          | (Inr _, d2) \<Rightarrow>
              append_event (ctx_id ctx) (lv_id level)
                (if newStatus = O_FILLED then E_FILLED else E_PARTIAL_FILL)
                (JObj [(''sizeBase'', JStr (big_to_string exec)),
                       (''priceTicks'', JStr (big_to_string (lv_priceTicks level)))]) d2))"

text \<open>
  The \<open>while\<close> of \<open>market\<close>. An iteration either exhausts \<open>remaining\<close> or exhausts the head of
  the book and shifts it out.
\<close>

function market_loop ::
  "int \<Rightarrow> trading_ctx \<Rightarrow> int \<Rightarrow> market_fill list \<Rightarrow> level list \<Rightarrow> db \<Rightarrow>
     (int \<times> market_fill list) result \<times> level list \<times> db" where
  "market_loop now ctx remaining fills levels d =
    (if remaining \<le> 0 then (Inr (remaining, fills), levels, d)
     else case levels of
       [] \<Rightarrow> (Inr (remaining, fills), levels, d)
     | level # rest \<Rightarrow>
         (let exec = (if remaining < lv_sizeBase level then remaining else lv_sizeBase level);
              level' = level\<lparr>lv_sizeBase := lv_sizeBase level - exec\<rparr>
          in case record_fill now ctx level exec d of
               (Inl x, d1) \<Rightarrow> (Inl x, level' # rest, d1)
             | (Inr _, d1) \<Rightarrow>
                 market_loop now ctx (remaining - exec)
                   (fills @ [\<lparr>mf_hash = lv_id level,
                      mf_priceTicks = big_to_string (lv_priceTicks level),
                      mf_sizeBase = big_to_string exec\<rparr>])
                   (if lv_sizeBase level' = 0 then rest else level' # rest) d1))"
  by pat_completeness auto
termination
  by (relation "measure (\<lambda>(now, ctx, remaining, fills, levels, d).
        if remaining \<le> 0 then 0 else Suc (length levels))") (auto split: if_splits)

declare market_loop.simps [simp del]

record market_res =
  m_remainingBase :: string
  m_fills :: "market_fill list"

definition market ::
  "int \<Rightarrow> string \<Rightarrow> side \<Rightarrow> int \<Rightarrow> engine \<Rightarrow> market_res result \<times> engine" where
  "market now marketId sd sizeBase e =
    (case getTradingContext (eng_db e) marketId of
       Inl x \<Rightarrow> (Inl x, e)
     | Inr ctx \<Rightarrow>
         (let (b, e1) = ensure_book (ctx_symbol ctx) e in
          case market_loop now ctx sizeBase [] (against sd b) (eng_db e1) of
            (r, ls, d) \<Rightarrow>
              (case r of
                 Inl x \<Rightarrow> Inl x
               | Inr (rem, fills) \<Rightarrow>
                   Inr \<lparr>m_remainingBase = big_to_string rem, m_fills = fills\<rparr>,
               (set_book (ctx_symbol ctx) (set_against sd ls b) e1)\<lparr>eng_db := d\<rparr>)))"

end
