(* ===== verification/OrderBookInv.thy ===== *)
theory OrderBookInv
  imports OrderBook
begin

text \<open>
  The invariant of the in-memory book (price-time order, one order per hash, no negative size)
  and its preservation by every method of \<open>orderbook.service.ts\<close>, on success and on every
  exception.
\<close>

section \<open>The book invariant\<close>

interpretation bid_order: comparator cmp_bids
  by unfold_locales (auto simp: cmp_bids_def split: if_splits)

interpretation ask_order: comparator cmp_asks
  by unfold_locales (auto simp: cmp_asks_def split: if_splits)

text \<open>
  One side of a book is in price-time order, holds orders of that side only and no negative
  size; no two orders of a book have the same hash up to case.
\<close>

fun cmp_side :: "side \<Rightarrow> level \<Rightarrow> level \<Rightarrow> int" where
  "cmp_side BUY = cmp_bids"
| "cmp_side SELL = cmp_asks"

definition side_ok :: "side \<Rightarrow> level list \<Rightarrow> bool" where
  "side_ok sd ls \<longleftrightarrow>
    sorted_wrt (\<lambda>a b. cmp_side sd a b \<le> 0) ls \<and> (\<forall>l \<in> set ls. lv_side l = sd \<and> 0 \<le> lv_sizeBase l)"

definition id_key :: "level \<Rightarrow> string" where
  "id_key l = to_lower (lv_id l)"

definition book_ok :: "book \<Rightarrow> bool" where
  "book_ok b \<longleftrightarrow>
    side_ok BUY (bids b) \<and> side_ok SELL (asks b) \<and> distinct (map id_key (bids b @ asks b))"

definition engine_ok :: "engine \<Rightarrow> bool" where
  "engine_ok e \<longleftrightarrow> distinct (map fst (eng_books e)) \<and> (\<forall>k b. book_at e k = Some b \<longrightarrow> book_ok b)"

lemma cmp_side_cong:
  "lv_priceTicks a' = lv_priceTicks a \<Longrightarrow> lv_ts a' = lv_ts a \<Longrightarrow> cmp_side sd a' = cmp_side sd a"
  "lv_priceTicks b' = lv_priceTicks b \<Longrightarrow> lv_ts b' = lv_ts b \<Longrightarrow> cmp_side sd a b' = cmp_side sd a b"
  by (cases sd; auto simp: cmp_bids_def cmp_asks_def fun_eq_iff)+

lemma book_at_set [simp]:
  "book_at (set_book k b e) j = (if j = k then Some b else book_at e j)"
  by (simp add: set_book_def update_conv')

lemma set_book_frame [simp, frame_simps]: "eng_db (set_book k b e) = eng_db e"
  by (simp add: set_book_def)

lemma book_at_db [simp]: "book_at (e\<lparr>eng_db := d\<rparr>) = book_at e"
  by (simp add: fun_eq_iff)

lemma distinct_set_book:
  "distinct (map fst (eng_books e)) \<Longrightarrow> distinct (map fst (eng_books (set_book k b e)))"
  by (simp add: set_book_def distinct_update)

lemma side_ok_Nil [simp]: "side_ok sd []"
  by (simp add: side_ok_def)

lemma side_ok_Cons:
  "side_ok sd (l # ls) \<longleftrightarrow>
    (\<forall>m \<in> set ls. cmp_side sd l m \<le> 0) \<and> lv_side l = sd \<and> 0 \<le> lv_sizeBase l \<and> side_ok sd ls"
  by (auto simp: side_ok_def)

lemma book_ok_empty [simp]: "book_ok empty_book"
  by (simp add: book_ok_def empty_book_def)

lemma engine_ok_set_book [step_intros]:
  "engine_ok e \<Longrightarrow> book_ok b \<Longrightarrow> engine_ok (set_book k b e)"
  by (auto simp: engine_ok_def distinct_set_book)

lemma engine_ok_db [simp]: "engine_ok (e\<lparr>eng_db := d\<rparr>) = engine_ok e"
  by (simp add: engine_ok_def)

lemma engine_okD: "engine_ok e \<Longrightarrow> book_at e k = Some b \<Longrightarrow> book_ok b"
  by (auto simp: engine_ok_def)

lemma ensure_book_ok:
  "engine_ok e \<Longrightarrow> ensure_book k e = (b, e1) \<Longrightarrow>
    book_ok b \<and> engine_ok e1 \<and> book_at e1 k = Some b \<and> eng_db e1 = eng_db e \<and>
    (\<forall>j. j \<noteq> k \<longrightarrow> book_at e1 j = book_at e j)"
  by (auto simp: ensure_book_def engine_ok_set_book engine_okD split: option.splits)

lemma ensure_book_fst:
  "fst (ensure_book k e) = (case book_at e k of Some b \<Rightarrow> b | None \<Rightarrow> empty_book)"
  by (auto simp: ensure_book_def split: option.splits)

lemma ensure_book_frame [simp, frame_simps]: "eng_db (snd (ensure_book k e)) = eng_db e"
  by (auto simp: ensure_book_def split: option.splits)

lemma side_ok_filter: "side_ok sd ls \<Longrightarrow> side_ok sd (filter P ls)"
  by (auto simp: side_ok_def sorted_wrt_filter)

lemma distinct_map_filters:
  "distinct (map f (xs @ ys)) \<Longrightarrow> distinct (map f (filter P xs @ filter Q ys))"
  by (auto simp: distinct_map_filter image_iff)

lemma book_ok_filter:
  "book_ok b \<Longrightarrow> book_ok (b\<lparr>bids := filter P (bids b), asks := filter P (asks b)\<rparr>)"
  using distinct_map_filters [of id_key "bids b" "asks b" P P]
  by (auto simp: book_ok_def side_ok_filter)

lemma book_ok_drop_id [step_intros]: "book_ok b \<Longrightarrow> book_ok (drop_id t b)"
  by (simp add: drop_id_def without_id_def book_ok_filter)

text \<open>In-place updates that keep the key fields.\<close>

lemma set_update_first: "set (update_first P f xs) \<subseteq> set xs \<union> f ` set xs"
  by (induction xs) auto

lemma map_update_first:
  "(\<And>x. x \<in> set xs \<Longrightarrow> P x \<Longrightarrow> g (f x) = g x) \<Longrightarrow> map g (update_first P f xs) = map g xs"
  by (induction xs) auto

definition keeps_key :: "(level \<Rightarrow> level) \<Rightarrow> bool" where
  "keeps_key f \<longleftrightarrow> (\<forall>l. lv_id (f l) = lv_id l \<and> lv_priceTicks (f l) = lv_priceTicks l \<and>
     lv_ts (f l) = lv_ts l \<and> lv_side (f l) = lv_side l)"

lemma side_ok_update_first:
  assumes "side_ok sd ls" and "keeps_key f"
    and "\<And>l. l \<in> set ls \<Longrightarrow> P l \<Longrightarrow> 0 \<le> lv_sizeBase (f l)"
  shows "side_ok sd (update_first P f ls)"
  using assms(1, 3)
proof (induction ls)
  case (Cons l ls)
  have k: "cmp_side sd (f x) = cmp_side sd x" "cmp_side sd y (f x) = cmp_side sd y x" for x y
    using assms(2) by (auto simp: keeps_key_def intro: cmp_side_cong)
  have tl: "side_ok sd (update_first P f ls)"
    using Cons by (simp add: side_ok_Cons)
  have le: "\<forall>m \<in> set (update_first P f ls). cmp_side sd l m \<le> 0"
  proof
    fix m assume "m \<in> set (update_first P f ls)"
    with set_update_first [of P f ls] consider "m \<in> set ls" | x where "x \<in> set ls" "m = f x" by blast
    then show "cmp_side sd l m \<le> 0"
      using Cons.prems(1) by cases (auto simp: side_ok_Cons k)
  qed
  show ?case
  proof (cases "P l")
    case True
    with Cons.prems assms(2) show ?thesis by (simp add: side_ok_Cons k keeps_key_def)
  next
    case False
    with Cons.prems tl le show ?thesis by (simp add: side_ok_Cons)
  qed
qed simp

lemma book_ok_mutate:
  assumes "book_ok b" and "keeps_key f"
    and "\<And>l. P l \<Longrightarrow> 0 \<le> lv_sizeBase l \<Longrightarrow> 0 \<le> lv_sizeBase (f l)"
  shows "book_ok (mutate_level P f b)"
proof -
  have ids: "map id_key (update_first P f ls) = map id_key ls" for ls
    using assms(2) by (intro map_update_first) (simp add: id_key_def keeps_key_def)
  have "side_ok sd (update_first P f ls)" if "side_ok sd ls" for sd ls
    using that assms(2,3) by (intro side_ok_update_first) (auto simp: side_ok_def)
  with assms(1) show ?thesis
    unfolding book_ok_def mutate_level_def map_append by (simp add: ids del: distinct_append)
qed

lemma side_ok_sorted_insert:
  "side_ok BUY ls \<Longrightarrow> lv_side l = BUY \<Longrightarrow> 0 \<le> lv_sizeBase l \<Longrightarrow> side_ok BUY (sortBids (ls @ [l]))"
  "side_ok SELL ls \<Longrightarrow> lv_side l = SELL \<Longrightarrow> 0 \<le> lv_sizeBase l \<Longrightarrow> side_ok SELL (sortAsks (ls @ [l]))"
  using bid_order.sorted_js_sort [of "ls @ [l]"] ask_order.sorted_js_sort [of "ls @ [l]"]
  by (auto simp: side_ok_def sortBids_def sortAsks_def)

lemma set_sorts [simp]: "set (sortBids xs) = set xs" "set (sortAsks xs) = set xs"
  by (simp_all add: sortBids_def sortAsks_def)

lemma distinct_sorts [simp]:
  "distinct (map f (sortBids xs)) = distinct (map f xs)"
  "distinct (map f (sortAsks xs)) = distinct (map f xs)"
  by (simp_all add: sortBids_def sortAsks_def)

lemma drop_id_fresh: "l \<in> set (bids (drop_id t b) @ asks (drop_id t b)) \<Longrightarrow> id_key l \<noteq> t"
  by (auto simp: drop_id_def without_id_def same_id_def id_key_def)

lemma book_ok_add_level [step_intros]:
  assumes "book_ok b" and "0 \<le> lv_sizeBase l"
    and "\<forall>m \<in> set (bids b @ asks b). id_key m \<noteq> id_key l"
  shows "book_ok (add_level l b)"
  using assms side_ok_sorted_insert
  by (cases "lv_side l") (auto simp: book_ok_def add_level_def image_iff)

lemma book_ok_readd:
  "book_ok b \<Longrightarrow> 0 \<le> lv_sizeBase l \<Longrightarrow> t = id_key l \<Longrightarrow> book_ok (add_level l (drop_id t b))"
  using drop_id_fresh by (blast intro: book_ok_add_level book_ok_drop_id)

lemma engine_ok_hydrateLevel [step_intros]:
  assumes "engine_ok e" and "0 \<le> hy_sizeBase p"
  shows "engine_ok (hydrateLevel now k p e)"
proof -
  obtain b e1 where eb: "ensure_book k e = (b, e1)" by fastforce
  note ok = ensure_book_ok [OF assms(1) eb]
  show ?thesis unfolding hydrateLevel_def eb Let_def prod.case
    using ok assms(2) by (intro engine_ok_set_book book_ok_readd) (auto simp: id_key_def)
qed

text \<open>What \<open>cancel\<close> leaves: the book without the hash, everything else alone.\<close>

lemma cancel_book:
  assumes "engine_ok e" and "getTradingContext (eng_db e) k = Inr ctx" and "cancel now k h e = (r, e')"
  shows "engine_ok e' \<and>
    book_at e' (ctx_symbol ctx) = Some (drop_id (to_lower h) (fst (ensure_book (ctx_symbol ctx) e))) \<and>
    (\<forall>j. j \<noteq> ctx_symbol ctx \<longrightarrow> book_at e' j = book_at e j) \<and>
    d_markets (eng_db e') = d_markets (eng_db e)"
proof -
  obtain b e1 where eb: "ensure_book (ctx_symbol ctx) e = (b, e1)" by fastforce
  note ok = ensure_book_ok [OF assms(1) eb]
  obtain r2 d where co: "cancelOrder now (ctx_id ctx) h (eng_db e) = (r2, d)" by fastforce
  have "d_markets d = d_markets (eng_db e)" using cancelOrder_db(2) [of now "ctx_id ctx" h "eng_db e"] co by simp
  with assms(2,3) ok co show ?thesis
    by (auto simp: cancel_def eb Let_def engine_ok_set_book book_ok_drop_id split: if_splits sum.splits)
qed

lemma engine_ok_cancel [step_intros]:
  "engine_ok e \<Longrightarrow> engine_ok (snd (cancel now k h e))"
  using cancel_book [of e k _ now h]
  by (cases "getTradingContext (eng_db e) k") (auto simp: cancel_def prod_eq_iff)

lemma keeps_key_attach [simp]: "keeps_key (attach_to ord sig)"
  by (auto simp: keeps_key_def attach_to_def Let_def split: option.splits)

lemma attach_to_size [simp]: "lv_sizeBase (attach_to ord sig l) = lv_sizeBase l"
  by (auto simp: attach_to_def Let_def split: option.splits)

lemma engine_ok_attachRaw [step_intros]:
  "engine_ok e \<Longrightarrow> engine_ok (snd (attachRaw k h ord sig e))"
  by (auto simp: attachRaw_def engine_okD intro!: engine_ok_set_book book_ok_mutate
      split: sum.splits option.splits)

lemma engine_ok_apply_db_only:
  assumes "engine_ok e"
  shows "engine_ok (snd (apply_db_only now ctx h x e))"
  using assms
  by (auto simp: apply_db_only_def Let_def intro!: engine_ok_hydrateLevel
      split: option.splits sum.splits prod.splits)

lemma find_level_book_size:
  "book_ok b \<Longrightarrow> find_level P b = Some l \<Longrightarrow> 0 \<le> lv_sizeBase l"
  by (auto simp: find_level_def book_ok_def side_ok_def find_Some_iff split: option.splits)

lemma engine_ok_apply_to_level:
  assumes "engine_ok e" and "book_at e (ctx_symbol ctx) = Some b"
    and "find_level (same_id (to_lower h)) b = Some l" and "0 \<le> x"
  shows "engine_ok (snd (apply_to_level now ctx h x b l e))"
proof -
  have b: "book_ok b" using assms engine_okD by blast
  let ?left = "lv_sizeBase l - (if lv_sizeBase l < x then lv_sizeBase l else x)"
  have "0 \<le> ?left" using find_level_book_size [OF b assms(3)] by auto
  then have m: "book_ok (mutate_level (same_id (to_lower h)) (\<lambda>l. l\<lparr>lv_sizeBase := ?left\<rparr>) b)"
    using b by (intro book_ok_mutate) (auto simp: keeps_key_def)
  show ?thesis
    using engine_ok_set_book [OF assms(1) m] m
    by (auto simp: apply_to_level_def Let_def engine_ok_set_book book_ok_drop_id
        split: sum.splits prod.splits)
qed

lemma engine_ok_applyExternalFill [step_intros]:
  "engine_ok e \<Longrightarrow> 0 \<le> x \<Longrightarrow> engine_ok (snd (applyExternalFill now k h x e))"
  by (auto simp: applyExternalFill_def engine_ok_apply_db_only engine_ok_apply_to_level
      split: sum.splits option.splits)

text \<open>One turn of the sweep, as an equation.\<close>

definition alive_book :: "int \<Rightarrow> book \<Rightarrow> book" where
  "alive_book nowSec b = b\<lparr>bids := filter (\<lambda>o'. \<not> expired_at nowSec o') (bids b),
     asks := filter (\<lambda>o'. \<not> expired_at nowSec o') (asks b)\<rparr>"

definition expired_of :: "int \<Rightarrow> book \<Rightarrow> level list" where
  "expired_of nowSec b = filter (expired_at nowSec) (bids b) @ filter (expired_at nowSec) (asks b)"

lemma sweep_books_Cons:
  "sweep_books now nowSec (k # ks) n e =
    (case book_at e k of
       None \<Rightarrow> sweep_books now nowSec ks n e
     | Some b \<Rightarrow>
         if expired_of nowSec b = [] then sweep_books now nowSec ks n e
         else let e1 = set_book k (alive_book nowSec b) e in
           (case getTradingContext (eng_db e) k of
              Inl x \<Rightarrow> (Inl x, e1)
            | Inr ctx \<Rightarrow>
                (case expire_orders now (ctx_id ctx) (expired_of nowSec b) n (eng_db e) of
                   (Inl x, d) \<Rightarrow> (Inl x, e1\<lparr>eng_db := d\<rparr>)
                 | (Inr n', d) \<Rightarrow> sweep_books now nowSec ks n' (e1\<lparr>eng_db := d\<rparr>))))"
  by (cases "book_at e k"; cases "getTradingContext (eng_db e) k")
    (simp_all add: alive_book_def expired_of_def Let_def)

lemma book_ok_alive: "book_ok b \<Longrightarrow> book_ok (alive_book t b)"
  by (simp add: alive_book_def book_ok_filter)

lemma engine_ok_sweep_books:
  "engine_ok e \<Longrightarrow> engine_ok (snd (sweep_books now nowSec ks n e))"
proof (induction ks arbitrary: n e)
  case (Cons k ks)
  have "engine_ok (set_book k (alive_book nowSec b) e)" if "book_at e k = Some b" for b
    using Cons.prems that by (intro engine_ok_set_book book_ok_alive) (auto intro: engine_okD)
  with Cons show ?case
    unfolding sweep_books_Cons by (simp add: Let_def split: option.split sum.split prod.split)
qed simp

lemma engine_ok_sweepExpired [step_intros]:
  "engine_ok e \<Longrightarrow> engine_ok (snd (sweepExpired now nowSec e))"
  by (simp add: sweepExpired_def engine_ok_sweep_books)

text \<open>
  Market ids are \<open>cuid\<close>s and symbols are of the form \<open>BASE-QUOTE\<close>: both are unique, and no id is
  a symbol. Then a context resolves again, to itself, by its own symbol.
\<close>

definition markets_ok :: "db \<Rightarrow> bool" where
  "markets_ok d \<longleftrightarrow> distinct (map mk_id (d_markets d)) \<and> distinct (map mk_symbol (d_markets d)) \<and>
    (\<forall>m \<in> set (d_markets d). \<forall>n \<in> set (d_markets d). mk_id m \<noteq> mk_symbol n)"

lemma markets_ok_cong: "d_markets d' = d_markets d \<Longrightarrow> markets_ok d' = markets_ok d"
  by (simp add: markets_ok_def)

lemma find_in: "find P xs = Some x \<Longrightarrow> x \<in> set xs \<and> P x"
  by (induction xs) (auto split: if_splits)

lemma find_unique:
  assumes "x \<in> set xs" and "P x" and "\<And>y. y \<in> set xs \<Longrightarrow> P y \<Longrightarrow> y = x"
  shows "find P xs = Some x"
proof (cases "find P xs")
  case None
  with assms(1,2) show ?thesis by (simp add: find_None_iff)
next
  case (Some y)
  with find_in [OF this] assms(3) [of y] show ?thesis by simp
qed

lemma ctx_of_market:
  "getTradingContext d k = Inr ctx \<Longrightarrow> \<exists>m. m \<in> set (d_markets d) \<and> (mk_id m = k \<or> mk_symbol m = k) \<and>
    mk_id m = ctx_id ctx \<and> mk_symbol m = ctx_symbol ctx \<and> find (\<lambda>m. mk_id m = k \<or> mk_symbol m = k) (d_markets d) = Some m"
  by (cases "find (\<lambda>m. mk_id m = k \<or> mk_symbol m = k) (d_markets d)")
    (auto simp: getTradingContext_def dest: find_in)

lemma ctx_same_market:
  "find (\<lambda>m. mk_id m = k \<or> mk_symbol m = k) (d_markets d) =
   find (\<lambda>m. mk_id m = j \<or> mk_symbol m = j) (d_markets d) \<Longrightarrow>
   getTradingContext d k = getTradingContext d j"
  by (simp add: getTradingContext_def)

lemma ctx_resolves:
  assumes "markets_ok d" and "getTradingContext d k = Inr ctx"
  shows "getTradingContext d (ctx_symbol ctx) = Inr ctx"
proof -
  obtain m where mem: "m \<in> set (d_markets d)" and c: "mk_symbol m = ctx_symbol ctx"
    and m: "find (\<lambda>m. mk_id m = k \<or> mk_symbol m = k) (d_markets d) = Some m"
    using ctx_of_market [OF assms(2)] by blast
  have "find (\<lambda>n. mk_id n = mk_symbol m \<or> mk_symbol n = mk_symbol m) (d_markets d) = Some m"
    using assms(1) mem by (intro find_unique) (auto simp: markets_ok_def distinct_map inj_on_def)
  with m c have "getTradingContext d k = getTradingContext d (ctx_symbol ctx)"
    by (intro ctx_same_market) simp
  with assms(2) show ?thesis by simp
qed

definition engine_wf :: "engine \<Rightarrow> bool" where
  "engine_wf e \<longleftrightarrow> engine_ok e \<and> markets_ok (eng_db e)"

lemma ensure_book_Some [simp]: "book_at e k = Some b \<Longrightarrow> ensure_book k e = (b, e)"
  by (simp add: ensure_book_def)

lemma place_core_book:
  assumes wf: "engine_wf e" and k: "getTradingContext (eng_db e) k = Inr rules"
    and sz: "0 \<le> pl_sizeBase p" and pc: "place_core now rules p e = (r, e')"
  shows "engine_ok e' \<and> d_markets (eng_db e') = d_markets (eng_db e) \<and>
    (\<forall>h. r = Inr h \<longrightarrow> h = pl_orderHash p \<and>
       book_at e' (ctx_symbol rules) = Some (add_level (placed_level now p)
         (drop_id (to_lower (pl_orderHash p)) (fst (ensure_book (ctx_symbol rules) e)))) \<and>
       (\<forall>j. j \<noteq> ctx_symbol rules \<longrightarrow> book_at e' j = book_at e j))"
proof -
  let ?k = "ctx_symbol rules" and ?t = "to_lower (pl_orderHash p)"
  have e: "engine_ok e" and rs: "getTradingContext (eng_db e) ?k = Inr rules"
    using wf ctx_resolves [OF _ k] by (auto simp: engine_wf_def)
  obtain r1 e1 where cn: "cancel now ?k (pl_orderHash p) e = (r1, e1)" by fastforce
  note c = cancel_book [OF e rs cn]
  let ?b = "drop_id ?t (fst (ensure_book ?k e))"
  let ?pi = "\<lparr>pi_hash = pl_orderHash p, pi_marketId = ctx_id rules, pi_maker = pl_maker p,
     pi_side = pl_side p, pi_priceTicks = pl_priceTicks p, pi_sizeBase = pl_sizeBase p\<rparr>"
  obtain r2 d where up: "upsertOrderPlaced now ?pi (eng_db e1) = (r2, d)" by fastforce
  have d: "d_markets d = d_markets (eng_db e1)"
    using upsertOrderPlaced_db(1) [of now ?pi "eng_db e1"] up by simp
  have eb: "ensure_book ?k e1 = (?b, e1)" using c by simp
  have "book_ok ?b" using c engine_okD by blast
  then have b: "book_ok (add_level (placed_level now p) ?b)"
    using sz drop_id_fresh by (intro book_ok_add_level) (auto simp: placed_level_def id_key_def)
  show ?thesis
  proof (cases r1)
    case (Inl x)
    with pc have "e' = e1 \<and> r = Inl x" by (simp add: place_core_def cn)
    with c show ?thesis by simp
  next
    case (Inr u)
    let ?e3 = "set_book ?k (add_level (placed_level now p) ?b) e1"
    have e': "e' = ?e3\<lparr>eng_db := d\<rparr>" and r: "\<And>h. r = Inr h \<Longrightarrow> h = pl_orderHash p"
      using pc up by (auto simp: place_core_def Let_def cn Inr eb split: sum.splits)
    have ok: "engine_ok e'" using c engine_ok_set_book [OF _ b] by (simp add: e')
    have m: "d_markets (eng_db e') = d_markets (eng_db e)" using c d by (simp add: e')
    have bk: "book_at e' j = (if j = ?k then Some (add_level (placed_level now p) ?b) else book_at e j)" for j
      using c by (simp add: e')
    show ?thesis using ok m bk r by simp
  qed
qed

lemma engine_wf_place [step_intros]:
  assumes "engine_wf e"
  shows "engine_wf (snd (place now p e))"
proof (cases "getTradingContext (eng_db e) (pl_marketId p)")
  case (Inr rules)
  obtain r e' where pc: "place_core now rules p e = (r, e')" by fastforce
  have "place_checks rules p = None \<Longrightarrow> 0 \<le> pl_sizeBase p"
    by (auto simp: place_checks_def split: if_splits)
  with place_core_book [OF assms Inr _ pc] assms Inr pc show ?thesis
    by (auto simp: place_def engine_wf_def markets_ok_def split: option.splits)
qed (use assms in \<open>simp add: place_def\<close>)

text \<open>The loop of \<open>market\<close> only ever takes from the front.\<close>

lemma record_fill_frame [simp, frame_simps]:
  "d_markets (snd (record_fill now ctx l x d)) = d_markets d"
  using addTrade_db(2) [of now "ctx_id ctx" "lv_id l" zero_address "lv_priceTicks l" x None d]
    decreaseOrderRemaining_db(2) [of now "lv_id l" x]
    append_event_frame(1) [of "ctx_id ctx" "lv_id l"]
  by (auto simp: record_fill_def Let_def simp del: addTrade_db decreaseOrderRemaining_db
      append_event_frame split: sum.splits prod.splits) (metis snd_conv)+

lemma market_loop_stop: "rem \<le> 0 \<Longrightarrow> market_loop now ctx rem fills ls d = (Inr (rem, fills), ls, d)"
  by (subst market_loop.simps) simp

lemma market_loop_Nil: "market_loop now ctx rem fills [] d = (Inr (rem, fills), [], d)"
  by (subst market_loop.simps) simp

definition fill_level :: "level \<Rightarrow> int \<Rightarrow> level" where
  "fill_level l x = l\<lparr>lv_sizeBase := lv_sizeBase l - x\<rparr>"

lemma fill_level_simps [simp]:
  "lv_id (fill_level l x) = lv_id l" "lv_priceTicks (fill_level l x) = lv_priceTicks l"
  "lv_ts (fill_level l x) = lv_ts l" "lv_side (fill_level l x) = lv_side l"
  "lv_sizeBase (fill_level l x) = lv_sizeBase l - x" "id_key (fill_level l x) = id_key l"
  "cmp_side sd (fill_level l x) = cmp_side sd l"
  by (auto simp: fill_level_def id_key_def intro: cmp_side_cong)

lemma market_loop_Cons:
  assumes "0 < rem" and "record_fill now ctx l (min rem (lv_sizeBase l)) d = (q, d1)"
  shows "market_loop now ctx rem fills (l # rest) d =
    (case q of
       Inl x \<Rightarrow> (Inl x, fill_level l (min rem (lv_sizeBase l)) # rest, d1)
     | Inr _ \<Rightarrow> market_loop now ctx (rem - min rem (lv_sizeBase l))
         (fills @ [\<lparr>mf_hash = lv_id l, mf_priceTicks = big_to_string (lv_priceTicks l),
            mf_sizeBase = big_to_string (min rem (lv_sizeBase l))\<rparr>])
         (if lv_sizeBase l \<le> rem then rest else fill_level l rem # rest) d1)"
proof -
  have m: "(if rem < lv_sizeBase l then rem else lv_sizeBase l) = min rem (lv_sizeBase l)" by auto
  show ?thesis
    using assms by (subst market_loop.simps) (auto simp: m Let_def fill_level_def min_def split: sum.splits)
qed

lemma market_loop_frame:
  "market_loop now ctx rem fills ls d = (r, ls', d') \<Longrightarrow>
    d_markets d' = d_markets d \<and> (side_ok sd ls \<longrightarrow> side_ok sd ls') \<and>
    (\<exists>n. map id_key ls' = drop n (map id_key ls))"
proof (induction ls arbitrary: rem fills d)
  case Nil
  then show ?case by (simp add: market_loop_Nil)
next
  case (Cons l rest)
  show ?case
  proof (cases "0 < rem")
    case False
    with Cons.prems have "d' = d" "ls' = l # rest" by (simp_all add: market_loop_stop)
    then show ?thesis by (metis drop0)
  next
    case True
    let ?x = "min rem (lv_sizeBase l)"
    obtain q d1 where rf: "record_fill now ctx l ?x d = (q, d1)" by fastforce
    have m: "d_markets d1 = d_markets d" using record_fill_frame [of now ctx l ?x d] rf by simp
    have ok: "side_ok sd (l # rest) \<Longrightarrow> side_ok sd rest \<and> side_ok sd (fill_level l ?x # rest)"
      by (auto simp: side_ok_Cons)
    show ?thesis
    proof (cases q)
      case (Inl x)
      with Cons.prems rf True have "ls' = fill_level l ?x # rest \<and> d' = d1"
        by (simp add: market_loop_Cons)
      with m have *: "d_markets d' = d_markets d" "map id_key ls' = drop 0 (map id_key (l # rest))"
          "ls' = fill_level l ?x # rest" by simp_all
      show ?thesis by (intro conjI impI exI [of _ 0]) (use * ok in simp_all)
    next
      case (Inr u)
      show ?thesis
      proof (cases "lv_sizeBase l \<le> rem")
        case le: True
        with Cons.prems rf True Inr have "\<exists>f. market_loop now ctx (rem - ?x) f rest d1 = (r, ls', d')"
          by (auto simp: market_loop_Cons)
        then have IH: "d_markets d' = d_markets d1" "side_ok sd rest \<longrightarrow> side_ok sd ls'"
            "\<exists>n. map id_key ls' = drop n (map id_key rest)"
          using Cons.IH by blast+
        from IH(3) obtain n where n: "map id_key ls' = drop (Suc n) (map id_key (l # rest))" by auto
        have "d_markets d' = d_markets d" using IH m by simp
        moreover have "side_ok sd (l # rest) \<longrightarrow> side_ok sd ls'" using IH ok by blast
        ultimately show ?thesis using n by (intro conjI exI [of _ "Suc n"])
      next
        case False
        with Cons.prems rf True Inr have "ls' = fill_level l ?x # rest \<and> d' = d1"
          by (auto simp: market_loop_Cons market_loop_stop min_def)
        with m have *: "d_markets d' = d_markets d" "map id_key ls' = drop 0 (map id_key (l # rest))"
            "ls' = fill_level l ?x # rest" by simp_all
        show ?thesis by (intro conjI impI exI [of _ 0]) (use * ok in simp_all)
      qed
    qed
  qed
qed

lemma ids_drop_distinct:
  "distinct (xs @ ys) \<Longrightarrow> distinct (drop n xs @ ys) \<and> distinct (xs @ drop n ys)"
  using set_drop_subset [of n xs] set_drop_subset [of n ys] by (auto simp: distinct_drop)

lemma against_ok: "book_ok b \<Longrightarrow> side_ok (case sd of BUY \<Rightarrow> SELL | SELL \<Rightarrow> BUY) (against sd b)"
  by (cases sd) (auto simp: book_ok_def)

lemma book_ok_set_against:
  assumes "book_ok b" and "side_ok (case sd of BUY \<Rightarrow> SELL | SELL \<Rightarrow> BUY) ls"
    and "map id_key ls = drop n (map id_key (against sd b))"
  shows "book_ok (set_against sd ls b)"
proof -
  have "distinct (map id_key (bids b) @ map id_key (asks b))" using assms(1) by (simp add: book_ok_def)
  note d = ids_drop_distinct [OF this, of n]
  show ?thesis
  proof (cases sd)
    case BUY
    with assms have "map id_key (bids b @ ls) = map id_key (bids b) @ drop n (map id_key (asks b))" by simp
    with d have "distinct (map id_key (bids b @ ls))" by metis
    with BUY assms show ?thesis by (simp add: book_ok_def)
  next
    case SELL
    with assms have "map id_key (ls @ asks b) = drop n (map id_key (bids b)) @ map id_key (asks b)" by simp
    with d have "distinct (map id_key (ls @ asks b))" by metis
    with SELL assms show ?thesis by (simp add: book_ok_def)
  qed
qed

lemma engine_wf_market [step_intros]:
  assumes "engine_wf e"
  shows "engine_wf (snd (market now k sd x e))"
proof (cases "getTradingContext (eng_db e) k")
  case (Inr ctx)
  have e: "engine_ok e" "markets_ok (eng_db e)" using assms by (auto simp: engine_wf_def)
  obtain b e1 where eb: "ensure_book (ctx_symbol ctx) e = (b, e1)" by fastforce
  note ok = ensure_book_ok [OF e(1) eb]
  obtain r ls d where ml: "market_loop now ctx x [] (against sd b) (eng_db e1) = (r, ls, d)"
    using prod_cases3 by blast
  note fr = market_loop_frame [OF this, of "case sd of BUY \<Rightarrow> SELL | SELL \<Rightarrow> BUY"]
  then obtain n where "map id_key ls = drop n (map id_key (against sd b))" by blast
  then have "book_ok (set_against sd ls b)"
    using fr against_ok ok by (intro book_ok_set_against [of b sd ls n]) auto
  then have "engine_ok (set_book (ctx_symbol ctx) (set_against sd ls b) e1)"
    using ok by (intro engine_ok_set_book) auto
  moreover have "d_markets d = d_markets (eng_db e)" using fr ok by simp
  ultimately show ?thesis
    using e(2) by (simp add: market_def Inr eb ml engine_wf_def markets_ok_cong [of d])
qed (use assms in \<open>simp add: market_def\<close>)

lemma engine_wf_quote [step_intros]:
  assumes "engine_wf e"
  shows "engine_wf (snd (quote fb k sd x limit e))"
proof (cases "getTradingContext (eng_db e) k")
  case (Inr ctx)
  obtain b e1 where eb: "ensure_book (ctx_symbol ctx) e = (b, e1)" by fastforce
  have "engine_ok e1 \<and> eng_db e1 = eng_db e"
    using ensure_book_ok [OF _ eb] assms by (auto simp: engine_wf_def)
  with assms show ?thesis by (simp add: quote_def Inr eb engine_wf_def)
qed (use assms in \<open>simp add: quote_def\<close>)

lemma engine_wfI:
  "engine_wf e \<Longrightarrow> engine_ok e' \<Longrightarrow> d_markets (eng_db e') = d_markets (eng_db e) \<Longrightarrow> engine_wf e'"
  using markets_ok_cong [of "eng_db e'" "eng_db e"] by (simp add: engine_wf_def)

lemma engine_wf_ok: "engine_wf e \<Longrightarrow> engine_ok e"
  by (simp add: engine_wf_def)

text \<open>The other methods keep the markets too.\<close>

lemma hydrateLevel_db [simp, frame_simps]: "eng_db (hydrateLevel now k p e) = eng_db e"
  using ensure_book_frame [of k e]
  by (auto simp: hydrateLevel_def Let_def simp del: ensure_book_frame split: prod.splits)

lemma engine_wf_hydrate [step_intros]:
  "engine_wf e \<Longrightarrow> 0 \<le> hy_sizeBase p \<Longrightarrow> engine_wf (hydrateLevel now k p e)"
  by (simp add: engine_wf_def engine_ok_hydrateLevel)

lemma cancel_markets: "d_markets (eng_db (snd (cancel now k h e))) = d_markets (eng_db e)"
proof (cases "getTradingContext (eng_db e) k")
  case (Inr ctx)
  obtain b e1 where eb: "ensure_book (ctx_symbol ctx) e = (b, e1)" by fastforce
  then have d: "eng_db e1 = eng_db e" using ensure_book_frame [of "ctx_symbol ctx" e] by simp
  obtain q d2 where co: "cancelOrder now (ctx_id ctx) h (eng_db e) = (q, d2)" by fastforce
  then have "d_markets d2 = d_markets (eng_db e)"
    using cancelOrder_db(2) [of now "ctx_id ctx" h "eng_db e"] by simp
  then show ?thesis by (simp add: cancel_def Inr eb Let_def d co split: sum.split)
qed (simp add: cancel_def)

lemma engine_wf_cancel [step_intros]:
  "engine_wf e \<Longrightarrow> engine_wf (snd (cancel now k h e))"
  by (rule engine_wfI [OF _ engine_ok_cancel cancel_markets]) (simp_all add: engine_wf_ok)

lemma engine_wf_attachRaw [step_intros]:
  "engine_wf e \<Longrightarrow> engine_wf (snd (attachRaw k h ord sig e))"
  using engine_ok_attachRaw [of e k h ord sig]
  by (auto simp: engine_wf_def attachRaw_def split: sum.splits option.splits)

lemma decrease_fst_snd:
  "decreaseOrderRemaining now h x st d = (q, d1) \<Longrightarrow> d_markets d1 = d_markets d"
  using decreaseOrderRemaining_db(2) [of now h x st d] by simp

lemma apply_db_only_markets:
  "d_markets (eng_db (snd (apply_db_only now ctx h x e))) = d_markets (eng_db e)"
proof (cases "getOrderRemaining (eng_db e) h")
  case (Some rem)
  let ?x = "if x > rem then rem else x"
  obtain q d where dr: "decreaseOrderRemaining now h ?x
      (if rem \<le> ?x then O_FILLED else O_PARTIALLY_FILLED) (eng_db e) = (q, d)" by fastforce
  then show ?thesis
    using decrease_fst_snd [OF dr] by (simp add: apply_db_only_def Some Let_def split: sum.split option.split)
qed (simp add: apply_db_only_def)

lemma apply_to_level_markets:
  "d_markets (eng_db (snd (apply_to_level now ctx h x b l e))) = d_markets (eng_db e)"
proof -
  let ?x = "if x > lv_sizeBase l then lv_sizeBase l else x"
  obtain q d where dr: "decreaseOrderRemaining now h ?x
      (if lv_sizeBase l - ?x > 0 then O_PARTIALLY_FILLED else O_FILLED) (eng_db e) = (q, d)" by fastforce
  then show ?thesis
    using decrease_fst_snd [OF dr] unfolding apply_to_level_def Let_def set_book_frame dr
    by (simp split: sum.split)
qed

lemma applyExternalFill_markets:
  "d_markets (eng_db (snd (applyExternalFill now k h x e))) = d_markets (eng_db e)"
  by (simp add: applyExternalFill_def apply_db_only_markets apply_to_level_markets
      split: sum.split option.split)

lemma engine_wf_applyExternalFill [step_intros]:
  "engine_wf e \<Longrightarrow> 0 \<le> x \<Longrightarrow> engine_wf (snd (applyExternalFill now k h x e))"
  by (rule engine_wfI [OF _ engine_ok_applyExternalFill applyExternalFill_markets])
    (simp_all add: engine_wf_ok)

lemma expire_orders_markets:
  "expire_orders now cid ls n d = (q, d1) \<Longrightarrow> d_markets d1 = d_markets d"
proof (induction ls arbitrary: n d)
  case (Cons l ls)
  obtain q2 d2 where ex: "expireOrder now cid (lv_id l) d = (q2, d2)" by fastforce
  then have "d_markets d2 = d_markets d" using expireOrder_db(2) [of now cid "lv_id l" d] by simp
  with Cons ex show ?case by (auto split: sum.splits)
qed simp

lemma sweep_books_markets:
  "d_markets (eng_db (snd (sweep_books now t ks n e))) = d_markets (eng_db e)"
proof (induction ks arbitrary: n e)
  case (Cons k ks)
  then show ?case
    unfolding sweep_books_Cons
    by (auto simp: Let_def dest!: expire_orders_markets split: option.split sum.split prod.split)
qed simp

lemma engine_wf_sweepExpired [step_intros]:
  "engine_wf e \<Longrightarrow> engine_wf (snd (sweepExpired now t e))"
  unfolding sweepExpired_def
  by (rule engine_wfI [OF _ engine_ok_sweep_books sweep_books_markets]) (simp_all add: engine_wf_ok)

section \<open>Requests and reachable engines\<close>

text \<open>
  The calls the HTTP handlers, the watchers and the timers make, and the engine each leaves,
  whether it returned or threw.
\<close>

datatype lob_request =
    RPlace place_input
  | RCancel string string
  | RFill string string nat
  | RSweep int
  | RMarket string side int
  | RQuote string side int "int option"
  | RAttach string string jval jval
  | RHydrate string hydrate_input
  | RClear

fun serve :: "jnum \<Rightarrow> int \<Rightarrow> lob_request \<Rightarrow> engine \<Rightarrow> engine" where
  "serve fb now (RPlace p) e = snd (place now p e)"
| "serve fb now (RCancel k h) e = snd (cancel now k h e)"
| "serve fb now (RFill k h x) e = snd (applyExternalFill now k h (int x) e)"
| "serve fb now (RSweep t) e = snd (sweepExpired now t e)"
| "serve fb now (RMarket k sd x) e = snd (market now k sd x e)"
| "serve fb now (RQuote k sd x limit) e = snd (quote fb k sd x limit e)"
| "serve fb now (RAttach k h o' s) e = snd (attachRaw k h o' s e)"
| "serve fb now (RHydrate k p) e = hydrateLevel now k p e"
| "serve fb now RClear e = clear e"

text \<open>Rehydration passes a row's remaining size, which the repository filters to be positive.\<close>

fun request_ok :: "lob_request \<Rightarrow> bool" where
  "request_ok (RHydrate _ p) = (0 < hy_sizeBase p)"
| "request_ok _ = True"

inductive reachable :: "jnum \<Rightarrow> db \<Rightarrow> engine \<Rightarrow> bool" for fb d0 where
  boot: "reachable fb d0 \<lparr>eng_books = [], eng_db = d0\<rparr>"
| call: "reachable fb d0 e \<Longrightarrow> request_ok r \<Longrightarrow> reachable fb d0 (serve fb now r e)"

inductive_cases reachable_callE: "reachable fb d0 e"

lemma engine_wf_serve:
  assumes "engine_wf e" and "request_ok r"
  shows "engine_wf (serve fb now r e)"
proof (cases r)
  case RClear
  with assms show ?thesis by (simp add: clear_def engine_wf_def engine_ok_def)
qed (use assms in \<open>simp_all add: step_intros\<close>)

lemma reachable_wf:
  assumes "reachable fb d0 e" and "markets_ok d0"
  shows "engine_wf e"
  using assms(1)
proof induction
  case boot
  with assms(2) show ?case by (simp add: engine_wf_def engine_ok_def)
qed (rule engine_wf_serve)

text \<open>
  C1. From an empty book over any database whose market symbols are unambiguous, whatever
  sequence of placements, cancels, external fills, sweeps, takes, quotes, attachments,
  rehydrations and clears is served (returning or throwing), every book stays in strict
  price-time order on both sides, lists bids and asks on their own side, holds no negative
  size, and never holds one order hash twice, whatever the letter case.
\<close>

theorem book_always_ordered:
  assumes "reachable fb d0 e" and "markets_ok d0" and "book_at e k = Some b"
  shows "sorted_wrt (\<lambda>x y. lv_priceTicks x > lv_priceTicks y \<or>
           lv_priceTicks x = lv_priceTicks y \<and> lv_ts x \<le> lv_ts y) (bids b) \<and>
    sorted_wrt (\<lambda>x y. lv_priceTicks x < lv_priceTicks y \<or>
           lv_priceTicks x = lv_priceTicks y \<and> lv_ts x \<le> lv_ts y) (asks b) \<and>
    (\<forall>l \<in> set (bids b). lv_side l = BUY) \<and> (\<forall>l \<in> set (asks b). lv_side l = SELL) \<and>
    (\<forall>l \<in> set (bids b @ asks b). 0 \<le> lv_sizeBase l) \<and>
    distinct (map (\<lambda>l. to_lower (lv_id l)) (bids b @ asks b))"
proof -
  have "engine_wf e" using assms(1,2) by (rule reachable_wf)
  then have b: "book_ok b" using assms(3) engine_okD by (auto simp: engine_wf_def)
  have "sorted_wrt (\<lambda>x y. cmp_bids x y \<le> 0) (bids b)" "sorted_wrt (\<lambda>x y. cmp_asks x y \<le> 0) (asks b)"
    using b by (auto simp: book_ok_def side_ok_def)
  then have "sorted_wrt (\<lambda>x y. lv_priceTicks x > lv_priceTicks y \<or>
        lv_priceTicks x = lv_priceTicks y \<and> lv_ts x \<le> lv_ts y) (bids b)"
    "sorted_wrt (\<lambda>x y. lv_priceTicks x < lv_priceTicks y \<or>
        lv_priceTicks x = lv_priceTicks y \<and> lv_ts x \<le> lv_ts y) (asks b)"
    by (auto elim!: sorted_wrt_mono_rel [rotated] simp: cmp_bids_def cmp_asks_def split: if_splits)
  with b show ?thesis by (simp add: book_ok_def side_ok_def id_key_def [abs_def] ball_Un)
qed

definition sample_ask :: "string \<Rightarrow> int \<Rightarrow> int \<Rightarrow> place_input" where
  "sample_ask h px sz =
    \<lparr>pl_marketId = ''m1'', pl_orderHash = h, pl_maker = ''0xM'', pl_side = SELL,
     pl_priceTicks = px, pl_sizeBase = sz\<rparr>"

definition sample_engine :: engine where
  "sample_engine = snd (place 2 (sample_ask ''0x2'' 5 30) (snd (place 1 (sample_ask ''0x1'' 7 40)
     \<lparr>eng_books = [], eng_db = sample_db\<rparr>)))"

lemma sample_markets_ok: "markets_ok sample_db"
  by (simp add: markets_ok_def sample_db_def sample_market_def)

lemma sample_reachable: "reachable NaN sample_db sample_engine"
proof -
  have "reachable NaN sample_db (serve NaN 2 (RPlace (sample_ask ''0x2'' 5 30))
      (serve NaN 1 (RPlace (sample_ask ''0x1'' 7 40)) \<lparr>eng_books = [], eng_db = sample_db\<rparr>))"
    by (intro reachable.intros) simp_all
  then show ?thesis by (simp add: sample_engine_def)
qed

lemma sample_book:
  "map_option (\<lambda>b. (map lv_id (bids b), map (\<lambda>l. (lv_id l, lv_priceTicks l, lv_sizeBase l)) (asks b)))
     (book_at sample_engine ''B-Q'') = Some ([], [(''0x2'', 5, 30), (''0x1'', 7, 40)])"
  by code_simp

theorem book_always_ordered_witness:
  "\<exists>b. book_at sample_engine ''B-Q'' = Some b \<and> length (asks b) = 2 \<and>
    sorted_wrt (\<lambda>x y. lv_priceTicks x < lv_priceTicks y \<or>
      lv_priceTicks x = lv_priceTicks y \<and> lv_ts x \<le> lv_ts y) (asks b)"
proof -
  obtain b where b: "book_at sample_engine ''B-Q'' = Some b"
    and a: "map (\<lambda>l. (lv_id l, lv_priceTicks l, lv_sizeBase l)) (asks b) = [(''0x2'', 5, 30), (''0x1'', 7, 40)]"
    using sample_book by (auto simp: map_option_eq_Some)
  have "length (asks b) = 2" using arg_cong [OF a, of length] unfolding length_map by simp
  with b book_always_ordered [OF sample_reachable sample_markets_ok b] show ?thesis by blast
qed

end
