(* ===== verification/Execution.thy ===== *)
theory Execution
  imports OrderBookInv
begin

text \<open>
  What \<open>quote\<close> promises and what \<open>market\<close> and the external fills do: the greedy sweep of the
  opposite side as a reference definition, its optimality, and the agreement of the book with
  the order rows.
\<close>

section \<open>The greedy sweep\<close>

fun greedy :: "int \<Rightarrow> level list \<Rightarrow> (level \<times> int) list" where
  "greedy rem [] = []"
| "greedy rem (l # ls) =
    (if rem \<le> 0 then []
     else (l, min rem (lv_sizeBase l)) # greedy (rem - min rem (lv_sizeBase l)) ls)"

definition filled :: "(level \<times> int) list \<Rightarrow> int" where
  "filled plan = sum_list (map snd plan)"

text \<open>The cost of a plan under a price per level.\<close>

definition cost :: "(level \<Rightarrow> int) \<Rightarrow> (level \<times> int) list \<Rightarrow> int" where
  "cost c plan = sum_list (map (\<lambda>(l, x). c l * x) plan)"

lemma filled_simps [simp]: "filled [] = 0" "filled (p # ps) = snd p + filled ps"
  by (simp_all add: filled_def)

lemma cost_simps [simp]: "cost c [] = 0" "cost c ((l, x) # ps) = c l * x + cost c ps"
  by (simp_all add: cost_def)

lemma greedy_stop [simp]: "rem \<le> 0 \<Longrightarrow> greedy rem ls = []"
  by (cases ls) auto

lemma greedy_bounds:
  "(l, x) \<in> set (greedy rem ls) \<Longrightarrow> \<forall>m \<in> set ls. 0 \<le> lv_sizeBase m \<Longrightarrow>
    l \<in> set ls \<and> 0 \<le> x \<and> x \<le> lv_sizeBase l"
  by (induction rem ls rule: greedy.induct) (auto split: if_splits)

lemma filled_greedy:
  "0 \<le> rem \<Longrightarrow> \<forall>m \<in> set ls. 0 \<le> lv_sizeBase m \<Longrightarrow>
    filled (greedy rem ls) = min rem (sum_list (map lv_sizeBase ls))"
proof (induction rem ls rule: greedy.induct)
  case (2 rem l ls)
  have "0 \<le> sum_list (map lv_sizeBase ls)" using 2(3) by (intro sum_list_nonneg) auto
  with 2 show ?case by (auto simp: min_def split: if_splits)
qed simp

lemma greedy_levels: "map fst (greedy rem ls) = take (length (greedy rem ls)) ls"
  by (induction rem ls rule: greedy.induct) auto

text \<open>
  Exchange argument: against a sorted book, no allocation that fills as much is cheaper. The
  price \<open>p\<close> is any lower bound of the prices.
\<close>

lemma greedy_cheapest_aux:
  assumes "sorted_wrt (\<lambda>a b. c a \<le> c b) ls" and "\<forall>m \<in> set ls. 0 \<le> lv_sizeBase m \<and> p \<le> c m"
    and "list_all2 (\<lambda>l a. 0 \<le> a \<and> a \<le> lv_sizeBase l) ls al"
    and "filled (greedy rem (takeWhile P ls)) \<le> sum_list al"
  shows "cost c (greedy rem (takeWhile P ls)) - p * filled (greedy rem (takeWhile P ls))
    \<le> cost c (zip ls al) - p * sum_list al"
  using assms
proof (induction ls arbitrary: al rem p)
  case Nil
  then show ?case by simp
next
  case (Cons l ls)
  from Cons.prems(3) obtain a as where al: "al = a # as" by (auto simp: list_all2_Cons1)
  have a: "0 \<le> a" "a \<le> lv_sizeBase l" and as: "list_all2 (\<lambda>l a. 0 \<le> a \<and> a \<le> lv_sizeBase l) ls as"
    using Cons.prems(3) by (auto simp: al)
  have as0: "0 \<le> sum_list as"
    using as by (intro sum_list_nonneg) (auto simp: list_all2_conv_all_nth in_set_conv_nth)
  have s: "sorted_wrt (\<lambda>a b. c a \<le> c b) ls" "\<forall>m \<in> set ls. 0 \<le> lv_sizeBase m \<and> c l \<le> c m"
    and p: "p \<le> c l" using Cons.prems(1,2) by auto
  let ?go = "P l \<and> 0 < rem"
  let ?x = "if ?go then min rem (lv_sizeBase l) else 0"
  let ?R = "if ?go then greedy (rem - min rem (lv_sizeBase l)) (takeWhile P ls) else []"
  have R: "filled (greedy rem (takeWhile P (l # ls))) = ?x + filled ?R"
    "cost c (greedy rem (takeWhile P (l # ls))) = c l * ?x + cost c ?R"
    by auto
  have x: "0 \<le> ?x" using Cons.prems(2) by auto
  have rest: "cost c ?R - c l * filled ?R \<le> cost c (zip ls as) - c l * sum_list as"
  proof (cases "?go \<and> lv_sizeBase l \<le> rem")
    case True
    with a Cons.prems(4) have "filled (greedy (rem - min rem (lv_sizeBase l)) (takeWhile P ls)) \<le> sum_list as"
      unfolding R by (simp add: al)
    from Cons.IH [OF s as this] True show ?thesis by simp
  next
    case False
    then have "?R = []" by (auto simp: min_def)
    moreover have "cost c (greedy 0 (takeWhile P ls)) - c l * filled (greedy 0 (takeWhile P ls))
        \<le> cost c (zip ls as) - c l * sum_list as"
      by (rule Cons.IH [OF s as]) (simp add: as0)
    ultimately show ?thesis by simp
  qed
  have "p * (sum_list as + a - ?x - filled ?R) \<le> c l * (sum_list as + a - ?x - filled ?R)"
    using p Cons.prems(4) unfolding R by (intro mult_right_mono) (auto simp: al)
  with rest show ?case unfolding R al by (simp add: algebra_simps)
qed

lemma greedy_cheapest:
  assumes "sorted_wrt (\<lambda>a b. c a \<le> c b) ls" and "\<forall>m \<in> set ls. 0 \<le> lv_sizeBase m"
    and "list_all2 (\<lambda>l a. 0 \<le> a \<and> a \<le> lv_sizeBase l) ls al"
    and "sum_list al = filled (greedy rem (takeWhile P ls))"
  shows "cost c (greedy rem (takeWhile P ls)) \<le> cost c (zip ls al)"
proof (cases ls)
  case (Cons l rest)
  have "cost c (greedy rem (takeWhile P ls)) - c l * filled (greedy rem (takeWhile P ls))
      \<le> cost c (zip ls al) - c l * sum_list al"
    using assms Cons by (intro greedy_cheapest_aux) auto
  with assms(4) show ?thesis by simp
qed simp

section \<open>Quote and market follow the greedy sweep\<close>

definition quoted :: "level \<times> int \<Rightarrow> quote_fill" where
  "quoted = (\<lambda>(l, x). \<lparr>qf_hash = lv_id l, qf_maker = lv_maker l,
     qf_priceTicks = big_to_string (lv_priceTicks l), qf_sizeBase = big_to_string x,
     qf_rawOrder = lv_rawOrder l, qf_rawSig = lv_rawSig l\<rparr>)"

definition taken :: "level \<times> int \<Rightarrow> market_fill" where
  "taken = (\<lambda>(l, x). \<lparr>mf_hash = lv_id l, mf_priceTicks = big_to_string (lv_priceTicks l),
     mf_sizeBase = big_to_string x\<rparr>)"

definition notional_sum :: "trading_ctx \<Rightarrow> (level \<times> int) list \<Rightarrow> int" where
  "notional_sum ctx plan = sum_list (map (\<lambda>(l, x). notional_of ctx l x) plan)"

lemma notional_sum_simps [simp]:
  "notional_sum ctx [] = 0"
  "notional_sum ctx ((l, x) # ps) = notional_of ctx l x + notional_sum ctx ps"
  by (simp_all add: notional_sum_def)

abbreviation in_limit :: "side \<Rightarrow> int option \<Rightarrow> level list \<Rightarrow> level list" where
  "in_limit sd limit ls \<equiv> takeWhile (\<lambda>l. \<not> beyond_limit sd limit (lv_priceTicks l)) ls"

lemma quote_loop_plan:
  "quote_loop fb ctx sd limit ls acc = Inr r \<Longrightarrow>
    sp_fills r = sp_fills acc @ map quoted (greedy (sp_remaining acc) (in_limit sd limit ls)) \<and>
    sp_remaining r = sp_remaining acc - filled (greedy (sp_remaining acc) (in_limit sd limit ls)) \<and>
    sp_totalQ r = sp_totalQ acc + notional_sum ctx (greedy (sp_remaining acc) (in_limit sd limit ls))"
proof (induction ls arbitrary: acc)
  case (Cons l ls)
  have m: "(if sp_remaining acc < lv_sizeBase l then sp_remaining acc else lv_sizeBase l) =
      min (sp_remaining acc) (lv_sizeBase l)" by auto
  show ?case
  proof (cases "sp_remaining acc \<le> 0 \<or> beyond_limit sd limit (lv_priceTicks l)")
    case True
    with Cons.prems show ?thesis by auto
  next
    case False
    with Cons.prems obtain f where
      "quote_loop fb ctx sd limit ls
        \<lparr>sp_remaining = sp_remaining acc - min (sp_remaining acc) (lv_sizeBase l),
         sp_totalQ = sp_totalQ acc + notional_of ctx l (min (sp_remaining acc) (lv_sizeBase l)),
         sp_feeTotal = sp_feeTotal acc + f,
         sp_fills = sp_fills acc @ [quoted (l, min (sp_remaining acc) (lv_sizeBase l))]\<rparr> = Inr r"
      by (auto simp: m Let_def quoted_def)
    from Cons.IH [OF this] False show ?thesis by auto
  qed
qed simp

lemma market_loop_plan:
  "market_loop now ctx rem fills ls d = (Inr (rem', fills'), ls', d') \<Longrightarrow>
    fills' = fills @ map taken (greedy rem ls) \<and> rem' = rem - filled (greedy rem ls)"
proof (induction ls arbitrary: rem fills d)
  case Nil
  then show ?case by (simp add: market_loop_Nil)
next
  case (Cons l rest)
  show ?case
  proof (cases "0 < rem")
    case True
    let ?x = "min rem (lv_sizeBase l)"
    obtain q d1 where rf: "record_fill now ctx l ?x d = (q, d1)" by fastforce
    with True Cons.prems obtain u where q: "q = Inr u" by (cases q) (auto simp: market_loop_Cons)
    show ?thesis
    proof (cases "lv_sizeBase l \<le> rem")
      case le: True
      with Cons.prems rf True q have "market_loop now ctx (rem - ?x) (fills @ [taken (l, ?x)]) rest d1 =
          (Inr (rem', fills'), ls', d')"
        by (simp add: market_loop_Cons taken_def)
      from Cons.IH [OF this] True show ?thesis by simp
    next
      case False
      with Cons.prems rf True q show ?thesis
        by (simp add: market_loop_Cons market_loop_stop taken_def min_def)
    qed
  qed (use Cons.prems in \<open>simp add: market_loop_stop\<close>)
qed

lemma quote_result:
  assumes "fst (quote fb k sd x limit e) = Inr q"
  obtains ctx plan where
    "getTradingContext (eng_db e) k = Inr ctx"
    "plan = greedy x (in_limit sd limit (against sd (fst (ensure_book (ctx_symbol ctx) e))))"
    "q_fills q = map quoted plan" "q_remainingBase q = big_to_string (x - filled plan)"
    "q_takerAmount q = big_to_string (notional_sum ctx plan)"
    "q_requestedBase q = big_to_string x"
proof -
  obtain ctx where ctx: "getTradingContext (eng_db e) k = Inr ctx"
    using assms by (cases "getTradingContext (eng_db e) k") (auto simp: quote_def)
  obtain b e1 where eb: "ensure_book (ctx_symbol ctx) e = (b, e1)" by fastforce
  obtain r where r: "quote_loop fb ctx sd limit (against sd b)
      \<lparr>sp_remaining = x, sp_totalQ = 0, sp_feeTotal = 0, sp_fills = []\<rparr> = Inr r"
    and q: "q_fills q = sp_fills r" "q_remainingBase q = big_to_string (sp_remaining r)"
    "q_takerAmount q = big_to_string (sp_totalQ r)" "q_requestedBase q = big_to_string x"
    using assms by (auto simp: quote_def ctx eb)
  from quote_loop_plan [OF r] q show ?thesis by (intro that [OF ctx refl]) (simp_all add: eb)
qed

lemma market_result:
  assumes "fst (market now k sd x e) = Inr m"
  obtains ctx plan where
    "getTradingContext (eng_db e) k = Inr ctx"
    "plan = greedy x (against sd (fst (ensure_book (ctx_symbol ctx) e)))"
    "m_fills m = map taken plan" "m_remainingBase m = big_to_string (x - filled plan)"
proof -
  obtain ctx where ctx: "getTradingContext (eng_db e) k = Inr ctx"
    using assms by (cases "getTradingContext (eng_db e) k") (auto simp: market_def)
  obtain b e1 where eb: "ensure_book (ctx_symbol ctx) e = (b, e1)" by fastforce
  obtain q ls d where ml: "market_loop now ctx x [] (against sd b) (eng_db e1) = (q, ls, d)"
    using prod_cases3 by blast
  then obtain rem fills where q: "q = Inr (rem, fills)"
    and m: "m_fills m = fills" "m_remainingBase m = big_to_string rem"
    using assms by (auto simp: market_def ctx eb split: sum.splits)
  from market_loop_plan [OF ml [unfolded q]] m show ?thesis
    by (intro that [OF ctx refl]) (simp_all add: eb)
qed

section \<open>Reading a quote\<close>

definition amount :: "string \<Rightarrow> int" where
  "amount s = (case str_to_bigint s of Inr n \<Rightarrow> n | Inl _ \<Rightarrow> 0)"

lemma amount_big [simp]: "amount (big_to_string n) = n"
  by (simp add: amount_def)

definition fill_size :: "quote_fill \<Rightarrow> int" where
  "fill_size f = amount (qf_sizeBase f)"

definition fill_ticks :: "quote_fill \<Rightarrow> int" where
  "fill_ticks f = amount (qf_priceTicks f)"

lemma quoted_simps [simp]:
  "fill_size (quoted (l, x)) = x" "fill_ticks (quoted (l, x)) = lv_priceTicks l"
  "qf_hash (quoted (l, x)) = lv_id l"
  by (simp_all add: fill_size_def fill_ticks_def quoted_def)

lemma sum_quoted: "sum_list (map fill_size (map quoted plan)) = filled plan"
  by (induction plan) auto

lemma cost_quoted:
  "sum_list (map (\<lambda>f. fill_ticks f * fill_size f) (map quoted plan)) = cost lv_priceTicks plan"
  by (induction plan) auto

text \<open>On a side in price order, what lies within the limit is a prefix.\<close>

definition side_cost :: "side \<Rightarrow> level \<Rightarrow> int" where
  "side_cost sd l = (case sd of BUY \<Rightarrow> lv_priceTicks l | SELL \<Rightarrow> - lv_priceTicks l)"

lemma against_sorted:
  assumes "book_ok b"
  shows "sorted_wrt (\<lambda>x y. side_cost sd x \<le> side_cost sd y) (against sd b)"
    and "\<forall>l \<in> set (against sd b). 0 \<le> lv_sizeBase l"
proof -
  have "sorted_wrt (\<lambda>x y. cmp_bids x y \<le> 0) (bids b)" "sorted_wrt (\<lambda>x y. cmp_asks x y \<le> 0) (asks b)"
    using assms by (auto simp: book_ok_def side_ok_def)
  then show "sorted_wrt (\<lambda>x y. side_cost sd x \<le> side_cost sd y) (against sd b)"
    by (cases sd) (auto elim!: sorted_wrt_mono_rel [rotated]
        simp: cmp_bids_def cmp_asks_def side_cost_def split: if_splits)
  show "\<forall>l \<in> set (against sd b). 0 \<le> lv_sizeBase l"
    using assms by (cases sd) (auto simp: book_ok_def side_ok_def)
qed

lemma takeWhile_sorted:
  assumes "sorted_wrt (\<lambda>x y. c x \<le> c y) ls" and down: "\<And>x y. c x \<le> c y \<Longrightarrow> P y \<Longrightarrow> P x"
  shows "takeWhile P ls = filter P ls"
  using assms(1)
proof (induction ls)
  case (Cons x ls)
  have "filter P ls = []" if "\<not> P x"
    using that Cons.prems down [of x] unfolding filter_empty_conv by fastforce
  with Cons show ?case by simp
qed simp

lemma in_limit_filter:
  "book_ok b \<Longrightarrow> in_limit sd limit (against sd b) =
    filter (\<lambda>l. \<not> beyond_limit sd limit (lv_priceTicks l)) (against sd b)"
  using against_sorted(1) [of b sd]
  by (rule takeWhile_sorted)
    (auto simp: beyond_limit_def side_cost_def split: option.splits side.splits)

lemma ensured_ok: "engine_wf e \<Longrightarrow> book_ok (fst (ensure_book k e))"
  using ensure_book_ok [of e k] by (metis engine_wf_ok prod.collapse)

text \<open>
  A quote accounts for the whole request and is complete: the fill sizes and the remainder
  add up to the requested size, no fill is priced beyond the caller's limit, and when something
  remains it is because every resting order of the opposite side within the limit has been
  used in full.
\<close>

theorem quote_accounts_for_request:
  assumes "reachable fb d0 e" and "markets_ok d0" and "0 \<le> x"
    and "quote fb k sd x limit e = (Inr q, e')"
    and "getTradingContext (eng_db e) k = Inr ctx" and "book_at e (ctx_symbol ctx) = Some b"
  shows "amount (q_requestedBase q) = x \<and>
    sum_list (map fill_size (q_fills q)) + amount (q_remainingBase q) = x \<and>
    0 \<le> amount (q_remainingBase q) \<and>
    (\<forall>f \<in> set (q_fills q). 0 \<le> fill_size f \<and> \<not> beyond_limit sd limit (fill_ticks f)) \<and>
    (0 < amount (q_remainingBase q) \<longrightarrow>
      sum_list (map fill_size (q_fills q)) = sum_list (map lv_sizeBase
        (filter (\<lambda>l. \<not> beyond_limit sd limit (lv_priceTicks l)) (against sd b))))"
proof -
  have wf: "engine_wf e" using assms(1,2) by (rule reachable_wf)
  have b: "book_ok b" using engine_okD [OF engine_wf_ok [OF wf] assms(6)] .
  let ?L = "in_limit sd limit (against sd b)"
  let ?plan = "greedy x ?L"
  have "fst (quote fb k sd x limit e) = Inr q" using assms(4) by simp
  then obtain ctx' plan where "getTradingContext (eng_db e) k = Inr ctx'"
    "plan = greedy x (in_limit sd limit (against sd (fst (ensure_book (ctx_symbol ctx') e))))"
    "q_fills q = map quoted plan" "q_remainingBase q = big_to_string (x - filled plan)"
    "q_requestedBase q = big_to_string x" by (rule quote_result)
  with assms(5,6) have q: "q_fills q = map quoted ?plan" "amount (q_remainingBase q) = x - filled ?plan"
    "amount (q_requestedBase q) = x" by simp_all
  have nn: "\<forall>l \<in> set ?L. 0 \<le> lv_sizeBase l"
    using against_sorted(2) [OF b, of sd] set_takeWhileD by fast
  have fl: "filled ?plan = min x (sum_list (map lv_sizeBase ?L))"
    using filled_greedy [OF assms(3) nn] .
  have "0 \<le> fill_size f \<and> \<not> beyond_limit sd limit (fill_ticks f)" if "f \<in> set (q_fills q)" for f
  proof -
    obtain l y where f: "f = quoted (l, y)" and m: "(l, y) \<in> set ?plan" using \<open>f \<in> _\<close> q(1) by auto
    from greedy_bounds [OF m nn] have "l \<in> set ?L" "0 \<le> y" by auto
    then show ?thesis by (auto simp: f dest: set_takeWhileD)
  qed
  moreover have "sum_list (map fill_size (q_fills q)) = filled ?plan"
    unfolding q(1) by (rule sum_quoted)
  ultimately show ?thesis
    using fl q(2,3) by (simp add: in_limit_filter [OF b])
qed

theorem quote_accounts_for_request_witness:
  "\<exists>q e'. quote NaN ''B-Q'' BUY 50 (Some 6) sample_engine = (Inr q, e') \<and>
    sum_list (map fill_size (q_fills q)) = 30 \<and> amount (q_remainingBase q) = 20"
proof -
  have s: "map_option (\<lambda>b. map (\<lambda>l. (lv_priceTicks l, lv_sizeBase l)) (asks b))
      (book_at sample_engine ''B-Q'') = Some [(5, 30), (7, 40)]"
    "map_option ctx_symbol (case getTradingContext (eng_db sample_engine) ''B-Q'' of
       Inr c \<Rightarrow> Some c | Inl _ \<Rightarrow> None) = Some ''B-Q''"
    "(case fst (quote NaN ''B-Q'' BUY 50 (Some 6) sample_engine) of
       Inr q \<Rightarrow> Some (amount (q_remainingBase q)) | Inl _ \<Rightarrow> None) = Some 20"
    by code_simp+
  obtain q e' where q: "quote NaN ''B-Q'' BUY 50 (Some 6) sample_engine = (Inr q, e')"
    and r: "amount (q_remainingBase q) = 20"
    using s(3) by (cases "quote NaN ''B-Q'' BUY 50 (Some 6) sample_engine") (auto split: sum.splits)
  obtain ctx where c: "getTradingContext (eng_db sample_engine) ''B-Q'' = Inr ctx"
    and cs: "ctx_symbol ctx = ''B-Q''"
    using s(2) by (auto split: sum.splits)
  obtain b where b: "book_at sample_engine (ctx_symbol ctx) = Some b"
    using s(1) cs by (auto simp: map_option_eq_Some)
  from quote_accounts_for_request [OF sample_reachable sample_markets_ok _ q c b] r q
  show ?thesis by auto
qed

text \<open>
  C21. Best execution: no allocation of the same total over the resting orders of the opposite
  side beats the quoted one. A taker buy cannot be cheaper, a taker sell cannot earn more
  (price in ticks times size), limit or not.
\<close>

theorem quote_is_best_execution:
  assumes "reachable fb d0 e" and "markets_ok d0" and "quote fb k sd x limit e = (Inr q, e')"
    and "getTradingContext (eng_db e) k = Inr ctx" and "book_at e (ctx_symbol ctx) = Some b"
    and "list_all2 (\<lambda>l a. 0 \<le> a \<and> a \<le> lv_sizeBase l) (against sd b) al"
    and "sum_list al = sum_list (map fill_size (q_fills q))"
  shows "case sd of
      BUY \<Rightarrow> sum_list (map (\<lambda>f. fill_ticks f * fill_size f) (q_fills q))
              \<le> sum_list (map (\<lambda>(l, a). lv_priceTicks l * a) (zip (asks b) al))
    | SELL \<Rightarrow> sum_list (map (\<lambda>f. fill_ticks f * fill_size f) (q_fills q))
              \<ge> sum_list (map (\<lambda>(l, a). lv_priceTicks l * a) (zip (bids b) al))"
proof -
  have wf: "engine_wf e" using assms(1,2) by (rule reachable_wf)
  have b: "book_ok b" using engine_okD [OF engine_wf_ok [OF wf] assms(5)] .
  let ?plan = "greedy x (in_limit sd limit (against sd b))"
  have "fst (quote fb k sd x limit e) = Inr q" using assms(3) by simp
  then obtain ctx' plan where "getTradingContext (eng_db e) k = Inr ctx'"
    "plan = greedy x (in_limit sd limit (against sd (fst (ensure_book (ctx_symbol ctx') e))))"
    "q_fills q = map quoted plan" by (rule quote_result)
  with assms(4,5) have q: "q_fills q = map quoted ?plan" by simp
  have "cost (side_cost sd) ?plan \<le> cost (side_cost sd) (zip (against sd b) al)"
    using against_sorted [OF b] assms(6,7) sum_quoted [of ?plan] unfolding q
    by (intro greedy_cheapest) auto
  moreover have "cost (side_cost SELL) zs = - cost lv_priceTicks zs" for zs
    by (induction zs) (auto simp: side_cost_def)
  moreover have "cost (side_cost BUY) zs = cost lv_priceTicks zs" for zs
    by (induction zs) (auto simp: side_cost_def)
  ultimately show ?thesis
    unfolding q cost_quoted by (cases sd) (simp_all add: cost_def)
qed

theorem quote_is_best_execution_witness:
  "\<exists>q e' b. quote NaN ''B-Q'' BUY 50 None sample_engine = (Inr q, e') \<and>
    book_at sample_engine ''B-Q'' = Some b \<and>
    sum_list (map (\<lambda>f. fill_ticks f * fill_size f) (q_fills q))
      \<le> sum_list (map (\<lambda>(l, a). lv_priceTicks l * a) (zip (asks b) [10, 40]))"
proof -
  have s: "map_option (\<lambda>b. map lv_sizeBase (asks b)) (book_at sample_engine ''B-Q'') = Some [30, 40]"
    "map_option ctx_symbol (case getTradingContext (eng_db sample_engine) ''B-Q'' of
       Inr c \<Rightarrow> Some c | Inl _ \<Rightarrow> None) = Some ''B-Q''"
    "(case fst (quote NaN ''B-Q'' BUY 50 None sample_engine) of
       Inr q \<Rightarrow> Some (sum_list (map fill_size (q_fills q))) | Inl _ \<Rightarrow> None) = Some 50"
    by code_simp+
  obtain q e' where q: "quote NaN ''B-Q'' BUY 50 None sample_engine = (Inr q, e')"
    and r: "sum_list (map fill_size (q_fills q)) = 50"
    using s(3) by (cases "quote NaN ''B-Q'' BUY 50 None sample_engine") (auto split: sum.splits)
  obtain ctx where c: "getTradingContext (eng_db sample_engine) ''B-Q'' = Inr ctx"
    and cs: "ctx_symbol ctx = ''B-Q''"
    using s(2) by (auto split: sum.splits)
  obtain b where b: "book_at sample_engine (ctx_symbol ctx) = Some b"
    and sz: "map lv_sizeBase (asks b) = [30, 40]"
    using s(1) cs by (auto simp: map_option_eq_Some)
  then obtain l m where "asks b = [l, m]" "lv_sizeBase l = 30" "lv_sizeBase m = 40" by auto
  then have "list_all2 (\<lambda>l a. 0 \<le> a \<and> a \<le> lv_sizeBase l) (against BUY b) [10, 40]" by simp
  from quote_is_best_execution [OF sample_reachable sample_markets_ok q c b this] r q b cs
  show ?thesis by auto
qed

text \<open>
  A quote previews the take: on the same state, an unlimited quote and a market order of
  the same size that both return name the same maker orders in the same order, at the same
  prices and sizes, and report the same remainder.
\<close>

theorem quote_previews_market:
  assumes "fst (quote fb k sd x None e) = Inr q" and "fst (market now k sd x e) = Inr m"
  shows "q_remainingBase q = m_remainingBase m \<and>
    map (\<lambda>f. (qf_hash f, qf_priceTicks f, qf_sizeBase f)) (q_fills q) =
    map (\<lambda>f. (mf_hash f, mf_priceTicks f, mf_sizeBase f)) (m_fills m)"
proof -
  obtain ctx plan where c: "getTradingContext (eng_db e) k = Inr ctx"
    "plan = greedy x (in_limit sd None (against sd (fst (ensure_book (ctx_symbol ctx) e))))"
    and q: "q_fills q = map quoted plan" "q_remainingBase q = big_to_string (x - filled plan)"
    using assms(1) by (rule quote_result)
  obtain ctx' plan' where c': "getTradingContext (eng_db e) k = Inr ctx'"
    "plan' = greedy x (against sd (fst (ensure_book (ctx_symbol ctx') e)))"
    and m: "m_fills m = map taken plan'" "m_remainingBase m = big_to_string (x - filled plan')"
    using assms(2) by (rule market_result)
  have "in_limit sd None ls = ls" for ls by (simp add: beyond_limit_def)
  with c c' have "plan' = plan" by simp
  then show ?thesis by (simp add: q m quoted_def taken_def case_prod_unfold)
qed

theorem quote_previews_market_witness:
  "\<exists>q m. fst (quote NaN ''m1'' BUY 50 None sample_engine) = Inr q \<and>
    fst (market 3 ''m1'' BUY 50 sample_engine) = Inr m \<and>
    q_remainingBase q = m_remainingBase m \<and> length (m_fills m) = 2"
proof -
  have s: "(case fst (quote NaN ''m1'' BUY 50 None sample_engine) of
       Inr q \<Rightarrow> Some (length (q_fills q)) | Inl _ \<Rightarrow> None) = Some 2"
    "(case fst (market 3 ''m1'' BUY 50 sample_engine) of
       Inr m \<Rightarrow> Some (length (m_fills m)) | Inl _ \<Rightarrow> None) = Some 2"
    by code_simp+
  obtain q where q: "fst (quote NaN ''m1'' BUY 50 None sample_engine) = Inr q"
    using s(1) by (auto split: sum.splits)
  obtain m where m: "fst (market 3 ''m1'' BUY 50 sample_engine) = Inr m" and l: "length (m_fills m) = 2"
    using s(2) by (auto split: sum.splits)
  from quote_previews_market [OF q m] q m l show ?thesis by auto
qed

end
