(* ===== verification/Coherence.thy ===== *)
theory Coherence
  imports Execution
begin

text \<open>
  Agreement of the in-memory book with the \<open>Order\<close> rows: every resting level has its row, with
  the same side, price and remaining size, in an open status and under the book's market. The
  takes and the external fills keep it, and move both by the same amount.
\<close>

section \<open>Agreement\<close>

definition level_matches :: "db \<Rightarrow> string \<Rightarrow> level \<Rightarrow> bool" where
  "level_matches d k l \<longleftrightarrow> 0 < lv_sizeBase l \<and>
    (\<exists>r. order_of d (lv_id l) = Some r \<and> o_remaining r = lv_sizeBase l \<and> o_side r = lv_side l \<and>
      o_priceTicks r = lv_priceTicks l \<and> is_open (o_status r) \<and> symbol_of d (o_marketId r) = k)"

definition coherent :: "engine \<Rightarrow> bool" where
  "coherent e \<longleftrightarrow> (\<forall>k b. book_at e k = Some b \<longrightarrow>
    (\<forall>l \<in> set (bids b @ asks b). level_matches (eng_db e) k l))"

text \<open>Every row satisfies the column constraints under which it was written.\<close>

definition rows_fit :: "db \<Rightarrow> bool" where
  "rows_fit d \<longleftrightarrow> (\<forall>h r. order_of d h = Some r \<longrightarrow>
    market_by_id d (o_marketId r) \<noteq> None \<and> fits_int64 (o_priceTicks r) \<and>
    fits_dec78 (o_sizeBase r) \<and> 0 \<le> o_remaining r \<and> o_remaining r \<le> o_sizeBase r)"

lemma rows_fitD:
  "rows_fit d \<Longrightarrow> order_of d h = Some r \<Longrightarrow>
    market_by_id d (o_marketId r) \<noteq> None \<and> fits_int64 (o_priceTicks r) \<and>
    fits_dec78 (o_sizeBase r) \<and> 0 \<le> o_remaining r \<and> o_remaining r \<le> o_sizeBase r"
  by (simp add: rows_fit_def)

lemma fits_dec78_le: "fits_dec78 n \<Longrightarrow> 0 \<le> x \<Longrightarrow> x \<le> n \<Longrightarrow> fits_dec78 x"
  by (simp add: fits_dec78_def)

lemma market_by_id_append_event [simp]:
  "market_by_id (snd (append_event i h t p d)) = market_by_id d"
  by (rule market_by_id_cong) simp

lemma map_option_same [simp]: "map_option (\<lambda>r. r) v = v"
  by (cases v) simp_all

text \<open>What one fill of the \<open>market\<close> loop writes.\<close>

definition trade_of :: "int \<Rightarrow> trading_ctx \<Rightarrow> level \<times> int \<Rightarrow> trade_row" where
  "trade_of now ctx = (\<lambda>(l, x). \<lparr>t_marketId = ctx_id ctx, t_makerHash = lv_id l,
     t_taker = to_lower zero_address, t_priceTicks = lv_priceTicks l, t_sizeBase = x,
     t_txHash = None, t_ts = now\<rparr>)"

definition filled_row :: "int \<Rightarrow> order_row \<Rightarrow> order_row" where
  "filled_row x r = r\<lparr>o_remaining := o_remaining r - x,
     o_status := (if o_remaining r - x > 0 then O_PARTIALLY_FILLED else O_FILLED)\<rparr>"

lemma addTrade_ok:
  assumes "market_by_id d i \<noteq> None" and "length t \<le> 42" and "fits_int64 p" and "fits_dec78 x"
  shows "fst (addTrade now i h t p x tx d) = Inr () \<and>
    d_trades (snd (addTrade now i h t p x tx d)) = d_trades d @
      [\<lparr>t_marketId = i, t_makerHash = h, t_taker = to_lower t, t_priceTicks = p, t_sizeBase = x,
        t_txHash = norm_tx_hash tx, t_ts = now\<rparr>]"
  using assms by (simp add: addTrade_def trade_row_fits_def Let_def)

lemma symbol_of_market: "symbol_of d i \<noteq> '''' \<Longrightarrow> market_by_id d i \<noteq> None"
  by (auto simp: symbol_of_def split: option.splits)

lemma record_fill_ok:
  assumes lm: "level_matches d k l" and rf: "rows_fit d" and m: "market_by_id d (ctx_id ctx) \<noteq> None"
    and x: "0 < x" "x \<le> lv_sizeBase l"
  shows "\<exists>d1. record_fill now ctx l x d = (Inr (), d1) \<and> d_markets d1 = d_markets d \<and>
    (\<forall>h. order_of d1 h = map_option (\<lambda>r. if h = lv_id l then filled_row x r else r) (order_of d h)) \<and>
    d_trades d1 = d_trades d @ [trade_of now ctx (l, x)]"
proof -
  obtain r where r: "order_of d (lv_id l) = Some r" "o_remaining r = lv_sizeBase l"
    "o_priceTicks r = lv_priceTicks l"
    using lm by (auto simp: level_matches_def)
  with rows_fitD [OF rf r(1)] x fits_dec78_le [of "o_sizeBase r" x]
  have fit: "fits_int64 (lv_priceTicks l)" "fits_dec78 x" by auto
  have za: "length zero_address \<le> 42" by (simp add: zero_address_def)
  obtain q1 d1 where at: "addTrade now (ctx_id ctx) (lv_id l) zero_address (lv_priceTicks l) x None d = (q1, d1)"
    by fastforce
  have d1: "q1 = Inr ()" "d_trades d1 = d_trades d @ [trade_of now ctx (l, x)]" "d_markets d1 = d_markets d"
    "order_of d1 = order_of d"
    using addTrade_ok [OF m za fit, of now "lv_id l" None] at
      addTrade_db(2) [of now "ctx_id ctx" "lv_id l" zero_address "lv_priceTicks l" x None d]
      order_of_addTrade [of now "ctx_id ctx" "lv_id l" zero_address "lv_priceTicks l" x None d]
    by (simp_all add: trade_of_def norm_tx_hash_def)
  define st where "st = (if lv_sizeBase l - x > 0 then O_PARTIALLY_FILLED else O_FILLED)"
  obtain q2 d2 where dc: "decreaseOrderRemaining now (lv_id l) x st d1 = (q2, d2)" by fastforce
  have q2: "q2 = Inr ()"
    using decreaseOrderRemaining_ok [of now "lv_id l" x st d1] dc r(1) d1(4) by simp
  have d2e: "d2 = snd (decreaseOrderRemaining now (lv_id l) x st d1)" by (simp add: dc)
  have d2: "d_trades d2 = d_trades d1" "d_markets d2 = d_markets d1" unfolding d2e by simp_all
  have o2: "order_of d2 h = map_option (\<lambda>r. if h = lv_id l then filled_row x r else r) (order_of d h)" for h
    unfolding d2e using r d1(4) by (cases "h = lv_id l") (simp_all add: filled_row_def st_def)
  have m2: "market_by_id d2 (ctx_id ctx) \<noteq> None"
    using m market_by_id_cong [of d2 d] d1 d2 by simp
  let ?p = "JObj [(''sizeBase'', JStr (big_to_string x)),
      (''priceTicks'', JStr (big_to_string (lv_priceTicks l)))]"
  let ?ev = "append_event (ctx_id ctx) (lv_id l)
      (if st = O_FILLED then E_FILLED else E_PARTIAL_FILL) ?p d2"
  have ev: "fst ?ev = Inr ()" "d_markets (snd ?ev) = d_markets d2" "d_trades (snd ?ev) = d_trades d2"
    "order_of (snd ?ev) = order_of d2"
    using append_event_ok [OF m2] by (auto intro: order_of_cong)
  have "record_fill now ctx l x d = ?ev"
    unfolding record_fill_def at d1(1) Let_def st_def [symmetric] by (simp add: dc q2)
  then show ?thesis
    using ev o2 d1 d2 by (intro exI [of _ "snd ?ev"]) (auto simp: prod_eq_iff)
qed

text \<open>Matching survives a write to another row, and a fill of its own row.\<close>

lemma level_matches_cong:
  "d_markets d' = d_markets d \<Longrightarrow> order_of d' (lv_id l) = order_of d (lv_id l) \<Longrightarrow>
    level_matches d' k l = level_matches d k l"
  using symbol_of_cong [of d' d] by (simp add: level_matches_def)

lemma level_matches_filled:
  assumes "level_matches d k l" and "0 < x" and "x < lv_sizeBase l"
    and "d_markets d' = d_markets d" and "order_of d' (lv_id l) = map_option (filled_row x) (order_of d (lv_id l))"
  shows "level_matches d' k (fill_level l x)"
proof -
  obtain r where "order_of d (lv_id l) = Some r" "o_remaining r = lv_sizeBase l" "o_side r = lv_side l"
    "o_priceTicks r = lv_priceTicks l" "symbol_of d (o_marketId r) = k"
    using assms(1) by (auto simp: level_matches_def)
  then show ?thesis
    using assms(2-5) symbol_of_cong [of d' d]
    by (simp add: level_matches_def filled_row_def is_open_def)
qed

lemma rows_fit_filled:
  assumes "rows_fit d" and "level_matches d k l" and "0 < x" "x \<le> lv_sizeBase l" and "d_markets d' = d_markets d"
    and o': "\<And>h. order_of d' h = map_option (\<lambda>r. if h = lv_id l then filled_row x r else r) (order_of d h)"
  shows "rows_fit d'"
proof -
  have m: "market_by_id d' = market_by_id d" using assms(5) by (rule market_by_id_cong)
  obtain r where r: "order_of d (lv_id l) = Some r" "o_remaining r = lv_sizeBase l"
    using assms(2) by (auto simp: level_matches_def)
  show ?thesis
    unfolding rows_fit_def m
  proof (intro allI impI)
    fix h r' assume r': "order_of d' h = Some r'"
    then obtain s where s: "order_of d h = Some s" "r' = (if h = lv_id l then filled_row x s else s)"
      by (auto simp: o')
    have "market_by_id d (o_marketId s) \<noteq> None \<and> fits_int64 (o_priceTicks s) \<and>
      fits_dec78 (o_sizeBase s) \<and> 0 \<le> o_remaining s \<and> o_remaining s \<le> o_sizeBase s"
      using assms(1) s(1) by (simp add: rows_fit_def)
    with s r assms(3,4)
    show "market_by_id d (o_marketId r') \<noteq> None \<and> fits_int64 (o_priceTicks r') \<and>
      fits_dec78 (o_sizeBase r') \<and> 0 \<le> o_remaining r' \<and> o_remaining r' \<le> o_sizeBase r'"
      by (cases "h = lv_id l") (auto simp: filled_row_def)
  qed
qed

section \<open>Taking\<close>

definition hit_amount :: "(level \<times> int) list \<Rightarrow> string \<Rightarrow> int" where
  "hit_amount plan h = sum_list (map (\<lambda>(l, x). if lv_id l = h then x else 0) plan)"

lemma hit_amount_simps [simp]:
  "hit_amount [] h = 0"
  "hit_amount ((l, x) # ps) h = (if lv_id l = h then x else 0) + hit_amount ps h"
  by (simp_all add: hit_amount_def)

text \<open>The rows after a plan: those it names lose what was taken from them, and no other changes.\<close>

definition rows_after :: "db \<Rightarrow> (level \<times> int) list \<Rightarrow> db \<Rightarrow> bool" where
  "rows_after d plan d' \<longleftrightarrow> (\<forall>h. order_of d' h =
      (if h \<in> lv_id ` fst ` set plan then map_option (filled_row (hit_amount plan h)) (order_of d h) else order_of d h))"

text \<open>The levels a plan leaves: each loses what is taken from it and goes when nothing is left.\<close>

definition survivors :: "(string \<Rightarrow> int) \<Rightarrow> level list \<Rightarrow> level list" where
  "survivors hit ls = filter (\<lambda>l. 0 < lv_sizeBase l) (map (\<lambda>l. l\<lparr>lv_sizeBase := lv_sizeBase l - hit (lv_id l)\<rparr>) ls)"

lemma hit_amount_other: "h \<notin> lv_id ` fst ` set plan \<Longrightarrow> hit_amount plan h = 0"
  by (induction plan) auto

lemma plan_ids: "lv_id ` fst ` set (greedy x ls) \<subseteq> lv_id ` set ls"
  using arg_cong [OF greedy_levels [of x ls], of set] set_take_subset
  by (metis image_mono list.set_map)

lemma survivors_cong:
  "(\<And>l. l \<in> set ls \<Longrightarrow> hit (lv_id l) = hit' (lv_id l)) \<Longrightarrow> survivors hit ls = survivors hit' ls"
  unfolding survivors_def by (intro arg_cong [of _ _ "filter _"] map_cong) simp_all

lemma survivors_same: "\<forall>l \<in> set ls. 0 < lv_sizeBase l \<and> hit (lv_id l) = 0 \<Longrightarrow> survivors hit ls = ls"
  by (induction ls) (simp_all add: survivors_def)

lemma survivors_Cons:
  "survivors hit (l # ls) = (if hit (lv_id l) < lv_sizeBase l then fill_level l (hit (lv_id l)) # survivors hit ls else survivors hit ls)"
  by (simp add: survivors_def fill_level_def)

text \<open>Every hit of a plan but the last uses its level up.\<close>

lemma greedy_used_up: "(l, x) \<in> set (butlast (greedy rem ls)) \<Longrightarrow> x = lv_sizeBase l"
  by (induction rem ls rule: greedy.induct) (auto simp: min_def split: if_splits)

lemma hit_amount_member:
  "distinct (map (lv_id \<circ> fst) plan) \<Longrightarrow> (l, x) \<in> set plan \<Longrightarrow> hit_amount plan (lv_id l) = x"
proof (induction plan)
  case (Cons p ps)
  then show ?case using hit_amount_other [of "lv_id l" ps] by (cases p) (force simp: image_image)
qed simp

lemma rows_after_Nil: "rows_after d [] d"
  by (simp add: rows_after_def)

lemma rows_after_Cons:
  assumes "\<And>h. order_of d1 h = map_option (\<lambda>r. if h = lv_id l then filled_row x r else r) (order_of d h)"
    and "rows_after d1 ps d'" and "lv_id l \<notin> lv_id ` fst ` set ps"
  shows "rows_after d ((l, x) # ps) d'"
  unfolding rows_after_def
proof
  fix h
  show "order_of d' h = (if h \<in> lv_id ` fst ` set ((l, x) # ps)
      then map_option (filled_row (hit_amount ((l, x) # ps) h)) (order_of d h) else order_of d h)"
    using assms hit_amount_other [of "lv_id l" ps]
    by (cases "h = lv_id l"; cases "order_of d h") (auto simp: rows_after_def)
qed

lemma market_loop_coherent:
  "\<forall>l \<in> set ls. level_matches d k l \<Longrightarrow> distinct (map lv_id ls) \<Longrightarrow> rows_fit d \<Longrightarrow>
    market_by_id d (ctx_id ctx) \<noteq> None \<Longrightarrow>
    \<exists>ls' d'. market_loop now ctx rem fills ls d =
        (Inr (rem - filled (greedy rem ls), fills @ map taken (greedy rem ls)), ls', d') \<and>
      (\<forall>l \<in> set ls'. level_matches d' k l) \<and> ls' = survivors (hit_amount (greedy rem ls)) ls \<and>
      rows_fit d' \<and> d_markets d' = d_markets d \<and>
      rows_after d (greedy rem ls) d' \<and> d_trades d' = d_trades d @ map (trade_of now ctx) (greedy rem ls)"
proof (induction ls arbitrary: rem fills d)
  case Nil
  then show ?case by (simp add: market_loop_Nil rows_after_Nil survivors_def)
next
  case (Cons l rest)
  show ?case
  proof (cases "0 < rem")
    case False
    have "survivors (\<lambda>_. 0) (l # rest) = l # rest"
      using Cons.prems(1) by (intro survivors_same) (auto simp: level_matches_def)
    with False show ?thesis using Cons.prems by (simp add: market_loop_stop rows_after_Nil)
  next
    case True
    let ?x = "min rem (lv_sizeBase l)"
    have lm: "level_matches d k l" using Cons.prems by simp
    then have x: "0 < ?x" "?x \<le> lv_sizeBase l" using True by (auto simp: level_matches_def)
    obtain d1 where rf: "record_fill now ctx l ?x d = (Inr (), d1)" and m1: "d_markets d1 = d_markets d"
      and o1: "\<And>h. order_of d1 h = map_option (\<lambda>r. if h = lv_id l then filled_row ?x r else r) (order_of d h)"
      and t1: "d_trades d1 = d_trades d @ [trade_of now ctx (l, ?x)]"
      using record_fill_ok [OF lm Cons.prems(3,4) x, of now] by blast
    have rest: "\<forall>m \<in> set rest. level_matches d1 k m"
    proof
      fix m assume m: "m \<in> set rest"
      with Cons.prems(2) have "lv_id m \<noteq> lv_id l" by (metis distinct.simps(2) image_eqI list.set_map list.simps(9))
      then have "order_of d1 (lv_id m) = order_of d (lv_id m)" by (simp add: o1)
      with m Cons.prems(1) level_matches_cong [OF m1] show "level_matches d1 k m" by simp
    qed
    have fit1: "rows_fit d1" by (rule rows_fit_filled [OF Cons.prems(3) lm x m1 o1])
    have dist: "distinct (map lv_id rest)" and new: "lv_id l \<notin> lv_id ` set rest" using Cons.prems(2) by auto
    have out: "lv_id l \<notin> lv_id ` fst ` set (greedy r rest)" for r using new plan_ids [of r rest] by blast
    have tail: "survivors (hit_amount ((l, ?x) # ps)) rest = survivors (hit_amount ps) rest" for ps
      using new by (intro survivors_cong) auto
    have mk1: "market_by_id d1 (ctx_id ctx) \<noteq> None" using Cons.prems(4) market_by_id_cong [OF m1] by simp
    show ?thesis
    proof (cases "lv_sizeBase l \<le> rem")
      case le: True
      obtain ls' d' where IH: "market_loop now ctx (rem - ?x) (fills @ [taken (l, ?x)]) rest d1 =
          (Inr (rem - ?x - filled (greedy (rem - ?x) rest),
            (fills @ [taken (l, ?x)]) @ map taken (greedy (rem - ?x) rest)), ls', d')"
        "\<forall>l \<in> set ls'. level_matches d' k l" "ls' = survivors (hit_amount (greedy (rem - ?x) rest)) rest" "rows_fit d'"
        "d_markets d' = d_markets d1" "rows_after d1 (greedy (rem - ?x) rest) d'"
        "d_trades d' = d_trades d1 @ map (trade_of now ctx) (greedy (rem - ?x) rest)"
        using Cons.IH [OF rest dist fit1 mk1] by blast
      have "market_loop now ctx rem fills (l # rest) d =
          (Inr (rem - filled (greedy rem (l # rest)), fills @ map taken (greedy rem (l # rest))), ls', d')"
        using True le rf IH(1) by (simp add: market_loop_Cons taken_def)
      moreover have "rows_after d (greedy rem (l # rest)) d'"
        using True rows_after_Cons [OF o1 IH(6) out] by simp
      moreover have "d_markets d' = d_markets d" by (simp only: IH(5) m1)
      moreover have "d_trades d' = d_trades d @ map (trade_of now ctx) (greedy rem (l # rest))"
        using True by (simp add: IH(7) t1)
      moreover have "ls' = survivors (hit_amount (greedy rem (l # rest))) (l # rest)"
        using True le IH(3) tail hit_amount_other [OF out, of "rem - ?x"] by (simp add: survivors_Cons)
      ultimately show ?thesis using IH(2,4) by blast
    next
      case False
      then have xr: "?x = rem" by simp
      have "level_matches d1 k (fill_level l rem)"
        using False True lm m1 o1 [of "lv_id l"] by (intro level_matches_filled [of d]) (simp_all add: xr)
      moreover have "market_loop now ctx rem fills (l # rest) d =
          (Inr (rem - filled (greedy rem (l # rest)), fills @ map taken (greedy rem (l # rest))),
           fill_level l rem # rest, d1)"
        using True False rf by (simp add: market_loop_Cons market_loop_stop taken_def xr)
      moreover have "rows_after d (greedy rem (l # rest)) d1"
        using True rows_after_Cons [OF o1 rows_after_Nil] by (simp add: xr)
      moreover have "d_trades d1 = d_trades d @ map (trade_of now ctx) (greedy rem (l # rest))"
        using True by (simp add: t1 xr)
      moreover have "fill_level l rem # rest = survivors (hit_amount (greedy rem (l # rest))) (l # rest)"
      proof -
        have "survivors (hit_amount [(l, rem)]) rest = rest"
          using Cons.prems(1) new by (intro survivors_same) (auto simp: level_matches_def)
        then show ?thesis using True False by (simp add: survivors_Cons xr)
      qed
      moreover have "\<forall>m \<in> set (fill_level l rem # rest). level_matches d1 k m"
        using calculation(1) rest by simp
      ultimately show ?thesis using fit1 m1 by blast
    qed
  qed
qed

section \<open>The book and the rows move together\<close>

lemma book_ids:
  "book_ok b \<Longrightarrow> distinct (map lv_id (bids b @ asks b))"
proof -
  assume "book_ok b"
  then have "distinct (map to_lower (map lv_id (bids b @ asks b)))"
    by (simp add: book_ok_def id_key_def [abs_def] o_def)
  then show ?thesis unfolding distinct_map by simp
qed

lemma ctx_market: "getTradingContext d k = Inr ctx \<Longrightarrow> market_by_id d (ctx_id ctx) \<noteq> None"
  using ctx_of_market [of d k ctx] by (auto simp: market_by_id_def row_by_None_iff)

lemma coherentD:
  "coherent e \<Longrightarrow> book_at e k = Some b \<Longrightarrow> l \<in> set (bids b) \<union> set (asks b) \<Longrightarrow>
    level_matches (eng_db e) k l"
  by (auto simp: coherent_def)

lemma level_matches_book:
  "level_matches d k l \<Longrightarrow> level_matches d j m \<Longrightarrow> lv_id m = lv_id l \<Longrightarrow> j = k"
  by (auto simp: level_matches_def)

text \<open>
  Rebuilding the agreement after one book has been replaced: the levels of the new book match,
  and the rows of every other level are untouched.
\<close>

lemma coherent_replace:
  assumes co: "coherent e" and mk: "d_markets d = d_markets (eng_db e)"
    and new: "\<forall>l \<in> set (bids b') \<union> set (asks b'). level_matches d k l"
    and other: "\<And>j b l. j \<noteq> k \<Longrightarrow> book_at e j = Some b \<Longrightarrow> l \<in> set (bids b) \<union> set (asks b) \<Longrightarrow>
      order_of d (lv_id l) = order_of (eng_db e) (lv_id l)"
  shows "coherent ((set_book k b' e)\<lparr>eng_db := d\<rparr>)"
  unfolding coherent_def
proof (intro allI impI ballI)
  fix j b l assume b: "book_at ((set_book k b' e)\<lparr>eng_db := d\<rparr>) j = Some b"
    and l: "l \<in> set (bids b @ asks b)"
  show "level_matches (eng_db ((set_book k b' e)\<lparr>eng_db := d\<rparr>)) j l"
  proof (cases "j = k")
    case True
    with b l new show ?thesis by auto
  next
    case False
    with b have bj: "book_at e j = Some b" by simp
    have "level_matches (eng_db e) j l" using coherentD [OF co bj] l by simp
    with level_matches_cong [OF mk other [OF False bj]] l show ?thesis by simp
  qed
qed

lemma ensure_book_coherent: "coherent e \<Longrightarrow> coherent (snd (ensure_book k e))"
  by (auto simp: ensure_book_def coherent_def empty_book_def split: option.splits)

lemma side_split:
  "set (bids b) \<union> set (asks b) = set (against BUY b) \<union> set (against SELL b)" by auto

definition taken_from :: "market_res \<Rightarrow> string \<Rightarrow> int" where
  "taken_from m h = sum_list (map (\<lambda>f. if mf_hash f = h then amount (mf_sizeBase f) else 0) (m_fills m))"

lemma taken_simps [simp]:
  "mf_hash (taken p) = lv_id (fst p)" "mf_sizeBase (taken p) = big_to_string (snd p)"
  "mf_priceTicks (taken p) = big_to_string (lv_priceTicks (fst p))"
  by (simp_all add: taken_def case_prod_unfold)

lemma taken_from_plan: "m_fills m = map taken plan \<Longrightarrow> taken_from m h = hit_amount plan h"
  by (simp add: taken_from_def hit_amount_def case_prod_unfold o_def cong: if_cong)

lemma plan_of_fills:
  assumes di: "distinct (map lv_id ls)" and nn: "\<forall>l \<in> set ls. 0 \<le> lv_sizeBase l"
  shows "map (\<lambda>p. (lv_id (fst p), lv_priceTicks (fst p))) (greedy x ls) =
      map (\<lambda>l. (lv_id l, lv_priceTicks l)) (take (length (greedy x ls)) ls)"
    and "\<forall>p \<in> set (butlast (greedy x ls)). \<forall>l \<in> set ls. lv_id l = lv_id (fst p) \<longrightarrow> snd p = lv_sizeBase l"
    and "filled (greedy x ls) = min (max 0 x) (sum_list (map lv_sizeBase ls))"
proof -
  show "map (\<lambda>p. (lv_id (fst p), lv_priceTicks (fst p))) (greedy x ls) =
      map (\<lambda>l. (lv_id l, lv_priceTicks l)) (take (length (greedy x ls)) ls)"
    using arg_cong [OF greedy_levels [of x ls], of "map (\<lambda>l. (lv_id l, lv_priceTicks l))"] by (simp add: o_def)
  show "\<forall>p \<in> set (butlast (greedy x ls)). \<forall>l \<in> set ls. lv_id l = lv_id (fst p) \<longrightarrow> snd p = lv_sizeBase l"
  proof (intro ballI impI)
    fix p l assume p: "p \<in> set (butlast (greedy x ls))" and l: "l \<in> set ls" "lv_id l = lv_id (fst p)"
    have "fst p \<in> fst ` set (greedy x ls)" using p by (blast dest: in_set_butlastD)
    then have "fst p \<in> set ls"
      using arg_cong [OF greedy_levels [of x ls], of set] by (auto dest: in_set_takeD)
    with l di have "l = fst p" by (auto simp: distinct_map inj_on_def)
    with p greedy_used_up [of "fst p" "snd p" x ls] show "snd p = lv_sizeBase l" by simp
  qed
  have "0 \<le> sum_list (map lv_sizeBase ls)" using nn by (intro sum_list_nonneg) auto
  then show "filled (greedy x ls) = min (max 0 x) (sum_list (map lv_sizeBase ls))"
    using filled_greedy [OF _ nn, of x] by (cases "0 \<le> x") simp_all
qed

lemma coherent_side_replaced:
  assumes co: "coherent e" and bk: "book_at e k = Some b" and bo: "book_ok b"
    and m: "\<forall>l \<in> set ls. level_matches d k l" and mk: "d_markets d = d_markets (eng_db e)"
    and same: "\<And>h. h \<notin> lv_id ` set (against sd b) \<Longrightarrow> order_of d h = order_of (eng_db e) h"
  shows "coherent ((set_book k (set_against sd ls b) e)\<lparr>eng_db := d\<rparr>)"
proof (rule coherent_replace [OF co])
  note lm = coherentD [OF co bk]
  show "d_markets d = d_markets (eng_db e)" by (rule mk)
  have "level_matches d k l" if l: "l \<in> set (against (case sd of BUY \<Rightarrow> SELL | SELL \<Rightarrow> BUY) b)" for l
  proof -
    have "lv_id l \<notin> lv_id ` set (against sd b)" using l book_ids [OF bo] by (cases sd) auto
    from same [OF this] show ?thesis
      using l lm mk level_matches_cong [of d "eng_db e" l k] by (cases sd) auto
  qed
  then show "\<forall>l \<in> set (bids (set_against sd ls b)) \<union> set (asks (set_against sd ls b)). level_matches d k l"
    using m by (cases sd) auto
  fix j c l assume j: "j \<noteq> k" "book_at e j = Some c" "l \<in> set (bids c) \<union> set (asks c)"
  have "\<forall>y \<in> set (against sd b). level_matches (eng_db e) k y" using lm by (cases sd) auto
  then have "lv_id l \<notin> lv_id ` set (against sd b)"
    using coherentD [OF co j(2,3)] j(1) level_matches_book by fastforce
  then show "order_of d (lv_id l) = order_of (eng_db e) (lv_id l)" by (rule same)
qed

text \<open>
  C3. A market order on a book that agrees with the database never fails half way, and moves book, rows
  and trades by the same amounts: it returns, it takes from the opposite side in its order and at its
  prices, as much
  as was asked and is there, and uses up every level but the last one it hits; the book keeps
  exactly the levels with something left, reduced by what was taken from them, in the same order,
  and no other side or book changes; each maker row loses what was taken from its level and
  becomes filled when nothing is left, and no other row changes; one trade per fill is appended
  with the maker's price and the fill's size; and afterwards book and rows agree again.
\<close>

theorem market_keeps_agreement:
  assumes wf: "engine_wf e" and co: "coherent e" and fit: "rows_fit (eng_db e)"
    and ctx: "getTradingContext (eng_db e) k = Inr ctx"
    and b: "b = fst (ensure_book (ctx_symbol ctx) e)"
  shows "\<exists>m e'. market now k sd x e = (Inr m, e') \<and> coherent e' \<and> rows_fit (eng_db e') \<and>
    map (\<lambda>f. (mf_hash f, amount (mf_priceTicks f))) (m_fills m) =
      map (\<lambda>l. (lv_id l, lv_priceTicks l)) (take (length (m_fills m)) (against sd b)) \<and>
    (\<forall>f \<in> set (butlast (m_fills m)). \<forall>l \<in> set (against sd b). lv_id l = mf_hash f \<longrightarrow> amount (mf_sizeBase f) = lv_sizeBase l) \<and>
    sum_list (map (\<lambda>f. amount (mf_sizeBase f)) (m_fills m)) = min (max 0 x) (sum_list (map lv_sizeBase (against sd b))) \<and>
    amount (m_remainingBase m) = x - sum_list (map (\<lambda>f. amount (mf_sizeBase f)) (m_fills m)) \<and>
    book_at e' (ctx_symbol ctx) = Some (set_against sd (survivors (taken_from m) (against sd b)) b) \<and>
    (\<forall>j. j \<noteq> ctx_symbol ctx \<longrightarrow> book_at e' j = book_at e j) \<and>
    (\<forall>h. order_of (eng_db e') h = (if h \<in> mf_hash ` set (m_fills m)
         then map_option (filled_row (taken_from m h)) (order_of (eng_db e) h) else order_of (eng_db e) h)) \<and>
    d_trades (eng_db e') = d_trades (eng_db e) @
      map (\<lambda>f. \<lparr>t_marketId = ctx_id ctx, t_makerHash = mf_hash f, t_taker = to_lower zero_address,
        t_priceTicks = amount (mf_priceTicks f), t_sizeBase = amount (mf_sizeBase f), t_txHash = None, t_ts = now\<rparr>)
      (m_fills m)"
proof -
  let ?k = "ctx_symbol ctx" and ?A = "against sd b"
  obtain e1 where eb: "ensure_book ?k e = (b, e1)" using b by (cases "ensure_book ?k e") simp
  note ok = ensure_book_ok [OF engine_wf_ok [OF wf] eb]
  then have e1: "eng_db e1 = eng_db e" "book_at e1 ?k = Some b" and bo: "book_ok b" by auto
  have co1: "coherent e1" using ensure_book_coherent [OF co, of ?k] eb by simp
  have lm: "\<forall>l \<in> set ?A. level_matches (eng_db e) ?k l"
    using coherentD [OF co1 e1(2)] e1(1) by (cases sd; auto)
  have di: "distinct (map lv_id ?A)" using book_ids [OF bo] by (cases sd) auto
  define plan where "plan = greedy x ?A"
  define m where "m = \<lparr>m_remainingBase = big_to_string (x - filled plan), m_fills = map taken plan\<rparr>"
  have mf: "m_fills m = map taken plan" "amount (m_remainingBase m) = x - filled plan"
    by (simp_all add: m_def)
  have tk: "taken_from m = hit_amount plan" using taken_from_plan [OF mf(1)] by (simp add: fun_eq_iff)
  obtain ls' d' where ml: "market_loop now ctx x [] ?A (eng_db e) = (Inr (x - filled plan, map taken plan), ls', d')"
    and lsm: "\<forall>l \<in> set ls'. level_matches d' ?k l" and ls: "ls' = survivors (hit_amount plan) ?A"
    and d': "rows_fit d'" "d_markets d' = d_markets (eng_db e)" "rows_after (eng_db e) plan d'"
    and tr: "d_trades d' = d_trades (eng_db e) @ map (trade_of now ctx) plan"
    using market_loop_coherent [OF lm di fit ctx_market [OF ctx], of now x "[]"]
    unfolding plan_def [symmetric] by auto
  let ?e' = "(set_book ?k (set_against sd ls' b) e1)\<lparr>eng_db := d'\<rparr>"
  have "order_of d' h = order_of (eng_db e1) h" if "h \<notin> lv_id ` set ?A" for h
  proof -
    have "h \<notin> lv_id ` fst ` set plan" unfolding plan_def using that plan_ids by blast
    with d'(3) show ?thesis by (simp add: rows_after_def e1(1))
  qed
  then have co': "coherent ?e'"
    using d'(2) by (intro coherent_side_replaced [OF co1 e1(2) bo lsm]) (simp_all add: e1(1))
  have run: "market now k sd x e = (Inr m, ?e')" by (simp add: market_def ctx eb e1 ml m_def)
  have books: "book_at ?e' ?k = Some (set_against sd (survivors (taken_from m) ?A) b)"
    "\<forall>j. j \<noteq> ?k \<longrightarrow> book_at ?e' j = book_at e j"
    using eb by (auto simp: ls tk ensure_book_def split: option.splits)
  have rows: "\<forall>h. order_of (eng_db ?e') h = (if h \<in> mf_hash ` set (m_fills m)
      then map_option (filled_row (taken_from m h)) (order_of (eng_db e) h) else order_of (eng_db e) h)"
    unfolding tk mf using d'(3) by (simp add: rows_after_def image_image)
  have nn: "\<forall>l \<in> set ?A. 0 \<le> lv_sizeBase l" using lm by (auto simp: level_matches_def)
  note pl = plan_of_fills [OF di nn, of x, folded plan_def]
  have hits: "map (\<lambda>f. (mf_hash f, amount (mf_priceTicks f))) (m_fills m) =
      map (\<lambda>l. (lv_id l, lv_priceTicks l)) (take (length (m_fills m)) ?A)"
    "\<forall>f \<in> set (butlast (m_fills m)). \<forall>l \<in> set ?A. lv_id l = mf_hash f \<longrightarrow> amount (mf_sizeBase f) = lv_sizeBase l"
    using pl(1,2) by (simp_all add: mf o_def map_butlast [symmetric])
  have sum: "sum_list (map (\<lambda>f. amount (mf_sizeBase f)) (m_fills m)) = filled plan"
    by (simp add: mf filled_def o_def)
  have trades: "d_trades (eng_db ?e') = d_trades (eng_db e) @
      map (\<lambda>f. \<lparr>t_marketId = ctx_id ctx, t_makerHash = mf_hash f, t_taker = to_lower zero_address,
        t_priceTicks = amount (mf_priceTicks f), t_sizeBase = amount (mf_sizeBase f), t_txHash = None, t_ts = now\<rparr>)
      (m_fills m)"
    using tr by (simp add: mf trade_of_def o_def case_prod_unfold)
  have fit': "rows_fit (eng_db ?e')" using d'(1) by simp
  show ?thesis
    by (rule exI [of _ m], rule exI [of _ ?e'], intro conjI)
      (rule run co' fit' hits pl(3) [folded sum] mf(2) [folded sum] books rows trades)+
qed

text \<open>A sample engine in agreement with its rows.\<close>

lemma sample_wf: "engine_wf sample_engine"
  using sample_reachable sample_markets_ok by (rule reachable_wf)

definition matches_row :: "db \<Rightarrow> string \<Rightarrow> level \<Rightarrow> bool" where
  "matches_row d k l \<longleftrightarrow> 0 < lv_sizeBase l \<and>
    (case order_of d (lv_id l) of None \<Rightarrow> False
     | Some r \<Rightarrow> o_remaining r = lv_sizeBase l \<and> o_side r = lv_side l \<and>
        o_priceTicks r = lv_priceTicks l \<and> is_open (o_status r) \<and> symbol_of d (o_marketId r) = k)"

lemma coherentI:
  assumes "list_all (\<lambda>(k, b). list_all (matches_row (eng_db e) k) (bids b @ asks b)) (eng_books e)"
  shows "coherent e"
  unfolding coherent_def
proof (intro allI impI)
  fix k b assume "book_at e k = Some b"
  then have "(k, b) \<in> set (eng_books e)" by (rule map_of_SomeD)
  with assms show "\<forall>l \<in> set (bids b @ asks b). level_matches (eng_db e) k l"
    by (fastforce simp: list_all_iff matches_row_def level_matches_def split: option.splits)
qed

lemma rows_fitI:
  assumes "list_all (\<lambda>r. market_by_id d (o_marketId r) \<noteq> None \<and> fits_int64 (o_priceTicks r) \<and>
      fits_dec78 (o_sizeBase r) \<and> 0 \<le> o_remaining r \<and> o_remaining r \<le> o_sizeBase r) (d_orders d)"
  shows "rows_fit d"
  using assms row_by_SomeD by (fastforce simp: rows_fit_def order_of_def list_all_iff)

lemma sample_coherent: "coherent sample_engine" and sample_rows_fit: "rows_fit (eng_db sample_engine)"
proof -
  have "list_all (\<lambda>(k, b). list_all (matches_row (eng_db sample_engine) k) (bids b @ asks b))
      (eng_books sample_engine)" by code_simp
  then show "coherent sample_engine" by (rule coherentI)
  have "list_all (\<lambda>r. market_by_id (eng_db sample_engine) (o_marketId r) \<noteq> None \<and>
      fits_int64 (o_priceTicks r) \<and> fits_dec78 (o_sizeBase r) \<and> 0 \<le> o_remaining r \<and>
      o_remaining r \<le> o_sizeBase r) (d_orders (eng_db sample_engine))" by code_simp
  then show "rows_fit (eng_db sample_engine)" by (rule rows_fitI)
qed

lemma sample_ctx: "\<exists>ctx. getTradingContext (eng_db sample_engine) ''m1'' = Inr ctx \<and> ctx_symbol ctx = ''B-Q''"
proof -
  have "map_option ctx_symbol (case getTradingContext (eng_db sample_engine) ''m1'' of
      Inr c \<Rightarrow> Some c | Inl _ \<Rightarrow> None) = Some ''B-Q''" by code_simp
  then show ?thesis by (auto split: sum.splits)
qed

theorem market_keeps_agreement_witness:
  "\<exists>m e'. market 3 ''m1'' BUY 50 sample_engine = (Inr m, e') \<and> coherent e'"
proof -
  obtain ctx where "getTradingContext (eng_db sample_engine) ''m1'' = Inr ctx" using sample_ctx by blast
  from market_keeps_agreement [OF sample_wf sample_coherent sample_rows_fit this refl, of 3 BUY 50]
  show ?thesis by blast
qed

text \<open>In-place updates of the level a unique id names.\<close>

lemma set_update_first_unique:
  assumes "find P xs = Some l" and "distinct xs"
  shows "set (update_first P f xs) = insert (f l) (set xs - {l})"
  using assms
proof (induction xs)
  case (Cons y ys)
  show ?case
  proof (cases "P y")
    case True
    with Cons.prems show ?thesis by auto
  next
    case False
    with Cons.prems have "find P ys = Some l" "y \<noteq> l" by (auto dest: find_in)
    with Cons False show ?thesis by auto
  qed
qed simp

lemma mutate_level_set:
  assumes "find_level P b = Some l" and "distinct (bids b @ asks b)"
  shows "set (bids (mutate_level P f b)) \<union> set (asks (mutate_level P f b)) =
    insert (f l) (set (bids b) \<union> set (asks b) - {l})"
proof (cases "find P (bids b)")
  case None
  with assms have l: "find P (asks b) = Some l" "l \<notin> set (bids b)"
    by (auto simp: find_level_def dest: find_in)
  with None assms set_update_first_unique [OF l(1)] show ?thesis by (auto simp: mutate_level_def)
next
  case (Some m)
  with assms have l: "m = l" "l \<notin> set (asks b)" by (auto simp: find_level_def dest: find_in)
  with Some assms set_update_first_unique [OF Some] show ?thesis by (auto simp: mutate_level_def)
qed

lemma find_level_in:
  "find_level P b = Some l \<Longrightarrow> l \<in> set (bids b) \<union> set (asks b) \<and> P l"
  by (auto simp: find_level_def dest: find_in split: option.splits)

lemma drop_id_set:
  "set (bids (drop_id t b)) \<union> set (asks (drop_id t b)) = {l \<in> set (bids b) \<union> set (asks b). id_key l \<noteq> t}"
  by (auto simp: drop_id_def without_id_def same_id_def id_key_def)

lemma find_level_mutate:
  assumes "find_level P b = Some l" and "P (f l)"
  shows "find_level P (mutate_level P f b) = Some (f l)"
proof -
  have "find P xs = Some l \<Longrightarrow> find P (update_first P f xs) = Some (f l)" for xs
    using assms(2) by (induction xs) (auto split: if_splits)
  with assms(1) show ?thesis
    by (cases "find P (bids b)") (auto simp: find_level_def mutate_level_def)
qed

lemma find_level_dropped: "find_level (same_id t) (drop_id t b) = None"
  by (auto simp: find_level_def drop_id_def without_id_def find_None_iff split: option.splits)

text \<open>The book after a fill of at most \<open>x\<close> on the level \<open>l\<close>.\<close>

definition filled_book :: "int \<Rightarrow> level \<Rightarrow> book \<Rightarrow> book" where
  "filled_book x l b =
    (let t = id_key l;
         b1 = mutate_level (same_id t) (\<lambda>m. m\<lparr>lv_sizeBase := lv_sizeBase l - min x (lv_sizeBase l)\<rparr>) b
     in if x < lv_sizeBase l then b1 else drop_id t b1)"

lemma level_unique:
  assumes "book_ok b" and "l \<in> set (bids b) \<union> set (asks b)" and "m \<in> set (bids b) \<union> set (asks b)"
    and "id_key m = id_key l"
  shows "m = l"
proof -
  have "inj_on id_key (set (bids b @ asks b))"
    using assms(1) unfolding book_ok_def distinct_map by simp
  then show ?thesis using assms(2-4) by (intro inj_onD [of id_key]) auto
qed

lemma filled_book_set:
  assumes "book_ok b" and l: "find_level (same_id (id_key l)) b = Some l"
  shows "set (bids (filled_book x l b)) \<union> set (asks (filled_book x l b)) =
    (if x < lv_sizeBase l then {fill_level l x} else {}) \<union> (set (bids b) \<union> set (asks b) - {l})"
proof -
  let ?x = "min x (lv_sizeBase l)"
  define b1 where "b1 = mutate_level (same_id (id_key l)) (\<lambda>m. m\<lparr>lv_sizeBase := lv_sizeBase l - ?x\<rparr>) b"
  have db: "distinct (bids b @ asks b)" using assms(1) unfolding book_ok_def distinct_map by simp
  have mem: "l \<in> set (bids b) \<union> set (asks b)" using find_level_in [OF l] by simp
  have set1: "set (bids b1) \<union> set (asks b1) = insert (fill_level l ?x) (set (bids b) \<union> set (asks b) - {l})"
    unfolding b1_def using mutate_level_set [OF l db] by (simp add: fill_level_def)
  have fl: "id_key (fill_level l ?x) = id_key l" by (simp add: id_key_def)
  have "filled_book x l b = (if x < lv_sizeBase l then b1 else drop_id (id_key l) b1)"
    by (simp add: filled_book_def b1_def Let_def)
  moreover have "set (bids (drop_id (id_key l) b1)) \<union> set (asks (drop_id (id_key l) b1)) = set (bids b) \<union> set (asks b) - {l}"
    unfolding drop_id_set set1 using level_unique [OF assms(1) mem] fl by auto
  ultimately show ?thesis using set1 by (simp add: min_def)
qed

lemma filled_book_find:
  assumes "find_level (same_id (id_key l)) b = Some l"
  shows "find_level (same_id (id_key l)) (filled_book x l b) = (if x < lv_sizeBase l then Some (fill_level l x) else None)"
  using find_level_mutate [OF assms, of "\<lambda>m. m\<lparr>lv_sizeBase := lv_sizeBase l - x\<rparr>"]
  by (simp add: filled_book_def Let_def find_level_dropped same_id_def fill_level_def id_key_def)

lemma external_fill_run:
  assumes "getTradingContext (eng_db e) k = Inr ctx" and "book_at e (ctx_symbol ctx) = Some b"
    and "find_level (same_id (to_lower h)) b = Some l" and "lv_id l = h"
    and "order_of (eng_db e) h = Some r" and "o_remaining r = lv_sizeBase l"
  obtains d where "applyExternalFill now k h x e =
      (Inr (if x < lv_sizeBase l then FillPartial else FillFilled),
       (set_book (ctx_symbol ctx) (filled_book x l b) e)\<lparr>eng_db := d\<rparr>)"
    "d_markets d = d_markets (eng_db e)" "d_trades d = d_trades (eng_db e)"
    "\<And>g. order_of d g = map_option (\<lambda>r. if g = h then filled_row (min x (lv_sizeBase l)) r else r)
      (order_of (eng_db e) g)"
proof -
  let ?k = "ctx_symbol ctx" and ?t = "to_lower h" and ?x = "min x (lv_sizeBase l)"
  define st where "st = (if lv_sizeBase l - ?x > 0 then O_PARTIALLY_FILLED else O_FILLED)"
  obtain q d where dc: "decreaseOrderRemaining now h ?x st (eng_db e) = (q, d)" by fastforce
  have q: "q = Inr ()" using decreaseOrderRemaining_ok [of now h ?x st "eng_db e"] dc assms(5) by simp
  have de: "d = snd (decreaseOrderRemaining now h ?x st (eng_db e))" by (simp add: dc)
  have o': "order_of d g = map_option (\<lambda>r. if g = h then filled_row ?x r else r) (order_of (eng_db e) g)" for g
    unfolding de using assms(5,6) by (cases "g = h") (simp_all add: filled_row_def st_def)
  define b1 where "b1 = mutate_level (same_id ?t) (\<lambda>m. m\<lparr>lv_sizeBase := lv_sizeBase l - ?x\<rparr>) b"
  have fb: "filled_book x l b = (if lv_sizeBase l - ?x = 0 then drop_id ?t b1 else b1)"
    using assms(4) by (simp add: filled_book_def b1_def id_key_def Let_def)
  have exec: "(if x > lv_sizeBase l then lv_sizeBase l else x) = ?x" by auto
  have again: "set_book ?k v (set_book ?k u e0) = set_book ?k v e0" for u v e0
    by (simp add: set_book_def)
  have sb: "(set_book ?k u e)\<lparr>eng_db := d\<rparr> = set_book ?k u (e\<lparr>eng_db := d\<rparr>)" for u
    by (simp add: set_book_def)
  have "applyExternalFill now k h x e =
      (Inr (if x < lv_sizeBase l then FillPartial else FillFilled), (set_book ?k (filled_book x l b) e)\<lparr>eng_db := d\<rparr>)"
    using dc unfolding applyExternalFill_def apply_to_level_def assms(1,2,3) sum.case option.case Let_def exec
      b1_def [symmetric] st_def [symmetric]
    by (simp add: q fb sb again min_def)
  moreover have "d_markets d = d_markets (eng_db e)" "d_trades d = d_trades (eng_db e)" unfolding de by simp_all
  ultimately show ?thesis using o' that by blast
qed

lemma external_fill_coherent:
  assumes wf: "engine_wf e" and co: "coherent e" and b: "book_at e k = Some b"
    and l: "find_level (same_id (id_key l)) b = Some l" and x: "0 < x"
    and d: "d_markets d = d_markets (eng_db e)"
    and o': "\<And>g. order_of d g = map_option (\<lambda>r. if g = lv_id l then filled_row (min x (lv_sizeBase l)) r else r)
      (order_of (eng_db e) g)"
  shows "coherent ((set_book k (filled_book x l b) e)\<lparr>eng_db := d\<rparr>)"
proof (rule coherent_replace [OF co d])
  have bok: "book_ok b" using engine_okD [OF engine_wf_ok [OF wf] b] .
  have mem: "l \<in> set (bids b) \<union> set (asks b)" using find_level_in [OF l] by simp
  have lm: "level_matches (eng_db e) k l" by (rule coherentD [OF co b mem])
  show "\<forall>m \<in> set (bids (filled_book x l b)) \<union> set (asks (filled_book x l b)). level_matches d k m"
  proof
    fix m assume "m \<in> set (bids (filled_book x l b)) \<union> set (asks (filled_book x l b))"
    then consider "x < lv_sizeBase l" "m = fill_level l x" | "m \<in> set (bids b) \<union> set (asks b)" "m \<noteq> l"
      unfolding filled_book_set [OF bok l] by (auto split: if_splits)
    then show "level_matches d k m"
    proof cases
      case 1
      then show ?thesis using o' [of "lv_id l"] by (simp add: level_matches_filled [OF lm x 1(1) d])
    next
      case 2
      have "lv_id m \<noteq> lv_id l" using level_unique [OF bok mem 2(1)] 2(2) by (auto simp: id_key_def)
      with level_matches_cong [OF d, of m k] coherentD [OF co b 2(1)] show ?thesis by (simp add: o')
    qed
  qed
  fix j bj m assume j: "j \<noteq> k" "book_at e j = Some bj" "m \<in> set (bids bj) \<union> set (asks bj)"
  have "level_matches (eng_db e) j m" by (rule coherentD [OF co j(2,3)])
  with level_matches_book [OF lm this] j(1) have "lv_id m \<noteq> lv_id l" by auto
  then show "order_of d (lv_id m) = order_of (eng_db e) (lv_id m)" by (simp add: o')
qed

lemma external_fill_effect:
  assumes wf: "engine_wf e" and co: "coherent e" and fit: "rows_fit (eng_db e)"
    and ctx: "getTradingContext (eng_db e) k = Inr ctx" and b: "book_at e (ctx_symbol ctx) = Some b"
    and l: "find_level (same_id (to_lower h)) b = Some l" and h: "lv_id l = h" and x: "0 < x"
  shows "\<exists>e' b'. applyExternalFill now k h x e =
        (Inr (if x < lv_sizeBase l then FillPartial else FillFilled), e') \<and>
      book_at e' (ctx_symbol ctx) = Some b' \<and>
      find_level (same_id (to_lower h)) b' =
        (if x < lv_sizeBase l then Some (fill_level l x) else None) \<and>
      (\<forall>g. order_of (eng_db e') g = map_option
        (\<lambda>r. if g = h then filled_row (min x (lv_sizeBase l)) r else r) (order_of (eng_db e) g)) \<and>
      coherent e' \<and> rows_fit (eng_db e') \<and> d_trades (eng_db e') = d_trades (eng_db e) \<and>
      d_markets (eng_db e') = d_markets (eng_db e)"
proof -
  have mem: "l \<in> set (bids b) \<union> set (asks b)" using find_level_in [OF l] by simp
  have lm: "level_matches (eng_db e) (ctx_symbol ctx) l" by (rule coherentD [OF co b mem])
  then obtain r where r: "order_of (eng_db e) h = Some r" "o_remaining r = lv_sizeBase l"
    using h by (auto simp: level_matches_def)
  obtain d where run: "applyExternalFill now k h x e =
      (Inr (if x < lv_sizeBase l then FillPartial else FillFilled),
       (set_book (ctx_symbol ctx) (filled_book x l b) e)\<lparr>eng_db := d\<rparr>)"
    and d: "d_markets d = d_markets (eng_db e)" "d_trades d = d_trades (eng_db e)"
    and oh: "\<And>g. order_of d g = map_option (\<lambda>r. if g = h then filled_row (min x (lv_sizeBase l)) r else r)
      (order_of (eng_db e) g)"
    by (rule external_fill_run [OF ctx b l h r]) blast
  note o' = oh [folded h]
  have k: "id_key l = to_lower h" using h by (simp add: id_key_def)
  have "coherent ((set_book (ctx_symbol ctx) (filled_book x l b) e)\<lparr>eng_db := d\<rparr>)"
    using external_fill_coherent [OF wf co b _ x d(1) o'] l k by simp
  moreover have "rows_fit d" using lm x by (intro rows_fit_filled [OF fit lm _ _ d(1) o']) (auto simp: level_matches_def)
  moreover have "find_level (same_id (to_lower h)) (filled_book x l b) =
      (if x < lv_sizeBase l then Some (fill_level l x) else None)"
    using filled_book_find [of l b x] l k by simp
  ultimately show ?thesis using run d o' h
    by (intro exI [of _ "(set_book (ctx_symbol ctx) (filled_book x l b) e)\<lparr>eng_db := d\<rparr>"]
        exI [of _ "filled_book x l b"]) simp
qed

text \<open>
  C6. An on-chain fill moves the book and the database together: for a resting order whose
  level agrees with its row, \<open>applyExternalFill\<close> with a positive size takes the same amount,
  the smaller of the fill and what rests, from both. The order is reported and stored as
  partially filled exactly when something is left, otherwise its level leaves the book and the
  row is \<open>FILLED\<close>; no other row changes and the whole engine still agrees.
\<close>

theorem external_fill_moves_both:
  assumes wf: "engine_wf e" and co: "coherent e" and fit: "rows_fit (eng_db e)"
    and ctx: "getTradingContext (eng_db e) k = Inr ctx" and b: "book_at e (ctx_symbol ctx) = Some b"
    and l: "find_level (same_id (to_lower h)) b = Some l" and h: "lv_id l = h" and x: "0 < x"
  shows "\<exists>e' b'. applyExternalFill now k h x e =
        (Inr (if x < lv_sizeBase l then FillPartial else FillFilled), e') \<and>
      book_at e' (ctx_symbol ctx) = Some b' \<and>
      find_level (same_id (to_lower h)) b' =
        (if x < lv_sizeBase l then Some (fill_level l x) else None) \<and>
      (\<forall>g. order_of (eng_db e') g = map_option
        (\<lambda>r. if g = h then filled_row (min x (lv_sizeBase l)) r else r) (order_of (eng_db e) g)) \<and>
      coherent e' \<and> rows_fit (eng_db e')"
  using external_fill_effect [OF assms] by blast

lemma sample_hit: "\<exists>ctx b l. getTradingContext (eng_db sample_engine) ''m1'' = Inr ctx \<and>
    book_at sample_engine (ctx_symbol ctx) = Some b \<and>
    find_level (same_id (to_lower ''0x1'')) b = Some l \<and> lv_id l = ''0x1'' \<and> lv_sizeBase l = 40"
proof -
  have "(case book_at sample_engine ''B-Q'' of None \<Rightarrow> None
     | Some b \<Rightarrow> map_option (\<lambda>l. (lv_id l, lv_sizeBase l)) (find_level (same_id (to_lower ''0x1'')) b))
    = Some (''0x1'', 40)" by code_simp
  then show ?thesis using sample_ctx by (fastforce split: option.splits)
qed

theorem external_fill_moves_both_witness:
  "\<exists>e'. applyExternalFill 3 ''m1'' ''0x1'' 15 sample_engine = (Inr FillPartial, e') \<and> coherent e'"
proof -
  obtain ctx b l where h: "getTradingContext (eng_db sample_engine) ''m1'' = Inr ctx"
    "book_at sample_engine (ctx_symbol ctx) = Some b"
    "find_level (same_id (to_lower ''0x1'')) b = Some l" "lv_id l = ''0x1''" and sz: "lv_sizeBase l = 40"
    using sample_hit by blast
  from external_fill_moves_both [OF sample_wf sample_coherent sample_rows_fit h, of 15 3] sz
  show ?thesis by auto
qed

section \<open>Cancelling and expiring\<close>

lemma set_book_same: "book_at e k = Some b \<Longrightarrow> set_book k b e = e"
  by (simp add: set_book_def update_triv)

lemma drop_id_idem [simp]: "drop_id t (drop_id t b) = drop_id t b"
  by (simp add: drop_id_def without_id_def)

text \<open>
  Cancelling removes the order from both sides of its book whatever the letter case of the
  hash, keeps every other order and its place, leaves the other markets alone, and is
  idempotent: repeating it reports \<open>not_found\<close> and changes nothing.
\<close>

theorem cancel_removes_and_is_idempotent:
  assumes wf: "engine_wf e" and ctx: "getTradingContext (eng_db e) k = Inr ctx"
    and b: "book_at e (ctx_symbol ctx) = Some b" and run: "cancel now k h e = (r, e')"
  shows "(\<exists>b'. book_at e' (ctx_symbol ctx) = Some b' \<and>
      bids b' = filter (\<lambda>l. to_lower (lv_id l) \<noteq> to_lower h) (bids b) \<and>
      asks b' = filter (\<lambda>l. to_lower (lv_id l) \<noteq> to_lower h) (asks b)) \<and>
    (\<forall>j. j \<noteq> ctx_symbol ctx \<longrightarrow> book_at e' j = book_at e j) \<and>
    cancel now2 k h e' = (Inr CancelNotFound, e')"
proof -
  note c = cancel_book [OF engine_wf_ok [OF wf] ctx run]
  let ?b = "drop_id (to_lower h) b"
  have b': "book_at e' (ctx_symbol ctx) = Some ?b" using c b by simp
  have "getTradingContext (eng_db e') k = Inr ctx" using ctx c getTradingContext_cong by metis
  then have "cancel now2 k h e' = (Inr CancelNotFound, e')"
    by (simp add: cancel_def b' set_book_same)
  with b' c show ?thesis by (simp add: drop_id_def without_id_def same_id_def [abs_def])
qed

theorem cancel_removes_and_is_idempotent_witness:
  "\<exists>r e'. cancel 3 ''m1'' ''0X1'' sample_engine = (r, e') \<and> cancel 4 ''m1'' ''0X1'' e' = (Inr CancelNotFound, e')"
proof -
  obtain ctx b where h: "getTradingContext (eng_db sample_engine) ''m1'' = Inr ctx"
    "book_at sample_engine (ctx_symbol ctx) = Some b" using sample_hit by blast
  obtain r e' where r: "cancel 3 ''m1'' ''0X1'' sample_engine = (r, e')" by fastforce
  from cancel_removes_and_is_idempotent [OF sample_wf h r, of 4] r show ?thesis by blast
qed

definition expire_row :: "(string \<Rightarrow> bool) \<Rightarrow> db \<Rightarrow> db \<Rightarrow> bool" where
  "expire_row P d d' \<longleftrightarrow> (\<forall>h. order_of d' h =
     map_option (\<lambda>r. if P h then r\<lparr>o_status := O_EXPIRED\<rparr> else r) (order_of d h))"

lemma expire_row_trans:
  "expire_row P d d1 \<Longrightarrow> expire_row Q d1 d2 \<Longrightarrow> expire_row (\<lambda>h. P h \<or> Q h) d d2"
  by (auto simp: expire_row_def option.map_comp o_def intro!: option.map_cong)

lemma expire_orders_rows:
  "expire_orders now cid ls n d = (Inr n', d') \<Longrightarrow>
    n' = n + int (length ls) \<and> expire_row (\<lambda>h. h \<in> lv_id ` set ls) d d'"
proof (induction ls arbitrary: n d)
  case Nil
  then show ?case by (simp add: expire_row_def)
next
  case (Cons l ls)
  obtain q d1 where ex: "expireOrder now cid (lv_id l) d = (q, d1)" by fastforce
  with Cons.prems obtain u where "expire_orders now cid ls (n + 1) d1 = (Inr n', d')"
    by (cases q) auto
  from Cons.IH [OF this] have IH: "n' = n + 1 + int (length ls)"
    "expire_row (\<lambda>h. h \<in> lv_id ` set ls) d1 d'" by auto
  have "d1 = snd (expireOrder now cid (lv_id l) d)" by (simp add: ex)
  then have "expire_row (\<lambda>h. h = lv_id l) d d1" by (simp add: expire_row_def)
  from expire_row_trans [OF this IH(2)] IH(1) show ?case by simp
qed

text \<open>The levels a sweep at \<open>nowSec\<close> has to remove from a list of books.\<close>

definition due_in :: "int \<Rightarrow> engine \<Rightarrow> string list \<Rightarrow> level list" where
  "due_in t e ks = concat (map (\<lambda>k. case book_at e k of Some b \<Rightarrow> expired_of t b | None \<Rightarrow> []) ks)"

lemma due_in_Cons:
  "due_in t e (k # ks) = (case book_at e k of Some b \<Rightarrow> expired_of t b | None \<Rightarrow> []) @ due_in t e ks"
  by (simp add: due_in_def)

lemma due_in_cong: "(\<And>k. k \<in> set ks \<Longrightarrow> book_at e' k = book_at e k) \<Longrightarrow> due_in t e' ks = due_in t e ks"
  by (simp add: due_in_def cong: map_cong)

lemma alive_book_none: "expired_of t b = [] \<Longrightarrow> alive_book t b = b"
  by (cases b) (auto simp: expired_of_def alive_book_def filter_empty_conv intro: filter_True)

lemma sweep_books_effect:
  "distinct ks \<Longrightarrow> sweep_books now t ks n e = (Inr n', e') \<Longrightarrow>
    n' = n + int (length (due_in t e ks)) \<and>
    (\<forall>k. book_at e' k = (if k \<in> set ks then map_option (alive_book t) (book_at e k) else book_at e k)) \<and>
    expire_row (\<lambda>h. h \<in> lv_id ` set (due_in t e ks)) (eng_db e) (eng_db e')"
proof (induction ks arbitrary: n e)
  case Nil
  then show ?case by (simp add: due_in_def expire_row_def)
next
  case (Cons k ks)
  show ?case
  proof (cases "case book_at e k of Some b \<Rightarrow> expired_of t b = [] | None \<Rightarrow> True")
    case True
    with Cons.prems have "sweep_books now t ks n e = (Inr n', e')"
      by (auto simp: sweep_books_Cons simp del: sweep_books.simps split: option.splits)
    from Cons.IH [OF _ this] Cons.prems(1) True show ?thesis
      by (auto simp: due_in_Cons alive_book_none split: option.splits)
  next
    case False
    then obtain b where b: "book_at e k = Some b" "expired_of t b \<noteq> []" by (auto split: option.splits)
    let ?e1 = "set_book k (alive_book t b) e"
    obtain ctx :: trading_ctx and n1 d where d: "expire_orders now (ctx_id ctx) (expired_of t b) n (eng_db e) = (Inr n1, d)"
      and sw: "sweep_books now t ks n1 (?e1\<lparr>eng_db := d\<rparr>) = (Inr n', e')"
    proof (cases "getTradingContext (eng_db e) k")
      case (Inr ctx)
      obtain q d where ex: "expire_orders now (ctx_id ctx) (expired_of t b) n (eng_db e) = (q, d)"
        by fastforce
      with Cons.prems(2) b Inr obtain n1 where "q = Inr n1"
        "sweep_books now t ks n1 (?e1\<lparr>eng_db := d\<rparr>) = (Inr n', e')"
        by (cases q) (auto simp: sweep_books_Cons Let_def simp del: sweep_books.simps)
      with ex show thesis by (intro that [of ctx n1 d]) simp_all
    qed (use Cons.prems(2) b in \<open>simp add: sweep_books_Cons Let_def del: sweep_books.simps\<close>)
    have due: "due_in t (?e1\<lparr>eng_db := d\<rparr>) ks = due_in t e ks"
      using Cons.prems(1) by (intro due_in_cong) auto
    from Cons.IH [OF _ sw] Cons.prems(1) due
    have IH: "n' = n1 + int (length (due_in t e ks))"
      "\<forall>j. book_at e' j = (if j \<in> set ks then map_option (alive_book t) (book_at ?e1 j) else book_at ?e1 j)"
      "expire_row (\<lambda>h. h \<in> lv_id ` set (due_in t e ks)) d (eng_db e')" by auto
    from expire_orders_rows [OF d] have "n1 = n + int (length (expired_of t b))"
      and ex: "expire_row (\<lambda>h. h \<in> lv_id ` set (expired_of t b)) (eng_db e) d" by auto
    with IH expire_row_trans [OF ex IH(3)] b Cons.prems(1) show ?thesis
      by (auto simp: due_in_Cons image_Un)
  qed
qed

text \<open>
  A sweep that completes removes exactly the expired orders: every book keeps its live
  orders in their order and loses the others, the count it returns is the number of orders
  removed over all books, and exactly their rows become \<open>EXPIRED\<close>.
\<close>

theorem sweep_removes_exactly_expired:
  assumes "engine_wf e" and "sweepExpired now t e = (Inr n, e')"
  shows "(\<forall>k. book_at e' k = map_option (\<lambda>b. b\<lparr>bids := filter (\<lambda>l. \<not> expired_at t l) (bids b),
       asks := filter (\<lambda>l. \<not> expired_at t l) (asks b)\<rparr>) (book_at e k)) \<and>
    n = int (length (due_in t e (listMarkets e))) \<and>
    (\<forall>h. order_of (eng_db e') h = map_option
      (\<lambda>r. if h \<in> lv_id ` set (due_in t e (listMarkets e)) then r\<lparr>o_status := O_EXPIRED\<rparr> else r)
      (order_of (eng_db e) h))"
proof -
  have "distinct (listMarkets e)" using assms(1) by (simp add: engine_wf_def engine_ok_def listMarkets_def)
  note sw = sweep_books_effect [OF this assms(2) [unfolded sweepExpired_def]]
  have "book_at e k = None" if "k \<notin> set (listMarkets e)" for k
    using that by (simp add: listMarkets_def map_of_eq_None_iff)
  with sw show ?thesis by (auto simp: expire_row_def alive_book_def [abs_def])
qed

definition sample_expiring :: engine where
  "sample_expiring = snd (attachRaw ''m1'' ''0x1'' (JObj [(''expiry'', JNum (Fin 100))]) (JStr ''0x'') sample_engine)"

theorem sweep_removes_exactly_expired_witness:
  "\<exists>e'. sweepExpired 3 200 sample_expiring = (Inr 1, e') \<and>
    1 = int (length (due_in 200 sample_expiring (listMarkets sample_expiring)))"
proof -
  have wf: "engine_wf sample_expiring" unfolding sample_expiring_def by (rule engine_wf_attachRaw [OF sample_wf])
  have "(case fst (sweepExpired 3 200 sample_expiring) of Inr n \<Rightarrow> n = 1 | Inl _ \<Rightarrow> False)" by code_simp
  then obtain e' where e': "sweepExpired 3 200 sample_expiring = (Inr 1, e')"
    by (cases "sweepExpired 3 200 sample_expiring") (auto split: sum.splits)
  from sweep_removes_exactly_expired [OF wf e'] e' show ?thesis by blast
qed

end
