(* ===== verification/Rehydrate.thy ===== *)
theory Rehydrate
  imports Coherence
begin

text \<open>
  The start of the process: \<open>apps/api/src/matching/lob-rehydrator.service.ts\<close> refills the empty
  in-memory books from the \<open>Order\<close> table, and \<open>expiry-sweeper.service.ts\<close> starts to sweep them. What it restores is the price-time order of the placed
  rows, by price and then by placement, whatever the clock reads while it runs.
\<close>

section \<open>The rehydrator\<close>

definition tuple_json :: "sig_tuple \<Rightarrow> jval" where
  "tuple_json t = JObj [(''signatureType'', JNum (num (signatureType t))), (''v'', JNum (num (sig_v t))),
     (''r'', JStr (sig_r t)), (''s'', JStr (sig_s t))]"

definition rehydrator_enabled :: "penv \<Rightarrow> bool" where
  "rehydrator_enabled pe \<longleftrightarrow> env_or_nullish pe ''DEV_REHYDRATE_LOB'' ''1'' = ''1''"

text \<open>\<open>clock n\<close> is \<open>Date.now()\<close> at the \<open>n\<close>-th injection.\<close>

definition rehydrate_row ::
  "(nat \<Rightarrow> int) \<Rightarrow> string \<Rightarrow> placed_core \<Rightarrow> nat \<Rightarrow> engine \<Rightarrow> unit result \<times> engine" where
  "rehydrate_row clock symbol r injected e =
    (let e1 = hydrateLevel (clock injected) symbol
           \<lparr>hy_hash = pc_hash r, hy_maker = pc_maker r, hy_side = pc_side r,
            hy_priceTicks = pc_priceTicks r, hy_sizeBase = pc_remaining r, hy_expirySec = None\<rparr> e
     in case findRawOrderByHash (eng_db e1) (pc_hash r) of
          (Some order, sig) \<Rightarrow>
            if truthy order
            then (case attachRaw symbol (pc_hash r) order
                         (case sig of Some t \<Rightarrow> tuple_json t | None \<Rightarrow> JStr ''0x'') e1 of
                    (Inl x, e2) \<Rightarrow> (Inl x, e2)
                  | (Inr _, e2) \<Rightarrow> (Inr (), e2))
            else (Inr (), e1)
        | (None, sig) \<Rightarrow> (Inr (), e1))"

fun rehydrate_rows ::
  "(nat \<Rightarrow> int) \<Rightarrow> string \<Rightarrow> placed_core list \<Rightarrow> nat \<Rightarrow> engine \<Rightarrow> nat result \<times> engine" where
  "rehydrate_rows clock symbol [] injected e = (Inr injected, e)"
| "rehydrate_rows clock symbol (r # rs) injected e =
    (case rehydrate_row clock symbol r injected e of
       (Inl x, e1) \<Rightarrow> (Inl x, e1)
     | (Inr _, e1) \<Rightarrow> rehydrate_rows clock symbol rs (injected + 1) e1)"

fun rehydrate_markets ::
  "(nat \<Rightarrow> int) \<Rightarrow> market_basic list \<Rightarrow> nat \<Rightarrow> engine \<Rightarrow> nat result \<times> engine" where
  "rehydrate_markets clock [] injected e = (Inr injected, e)"
| "rehydrate_markets clock (m # ms) injected e =
    (case rehydrate_rows clock (mb_symbol m) (listPlacedBySymbol (eng_db e) (mb_symbol m)) injected e of
       (Inl x, e1) \<Rightarrow> (Inl x, e1)
     | (Inr n, e1) \<Rightarrow> rehydrate_markets clock ms n e1)"

definition rehydrate :: "penv \<Rightarrow> (nat \<Rightarrow> int) \<Rightarrow> engine \<Rightarrow> unit result \<times> engine" where
  "rehydrate pe clock e =
    (if \<not> rehydrator_enabled pe then (Inr (), e)
     else case rehydrate_markets clock (listMarketsBasic (eng_db e)) 0 e of
       (Inl x, e1) \<Rightarrow> (Inl x, e1)
     | (Inr _, e1) \<Rightarrow> (Inr (), e1))"

text \<open>\<open>expiry-sweeper.service.ts\<close>: whether, and how often, \<open>sweepExpired\<close> runs.\<close>

definition lob_sweeper_enabled :: "penv \<Rightarrow> bool" where
  "lob_sweeper_enabled pe \<longleftrightarrow> env_or_nullish pe ''DEV_EXPIRY_SWEEPER'' ''1'' = ''1''"

definition lob_sweeper_interval :: "penv \<Rightarrow> rat" where
  "lob_sweeper_interval pe =
    (case pe ''EXPIRY_SWEEPER_INTERVAL_MS'' of
       None \<Rightarrow> 5000
     | Some s \<Rightarrow> (case str_to_num s of Fin q \<Rightarrow> if 500 < q then q else 5000 | _ \<Rightarrow> 5000))"

section \<open>Appending to a sorted list\<close>

fun insert_after :: "('a \<Rightarrow> 'a \<Rightarrow> int) \<Rightarrow> 'a \<Rightarrow> 'a list \<Rightarrow> 'a list" where
  "insert_after c x [] = [x]"
| "insert_after c x (y # ys) = (if c y x \<le> 0 then y # insert_after c x ys else x # y # ys)"

context comparator begin

lemma insert_cmp_after: "insert_cmp c a (insert_after c x ys) = insert_after c x (insert_cmp c a ys)"
  by (induction ys) (auto dest: trans, (meson total trans)+)

lemma js_sort_snoc: "js_sort c (xs @ [x]) = insert_after c x (js_sort c xs)"
  by (induction xs) (simp_all add: insert_cmp_after)

lemma sort_snoc_sorted: "js_sort c xs = xs \<Longrightarrow> js_sort c (xs @ [x]) = insert_after c x xs"
  by (simp add: js_sort_snoc)

end

lemma map_insert_after:
  "\<forall>y \<in> set ys. c y x \<le> 0 \<longleftrightarrow> p (f y) (f x) \<le> 0 \<Longrightarrow>
    map f (insert_after c x ys) = insert_after p (f x) (map f ys)"
  by (induction ys) auto


section \<open>What is shown of a level\<close>

text \<open>Hash, maker, price and size, then the raw order with its signature, and the expiry.\<close>

type_synonym shown_level = "string \<times> string \<times> int \<times> int \<times> (jval \<times> jval) option \<times> rat option"

definition shown :: "level \<Rightarrow> shown_level" where
  "shown l = (lv_id l, lv_maker l, lv_priceTicks l, lv_sizeBase l,
     (case (lv_rawOrder l, lv_rawSig l) of (Some r, Some g) \<Rightarrow> Some (r, g) | _ \<Rightarrow> None), lv_expirySec l)"

text \<open>The payload a row stores, with its signature as a tuple, and the expiry of its order.\<close>

definition stored_raw :: "db \<Rightarrow> string \<Rightarrow> (jval \<times> jval) option" where
  "stored_raw d h =
    (case order_of d h of
       None \<Rightarrow> None
     | Some r \<Rightarrow>
         if truthy (o_zeroEx r)
         then Some (normalizeOrderForJson (o_zeroEx r),
           (case packedBytesToTuple (Some (o_signature r)) of Some t \<Rightarrow> tuple_json t | None \<Rightarrow> JStr ''0x''))
         else None)"

definition stored_expiry :: "db \<Rightarrow> string \<Rightarrow> rat option" where
  "stored_expiry d h =
    (case order_of d h of
       None \<Rightarrow> None
     | Some r \<Rightarrow> if truthy (o_zeroEx r) then raw_expiry (o_zeroEx r) else None)"

definition row_shown :: "db \<Rightarrow> placed_core \<Rightarrow> shown_level" where
  "row_shown d r = (pc_hash r, to_lower (pc_maker r), pc_priceTicks r, pc_remaining r,
     stored_raw d (pc_hash r), stored_expiry d (pc_hash r))"

text \<open>A row before its payload is attached, and the attaching.\<close>

definition bare_row :: "placed_core \<Rightarrow> shown_level" where
  "bare_row r = (pc_hash r, to_lower (pc_maker r), pc_priceTicks r, pc_remaining r, None, None)"

fun attached :: "string \<Rightarrow> jval \<Rightarrow> jval \<Rightarrow> shown_level \<Rightarrow> shown_level" where
  "attached h ord sig (i, m, p, s, r, x) =
    (if i = h then (i, m, p, s, Some (normalizeOrderForJson ord, sig),
        (case raw_expiry ord of None \<Rightarrow> x | Some q \<Rightarrow> Some q))
     else (i, m, p, s, r, x))"

lemma shown_attach: "shown (if lv_id l = h then attach_to ord sig l else l) = attached h ord sig (shown l)"
  by (simp add: shown_def attach_to_def Let_def split: option.split)

lemma row_attached:
  assumes "findRawOrderByHash d (pc_hash r) = (Some ord, sig)" and "truthy ord"
  shows "attached (pc_hash r) ord (case sig of Some t \<Rightarrow> tuple_json t | None \<Rightarrow> JStr ''0x'') (bare_row r) = row_shown d r"
  using assms by (auto simp: findRawOrderByHash_def Let_def bare_row_def row_shown_def stored_raw_def stored_expiry_def
      split: option.splits if_splits)

lemma row_bare:
  assumes "\<nexists>ord sig. findRawOrderByHash d (pc_hash r) = (Some ord, sig) \<and> truthy ord"
  shows "row_shown d r = bare_row r"
proof (cases "order_of d (pc_hash r)")
  case (Some q)
  then have "\<not> truthy (o_zeroEx q)"
    using assms by (cases "o_zeroEx q") (auto simp: findRawOrderByHash_def Let_def)
  with Some show ?thesis by (simp add: row_shown_def bare_row_def stored_raw_def stored_expiry_def)
qed (simp add: row_shown_def bare_row_def stored_raw_def stored_expiry_def)

fun price_cmp :: "side \<Rightarrow> shown_level \<Rightarrow> shown_level \<Rightarrow> int" where
  "price_cmp BUY (_, _, p, _) (_, _, q, _) = q - p"
| "price_cmp SELL (_, _, p, _) (_, _, q, _) = p - q"

interpretation price: comparator "price_cmp sd" for sd
  by unfold_locales (cases sd; auto)+

text \<open>The rows of one side, best price first and otherwise in the order given.\<close>

definition best_first :: "db \<Rightarrow> side \<Rightarrow> placed_core list \<Rightarrow> shown_level list" where
  "best_first d sd rs = js_sort (price_cmp sd) (map (row_shown d) (filter (\<lambda>r. pc_side r = sd) rs))"

definition side_levels :: "engine \<Rightarrow> string \<Rightarrow> side \<Rightarrow> level list" where
  "side_levels e k sd = (case book_at e k of None \<Rightarrow> [] | Some b \<Rightarrow> (case sd of BUY \<Rightarrow> bids b | SELL \<Rightarrow> asks b))"

lemma best_first_snoc:
  "best_first d sd (rs @ [r]) = (if pc_side r = sd then insert_after (price_cmp sd) (row_shown d r) (best_first d sd rs)
     else best_first d sd rs)"
  by (simp add: best_first_def price.js_sort_snoc)

definition restored :: "string \<Rightarrow> placed_core list \<Rightarrow> int \<Rightarrow> engine \<Rightarrow> bool" where
  "restored k rs t e \<longleftrightarrow> engine_wf e \<and> (\<forall>sd. map shown (side_levels e k sd) = best_first (eng_db e) sd rs) \<and>
    (\<forall>sd. \<forall>l \<in> set (side_levels e k sd). lv_ts l \<le> t)"

lemma side_levels_ok: "engine_wf e \<Longrightarrow> side_ok sd (side_levels e k sd)"
  by (cases sd) (auto simp: side_levels_def engine_wf_def book_ok_def dest: engine_okD split: option.split)

lemma sort_side_snoc:
  assumes "side_ok sd ls" and "\<forall>l \<in> set ls. lv_ts l \<le> lv_ts o'"
  shows "map shown (js_sort (cmp_side sd) (ls @ [o'])) = insert_after (price_cmp sd) (shown o') (map shown ls)"
proof -
  have "sorted_wrt (\<lambda>x y. cmp_side sd x y \<le> 0) ls" using assms(1) by (simp add: side_ok_def)
  then have "js_sort (cmp_side sd) (ls @ [o']) = insert_after (cmp_side sd) o' ls"
    by (cases sd) (simp_all add: bid_order.js_sort_sorted ask_order.js_sort_sorted
        bid_order.sort_snoc_sorted ask_order.sort_snoc_sorted)
  then show ?thesis
    using assms(2) map_insert_after [of ls "cmp_side sd" o' "price_cmp sd" shown]
    by (cases sd) (auto simp: shown_def cmp_bids_def cmp_asks_def)
qed

lemma without_fresh: "\<forall>l \<in> set ls. to_lower (lv_id l) \<noteq> t \<Longrightarrow> without_id t ls = ls"
  by (simp add: without_id_def same_id_def filter_id_conv)

lemma hydrate_side:
  assumes "\<forall>sd. \<forall>l \<in> set (side_levels e k sd). to_lower (lv_id l) \<noteq> to_lower (hy_hash p)" and "hy_expirySec p = None"
  shows "side_levels (hydrateLevel now k p e) k sd =
    (if hy_side p = sd then js_sort (cmp_side sd) (side_levels e k sd @
      [\<lparr>lv_id = hy_hash p, lv_maker = to_lower (hy_maker p), lv_side = hy_side p,
        lv_priceTicks = hy_priceTicks p, lv_sizeBase = hy_sizeBase p, lv_ts = now,
        lv_rawOrder = None, lv_rawSig = None, lv_expirySec = None\<rparr>]) else side_levels e k sd)"
proof -
  obtain b e1 where b: "ensure_book k e = (b, e1)" by fastforce
  have s: "side_levels e k sd = (case sd of BUY \<Rightarrow> bids b | SELL \<Rightarrow> asks b)" for sd
    using b by (auto simp: side_levels_def ensure_book_def empty_book_def split: option.splits side.split)
  have "drop_id (to_lower (hy_hash p)) b = b"
    using assms(1) [THEN spec [of _ BUY]] assms(1) [THEN spec [of _ SELL]]
    by (simp add: s drop_id_def without_fresh)
  then show ?thesis
    unfolding s by (cases "hy_side p"; cases sd)
      (simp_all add: hydrateLevel_def b side_levels_def add_level_def sortBids_def sortAsks_def assms(2))
qed

lemma hydrate_frame:
  "eng_db (hydrateLevel now k p e) = eng_db e" "j \<noteq> k \<Longrightarrow> book_at (hydrateLevel now k p e) j = book_at e j"
  by (auto simp: hydrateLevel_def ensure_book_def Let_def split: option.splits prod.splits)

lemma update_first_id:
  "distinct (map lv_id ls) \<Longrightarrow>
    update_first (\<lambda>l. lv_id l = h) f ls = map (\<lambda>l. if lv_id l = h then f l else l) ls"
proof (induction ls)
  case (Cons l ls)
  have "map (\<lambda>l. if lv_id l = h then f l else l) ls = ls" if "h \<notin> set (map lv_id ls)"
    using that by (intro map_idI) auto
  with Cons show ?case by auto
qed simp

lemma mutate_sides:
  assumes "distinct (map lv_id (bids b @ asks b))"
  shows "bids (mutate_level (\<lambda>l. lv_id l = h) f b) = map (\<lambda>l. if lv_id l = h then f l else l) (bids b)"
    "asks (mutate_level (\<lambda>l. lv_id l = h) f b) = map (\<lambda>l. if lv_id l = h then f l else l) (asks b)"
proof -
  have d: "distinct (map lv_id (bids b))" "distinct (map lv_id (asks b))" using assms by simp_all
  have none: "map (\<lambda>l. if lv_id l = h then f l else l) ls = ls" if "h \<notin> lv_id ` set ls" for ls
    using that by (intro map_idI) auto
  have "find (\<lambda>l. lv_id l = h) (bids b) = None \<longleftrightarrow> h \<notin> lv_id ` set (bids b)" by (auto simp: find_None_iff)
  moreover have "h \<notin> lv_id ` set (asks b)" if "h \<in> lv_id ` set (bids b)" using that assms by auto
  ultimately show "bids (mutate_level (\<lambda>l. lv_id l = h) f b) = map (\<lambda>l. if lv_id l = h then f l else l) (bids b)"
    "asks (mutate_level (\<lambda>l. lv_id l = h) f b) = map (\<lambda>l. if lv_id l = h then f l else l) (asks b)"
    using none by (auto simp: mutate_level_def update_first_id d)
qed

lemma attach_side:
  assumes wf: "engine_wf e" and "getTradingContext (eng_db e) k = Inr ctx" and "ctx_symbol ctx = k"
    and "attachRaw k h ord sig e = (r, e')"
  shows "isl r = False" "eng_db e' = eng_db e"
    "side_levels e' k sd = map (\<lambda>l. if lv_id l = h then attach_to ord sig l else l) (side_levels e k sd)"
    "j \<noteq> k \<Longrightarrow> book_at e' j = book_at e j"
proof -
  have ids: "distinct (map lv_id (bids b @ asks b))" if "book_at e k = Some b" for b
    by (rule book_ids [OF engine_okD [OF engine_wf_ok [OF wf] that]])
  have none: "map (\<lambda>l. if lv_id l = h then attach_to ord sig l else l) (side_levels e k sd) = side_levels e k sd"
    if "book_at e k = Some b" "find_level (\<lambda>l. lv_id l = h) b = None" for b sd
    using that by (intro map_idI) (auto simp: find_level_def side_levels_def find_None_iff split: option.splits side.splits)
  show "isl r = False" "eng_db e' = eng_db e" "j \<noteq> k \<Longrightarrow> book_at e' j = book_at e j"
    using assms by (auto simp: attachRaw_def split: option.splits if_splits)
  show "side_levels e' k sd = map (\<lambda>l. if lv_id l = h then attach_to ord sig l else l) (side_levels e k sd)"
  proof (cases "book_at e k")
    case None
    with assms show ?thesis by (auto simp: attachRaw_def side_levels_def)
  next
    case (Some b)
    show ?thesis
    proof (cases "find_level (\<lambda>l. lv_id l = h) b")
      case None
      with assms Some none [OF Some None] show ?thesis by (auto simp: attachRaw_def)
    next
      case (Some l)
      with assms \<open>book_at e k = Some b\<close>
      have "e' = set_book k (mutate_level (\<lambda>l. lv_id l = h) (attach_to ord sig) b) e" by (auto simp: attachRaw_def)
      then show ?thesis
        using \<open>book_at e k = Some b\<close> mutate_sides [OF ids [OF \<open>book_at e k = Some b\<close>]]
        by (simp add: side_levels_def split: side.split)
    qed
  qed
qed

lemma attached_order: "price_cmp sd (attached h ord sig x) (attached h ord sig y) = price_cmp sd x y"
  by (cases sd; cases x; cases y) auto

lemma attached_other: "fst x \<noteq> h \<Longrightarrow> attached h ord sig x = x"
  by (cases x) auto

lemma best_first_ids: "fst ` set (best_first d sd rs) \<subseteq> pc_hash ` set rs"
  by (auto simp: best_first_def row_shown_def)

lemma rehydrate_row_restores:
  assumes rs: "restored k rs t e" and t: "t \<le> clock n" and pos: "0 \<le> pc_remaining r"
    and new: "to_lower (pc_hash r) \<notin> to_lower ` pc_hash ` set rs"
    and ctx: "getTradingContext (eng_db e) k = Inr ctx" "ctx_symbol ctx = k"
  shows "\<exists>e'. rehydrate_row clock k r n e = (Inr (), e') \<and> restored k (rs @ [r]) (clock n) e' \<and>
    eng_db e' = eng_db e \<and> (\<forall>j. j \<noteq> k \<longrightarrow> book_at e' j = book_at e j)"
proof -
  let ?p = "\<lparr>hy_hash = pc_hash r, hy_maker = pc_maker r, hy_side = pc_side r,
     hy_priceTicks = pc_priceTicks r, hy_sizeBase = pc_remaining r, hy_expirySec = None\<rparr>" and ?d = "eng_db e"
  define e1 where "e1 = hydrateLevel (clock n) k ?p e"
  have ids: "lv_id l \<in> pc_hash ` set rs" if l: "l \<in> set (side_levels e k sd)" for l sd
  proof -
    have "shown l \<in> set (best_first ?d sd rs)"
      using rs l unfolding restored_def by (metis image_eqI set_map)
    then have "fst (shown l) \<in> pc_hash ` set rs" using best_first_ids by fast
    then show ?thesis by (simp add: shown_def)
  qed
  have fresh: "\<forall>sd. \<forall>l \<in> set (side_levels e k sd). to_lower (lv_id l) \<noteq> to_lower (hy_hash ?p)"
  proof (intro allI ballI)
    fix sd l assume "l \<in> set (side_levels e k sd)"
    from imageI [OF ids [OF this], of to_lower] new
    show "to_lower (lv_id l) \<noteq> to_lower (hy_hash ?p)" by auto
  qed
  note side = hydrate_side [OF fresh, of "clock n", folded e1_def, simplified]
  have wf: "engine_wf e1"
    using rs pos by (auto simp: e1_def restored_def intro: engine_wf_hydrate)
  have ts: "\<forall>sd. \<forall>l \<in> set (side_levels e k sd). lv_ts l \<le> clock n" using rs t by (fastforce simp: restored_def)
  have d: "eng_db e1 = ?d" and o': "\<And>j. j \<noteq> k \<Longrightarrow> book_at e1 j = book_at e j"
    by (simp_all add: e1_def hydrate_frame)
  have sh1: "map shown (side_levels e1 k sd) =
      (if pc_side r = sd then insert_after (price_cmp sd) (bare_row r) (best_first ?d sd rs) else best_first ?d sd rs)" for sd
  proof -
    have "side_ok sd (side_levels e k sd)" using rs by (auto simp: restored_def intro: side_levels_ok)
    then show ?thesis
      using rs ts by (simp add: side sort_side_snoc restored_def bare_row_def shown_def)
  qed
  have ts1: "\<forall>l \<in> set (side_levels e1 k sd). lv_ts l \<le> clock n" for sd
    using ts by (cases sd) (simp_all add: side)
  show ?thesis
  proof (cases "\<exists>order sig. findRawOrderByHash ?d (pc_hash r) = (Some order, sig) \<and> truthy order")
    case True
    then obtain order sig where raw: "findRawOrderByHash ?d (pc_hash r) = (Some order, sig)" "truthy order" by blast
    let ?s = "case sig of Some t \<Rightarrow> tuple_json t | None \<Rightarrow> JStr ''0x''"
    obtain q e2 where a: "attachRaw k (pc_hash r) order ?s e1 = (q, e2)" by fastforce
    note at = attach_side [OF wf ctx(1) [folded d] ctx(2) a]
    have other: "map (attached (pc_hash r) order ?s) (best_first ?d sd rs) = best_first ?d sd rs" for sd
    proof (intro map_idI attached_other)
      fix x assume "x \<in> set (best_first ?d sd rs)"
      then have "fst x \<in> pc_hash ` set rs" using best_first_ids by fast
      then show "fst x \<noteq> pc_hash r" using new by auto
    qed
    have ins: "map (attached (pc_hash r) order ?s) (insert_after (price_cmp sd) (bare_row r) (best_first ?d sd rs)) =
        insert_after (price_cmp sd) (row_shown ?d r) (best_first ?d sd rs)" for sd
    proof -
      have "\<forall>y \<in> set (best_first ?d sd rs). price_cmp sd y (bare_row r) \<le> 0 \<longleftrightarrow>
          price_cmp sd (attached (pc_hash r) order ?s y) (attached (pc_hash r) order ?s (bare_row r)) \<le> 0"
        by (simp add: attached_order)
      note map_insert_after [of "best_first ?d sd rs" "price_cmp sd" "bare_row r" "price_cmp sd"
          "attached (pc_hash r) order ?s", OF this]
      then show ?thesis
        by (simp only: other row_attached [OF raw])
    qed
    have "restored k (rs @ [r]) (clock n) e2"
      unfolding restored_def
    proof (intro conjI allI)
      show "engine_wf e2" using engine_wf_attachRaw [OF wf] a by (metis snd_conv)
      fix sd
      have "map shown (side_levels e2 k sd) = map (attached (pc_hash r) order ?s) (map shown (side_levels e1 k sd))"
        by (simp add: at(3) shown_attach)
      then show "map shown (side_levels e2 k sd) = best_first (eng_db e2) sd (rs @ [r])"
        by (simp add: sh1 at(2) d best_first_snoc other ins)
      show "\<forall>l \<in> set (side_levels e2 k sd). lv_ts l \<le> clock n"
        using ts1 by (auto simp: at(3) attach_to_def Let_def split: option.split)
    qed
    with at raw d o' a show ?thesis
      by (cases q) (auto simp: rehydrate_row_def Let_def e1_def)
  next
    case False
    then have "rehydrate_row clock k r n e = (Inr (), e1)"
      by (auto simp: rehydrate_row_def e1_def [symmetric] d Let_def split: prod.split option.split)
    moreover have "restored k (rs @ [r]) (clock n) e1"
      using wf ts1 row_bare [OF False] by (simp add: restored_def sh1 d best_first_snoc)
    ultimately show ?thesis using d o' by blast
  qed
qed


section \<open>A restart\<close>

lemma rehydrate_rows_restores:
  assumes "restored k done t e" and "t \<le> clock n" and "mono clock" and "\<forall>r \<in> set rs. 0 \<le> pc_remaining r"
    and "distinct (map (\<lambda>r. to_lower (pc_hash r)) (done @ rs))"
    and "getTradingContext (eng_db e) k = Inr ctx" "ctx_symbol ctx = k"
  shows "\<exists>e' n' t'. rehydrate_rows clock k rs n e = (Inr n', e') \<and> restored k (done @ rs) t' e' \<and>
    eng_db e' = eng_db e \<and> (\<forall>j. j \<noteq> k \<longrightarrow> book_at e' j = book_at e j)"
  using assms
proof (induction rs arbitrary: "done" t n e)
  case Nil
  then show ?case by auto
next
  case (Cons r rs)
  have "to_lower (pc_hash r) \<notin> to_lower ` pc_hash ` set done" using Cons.prems(5) by auto
  from rehydrate_row_restores [where clock = clock and n = n, OF Cons.prems(1,2) _ this Cons.prems(6,7)] Cons.prems(4)
  obtain e1 where e1: "rehydrate_row clock k r n e = (Inr (), e1)" "restored k (done @ [r]) (clock n) e1"
    "eng_db e1 = eng_db e" "\<forall>j. j \<noteq> k \<longrightarrow> book_at e1 j = book_at e j" by auto
  have "clock n \<le> clock (n + 1)" using Cons.prems(3) by (simp add: monoD)
  from Cons.IH [OF e1(2) this Cons.prems(3)] Cons.prems(4-7) e1(3)
  obtain e2 n2 t2 where "rehydrate_rows clock k rs (n + 1) e1 = (Inr n2, e2)" "restored k ((done @ [r]) @ rs) t2 e2"
    "eng_db e2 = eng_db e1" "\<forall>j. j \<noteq> k \<longrightarrow> book_at e2 j = book_at e1 j" by auto
  with e1 have "rehydrate_rows clock k (r # rs) n e = (Inr n2, e2) \<and> restored k (done @ r # rs) t2 e2 \<and>
      eng_db e2 = eng_db e \<and> (\<forall>j. j \<noteq> k \<longrightarrow> book_at e2 j = book_at e j)" by simp
  then show ?case by blast
qed

lemma ctx_of_its_market:
  assumes "markets_ok d" and "m \<in> set (d_markets d)"
  shows "\<exists>ctx. getTradingContext d (mk_symbol m) = Inr ctx \<and> ctx_symbol ctx = mk_symbol m"
proof -
  obtain ctx where ctx: "getTradingContext d (mk_symbol m) = Inr ctx"
    using assms(2) by (cases "find (\<lambda>q. mk_id q = mk_symbol m \<or> mk_symbol q = mk_symbol m) (d_markets d)")
      (auto simp: getTradingContext_def find_None_iff)
  obtain q where "q \<in> set (d_markets d)" "mk_id q = mk_symbol m \<or> mk_symbol q = mk_symbol m" "mk_symbol q = ctx_symbol ctx"
    using ctx_of_market [OF ctx] by blast
  then have "ctx_symbol ctx = mk_symbol m" using assms unfolding markets_ok_def by metis
  with ctx show ?thesis by blast
qed

lemma placed_core_nonneg: "r \<in> set (listPlacedBySymbol d k) \<Longrightarrow> 0 \<le> pc_remaining r"
  by (auto simp: listPlacedBySymbol_def core_of_def dest!: in_set_takeD)

lemma rehydrate_markets_restores:
  assumes "mono clock" and "\<forall>k. distinct (map (\<lambda>r. to_lower (pc_hash r)) (listPlacedBySymbol d k))" and "markets_ok d"
    and "engine_wf e" "eng_db e = d" "distinct (map mb_symbol ms)"
    and "\<forall>m \<in> set ms. book_at e (mb_symbol m) = None \<and> (\<exists>q \<in> set (d_markets d). mk_symbol q = mb_symbol m)"
  shows "\<exists>e' n'. rehydrate_markets clock ms n e = (Inr n', e') \<and> engine_wf e' \<and> eng_db e' = d \<and>
    (\<forall>m \<in> set ms. \<forall>sd. map shown (side_levels e' (mb_symbol m) sd) = best_first d sd (listPlacedBySymbol d (mb_symbol m))) \<and>
    (\<forall>j. j \<notin> mb_symbol ` set ms \<longrightarrow> book_at e' j = book_at e j)"
  using assms(4-)
proof (induction ms arbitrary: n e)
  case (Cons m ms)
  let ?k = "mb_symbol m"
  obtain ctx where ctx: "getTradingContext d ?k = Inr ctx" "ctx_symbol ctx = ?k"
    using Cons.prems(4) ctx_of_its_market [OF assms(3)] by (metis list.set_intros(1))
  have i: "restored ?k [] (clock n) e"
    using Cons.prems by (simp add: restored_def side_levels_def best_first_def)
  have nn: "\<forall>r \<in> set (listPlacedBySymbol d ?k). 0 \<le> pc_remaining r" using placed_core_nonneg by blast
  have di: "distinct (map (\<lambda>r. to_lower (pc_hash r)) ([] @ listPlacedBySymbol d ?k))" using assms(2) by simp
  have c: "getTradingContext (eng_db e) ?k = Inr ctx" by (simp only: Cons.prems(2) ctx(1))
  obtain e1 n1 t1 where e1: "rehydrate_rows clock ?k (listPlacedBySymbol d ?k) n e = (Inr n1, e1)"
    "restored ?k ([] @ listPlacedBySymbol d ?k) t1 e1" "eng_db e1 = eng_db e" "\<forall>j. j \<noteq> ?k \<longrightarrow> book_at e1 j = book_at e j"
    using rehydrate_rows_restores [where clock = clock and n = n, OF i order_refl assms(1) nn di c ctx(2)] by (elim exE conjE)
  note e1 = e1(1) e1(2) [unfolded append_Nil] e1(3) [unfolded Cons.prems(2)] e1(4)
  have "\<forall>q \<in> set ms. book_at e1 (mb_symbol q) = None \<and> (\<exists>p \<in> set (d_markets d). mk_symbol p = mb_symbol q)"
  proof
    fix q assume q: "q \<in> set ms"
    then have "mb_symbol q \<in> set (map mb_symbol ms)" by simp
    with Cons.prems(3) have "mb_symbol q \<noteq> ?k" by auto
    with q Cons.prems(4) e1(4) show "book_at e1 (mb_symbol q) = None \<and> (\<exists>p \<in> set (d_markets d). mk_symbol p = mb_symbol q)"
      by simp
  qed
  note IH = Cons.IH [where n = n1 and e = e1, OF _ e1(3) _ this]
  have "engine_wf e1" "distinct (map mb_symbol ms)" using e1(2) Cons.prems(3) by (simp_all add: restored_def)
  from IH [OF this] obtain e2 n2 where e2: "rehydrate_markets clock ms n1 e1 = (Inr n2, e2)" "engine_wf e2" "eng_db e2 = d"
    "\<forall>m \<in> set ms. \<forall>sd. map shown (side_levels e2 (mb_symbol m) sd) = best_first d sd (listPlacedBySymbol d (mb_symbol m))"
    "\<forall>j. j \<notin> mb_symbol ` set ms \<longrightarrow> book_at e2 j = book_at e1 j"
    by (elim exE conjE)
  have "mb_symbol m \<notin> mb_symbol ` set ms" using Cons.prems(3) by simp
  then have k: "side_levels e2 ?k sd = side_levels e1 ?k sd" for sd
    using e2(5) by (simp add: side_levels_def)
  have "rehydrate_markets clock (m # ms) n e = (Inr n2, e2)" using e1(1) e2(1) by (simp add: Cons.prems(2))
  moreover have "\<forall>q \<in> set (m # ms). \<forall>sd. map shown (side_levels e2 (mb_symbol q) sd) =
      best_first d sd (listPlacedBySymbol d (mb_symbol q))"
    using e1(2,3) e2(4) k by (simp add: restored_def)
  moreover have "\<forall>j. j \<notin> mb_symbol ` set (m # ms) \<longrightarrow> book_at e2 j = book_at e j"
    using e1(4) e2(5) by simp
  ultimately show ?case using e2(2,3) by blast
qed auto

lemma placed_distinct:
  assumes "distinct (map (\<lambda>r. to_lower (o_hash r)) (d_orders d))"
  shows "distinct (map (\<lambda>r. to_lower (pc_hash r)) (listPlacedBySymbol d k))"
proof -
  have "map (\<lambda>r. to_lower (pc_hash r)) (listPlacedBySymbol d k) = take 10000 (map (\<lambda>r. to_lower (o_hash r))
      (js_sort cmp_placedAt (filter (\<lambda>r. o_status r = O_PLACED \<and> symbol_of d (o_marketId r) = k \<and> 0 < o_remaining r) (d_orders d))))"
    by (simp add: listPlacedBySymbol_def take_map comp_def core_of_def)
  then show ?thesis using assms by (simp add: distinct_map_filter)
qed

text \<open>
  C26. A restart restores the book. When the process starts with empty books and the rehydrator is
  on, it ends without an error, leaves the database as it is, and each market shows on each side
  exactly its orders stored as \<open>PLACED\<close> with something left (the ten thousand first placed), with the
  maker, price and remaining size of the row, the raw order and signature the row stores and the
  expiry of that order, best price first and, at one price, in the order in
  which they were placed, however little the clock advances meanwhile. (An order stored as
  \<open>PARTIALLY_FILLED\<close> does not come back.) No two of the rows may have hashes that differ in letter
  case only.
\<close>

theorem restart_restores_book:
  assumes "rehydrator_enabled pe" and "mono clock" and "markets_ok (eng_db e)" and "eng_books e = []"
    and "distinct (map (\<lambda>r. to_lower (o_hash r)) (d_orders (eng_db e)))"
  shows "\<exists>e'. rehydrate pe clock e = (Inr (), e') \<and> engine_wf e' \<and> eng_db e' = eng_db e \<and>
    (\<forall>m \<in> set (d_markets (eng_db e)). \<forall>sd. map shown (side_levels e' (mk_symbol m) sd) =
      best_first (eng_db e) sd (listPlacedBySymbol (eng_db e) (mk_symbol m)))"
proof -
  let ?ms = "listMarketsBasic (eng_db e)"
  have wf: "engine_wf e" using assms(3,4) by (simp add: engine_wf_def engine_ok_def)
  have u: "\<forall>k. distinct (map (\<lambda>r. to_lower (pc_hash r)) (listPlacedBySymbol (eng_db e) k))"
    using placed_distinct [OF assms(5)] by blast
  have d: "distinct (map mb_symbol ?ms)"
    using assms(3) by (simp add: listMarketsBasic_def markets_ok_def comp_def)
  have n: "\<forall>m \<in> set ?ms. book_at e (mb_symbol m) = None \<and> (\<exists>q \<in> set (d_markets (eng_db e)). mk_symbol q = mb_symbol m)"
    using assms(4) by (auto simp: listMarketsBasic_def)
  obtain e' n' where e': "rehydrate_markets clock ?ms 0 e = (Inr n', e')" "engine_wf e'" "eng_db e' = eng_db e"
    "\<forall>m \<in> set ?ms. \<forall>sd. map shown (side_levels e' (mb_symbol m) sd) = best_first (eng_db e) sd (listPlacedBySymbol (eng_db e) (mb_symbol m))"
    using rehydrate_markets_restores [where n = 0, OF assms(2) u assms(3) wf refl d n] by (elim exE conjE)
  have "rehydrate pe clock e = (Inr (), e')" using assms(1) e'(1) by (simp add: rehydrate_def)
  moreover have "\<forall>m \<in> set (d_markets (eng_db e)). \<forall>sd. map shown (side_levels e' (mk_symbol m) sd) =
      best_first (eng_db e) sd (listPlacedBySymbol (eng_db e) (mk_symbol m))"
    using e'(4) by (simp add: listMarketsBasic_def)
  ultimately show ?thesis using e'(2,3) by blast
qed

text \<open>Three orders of one market, two of them at one price, read back in one millisecond.\<close>

definition restart_engine :: engine where
  "restart_engine = (snd (place 3 (sample_ask ''0x3'' 5 20) sample_engine))\<lparr>eng_books := []\<rparr>"

theorem restart_restores_book_witness:
  "map shown (side_levels (snd (rehydrate (\<lambda>k. None) (\<lambda>n. 9) restart_engine)) ''B-Q'' SELL) =
    best_first (eng_db restart_engine) SELL (listPlacedBySymbol (eng_db restart_engine) ''B-Q'')"
proof -
  have c: "rehydrator_enabled (\<lambda>k. None)" "markets_ok (eng_db restart_engine)" "eng_books restart_engine = []"
    "distinct (map (\<lambda>r. to_lower (o_hash r)) (d_orders (eng_db restart_engine)))"
    by code_simp+
  have t: "mono (\<lambda>n::nat. 9::int)" by (simp add: mono_def)
  have "map mk_symbol (d_markets (eng_db restart_engine)) = [''B-Q'']" by code_simp
  then obtain m where m: "m \<in> set (d_markets (eng_db restart_engine))" "mk_symbol m = ''B-Q''" by auto
  obtain e' where e': "rehydrate (\<lambda>k. None) (\<lambda>n. 9) restart_engine = (Inr (), e')"
    "\<forall>m \<in> set (d_markets (eng_db restart_engine)). \<forall>sd. map shown (side_levels e' (mk_symbol m) sd) =
      best_first (eng_db restart_engine) sd (listPlacedBySymbol (eng_db restart_engine) (mk_symbol m))"
    using restart_restores_book [OF c(1) t c(2-4)] by (elim exE conjE)
  from e'(2) [THEN bspec, OF m(1)] show ?thesis by (simp add: m(2) e'(1))
qed

end
