(* ===== verification/IntentDto.thy ===== *)
theory IntentDto
  imports Execution
begin

text \<open>
  \<open>apps/api/src/sea/dto/intent.dto.ts\<close> and \<open>apps/api/src/sea/notional.util.ts\<close>: the shape of a
  structured intent, the request bodies of the SEA endpoints with the refinements their schemas
  state, the cross-field invariants, the expiry of an intent, and the quote notional of a list
  of fills.

  A body is the value the schema library hands to the handler; a schema is the predicate its
  refinements (regular expressions, literals, bounds) state of that value.
\<close>

section \<open>Structured intents\<close>

datatype trigger_type = PRICE_BELOW | PRICE_ABOVE

datatype ref_kind = BEST_BID | BEST_ASK | MID

datatype tif = IOC | FOK

record trigger =
  tr_type :: trigger_type
  tr_reference :: ref_kind
  tr_priceTicks :: string

datatype expiry = SecsFromActivation int | AtUnix int

text \<open>The discriminated union on \<open>type\<close>; the constant fields are determined by the variant.\<close>

datatype structured_intent =
    CL_Intent (si_marketId: string) (si_side: side) (si_sizeBase: string)
      (si_limitPriceTicks: string) (si_trigger: trigger) (si_expiry: expiry)
  | CMR_Intent (si_marketId: string) (si_side: side) (si_sizeBase: string)
      (si_tif: "tif option") (si_trigger: trigger) (si_expiry: expiry)

record create_body =
  cb_owner :: string
  cb_intent :: structured_intent
  cb_zeroExOrder :: jval
  cb_signature :: "string option"
  cb_preSignedOrderHash :: "string option"
  cb_ownerAuth :: "string option"
  cb_rawText :: "string option"
  cb_parserMeta :: jval

record lock_body =
  lb_signature :: string
  lb_lockNonce :: string
  lb_walletLockUntilAt :: string

record executing_body =
  xb_txHash :: string
  xb_executionToken :: string

section \<open>Schemas\<close>

text \<open>\<open>/^0x[a-fA-F0-9]{40}$/\<close>, \<open>/^0x[a-fA-F0-9]+$/\<close> and \<open>/^[0-9]+$/\<close>.\<close>

definition HEX_ADDR_RE :: "string \<Rightarrow> bool" where
  "HEX_ADDR_RE s \<longleftrightarrow> is_0x_hex 40 s"

definition HEX_BYTES_RE :: "string \<Rightarrow> bool" where
  "HEX_BYTES_RE s \<longleftrightarrow> starts_with s ''0x'' \<and> all_digits 16 (drop 2 s)"

definition NON_NEG_INT_RE :: "string \<Rightarrow> bool" where
  "NON_NEG_INT_RE s \<longleftrightarrow> all_digits 10 s"

definition triggerSchema :: "trigger \<Rightarrow> bool" where
  "triggerSchema t \<longleftrightarrow> tr_reference t \<noteq> MID \<and> NON_NEG_INT_RE (tr_priceTicks t)"

fun expirySchema :: "expiry \<Rightarrow> bool" where
  "expirySchema (SecsFromActivation n) = (60 \<le> n \<and> n \<le> 60 * 60 * 24 * 30)"
| "expirySchema (AtUnix n) = (0 < n)"

fun structuredIntentSchema :: "structured_intent \<Rightarrow> bool" where
  "structuredIntentSchema (CL_Intent m sd sz lp t ex) =
    (m \<noteq> [] \<and> NON_NEG_INT_RE sz \<and> NON_NEG_INT_RE lp \<and> triggerSchema t \<and> expirySchema ex)"
| "structuredIntentSchema (CMR_Intent m sd sz tf t ex) =
    (m \<noteq> [] \<and> NON_NEG_INT_RE sz \<and> triggerSchema t \<and> expirySchema ex)"

text \<open>A refinement of an optional field.\<close>

definition opt_all :: "('a \<Rightarrow> bool) \<Rightarrow> 'a option \<Rightarrow> bool" where
  "opt_all P v \<longleftrightarrow> (case v of None \<Rightarrow> True | Some x \<Rightarrow> P x)"

definition createIntentBodySchema :: "create_body \<Rightarrow> bool" where
  "createIntentBodySchema b \<longleftrightarrow>
    HEX_ADDR_RE (cb_owner b) \<and> structuredIntentSchema (cb_intent b) \<and>
    opt_all HEX_BYTES_RE (cb_signature b) \<and>
    opt_all HEX_BYTES_RE (cb_preSignedOrderHash b) \<and>
    opt_all HEX_BYTES_RE (cb_ownerAuth b) \<and>
    opt_all (\<lambda>s. length s \<le> 2000) (cb_rawText b)"

definition walletLockBodySchema :: "lock_body \<Rightarrow> bool" where
  "walletLockBodySchema b \<longleftrightarrow>
    HEX_BYTES_RE (lb_signature b) \<and> lb_lockNonce b \<noteq> [] \<and> lb_walletLockUntilAt b \<noteq> []"

definition executingBodySchema :: "executing_body \<Rightarrow> bool" where
  "executingBodySchema b \<longleftrightarrow> is_0x_hex 64 (xb_txHash b) \<and> xb_executionToken b \<noteq> []"

section \<open>Cross-field invariants\<close>

text \<open>A violation is its path; each path goes with one fixed message.\<close>

fun is_CL :: "structured_intent \<Rightarrow> bool" where
  "is_CL (CL_Intent m sd sz lp t ex) = True"
| "is_CL (CMR_Intent m sd sz tf t ex) = False"

definition validateStructuredIntentInvariants :: "structured_intent \<Rightarrow> string list" where
  "validateStructuredIntentInvariants si =
    (if si_side si = BUY \<and> tr_reference (si_trigger si) \<noteq> BEST_ASK
     then [''structuredIntent.trigger.reference''] else []) @
    (if si_side si = SELL \<and> tr_reference (si_trigger si) \<noteq> BEST_BID
     then [''structuredIntent.trigger.reference''] else [])"

text \<open>\<open>!s\<close> of an optional string: absent or empty.\<close>

definition blank :: "string option \<Rightarrow> bool" where
  "blank s \<longleftrightarrow> s = None \<or> s = Some []"

fun is_atUnix :: "expiry \<Rightarrow> bool" where
  "is_atUnix (AtUnix n) = True"
| "is_atUnix (SecsFromActivation n) = False"

definition validateCreateIntentBodyInvariants :: "create_body \<Rightarrow> string list" where
  "validateCreateIntentBodyInvariants body =
    (let si = cb_intent body in
     validateStructuredIntentInvariants si @
     (if is_CL si then
        (if jnullish (cb_zeroExOrder body) then [''zeroExOrder''] else []) @
        (if blank (cb_signature body) then [''signature''] else []) @
        (if blank (cb_preSignedOrderHash body) then [''preSignedOrderHash''] else []) @
        (if cb_ownerAuth body \<noteq> None then [''ownerAuth''] else [])
      else
        (if \<not> jnullish (cb_zeroExOrder body) then [''zeroExOrder''] else []) @
        (if \<not> blank (cb_signature body) then [''signature''] else []) @
        (if \<not> blank (cb_preSignedOrderHash body) then [''preSignedOrderHash''] else []) @
        (if blank (cb_ownerAuth body) then [''ownerAuth.signature''] else []) @
        (if \<not> is_atUnix (si_expiry si) then [''structuredIntent.expiry''] else [])))"

section \<open>Expiry\<close>

text \<open>
  \<open>new Date(ms)\<close> is the Invalid Date, here \<open>None\<close>, beyond 8.64e15 milliseconds from the epoch.
\<close>

definition js_Date :: "int \<Rightarrow> int option" where
  "js_Date ms = (if \<bar>ms\<bar> \<le> 8640000000000000 then Some ms else None)"

definition computeExpiresAt :: "expiry \<Rightarrow> int \<Rightarrow> int option" where
  "computeExpiresAt e now =
    (case e of AtUnix n \<Rightarrow> js_Date (n * 1000) | SecsFromActivation n \<Rightarrow> js_Date (now + n * 1000))"

section \<open>Quote notional\<close>

text \<open>A fill of the quote carries its price and size as decimal strings.\<close>

definition fill_notional :: "int \<Rightarrow> int \<Rightarrow> quote_fill \<Rightarrow> int result" where
  "fill_notional priceTickQ denom f =
    bind_res (str_to_bigint (qf_priceTicks f)) (\<lambda>px.
    bind_res (str_to_bigint (qf_sizeBase f)) (\<lambda>sz.
      big_div (px * priceTickQ * sz) denom))"

fun sum_notional :: "int \<Rightarrow> int \<Rightarrow> int \<Rightarrow> quote_fill list \<Rightarrow> int" where
  "sum_notional priceTickQ denom tot [] = tot"
| "sum_notional priceTickQ denom tot (f # fs) =
    sum_notional priceTickQ denom
      (case fill_notional priceTickQ denom f of Inl e \<Rightarrow> tot | Inr q \<Rightarrow> tot + q) fs"

definition computeQuoteNotionalQ :: "quote_fill list \<Rightarrow> int \<Rightarrow> nat \<Rightarrow> int" where
  "computeQuoteNotionalQ fills priceTickQ baseDecimals =
    (if priceTickQ \<le> 0 then 0 else sum_notional priceTickQ (10 ^ baseDecimals) 0 fills)"


lemma sum_notional_append:
  "sum_notional tick den tot (fs @ gs) = sum_notional tick den (sum_notional tick den tot fs) gs"
  by (induction fs arbitrary: tot) auto

lemma fill_notional_level:
  "0 < den \<Longrightarrow> fill_notional tick den
    \<lparr>qf_hash = h, qf_maker = m, qf_priceTicks = big_to_string px, qf_sizeBase = big_to_string sz,
     qf_rawOrder = ro, qf_rawSig = rs\<rparr> = Inr (tdiv (px * tick * sz) den)"
  by (simp add: fill_notional_def big_div_def)

text \<open>The plan's running total is the notional of the fills planned so far.\<close>

lemma quote_loop_notional:
  assumes "quote_loop fb ctx sd lmt ls acc = Inr r"
    and "sp_totalQ acc = sum_notional (ctx_priceTickQ ctx) (10 ^ ctx_baseDecimals ctx) 0 (sp_fills acc)"
  shows "sp_totalQ r = sum_notional (ctx_priceTickQ ctx) (10 ^ ctx_baseDecimals ctx) 0 (sp_fills r)"
  using assms
proof (induction fb ctx sd lmt ls acc rule: quote_loop.induct)
  case (1 fb ctx sd lmt acc)
  then show ?case by simp
next
  case (2 fb ctx sd lmt l ls acc)
  show ?case
  proof (cases "sp_remaining acc \<le> 0 \<or> beyond_limit sd lmt (lv_priceTicks l)")
    case True
    then show ?thesis using "2.prems" by (auto split: if_splits)
  next
    case False
    then show ?thesis
      using "2.prems"
      by (auto simp: Let_def sum_notional_append fill_notional_level notional_of_def intro: "2.IH")
  qed
qed

text \<open>
  The notional gate of the intent handlers measures what the matcher charges: applied to the
  fills of a quote, \<open>computeQuoteNotionalQ\<close> is exactly the quote's own \<open>takerAmount\<close>, for every
  side, size, limit and fee setting, although it re-parses the decimal strings and skips a fill it
  cannot read.
\<close>

theorem notional_matches_quote:
  assumes "quote fb m sd sz lmt e = (Inr q, e')" and "getTradingContext (eng_db e) m = Inr ctx"
    and "0 < ctx_priceTickQ ctx"
  shows "q_takerAmount q =
    big_to_string (computeQuoteNotionalQ (q_fills q) (ctx_priceTickQ ctx) (ctx_baseDecimals ctx))"
proof -
  obtain b e1 r where "quote_loop fb ctx sd lmt (against sd b)
      \<lparr>sp_remaining = sz, sp_totalQ = 0, sp_feeTotal = 0, sp_fills = []\<rparr> = Inr r"
    and q: "q_takerAmount q = big_to_string (sp_totalQ r)" "q_fills q = sp_fills r"
    using assms(1,2) by (cases "ensure_book (ctx_symbol ctx) e") (auto simp: quote_def)
  from quote_loop_notional [OF this(1)] q assms(3) show ?thesis
    by (simp add: computeQuoteNotionalQ_def)
qed

theorem notional_matches_quote_witness:
  "\<exists>q e'. quote NaN ''B-Q'' BUY 50 None sample_engine = (Inr q, e') \<and>
    q_takerAmount q = big_to_string (computeQuoteNotionalQ (q_fills q) 10 2) \<and>
    q_takerAmount q = ''29''"
proof -
  have s: "(case getTradingContext (eng_db sample_engine) ''B-Q'' of
       Inr c \<Rightarrow> Some (ctx_priceTickQ c, ctx_baseDecimals c) | Inl _ \<Rightarrow> None) = Some (10, 2)"
    "(case fst (quote NaN ''B-Q'' BUY 50 None sample_engine) of
       Inr q \<Rightarrow> Some (q_takerAmount q) | Inl _ \<Rightarrow> None) = Some ''29''"
    by code_simp+
  obtain c where c: "getTradingContext (eng_db sample_engine) ''B-Q'' = Inr c"
    "ctx_priceTickQ c = 10" "ctx_baseDecimals c = 2"
    using s(1) by (auto split: sum.splits)
  obtain q e' where q: "quote NaN ''B-Q'' BUY 50 None sample_engine = (Inr q, e')" "q_takerAmount q = ''29''"
    using s(2) by (cases "quote NaN ''B-Q'' BUY 50 None sample_engine") (auto split: sum.splits)
  show ?thesis using notional_matches_quote [OF q(1) c(1)] c(2,3) q by auto
qed

end
