(* ===== verification/IntentStore.thy ===== *)
theory IntentStore
  imports IntentDto
begin

text \<open>
  \<open>apps/api/src/sea/intent.repository.ts\<close> and \<open>apps/api/src/sea/intent-event.repository.ts\<close>
  over the \<open>Intent\<close> and \<open>IntentEvent\<close> models of \<open>apps/api/prisma/schema.prisma\<close>. A table is
  the list of its rows in insertion order; every \<open>updateMany\<close> is one atomic \<open>update_many\<close>, and
  the column \<open>updatedAt\<close> is set by each of them. \<open>now\<close> is the clock in milliseconds.

  \<open>Decimal.toString\<close> belongs to a library; it is the argument \<open>ts\<close>.
\<close>

section \<open>Rows\<close>

datatype intent_type = T_CONDITIONAL_LIMIT | T_CONDITIONAL_MARKET_READY

datatype intent_status =
    S_DRAFT | S_ACTIVE | S_TRIGGERED | S_READY | S_EXECUTING | S_PLACED
  | S_EXECUTED | S_CANCELLED | S_EXPIRED | S_REJECTED | S_FAILED

datatype exec_authority = USER_CONFIRMATION_REQUIRED | PRE_SIGNED_LIMIT_ORDER | DELEGATED_FUTURE

datatype intent_event_type =
    IE_CREATED | IE_ACTIVATED | IE_TRIGGERED | IE_READY | IE_EXECUTING | IE_PLACED
  | IE_EXECUTED | IE_CANCELLED | IE_EXPIRED | IE_REJECTED | IE_FAILED | IE_PROGRESS

record intent_row =
  it_id :: string
  it_owner :: string
  it_marketId :: string
  it_type :: intent_type
  it_status :: intent_status
  it_side :: side
  it_sizeBase :: int
  it_limitPriceTicks :: "int option"
  it_tif :: "tif option"
  it_triggerType :: trigger_type
  it_triggerReference :: ref_kind
  it_triggerPriceTicks :: int
  it_executionAuthority :: exec_authority
  it_preSignedOrderHash :: "string option"
  it_preSignedOrder :: jval
  it_preSignedSignature :: "bytes option"
  it_linkedOrderHash :: "string option"
  it_preparedQuote :: jval
  it_preparedQuoteAt :: "int option"
  it_cooldownUntilAt :: "int option"
  it_linkedTxHash :: "string option"
  it_walletLockUntilAt :: "int option"
  it_rawText :: "string option"
  it_parsedJson :: structured_intent
  it_parserMeta :: jval
  it_expiresAt :: int
  it_lastEvaluatedAt :: "int option"
  it_failureReason :: "string option"
  it_createdAt :: int
  it_updatedAt :: int

type_synonym intents = "intent_row list"

record intent_event =
  ie_intentId :: string
  ie_type :: intent_event_type
  ie_payload :: jval

definition intent_at :: "intents \<Rightarrow> string \<Rightarrow> intent_row option" where
  "intent_at t i = row_by it_id i t"

definition update_many ::
  "int \<Rightarrow> (intent_row \<Rightarrow> bool) \<Rightarrow> (intent_row \<Rightarrow> intent_row) \<Rightarrow> intents \<Rightarrow> bool \<times> intents" where
  "update_many now P f t =
    (0 < count_where P t, update_where P (\<lambda>r. (f r)\<lparr>it_updatedAt := now\<rparr>) t)"

section \<open>The serialised row\<close>

record intent_dto =
  dt_id :: string
  dt_owner :: string
  dt_marketId :: string
  dt_type :: intent_type
  dt_status :: intent_status
  dt_side :: side
  dt_sizeBase :: string
  dt_limitPriceTicks :: "string option"
  dt_tif :: "tif option"
  dt_triggerType :: trigger_type
  dt_triggerReference :: ref_kind
  dt_triggerPriceTicks :: string
  dt_executionAuthority :: exec_authority
  dt_preSignedOrderHash :: "string option"
  dt_linkedOrderHash :: "string option"
  dt_preparedQuote :: jval
  dt_preparedQuoteAt :: "string option"
  dt_cooldownUntilAt :: "string option"
  dt_linkedTxHash :: "string option"
  dt_walletLockUntilAt :: "string option"
  dt_expiresAt :: string
  dt_failureReason :: "string option"
  dt_rawText :: "string option"
  dt_createdAt :: string
  dt_updatedAt :: string

definition serializeIntent :: "(int \<Rightarrow> string) \<Rightarrow> intent_row \<Rightarrow> intent_dto" where
  "serializeIntent ts r =
    \<lparr>dt_id = it_id r, dt_owner = it_owner r, dt_marketId = it_marketId r, dt_type = it_type r,
     dt_status = it_status r, dt_side = it_side r, dt_sizeBase = ts (it_sizeBase r),
     dt_limitPriceTicks = map_option big_to_string (it_limitPriceTicks r), dt_tif = it_tif r,
     dt_triggerType = it_triggerType r, dt_triggerReference = it_triggerReference r,
     dt_triggerPriceTicks = big_to_string (it_triggerPriceTicks r),
     dt_executionAuthority = it_executionAuthority r,
     dt_preSignedOrderHash = it_preSignedOrderHash r, dt_linkedOrderHash = it_linkedOrderHash r,
     dt_preparedQuote = (if jnullish (it_preparedQuote r) then JNull else it_preparedQuote r),
     dt_preparedQuoteAt = map_option toISOString (it_preparedQuoteAt r),
     dt_cooldownUntilAt = map_option toISOString (it_cooldownUntilAt r),
     dt_linkedTxHash = it_linkedTxHash r,
     dt_walletLockUntilAt = map_option toISOString (it_walletLockUntilAt r),
     dt_expiresAt = toISOString (it_expiresAt r), dt_failureReason = it_failureReason r,
     dt_rawText = it_rawText r, dt_createdAt = toISOString (it_createdAt r),
     dt_updatedAt = toISOString (it_updatedAt r)\<rparr>"

section \<open>Create and read\<close>

record create_input =
  ci_owner :: string
  ci_marketId :: string
  ci_intent :: structured_intent
  ci_preSignedOrder :: jval
  ci_signatureHex :: "string option"
  ci_preSignedOrderHash :: "string option"
  ci_rawText :: "string option"
  ci_parserMeta :: jval
  ci_expiresAt :: "int option"
  ci_initialStatus :: intent_status

definition resolveMarketId :: "db \<Rightarrow> string \<Rightarrow> string option" where
  "resolveMarketId d idOrSymbol =
    map_option mk_id (find (\<lambda>m. mk_id m = idOrSymbol \<or> mk_symbol m = idOrSymbol) (d_markets d))"

text \<open>\<open>Buffer.from(s, 'hex')\<close> decodes byte pairs up to the first that is not hexadecimal.\<close>

fun buffer_from_hex :: "string \<Rightarrow> bytes" where
  "buffer_from_hex (a # b # s) =
    (case (digit_val 16 a, digit_val 16 b) of
       (Some x, Some y) \<Rightarrow> word_of_int (16 * x + y) # buffer_from_hex s
     | _ \<Rightarrow> [])"
| "buffer_from_hex _ = []"

definition signature_bytes :: "string option \<Rightarrow> bytes option" where
  "signature_bytes sig =
    (case sig of
       None \<Rightarrow> None
     | Some s \<Rightarrow> if starts_with s ''0x'' then Some (buffer_from_hex (drop 2 s)) else None)"

definition new_intent_row :: "int \<Rightarrow> string \<Rightarrow> create_input \<Rightarrow> int \<Rightarrow> intent_row" where
  "new_intent_row now i inp expiresAt =
    (let si = ci_intent inp in
     \<lparr>it_id = i, it_owner = ci_owner inp, it_marketId = ci_marketId inp,
      it_type = (if is_CL si then T_CONDITIONAL_LIMIT else T_CONDITIONAL_MARKET_READY),
      it_status = ci_initialStatus inp, it_side = si_side si,
      it_sizeBase = digits_val 10 (si_sizeBase si),
      it_limitPriceTicks = (if is_CL si then Some (digits_val 10 (si_limitPriceTicks si)) else None),
      it_tif = (if is_CL si then None
                else Some (case si_tif si of Some x \<Rightarrow> x | None \<Rightarrow> IOC)),
      it_triggerType = tr_type (si_trigger si), it_triggerReference = tr_reference (si_trigger si),
      it_triggerPriceTicks = digits_val 10 (tr_priceTicks (si_trigger si)),
      it_executionAuthority =
        (if is_CL si then PRE_SIGNED_LIMIT_ORDER else USER_CONFIRMATION_REQUIRED),
      it_preSignedOrderHash =
        (if blank (ci_preSignedOrderHash inp) then None
         else map_option to_lower (ci_preSignedOrderHash inp)),
      it_preSignedOrder = (if jnullish (ci_preSignedOrder inp) then JNull else ci_preSignedOrder inp),
      it_preSignedSignature = signature_bytes (ci_signatureHex inp),
      it_linkedOrderHash = None, it_preparedQuote = JNull, it_preparedQuoteAt = None,
      it_cooldownUntilAt = None, it_linkedTxHash = None, it_walletLockUntilAt = None,
      it_rawText = ci_rawText inp, it_parsedJson = si,
      it_parserMeta = (if jnullish (ci_parserMeta inp) then JNull else ci_parserMeta inp),
      it_expiresAt = expiresAt, it_lastEvaluatedAt = None, it_failureReason = None,
      it_createdAt = now, it_updatedAt = now\<rparr>)"

definition intent_row_fits :: "db \<Rightarrow> intent_row \<Rightarrow> bool" where
  "intent_row_fits d r \<longleftrightarrow>
    market_by_id d (it_marketId r) \<noteq> None \<and> length (it_owner r) \<le> 42 \<and>
    fits_dec78 (it_sizeBase r) \<and> opt_all fits_int64 (it_limitPriceTicks r) \<and>
    fits_int64 (it_triggerPriceTicks r)"

text \<open>
  The new row's \<open>cuid()\<close> is the argument \<open>i\<close>. An Invalid Date, a missing market and a value that
  does not fit its column are Prisma errors; nothing is written.
\<close>

definition create_intent ::
  "(int \<Rightarrow> string) \<Rightarrow> int \<Rightarrow> string \<Rightarrow> create_input \<Rightarrow> db \<Rightarrow> intents \<Rightarrow> intent_dto result \<times> intents" where
  "create_intent ts now i inp d t =
    (case ci_expiresAt inp of
       None \<Rightarrow> (Inl (PlainError ''PrismaClientValidationError''), t)
     | Some ex \<Rightarrow>
         (let r = new_intent_row now i inp ex in
          if intent_at t i = None \<and> intent_row_fits d r
          then (Inr (serializeIntent ts r), t @ [r])
          else (Inl (PlainError ''PrismaClientKnownRequestError''), t)))"

text \<open>\<open>orderBy\<close> on a column, and on a nullable one, where PostgreSQL puts nulls last.\<close>

definition asc_by :: "('a \<Rightarrow> int) \<Rightarrow> 'a \<Rightarrow> 'a \<Rightarrow> int" where
  "asc_by f a b = f a - f b"

definition asc_nulls_last :: "('a \<Rightarrow> int option) \<Rightarrow> 'a \<Rightarrow> 'a \<Rightarrow> int" where
  "asc_nulls_last f a b =
    (case (f a, f b) of
       (Some x, Some y) \<Rightarrow> x - y | (Some x, None) \<Rightarrow> - 1 | (None, Some y) \<Rightarrow> 1 | (None, None) \<Rightarrow> 0)"

text \<open>\<open>take: Math.max(1, Math.min(limit, 500))\<close>; a fractional value is a Prisma validation error.\<close>

definition take_rows :: "rat \<Rightarrow> 'a list \<Rightarrow> 'a list result" where
  "take_rows k rows =
    (let n = max 1 (min k 500) in
     if is_int_rat n then Inr (take (nat \<lfloor>n\<rfloor>) rows) else Inl (PlainError ''PrismaClientValidationError''))"

definition listByOwner_repo ::
  "(int \<Rightarrow> string) \<Rightarrow> string \<Rightarrow> intent_status list option \<Rightarrow> nat \<Rightarrow> intents \<Rightarrow> intent_dto list" where
  "listByOwner_repo ts owner statuses n t =
    map (serializeIntent ts)
      (take n (js_sort (asc_by (\<lambda>r. - it_createdAt r))
        (filter (\<lambda>r. it_owner r = owner \<and>
          (case statuses of
             None \<Rightarrow> True | Some ss \<Rightarrow> ss = [] \<or> it_status r \<in> set ss)) t)))"

definition findById :: "(int \<Rightarrow> string) \<Rightarrow> intents \<Rightarrow> string \<Rightarrow> intent_dto option" where
  "findById ts t i = map_option (serializeIntent ts) (intent_at t i)"

definition orderHashExists :: "db \<Rightarrow> string \<Rightarrow> bool" where
  "orderHashExists d h \<longleftrightarrow> order_of d h \<noteq> None"

record cmr_candidate =
  cc_id :: string
  cc_owner :: string
  cc_marketId :: string
  cc_marketSymbol :: string
  cc_side :: side
  cc_sizeBase :: int
  cc_triggerType :: trigger_type
  cc_triggerReference :: ref_kind
  cc_triggerPriceTicks :: int
  cc_expiresAt :: int

definition cmr_due :: "int \<Rightarrow> intent_row \<Rightarrow> bool" where
  "cmr_due now r \<longleftrightarrow>
    it_type r = T_CONDITIONAL_MARKET_READY \<and> it_status r = S_ACTIVE \<and> it_expiresAt r > now \<and>
    (case it_cooldownUntilAt r of None \<Rightarrow> True | Some c \<Rightarrow> c \<le> now)"

definition cmr_candidate_of :: "(int \<Rightarrow> string) \<Rightarrow> db \<Rightarrow> intent_row \<Rightarrow> cmr_candidate result" where
  "cmr_candidate_of ts d r =
    bind_res (str_to_bigint (ts (it_sizeBase r))) (\<lambda>sz. Inr
      \<lparr>cc_id = it_id r, cc_owner = it_owner r, cc_marketId = it_marketId r,
       cc_marketSymbol = symbol_of d (it_marketId r), cc_side = it_side r, cc_sizeBase = sz,
       cc_triggerType = it_triggerType r, cc_triggerReference = it_triggerReference r,
       cc_triggerPriceTicks = it_triggerPriceTicks r, cc_expiresAt = it_expiresAt r\<rparr>)"

definition findActiveCMRIntents ::
  "(int \<Rightarrow> string) \<Rightarrow> int \<Rightarrow> rat \<Rightarrow> db \<Rightarrow> intents \<Rightarrow> cmr_candidate list result" where
  "findActiveCMRIntents ts now k d t =
    bind_res (take_rows k (js_sort (asc_by it_createdAt) (filter (cmr_due now) t)))
      (map_res (cmr_candidate_of ts d))"

record ready_row =
  rr_id :: string
  rr_owner :: string
  rr_marketId :: string
  rr_preparedQuote :: jval
  rr_preparedQuoteAt :: "int option"
  rr_walletLockUntilAt :: "int option"
  rr_expiresAt :: int

definition findReadyCMRIntents :: "rat \<Rightarrow> intents \<Rightarrow> ready_row list result" where
  "findReadyCMRIntents k t =
    bind_res (take_rows k (js_sort (asc_nulls_last it_preparedQuoteAt)
        (filter (\<lambda>r. it_type r = T_CONDITIONAL_MARKET_READY \<and> it_status r = S_READY) t)))
      (\<lambda>rows. Inr (map (\<lambda>r.
        \<lparr>rr_id = it_id r, rr_owner = it_owner r, rr_marketId = it_marketId r,
         rr_preparedQuote = it_preparedQuote r, rr_preparedQuoteAt = it_preparedQuoteAt r,
         rr_walletLockUntilAt = it_walletLockUntilAt r, rr_expiresAt = it_expiresAt r\<rparr>) rows))"

record cl_candidate =
  cl_id :: string
  cl_owner :: string
  cl_marketId :: string
  cl_marketSymbol :: string
  cl_side :: side
  cl_sizeBase :: int
  cl_limitPriceTicks :: int
  cl_triggerType :: trigger_type
  cl_triggerReference :: ref_kind
  cl_triggerPriceTicks :: int
  cl_preSignedOrder :: jval
  cl_preSignedSignature :: "bytes option"
  cl_preSignedOrderHash :: "string option"
  cl_expiresAt :: int

definition cl_due :: "int \<Rightarrow> intent_row \<Rightarrow> bool" where
  "cl_due now r \<longleftrightarrow>
    it_type r = T_CONDITIONAL_LIMIT \<and> it_status r = S_ACTIVE \<and> it_expiresAt r > now"

definition cl_candidate_of :: "(int \<Rightarrow> string) \<Rightarrow> db \<Rightarrow> intent_row \<Rightarrow> cl_candidate result" where
  "cl_candidate_of ts d r =
    bind_res (str_to_bigint (ts (it_sizeBase r))) (\<lambda>sz. Inr
      \<lparr>cl_id = it_id r, cl_owner = it_owner r, cl_marketId = it_marketId r,
       cl_marketSymbol = symbol_of d (it_marketId r), cl_side = it_side r, cl_sizeBase = sz,
       cl_limitPriceTicks = (case it_limitPriceTicks r of Some p \<Rightarrow> p | None \<Rightarrow> 0),
       cl_triggerType = it_triggerType r, cl_triggerReference = it_triggerReference r,
       cl_triggerPriceTicks = it_triggerPriceTicks r, cl_preSignedOrder = it_preSignedOrder r,
       cl_preSignedSignature = it_preSignedSignature r,
       cl_preSignedOrderHash = it_preSignedOrderHash r, cl_expiresAt = it_expiresAt r\<rparr>)"

definition findActiveCLIntents ::
  "(int \<Rightarrow> string) \<Rightarrow> int \<Rightarrow> rat \<Rightarrow> db \<Rightarrow> intents \<Rightarrow> cl_candidate list result" where
  "findActiveCLIntents ts now k d t =
    bind_res (take_rows k (js_sort (asc_by it_createdAt) (filter (cl_due now) t)))
      (map_res (cl_candidate_of ts d))"

definition live_statuses :: "intent_status list" where
  "live_statuses = [S_DRAFT, S_ACTIVE, S_TRIGGERED, S_READY, S_EXECUTING]"

definition findActiveByPreSignedHash :: "string \<Rightarrow> intents \<Rightarrow> string option" where
  "findActiveByPreSignedHash h t =
    (case js_sort (asc_by it_createdAt)
        (filter (\<lambda>r. it_preSignedOrderHash r = Some h \<and> it_status r \<in> set live_statuses) t) of
       [] \<Rightarrow> None | r # _ \<Rightarrow> Some (it_id r))"

definition findExecutingByTxHashForOwner :: "string \<Rightarrow> string \<Rightarrow> string \<Rightarrow> intents \<Rightarrow> string option" where
  "findExecutingByTxHashForOwner txHash marketId owner t =
    map_option it_id (find (\<lambda>r. it_status r = S_EXECUTING \<and>
      it_linkedTxHash r = Some (to_lower txHash) \<and> it_marketId r = marketId \<and>
      it_owner r = to_lower owner) t)"


section \<open>Status writes\<close>

text \<open>
  \<open>updateMany(\{ where: \{ id, status, ... \}, data \})\<close> on one row: the shape of every transition
  below. \<open>G\<close> is the \<open>where\<close> clause beside the id.
\<close>

definition update_intent ::
  "int \<Rightarrow> string \<Rightarrow> (intent_row \<Rightarrow> bool) \<Rightarrow> (intent_row \<Rightarrow> intent_row) \<Rightarrow> intents \<Rightarrow> bool \<times> intents" where
  "update_intent now i G f = update_many now (\<lambda>r. it_id r = i \<and> G r) f"

definition lockWalletFromReady :: "int \<Rightarrow> string \<Rightarrow> int \<Rightarrow> int \<Rightarrow> intents \<Rightarrow> bool \<times> intents" where
  "lockWalletFromReady now i preparedQuoteAt walletLockUntilAt =
    update_intent now i (\<lambda>r. it_status r = S_READY \<and> it_preparedQuoteAt r = Some preparedQuoteAt)
      (\<lambda>r. r\<lparr>it_walletLockUntilAt := Some walletLockUntilAt\<rparr>)"

definition markExecutedFromReady :: "int \<Rightarrow> string \<Rightarrow> string \<Rightarrow> intents \<Rightarrow> bool \<times> intents" where
  "markExecutedFromReady now i linkedTxHash =
    update_intent now i (\<lambda>r. it_status r = S_READY)
      (\<lambda>r. r\<lparr>it_status := S_EXECUTED, it_linkedTxHash := Some (to_lower linkedTxHash),
             it_lastEvaluatedAt := Some now\<rparr>)"

definition markFailedFromReady :: "int \<Rightarrow> string \<Rightarrow> string \<Rightarrow> string \<Rightarrow> intents \<Rightarrow> bool \<times> intents" where
  "markFailedFromReady now i linkedTxHash reason =
    update_intent now i (\<lambda>r. it_status r = S_READY)
      (\<lambda>r. r\<lparr>it_status := S_FAILED, it_linkedTxHash := Some (to_lower linkedTxHash),
             it_failureReason := Some reason, it_lastEvaluatedAt := Some now\<rparr>)"

definition markExecuting_repo :: "int \<Rightarrow> string \<Rightarrow> string \<Rightarrow> intents \<Rightarrow> bool \<times> intents" where
  "markExecuting_repo now i linkedTxHash =
    update_intent now i (\<lambda>r. it_status r = S_READY)
      (\<lambda>r. r\<lparr>it_status := S_EXECUTING, it_linkedTxHash := Some (to_lower linkedTxHash),
             it_lastEvaluatedAt := Some now\<rparr>)"

definition markExecuted :: "int \<Rightarrow> string \<Rightarrow> string \<Rightarrow> intents \<Rightarrow> bool \<times> intents" where
  "markExecuted now i linkedTxHash =
    update_intent now i
      (\<lambda>r. it_status r = S_EXECUTING \<and> it_linkedTxHash r = Some (to_lower linkedTxHash))
      (\<lambda>r. r\<lparr>it_status := S_EXECUTED, it_lastEvaluatedAt := Some now\<rparr>)"

definition markFailedFromExecuting ::
  "int \<Rightarrow> string \<Rightarrow> string \<Rightarrow> string \<Rightarrow> intents \<Rightarrow> bool \<times> intents" where
  "markFailedFromExecuting now i linkedTxHash reason =
    update_intent now i
      (\<lambda>r. it_status r = S_EXECUTING \<and> it_linkedTxHash r = Some (to_lower linkedTxHash))
      (\<lambda>r. r\<lparr>it_status := S_FAILED, it_failureReason := Some reason, it_lastEvaluatedAt := Some now\<rparr>)"

definition markReady :: "int \<Rightarrow> string \<Rightarrow> jval \<Rightarrow> int \<Rightarrow> intents \<Rightarrow> bool \<times> intents" where
  "markReady now i preparedQuote preparedAt =
    update_intent now i (\<lambda>r. it_status r = S_ACTIVE)
      (\<lambda>r. r\<lparr>it_status := S_READY, it_preparedQuote := preparedQuote,
             it_preparedQuoteAt := Some preparedAt, it_lastEvaluatedAt := Some preparedAt\<rparr>)"

definition rearmFromReady :: "int \<Rightarrow> string \<Rightarrow> int \<Rightarrow> intents \<Rightarrow> bool \<times> intents" where
  "rearmFromReady now i cooldownUntilAt =
    update_intent now i (\<lambda>r. it_status r = S_READY)
      (\<lambda>r. r\<lparr>it_status := S_ACTIVE, it_preparedQuote := JNull, it_preparedQuoteAt := None,
             it_cooldownUntilAt := Some cooldownUntilAt, it_lastEvaluatedAt := Some now\<rparr>)"

definition markExpiredFromReady :: "int \<Rightarrow> string \<Rightarrow> string \<Rightarrow> intents \<Rightarrow> bool \<times> intents" where
  "markExpiredFromReady now i reason =
    update_intent now i (\<lambda>r. it_status r = S_READY)
      (\<lambda>r. r\<lparr>it_status := S_EXPIRED, it_preparedQuote := JNull, it_preparedQuoteAt := None,
             it_failureReason := Some reason, it_lastEvaluatedAt := Some now\<rparr>)"

definition setActiveCooldown :: "int \<Rightarrow> string \<Rightarrow> int \<Rightarrow> intents \<Rightarrow> bool \<times> intents" where
  "setActiveCooldown now i cooldownUntilAt =
    update_intent now i (\<lambda>r. it_status r = S_ACTIVE)
      (\<lambda>r. r\<lparr>it_cooldownUntilAt := Some cooldownUntilAt, it_lastEvaluatedAt := Some now\<rparr>)"

definition markPlaced :: "int \<Rightarrow> string \<Rightarrow> string \<Rightarrow> intents \<Rightarrow> bool \<times> intents" where
  "markPlaced now i linkedOrderHash =
    update_intent now i (\<lambda>r. it_status r = S_TRIGGERED)
      (\<lambda>r. r\<lparr>it_status := S_PLACED, it_linkedOrderHash := Some (to_lower linkedOrderHash),
             it_lastEvaluatedAt := Some now\<rparr>)"

definition shift_status ::
  "int \<Rightarrow> string \<Rightarrow> intent_status \<Rightarrow> intent_status \<Rightarrow> string option \<Rightarrow> intents \<Rightarrow> bool \<times> intents" where
  "shift_status now i from to failureReason =
    update_intent now i (\<lambda>r. it_status r = from)
      (\<lambda>r. r\<lparr>it_status := to, it_failureReason :=
        (if blank failureReason then it_failureReason r else failureReason)\<rparr>)"

definition transitionStatus ::
  "(int \<Rightarrow> string) \<Rightarrow> int \<Rightarrow> string \<Rightarrow> intent_status \<Rightarrow> intent_status \<Rightarrow> string option \<Rightarrow> intents
     \<Rightarrow> intent_dto option \<times> intents" where
  "transitionStatus ts now i from to failureReason t =
    (let (ok, t1) = shift_status now i from to failureReason t
     in (if \<not> ok then None else findById ts t1 i, t1))"

text \<open>The per-row guard of the expiry sweeper, and its loop over the candidates.\<close>

definition expire_one :: "int \<Rightarrow> string \<Rightarrow> intent_status \<Rightarrow> intents \<Rightarrow> bool \<times> intents" where
  "expire_one now i status =
    update_intent now i (\<lambda>r. it_status r = status)
      (\<lambda>r. r\<lparr>it_status := S_EXPIRED, it_failureReason := Some ''intent_expired_by_ts'',
             it_lastEvaluatedAt := Some now\<rparr>)"

fun expire_loop :: "int \<Rightarrow> (string \<times> intent_status) list \<Rightarrow> intents \<Rightarrow> string list \<times> intents" where
  "expire_loop now [] t = ([], t)"
| "expire_loop now ((i, status) # cs) t =
    (let (ok, t1) = expire_one now i status t; (ids, t2) = expire_loop now cs t1
     in (if ok then i # ids else ids, t2))"

definition expiry_due :: "int \<Rightarrow> intent_row \<Rightarrow> bool" where
  "expiry_due now r \<longleftrightarrow> it_status r \<in> {S_DRAFT, S_ACTIVE} \<and> it_expiresAt r < now"

definition expireDueIntents :: "int \<Rightarrow> rat \<Rightarrow> intents \<Rightarrow> string list result \<times> intents" where
  "expireDueIntents now k t =
    (case take_rows k (js_sort (asc_by it_expiresAt) (filter (expiry_due now) t)) of
       Inl e \<Rightarrow> (Inl e, t)
     | Inr rows \<Rightarrow>
         (let (ids, t1) = expire_loop now (map (\<lambda>r. (it_id r, it_status r)) rows) t in (Inr ids, t1)))"

text \<open>The same for stale \<open>EXECUTING\<close> rows, whose guard repeats the age test.\<close>

definition stale_one :: "int \<Rightarrow> int \<Rightarrow> string \<Rightarrow> intents \<Rightarrow> bool \<times> intents" where
  "stale_one now cutoff i =
    update_intent now i (\<lambda>r. it_status r = S_EXECUTING \<and> it_updatedAt r < cutoff)
      (\<lambda>r. r\<lparr>it_status := S_FAILED, it_failureReason := Some ''stale_pending'',
             it_lastEvaluatedAt := Some now\<rparr>)"

fun stale_loop :: "int \<Rightarrow> int \<Rightarrow> string list \<Rightarrow> intents \<Rightarrow> string list \<times> intents" where
  "stale_loop now cutoff [] t = ([], t)"
| "stale_loop now cutoff (i # cs) t =
    (let (ok, t1) = stale_one now cutoff i t; (ids, t2) = stale_loop now cutoff cs t1
     in (if ok then i # ids else ids, t2))"

definition stale_due :: "int \<Rightarrow> intent_row \<Rightarrow> bool" where
  "stale_due cutoff r \<longleftrightarrow> it_status r = S_EXECUTING \<and> it_updatedAt r < cutoff"

text \<open>\<open>new Date(x)\<close> truncates a fractional time towards zero.\<close>

definition sweepStaleExecuting :: "int \<Rightarrow> rat \<Rightarrow> rat \<Rightarrow> intents \<Rightarrow> string list result \<times> intents" where
  "sweepStaleExecuting now k staleThresholdMs t =
    (let cutoff = trunc_rat (of_int now - staleThresholdMs) in
     case take_rows k (js_sort (asc_by it_updatedAt) (filter (stale_due cutoff) t)) of
       Inl e \<Rightarrow> (Inl e, t)
     | Inr rows \<Rightarrow>
         (let (ids, t1) = stale_loop now cutoff (map it_id rows) t in (Inr ids, t1)))"

section \<open>Events\<close>

text \<open>\<open>IntentEventRepository.append\<close>; the foreign key is the only way it fails.\<close>

definition append_intent_event ::
  "string \<Rightarrow> intent_event_type \<Rightarrow> jval \<Rightarrow> intents \<Rightarrow> intent_event list \<Rightarrow> unit result \<times> intent_event list" where
  "append_intent_event i ty payload t evs =
    (if intent_at t i = None then (Inl (PlainError ''P2003''), evs)
     else (Inr (), evs @ [\<lparr>ie_intentId = i, ie_type = ty, ie_payload = payload\<rparr>]))"

end
