(* ===== verification/IntentLaws.thy ===== *)
theory IntentLaws
  imports IntentStore
begin

text \<open>
  The laws of the intent repository: each status write keeps the interface \<open>compound_where\<close>
  (it hits exactly the addressed row, when its guard holds, and latches), and the reads return
  rows in the order the query asks for.
\<close>

section \<open>The table\<close>

definition ids_ok :: "intents \<Rightarrow> bool" where
  "ids_ok t \<longleftrightarrow> distinct (map it_id t)"

lemma intent_at_id: "intent_at t i = Some r \<Longrightarrow> it_id r = i \<and> r \<in> set t"
  using row_by_SomeD [of it_id i t r] by (auto simp: intent_at_def)

lemma intent_at_mem: "ids_ok t \<Longrightarrow> r \<in> set t \<Longrightarrow> intent_at t (it_id r) = Some r"
  by (simp add: intent_at_def ids_ok_def row_by_distinct)

lemma intent_at_update:
  assumes "\<And>r. it_id (f r) = it_id r"
  shows "intent_at (snd (update_intent now i G f t)) k =
    map_option (\<lambda>r. if k = i \<and> G r then (f r)\<lparr>it_updatedAt := now\<rparr> else r) (intent_at t k)"
proof -
  have "intent_at (snd (update_intent now i G f t)) k =
      map_option (\<lambda>r. if it_id r = i \<and> G r then (f r)\<lparr>it_updatedAt := now\<rparr> else r) (intent_at t k)"
    unfolding intent_at_def update_intent_def update_many_def snd_conv
    by (rule row_by_update_where) (simp add: assms)
  then show ?thesis using intent_at_id by (cases "intent_at t k") auto
qed

lemma update_intent_hit:
  "ids_ok t \<Longrightarrow> fst (update_intent now i G f t) \<longleftrightarrow> (\<exists>r. intent_at t i = Some r \<and> G r)"
  by (simp add: update_intent_def update_many_def intent_at_def ids_ok_def count_where_key)

lemma update_intent_ids:
  "(\<And>r. it_id (f r) = it_id r) \<Longrightarrow> ids_ok (snd (update_intent now i G f t)) = ids_ok t"
  by (simp add: ids_ok_def update_intent_def update_many_def map_key_update_where)

lemma update_intent_miss:
  "\<not> fst (update_intent now i G f t) \<Longrightarrow> snd (update_intent now i G f t) = t"
  by (auto simp: update_intent_def update_many_def count_where_pos_iff intro!: update_where_none)

lemma update_intent_result:
  assumes "ids_ok t" and "\<And>r. it_id (f r) = it_id r"
  shows "if fst (update_intent now i G f t)
    then \<exists>r. intent_at t i = Some r \<and> G r \<and>
      intent_at (snd (update_intent now i G f t)) i = Some ((f r)\<lparr>it_updatedAt := now\<rparr>)
    else snd (update_intent now i G f t) = t"
  using update_intent_hit [OF assms(1), of now i G f] update_intent_miss [of now i G f t]
    intent_at_update [where f = f, OF assms(2), of now i G t i]
  by auto

text \<open>Every guarded update of one row that writes a new status keeps the interface.\<close>

lemma update_intent_contract:
  assumes "\<And>r. it_id (f r) = it_id r" and "\<And>r. it_status (f r) = to" and "\<And>r. G r \<Longrightarrow> it_status r \<noteq> to"
  shows "compound_where ids_ok (update_intent now i G f) intent_at it_status i G to"
proof
  fix t k assume t: "ids_ok t"
  note at = intent_at_update [where f = f, OF assms(1)]
  show "ids_ok (snd (update_intent now i G f t))" using t assms(1) by (simp add: update_intent_ids)
  show "fst (update_intent now i G f t) \<longleftrightarrow> (\<exists>r. intent_at t i = Some r \<and> G r)"
    using t by (rule update_intent_hit)
  then show "\<exists>r. intent_at (snd (update_intent now i G f t)) i = Some r \<and> it_status r = to"
    if "fst (update_intent now i G f t)"
    using that assms(2) by (auto simp: at)
  show "snd (update_intent now i G f t) = t" if "\<not> fst (update_intent now i G f t)"
    using that by (rule update_intent_miss)
  show "intent_at (snd (update_intent now i G f t)) k = intent_at t k" if "k \<noteq> i"
    using that by (simp add: at option.map_ident)
next
  show "it_status r \<noteq> to" if "G r" for r using that by (rule assms(3))
qed

section \<open>The transitions keep the interface\<close>

interpretation from_ready_executed: compound_where ids_ok "markExecutedFromReady now i h"
    intent_at it_status i "\<lambda>r. it_status r = S_READY" S_EXECUTED for now i h
  unfolding markExecutedFromReady_def by (rule update_intent_contract) auto

interpretation from_ready_failed: compound_where ids_ok "markFailedFromReady now i h reason"
    intent_at it_status i "\<lambda>r. it_status r = S_READY" S_FAILED for now i h reason
  unfolding markFailedFromReady_def by (rule update_intent_contract) auto

interpretation executing: compound_where ids_ok "markExecuting_repo now i h"
    intent_at it_status i "\<lambda>r. it_status r = S_READY" S_EXECUTING for now i h
  unfolding markExecuting_repo_def by (rule update_intent_contract) auto

interpretation executed: compound_where ids_ok "markExecuted now i h" intent_at it_status i
    "\<lambda>r. it_status r = S_EXECUTING \<and> it_linkedTxHash r = Some (to_lower h)" S_EXECUTED for now i h
  unfolding markExecuted_def by (rule update_intent_contract) auto

interpretation executing_failed: compound_where ids_ok "markFailedFromExecuting now i h reason"
    intent_at it_status i
    "\<lambda>r. it_status r = S_EXECUTING \<and> it_linkedTxHash r = Some (to_lower h)" S_FAILED for now i h reason
  unfolding markFailedFromExecuting_def by (rule update_intent_contract) auto

interpretation ready: compound_where ids_ok "markReady now i q preparedAt"
    intent_at it_status i "\<lambda>r. it_status r = S_ACTIVE" S_READY for now i q preparedAt
  unfolding markReady_def by (rule update_intent_contract) auto

interpretation rearmed: compound_where ids_ok "rearmFromReady now i c"
    intent_at it_status i "\<lambda>r. it_status r = S_READY" S_ACTIVE for now i c
  unfolding rearmFromReady_def by (rule update_intent_contract) auto

interpretation ready_expired: compound_where ids_ok "markExpiredFromReady now i reason"
    intent_at it_status i "\<lambda>r. it_status r = S_READY" S_EXPIRED for now i reason
  unfolding markExpiredFromReady_def by (rule update_intent_contract) auto

interpretation placed: compound_where ids_ok "markPlaced now i h"
    intent_at it_status i "\<lambda>r. it_status r = S_TRIGGERED" S_PLACED for now i h
  unfolding markPlaced_def by (rule update_intent_contract) auto

interpretation draft_expired: compound_where ids_ok "expire_one now i S_DRAFT"
    intent_at it_status i "\<lambda>r. it_status r = S_DRAFT" S_EXPIRED for now i
  unfolding expire_one_def by (rule update_intent_contract) auto

interpretation active_expired: compound_where ids_ok "expire_one now i S_ACTIVE"
    intent_at it_status i "\<lambda>r. it_status r = S_ACTIVE" S_EXPIRED for now i
  unfolding expire_one_def by (rule update_intent_contract) auto

interpretation stale: compound_where ids_ok "stale_one now cutoff i" intent_at it_status i
    "\<lambda>r. it_status r = S_EXECUTING \<and> it_updatedAt r < cutoff" S_FAILED for now cutoff i
  unfolding stale_one_def by (rule update_intent_contract) auto

interpretation latched: compound_where ids_ok "shift_status now i S_ACTIVE S_TRIGGERED reason"
    intent_at it_status i "\<lambda>r. it_status r = S_ACTIVE" S_TRIGGERED for now i reason
  unfolding shift_status_def by (rule update_intent_contract) auto

interpretation fire_failed: compound_where ids_ok "shift_status now i S_TRIGGERED S_FAILED reason"
    intent_at it_status i "\<lambda>r. it_status r = S_TRIGGERED" S_FAILED for now i reason
  unfolding shift_status_def by (rule update_intent_contract) auto

interpretation active_cancelled: compound_where ids_ok "shift_status now i S_ACTIVE S_CANCELLED reason"
    intent_at it_status i "\<lambda>r. it_status r = S_ACTIVE" S_CANCELLED for now i reason
  unfolding shift_status_def by (rule update_intent_contract) auto

interpretation ready_cancelled: compound_where ids_ok "shift_status now i S_READY S_CANCELLED reason"
    intent_at it_status i "\<lambda>r. it_status r = S_READY" S_CANCELLED for now i reason
  unfolding shift_status_def by (rule update_intent_contract) auto

section \<open>The queries are sorted\<close>

interpretation by_column: comparator "asc_by f" for f
  by unfold_locales (auto simp: asc_by_def)

interpretation by_nullable: comparator "asc_nulls_last f" for f
  by unfold_locales (auto simp: asc_nulls_last_def split: option.splits)

text \<open>\<open>take\<close> never takes more than 500 rows, and at least one is allowed.\<close>

lemma take_rows_bound:
  assumes "take_rows k rows = Inr rs"
  shows "length rs \<le> 500 \<and> (\<exists>n. 1 \<le> n \<and> rs = take n rows)"
proof -
  define n where "n = max 1 (min k 500)"
  have n: "1 \<le> n" "n \<le> 500" by (auto simp: n_def)
  have rs: "rs = take (nat \<lfloor>n\<rfloor>) rows" and "is_int_rat n"
    using assms by (auto simp: take_rows_def Let_def n_def split: if_splits)
  have "1 \<le> \<lfloor>n\<rfloor>" "\<lfloor>n\<rfloor> \<le> 500" using n by linarith+
  then have "1 \<le> nat \<lfloor>n\<rfloor>" "nat \<lfloor>n\<rfloor> \<le> 500" by linarith+
  with rs show ?thesis by auto
qed

lemma take_rows_set: "take_rows k rows = Inr rs \<Longrightarrow> set rs \<subseteq> set rows"
  using take_rows_bound set_take_subset by metis

lemma map_res_Inr: "map_res f xs = Inr ys \<Longrightarrow> list_all2 (\<lambda>x y. f x = Inr y) xs ys"
  by (induction xs arbitrary: ys) auto

end
