(* ===== verification/DelegatedStore.thy ===== *)
theory DelegatedStore
  imports IntentLaws
begin

text \<open>
  The persistence of delegated execution:
  \<open>apps/api/src/sea/delegated/delegated-intent-transition.repository.ts\<close>,
  \<open>delegation-grant.repository.ts\<close> and \<open>delegated-execution-audit.repository.ts\<close>, over the
  models \<open>DelegationGrant\<close> and \<open>DelegatedExecutionAttempt\<close>, with the pure types of
  \<open>delegated.types.ts\<close>.
\<close>

section \<open>Types\<close>

datatype delegation_profile = P_ethereum_sepolia | P_base_mainnet

datatype account_model = EIP7702 | NEXUS_SA

datatype provider_kind = MOCK | BICONOMY

datatype grant_status = G_PENDING | G_ACTIVE | G_USED | G_REVOKED | G_EXPIRED | G_FAILED

datatype exec_decision = D_VALIDATED | D_REJECTED | D_SUBMITTED | D_CONFIRMED | D_FAILED

record delegation_policy =
  po_chainId :: int
  po_profile :: delegation_profile
  po_target :: string
  po_functionSelector :: string
  po_usageLimit :: int
  po_validUntil :: int
  po_spendToken :: string
  po_spendCapQ :: int
  po_maxTakerFillAmountQ :: int
  po_accountModel :: account_model

record delegated_quote =
  dq_marketId :: string
  dq_side :: side
  dq_fillsCount :: int
  dq_remainingBaseB :: int
  dq_takerToken :: string
  dq_takerFillAmountQ :: int
  dq_takerTotalAmountQ :: int

record grant_row =
  gr_id :: string
  gr_intentId :: string
  gr_owner :: string
  gr_chainId :: int
  gr_profile :: delegation_profile
  gr_accountModel :: account_model
  gr_provider :: provider_kind
  gr_sessionKeyRef :: "string option"
  gr_permissionId :: "string option"
  gr_target :: string
  gr_functionSelector :: string
  gr_spendToken :: string
  gr_spendCapQ :: int
  gr_usageLimit :: int
  gr_validUntil :: int
  gr_status :: grant_status
  gr_revokedAt :: "int option"
  gr_meta :: jval
  gr_createdAt :: int
  gr_updatedAt :: int

record attempt_row =
  at_intentId :: string
  at_grantId :: "string option"
  at_chainId :: int
  at_profile :: delegation_profile
  at_decision :: exec_decision
  at_reason :: "string option"
  at_txHash :: "string option"
  at_providerRef :: "string option"

section \<open>Intent transitions of the executor\<close>

definition claimExecuting :: "int \<Rightarrow> string \<Rightarrow> intents \<Rightarrow> bool \<times> intents" where
  "claimExecuting now i =
    update_intent now i
      (\<lambda>r. it_status r = S_READY \<and> it_type r = T_CONDITIONAL_MARKET_READY \<and> it_linkedTxHash r = None)
      (\<lambda>r. r\<lparr>it_status := S_EXECUTING\<rparr>)"

definition releaseToReady :: "int \<Rightarrow> string \<Rightarrow> intents \<Rightarrow> bool \<times> intents" where
  "releaseToReady now i =
    update_intent now i (\<lambda>r. it_status r = S_EXECUTING \<and> it_linkedTxHash r = None)
      (\<lambda>r. r\<lparr>it_status := S_READY\<rparr>)"

definition delegated_markExecuted :: "int \<Rightarrow> string \<Rightarrow> string \<Rightarrow> intents \<Rightarrow> bool \<times> intents" where
  "delegated_markExecuted now i txHash =
    update_intent now i (\<lambda>r. it_status r = S_EXECUTING)
      (\<lambda>r. r\<lparr>it_status := S_EXECUTED, it_linkedTxHash := Some txHash\<rparr>)"

definition delegated_markFailed ::
  "int \<Rightarrow> string \<Rightarrow> string \<Rightarrow> string option \<Rightarrow> intents \<Rightarrow> bool \<times> intents" where
  "delegated_markFailed now i reason txHash =
    update_intent now i (\<lambda>r. it_status r = S_EXECUTING)
      (\<lambda>r. r\<lparr>it_status := S_FAILED, it_failureReason := Some reason,
             it_linkedTxHash := (if blank txHash then it_linkedTxHash r else txHash)\<rparr>)"

text \<open>
  \<open>findExecutable\<close>: active, unexpired grants in creation order, each with its intent when that
  is an unexpired, unclaimed \<open>READY\<close> market intent. \<open>take\<close> is the first \<open>k\<close> grants.
\<close>

definition executable_intent :: "int \<Rightarrow> string \<Rightarrow> intent_row \<Rightarrow> bool" where
  "executable_intent now i r \<longleftrightarrow>
    it_id r = i \<and> it_status r = S_READY \<and> it_type r = T_CONDITIONAL_MARKET_READY \<and>
    it_linkedTxHash r = None \<and> it_expiresAt r > now"

definition findExecutable ::
  "int \<Rightarrow> nat \<Rightarrow> grant_row list \<Rightarrow> intents \<Rightarrow> (intent_row \<times> grant_row) list" where
  "findExecutable now k grants t =
    concat (map (\<lambda>g. case find (executable_intent now (gr_intentId g)) t of
                       None \<Rightarrow> [] | Some r \<Rightarrow> [(r, g)])
      (take k (js_sort (asc_by gr_createdAt)
        (filter (\<lambda>g. gr_status g = G_ACTIVE \<and> gr_validUntil g > now) grants))))"

section \<open>Grants\<close>

definition stamp_grant :: "int \<Rightarrow> grant_status \<Rightarrow> grant_row \<Rightarrow> grant_row" where
  "stamp_grant now status g =
    g\<lparr>gr_status := status, gr_updatedAt := now,
      gr_revokedAt := (if status = G_REVOKED then Some now else gr_revokedAt g)\<rparr>"

definition setGrantStatus :: "int \<Rightarrow> string \<Rightarrow> grant_status \<Rightarrow> grant_row list \<Rightarrow> grant_row list" where
  "setGrantStatus now g status = update_where (\<lambda>r. gr_id r = g) (stamp_grant now status)"

definition markStatus ::
  "int \<Rightarrow> string \<Rightarrow> grant_status \<Rightarrow> grant_row list \<Rightarrow> unit result \<times> grant_row list" where
  "markStatus now g status grants =
    (if row_by gr_id g grants = None then (Inl RecordNotFound, grants)
     else (Inr (), update_where (\<lambda>r. gr_id r = g) (stamp_grant now status) grants))"

record grant_input =
  gi_intentId :: string
  gi_owner :: string
  gi_chainId :: int
  gi_profile :: delegation_profile
  gi_accountModel :: account_model
  gi_provider :: provider_kind
  gi_sessionKeyRef :: "string option"
  gi_permissionId :: "string option"
  gi_policy :: delegation_policy
  gi_meta :: jval
  gi_status :: grant_status

definition new_grant_row :: "int \<Rightarrow> string \<Rightarrow> grant_input \<Rightarrow> grant_row" where
  "new_grant_row now g inp =
    \<lparr>gr_id = g, gr_intentId = gi_intentId inp, gr_owner = to_lower (gi_owner inp),
     gr_chainId = gi_chainId inp, gr_profile = gi_profile inp,
     gr_accountModel = gi_accountModel inp, gr_provider = gi_provider inp,
     gr_sessionKeyRef = gi_sessionKeyRef inp, gr_permissionId = gi_permissionId inp,
     gr_target = po_target (gi_policy inp), gr_functionSelector = po_functionSelector (gi_policy inp),
     gr_spendToken = po_spendToken (gi_policy inp), gr_spendCapQ = po_spendCapQ (gi_policy inp),
     gr_usageLimit = po_usageLimit (gi_policy inp),
     gr_validUntil = po_validUntil (gi_policy inp) * 1000, gr_status = gi_status inp,
     gr_revokedAt = None, gr_meta = gi_meta inp, gr_createdAt = now, gr_updatedAt = now\<rparr>"

text \<open>\<open>intentId\<close> is unique: a second grant for an intent is refused.\<close>

definition create_grant ::
  "int \<Rightarrow> string \<Rightarrow> grant_input \<Rightarrow> grant_row list \<Rightarrow> grant_row result \<times> grant_row list" where
  "create_grant now g inp grants =
    (let r = new_grant_row now g inp in
     if row_by gr_intentId (gi_intentId inp) grants \<noteq> None \<or> row_by gr_id g grants \<noteq> None \<or>
        \<not> fits_dec78 (gr_spendCapQ r) \<or> length (gr_owner r) > 42 \<or> length (gr_target r) > 42 \<or>
        length (gr_spendToken r) > 42 \<or> length (gr_functionSelector r) > 10
     then (Inl (PlainError ''PrismaClientKnownRequestError''), grants)
     else (Inr r, grants @ [r]))"

definition findByIntentId :: "string \<Rightarrow> grant_row list \<Rightarrow> grant_row option" where
  "findByIntentId i grants = row_by gr_intentId i grants"

definition listGrantsByOwner :: "string \<Rightarrow> grant_row list \<Rightarrow> grant_row list" where
  "listGrantsByOwner owner grants =
    js_sort (asc_by (\<lambda>g. - gr_updatedAt g)) (filter (\<lambda>g. gr_owner g = to_lower owner) grants)"

section \<open>The contracts\<close>

interpretation claimed: compound_where ids_ok "claimExecuting now i" intent_at it_status i
    "\<lambda>r. it_status r = S_READY \<and> it_type r = T_CONDITIONAL_MARKET_READY \<and> it_linkedTxHash r = None"
    S_EXECUTING for now i
  unfolding claimExecuting_def by (rule update_intent_contract) auto

interpretation released: compound_where ids_ok "releaseToReady now i" intent_at it_status i
    "\<lambda>r. it_status r = S_EXECUTING \<and> it_linkedTxHash r = None" S_READY for now i
  unfolding releaseToReady_def by (rule update_intent_contract) auto

interpretation delegated_executed: compound_where ids_ok "delegated_markExecuted now i h"
    intent_at it_status i "\<lambda>r. it_status r = S_EXECUTING" S_EXECUTED for now i h
  unfolding delegated_markExecuted_def by (rule update_intent_contract) auto

interpretation delegated_failed: compound_where ids_ok "delegated_markFailed now i reason h"
    intent_at it_status i "\<lambda>r. it_status r = S_EXECUTING" S_FAILED for now i reason h
  unfolding delegated_markFailed_def by (rule update_intent_contract) auto

end
