(* ===== verification/IntentLifecycle.thy ===== *)
theory IntentLifecycle
  imports DelegatedStore
begin

text \<open>
  The life of an intent, over every writer of the \<open>Intent\<close> table: the request handlers of
  \<open>intent.service.ts\<close>, the monitor, the fire and prepare services, the two sweepers, the fill
  watcher and the delegated executor. Each rule of \<open>intent_step\<close> is one atomic write, with what
  its callers have checked of the row (its type, which no write changes, and the expiry of the
  rows the expiry writers select); any interleaving of the writers is a sequence of steps.
\<close>

section \<open>Steps\<close>

inductive intent_step :: "db \<Rightarrow> intents \<Rightarrow> intents \<Rightarrow> bool" for d where
  created: "create_intent ts now i inp d t = (Inr dto, t') \<Longrightarrow> ci_initialStatus inp = S_ACTIVE \<Longrightarrow>
    intent_step d t t'"
| latched: "intent_at t i = Some r \<Longrightarrow> it_type r = T_CONDITIONAL_LIMIT \<Longrightarrow>
    intent_step d t (snd (shift_status now i S_ACTIVE S_TRIGGERED None t))"
| fire_placed: "intent_step d t (snd (markPlaced now i h t))"
| fire_failed: "reason \<noteq> [] \<Longrightarrow> intent_step d t (snd (shift_status now i S_TRIGGERED S_FAILED (Some reason) t))"
| cancelled: "from \<in> {S_DRAFT, S_ACTIVE, S_READY} \<Longrightarrow>
    intent_step d t (snd (shift_status now i from S_CANCELLED (Some ''user_cancel'') t))"
| made_ready: "intent_at t i = Some r \<Longrightarrow> it_type r = T_CONDITIONAL_MARKET_READY \<Longrightarrow>
    intent_step d t (snd (markReady now i q preparedAt t))"
| cooled: "intent_step d t (snd (setActiveCooldown now i c t))"
| rearmed: "intent_step d t (snd (rearmFromReady now i c t))"
| ready_expired: "intent_at t i = Some r \<Longrightarrow> it_expiresAt r < now \<Longrightarrow>
    intent_step d t (snd (markExpiredFromReady now i reason t))"
| swept: "intent_at t i = Some r \<Longrightarrow> it_expiresAt r < now \<Longrightarrow> status \<in> {S_DRAFT, S_ACTIVE} \<Longrightarrow>
    intent_step d t (snd (expire_one now i status t))"
| locked: "intent_step d t (snd (lockWalletFromReady now i pq u t))"
| started: "intent_step d t (snd (markExecuting_repo now i h t))"
| executed_late: "intent_step d t (snd (markExecutedFromReady now i h t))"
| reverted_late: "intent_step d t (snd (markFailedFromReady now i h reason t))"
| filled: "intent_step d t (snd (markExecuted now i h t))"
| reverted: "intent_step d t (snd (markFailedFromExecuting now i h reason t))"
| stale_swept: "intent_step d t (snd (stale_one now cutoff i t))"
| claimed: "intent_step d t (snd (claimExecuting now i t))"
| released: "intent_step d t (snd (releaseToReady now i t))"
| delegated_filled: "intent_step d t (snd (delegated_markExecuted now i h t))"
| delegated_failed: "intent_step d t (snd (delegated_markFailed now i reason h' t))"

inductive intents_reachable :: "db \<Rightarrow> intents \<Rightarrow> bool" for d where
  none: "intents_reachable d []"
| step: "intents_reachable d t \<Longrightarrow> intent_step d t t' \<Longrightarrow> intents_reachable d t'"

section \<open>The abstract machine\<close>

text \<open>The status graph an intent of each type may move along.\<close>

inductive status_step :: "intent_type \<Rightarrow> intent_status \<Rightarrow> intent_status \<Rightarrow> bool" where
  "status_step T_CONDITIONAL_LIMIT S_ACTIVE S_TRIGGERED"
| "status_step T_CONDITIONAL_LIMIT S_TRIGGERED S_PLACED"
| "status_step T_CONDITIONAL_LIMIT S_TRIGGERED S_FAILED"
| "status_step T_CONDITIONAL_MARKET_READY S_ACTIVE S_READY"
| "status_step T_CONDITIONAL_MARKET_READY S_READY S_ACTIVE"
| "status_step T_CONDITIONAL_MARKET_READY S_READY S_EXECUTING"
| "status_step T_CONDITIONAL_MARKET_READY S_EXECUTING S_READY"
| "status_step T_CONDITIONAL_MARKET_READY S_READY S_EXECUTED"
| "status_step T_CONDITIONAL_MARKET_READY S_READY S_FAILED"
| "status_step T_CONDITIONAL_MARKET_READY S_READY S_EXPIRED"
| "status_step T_CONDITIONAL_MARKET_READY S_READY S_CANCELLED"
| "status_step T_CONDITIONAL_MARKET_READY S_EXECUTING S_EXECUTED"
| "status_step T_CONDITIONAL_MARKET_READY S_EXECUTING S_FAILED"
| "status_step ty S_ACTIVE S_CANCELLED"
| "status_step ty S_ACTIVE S_EXPIRED"

inductive_simps status_step_from [simp]:
  "status_step ty S_DRAFT x" "status_step ty S_ACTIVE x" "status_step ty S_TRIGGERED x"
  "status_step ty S_READY x" "status_step ty S_EXECUTING x" "status_step ty S_PLACED x"
  "status_step ty S_EXECUTED x" "status_step ty S_CANCELLED x" "status_step ty S_EXPIRED x"
  "status_step ty S_REJECTED x" "status_step ty S_FAILED x"

definition terminal :: "intent_status \<Rightarrow> bool" where
  "terminal s \<longleftrightarrow> s \<in> {S_PLACED, S_EXECUTED, S_CANCELLED, S_EXPIRED, S_REJECTED, S_FAILED}"

text \<open>What the owner agreed to, and no write may change.\<close>

definition terms_of :: "intent_row \<Rightarrow> string \<times> string \<times> intent_type \<times> side \<times> int \<times> int option" where
  "terms_of r = (it_owner r, it_marketId r, it_type r, it_side r, it_sizeBase r, it_limitPriceTicks r)"

definition trigger_of ::
  "intent_row \<Rightarrow> trigger_type \<times> ref_kind \<times> int \<times> int \<times> jval \<times> bytes option \<times> string option" where
  "trigger_of r = (it_triggerType r, it_triggerReference r, it_triggerPriceTicks r, it_expiresAt r,
     it_preSignedOrder r, it_preSignedSignature r, it_preSignedOrderHash r)"

text \<open>What each status promises of the row.\<close>

definition row_ok :: "intent_row \<Rightarrow> bool" where
  "row_ok r \<longleftrightarrow>
    (case it_status r of
       S_ACTIVE \<Rightarrow> True
     | S_TRIGGERED \<Rightarrow> it_type r = T_CONDITIONAL_LIMIT
     | S_PLACED \<Rightarrow> it_type r = T_CONDITIONAL_LIMIT \<and> it_linkedOrderHash r \<noteq> None
     | S_READY \<Rightarrow> it_type r = T_CONDITIONAL_MARKET_READY \<and> it_preparedQuoteAt r \<noteq> None
     | S_EXECUTING \<Rightarrow> it_type r = T_CONDITIONAL_MARKET_READY \<and> it_preparedQuoteAt r \<noteq> None
     | S_EXECUTED \<Rightarrow> it_type r = T_CONDITIONAL_MARKET_READY \<and> it_linkedTxHash r \<noteq> None
     | S_EXPIRED \<Rightarrow> it_failureReason r \<noteq> None \<and> it_expiresAt r < it_updatedAt r
     | S_CANCELLED \<Rightarrow> it_failureReason r = Some ''user_cancel''
     | S_FAILED \<Rightarrow> it_failureReason r \<noteq> None
     | _ \<Rightarrow> False)"

definition advances :: "intent_row \<Rightarrow> intent_row \<Rightarrow> bool" where
  "advances r r' \<longleftrightarrow>
    row_ok r' \<and> terms_of r' = terms_of r \<and> trigger_of r' = trigger_of r \<and>
    (it_status r' = it_status r \<and> (terminal (it_status r) \<longrightarrow> r' = r) \<or>
     status_step (it_type r) (it_status r) (it_status r'))"

lemma advances_refl: "row_ok r \<Longrightarrow> advances r r"
  by (simp add: advances_def)

section \<open>Each step follows the machine\<close>

lemmas intent_writes = shift_status_def markPlaced_def markReady_def setActiveCooldown_def
  rearmFromReady_def markExpiredFromReady_def expire_one_def lockWalletFromReady_def
  markExecuting_repo_def markExecutedFromReady_def markFailedFromReady_def markExecuted_def
  markFailedFromExecuting_def stale_one_def claimExecuting_def releaseToReady_def
  delegated_markExecuted_def delegated_markFailed_def

text \<open>A write on one row is safe when its effect on that row is.\<close>

definition safe_write :: "int \<Rightarrow> (intent_row \<Rightarrow> bool) \<Rightarrow> (intent_row \<Rightarrow> intent_row) \<Rightarrow> intent_row \<Rightarrow> bool" where
  "safe_write now G f r \<longleftrightarrow> (row_ok r \<and> G r \<longrightarrow> advances r ((f r)\<lparr>it_updatedAt := now\<rparr>))"

definition rows_ok :: "intents \<Rightarrow> bool" where
  "rows_ok t \<longleftrightarrow> ids_ok t \<and> (\<forall>r \<in> set t. row_ok r)"

lemma rows_ok_at: "rows_ok t \<Longrightarrow> intent_at t i = Some r \<Longrightarrow> row_ok r"
  using intent_at_id [of t i r] by (auto simp: rows_ok_def)

definition keeps :: "intents \<Rightarrow> intents \<Rightarrow> bool" where
  "keeps t t' \<longleftrightarrow> rows_ok t' \<and> (\<forall>k r. intent_at t k = Some r \<longrightarrow> (\<exists>r'. intent_at t' k = Some r' \<and> advances r r'))"

lemma keepsI:
  assumes "rows_ok t" and "\<And>r. it_id (f r) = it_id r"
    and "\<And>r. intent_at t i = Some r \<Longrightarrow> safe_write now G f r"
  shows "keeps t (snd (update_intent now i G f t))"
proof -
  let ?t = "snd (update_intent now i G f t)"
  note at = intent_at_update [where f = f, OF assms(2)]
  have adv: "\<exists>r'. intent_at ?t k = Some r' \<and> advances r r'" if k: "intent_at t k = Some r" for k r
    using k assms(3) [of r] rows_ok_at [OF assms(1) k] advances_refl
    by (cases "k = i") (auto simp: at safe_write_def)
  have ids: "ids_ok ?t" using assms(1,2) by (simp add: update_intent_ids rows_ok_def)
  have "row_ok r'" if "r' \<in> set ?t" for r'
  proof -
    from that ids have r': "intent_at ?t (it_id r') = Some r'" by (simp add: intent_at_mem)
    then obtain r where "intent_at t (it_id r') = Some r" by (auto simp: at)
    from adv [OF this] r' show ?thesis by (auto simp: advances_def)
  qed
  with ids adv show ?thesis by (simp add: keeps_def rows_ok_def)
qed

lemma intent_at_snoc:
  "intent_at t i = None \<Longrightarrow> intent_at (t @ [r]) k =
    (if k = it_id r \<and> intent_at t k = None then Some r else intent_at t k)"
  by (auto simp: intent_at_def row_by_append split: option.splits)

lemma keeps_create:
  assumes "rows_ok t" and "create_intent ts now i inp d t = (Inr dto, t')"
    and "ci_initialStatus inp = S_ACTIVE"
  shows "keeps t t'"
proof -
  obtain ex where n: "intent_at t i = None" and t': "t' = t @ [new_intent_row now i inp ex]"
    using assms(2) by (auto simp: create_intent_def Let_def split: option.splits if_splits)
  have r: "it_id (new_intent_row now i inp ex) = i" "row_ok (new_intent_row now i inp ex)"
    using assms(3) by (simp_all add: new_intent_row_def row_ok_def Let_def)
  have "i \<notin> it_id ` set t" using n by (auto simp: intent_at_def row_by_None_iff)
  then have "rows_ok t'" using assms(1) r by (auto simp: rows_ok_def ids_ok_def t')
  moreover have "intent_at t' k = Some x" "advances x x" if "intent_at t k = Some x" for k x
    using that n rows_ok_at [OF assms(1)] advances_refl by (auto simp: t' intent_at_snoc)
  ultimately show ?thesis by (auto simp: keeps_def)
qed

lemmas safe_simps = safe_write_def advances_def row_ok_def terms_of_def trigger_of_def terminal_def blank_def

lemma step_keeps: "intent_step d t t' \<Longrightarrow> rows_ok t \<Longrightarrow> keeps t t'"
proof (induction rule: intent_step.induct)
  case created
  then show ?case by (blast intro: keeps_create)
qed (unfold intent_writes, (rule keepsI, assumption, simp,
   fastforce simp: safe_simps)+)


lemma reachable_rows_ok: "intents_reachable d t \<Longrightarrow> rows_ok t"
proof (induction rule: intents_reachable.induct)
  case none
  then show ?case by (simp add: rows_ok_def ids_ok_def)
next
  case (step t t')
  then show ?case using step_keeps by (auto simp: keeps_def)
qed

section \<open>The life of an intent\<close>

text \<open>
  C36. What a status promises, in every history of the table under any interleaving of its
  writers: no two rows share an id; \<open>DRAFT\<close> and \<open>REJECTED\<close> never occur; \<open>TRIGGERED\<close> and
  \<open>PLACED\<close> are conditional limits, and a placed one names its order; \<open>READY\<close> and \<open>EXECUTING\<close>
  are market intents with a prepared quote time; an executed one carries its transaction hash; a
  cancelled one says so; a failed or expired one has a reason; and an intent is only ever
  \<open>EXPIRED\<close> after its own expiry.
\<close>

theorem intent_status_promises:
  assumes "intents_reachable d t" and "intent_at t i = Some r"
  shows "distinct (map it_id t) \<and> it_status r \<noteq> S_DRAFT \<and> it_status r \<noteq> S_REJECTED \<and>
    (it_status r \<in> {S_TRIGGERED, S_PLACED} \<longrightarrow> it_type r = T_CONDITIONAL_LIMIT) \<and>
    (it_status r = S_PLACED \<longrightarrow> it_linkedOrderHash r \<noteq> None) \<and>
    (it_status r \<in> {S_READY, S_EXECUTING, S_EXECUTED} \<longrightarrow> it_type r = T_CONDITIONAL_MARKET_READY) \<and>
    (it_status r \<in> {S_READY, S_EXECUTING} \<longrightarrow> it_preparedQuoteAt r \<noteq> None) \<and>
    (it_status r = S_EXECUTED \<longrightarrow> it_linkedTxHash r \<noteq> None) \<and>
    (it_status r = S_CANCELLED \<longrightarrow> it_failureReason r = Some ''user_cancel'') \<and>
    (it_status r \<in> {S_FAILED, S_EXPIRED} \<longrightarrow> it_failureReason r \<noteq> None) \<and>
    (it_status r = S_EXPIRED \<longrightarrow> it_expiresAt r < it_updatedAt r)"
proof -
  from reachable_rows_ok [OF assms(1)] have "distinct (map it_id t)" "row_ok r"
    using rows_ok_at assms(2) by (auto simp: rows_ok_def ids_ok_def)
  then show ?thesis by (cases "it_status r") (simp_all add: row_ok_def)
qed

lemma steps_history:
  assumes "(intent_step d)\<^sup>*\<^sup>* t t'" and "rows_ok t" and "intent_at t i = Some r"
  shows "rows_ok t' \<and> (\<exists>r'. intent_at t' i = Some r' \<and> terms_of r' = terms_of r \<and> trigger_of r' = trigger_of r \<and>
    (status_step (it_type r))\<^sup>*\<^sup>* (it_status r) (it_status r') \<and>
    (terminal (it_status r) \<longrightarrow> r' = r))"
  using assms(1)
proof (induction rule: rtranclp_induct)
  case base
  with assms(2,3) show ?case by auto
next
  case (step u t')
  then obtain x where x: "intent_at u i = Some x" "terms_of x = terms_of r" "trigger_of x = trigger_of r"
    "(status_step (it_type r))\<^sup>*\<^sup>* (it_status r) (it_status x)" "terminal (it_status r) \<longrightarrow> x = r"
    and u: "rows_ok u" by auto
  then obtain r' where r': "intent_at t' i = Some r'" and a: "advances x r'" and ok: "rows_ok t'"
    using step_keeps [OF step(2) u] by (auto simp: keeps_def)
  have ty: "it_type x = it_type r" using x(2) by (simp add: terms_of_def)
  have no: "\<not> status_step ty s s'" if "terminal s" for ty s s' using that by (auto simp: terminal_def)
  have "terms_of r' = terms_of r" "trigger_of r' = trigger_of r"
    using a x(2,3) by (simp_all add: advances_def)
  moreover have "(status_step (it_type r))\<^sup>*\<^sup>* (it_status r) (it_status r')"
    using a x(4) ty by (auto simp: advances_def intro: rtranclp.rtrancl_into_rtrancl)
  moreover have "terminal (it_status r) \<longrightarrow> r' = r"
    using a x(5) no by (auto simp: advances_def)
  ultimately show ?case using r' ok by blast
qed

text \<open>
  C7. Every history follows the documented status graph and honours what the owner agreed to:
  from any reachable table, an existing intent is never deleted, keeps its owner, market, side,
  size, prices, trigger, expiry and pre-signed payload, its status moves along the graph of its
  type only, and once it is terminal the whole row is frozen, whatever is run afterwards.
\<close>

theorem intent_history_follows_graph:
  assumes "intents_reachable d t" and "(intent_step d)\<^sup>*\<^sup>* t t'" and "intent_at t i = Some r"
  shows "\<exists>r'. intent_at t' i = Some r' \<and> terms_of r' = terms_of r \<and> trigger_of r' = trigger_of r \<and>
    (status_step (it_type r))\<^sup>*\<^sup>* (it_status r) (it_status r') \<and>
    (terminal (it_status r) \<longrightarrow> r' = r)"
  using steps_history [OF assms(2) reachable_rows_ok [OF assms(1)] assms(3)] by blast

section \<open>A sample history\<close>

definition sample_cmr :: structured_intent where
  "sample_cmr = CMR_Intent ''m1'' BUY ''30'' None
     \<lparr>tr_type = PRICE_BELOW, tr_reference = BEST_ASK, tr_priceTicks = ''6''\<rparr> (AtUnix 5000)"

definition sample_create :: create_input where
  "sample_create = \<lparr>ci_owner = ''0xa'', ci_marketId = ''m1'', ci_intent = sample_cmr,
     ci_preSignedOrder = JNull, ci_signatureHex = None, ci_preSignedOrderHash = None,
     ci_rawText = None, ci_parserMeta = JNull, ci_expiresAt = Some 5000000,
     ci_initialStatus = S_ACTIVE\<rparr>"

definition sample_row :: intent_row where
  "sample_row = new_intent_row 10 ''i1'' sample_create 5000000"

definition sample_ready :: intents where
  "sample_ready = snd (markReady 20 ''i1'' (JObj []) 20 [sample_row])"

definition sample_executed :: intents where
  "sample_executed = snd (markExecutedFromReady 30 ''i1'' ''0xAB'' sample_ready)"

lemma sample_created: "intents_reachable sample_db [sample_row]"
proof -
  have "snd (create_intent big_to_string 10 ''i1'' sample_create sample_db []) = [sample_row]"
    "isl (fst (create_intent big_to_string 10 ''i1'' sample_create sample_db [])) = False"
    by code_simp+
  then obtain dto where "create_intent big_to_string 10 ''i1'' sample_create sample_db [] = (Inr dto, [sample_row])"
    by (cases "fst (create_intent big_to_string 10 ''i1'' sample_create sample_db [])")
      (auto simp: prod_eq_iff)
  moreover have "ci_initialStatus sample_create = S_ACTIVE" by (simp add: sample_create_def)
  ultimately show ?thesis
    by (rule intents_reachable.step [OF intents_reachable.none intent_step.created])
qed

lemma sample_ready_reachable: "intents_reachable sample_db sample_ready"
proof -
  have "intent_at [sample_row] ''i1'' = Some sample_row" "it_type sample_row = T_CONDITIONAL_MARKET_READY"
    by code_simp+
  then show ?thesis
    unfolding sample_ready_def
    by (intro intents_reachable.step [OF sample_created] intent_step.made_ready)
qed

lemma sample_history:
  "intents_reachable sample_db sample_executed" "(intent_step sample_db)\<^sup>*\<^sup>* sample_ready sample_executed"
proof -
  have s: "intent_step sample_db sample_ready sample_executed"
    unfolding sample_executed_def by (rule intent_step.executed_late)
  with sample_ready_reachable show "intents_reachable sample_db sample_executed"
    by (rule intents_reachable.step)
  from s show "(intent_step sample_db)\<^sup>*\<^sup>* sample_ready sample_executed" by simp
qed

lemma sample_rows:
  "map_option it_status (intent_at sample_executed ''i1'') = Some S_EXECUTED"
  "map_option it_linkedTxHash (intent_at sample_executed ''i1'') = Some (Some ''0xab'')"
  "map_option it_status (intent_at sample_ready ''i1'') = Some S_READY"
  "map_option it_type (intent_at sample_ready ''i1'') = Some T_CONDITIONAL_MARKET_READY"
  by code_simp+

theorem intent_status_promises_witness:
  "\<exists>r. intent_at sample_executed ''i1'' = Some r \<and> it_linkedTxHash r \<noteq> None \<and>
    it_type r = T_CONDITIONAL_MARKET_READY"
proof -
  obtain r where r: "intent_at sample_executed ''i1'' = Some r" "it_status r = S_EXECUTED"
    using sample_rows(1) by auto
  with intent_status_promises [OF sample_history(1) r(1)] show ?thesis by simp
qed

theorem intent_history_follows_graph_witness:
  "(status_step T_CONDITIONAL_MARKET_READY)\<^sup>*\<^sup>* S_READY S_EXECUTED"
proof -
  obtain r where r: "intent_at sample_ready ''i1'' = Some r" "it_status r = S_READY"
    "it_type r = T_CONDITIONAL_MARKET_READY"
    using sample_rows(3,4) by auto
  from intent_history_follows_graph [OF sample_ready_reachable sample_history(2) r(1)] r sample_rows(1)
  show ?thesis by auto
qed

end
