(* ===== verification/ExecToken.thy ===== *)
theory ExecToken
  imports Dates
begin

text \<open>
  \<open>apps/api/src/sea/execution-token.util.ts\<close>: the HMAC lock nonce and execution token of the
  CMR execution flow, with the chain id every canonical message binds. \<open>HMAC-SHA256\<close> in
  base64url is the argument \<open>hm\<close>, of the secret and the payload.
\<close>

section \<open>Environment\<close>

definition getChainIdFromEnv :: "penv \<Rightarrow> int" where
  "getChainIdFromEnv pe =
    (let raw = (case pe ''CHAIN_ID'' of Some v \<Rightarrow> v
                | None \<Rightarrow> env_or_nullish pe ''ZEROEX_CHAIN_ID'' ''84532'')
     in case parse_int 10 raw of
          Fin q \<Rightarrow> if q \<le> 0 then 84532 else trunc_rat q
        | _ \<Rightarrow> 84532)"

definition readSecret :: "penv \<Rightarrow> string \<Rightarrow> string option" where
  "readSecret pe envKey =
    (case pe envKey of
       Some v \<Rightarrow> if 16 \<le> length v then Some v
                 else if env_or_nullish pe ''PROFILE'' '''' = ''dev''
                   \<or> (env_or_nullish pe ''PROFILE'' '''' = '''' \<and> env_is pe ''DEV_SKIP_SIGS'' ''1'')
                 then Some (''dev-only-fallback-secret-for-'' @ envKey) else None
     | None \<Rightarrow> if env_or_nullish pe ''PROFILE'' '''' = ''dev''
                   \<or> (env_or_nullish pe ''PROFILE'' '''' = '''' \<and> env_is pe ''DEV_SKIP_SIGS'' ''1'')
               then Some (''dev-only-fallback-secret-for-'' @ envKey) else None)"

section \<open>Comparison\<close>

text \<open>
  \<open>Buffer.from(s)\<close> is the UTF-8 encoding; \<open>timingSafeEqual\<close> throws on buffers of different
  lengths, which strings of equal length can have.
\<close>

definition utf8 :: "string \<Rightarrow> string" where
  "utf8 s = concat (map (\<lambda>c. if code c < 128 then [c]
      else [char_of (192 + code c div 64), char_of (128 + code c mod 64)]) s)"

definition constantTimeEqStr :: "string \<Rightarrow> string \<Rightarrow> bool result" where
  "constantTimeEqStr a b =
    (if length a \<noteq> length b then Inr False
     else if length (utf8 a) \<noteq> length (utf8 b) then Inl RangeError
     else Inr (utf8 a = utf8 b))"

section \<open>Lock nonce\<close>

record nonce_ctx =
  nc_intentId :: string
  nc_owner :: string
  nc_preparedQuoteAt :: int
  nc_chainId :: int

definition lockNoncePayload :: "nonce_ctx \<Rightarrow> string" where
  "lockNoncePayload c = join_bar
    [''sea-lock-nonce-v1'', nc_intentId c, to_lower (nc_owner c),
     toISOString (nc_preparedQuoteAt c), big_to_string (nc_chainId c)]"

definition issueLockNonce :: "(string \<Rightarrow> string \<Rightarrow> string) \<Rightarrow> string \<Rightarrow> nonce_ctx \<Rightarrow> string" where
  "issueLockNonce hm secret c = hm secret (lockNoncePayload c)"

definition verifyLockNonce ::
  "(string \<Rightarrow> string \<Rightarrow> string) \<Rightarrow> string \<Rightarrow> string \<Rightarrow> nonce_ctx \<Rightarrow> bool result" where
  "verifyLockNonce hm secret supplied c = constantTimeEqStr supplied (issueLockNonce hm secret c)"

section \<open>Execution token\<close>

record token_ctx =
  tk_intentId :: string
  tk_owner :: string
  tk_chainId :: int
  tk_walletLockUntilAt :: int
  tk_lockNonce :: string

definition executionTokenPayload :: "token_ctx \<Rightarrow> string" where
  "executionTokenPayload c = join_bar
    [''sea-execution-token-v1'', tk_intentId c, to_lower (tk_owner c), big_to_string (tk_chainId c),
     toISOString (tk_walletLockUntilAt c), tk_lockNonce c]"

definition issueExecutionToken :: "(string \<Rightarrow> string \<Rightarrow> string) \<Rightarrow> string \<Rightarrow> token_ctx \<Rightarrow> string" where
  "issueExecutionToken hm secret c = hm secret (executionTokenPayload c)"

definition verifyExecutionToken ::
  "(string \<Rightarrow> string \<Rightarrow> string) \<Rightarrow> string \<Rightarrow> string \<Rightarrow> token_ctx \<Rightarrow> bool result" where
  "verifyExecutionToken hm secret supplied c =
    constantTimeEqStr supplied (issueExecutionToken hm secret c)"

section \<open>Comparison is equality\<close>

lemma utf8_Nil [simp]: "utf8 [] = []"
  by (simp add: utf8_def)

lemma utf8_Cons: "utf8 (c # s) = (if code c < 128 then [c]
      else [char_of (192 + code c div 64), char_of (128 + code c mod 64)]) @ utf8 s"
  by (simp add: utf8_def)

lemma two_byte_lead:
  assumes "128 \<le> code c"
  shows "code (char_of (192 + code c div 64)) = 192 + code c div 64"
    "code (char_of (128 + code c mod 64)) = 128 + code c mod 64"
  using assms code_range [of c] by (auto intro!: code_char_of)

lemma code_eq_iff: "code a = code b \<longleftrightarrow> a = b"
  by (metis char_of_code)

lemma utf8_inject: "utf8 a = utf8 b \<longleftrightarrow> a = b"
proof (induction a arbitrary: b)
  case Nil
  then show ?case by (cases b) (auto simp: utf8_Cons)
next
  case (Cons c a)
  show ?case
  proof (cases b)
    case Nil
    then show ?thesis by (simp add: utf8_Cons)
  next
    case (Cons d b')
    have lead: False if "128 \<le> code x" "code y < 128" "char_of (192 + code x div 64) = y" for x y
      using that two_byte_lead [OF that(1)] by auto
    have trail: "x = y" if "128 \<le> code x" "128 \<le> code y"
      "(char_of (192 + code x div 64) :: char) = char_of (192 + code y div 64)"
      "(char_of (128 + code x mod 64) :: char) = char_of (128 + code y mod 64)" for x y
    proof -
      have "192 + code x div 64 = 192 + code y div 64" "128 + code x mod 64 = 128 + code y mod 64"
        using that(3,4) two_byte_lead [OF that(1)] two_byte_lead [OF that(2)] by metis+
      then have "code x div 64 = code y div 64" "code x mod 64 = code y mod 64" by simp_all
      then have "code x = code y" by (metis mult_div_mod_eq)
      then show ?thesis by (simp add: code_eq_iff)
    qed
    note IH = Cons.IH [of b']
    consider "code c < 128" "code d < 128" | "code c < 128" "128 \<le> code d"
      | "128 \<le> code c" "code d < 128" | "128 \<le> code c" "128 \<le> code d" by linarith
    then show ?thesis
    proof cases
      case 1
      then show ?thesis using IH by (simp add: Cons utf8_Cons)
    next
      case 2
      then have "c \<noteq> d" by auto
      with 2 lead [of d c] show ?thesis by (auto simp: Cons utf8_Cons)
    next
      case 3
      then have "c \<noteq> d" by auto
      with 3 lead [of c d] show ?thesis by (auto simp: Cons utf8_Cons)
    next
      case 4
      then have "utf8 (c # a) = utf8 b \<longleftrightarrow>
          ((char_of (192 + code c div 64) :: char) = char_of (192 + code d div 64) \<and>
           (char_of (128 + code c mod 64) :: char) = char_of (128 + code d mod 64)) \<and> utf8 a = utf8 b'"
        by (simp add: Cons utf8_Cons)
      also have "\<dots> \<longleftrightarrow> c = d \<and> a = b'" using trail [OF 4] IH by blast
      finally show ?thesis by (simp add: Cons)
    qed
  qed
qed

lemma constantTimeEqStr_True [simp]: "constantTimeEqStr a b = Inr True \<longleftrightarrow> a = b"
  by (auto simp: constantTimeEqStr_def utf8_inject)

lemma constantTimeEqStr_False: "constantTimeEqStr a b = Inr False \<Longrightarrow> a \<noteq> b"
  using constantTimeEqStr_True [of a b] by auto

section \<open>Canonical messages determine their fields\<close>

definition bar_free :: "string \<Rightarrow> bool" where
  "bar_free s \<longleftrightarrow> CHR ''|'' \<notin> set s"

lemma bar_free_append [simp]: "bar_free (s @ t) \<longleftrightarrow> bar_free s \<and> bar_free t"
  by (auto simp: bar_free_def)

lemma bar_split:
  assumes "bar_free x" and "bar_free y" and "x @ CHR ''|'' # s = y @ CHR ''|'' # t"
  shows "x = y \<and> s = t"
  using assms
proof (induction x arbitrary: y)
  case Nil
  then show ?case by (cases y) (auto simp: bar_free_def)
next
  case (Cons c x)
  then show ?case by (cases y) (auto simp: bar_free_def)
qed

text \<open>All fields but the last have to be free of the separator.\<close>

lemma join_bar_inject:
  assumes "length xs = length ys" and "list_all bar_free (butlast xs)" and "list_all bar_free (butlast ys)"
  shows "join_bar xs = join_bar ys \<longleftrightarrow> xs = ys"
  using assms
proof (induction xs ys rule: list_induct2)
  case Nil
  then show ?case by simp
next
  case (Cons x xs y ys)
  show ?case
  proof (cases xs)
    case Nil
    with Cons.hyps show ?thesis by simp
  next
    case (Cons x' xs')
    with Cons.hyps obtain y' ys' where ys: "ys = y' # ys'" by (cases ys) auto
    show ?thesis
    proof
      assume "join_bar (x # xs) = join_bar (y # ys)"
      then have "x @ CHR ''|'' # join_bar xs = y @ CHR ''|'' # join_bar ys" by (simp add: Cons ys)
      moreover have "bar_free x" "bar_free y" using Cons.prems by (simp_all add: Cons ys)
      ultimately have "x = y" "join_bar xs = join_bar ys" using bar_split by blast+
      with Cons.IH Cons.prems show "x # xs = y # ys" by (simp add: Cons ys)
    qed simp
  qed
qed

lemma bar_free_hex_digit: "0 \<le> d \<Longrightarrow> d < 16 \<Longrightarrow> bar_free [hex_digit d]"
proof -
  assume d: "0 \<le> d" "d < 16"
  have "code (hex_digit d) = (if d < 10 then 48 + d else 87 + d)"
    unfolding hex_digit_def using d by (intro code_char_of) auto
  then have "code (hex_digit d) \<noteq> code (CHR ''|'')" using d by (simp add: code_def split: if_splits)
  then show ?thesis by (auto simp: bar_free_def)
qed

lemma bar_free_pad [simp]: "bar_free (pad_digits k n)"
  by (induction k arbitrary: n) (simp_all add: bar_free_hex_digit, simp add: bar_free_def)

lemma bar_free_iso [simp]: "bar_free (toISOString ms)"
proof -
  have "bar_free ''-''" "bar_free ''T''" "bar_free '':''" "bar_free ''.''" "bar_free ''Z''"
    by (simp_all add: bar_free_def)
  then show ?thesis
    unfolding toISOString_def Let_def by (cases "civil_of_days (ms div ms_per_day)")
      (simp only: prod.case bar_free_append bar_free_pad simp_thms)
qed

lemma bar_free_big [simp]: "bar_free (big_to_string n)"
proof -
  have "bar_free (nat_digits m)" if "0 \<le> m" for m
    using nat_digits_codes [OF that] by (auto simp: bar_free_def code_def)
  moreover have "bar_free ''-''" by (simp add: bar_free_def)
  ultimately show ?thesis by (auto simp: big_to_string_def bar_free_def)
qed

text \<open>The identity an execution token stands for.\<close>

definition token_identity :: "token_ctx \<Rightarrow> string \<times> string \<times> int \<times> string \<times> string" where
  "token_identity c = (tk_intentId c, to_lower (tk_owner c), tk_chainId c,
     toISOString (tk_walletLockUntilAt c), tk_lockNonce c)"

definition token_fields_ok :: "token_ctx \<Rightarrow> bool" where
  "token_fields_ok c \<longleftrightarrow> bar_free (tk_intentId c) \<and> bar_free (to_lower (tk_owner c))"

lemma executionTokenPayload_inject:
  assumes "token_fields_ok c" and "token_fields_ok c'"
  shows "executionTokenPayload c = executionTokenPayload c' \<longleftrightarrow> token_identity c = token_identity c'"
proof -
  have b: "bar_free ''sea-execution-token-v1''" by (simp add: bar_free_def)
  show ?thesis
    unfolding executionTokenPayload_def
    by (subst join_bar_inject) (use assms b in \<open>auto simp: token_fields_ok_def token_identity_def\<close>)
qed

lemma payload_domains_disjoint:
  "lockNoncePayload n \<noteq> executionTokenPayload c"
  by (simp add: lockNoncePayload_def executionTokenPayload_def)

definition collision :: "(string \<Rightarrow> string \<Rightarrow> string) \<Rightarrow> string \<Rightarrow> string \<Rightarrow> string \<Rightarrow> bool" where
  "collision hm secret p q \<longleftrightarrow> p \<noteq> q \<and> hm secret p = hm secret q"

text \<open>
  C38. An execution token is bound to everything it was issued for: a token issued for one
  intent, owner, chain, lock time and nonce passes verification for another only where the HMAC
  itself collides on the two canonical messages, and a lock nonce never passes as an execution
  token under the same secret without such a collision either. Verification decides exactly string equality, or throws when the
  supplied string has characters outside ASCII.
\<close>

theorem execution_token_is_bound:
  assumes "token_fields_ok c" and "token_fields_ok c'"
  shows "(verifyExecutionToken hm secret (issueExecutionToken hm secret c) c' = Inr True \<longrightarrow>
      token_identity c = token_identity c' \<or>
      collision hm secret (executionTokenPayload c) (executionTokenPayload c')) \<and>
    (token_identity c = token_identity c' \<longrightarrow>
      verifyExecutionToken hm secret (issueExecutionToken hm secret c) c' = Inr True) \<and>
    (verifyExecutionToken hm secret (issueLockNonce hm secret n) c' = Inr True \<longrightarrow>
      collision hm secret (lockNoncePayload n) (executionTokenPayload c')) \<and>
    (verifyExecutionToken hm secret supplied c' = Inr True \<longleftrightarrow>
      supplied = issueExecutionToken hm secret c')"
  using executionTokenPayload_inject [OF assms] payload_domains_disjoint [of n c']
  by (auto simp: verifyExecutionToken_def issueExecutionToken_def issueLockNonce_def collision_def)

definition sample_hmac :: "string \<Rightarrow> string \<Rightarrow> string" where
  "sample_hmac secret p = secret @ ''.'' @ p"

definition sample_token :: "int \<Rightarrow> token_ctx" where
  "sample_token until = \<lparr>tk_intentId = ''i1'', tk_owner = ''0xA'', tk_chainId = 84532,
     tk_walletLockUntilAt = until, tk_lockNonce = ''n''\<rparr>"

theorem execution_token_is_bound_witness:
  "verifyExecutionToken sample_hmac ''s'' (issueExecutionToken sample_hmac ''s'' (sample_token 1000)) (sample_token 1000)
     = Inr True \<and>
   verifyExecutionToken sample_hmac ''s'' (issueExecutionToken sample_hmac ''s'' (sample_token 1000)) (sample_token 2000)
     \<noteq> Inr True"
proof -
  have ok: "token_fields_ok (sample_token 1000)" "token_fields_ok (sample_token 2000)" by code_simp+
  have ne: "token_identity (sample_token 1000) \<noteq> token_identity (sample_token 2000)" by code_simp
  have nc: "\<not> collision sample_hmac ''s'' p q" for p q by (simp add: collision_def sample_hmac_def)
  show ?thesis
    using execution_token_is_bound [OF ok(1) ok(1), of sample_hmac "''s''"]
      execution_token_is_bound [OF ok, of sample_hmac "''s''"] ne nc by blast
qed

end
