(* ===== verification/ZeroEx.thy ===== *)
theory ZeroEx
  imports OrderBook ExecToken
begin

text \<open>
  \<open>apps/api/src/zeroex\<close>: the address resolution of \<open>addresses.service.ts\<close>, the EIP-712 order
  hash and signature check of \<open>signing.service.ts\<close>, and the order and signature readers the SEA
  services share (\<open>sanitizeOrder\<close>, \<open>parseSigHexToTuple\<close>). The cryptographic primitives of the
  \<open>ethers\<close> package and the address table of \<open>@0x/contract-addresses\<close> are the record
  \<open>zx_ext\<close>; each may throw.
\<close>

section \<open>The outside\<close>

record limit_order =
  lo_makerToken :: string
  lo_takerToken :: string
  lo_makerAmount :: int
  lo_takerAmount :: int
  lo_takerTokenFeeAmount :: int
  lo_maker :: string
  lo_taker :: string
  lo_sender :: string
  lo_feeRecipient :: string
  lo_pool :: string
  lo_expiry :: jnum
  lo_salt :: int

record zx_sig =
  zs_signatureType :: int
  zs_v :: jnum
  zs_r :: string
  zs_s :: string

record zx_ext =
  zx_contractAddresses :: "int \<Rightarrow> string option result"
  zx_typedDataHash :: "int \<Rightarrow> string \<Rightarrow> limit_order \<Rightarrow> string result"
  zx_personalDigest :: "string \<Rightarrow> string result"
  zx_recoverAddress :: "string \<Rightarrow> jnum \<Rightarrow> string \<Rightarrow> string \<Rightarrow> string result"
  zx_verifyMessage :: "string \<Rightarrow> string \<Rightarrow> string result"

record zx_config =
  zc_chainId :: int
  zc_exchangeProxy :: "string option"
  zc_allowanceSpender :: "string option"

section \<open>Addresses\<close>

definition PERMIT2_ALLOWANCE_HOLDER :: string where
  "PERMIT2_ALLOWANCE_HOLDER = ''0xdef1c0ded9bec7f1a1670819833240f027b25eff''"

text \<open>A configured value that is absent or the empty string.\<close>

definition non_empty :: "string option \<Rightarrow> string option" where
  "non_empty s = (case s of Some v \<Rightarrow> if v = [] then None else Some v | None \<Rightarrow> None)"

definition resolve :: "zx_ext \<Rightarrow> zx_config \<Rightarrow> (string \<times> string) result" where
  "resolve x cfg =
    (let ep = (case non_empty (zc_exchangeProxy cfg) of
                 Some v \<Rightarrow> Some v
               | None \<Rightarrow> (case zx_contractAddresses x (zc_chainId cfg) of
                            Inl e \<Rightarrow> None | Inr r \<Rightarrow> non_empty r));
         sp = (case non_empty (zc_allowanceSpender cfg) of
                 Some v \<Rightarrow> v | None \<Rightarrow> PERMIT2_ALLOWANCE_HOLDER)
     in case ep of
          None \<Rightarrow> Inl (PlainError (''Missing 0x Exchange Proxy for chainId='' @ big_to_string (zc_chainId cfg) @
             ''. Set ZEROEX_EXCHANGE_PROXY or use a supported chain in @0x/contract-addresses.''))
        | Some v \<Rightarrow> Inr (v, sp))"

section \<open>Reading an order\<close>

definition ZERO_BYTES32 :: string where
  "ZERO_BYTES32 = ''0x0000000000000000000000000000000000000000000000000000000000000000''"

definition toAddr :: "jval \<Rightarrow> string" where
  "toAddr v = (case v of JStr s \<Rightarrow> if is_0x_hex 40 s then to_lower s else zero_address | _ \<Rightarrow> zero_address)"

definition toBytes32 :: "jval \<Rightarrow> string" where
  "toBytes32 v = (case v of JStr s \<Rightarrow> if is_0x_hex 64 s then to_lower s else ZERO_BYTES32 | _ \<Rightarrow> ZERO_BYTES32)"

definition toBig :: "jval \<Rightarrow> int result" where
  "toBig v =
    (case v of
       JBig i \<Rightarrow> Inr i
     | JNum n \<Rightarrow> js_BigInt v
     | JStr s \<Rightarrow> (case str_to_bigint s of Inl e \<Rightarrow> Inr 0 | Inr i \<Rightarrow> Inr i)
     | _ \<Rightarrow> Inr 0)"

definition toNum :: "jval \<Rightarrow> jnum" where
  "toNum v =
    (case v of
       JNum n \<Rightarrow> n
     | JBig i \<Rightarrow> num i
     | JStr s \<Rightarrow> if num_finite (str_to_num s) then str_to_num s else num 0
     | _ \<Rightarrow> num 0)"

definition sanitizeOrder :: "jval \<Rightarrow> limit_order result" where
  "sanitizeOrder raw =
    bind_res (toBig (jget raw ''makerAmount'')) (\<lambda>ma.
    bind_res (toBig (jget raw ''takerAmount'')) (\<lambda>ta.
    bind_res (toBig (jget raw ''takerTokenFeeAmount'')) (\<lambda>fee.
    bind_res (toBig (jget raw ''salt'')) (\<lambda>salt. Inr
      \<lparr>lo_makerToken = toAddr (jget raw ''makerToken''), lo_takerToken = toAddr (jget raw ''takerToken''),
       lo_makerAmount = ma, lo_takerAmount = ta, lo_takerTokenFeeAmount = fee,
       lo_maker = toAddr (jget raw ''maker''), lo_taker = toAddr (jget raw ''taker''),
       lo_sender = toAddr (jget raw ''sender''), lo_feeRecipient = toAddr (jget raw ''feeRecipient''),
       lo_pool = toBytes32 (jget raw ''pool''), lo_expiry = toNum (jget raw ''expiry''),
       lo_salt = salt\<rparr>))))"

definition parseSigHexToTuple :: "string \<Rightarrow> zx_sig option" where
  "parseSigHexToTuple sigHex =
    (let hex = strip_0x sigHex in
     if length hex \<noteq> 130 then None
     else Some \<lparr>zs_signatureType = 2, zs_v = lift_v (parse_int 16 (js_slice 128 130 hex)),
                zs_r = ''0x'' @ js_slice 0 64 hex, zs_s = ''0x'' @ js_slice 64 128 hex\<rparr>)"

section \<open>Signing\<close>

text \<open>The object of a typed order, as the signing service receives it.\<close>

definition order_json :: "limit_order \<Rightarrow> jval" where
  "order_json lo = JObj
    [(''makerToken'', JStr (lo_makerToken lo)), (''takerToken'', JStr (lo_takerToken lo)),
     (''makerAmount'', JBig (lo_makerAmount lo)), (''takerAmount'', JBig (lo_takerAmount lo)),
     (''takerTokenFeeAmount'', JBig (lo_takerTokenFeeAmount lo)), (''maker'', JStr (lo_maker lo)),
     (''taker'', JStr (lo_taker lo)), (''sender'', JStr (lo_sender lo)),
     (''feeRecipient'', JStr (lo_feeRecipient lo)), (''pool'', JStr (lo_pool lo)),
     (''expiry'', JNum (lo_expiry lo)), (''salt'', JBig (lo_salt lo))]"

definition sig_json :: "zx_sig \<Rightarrow> jval" where
  "sig_json sg = JObj [(''signatureType'', JNum (num (zs_signatureType sg))), (''v'', JNum (zs_v sg)),
     (''r'', JStr (zs_r sg)), (''s'', JStr (zs_s sg))]"

definition asAddr :: "jval \<Rightarrow> string" where
  "asAddr v = (case v of JStr s \<Rightarrow> if starts_with s ''0x'' \<and> length s = 42 then s else zero_address
     | _ \<Rightarrow> zero_address)"

definition asBytes32 :: "jval \<Rightarrow> string" where
  "asBytes32 v = (case v of JStr s \<Rightarrow> if starts_with s ''0x'' \<and> length s = 66 then s else ZERO_BYTES32
     | _ \<Rightarrow> ZERO_BYTES32)"

definition asBig :: "jval \<Rightarrow> int result" where
  "asBig v =
    (case v of
       JBig i \<Rightarrow> Inr i
     | JNum n \<Rightarrow> js_BigInt v
     | JStr s \<Rightarrow> if s \<noteq> [] then str_to_bigint s else Inr 0
     | _ \<Rightarrow> Inr 0)"

definition asNum :: "jval \<Rightarrow> jnum" where
  "asNum v = (case v of JNum n \<Rightarrow> n | JStr s \<Rightarrow> if s \<noteq> [] then str_to_num s else num 0 | _ \<Rightarrow> num 0)"

definition normalize :: "jval \<Rightarrow> limit_order result" where
  "normalize v =
    bind_res (asBig (jget v ''makerAmount'')) (\<lambda>ma.
    bind_res (asBig (jget v ''takerAmount'')) (\<lambda>ta.
    bind_res (asBig (jget v ''takerTokenFeeAmount'')) (\<lambda>fee.
    bind_res (asBig (jget v ''salt'')) (\<lambda>salt. Inr
      \<lparr>lo_makerToken = asAddr (jget v ''makerToken''), lo_takerToken = asAddr (jget v ''takerToken''),
       lo_makerAmount = ma, lo_takerAmount = ta, lo_takerTokenFeeAmount = fee,
       lo_maker = asAddr (jget v ''maker''), lo_taker = asAddr (jget v ''taker''),
       lo_sender = asAddr (jget v ''sender''), lo_feeRecipient = asAddr (jget v ''feeRecipient''),
       lo_pool = asBytes32 (jget v ''pool''), lo_expiry = asNum (jget v ''expiry''),
       lo_salt = salt\<rparr>))))"

definition getOrderHash :: "zx_ext \<Rightarrow> zx_config \<Rightarrow> int \<Rightarrow> jval \<Rightarrow> string result" where
  "getOrderHash x cfg chainId order =
    bind_res (resolve x cfg) (\<lambda>(ep, _).
    bind_res (normalize order) (zx_typedDataHash x chainId ep))"

text \<open>The result is \<open>recovered\<close>; \<open>valid\<close> is its being a non-empty string.\<close>

definition verifySignature ::
  "zx_ext \<Rightarrow> zx_config \<Rightarrow> int \<Rightarrow> jval \<Rightarrow> zx_sig \<Rightarrow> string option result" where
  "verifySignature x cfg chainId order sg =
    bind_res (getOrderHash x cfg chainId order) (\<lambda>orderHash.
      if zs_signatureType sg = 2
      then bind_res (zx_recoverAddress x orderHash (zs_v sg) (zs_r sg) (zs_s sg)) (\<lambda>a. Inr (non_empty (Some a)))
      else if zs_signatureType sg = 3
      then bind_res (zx_personalDigest x orderHash) (\<lambda>digest.
             bind_res (zx_recoverAddress x digest (zs_v sg) (zs_r sg) (zs_s sg)) (\<lambda>a. Inr (non_empty (Some a))))
      else Inr None)"

section \<open>Sanitised orders\<close>

lemma is_0x_hex_shape: "is_0x_hex n s \<Longrightarrow> starts_with s ''0x'' \<and> length s = n + 2"
  by (simp add: is_0x_hex_def)

lemma starts_with_lower_0x: "starts_with s ''0x'' \<Longrightarrow> starts_with (to_lower s) ''0x''"
  by (auto simp: starts_with_two to_lower_def lower_char_def code_def)

lemma toAddr_shape: "starts_with (toAddr v) ''0x'' \<and> length (toAddr v) = 42"
  using is_0x_hex_shape [of 40] starts_with_lower_0x
  by (auto simp: toAddr_def zero_address_def split: jval.splits)

lemma toBytes32_shape: "starts_with (toBytes32 v) ''0x'' \<and> length (toBytes32 v) = 66"
  using is_0x_hex_shape [of 64] starts_with_lower_0x
  by (auto simp: toBytes32_def ZERO_BYTES32_def split: jval.splits)

lemma to_lower_toAddr [simp]: "to_lower (toAddr v) = toAddr v"
proof -
  have "to_lower zero_address = zero_address" by code_simp
  then show ?thesis by (auto simp: toAddr_def split: jval.splits)
qed

lemma sanitizeOrder_fields:
  assumes "sanitizeOrder raw = Inr lo"
  shows "lo_makerToken lo = toAddr (jget raw ''makerToken'')"
    "lo_takerToken lo = toAddr (jget raw ''takerToken'')" "lo_maker lo = toAddr (jget raw ''maker'')"
    "toBig (jget raw ''makerAmount'') = Inr (lo_makerAmount lo)"
    "toBig (jget raw ''takerAmount'') = Inr (lo_takerAmount lo)"
    "toBig (jget raw ''salt'') = Inr (lo_salt lo)"
  using assms by (auto simp: sanitizeOrder_def)

text \<open>Normalising a sanitised order changes nothing.\<close>

lemma normalize_sanitized:
  assumes "sanitizeOrder raw = Inr lo"
  shows "normalize (order_json lo) = Inr lo"
proof -
  have "asAddr (JStr (toAddr v)) = toAddr v" for v using toAddr_shape [of v] by (simp add: asAddr_def)
  moreover have "asBytes32 (JStr (toBytes32 v)) = toBytes32 v" for v
    using toBytes32_shape [of v] by (simp add: asBytes32_def)
  ultimately show ?thesis
    using assms by (auto simp: sanitizeOrder_def normalize_def order_json_def asBig_def asNum_def)
qed

end
