(* ===== verification/RpcTransient.thy ===== *)
theory RpcTransient
  imports JsVal
begin

text \<open>
  \<open>apps/api/src/onchain/rpc-transient.util.ts\<close>: the classification of RPC failures the
  placement guard and the watchers share, the watchers' exponential backoff, and the resolution
  of their enable flags. An error is a \<open>jval\<close>: a tree of objects, so the walk of the source
  never meets an object twice and only its bound of twelve objects matters.
\<close>

section \<open>Classification\<close>

definition NON_TRANSIENT_CODES :: "string list" where
  "NON_TRANSIENT_CODES =
    [''CALL_EXCEPTION'', ''BAD_DATA'', ''INVALID_ARGUMENT'', ''UNCONFIGURED_NAME'',
     ''NUMERIC_FAULT'', ''UNSUPPORTED_OPERATION'', ''NONCE_EXPIRED'',
     ''REPLACEMENT_UNDERPRICED'', ''INSUFFICIENT_FUNDS'', ''ACTION_REJECTED'']"

definition TRANSIENT_CODES :: "string list" where
  "TRANSIENT_CODES = [''TIMEOUT'', ''NETWORK_ERROR'']"

text \<open>A pattern is a list of words; between two words at most one character but a newline.\<close>

fun matches_here :: "string list \<Rightarrow> string \<Rightarrow> bool" where
  "matches_here [] s = True"
| "matches_here [w] s = starts_with s w"
| "matches_here (w # ws) s =
    (starts_with s w \<and>
      (let t = drop (length w) s in
       matches_here ws t \<or> (t \<noteq> [] \<and> code (hd t) \<noteq> 10 \<and> code (hd t) \<noteq> 13 \<and> matches_here ws (tl t))))"

fun matches_in :: "string list \<Rightarrow> string \<Rightarrow> bool" where
  "matches_in p [] = matches_here p []"
| "matches_in p (c # s) = (matches_here p (c # s) \<or> matches_in p s)"

definition TRANSIENT_MESSAGE :: "string list list" where
  "TRANSIENT_MESSAGE =
    [[''too many requests''], [''rate'', ''limit''], [''compute unit''], [''quota''], [''capacity''],
     [''over'', ''rate''], [''throttl''], [''temporarily unavailable''], [''service unavailable''],
     [''request limit'']]"

definition transient_message :: "string \<Rightarrow> bool" where
  "transient_message s \<longleftrightarrow> list_ex (\<lambda>p. matches_in p (to_lower s)) TRANSIENT_MESSAGE"

record collected =
  c_codes :: "string list"
  c_statuses :: "rat list"
  c_messages :: "string list"

definition status_of :: "jval \<Rightarrow> rat list \<times> string list" where
  "status_of raw =
    (case raw of
       JNum (Fin q) \<Rightarrow> ([q], [])
     | JStr s \<Rightarrow> (case parse_int 10 s of Fin q \<Rightarrow> ([q], [s]) | _ \<Rightarrow> ([], [s]))
     | _ \<Rightarrow> ([], []))"

definition strings_of :: "jval \<Rightarrow> string list" where
  "strings_of v = (case v of JStr s \<Rightarrow> [s] | _ \<Rightarrow> [])"

definition collect_one :: "jval \<Rightarrow> collected \<Rightarrow> collected" where
  "collect_one obj acc =
    (let sts = map (\<lambda>k. status_of (jget obj k)) [''status'', ''statusCode'', ''responseStatus'']
     in \<lparr>c_codes = c_codes acc @ strings_of (jget obj ''code''),
         c_statuses = c_statuses acc @ concat (map fst sts),
         c_messages = c_messages acc @ concat (map snd sts) @
           concat (map (\<lambda>k. strings_of (jget obj k)) [''message'', ''shortMessage'', ''reason'', ''body''])\<rparr>)"

text \<open>The stack's top is the head: \<open>info\<close>, \<open>error\<close>, \<open>cause\<close> are pushed in this order.\<close>

definition nested :: "jval \<Rightarrow> jval list" where
  "nested obj = filter truthy [jget obj ''cause'', jget obj ''error'', jget obj ''info'']"

function collect_loop :: "nat \<Rightarrow> jval list \<Rightarrow> collected \<Rightarrow> collected" where
  "collect_loop room [] acc = acc"
| "collect_loop room (cur # stack) acc =
    (case cur of
       JObj _ \<Rightarrow>
         (if room = 0 then acc
          else collect_loop (room - 1) (nested cur @ stack) (collect_one cur acc))
     | _ \<Rightarrow> collect_loop room stack acc)"
  by pat_completeness auto
termination
  by (relation "measures [\<lambda>(room, stack, acc). room, \<lambda>(room, stack, acc). length stack]") auto

declare collect_loop.simps [simp del]

definition collect_err :: "jval \<Rightarrow> collected" where
  "collect_err err =
    (let c = collect_loop 12 [err] \<lparr>c_codes = [], c_statuses = [], c_messages = []\<rparr>
     in c\<lparr>c_messages := c_messages c @ strings_of err\<rparr>)"

fun join_pipes :: "string list \<Rightarrow> string" where
  "join_pipes [] = []"
| "join_pipes [s] = s"
| "join_pipes (s # ss) = s @ '' | '' @ join_pipes ss"

definition isTransientRpcError :: "jval \<Rightarrow> bool" where
  "isTransientRpcError e =
    (if jnullish e then False
     else let c = collect_err e in
       if list_ex (\<lambda>x. x \<in> set NON_TRANSIENT_CODES) (c_codes c) then False
       else if list_ex (\<lambda>s. s = 429 \<or> (500 \<le> s \<and> s \<le> 599)) (c_statuses c) then True
       else if list_ex (\<lambda>x. x \<in> set TRANSIENT_CODES) (c_codes c) then True
       else transient_message (join_pipes (c_messages c)))"

section \<open>Backoff\<close>

record backoff =
  bo_attempt :: nat
  bo_baseMs :: int
  bo_maxMs :: int

definition positive_floor :: "jnum \<Rightarrow> int \<Rightarrow> int" where
  "positive_floor v d = (case v of Fin q \<Rightarrow> if 0 < q then \<lfloor>q\<rfloor> else d | _ \<Rightarrow> d)"

definition new_backoff :: "jnum \<Rightarrow> jnum \<Rightarrow> backoff" where
  "new_backoff baseMs maxMs =
    (let base = positive_floor baseMs 15000; cap = positive_floor maxMs 120000
     in \<lparr>bo_attempt = 0, bo_baseMs = base, bo_maxMs = max base cap\<rparr>)"

definition nextDelay :: "backoff \<Rightarrow> int \<times> backoff" where
  "nextDelay b =
    (let factor = 2 ^ min (bo_attempt b) 30;
         delay = min (bo_maxMs b) (bo_baseMs b * factor)
     in (delay, b\<lparr>bo_attempt := bo_attempt b + 1\<rparr>))"

definition reset :: "backoff \<Rightarrow> backoff" where
  "reset b = b\<lparr>bo_attempt := 0\<rparr>"

definition resolveWatcherEnabled :: "string option \<Rightarrow> string option \<Rightarrow> bool" where
  "resolveWatcherEnabled specific legacy =
    (let s = trim (case specific of Some v \<Rightarrow> v | None \<Rightarrow> []) in
     if s = ''1'' then True
     else if s = ''0'' then False
     else (case legacy of Some v \<Rightarrow> v | None \<Rightarrow> []) = ''1'')"

section \<open>Properties\<close>

text \<open>The delays of \<open>n\<close> failed ticks in a row.\<close>

fun delays :: "nat \<Rightarrow> backoff \<Rightarrow> int list" where
  "delays 0 b = []"
| "delays (Suc n) b = (let (d, b') = nextDelay b in d # delays n b')"

lemma delays_nth:
  "k < n \<Longrightarrow> delays n b ! k = min (bo_maxMs b) (bo_baseMs b * 2 ^ min (bo_attempt b + k) 30)"
proof (induction n arbitrary: b k)
  case (Suc n)
  show ?case
  proof (cases k)
    case (Suc j)
    with Suc.prems Suc.IH [of j "snd (nextDelay b)"] show ?thesis
      by (simp add: nextDelay_def Let_def)
  qed (simp add: nextDelay_def Let_def)
qed simp

lemma new_backoff_range: "0 \<le> bo_baseMs (new_backoff x y) \<and> bo_baseMs (new_backoff x y) \<le> bo_maxMs (new_backoff x y)"
  by (auto simp: new_backoff_def Let_def positive_floor_def split: jnum.splits)

text \<open>
  The watchers' backoff is bounded exponential: whatever the two environment numbers are
  (missing, \<open>NaN\<close>, negative, infinite), the \<open>k\<close>-th consecutive delay is the base doubled \<open>k\<close>
  times (at most 30) and capped, so the delays never decrease, never exceed the ceiling and
  never fall below the base, and after a reset the sequence starts again at the base.
\<close>

theorem backoff_bounded_and_monotone:
  assumes "k \<le> m" and "m < n" and b_def: "b = new_backoff x y"
  shows "delays n b ! k = min (bo_maxMs b) (bo_baseMs b * 2 ^ min k 30) \<and>
    delays n b ! k \<le> delays n b ! m \<and>
    bo_baseMs b \<le> delays n b ! k \<and> delays n b ! m \<le> bo_maxMs b \<and>
    fst (nextDelay (reset (b\<lparr>bo_attempt := j\<rparr>))) = bo_baseMs b"
proof -
  have a: "bo_attempt b = 0" by (simp add: b_def new_backoff_def Let_def)
  have r: "0 \<le> bo_baseMs b" "bo_baseMs b \<le> bo_maxMs b" using new_backoff_range by (auto simp: b_def)
  have k: "delays n b ! i = min (bo_maxMs b) (bo_baseMs b * 2 ^ min i 30)" if "i < n" for i
    using delays_nth [OF that, of b] a by simp
  have "(2 :: int) ^ min k 30 \<le> 2 ^ min m 30" using assms by (intro power_increasing) auto
  then have "bo_baseMs b * 2 ^ min k 30 \<le> bo_baseMs b * 2 ^ min m 30"
    using r by (intro mult_left_mono) auto
  moreover have "bo_baseMs b * 1 \<le> bo_baseMs b * 2 ^ min k 30"
    using r by (intro mult_left_mono) auto
  ultimately have "min (bo_maxMs b) (bo_baseMs b * 2 ^ min k 30) \<le> min (bo_maxMs b) (bo_baseMs b * 2 ^ min m 30)"
    "bo_baseMs b \<le> min (bo_maxMs b) (bo_baseMs b * 2 ^ min k 30)" using r by auto
  moreover have "fst (nextDelay (reset (b\<lparr>bo_attempt := j\<rparr>))) = bo_baseMs b"
    using r by (simp add: nextDelay_def reset_def)
  ultimately show ?thesis
    using k [of k] k [of m] assms(1,2) by simp
qed

theorem backoff_bounded_and_monotone_witness:
  "delays 5 (new_backoff (Fin 1000) (Fin 5000)) ! 2 = 4000 \<and>
   delays 5 (new_backoff (Fin 1000) (Fin 5000)) ! 2 \<le> delays 5 (new_backoff (Fin 1000) (Fin 5000)) ! 4"
proof -
  have "bo_baseMs (new_backoff (Fin 1000) (Fin 5000)) = 1000" "bo_maxMs (new_backoff (Fin 1000) (Fin 5000)) = 5000"
    by (simp_all add: new_backoff_def positive_floor_def)
  with backoff_bounded_and_monotone [of 2 4 5 "new_backoff (Fin 1000) (Fin 5000)" "Fin 1000" "Fin 5000" 0, OF _ _ refl]
  show ?thesis by simp
qed

lemma collect_one_codes: "c_codes (collect_one obj acc) = c_codes acc @ strings_of (jget obj ''code'')"
  by (simp add: collect_one_def Let_def)

lemma collect_loop_Nil: "collect_loop n [] acc = acc"
  by (rule collect_loop.simps(1))

lemma collect_loop_obj:
  "collect_loop n (JObj fs # st) acc =
    (if n = 0 then acc else collect_loop (n - 1) (nested (JObj fs) @ st) (collect_one (JObj fs) acc))"
  by (subst collect_loop.simps(2)) simp

lemma collect_loop_skip:
  "\<nexists>fs. cur = JObj fs \<Longrightarrow> collect_loop n (cur # st) acc = collect_loop n st acc"
  by (subst collect_loop.simps(2)) (cases cur; simp)

lemma collect_loop_codes: "set (c_codes acc) \<subseteq> set (c_codes (collect_loop n st acc))"
proof (induction n st acc rule: collect_loop.induct)
  case (1 n acc)
  then show ?case by (simp add: collect_loop_Nil)
next
  case (2 n cur st acc)
  show ?case
  proof (cases "\<exists>fs. cur = JObj fs")
    case True
    then obtain fs where fs: "cur = JObj fs" ..
    show ?thesis
    proof (cases "n = 0")
      case False
      from 2(7) [OF fs False] show ?thesis
        unfolding fs collect_loop_obj using False by (simp add: collect_one_codes)
    qed (simp add: fs collect_loop_obj)
  next
    case False
    then show ?thesis unfolding collect_loop_skip [OF False] using 2(1-6) by (cases cur) auto
  qed
qed

text \<open>
  The classification is conservative: an error object that carries a code of the bug class
  (revert, decode failure, bad argument, ...) is never transient, whatever status, message or
  nested cause comes with it.
\<close>

theorem bug_errors_never_transient:
  assumes "jget e ''code'' = JStr c" and "c \<in> set NON_TRANSIENT_CODES"
  shows "\<not> isTransientRpcError e"
proof -
  obtain fs where e: "e = JObj fs" using assms(1) by (cases e) auto
  let ?acc = "\<lparr>c_codes = [], c_statuses = [], c_messages = []\<rparr>"
  have "c_codes (collect_one e ?acc) = [c]"
    using assms(1) by (simp add: collect_one_codes strings_of_def)
  moreover have "collect_loop 12 [e] ?acc = collect_loop 11 (nested e @ []) (collect_one e ?acc)"
    unfolding e collect_loop_obj by simp
  ultimately have "c \<in> set (c_codes (collect_loop 12 [e] ?acc))"
    using collect_loop_codes [of "collect_one e ?acc" 11 "nested e @ []"] by simp
  then have "list_ex (\<lambda>x. x \<in> set NON_TRANSIENT_CODES) (c_codes (collect_err e))"
    using assms(2) unfolding collect_err_def Let_def list_ex_iff by auto
  then show ?thesis unfolding isTransientRpcError_def Let_def by simp
qed

theorem bug_errors_never_transient_witness:
  "\<not> isTransientRpcError (JObj [(''code'', JStr ''CALL_EXCEPTION''), (''status'', JNum (num 429))])
   \<and> isTransientRpcError (JObj [(''code'', JStr ''SERVER_ERROR''), (''status'', JNum (num 429))])"
proof -
  have "isTransientRpcError (JObj [(''code'', JStr ''SERVER_ERROR''), (''status'', JNum (num 429))])"
    by code_simp
  with bug_errors_never_transient [of "JObj [(''code'', JStr ''CALL_EXCEPTION''), (''status'', JNum (num 429))]"
      "''CALL_EXCEPTION''"]
  show ?thesis by (simp add: NON_TRANSIENT_CODES_def)
qed

end
