(* ===== verification/Placement.thy ===== *)
theory Placement
  imports Coherence RpcTransient
begin

text \<open>
  \<open>apps/api/src/matching/orders-placement.service.ts\<close>: the placement core that \<open>POST /orders\<close>
  and the SEA fire share, with the shadow check of
  \<open>apps/api/src/observability/shadow-checks.service.ts\<close>. The order is a \<open>jval\<close> (wire data).
  The two ERC-20 reads over RPC are arguments: each answers with a number or with the error
  object it throws.
\<close>

section \<open>The outside\<close>

record chain_ext =
  x_balanceOf :: "string \<Rightarrow> string \<Rightarrow> jval + int"
  x_allowance :: "string \<Rightarrow> string \<Rightarrow> jval + int"

definition err_message :: "jval \<Rightarrow> string" where
  "err_message e = json_string (jget e ''message'')"

section \<open>Shadow check\<close>

definition shadow_enabled :: "penv \<Rightarrow> bool" where
  "shadow_enabled pe \<longleftrightarrow> env_or_nullish pe ''DEV_SHADOW_CHECKS'' ''1'' \<noteq> ''0''"

definition shadow_blocking :: "penv \<Rightarrow> bool" where
  "shadow_blocking pe \<longleftrightarrow> env_or_nullish pe ''DEV_SHADOW_BLOCK'' ''0'' = ''1''"

text \<open>Any exception of the \<open>try\<close> block ends in \<open>ok: true\<close> with a warning.\<close>

definition checkMakerFunds :: "penv \<Rightarrow> chain_ext \<Rightarrow> jval \<Rightarrow> bool \<times> string list" where
  "checkMakerFunds pe x order =
    (if \<not> shadow_enabled pe then (True, [])
     else case (jget order ''maker'', jget order ''makerToken'', js_BigInt (jget order ''makerAmount'')) of
       (JStr mk, JStr token, Inr need) \<Rightarrow>
         (case x_balanceOf x token (to_lower mk) of
            Inl e \<Rightarrow> (True, [''shadow check error: '' @ err_message e])
          | Inr balance \<Rightarrow>
              (case x_allowance x token (to_lower mk) of
                 Inl e \<Rightarrow> (True, [''shadow check error: '' @ err_message e])
               | Inr allowance \<Rightarrow>
                   (let warnings =
                      (if balance < need then [''maker balance < need ('' @ big_to_string balance @
                         '' < '' @ big_to_string need @ '')''] else []) @
                      (if allowance < need then [''maker allowance < need ('' @ big_to_string allowance @
                         '' < '' @ big_to_string need @ '')''] else [])
                    in (warnings = [], warnings))))
     | _ \<Rightarrow> (True, [''shadow check error'']))"

section \<open>Guards\<close>

text \<open>\<open>toLower(s)\<close>: \<open>s.trim().toLowerCase()\<close>, a \<open>TypeError\<close> when \<open>s\<close> is no string.\<close>

definition toLower :: "jval \<Rightarrow> string result" where
  "toLower v = (case v of JStr s \<Rightarrow> Inr (to_lower (trim s)) | _ \<Rightarrow> Inl TypeError)"

definition or_default :: "jval \<Rightarrow> string \<Rightarrow> jval" where
  "or_default v d = (if jnullish v then JStr d else v)"

definition fee_recipient_policy :: "penv \<Rightarrow> string" where
  "fee_recipient_policy pe =
    to_lower (env_or_falsy pe ''TAKER_FEE_RECIPIENT'' (env_or_falsy pe ''FEE_RECIPIENT'' ''''))"

definition check_fee_policy :: "penv \<Rightarrow> jval \<Rightarrow> unit result" where
  "check_fee_policy pe order =
    (let feeBps = str_to_num (env_or_falsy pe ''TAKER_FEE_BPS'' ''0'');
         policy = fee_recipient_policy pe
     in if \<not> (num_less (num 0) feeBps \<or> policy \<noteq> []) then Inr ()
        else
          bind_res (toLower (if truthy (jget order ''feeRecipient'') then jget order ''feeRecipient'' else JStr ''''))
            (\<lambda>feeRecipient.
          bind_res (js_BigInt (or_default (jget order ''takerAmount'') ''0'')) (\<lambda>takerAmt.
          bind_res (js_BigInt (or_default (jget order ''takerTokenFeeAmount'') ''0'')) (\<lambda>gotFee.
          bind_res (if num_less (num 0) feeBps
                    then bind_res (js_BigInt (JNum feeBps)) (\<lambda>bps. Inr (tdiv (takerAmt * bps) 10000))
                    else Inr 0) (\<lambda>expectedMinFee.
            if policy \<noteq> [] \<and> feeRecipient \<noteq> policy then Inl (BadRequest ''invalid_fee_recipient'')
            else if num_less (num 0) feeBps \<and> gotFee < expectedMinFee
            then Inl (BadRequest ''taker_fee_too_low_for_policy'')
            else Inr ())))))"

definition find_market :: "string \<Rightarrow> string \<Rightarrow> market_basic list \<Rightarrow> market_basic option" where
  "find_market makerToken takerToken markets =
    find (\<lambda>m. let base = to_lower (trim (mb_baseAddress m)); quote = to_lower (trim (mb_quoteAddress m))
              in (base = makerToken \<and> quote = takerToken) \<or> (base = takerToken \<and> quote = makerToken))
      markets"

text \<open>Side, base size and price in ticks from the maker and taker amounts.\<close>

definition exact_ticks :: "int \<Rightarrow> int \<Rightarrow> int result" where
  "exact_ticks n den =
    bind_res (big_div n den) (\<lambda>priceTicks.
    bind_res (big_rem n den) (\<lambda>r.
      if r \<noteq> 0 then Inl (BadRequest ''price_tick_violation'') else Inr priceTicks))"

definition derive_terms ::
  "trading_ctx \<Rightarrow> string \<Rightarrow> string \<Rightarrow> int \<Rightarrow> int \<Rightarrow> (side \<times> int \<times> int) result" where
  "derive_terms ctx makerToken takerToken makerAmt takerAmt =
    (if ctx_baseAddress ctx = makerToken \<and> ctx_quoteAddress ctx = takerToken
     then bind_res (exact_ticks (takerAmt * pow10 (ctx_baseDecimals ctx)) (makerAmt * ctx_priceTickQ ctx))
            (\<lambda>t. Inr (SELL, makerAmt, t))
     else bind_res (exact_ticks (makerAmt * pow10 (ctx_baseDecimals ctx)) (takerAmt * ctx_priceTickQ ctx))
            (\<lambda>t. Inr (BUY, takerAmt, t)))"

text \<open>\<open>process.env.RPC_URL_READONLY ?? process.env.RPC_URL\<close>; the guard is skipped without one.\<close>

definition guard_rpc :: "penv \<Rightarrow> string option" where
  "guard_rpc pe =
    (case (case pe ''RPC_URL_READONLY'' of Some v \<Rightarrow> Some v | None \<Rightarrow> pe ''RPC_URL'') of
       Some v \<Rightarrow> if v = [] then None else Some v
     | None \<Rightarrow> None)"

definition balance_guard ::
  "penv \<Rightarrow> chain_ext \<Rightarrow> trading_ctx \<Rightarrow> string \<Rightarrow> int \<Rightarrow> int \<Rightarrow> unit result" where
  "balance_guard pe x ctx makerExpected openBase sizeBase =
    (if guard_rpc pe = None then Inr ()
     else case x_balanceOf x (ctx_baseAddress ctx) makerExpected of
       Inl e \<Rightarrow> if \<not> isTransientRpcError e then Inl (PlainError (err_message e)) else Inr ()
     | Inr onchain \<Rightarrow>
         if openBase + sizeBase > onchain then Inl (BadRequest ''maker_insufficient_free_balance'')
         else Inr ())"

definition shadow_guard :: "penv \<Rightarrow> chain_ext \<Rightarrow> jval \<Rightarrow> unit result" where
  "shadow_guard pe x order =
    (let (ok, warnings) = checkMakerFunds pe x order in
     if \<not> ok \<and> shadow_blocking pe
     then Inl (BadRequest (''shadow_check_failed: '' @ join_pipes warnings)) else Inr ())"

text \<open>The best price of one side of a depth-1 snapshot.\<close>

definition best_price :: "snap_row list \<Rightarrow> int option result" where
  "best_price rows =
    (case rows of
       [] \<Rightarrow> Inr None
     | r # _ \<Rightarrow> if sn_priceTicks r = [] then Inr None
                else bind_res (str_to_bigint (sn_priceTicks r)) (\<lambda>p. Inr (Some p)))"

definition would_cross :: "side \<Rightarrow> int \<Rightarrow> int option \<Rightarrow> int option \<Rightarrow> bool" where
  "would_cross sd priceTicks bestBid bestAsk =
    (case sd of
       BUY \<Rightarrow> (case bestAsk of None \<Rightarrow> False | Some a \<Rightarrow> priceTicks \<ge> a)
     | SELL \<Rightarrow> (case bestBid of None \<Rightarrow> False | Some b \<Rightarrow> priceTicks \<le> b))"

definition crossing_check :: "string \<Rightarrow> bool \<Rightarrow> side \<Rightarrow> int \<Rightarrow> engine \<Rightarrow> unit result" where
  "crossing_check symbol postOnly sd priceTicks e =
    (let snap = snapshot symbol 1 e in
     bind_res (best_price (fst snap)) (\<lambda>bestBid.
     bind_res (best_price (snd snap)) (\<lambda>bestAsk.
       if postOnly \<and> would_cross sd priceTicks bestBid bestAsk
       then Inl (BadRequest ''post_only_would_cross'') else Inr ())))"

section \<open>Placement\<close>

record place_request =
  pq_order :: jval
  pq_signature :: jval
  pq_orderHash :: string
  pq_makerExpected :: string
  pq_postOnly :: bool

text \<open>Everything before the first write: the market and the terms, or the rejection.\<close>

definition place_decide ::
  "penv \<Rightarrow> chain_ext \<Rightarrow> place_request \<Rightarrow> engine \<Rightarrow> (market_basic \<times> side \<times> int \<times> int) result" where
  "place_decide pe x rq e =
    (let order = pq_order rq; d = eng_db e in
     if signatureToTuple (pq_signature rq) = None
     then Inl (BadRequest ''invalid_signature_for_persistence'')
     else
       bind_res (check_fee_policy pe order) (\<lambda>_.
       bind_res (toLower (jget order ''makerToken'')) (\<lambda>makerToken.
       bind_res (toLower (jget order ''takerToken'')) (\<lambda>takerToken.
       case find_market makerToken takerToken (listMarketsBasic d) of
         None \<Rightarrow> Inl (BadRequest ''market_not_found_for_tokens'')
       | Some mkt \<Rightarrow>
           bind_res (getTradingContext d (mb_id mkt)) (\<lambda>ctx.
           bind_res (js_BigInt (jget order ''makerAmount'')) (\<lambda>makerAmt.
           bind_res (js_BigInt (jget order ''takerAmount'')) (\<lambda>takerAmt.
           bind_res (derive_terms ctx makerToken takerToken makerAmt takerAmt) (\<lambda>(sd, sizeBase, priceTicks).
           bind_res (balance_guard pe x ctx (pq_makerExpected rq)
               (sumOpenBaseByMakerSymbol d (pq_makerExpected rq) (mb_symbol mkt)) sizeBase) (\<lambda>_.
           bind_res (shadow_guard pe x order) (\<lambda>_.
           bind_res (crossing_check (mb_symbol mkt) (pq_postOnly rq) sd priceTicks e) (\<lambda>_.
             Inr (mkt, sd, sizeBase, priceTicks))))))))))))"

text \<open>The raw payload, in memory and in the database; \<open>attachRaw\<close> answering false is an error.\<close>

definition persist_raw :: "string \<Rightarrow> place_request \<Rightarrow> engine \<Rightarrow> unit result \<times> engine" where
  "persist_raw symbol rq e =
    (case attachRaw symbol (pq_orderHash rq) (pq_order rq) (pq_signature rq) e of
       (Inl ex, e1) \<Rightarrow> (Inl ex, e1)
     | (Inr attached, e1) \<Rightarrow>
         if \<not> attached
         then (Inl (PlainError (''ob.attachRaw returned false for '' @ pq_orderHash rq @ '' (LOB level not found)'')), e1)
         else (case attachRawToOrder (pq_orderHash rq) (pq_order rq) (pq_signature rq) (eng_db e1) of
                 (Inl ex, d) \<Rightarrow> (Inl ex, e1\<lparr>eng_db := d\<rparr>)
               | (Inr _, d) \<Rightarrow> (Inr (), e1\<lparr>eng_db := d\<rparr>)))"

text \<open>The two best-effort cancellations of the \<open>catch\<close>; what either throws is swallowed.\<close>

definition roll_back :: "int \<Rightarrow> market_basic \<Rightarrow> string \<Rightarrow> engine \<Rightarrow> engine" where
  "roll_back now mkt orderHash e =
    (let e1 = snd (cancel now (mb_symbol mkt) orderHash e)
     in e1\<lparr>eng_db := snd (cancelOrder now (mb_id mkt) orderHash (eng_db e1))\<rparr>)"

definition place_order ::
  "penv \<Rightarrow> chain_ext \<Rightarrow> int \<Rightarrow> place_request \<Rightarrow> engine \<Rightarrow> string result \<times> engine" where
  "place_order pe x now rq e =
    (case place_decide pe x rq e of
       Inl ex \<Rightarrow> (Inl ex, e)
     | Inr (mkt, sd, sizeBase, priceTicks) \<Rightarrow>
         (case place now
             \<lparr>pl_marketId = mb_symbol mkt, pl_orderHash = pq_orderHash rq,
              pl_maker = pq_makerExpected rq, pl_side = sd, pl_priceTicks = priceTicks,
              pl_sizeBase = sizeBase\<rparr> e of
            (Inl ex, e1) \<Rightarrow> (Inl ex, e1)
          | (Inr _, e1) \<Rightarrow>
              (case persist_raw (mb_symbol mkt) rq e1 of
                 (Inl ex, e2) \<Rightarrow>
                   (Inl (InternalError (''raw_persistence_failed: '' @ exn_message ex)),
                    roll_back now mkt (pq_orderHash rq) e2)
               | (Inr _, e2) \<Rightarrow>
                   (Inr (pq_orderHash rq), e2\<lparr>eng_db := inc_metric ''orders_placed'' (eng_db e2)\<rparr>))))"

section \<open>What a decision implies\<close>

lemma exact_ticks_sound:
  assumes "exact_ticks n den = Inr q"
  shows "q * den = n"
proof -
  have den: "den \<noteq> 0" and q: "q = tdiv n den" and r: "sgn n * (\<bar>n\<bar> mod \<bar>den\<bar>) = 0"
    using assms by (auto simp: exact_ticks_def big_div_def big_rem_def split: if_splits)
  have m: "\<bar>n\<bar> mod \<bar>den\<bar> = 0" using r by (cases "n = 0") (auto simp: sgn_eq_0_iff)
  have "\<bar>n\<bar> div \<bar>den\<bar> * \<bar>den\<bar> = \<bar>n\<bar>"
    using m div_mult_mod_eq [of "\<bar>n\<bar>" "\<bar>den\<bar>"] by simp
  moreover have "q * den = sgn n * (\<bar>n\<bar> div \<bar>den\<bar> * (sgn den * den))"
    by (simp add: q tdiv_def mult_ac)
  moreover have "sgn den * den = \<bar>den\<bar>" by (simp add: abs_sgn mult.commute)
  ultimately show ?thesis by (simp add: sgn_mult_abs)
qed

lemma find_market_in: "find_market mt tt ms = Some m \<Longrightarrow> m \<in> set ms"
  using find_in [of _ ms m] by (auto simp: find_market_def)

lemma place_decide_sound:
  assumes "place_decide pe x rq e = Inr (mkt, sd, sz, px)"
  obtains ctx mt tt ma ta st where
    "mkt \<in> set (listMarketsBasic (eng_db e))"
    "getTradingContext (eng_db e) (mb_id mkt) = Inr ctx"
    "signatureToTuple (pq_signature rq) = Some st"
    "toLower (jget (pq_order rq) ''makerToken'') = Inr mt"
    "toLower (jget (pq_order rq) ''takerToken'') = Inr tt"
    "js_BigInt (jget (pq_order rq) ''makerAmount'') = Inr ma"
    "js_BigInt (jget (pq_order rq) ''takerAmount'') = Inr ta"
    "derive_terms ctx mt tt ma ta = Inr (sd, sz, px)"
    "crossing_check (mb_symbol mkt) (pq_postOnly rq) sd px e = Inr ()"
proof -
  obtain ctx mt tt ma ta st where f: "find_market mt tt (listMarketsBasic (eng_db e)) = Some mkt"
    and *: "getTradingContext (eng_db e) (mb_id mkt) = Inr ctx"
    "signatureToTuple (pq_signature rq) = Some st"
    "toLower (jget (pq_order rq) ''makerToken'') = Inr mt"
    "toLower (jget (pq_order rq) ''takerToken'') = Inr tt"
    "js_BigInt (jget (pq_order rq) ''makerAmount'') = Inr ma"
    "js_BigInt (jget (pq_order rq) ''takerAmount'') = Inr ta"
    "derive_terms ctx mt tt ma ta = Inr (sd, sz, px)"
    "crossing_check (mb_symbol mkt) (pq_postOnly rq) sd px e = Inr ()"
    using assms by (auto simp: place_decide_def Let_def split: option.splits if_splits)
  show ?thesis by (rule that [OF find_market_in [OF f] *])
qed

lemma market_unique:
  "markets_ok d \<Longrightarrow> m \<in> set (d_markets d) \<Longrightarrow> n \<in> set (d_markets d) \<Longrightarrow>
    mk_id n = mk_id m \<or> mk_symbol n = mk_id m \<Longrightarrow> n = m"
  unfolding markets_ok_def distinct_map inj_on_def by metis

lemma basic_ctx:
  assumes "markets_ok d" and "mkt \<in> set (listMarketsBasic d)"
    and "getTradingContext d (mb_id mkt) = Inr ctx"
  shows "ctx_symbol ctx = mb_symbol mkt" and "ctx_id ctx = mb_id mkt"
    and "getTradingContext d (mb_symbol mkt) = Inr ctx"
proof -
  obtain m where m: "m \<in> set (d_markets d)" "mb_id mkt = mk_id m" "mb_symbol mkt = mk_symbol m"
    using assms(2) by (auto simp: listMarketsBasic_def)
  obtain n where n: "n \<in> set (d_markets d)" "mk_id n = mb_id mkt \<or> mk_symbol n = mb_id mkt"
    "mk_id n = ctx_id ctx" "mk_symbol n = ctx_symbol ctx"
    using ctx_of_market [OF assms(3)] by blast
  with m have "n = m" by (intro market_unique [OF assms(1)]) auto
  with m n show "ctx_symbol ctx = mb_symbol mkt" "ctx_id ctx = mb_id mkt" by simp_all
  with ctx_resolves [OF assms(1,3)] show "getTradingContext d (mb_symbol mkt) = Inr ctx" by simp
qed

text \<open>The book after a successful \<open>place\<close>.\<close>

lemma place_book:
  assumes wf: "engine_wf e" and ctx: "getTradingContext (eng_db e) (pl_marketId p) = Inr ctx"
    and ok: "place now p e = (Inr h, e')"
  shows "engine_wf e' \<and> h = pl_orderHash p \<and> place_checks ctx p = None \<and>
    d_markets (eng_db e') = d_markets (eng_db e) \<and>
    book_at e' (ctx_symbol ctx) = Some (add_level (placed_level now p)
      (drop_id (to_lower (pl_orderHash p)) (fst (ensure_book (ctx_symbol ctx) e)))) \<and>
    (\<forall>j. j \<noteq> ctx_symbol ctx \<longrightarrow> book_at e' j = book_at e j)"
proof -
  have pc: "place_checks ctx p = None" and core: "place_core now ctx p e = (Inr h, e')"
    using ok by (auto simp: place_def ctx split: option.splits)
  then have sz: "0 \<le> pl_sizeBase p" by (auto simp: place_checks_def split: if_splits)
  from place_core_book [OF wf ctx sz core] pc engine_wf_place [OF wf, of now p] ok show ?thesis
    by simp
qed

lemma add_level_set:
  "set (bids (add_level l b)) \<union> set (asks (add_level l b)) = insert l (set (bids b) \<union> set (asks b))"
  by (cases "lv_side l") (auto simp: add_level_def)

lemma attachRaw_book:
  assumes "getTradingContext (eng_db e) k = Inr ctx" and "book_at e (ctx_symbol ctx) = Some b"
  shows "attachRaw k h ord sg e =
    (if find_level (\<lambda>l. lv_id l = h) b = None then (Inr False, e)
     else (Inr True, set_book (ctx_symbol ctx) (mutate_level (\<lambda>l. lv_id l = h) (attach_to ord sg) b) e))"
  using assms by (simp add: attachRaw_def)

lemma find_level_None:
  "find_level P b = None \<longleftrightarrow> (\<forall>l \<in> set (bids b) \<union> set (asks b). \<not> P l)"
proof (cases "find P (bids b)")
  case None
  then have "find_level P b = find P (asks b)" by (simp add: find_level_def)
  moreover have "\<forall>l \<in> set (bids b). \<not> P l" using None by (auto simp: find_None_iff)
  ultimately show ?thesis by (auto simp: find_None_iff)
next
  case (Some l)
  with find_in [OF this] show ?thesis by (auto simp: find_level_def)
qed

lemma placed_level_found:
  "find_level (\<lambda>l. lv_id l = lv_id m) (add_level m (drop_id (id_key m) b)) = Some m"
proof -
  let ?b = "add_level m (drop_id (id_key m) b)"
  have uniq: "l = m" if "l \<in> set (bids ?b) \<union> set (asks ?b)" "lv_id l = lv_id m" for l
    using that drop_id_fresh [of l "id_key m" b] unfolding add_level_set by (auto simp: id_key_def)
  have "find_level (\<lambda>l. lv_id l = lv_id m) ?b \<noteq> None"
    unfolding find_level_None add_level_set by simp
  then obtain l where l: "find_level (\<lambda>l. lv_id l = lv_id m) ?b = Some l" by blast
  with uniq find_level_in [OF l] show ?thesis by simp
qed

lemma set_add_bid_ask:
  "set (bids (add_level m b)) = (if lv_side m = BUY then insert m (set (bids b)) else set (bids b))"
  "set (asks (add_level m b)) = (if lv_side m = SELL then insert m (set (asks b)) else set (asks b))"
  by (cases "lv_side m"; simp add: add_level_def)+

lemma mutate_prices:
  "keeps_key f \<Longrightarrow> lv_priceTicks ` set (bids (mutate_level P f b)) = lv_priceTicks ` set (bids b)"
  "keeps_key f \<Longrightarrow> lv_priceTicks ` set (asks (mutate_level P f b)) = lv_priceTicks ` set (asks b)"
proof -
  assume "keeps_key f"
  then have "map lv_priceTicks (update_first P f ls) = map lv_priceTicks ls" for ls
    by (intro map_update_first) (simp add: keeps_key_def)
  then have s: "lv_priceTicks ` set (update_first P f ls) = lv_priceTicks ` set ls" for ls
    by (metis list.set_map)
  then show "lv_priceTicks ` set (bids (mutate_level P f b)) = lv_priceTicks ` set (bids b)"
    "lv_priceTicks ` set (asks (mutate_level P f b)) = lv_priceTicks ` set (asks b)"
    by (simp_all add: mutate_level_def)
qed

section \<open>A sample placement\<close>

definition sample_order :: jval where
  "sample_order = JObj
    [(''makerToken'', JStr ''0xB''), (''takerToken'', JStr ''0xQ''), (''makerAmount'', JStr ''20''),
     (''takerAmount'', JStr ''12''), (''maker'', JStr ''0xM''), (''expiry'', JNum (num 100)), (''salt'', JStr ''7'')]"

definition sample_request :: "string \<Rightarrow> place_request" where
  "sample_request h = \<lparr>pq_order = sample_order,
     pq_signature = JStr (''0x'' @ replicate 128 CHR ''1'' @ ''1b''),
     pq_orderHash = h, pq_makerExpected = ''0xm'', pq_postOnly = True\<rparr>"

definition sample_chain :: chain_ext where
  "sample_chain = \<lparr>x_balanceOf = (\<lambda>t m. Inr 1000), x_allowance = (\<lambda>t m. Inr 1000)\<rparr>"

abbreviation no_env :: penv where
  "no_env \<equiv> \<lambda>k. None"

lemma sample_places:
  "\<exists>e'. place_order no_env sample_chain 9 (sample_request ''0x3'') sample_engine = (Inr ''0x3'', e')"
proof -
  have "(case fst (place_order no_env sample_chain 9 (sample_request ''0x3'') sample_engine) of
      Inr h \<Rightarrow> h = ''0x3'' | Inl _ \<Rightarrow> False)" by code_simp
  then show ?thesis
    by (cases "place_order no_env sample_chain 9 (sample_request ''0x3'') sample_engine") (auto split: sum.splits)
qed

section \<open>Properties\<close>

definition uncrossed :: "book \<Rightarrow> bool" where
  "uncrossed b \<longleftrightarrow> (\<forall>x \<in> set (bids b). \<forall>y \<in> set (asks b). lv_priceTicks x < lv_priceTicks y)"

lemma uncrossed_prices:
  "uncrossed b \<longleftrightarrow> (\<forall>p \<in> lv_priceTicks ` set (bids b). \<forall>q \<in> lv_priceTicks ` set (asks b). p < q)"
  by (auto simp: uncrossed_def)

lemma uncrossed_mutate: "keeps_key f \<Longrightarrow> uncrossed (mutate_level P f b) = uncrossed b"
  unfolding uncrossed_prices by (simp only: mutate_prices)

lemma best_price_snap:
  "best_price (map snap_of (take 1 ls)) = Inr (case ls of [] \<Rightarrow> None | l # _ \<Rightarrow> Some (lv_priceTicks l))"
  by (cases ls) (simp_all add: best_price_def snap_of_def)

text \<open>The crossing check compares with the whole opposite side, because that side is sorted.\<close>

lemma crossing_check_sound:
  assumes "book_ok b" and "book_at e k = Some b" and "crossing_check k True sd px e = Inr ()"
  shows "case sd of BUY \<Rightarrow> \<forall>y \<in> set (asks b). px < lv_priceTicks y
    | SELL \<Rightarrow> \<forall>x \<in> set (bids b). lv_priceTicks x < px"
proof -
  note srt = against_sorted(1) [OF assms(1)]
  have nc: "\<not> would_cross sd px (case bids b of [] \<Rightarrow> None | l # _ \<Rightarrow> Some (lv_priceTicks l))
      (case asks b of [] \<Rightarrow> None | l # _ \<Rightarrow> Some (lv_priceTicks l))"
    using assms(2,3) best_price_snap [of "bids b"] best_price_snap [of "asks b"]
    by (simp add: crossing_check_def snapshot_def split: if_splits)
  show ?thesis
  proof (cases sd)
    case BUY
    then show ?thesis
      using nc srt [of BUY]
      by (cases "asks b") (auto simp: would_cross_def side_cost_def)
  next
    case SELL
    then show ?thesis
      using nc srt [of SELL]
      by (cases "bids b") (fastforce simp: would_cross_def side_cost_def)+
  qed
qed

lemma persist_raw_ok:
  assumes "persist_raw k rq e = (Inr u, e')"
  obtains e1 d where "attachRaw k (pq_orderHash rq) (pq_order rq) (pq_signature rq) e = (Inr True, e1)"
    "attachRawToOrder (pq_orderHash rq) (pq_order rq) (pq_signature rq) (eng_db e1) = (Inr (), d)"
    "e' = e1\<lparr>eng_db := d\<rparr>"
  using assms by (auto simp: persist_raw_def split: prod.splits sum.splits if_splits)

lemma place_order_ok:
  assumes "place_order pe x now rq e = (Inr h, e')"
  obtains mkt sd sz px e1 e2 where
    "place_decide pe x rq e = Inr (mkt, sd, sz, px)"
    "place now \<lparr>pl_marketId = mb_symbol mkt, pl_orderHash = pq_orderHash rq, pl_maker = pq_makerExpected rq,
       pl_side = sd, pl_priceTicks = px, pl_sizeBase = sz\<rparr> e = (Inr (pq_orderHash rq), e1)"
    "persist_raw (mb_symbol mkt) rq e1 = (Inr (), e2)"
    "e' = e2\<lparr>eng_db := inc_metric ''orders_placed'' (eng_db e2)\<rparr>" "h = pq_orderHash rq"
proof -
  obtain mkt sd sz px where dec: "place_decide pe x rq e = Inr (mkt, sd, sz, px)"
    using assms by (cases "place_decide pe x rq e") (auto simp: place_order_def)
  let ?p = "\<lparr>pl_marketId = mb_symbol mkt, pl_orderHash = pq_orderHash rq, pl_maker = pq_makerExpected rq,
       pl_side = sd, pl_priceTicks = px, pl_sizeBase = sz\<rparr>"
  obtain r1 e1 where pl: "place now ?p e = (r1, e1)" by fastforce
  with assms dec obtain h1 where r1: "r1 = Inr h1" by (cases r1) (auto simp: place_order_def)
  then have "h1 = pq_orderHash rq"
    using pl by (auto simp: place_def place_core_def Let_def split: sum.splits option.splits prod.splits)
  moreover obtain r2 e2 where pr: "persist_raw (mb_symbol mkt) rq e1 = (r2, e2)" by fastforce
  moreover from assms dec pl r1 pr obtain u where "r2 = Inr u" by (cases r2) (auto simp: place_order_def)
  ultimately show ?thesis
    using assms dec pl r1 by (intro that [of mkt sd sz px e1 e2]) (auto simp: place_order_def)
qed

text \<open>The book a successful placement leaves.\<close>

lemma place_order_book:
  assumes wf: "engine_wf e" and run: "place_order pe x now rq e = (Inr h, e')"
  obtains mkt sd sz px b where
    "place_decide pe x rq e = Inr (mkt, sd, sz, px)"
    "b = fst (ensure_book (mb_symbol mkt) e)"
    "book_at e' (mb_symbol mkt) = Some (mutate_level (\<lambda>l. lv_id l = pq_orderHash rq)
       (attach_to (pq_order rq) (pq_signature rq))
       (add_level (placed_level now \<lparr>pl_marketId = mb_symbol mkt, pl_orderHash = pq_orderHash rq,
           pl_maker = pq_makerExpected rq, pl_side = sd, pl_priceTicks = px, pl_sizeBase = sz\<rparr>)
         (drop_id (to_lower (pq_orderHash rq)) b)))"
    "\<forall>j. j \<noteq> mb_symbol mkt \<longrightarrow> book_at e' j = book_at e j"
proof -
  obtain mkt sd sz px e1 e2 where dec: "place_decide pe x rq e = Inr (mkt, sd, sz, px)"
    and pl: "place now \<lparr>pl_marketId = mb_symbol mkt, pl_orderHash = pq_orderHash rq, pl_maker = pq_makerExpected rq,
       pl_side = sd, pl_priceTicks = px, pl_sizeBase = sz\<rparr> e = (Inr (pq_orderHash rq), e1)"
    and pr: "persist_raw (mb_symbol mkt) rq e1 = (Inr (), e2)"
    and e': "e' = e2\<lparr>eng_db := inc_metric ''orders_placed'' (eng_db e2)\<rparr>"
    using run by (rule place_order_ok)
  let ?p = "\<lparr>pl_marketId = mb_symbol mkt, pl_orderHash = pq_orderHash rq, pl_maker = pq_makerExpected rq,
       pl_side = sd, pl_priceTicks = px, pl_sizeBase = sz\<rparr>"
  obtain ctx where m: "mkt \<in> set (listMarketsBasic (eng_db e))"
    and ctx: "getTradingContext (eng_db e) (mb_id mkt) = Inr ctx"
    using dec by (rule place_decide_sound)
  have mok: "markets_ok (eng_db e)" using wf by (simp add: engine_wf_def)
  note bc = basic_ctx [OF mok m ctx]
  have "getTradingContext (eng_db e) (pl_marketId ?p) = Inr ctx" using bc(3) by simp
  note pb = place_book [OF wf this pl]
  let ?b = "add_level (placed_level now ?p) (drop_id (to_lower (pq_orderHash rq)) (fst (ensure_book (mb_symbol mkt) e)))"
  have b1: "book_at e1 (mb_symbol mkt) = Some ?b" "\<forall>j. j \<noteq> mb_symbol mkt \<longrightarrow> book_at e1 j = book_at e j"
    using pb bc by simp_all
  have c1: "getTradingContext (eng_db e1) (mb_symbol mkt) = Inr ctx"
    using bc(3) getTradingContext_cong pb by metis
  have b1': "book_at e1 (ctx_symbol ctx) = Some ?b" using b1 bc by simp
  obtain ea d where "attachRaw (mb_symbol mkt) (pq_orderHash rq) (pq_order rq) (pq_signature rq) e1 = (Inr True, ea)"
    and e2: "e2 = ea\<lparr>eng_db := d\<rparr>" using pr by (rule persist_raw_ok)
  then have ea: "ea = set_book (mb_symbol mkt) (mutate_level (\<lambda>l. lv_id l = pq_orderHash rq)
      (attach_to (pq_order rq) (pq_signature rq)) ?b) e1"
    using attachRaw_book [OF c1 b1', of "pq_orderHash rq" "pq_order rq" "pq_signature rq"] bc(1)
    by (simp split: if_splits)
  show ?thesis
    by (rule that [OF dec refl]) (use b1 in \<open>simp_all add: e' e2 ea\<close>)
qed

lemma checked_opposite:
  assumes "engine_wf e" "crossing_check k True sd px e = Inr ()"
  shows "case sd of BUY \<Rightarrow> \<forall>y \<in> set (asks (fst (ensure_book k e))). px < lv_priceTicks y
    | SELL \<Rightarrow> \<forall>x \<in> set (bids (fst (ensure_book k e))). lv_priceTicks x < px"
proof (cases "book_at e k")
  case None
  then show ?thesis by (simp add: ensure_book_def empty_book_def split: side.split)
next
  case (Some c)
  then have "fst (ensure_book k e) = c" by simp
  then show ?thesis
    using crossing_check_sound [OF engine_okD [OF engine_wf_ok [OF assms(1)] Some] Some assms(2)] by (simp only:)
qed

lemma uncrossed_ensured: "\<forall>j c. book_at e j = Some c \<longrightarrow> uncrossed c \<Longrightarrow> uncrossed (fst (ensure_book k e))"
  by (auto simp: ensure_book_def empty_book_def uncrossed_def split: option.split)

lemma uncrossed_add_level:
  assumes ub: "uncrossed b" and opp: "case lv_side l of BUY \<Rightarrow> \<forall>y \<in> set (asks b). lv_priceTicks l < lv_priceTicks y
      | SELL \<Rightarrow> \<forall>x \<in> set (bids b). lv_priceTicks x < lv_priceTicks l"
  shows "uncrossed (add_level l (drop_id i b))"
proof -
  have sub: "set (bids (drop_id i b)) \<subseteq> set (bids b)" "set (asks (drop_id i b)) \<subseteq> set (asks b)"
    by (auto simp: drop_id_def without_id_def)
  have "lv_priceTicks u < lv_priceTicks v" if "u \<in> set (bids (drop_id i b))" "v \<in> set (asks (drop_id i b))" for u v
    using ub sub that unfolding uncrossed_def by blast
  with opp sub show ?thesis unfolding uncrossed_def set_add_bid_ask by (cases "lv_side l") auto
qed

text \<open>
  C5. A post-only order never crosses: when a placement with \<open>postOnly\<close> succeeds, every resting
  order of the opposite side is strictly on the other side of the new price, so a book that was
  uncrossed before the placement is uncrossed after it, in every market.
\<close>

theorem post_only_never_crosses:
  assumes wf: "engine_wf e" and po: "pq_postOnly rq"
    and run: "place_order pe x now rq e = (Inr h, e')"
    and before: "\<forall>j c. book_at e j = Some c \<longrightarrow> uncrossed c"
    and after: "book_at e' k = Some b'"
  shows "uncrossed b'"
proof -
  obtain mkt sd sz px b where dec: "place_decide pe x rq e = Inr (mkt, sd, sz, px)"
    and b: "b = fst (ensure_book (mb_symbol mkt) e)"
    and bk: "book_at e' (mb_symbol mkt) = Some (mutate_level (\<lambda>l. lv_id l = pq_orderHash rq)
       (attach_to (pq_order rq) (pq_signature rq))
       (add_level (placed_level now \<lparr>pl_marketId = mb_symbol mkt, pl_orderHash = pq_orderHash rq,
           pl_maker = pq_makerExpected rq, pl_side = sd, pl_priceTicks = px, pl_sizeBase = sz\<rparr>)
         (drop_id (to_lower (pq_orderHash rq)) b)))"
    and other: "\<forall>j. j \<noteq> mb_symbol mkt \<longrightarrow> book_at e' j = book_at e j"
    using wf run by (rule place_order_book)
  show ?thesis
  proof (cases "k = mb_symbol mkt")
    case False
    with other before after show ?thesis by auto
  next
    case True
    let ?l = "placed_level now \<lparr>pl_marketId = mb_symbol mkt, pl_orderHash = pq_orderHash rq,
        pl_maker = pq_makerExpected rq, pl_side = sd, pl_priceTicks = px, pl_sizeBase = sz\<rparr>"
    have l: "lv_side ?l = sd" "lv_priceTicks ?l = px" by (simp_all add: placed_level_def)
    have "crossing_check (mb_symbol mkt) True sd px e = Inr ()"
      using place_decide_sound [OF dec] po by metis
    then have "uncrossed (add_level ?l (drop_id (to_lower (pq_orderHash rq)) b))"
      using checked_opposite [OF wf] uncrossed_ensured [OF before] unfolding b
      by (intro uncrossed_add_level) (simp_all only: l)
    then show ?thesis
      using after True bk by (auto simp: uncrossed_mutate)
  qed
qed

lemma sample_uncrossed: "book_at sample_engine j = Some c \<Longrightarrow> uncrossed c"
proof -
  have "list_all (\<lambda>(k, b). bids b = []) (eng_books sample_engine)" by code_simp
  then show "book_at sample_engine j = Some c \<Longrightarrow> uncrossed c"
    by (auto simp: list_all_iff uncrossed_def dest!: map_of_SomeD)
qed

theorem post_only_never_crosses_witness:
  "\<exists>e'. place_order no_env sample_chain 9 (sample_request ''0x3'') sample_engine = (Inr ''0x3'', e') \<and>
    (\<forall>b'. book_at e' ''B-Q'' = Some b' \<longrightarrow> uncrossed b')"
proof -
  obtain e' where r: "place_order no_env sample_chain 9 (sample_request ''0x3'') sample_engine = (Inr ''0x3'', e')"
    using sample_places by blast
  have "pq_postOnly (sample_request ''0x3'')" by (simp add: sample_request_def)
  from post_only_never_crosses [OF sample_wf this r] sample_uncrossed r show ?thesis by blast
qed

text \<open>What a successful placement leaves: the decided terms rest as one level, the raw order with it.\<close>

lemma place_order_rests:
  assumes wf: "engine_wf e" and run: "place_order pe x now rq e = (Inr h, e')"
  obtains mkt sd sz px ctx b l r st where
    "place_decide pe x rq e = Inr (mkt, sd, sz, px)" "h = pq_orderHash rq"
    "getTradingContext (eng_db e) (mb_id mkt) = Inr ctx" "getTradingContext (eng_db e) (mb_symbol mkt) = Inr ctx"
    "0 < sz" "0 < px" "ctx_minSizeB ctx \<le> sz"
    "book_at e' (mb_symbol mkt) = Some b" "find_level (\<lambda>l. lv_id l = h) b = Some l"
    "lv_side l = sd" "lv_sizeBase l = sz" "lv_priceTicks l = px" "lv_maker l = to_lower (pq_makerExpected rq)"
    "lv_rawOrder l = Some (normalizeOrderForJson (pq_order rq))" "signatureToTuple (pq_signature rq) = Some st"
    "order_of (eng_db e') h = Some r" "o_zeroEx r = normalizeOrderForJson (pq_order rq)"
    "o_signature r = tupleToPackedBytes st"
proof -
  obtain mkt sd sz px e1 e2 where dec: "place_decide pe x rq e = Inr (mkt, sd, sz, px)"
    and pl: "place now \<lparr>pl_marketId = mb_symbol mkt, pl_orderHash = pq_orderHash rq, pl_maker = pq_makerExpected rq,
       pl_side = sd, pl_priceTicks = px, pl_sizeBase = sz\<rparr> e = (Inr (pq_orderHash rq), e1)"
    and pr: "persist_raw (mb_symbol mkt) rq e1 = (Inr (), e2)"
    and e': "e' = e2\<lparr>eng_db := inc_metric ''orders_placed'' (eng_db e2)\<rparr>" and h: "h = pq_orderHash rq"
    using run by (rule place_order_ok)
  let ?p = "\<lparr>pl_marketId = mb_symbol mkt, pl_orderHash = pq_orderHash rq, pl_maker = pq_makerExpected rq,
       pl_side = sd, pl_priceTicks = px, pl_sizeBase = sz\<rparr>"
  obtain ctx st where m: "mkt \<in> set (listMarketsBasic (eng_db e))"
    and ctx: "getTradingContext (eng_db e) (mb_id mkt) = Inr ctx"
    and st: "signatureToTuple (pq_signature rq) = Some st"
    using dec by (rule place_decide_sound)
  have mok: "markets_ok (eng_db e)" using wf by (simp add: engine_wf_def)
  note bc = basic_ctx [OF mok m ctx]
  have pc: "place_checks ctx ?p = None" using place_book [OF wf _ pl] bc(3) by simp
  then have pos: "0 < sz" "0 < px" "ctx_minSizeB ctx \<le> sz"
    by (auto simp: place_checks_def split: if_splits)
  obtain mkt' sd' sz' px' b where dec': "place_decide pe x rq e = Inr (mkt', sd', sz', px')"
    and bk: "book_at e' (mb_symbol mkt') = Some (mutate_level (\<lambda>l. lv_id l = pq_orderHash rq)
       (attach_to (pq_order rq) (pq_signature rq))
       (add_level (placed_level now \<lparr>pl_marketId = mb_symbol mkt', pl_orderHash = pq_orderHash rq,
           pl_maker = pq_makerExpected rq, pl_side = sd', pl_priceTicks = px', pl_sizeBase = sz'\<rparr>)
         (drop_id (to_lower (pq_orderHash rq)) b)))"
    using wf run by (rule place_order_book)
  have same: "mkt' = mkt" "sd' = sd" "sz' = sz" "px' = px" using dec dec' by simp_all
  let ?l = "placed_level now ?p"
  have fl: "find_level (\<lambda>l. lv_id l = h) (add_level ?l (drop_id (to_lower (pq_orderHash rq)) b)) = Some ?l"
    using placed_level_found [of ?l b] by (simp add: placed_level_def id_key_def h)
  let ?l' = "attach_to (pq_order rq) (pq_signature rq) ?l"
  have kk: "keeps_key (attach_to (pq_order rq) (pq_signature rq))" by simp
  then have k: "lv_id ?l' = h" "lv_side ?l' = sd" "lv_priceTicks ?l' = px" "lv_sizeBase ?l' = sz"
    by (simp_all add: keeps_key_def placed_level_def h)
  have raw: "lv_rawOrder ?l' = Some (normalizeOrderForJson (pq_order rq))"
    "lv_maker ?l' = to_lower (pq_makerExpected rq)"
    by (auto simp: attach_to_def placed_level_def Let_def split: option.split)
  have fl': "find_level (\<lambda>l. lv_id l = h) (mutate_level (\<lambda>l. lv_id l = h)
      (attach_to (pq_order rq) (pq_signature rq))
      (add_level ?l (drop_id (to_lower (pq_orderHash rq)) b))) = Some ?l'"
    using find_level_mutate [OF fl] k(1) by simp
  obtain ea d where at: "attachRawToOrder (pq_orderHash rq) (pq_order rq) (pq_signature rq) (eng_db ea) = (Inr (), d)"
    and e2: "e2 = ea\<lparr>eng_db := d\<rparr>" using pr by (rule persist_raw_ok)
  obtain r where "order_of d h = Some r" "o_zeroEx r = normalizeOrderForJson (pq_order rq)"
    "o_signature r = tupleToPackedBytes st"
    using at st by (auto simp: attachRawToOrder_def Let_def h order_of_update split: sum.splits if_splits)
  then have r: "order_of (eng_db e') h = Some r" "o_zeroEx r = normalizeOrderForJson (pq_order rq)"
    "o_signature r = tupleToPackedBytes st" by (simp_all add: e' e2)
  from that [OF dec h ctx bc(3) pos bk [unfolded same, folded h] fl' [folded h] k(2,4,3) [folded h] raw(2,1) [folded h] st r] show ?thesis
    by (simp add: h)
qed

lemma place_order_hash: "place_order pe x now rq e = (Inr h, e') \<Longrightarrow> h = pq_orderHash rq"
  by (auto simp: place_order_def split: sum.splits prod.splits)

lemma place_order_terms:
  assumes wf: "engine_wf e" and run: "place_order pe x now rq e = (Inr h, e')"
  shows "\<exists>ctx sd sz px ma ta k b l r st.
    js_BigInt (jget (pq_order rq) ''makerAmount'') = Inr ma \<and>
    js_BigInt (jget (pq_order rq) ''takerAmount'') = Inr ta \<and> h = pq_orderHash rq \<and>
    getTradingContext (eng_db e) k = Inr ctx \<and>
    (case sd of
       SELL \<Rightarrow> sz = ma \<and> px * (ma * ctx_priceTickQ ctx) = ta * 10 ^ ctx_baseDecimals ctx
     | BUY \<Rightarrow> sz = ta \<and> px * (ta * ctx_priceTickQ ctx) = ma * 10 ^ ctx_baseDecimals ctx) \<and>
    0 < sz \<and> 0 < px \<and> ctx_minSizeB ctx \<le> sz \<and>
    book_at e' k = Some b \<and> find_level (\<lambda>l. lv_id l = h) b = Some l \<and>
    lv_side l = sd \<and> lv_sizeBase l = sz \<and> lv_priceTicks l = px \<and>
    lv_maker l = to_lower (pq_makerExpected rq) \<and>
    lv_rawOrder l = Some (normalizeOrderForJson (pq_order rq)) \<and>
    signatureToTuple (pq_signature rq) = Some st \<and>
    order_of (eng_db e') h = Some r \<and> o_zeroEx r = normalizeOrderForJson (pq_order rq) \<and>
    o_signature r = tupleToPackedBytes st"
proof -
  obtain mkt sd sz px ctx b l r st where dec: "place_decide pe x rq e = Inr (mkt, sd, sz, px)"
    and ctx: "getTradingContext (eng_db e) (mb_id mkt) = Inr ctx" "getTradingContext (eng_db e) (mb_symbol mkt) = Inr ctx"
    and lv: "0 < sz" "0 < px" "ctx_minSizeB ctx \<le> sz"
    "book_at e' (mb_symbol mkt) = Some b" "find_level (\<lambda>l. lv_id l = h) b = Some l"
    "lv_side l = sd" "lv_sizeBase l = sz" "lv_priceTicks l = px" "lv_maker l = to_lower (pq_makerExpected rq)"
    "lv_rawOrder l = Some (normalizeOrderForJson (pq_order rq))" "signatureToTuple (pq_signature rq) = Some st"
    "order_of (eng_db e') h = Some r" "o_zeroEx r = normalizeOrderForJson (pq_order rq)"
    "o_signature r = tupleToPackedBytes st"
    by (rule place_order_rests [OF wf run])
  obtain ctx' mt tt ma ta where "getTradingContext (eng_db e) (mb_id mkt) = Inr ctx'"
    and ma: "js_BigInt (jget (pq_order rq) ''makerAmount'') = Inr ma"
    and ta: "js_BigInt (jget (pq_order rq) ''takerAmount'') = Inr ta"
    and terms: "derive_terms ctx' mt tt ma ta = Inr (sd, sz, px)"
    using dec by (rule place_decide_sound)
  with ctx(1) have "derive_terms ctx mt tt ma ta = Inr (sd, sz, px)" by simp
  then have tm: "case sd of
       SELL \<Rightarrow> sz = ma \<and> px * (ma * ctx_priceTickQ ctx) = ta * 10 ^ ctx_baseDecimals ctx
     | BUY \<Rightarrow> sz = ta \<and> px * (ta * ctx_priceTickQ ctx) = ma * 10 ^ ctx_baseDecimals ctx"
    using exact_ticks_sound by (auto simp: derive_terms_def pow10_def split: if_splits)
  show ?thesis using ma ta ctx(2) tm lv place_order_hash [OF run] by blast
qed

text \<open>
  An accepted order rests exactly as signed: the stored base size is the order's base amount,
  the price in ticks reproduces the other amount without rounding
  (\<open>ticks * tick * base = quote * 10^baseDecimals\<close>), size and price are positive and respect the
  market's minimum size, and the level carries the JSON-safe form of the very order that was
  submitted, which is also what the row stores, with the packed signature.
\<close>

theorem placed_as_signed:
  assumes wf: "engine_wf e" and run: "place_order pe x now rq e = (Inr h, e')"
  shows "\<exists>ctx sd sz px ma ta k b l r st.
    js_BigInt (jget (pq_order rq) ''makerAmount'') = Inr ma \<and>
    js_BigInt (jget (pq_order rq) ''takerAmount'') = Inr ta \<and>
    getTradingContext (eng_db e) k = Inr ctx \<and>
    (case sd of
       SELL \<Rightarrow> sz = ma \<and> px * (ma * ctx_priceTickQ ctx) = ta * 10 ^ ctx_baseDecimals ctx
     | BUY \<Rightarrow> sz = ta \<and> px * (ta * ctx_priceTickQ ctx) = ma * 10 ^ ctx_baseDecimals ctx) \<and>
    0 < sz \<and> 0 < px \<and> ctx_minSizeB ctx \<le> sz \<and>
    book_at e' k = Some b \<and> find_level (\<lambda>l. lv_id l = h) b = Some l \<and>
    lv_side l = sd \<and> lv_sizeBase l = sz \<and> lv_priceTicks l = px \<and>
    lv_maker l = to_lower (pq_makerExpected rq) \<and>
    lv_rawOrder l = Some (normalizeOrderForJson (pq_order rq)) \<and>
    signatureToTuple (pq_signature rq) = Some st \<and>
    order_of (eng_db e') h = Some r \<and> o_zeroEx r = normalizeOrderForJson (pq_order rq) \<and>
    o_signature r = tupleToPackedBytes st"
  using place_order_terms [OF wf run] by blast

theorem placed_as_signed_witness:
  "\<exists>e' r. place_order no_env sample_chain 9 (sample_request ''0x3'') sample_engine = (Inr ''0x3'', e') \<and>
    order_of (eng_db e') ''0x3'' = Some r \<and> o_zeroEx r = normalizeOrderForJson sample_order"
proof -
  obtain e' where r: "place_order no_env sample_chain 9 (sample_request ''0x3'') sample_engine = (Inr ''0x3'', e')"
    using sample_places by blast
  have "pq_order (sample_request ''0x3'') = sample_order" by (simp add: sample_request_def)
  with placed_as_signed [OF sample_wf r] r show ?thesis by auto
qed

lemma upsert_exists:
  assumes "fst (upsertOrderPlaced now q d) = Inr ()"
  shows "order_of (snd (upsertOrderPlaced now q d)) (pi_hash q) \<noteq> None"
proof (cases "upsert_row now q d")
  case (Inl x)
  with assms show ?thesis by (simp add: upsertOrderPlaced_def)
next
  case (Inr d1)
  have "order_of d1 (pi_hash q) \<noteq> None"
  proof (cases "order_of d (pi_hash q)")
    case None
    with Inr show ?thesis
      by (auto simp: upsert_row_def order_of_def row_by_append new_order_row_def split: if_splits option.splits)
  next
    case (Some r)
    with Inr show ?thesis by (auto simp: upsert_row_def order_of_update)
  qed
  moreover have "d_orders (snd (upsertOrderPlaced now q d)) = d_orders d1"
    using assms Inr by (auto simp: upsertOrderPlaced_def append_event_def Let_def)
  ultimately show ?thesis using order_of_cong by metis
qed

lemma place_row_exists:
  assumes "place now p e = (Inr h, e')"
  shows "order_of (eng_db e') (pl_orderHash p) \<noteq> None"
proof -
  obtain rules where "getTradingContext (eng_db e) (pl_marketId p) = Inr rules"
    and pc: "place_core now rules p e = (Inr h, e')"
    using assms by (auto simp: place_def split: sum.splits option.splits)
  obtain r1 e1 where cn: "cancel now (ctx_symbol rules) (pl_orderHash p) e = (r1, e1)" by fastforce
  with pc obtain s where r1: "r1 = Inr s" by (cases r1) (auto simp: place_core_def)
  obtain b e2 where eb: "ensure_book (ctx_symbol rules) e1 = (b, e2)" by fastforce
  let ?q = "\<lparr>pi_hash = pl_orderHash p, pi_marketId = ctx_id rules, pi_maker = pl_maker p,
     pi_side = pl_side p, pi_priceTicks = pl_priceTicks p, pi_sizeBase = pl_sizeBase p\<rparr>"
  obtain r3 d where up: "upsertOrderPlaced now ?q (eng_db e2) = (r3, d)" by fastforce
  with pc cn r1 eb have "r3 = Inr ()" "eng_db e' = d"
    by (auto simp: place_core_def Let_def split: sum.splits)
  with up upsert_exists [of now ?q "eng_db e2"] show ?thesis by simp
qed

lemma attachRaw_engine:
  "engine_wf e \<Longrightarrow> engine_wf (snd (attachRaw k h ord sg e)) \<and> eng_db (snd (attachRaw k h ord sg e)) = eng_db e \<and>
    (\<forall>j ctx. getTradingContext (eng_db e) k = Inr ctx \<longrightarrow> j \<noteq> ctx_symbol ctx \<longrightarrow>
       book_at (snd (attachRaw k h ord sg e)) j = book_at e j)"
  using engine_wf_attachRaw [of e k h ord sg]
  by (auto simp: attachRaw_def split: sum.splits option.splits)

lemma attachRawToOrder_fails: "attachRawToOrder h ord sg d = (Inl ex, d') \<Longrightarrow> d' = d"
  by (auto simp: attachRawToOrder_def Let_def split: option.splits sum.splits if_splits)

lemma persist_raw_fails:
  assumes "engine_wf e" and "getTradingContext (eng_db e) k = Inr ctx" and "persist_raw k rq e = (Inl ex, e')"
  shows "engine_wf e' \<and> eng_db e' = eng_db e \<and> (\<forall>j. j \<noteq> ctx_symbol ctx \<longrightarrow> book_at e' j = book_at e j)"
proof -
  obtain r1 e1 where at: "attachRaw k (pq_orderHash rq) (pq_order rq) (pq_signature rq) e = (r1, e1)" by fastforce
  note ae = attachRaw_engine [OF assms(1), of k "pq_orderHash rq" "pq_order rq" "pq_signature rq", unfolded at]
  have "e' = e1 \<or> (\<exists>d. attachRawToOrder (pq_orderHash rq) (pq_order rq) (pq_signature rq) (eng_db e1) = (Inl ex, d)
      \<and> e' = e1\<lparr>eng_db := d\<rparr>)"
    using assms(3) at by (auto simp: persist_raw_def split: sum.splits if_splits prod.splits)
  then have "e' = e1" using attachRawToOrder_fails by fastforce
  with ae assms(2) show ?thesis by auto
qed

text \<open>
  A failed raw persistence is rolled back: when the level has been placed but its raw order
  cannot be attached or stored, the placement ends with \<open>raw_persistence_failed\<close>, no order with
  this hash rests in the market's book, no other book has changed, and the row it had created
  or revived is \<open>CANCELLED\<close>.
\<close>

theorem failed_persistence_rolled_back:
  assumes wf: "engine_wf e" and dec: "place_decide pe x rq e = Inr (mkt, sd, sz, px)"
    and pl: "place now \<lparr>pl_marketId = mb_symbol mkt, pl_orderHash = pq_orderHash rq,
       pl_maker = pq_makerExpected rq, pl_side = sd, pl_priceTicks = px, pl_sizeBase = sz\<rparr> e = (Inr h, e1)"
    and pr: "persist_raw (mb_symbol mkt) rq e1 = (Inl ex, e2)"
  shows "\<exists>e' b r. place_order pe x now rq e =
      (Inl (InternalError (''raw_persistence_failed: '' @ exn_message ex)), e') \<and>
    book_at e' (mb_symbol mkt) = Some b \<and>
    (\<forall>l \<in> set (bids b @ asks b). to_lower (lv_id l) \<noteq> to_lower (pq_orderHash rq)) \<and>
    (\<forall>j. j \<noteq> mb_symbol mkt \<longrightarrow> book_at e' j = book_at e j) \<and>
    order_of (eng_db e') (pq_orderHash rq) = Some r \<and> o_status r = O_CANCELLED"
proof -
  let ?p = "\<lparr>pl_marketId = mb_symbol mkt, pl_orderHash = pq_orderHash rq,
       pl_maker = pq_makerExpected rq, pl_side = sd, pl_priceTicks = px, pl_sizeBase = sz\<rparr>"
  obtain ctx where m: "mkt \<in> set (listMarketsBasic (eng_db e))"
    and ctx: "getTradingContext (eng_db e) (mb_id mkt) = Inr ctx"
    using dec by (rule place_decide_sound)
  have mok: "markets_ok (eng_db e)" using wf by (simp add: engine_wf_def)
  note bc = basic_ctx [OF mok m ctx]
  have ctx_p: "getTradingContext (eng_db e) (pl_marketId ?p) = Inr ctx" using bc(3) by simp
  note pb = place_book [OF wf ctx_p pl]
  have c1: "getTradingContext (eng_db e1) (mb_symbol mkt) = Inr ctx"
    using bc(3) getTradingContext_cong pb by metis
  have wf1: "engine_wf e1" using pb by blast
  note pf = persist_raw_fails [OF wf1 c1 pr]
  have c2: "getTradingContext (eng_db e2) (mb_symbol mkt) = Inr ctx" using c1 pf by simp
  obtain r3 e3 where cn: "cancel now (mb_symbol mkt) (pq_orderHash rq) e2 = (r3, e3)" by fastforce
  have ok2: "engine_ok e2" using pf engine_wf_ok by blast
  note cb = cancel_book [OF ok2 c2 cn]
  let ?e' = "e3\<lparr>eng_db := snd (cancelOrder now (mb_id mkt) (pq_orderHash rq) (eng_db e3))\<rparr>"
  have run: "place_order pe x now rq e =
      (Inl (InternalError (''raw_persistence_failed: '' @ exn_message ex)), ?e')"
    using dec pl pr cn by (simp add: place_order_def roll_back_def)
  have row2: "order_of (eng_db e2) (pq_orderHash rq) \<noteq> None"
    using place_row_exists [OF pl] pf by simp
  have "order_of (eng_db e3) (pq_orderHash rq) \<noteq> None"
  proof -
    obtain b4 e4 where eb: "ensure_book (ctx_symbol ctx) e2 = (b4, e4)" by fastforce
    have "eng_db e4 = eng_db e2" using ensure_book_frame [of "ctx_symbol ctx" e2] eb by simp
    moreover obtain q d where co: "cancelOrder now (ctx_id ctx) (pq_orderHash rq) (eng_db e2) = (q, d)" by fastforce
    moreover have "order_of d (pq_orderHash rq) \<noteq> None"
      using order_of_cancelOrder [of now "ctx_id ctx" "pq_orderHash rq" "eng_db e2" "pq_orderHash rq"] co row2
      by simp
    ultimately show ?thesis
      using cn row2 by (auto simp: cancel_def c2 eb Let_def split: if_splits sum.splits)
  qed
  then obtain r where "order_of (eng_db ?e') (pq_orderHash rq) = Some r" "o_status r = O_CANCELLED"
    by auto
  moreover have "book_at ?e' (mb_symbol mkt) =
      Some (drop_id (to_lower (pq_orderHash rq)) (fst (ensure_book (ctx_symbol ctx) e2)))"
    using cb bc(1) by simp
  moreover have "\<forall>l \<in> set (bids (drop_id t b) @ asks (drop_id t b)). to_lower (lv_id l) \<noteq> t" for t b
    using drop_id_fresh by (auto simp: id_key_def)
  moreover have "\<forall>j. j \<noteq> mb_symbol mkt \<longrightarrow> book_at ?e' j = book_at e j"
    using cb pf pb bc(1) by simp
  ultimately show ?thesis using run by blast
qed

text \<open>
  An expiry beyond the 64-bit column makes \<open>attachRawToOrder\<close> throw after the level was placed.
\<close>

definition sample_bad_request :: place_request where
  "sample_bad_request = (sample_request ''0x4'')\<lparr>pq_order := JObj
    [(''makerToken'', JStr ''0xB''), (''takerToken'', JStr ''0xQ''), (''makerAmount'', JStr ''20''),
     (''takerAmount'', JStr ''12''), (''expiry'', JBig (2 ^ 64))]\<rparr>"

theorem failed_persistence_rolled_back_witness:
  "\<exists>e' m r. place_order no_env sample_chain 9 sample_bad_request sample_engine = (Inl (InternalError m), e') \<and>
    order_of (eng_db e') ''0x4'' = Some r \<and> o_status r = O_CANCELLED"
proof -
  let ?pl = "\<lambda>mkt sd sz px. \<lparr>pl_marketId = mb_symbol mkt, pl_orderHash = pq_orderHash sample_bad_request,
       pl_maker = pq_makerExpected sample_bad_request, pl_side = sd, pl_priceTicks = px, pl_sizeBase = sz\<rparr>"
  let ?raw = "\<lambda>mkt e1. persist_raw (mb_symbol mkt) sample_bad_request e1"
  have "case place_decide no_env sample_chain sample_bad_request sample_engine of
      Inl _ \<Rightarrow> False
    | Inr (mkt, sd, sz, px) \<Rightarrow> (case place 9 (?pl mkt sd sz px) sample_engine of
        (r1, e1) \<Rightarrow> \<not> isl r1 \<and> isl (fst (?raw mkt e1)))" by code_simp
  then obtain mkt sd sz px r1 e1 where
    dec: "place_decide no_env sample_chain sample_bad_request sample_engine = Inr (mkt, sd, sz, px)"
    and pl: "place 9 (?pl mkt sd sz px) sample_engine = (r1, e1)"
    and r: "\<not> isl r1" "isl (fst (?raw mkt e1))"
    by (auto split: sum.splits prod.splits)
  obtain h where h: "r1 = Inr h" using r(1) by (cases r1) auto
  obtain ex e2 where pr: "?raw mkt e1 = (Inl ex, e2)"
    using r(2) by (cases "?raw mkt e1") (auto simp: isl_def)
  note run = dec pl [unfolded h] pr
  from failed_persistence_rolled_back [OF sample_wf run]
  have "\<exists>e' b r. place_order no_env sample_chain 9 sample_bad_request sample_engine =
      (Inl (InternalError (''raw_persistence_failed: '' @ exn_message ex)), e') \<and>
    order_of (eng_db e') (pq_orderHash sample_bad_request) = Some r \<and> o_status r = O_CANCELLED" by blast
  moreover have "pq_orderHash sample_bad_request = ''0x4''"
    by (simp add: sample_bad_request_def sample_request_def)
  ultimately show ?thesis by auto
qed

end
