(* ===== verification/CancelFloor.thy ===== *)
theory CancelFloor
  imports Persistence
begin

text \<open>
  \<open>apps/api/src/onchain/cancel-pair-floor.repository.ts\<close>: the highest \<open>minValidSalt\<close> seen on
  chain per (maker, maker token, taker token). The SQL upsert is translated clause by clause.
  A value Prisma returns for the \<open>Decimal(78,0)\<close> column is a \<open>Decimal\<close> object, of which the
  reader uses the methods below.
\<close>

record floor_row =
  fl_maker :: string
  fl_makerToken :: string
  fl_takerToken :: string
  fl_minValidSalt :: int
  fl_observedAt :: int
  fl_updatedAt :: int
  fl_fromTxHash :: "string option"

record floor_input =
  fi_maker :: string
  fi_makerToken :: string
  fi_takerToken :: string
  fi_minValidSalt :: int
  fi_fromTxHash :: "string option"

type_synonym floor_table = "floor_row list"

definition floor_key :: "floor_row \<Rightarrow> string \<times> string \<times> string" where
  "floor_key r = (fl_maker r, fl_makerToken r, fl_takerToken r)"

definition input_key :: "floor_input \<Rightarrow> string \<times> string \<times> string" where
  "input_key u = (to_lower (fi_maker u), to_lower (fi_makerToken u), to_lower (fi_takerToken u))"

text \<open>\<open>ON CONFLICT ... DO UPDATE\<close>: \<open>EXCLUDED\<close> is the proposed row.\<close>

definition merge_floor :: "int \<Rightarrow> floor_input \<Rightarrow> floor_row \<Rightarrow> floor_row" where
  "merge_floor now u r =
    r\<lparr>fl_minValidSalt := max (fl_minValidSalt r) (fi_minValidSalt u),
      fl_updatedAt := now,
      fl_fromTxHash := (if fi_minValidSalt u > fl_minValidSalt r then fi_fromTxHash u
                        else fl_fromTxHash r)\<rparr>"

definition upsertFloor :: "int \<Rightarrow> floor_input \<Rightarrow> floor_table \<Rightarrow> unit result \<times> floor_table" where
  "upsertFloor now u t =
    (if \<not> fits_dec78 (fi_minValidSalt u) then (Inl (PlainError ''numeric field overflow''), t)
     else if row_by floor_key (input_key u) t \<noteq> None
     then (Inr (), update_where (\<lambda>r. floor_key r = input_key u) (merge_floor now u) t)
     else (Inr (), t @ [\<lparr>fl_maker = to_lower (fi_maker u), fl_makerToken = to_lower (fi_makerToken u),
            fl_takerToken = to_lower (fi_takerToken u), fl_minValidSalt = fi_minValidSalt u,
            fl_observedAt = now, fl_updatedAt = now, fl_fromTxHash = fi_fromTxHash u\<rparr>]))"

section \<open>Reading a Decimal\<close>

record dec_obj =
  do_isInteger :: "bool option"
  do_isInt :: "bool option"
  do_decimalPlaces :: "int option"
  do_toFixed0 :: "string option"
  do_toString :: string

datatype dec_value = DBig int | DNum jnum | DStr string | DObj dec_obj | DOther

definition floor_error :: "string \<Rightarrow> exn" where
  "floor_error m = PlainError (''cancel_pair_floor: '' @ m)"

definition parseIntegerString :: "string \<Rightarrow> int result" where
  "parseIntegerString s =
    (let trimmed = trim s;
         digits = (if starts_with trimmed ''-'' then drop 1 trimmed else trimmed)
     in if \<not> all_digits 10 digits then Inl (floor_error ''not a plain integer string'')
        else str_to_bigint trimmed)"

definition decimalToBigInt :: "dec_value \<Rightarrow> int result" where
  "decimalToBigInt v =
    (case v of
       DBig i \<Rightarrow> Inr i
     | DNum (Fin q) \<Rightarrow> if is_int_rat q then Inr \<lfloor>q\<rfloor> else Inl (floor_error ''not a plain integer'')
     | DNum _ \<Rightarrow> Inl (floor_error ''not a plain integer'')
     | DStr s \<Rightarrow> parseIntegerString s
     | DObj ob \<Rightarrow>
         if do_isInteger ob = Some False then Inl (floor_error ''isInteger() = false'')
         else if do_isInt ob = Some False then Inl (floor_error ''isInt() = false'')
         else if do_decimalPlaces ob \<noteq> None \<and> do_decimalPlaces ob \<noteq> Some 0
         then Inl (floor_error ''decimalPlaces > 0'')
         else (case do_toFixed0 ob of
                 Some s \<Rightarrow> parseIntegerString s
               | None \<Rightarrow> parseIntegerString (do_toString ob))
     | DOther \<Rightarrow> Inl (floor_error ''unsupported type''))"

text \<open>
  The \<open>Decimal\<close> Prisma returns for an integer column value: an integer by each predicate, whose
  \<open>toFixed(0)\<close> is plain decimal notation. What its \<open>toString\<close> gives is left open.
\<close>

definition prisma_decimal :: "(int \<Rightarrow> string) \<Rightarrow> int \<Rightarrow> dec_value" where
  "prisma_decimal dec_toString n =
    DObj \<lparr>do_isInteger = Some True, do_isInt = Some True, do_decimalPlaces = Some 0,
      do_toFixed0 = Some (big_to_string n), do_toString = dec_toString n\<rparr>"

definition getFloor ::
  "(int \<Rightarrow> string) \<Rightarrow> string \<Rightarrow> string \<Rightarrow> string \<Rightarrow> floor_table \<Rightarrow> int option result" where
  "getFloor dec_toString maker makerToken takerToken t =
    (case row_by floor_key (to_lower maker, to_lower makerToken, to_lower takerToken) t of
       None \<Rightarrow> Inr None
     | Some row \<Rightarrow>
         bind_res (decimalToBigInt (prisma_decimal dec_toString (fl_minValidSalt row))) (\<lambda>n. Inr (Some n)))"

section \<open>The floor is the maximum of the history\<close>

lemma big_to_string_plain: "parseIntegerString (big_to_string n) = Inr n"
proof -
  have sp: "trim (nat_digits m) = nat_digits m" "all_digits 10 (nat_digits m)"
    "\<not> starts_with (nat_digits m) ''-''" if "0 \<le> m" for m
  proof -
    have c: "\<forall>c \<in> set (nat_digits m). 48 \<le> code c \<and> code c \<le> 57" by (rule nat_digits_codes [OF that])
    then show "trim (nat_digits m) = nat_digits m"
      using digit_not_space by (intro trim_no_space) blast
    show "all_digits 10 (nat_digits m)" by (rule all_digits_nat_digits [OF that])
    show "\<not> starts_with (nat_digits m) ''-''"
      using c code_dash by (auto simp: starts_with_one)
  qed
  show ?thesis
  proof (cases "0 \<le> n")
    case True
    with sp [of n] str_to_bigint_big_to_string [of n] show ?thesis
      by (simp add: parseIntegerString_def big_to_string_def)
  next
    case False
    then have m: "0 \<le> - n" by simp
    have "\<forall>c \<in> set (nat_digits (- n)). \<not> is_space c"
      using nat_digits_codes [OF m] digit_not_space by blast
    then have "trim (CHR ''-'' # nat_digits (- n)) = CHR ''-'' # nat_digits (- n)"
      by (intro trim_no_space) (auto simp: is_space_def code_dash)
    with False sp [OF m] str_to_bigint_big_to_string [of n] show ?thesis
      by (simp add: parseIntegerString_def big_to_string_def starts_with_one)
  qed
qed

lemma decimalToBigInt_prisma [simp]: "decimalToBigInt (prisma_decimal ts n) = Inr n"
  by (simp add: decimalToBigInt_def prisma_decimal_def big_to_string_plain)

definition stored_floor :: "floor_table \<Rightarrow> string \<times> string \<times> string \<Rightarrow> int option" where
  "stored_floor t k = map_option fl_minValidSalt (row_by floor_key k t)"

lemma getFloor_stored:
  "getFloor ts m a b t = Inr (stored_floor t (to_lower m, to_lower a, to_lower b))"
  by (simp add: getFloor_def stored_floor_def split: option.split)

definition join_max :: "int option \<Rightarrow> int \<Rightarrow> int option" where
  "join_max f s = (case f of None \<Rightarrow> Some s | Some g \<Rightarrow> Some (max g s))"

lemma merge_floor_key: "floor_key (merge_floor now u r) = floor_key r"
  by (simp add: merge_floor_def floor_key_def)

lemma stored_floor_upsert:
  "stored_floor (snd (upsertFloor now u t)) k =
    (if k = input_key u \<and> fits_dec78 (fi_minValidSalt u)
     then join_max (stored_floor t k) (fi_minValidSalt u) else stored_floor t k)"
proof -
  note upd = row_by_update_where [where key = floor_key and f = "merge_floor now u", OF merge_floor_key]
  show ?thesis
  proof (cases "row_by floor_key (input_key u) t")
    case None
    then show ?thesis
      by (auto simp: upsertFloor_def stored_floor_def row_by_append join_max_def floor_key_def
          input_key_def split: option.splits)
  next
    case (Some r)
    have fk: "\<And>s. row_by floor_key k t = Some s \<Longrightarrow> floor_key s = k" using row_by_SomeD by metis
    from Some fk show ?thesis
      by (cases "row_by floor_key k t")
        (auto simp: upsertFloor_def stored_floor_def upd join_max_def merge_floor_def)
  qed
qed

text \<open>A history of observed \<open>PairCancelledLimitOrders\<close> events, oldest first, with its clock.\<close>

fun observe :: "(int \<times> floor_input) list \<Rightarrow> floor_table \<Rightarrow> floor_table" where
  "observe [] t = t"
| "observe ((now, u) # us) t = observe us (snd (upsertFloor now u t))"

definition salts_for :: "string \<times> string \<times> string \<Rightarrow> (int \<times> floor_input) list \<Rightarrow> int set" where
  "salts_for k us = fi_minValidSalt ` {u \<in> snd ` set us. input_key u = k \<and> fits_dec78 (fi_minValidSalt u)}"

lemma finite_salts [simp]: "finite (salts_for k us)"
  by (simp add: salts_for_def)

definition max_of :: "int set \<Rightarrow> int option" where
  "max_of S = (if S = {} then None else Some (Max S))"

lemma salts_for_Cons:
  "salts_for k ((now, u) # us) =
    (if input_key u = k \<and> fits_dec78 (fi_minValidSalt u) then insert (fi_minValidSalt u) (salts_for k us)
     else salts_for k us)"
  by (auto simp: salts_for_def)

lemma stored_floor_observe:
  "stored_floor (observe us t) k =
    (case stored_floor t k of None \<Rightarrow> max_of (salts_for k us) | Some g \<Rightarrow> Some (Max (insert g (salts_for k us))))"
proof (induction us arbitrary: t)
  case Nil
  then show ?case by (auto simp: max_of_def salts_for_def split: option.splits)
next
  case (Cons p us)
  obtain now u where p: "p = (now, u)" by fastforce
  have "Max (insert (max x y) S) = Max (insert x (insert y S))" if "finite S" for x y :: int and S
    using that by (cases "S = {}") (simp_all add: max.assoc)
  then show ?case
    by (auto simp: p Cons stored_floor_upsert salts_for_Cons join_max_def max_of_def
        simp del: Max_insert split: option.splits)
qed

text \<open>
  C37. The cancel floor is exactly the maximum of the observed history: whatever the order,
  repetition or letter case in which on-chain pair-cancel events are processed, a read returns
  the largest \<open>minValidSalt\<close> seen for that pair and maker (and nothing when there was none), so a
  re-org or an out-of-order event can never lower it. The read goes through the \<open>Decimal\<close> parsing
  and is right whatever exponent notation \<open>Decimal.toString\<close> would use.
\<close>

theorem floor_is_max_of_history:
  "getFloor ts m a b (observe us []) =
     Inr (max_of (salts_for (to_lower m, to_lower a, to_lower b) us))"
  by (simp add: getFloor_stored stored_floor_observe stored_floor_def [of "[]"])

text \<open>
  A stored floor never moves down and keeps the transaction that raised it: an upsert with a
  salt that is not larger leaves both the floor and its \<open>fromTxHash\<close> as they were, one with a
  larger salt replaces both, and no other triple is touched.
\<close>

theorem upsert_floor_monotone:
  assumes "row_by floor_key (input_key u) t = Some r" and "fits_dec78 (fi_minValidSalt u)"
    and "upsertFloor now u t = (res, t')"
  shows "res = Inr () \<and>
    (\<exists>r'. row_by floor_key (input_key u) t' = Some r' \<and>
      fl_minValidSalt r \<le> fl_minValidSalt r' \<and>
      (if fi_minValidSalt u \<le> fl_minValidSalt r
       then fl_minValidSalt r' = fl_minValidSalt r \<and> fl_fromTxHash r' = fl_fromTxHash r
       else fl_minValidSalt r' = fi_minValidSalt u \<and> fl_fromTxHash r' = fi_fromTxHash u)) \<and>
    (\<forall>k. k \<noteq> input_key u \<longrightarrow> row_by floor_key k t' = row_by floor_key k t)"
proof -
  note upd = row_by_update_where [where key = floor_key and f = "merge_floor now u", OF merge_floor_key]
  have t': "t' = update_where (\<lambda>r. floor_key r = input_key u) (merge_floor now u) t" "res = Inr ()"
    using assms by (simp_all add: upsertFloor_def)
  have "row_by floor_key k t' = row_by floor_key k t" if "k \<noteq> input_key u" for k
    using that row_by_SomeD [of floor_key k t]
    by (cases "row_by floor_key k t") (simp_all add: t' upd)
  moreover have "row_by floor_key (input_key u) t' = Some (merge_floor now u r)"
    using assms(1) row_by_SomeD [OF assms(1)] by (simp add: t' upd)
  ultimately show ?thesis using t'(2) by (auto simp: merge_floor_def)
qed

definition sample_input :: "int \<Rightarrow> floor_input" where
  "sample_input s = \<lparr>fi_maker = ''0xA'', fi_makerToken = ''0xb'', fi_takerToken = ''0xC'',
     fi_minValidSalt = s, fi_fromTxHash = Some ''0xt''\<rparr>"

theorem upsert_floor_monotone_witness:
  "\<exists>t'. upsertFloor 2 (sample_input 5) (snd (upsertFloor 1 (sample_input 9) [])) = (Inr (), t') \<and>
    map fl_minValidSalt t' = [9]"
proof -
  obtain r where r: "row_by floor_key (input_key (sample_input 5)) (snd (upsertFloor 1 (sample_input 9) [])) = Some r"
    by (auto simp: upsertFloor_def sample_input_def fits_dec78_def floor_key_def input_key_def)
  obtain res t' where u: "upsertFloor 2 (sample_input 5) (snd (upsertFloor 1 (sample_input 9) [])) = (res, t')"
    by fastforce
  have f: "fits_dec78 (fi_minValidSalt (sample_input 5))" by (simp add: sample_input_def fits_dec78_def)
  have "map fl_minValidSalt (snd (upsertFloor 2 (sample_input 5) (snd (upsertFloor 1 (sample_input 9) [])))) = [9]"
    by code_simp
  with upsert_floor_monotone [OF r f u] u show ?thesis by auto
qed

end
