(* ===== verification/SeaState.thy ===== *)
theory SeaState
  imports IntentLifecycle ZeroEx Placement CancelFloor
begin

text \<open>
  The state the SEA services work on (the order book and its tables, the intents, their events,
  the cancel floors) and the record of everything they take from outside: the environment, the
  0x and crypto primitives, the two ERC-20 reads, \<open>HMAC\<close>, \<open>Decimal.toString\<close>, \<open>Date.parse\<close>
  and the receipt status of a transaction.
\<close>

record sea =
  sea_engine :: engine
  sea_intents :: intents
  sea_events :: "intent_event list"
  sea_floors :: floor_table

text \<open>\<open>status\<close> of the receipt of a transaction: absent, or null, 0 or 1; the call may throw.\<close>

datatype receipt = NoReceipt | Receipt "int option"

record sea_ext =
  sx_env :: penv
  sx_zx :: zx_ext
  sx_cfg :: zx_config
  sx_chain :: chain_ext
  sx_hmac :: "string \<Rightarrow> string \<Rightarrow> string"
  sx_decToString :: "int \<Rightarrow> string"
  sx_dateParse :: "string \<Rightarrow> int option"
  sx_receipt :: "string \<Rightarrow> receipt result"

abbreviation sea_db :: "sea \<Rightarrow> db" where
  "sea_db s \<equiv> eng_db (sea_engine s)"

definition dev_skip :: "sea_ext \<Rightarrow> bool" where
  "dev_skip x \<longleftrightarrow> env_is (sx_env x) ''DEV_SKIP_SIGS'' ''1''"

definition read_only :: "sea_ext \<Rightarrow> bool" where
  "read_only x \<longleftrightarrow> env_is (sx_env x) ''READ_ONLY'' ''true''"

definition mainnet :: "sea_ext \<Rightarrow> bool" where
  "mainnet x \<longleftrightarrow> env_is (sx_env x) ''PROFILE'' ''mainnet''"

text \<open>A repository update on the intents, an event appended, and an array as its index properties.\<close>

definition on_intents :: "(intents \<Rightarrow> 'a \<times> intents) \<Rightarrow> sea \<Rightarrow> 'a \<times> sea" where
  "on_intents f s = (let (r, t) = f (sea_intents s) in (r, s\<lparr>sea_intents := t\<rparr>))"

definition append_event_sea :: "string \<Rightarrow> intent_event_type \<Rightarrow> jval \<Rightarrow> sea \<Rightarrow> unit result \<times> sea" where
  "append_event_sea i ty payload s =
    (let (r, evs) = append_intent_event i ty payload (sea_intents s) (sea_events s)
     in (r, s\<lparr>sea_events := evs\<rparr>))"

fun array_from :: "int \<Rightarrow> jval list \<Rightarrow> (string \<times> jval) list" where
  "array_from n [] = []"
| "array_from n (v # vs) = (big_to_string n, v) # array_from (n + 1) vs"

definition jarray :: "jval list \<Rightarrow> jval" where
  "jarray vs = JObj (array_from 0 vs)"

lemma on_intents_frame [simp]:
  "sea_engine (snd (on_intents f s)) = sea_engine s" "sea_events (snd (on_intents f s)) = sea_events s"
  "sea_floors (snd (on_intents f s)) = sea_floors s"
  "sea_intents (snd (on_intents f s)) = snd (f (sea_intents s))"
  "fst (on_intents f s) = fst (f (sea_intents s))"
  by (auto simp: on_intents_def split: prod.splits)

lemma sea_event_frame [simp]:
  "sea_engine (snd (append_event_sea i ty p s)) = sea_engine s"
  "sea_intents (snd (append_event_sea i ty p s)) = sea_intents s"
  "sea_floors (snd (append_event_sea i ty p s)) = sea_floors s"
  by (auto simp: append_event_sea_def split: prod.splits)

lemma sea_event_ok:
  "intent_at (sea_intents s) i \<noteq> None \<Longrightarrow> append_event_sea i ty p s =
    (Inr (), s\<lparr>sea_events := sea_events s @ [\<lparr>ie_intentId = i, ie_type = ty, ie_payload = p\<rparr>]\<rparr>)"
  by (simp add: append_event_sea_def append_intent_event_def)


section \<open>A sample world\<close>

definition hex_addr :: "char \<Rightarrow> string" where
  "hex_addr c = ''0x'' @ replicate 40 c"

definition sea_market :: market_row where
  "sea_market =
    \<lparr>mk_id = ''m1'', mk_symbol = ''B-Q'', mk_baseAddress = hex_addr CHR ''b'',
     mk_quoteAddress = hex_addr CHR ''c'', mk_baseDecimals = 2, mk_quoteDecimals = 2,
     mk_minNotionalQ = 1, mk_minSizeB = 1, mk_priceTickQ = 10\<rparr>"

definition sea_sample :: sea where
  "sea_sample =
    \<lparr>sea_engine = \<lparr>eng_books = [], eng_db = \<lparr>d_markets = [sea_market], d_orders = [], d_trades = [],
       d_events = [], d_ws = [], d_metrics = []\<rparr>\<rparr>,
     sea_intents = [], sea_events = [], sea_floors = []\<rparr>"

text \<open>A world in which every signature is the sample owner's and every order hashes to one value.\<close>

definition sample_owner :: string where
  "sample_owner = hex_addr CHR ''a''"

definition sample_zx :: zx_ext where
  "sample_zx =
    \<lparr>zx_contractAddresses = (\<lambda>c. Inr (Some (hex_addr CHR ''d''))),
     zx_typedDataHash = (\<lambda>c ep lo. Inr (''0x'' @ replicate 64 CHR ''7'')),
     zx_personalDigest = (\<lambda>h. Inr h), zx_recoverAddress = (\<lambda>h v r sv. Inr sample_owner),
     zx_verifyMessage = (\<lambda>m sg. Inr sample_owner)\<rparr>"

definition sample_penv :: penv where
  "sample_penv k =
    (if k = ''SEA_LOCK_NONCE_SECRET'' then Some ''0123456789abcdef''
     else if k = ''SEA_EXECUTION_TOKEN_SECRET'' then Some ''fedcba9876543210''
     else None)"

definition sample_sx :: sea_ext where
  "sample_sx =
    \<lparr>sx_env = sample_penv, sx_zx = sample_zx,
     sx_cfg = \<lparr>zc_chainId = 84532, zc_exchangeProxy = None, zc_allowanceSpender = None\<rparr>,
     sx_chain = \<lparr>x_balanceOf = (\<lambda>a b. Inr 1000), x_allowance = (\<lambda>a b. Inr 1000)\<rparr>,
     sx_hmac = sample_hmac, sx_decToString = big_to_string, sx_dateParse = iso_parse,
     sx_receipt = (\<lambda>h. Inr NoReceipt)\<rparr>"


section \<open>Sequencing\<close>

text \<open>An \<open>await\<close> whose exception ends the handler, keeping the writes made so far.\<close>

definition andthen :: "'a result \<times> sea \<Rightarrow> ('a \<Rightarrow> sea \<Rightarrow> 'b result \<times> sea) \<Rightarrow> 'b result \<times> sea" where
  "andthen m f = (case m of (Inl e, s) \<Rightarrow> (Inl e, s) | (Inr v, s) \<Rightarrow> f v s)"

lemma andthen_simps [simp]:
  "andthen (Inl e, s) f = (Inl e, s)" "andthen (Inr v, s) f = f v s"
  by (simp_all add: andthen_def)

text \<open>\<open>new Date(s).getTime()\<close>, \<open>NaN\<close> for an Invalid Date.\<close>

definition date_ms :: "sea_ext \<Rightarrow> string \<Rightarrow> jnum" where
  "date_ms x iso_str = (case sx_dateParse x iso_str of Some ms \<Rightarrow> num ms | None \<Rightarrow> NaN)"

text \<open>\<open>a >= b\<close> of a number and a time, false on \<open>NaN\<close>.\<close>

fun at_or_after :: "int \<Rightarrow> jnum \<Rightarrow> bool" where
  "at_or_after n (Fin q) = (q \<le> of_int n)"
| "at_or_after n NInf = True"
| "at_or_after n _ = False"

fun after :: "int \<Rightarrow> jnum \<Rightarrow> bool" where
  "after n (Fin q) = (q < of_int n)"
| "after n NInf = True"
| "after n _ = False"

fun num_add :: "jnum \<Rightarrow> int \<Rightarrow> jnum" where
  "num_add (Fin q) k = Fin (q + of_int k)"
| "num_add x k = x"

end
