(* ===== verification/IntentValidator.thy ===== *)
theory IntentValidator
  imports SeaState
begin

text \<open>
  \<open>apps/api/src/sea/intent-validator.service.ts\<close>: the create-time and fire-time checks of an
  intent, the canonical messages owners sign, and the two signature-only checks. Each check
  contributes the codes of the issues it pushes, in the order of the source; the messages and
  the \<open>detail\<close> objects of the issues are left out.
\<close>

section \<open>Canonical messages\<close>

fun trigger_type_str :: "trigger_type \<Rightarrow> string" where
  "trigger_type_str PRICE_BELOW = ''PRICE_BELOW''"
| "trigger_type_str PRICE_ABOVE = ''PRICE_ABOVE''"

fun ref_kind_str :: "ref_kind \<Rightarrow> string" where
  "ref_kind_str BEST_BID = ''BEST_BID''"
| "ref_kind_str BEST_ASK = ''BEST_ASK''"
| "ref_kind_str MID = ''MID''"

fun tif_str :: "tif \<Rightarrow> string" where
  "tif_str IOC = ''IOC''"
| "tif_str FOK = ''FOK''"

definition buildWalletLockOwnerAuthMessage :: "string \<Rightarrow> string \<Rightarrow> int \<Rightarrow> string \<Rightarrow> string \<Rightarrow> string" where
  "buildWalletLockOwnerAuthMessage intentId owner chainId lockNonce untilIso =
    join_bar [''sea:wallet-lock'', intentId, to_lower owner, big_to_string chainId, lockNonce, untilIso]"

definition buildCancelOwnerAuthMessage :: "int \<Rightarrow> string \<Rightarrow> string \<Rightarrow> string" where
  "buildCancelOwnerAuthMessage chainId owner intentId =
    join_bar [''SEA-CANCEL-INTENT'', ''v=1'', ''chainId='' @ big_to_string chainId,
      ''owner='' @ to_lower owner, ''intentId='' @ intentId]"

definition buildCmrOwnerAuthMessage :: "create_body \<Rightarrow> int \<Rightarrow> string result" where
  "buildCmrOwnerAuthMessage body chainId =
    (let si = cb_intent body in
     if is_CL si then Inl (PlainError ''canonical message only defined for CMR'')
     else case si_expiry si of
       SecsFromActivation n \<Rightarrow> Inl (PlainError ''CMR expiry must use atUnix'')
     | AtUnix n \<Rightarrow>
         (let tif = (case si_tif si of Some y \<Rightarrow> y | None \<Rightarrow> IOC) in Inr (join_bar
           [''SEA-CMR-INTENT'', ''v=1'', ''chainId='' @ big_to_string chainId,
            ''owner='' @ to_lower (cb_owner body), ''marketId='' @ si_marketId si,
            ''side='' @ side_str (si_side si), ''sizeBase='' @ si_sizeBase si, ''tif='' @ tif_str tif,
            ''trigger='' @ trigger_type_str (tr_type (si_trigger si)) @ '':'' @
              ref_kind_str (tr_reference (si_trigger si)) @ '':'' @ tr_priceTicks (si_trigger si),
            ''expiresAtUnix='' @ big_to_string n])))"

section \<open>Environment\<close>

definition getFireGraceSecs :: "penv \<Rightarrow> int" where
  "getFireGraceSecs pe =
    (case non_empty (pe ''SEA_FIRE_EXPIRY_GRACE_SECS'') of
       None \<Rightarrow> 60
     | Some raw \<Rightarrow> (case parse_int 10 raw of Fin q \<Rightarrow> if q < 0 then 60 else trunc_rat q | _ \<Rightarrow> 60))"

section \<open>Shared checks\<close>

definition runCancelPairFloorCheck ::
  "sea_ext \<Rightarrow> string \<Rightarrow> string \<Rightarrow> string \<Rightarrow> int \<Rightarrow> floor_table \<Rightarrow> string list result" where
  "runCancelPairFloorCheck x owner makerToken takerToken salt floors =
    bind_res (getFloor (sx_decToString x) owner makerToken takerToken floors) (\<lambda>fl.
      Inr (case fl of
             None \<Rightarrow> []
           | Some n \<Rightarrow> if salt < n then [''cancel_pair_floor_above_salt''] else []))"

definition signer_issues :: "string option result \<Rightarrow> string \<Rightarrow> string list result" where
  "signer_issues res owner =
    bind_res res (\<lambda>recovered. Inr
      (case recovered of
         None \<Rightarrow> [''invalid_signature'']
       | Some a \<Rightarrow> if to_lower a \<noteq> to_lower owner then [''signer_mismatch''] else []))"

definition maker_issues :: "limit_order \<Rightarrow> string \<Rightarrow> string list" where
  "maker_issues lo owner =
    (if to_lower (lo_maker lo) \<noteq> to_lower owner then [''order_maker_mismatch''] else [])"

definition pair_issues :: "trading_ctx \<Rightarrow> side \<Rightarrow> limit_order \<Rightarrow> string list" where
  "pair_issues ctx sd lo =
    (let baseAddr = to_lower (ctx_baseAddress ctx); quoteAddr = to_lower (ctx_quoteAddress ctx);
         expectedMaker = (case sd of SELL \<Rightarrow> baseAddr | BUY \<Rightarrow> quoteAddr);
         expectedTaker = (case sd of SELL \<Rightarrow> quoteAddr | BUY \<Rightarrow> baseAddr)
     in if to_lower (lo_makerToken lo) \<noteq> expectedMaker \<or> to_lower (lo_takerToken lo) \<noteq> expectedTaker
        then [''token_pair_mismatch''] else [])"

text \<open>The issues of the division, and the derived price when it is exact.\<close>

definition derived_ticks :: "int \<Rightarrow> int \<Rightarrow> string list \<times> int option" where
  "derived_ticks n den =
    (if den = 0 then ([''price_compute_failed''], None)
     else case (big_rem n den, big_div n den) of
       (Inr r, Inr q) \<Rightarrow> if r \<noteq> 0 then ([''price_tick_violation''], None) else ([], Some q)
     | _ \<Rightarrow> ([], None))"

definition terms_issues :: "trading_ctx \<Rightarrow> side \<Rightarrow> limit_order \<Rightarrow> int \<Rightarrow> int \<Rightarrow> string list" where
  "terms_issues ctx sd lo sizeBase limitTicks =
    (let makerAmt = lo_makerAmount lo; takerAmt = lo_takerAmount lo;
         derivedSize = (case sd of SELL \<Rightarrow> makerAmt | BUY \<Rightarrow> takerAmt);
         (iss, ticks) =
           (case sd of
              SELL \<Rightarrow> derived_ticks (takerAmt * pow10 (ctx_baseDecimals ctx)) (makerAmt * ctx_priceTickQ ctx)
            | BUY \<Rightarrow> derived_ticks (makerAmt * pow10 (ctx_baseDecimals ctx)) (takerAmt * ctx_priceTickQ ctx))
     in iss @ (if derivedSize \<noteq> sizeBase then [''size_mismatch''] else []) @
        (case ticks of
           None \<Rightarrow> [] | Some q \<Rightarrow> if q \<noteq> limitTicks then [''price_mismatch''] else []))"

text \<open>Comparing with an Invalid Date is false.\<close>

definition expiry_issues :: "penv \<Rightarrow> limit_order \<Rightarrow> int option \<Rightarrow> string list" where
  "expiry_issues pe lo expiresAt =
    (case expiresAt of
       None \<Rightarrow> []
     | Some ex \<Rightarrow>
         if num_less (num_scale 1000 (lo_expiry lo)) (num (ex + getFireGraceSecs pe * 1000))
         then [''zeroex_order_expiry_too_close''] else [])"

definition notional_issues :: "trading_ctx \<Rightarrow> int \<Rightarrow> int \<Rightarrow> string list" where
  "notional_issues ctx limitTicks sizeBase =
    (if limitTicks * ctx_priceTickQ ctx * sizeBase < ctx_minNotionalQ ctx * pow10 (ctx_baseDecimals ctx)
     then [''min_notional_violation''] else [])"

definition size_issues :: "trading_ctx \<Rightarrow> int \<Rightarrow> string list" where
  "size_issues ctx sizeBase = (if sizeBase < ctx_minSizeB ctx then [''min_size_violation''] else [])"

section \<open>Create\<close>

definition owner_auth_issues :: "sea_ext \<Rightarrow> create_body \<Rightarrow> string list" where
  "owner_auth_issues x body =
    (if dev_skip x then []
     else if blank (cb_ownerAuth body) then [''invalid_owner_auth'']
     else case si_expiry (cb_intent body) of
       SecsFromActivation n \<Rightarrow> []
     | AtUnix n \<Rightarrow>
         (case bind_res (buildCmrOwnerAuthMessage body (getChainIdFromEnv (sx_env x)))
                 (\<lambda>m. zx_verifyMessage (sx_zx x) m (the (cb_ownerAuth body))) of
            Inl e \<Rightarrow> [''invalid_owner_auth'']
          | Inr recovered \<Rightarrow>
              if to_lower recovered \<noteq> to_lower (cb_owner body)
              then [''owner_auth_signer_mismatch''] else []))"

definition natural_trigger :: "side \<Rightarrow> trigger_type \<Rightarrow> ref_kind \<Rightarrow> bool" where
  "natural_trigger sd ty ref \<longleftrightarrow>
    (sd = BUY \<and> ty = PRICE_BELOW \<and> ref = BEST_ASK) \<or> (sd = SELL \<and> ty = PRICE_ABOVE \<and> ref = BEST_BID)"

definition cmr_issues :: "sea_ext \<Rightarrow> create_body \<Rightarrow> string list" where
  "cmr_issues x body =
    owner_auth_issues x body @
    (if natural_trigger (si_side (cb_intent body)) (tr_type (si_trigger (cb_intent body)))
          (tr_reference (si_trigger (cb_intent body)))
     then [] else [''cmr_trigger_unsupported''])"

text \<open>Signature issues, and the issues of the recomputed hash with the hash; the skip mode has none.\<close>

definition create_signature_issues :: "sea_ext \<Rightarrow> create_body \<Rightarrow> limit_order \<Rightarrow> string list result" where
  "create_signature_issues x body lo =
    (if blank (cb_signature body) then Inr [''invalid_signature'']
     else case parseSigHexToTuple (the (cb_signature body)) of
       None \<Rightarrow> Inr [''invalid_signature'']
     | Some sg \<Rightarrow>
         signer_issues (verifySignature (sx_zx x) (sx_cfg x) (getChainIdFromEnv (sx_env x)) (order_json lo) sg)
           (cb_owner body))"

definition computed_hash :: "sea_ext \<Rightarrow> limit_order \<Rightarrow> string list \<times> string option" where
  "computed_hash x lo =
    (if dev_skip x then ([], None)
     else case getOrderHash (sx_zx x) (sx_cfg x) (getChainIdFromEnv (sx_env x)) (order_json lo) of
       Inl e \<Rightarrow> ([''order_hash_compute_failed''], None)
     | Inr h \<Rightarrow> ([], Some h))"

definition create_hash_issues :: "create_body \<Rightarrow> string option \<Rightarrow> string list" where
  "create_hash_issues body computedHash =
    (if \<not> blank computedHash \<and> \<not> blank (cb_preSignedOrderHash body)
        \<and> to_lower (the (cb_preSignedOrderHash body)) \<noteq> to_lower (the computedHash)
     then [''order_hash_mismatch''] else [])"

definition lookup_issues :: "create_body \<Rightarrow> string option \<Rightarrow> db \<Rightarrow> intents \<Rightarrow> string list" where
  "lookup_issues body computedHash d t =
    (case (case computedHash of
             Some h \<Rightarrow> Some h
           | None \<Rightarrow> if blank (cb_preSignedOrderHash body) then None
                     else map_option to_lower (cb_preSignedOrderHash body)) of
       None \<Rightarrow> []
     | Some h \<Rightarrow>
         if h = [] then []
         else (if orderHashExists d h then [''order_already_exists''] else []) @
              (if findActiveByPreSignedHash h t \<noteq> None then [''duplicate_active_intent''] else []))"

definition cl_issues ::
  "sea_ext \<Rightarrow> create_body \<Rightarrow> trading_ctx \<Rightarrow> int option \<Rightarrow> int \<Rightarrow> sea \<Rightarrow> string list result" where
  "cl_issues x body ctx expiresAt sizeBase s =
    (let si = cb_intent body in
     bind_res (str_to_bigint (si_limitPriceTicks si)) (\<lambda>limitTicks.
     bind_res (sanitizeOrder (cb_zeroExOrder body)) (\<lambda>lo.
     bind_res (if dev_skip x then Inr [] else create_signature_issues x body lo) (\<lambda>sigIss.
     let (hIss, h) = computed_hash x lo in
     bind_res (runCancelPairFloorCheck x (cb_owner body) (lo_makerToken lo) (lo_takerToken lo)
         (lo_salt lo) (sea_floors s)) (\<lambda>floorIss. Inr
       (notional_issues ctx limitTicks sizeBase @ sigIss @ hIss @ create_hash_issues body h @
        maker_issues lo (cb_owner body) @ pair_issues ctx (si_side si) lo @
        terms_issues ctx (si_side si) lo sizeBase limitTicks @
        expiry_issues (sx_env x) lo expiresAt @
        lookup_issues body h (sea_db s) (sea_intents s) @ floorIss))))))"

definition validateAtCreate ::
  "sea_ext \<Rightarrow> create_body \<Rightarrow> trading_ctx \<Rightarrow> int option \<Rightarrow> sea \<Rightarrow> unit result" where
  "validateAtCreate x body ctx expiresAt s =
    (let si = cb_intent body;
         invariants = map (\<lambda>p. ''invariant_violation'') (validateCreateIntentBodyInvariants body)
     in bind_res (str_to_bigint (si_sizeBase si)) (\<lambda>sizeBase.
        bind_res (if is_CL si then cl_issues x body ctx expiresAt sizeBase s else Inr (cmr_issues x body))
          (\<lambda>rest.
            let issues = invariants @ size_issues ctx sizeBase @ rest in
            if issues \<noteq> [] then Inl (ValidationFailed ''validation_failed'' issues) else Inr ())))"

section \<open>Fire\<close>

record fire_input =
  fr_intentId :: string
  fr_owner :: string
  fr_side :: side
  fr_sizeBase :: int
  fr_limitPriceTicks :: int
  fr_preSignedOrder :: jval
  fr_signatureHex :: string
  fr_preSignedOrderHash :: string
  fr_expiresAt :: int

definition fire_signature_issues :: "sea_ext \<Rightarrow> fire_input \<Rightarrow> limit_order \<Rightarrow> string list result" where
  "fire_signature_issues x inp lo =
    (case parseSigHexToTuple (fr_signatureHex inp) of
       None \<Rightarrow> Inr [''invalid_signature'']
     | Some sg \<Rightarrow>
         signer_issues (verifySignature (sx_zx x) (sx_cfg x) (getChainIdFromEnv (sx_env x)) (order_json lo) sg)
           (fr_owner inp))"

definition fire_hash_issues :: "fire_input \<Rightarrow> string option \<Rightarrow> string list" where
  "fire_hash_issues inp computedHash =
    (if \<not> blank computedHash \<and> to_lower (fr_preSignedOrderHash inp) \<noteq> to_lower (the computedHash)
     then [''order_hash_mismatch''] else [])"

definition fire_lookup_issues :: "fire_input \<Rightarrow> string option \<Rightarrow> db \<Rightarrow> string list" where
  "fire_lookup_issues inp computedHash d =
    (if orderHashExists d (case computedHash of Some h \<Rightarrow> h | None \<Rightarrow> to_lower (fr_preSignedOrderHash inp))
     then [''order_already_exists''] else [])"

definition fire_issues :: "sea_ext \<Rightarrow> fire_input \<Rightarrow> trading_ctx \<Rightarrow> sea \<Rightarrow> string list result" where
  "fire_issues x inp ctx s =
    bind_res (sanitizeOrder (fr_preSignedOrder inp)) (\<lambda>lo.
    bind_res (if dev_skip x then Inr [] else fire_signature_issues x inp lo) (\<lambda>sigIss.
    let (hIss, h) = computed_hash x lo in
    bind_res (runCancelPairFloorCheck x (fr_owner inp) (lo_makerToken lo) (lo_takerToken lo)
        (lo_salt lo) (sea_floors s)) (\<lambda>floorIss. Inr
      (size_issues ctx (fr_sizeBase inp) @
       notional_issues ctx (fr_limitPriceTicks inp) (fr_sizeBase inp) @ sigIss @ hIss @
       fire_hash_issues inp h @ maker_issues lo (fr_owner inp) @ pair_issues ctx (fr_side inp) lo @
       terms_issues ctx (fr_side inp) lo (fr_sizeBase inp) (fr_limitPriceTicks inp) @
       expiry_issues (sx_env x) lo (Some (fr_expiresAt inp)) @
       fire_lookup_issues inp h (sea_db s) @ floorIss))))"

definition validateAtFire :: "sea_ext \<Rightarrow> fire_input \<Rightarrow> trading_ctx \<Rightarrow> sea \<Rightarrow> unit result" where
  "validateAtFire x inp ctx s =
    bind_res (fire_issues x inp ctx s) (\<lambda>issues.
      if issues \<noteq> [] then Inl (ValidationFailed ''fire_validation_failed'' issues) else Inr ())"

section \<open>Signature-only checks\<close>

definition verify_owner_message :: "sea_ext \<Rightarrow> string \<Rightarrow> string \<Rightarrow> string \<Rightarrow> string \<Rightarrow> unit result" where
  "verify_owner_message x failed message signature owner =
    (case zx_verifyMessage (sx_zx x) message signature of
       Inl e \<Rightarrow> Inl (ValidationFailed failed [''invalid_owner_auth''])
     | Inr recovered \<Rightarrow>
         if to_lower recovered \<noteq> to_lower owner
         then Inl (ValidationFailed failed [''owner_auth_signer_mismatch'']) else Inr ())"

definition verifyCancelAuth :: "sea_ext \<Rightarrow> string \<Rightarrow> string \<Rightarrow> string \<Rightarrow> unit result" where
  "verifyCancelAuth x intentId intentOwner signature =
    (if dev_skip x then Inr ()
     else verify_owner_message x ''cancel_auth_failed''
       (buildCancelOwnerAuthMessage (getChainIdFromEnv (sx_env x)) intentOwner intentId) signature intentOwner)"

definition verifyWalletLockAuth ::
  "sea_ext \<Rightarrow> string \<Rightarrow> string \<Rightarrow> int \<Rightarrow> string \<Rightarrow> string \<Rightarrow> string \<Rightarrow> unit result" where
  "verifyWalletLockAuth x intentId intentOwner chainId lockNonce untilIso signature =
    (if dev_skip x then Inr ()
     else verify_owner_message x ''wallet_lock_auth_failed''
       (buildWalletLockOwnerAuthMessage intentId intentOwner chainId lockNonce untilIso) signature intentOwner)"


section \<open>What acceptance means\<close>

lemma derived_ticks_exact:
  assumes "derived_ticks n den = ([], v)"
  obtains q where "v = Some q" and "q * den = n"
proof -
  have "den \<noteq> 0" using assms by (auto simp: derived_ticks_def split: if_splits)
  then obtain q where "exact_ticks n den = Inr q" "v = Some q"
    using assms by (auto simp: derived_ticks_def exact_ticks_def big_div_def big_rem_def split: if_splits)
  then show ?thesis using that exact_ticks_sound by blast
qed

text \<open>Size and price of the order are exactly those of the intent.\<close>

definition exact_terms :: "trading_ctx \<Rightarrow> side \<Rightarrow> limit_order \<Rightarrow> int \<Rightarrow> int \<Rightarrow> bool" where
  "exact_terms ctx sd lo sizeBase ticks \<longleftrightarrow>
    (case sd of
       SELL \<Rightarrow> lo_makerAmount lo = sizeBase \<and>
         lo_takerAmount lo * pow10 (ctx_baseDecimals ctx) = ticks * (sizeBase * ctx_priceTickQ ctx)
     | BUY \<Rightarrow> lo_takerAmount lo = sizeBase \<and>
         lo_makerAmount lo * pow10 (ctx_baseDecimals ctx) = ticks * (sizeBase * ctx_priceTickQ ctx))"

lemma terms_issues_Nil:
  assumes "terms_issues ctx sd lo sizeBase ticks = []"
  shows "exact_terms ctx sd lo sizeBase ticks"
proof (cases sd)
  case BUY
  let ?dt = "derived_ticks (lo_makerAmount lo * pow10 (ctx_baseDecimals ctx)) (lo_takerAmount lo * ctx_priceTickQ ctx)"
  obtain v where v: "?dt = ([], v)"
    using assms BUY by (cases ?dt) (auto simp: terms_issues_def)
  from derived_ticks_exact [OF this] obtain q where "v = Some q"
    "q * (lo_takerAmount lo * ctx_priceTickQ ctx) = lo_makerAmount lo * pow10 (ctx_baseDecimals ctx)" .
  with v assms BUY show ?thesis by (auto simp: terms_issues_def exact_terms_def split: if_splits)
next
  case SELL
  let ?dt = "derived_ticks (lo_takerAmount lo * pow10 (ctx_baseDecimals ctx)) (lo_makerAmount lo * ctx_priceTickQ ctx)"
  obtain v where v: "?dt = ([], v)"
    using assms SELL by (cases ?dt) (auto simp: terms_issues_def)
  from derived_ticks_exact [OF this] obtain q where "v = Some q"
    "q * (lo_makerAmount lo * ctx_priceTickQ ctx) = lo_takerAmount lo * pow10 (ctx_baseDecimals ctx)" .
  with v assms SELL show ?thesis by (auto simp: terms_issues_def exact_terms_def split: if_splits)
qed

definition right_pair :: "trading_ctx \<Rightarrow> side \<Rightarrow> limit_order \<Rightarrow> bool" where
  "right_pair ctx sd lo \<longleftrightarrow>
    (case sd of
       SELL \<Rightarrow> lo_makerToken lo = to_lower (ctx_baseAddress ctx) \<and> lo_takerToken lo = to_lower (ctx_quoteAddress ctx)
     | BUY \<Rightarrow> lo_makerToken lo = to_lower (ctx_quoteAddress ctx) \<and> lo_takerToken lo = to_lower (ctx_baseAddress ctx))"

lemma pair_issues_Nil:
  assumes "pair_issues ctx sd lo = []" and "sanitizeOrder raw = Inr lo"
  shows "right_pair ctx sd lo"
proof -
  have "to_lower (lo_makerToken lo) = lo_makerToken lo" "to_lower (lo_takerToken lo) = lo_takerToken lo"
    using sanitizeOrder_fields [OF assms(2)] by simp_all
  with assms(1) show ?thesis
    by (cases sd) (auto simp: pair_issues_def right_pair_def Let_def split: if_splits)
qed

lemma floor_issues_Nil:
  "runCancelPairFloorCheck x owner mt tt salt floors = Inr [] \<longleftrightarrow>
    (case stored_floor floors (to_lower owner, to_lower mt, to_lower tt) of None \<Rightarrow> True | Some n \<Rightarrow> n \<le> salt)"
  by (auto simp: runCancelPairFloorCheck_def getFloor_stored split: option.splits)

lemma signer_issues_Nil:
  "signer_issues res owner = Inr [] \<longleftrightarrow> (\<exists>a. res = Inr (Some a) \<and> to_lower a = to_lower owner)"
  by (auto simp: signer_issues_def split: option.splits)

lemma validateAtCreate_CL:
  assumes "validateAtCreate x body ctx ex s = Inr ()" and "is_CL (cb_intent body)"
  obtains lo sz lt h where
    "str_to_bigint (si_sizeBase (cb_intent body)) = Inr sz"
    "str_to_bigint (si_limitPriceTicks (cb_intent body)) = Inr lt"
    "sanitizeOrder (cb_zeroExOrder body) = Inr lo"
    "validateCreateIntentBodyInvariants body = []" "size_issues ctx sz = []"
    "notional_issues ctx lt sz = []"
    "dev_skip x \<or> create_signature_issues x body lo = Inr []"
    "computed_hash x lo = ([], h)"
    "create_hash_issues body h = []" "maker_issues lo (cb_owner body) = []"
    "pair_issues ctx (si_side (cb_intent body)) lo = []"
    "terms_issues ctx (si_side (cb_intent body)) lo sz lt = []"
    "expiry_issues (sx_env x) lo ex = []"
    "lookup_issues body h (sea_db s) (sea_intents s) = []"
    "runCancelPairFloorCheck x (cb_owner body) (lo_makerToken lo) (lo_takerToken lo) (lo_salt lo)
       (sea_floors s) = Inr []"
proof -
  obtain sz rest where 1: "str_to_bigint (si_sizeBase (cb_intent body)) = Inr sz"
    "cl_issues x body ctx ex sz s = Inr rest" "rest = []" "size_issues ctx sz = []"
    "validateCreateIntentBodyInvariants body = []"
    using assms by (auto simp: validateAtCreate_def Let_def split: if_splits)
  from 1(2,3) obtain lt lo where
    "str_to_bigint (si_limitPriceTicks (cb_intent body)) = Inr lt"
    "sanitizeOrder (cb_zeroExOrder body) = Inr lo" "fst (computed_hash x lo) = []"
    "notional_issues ctx lt sz = []"
    "dev_skip x \<or> create_signature_issues x body lo = Inr []"
    "create_hash_issues body (snd (computed_hash x lo)) = []" "maker_issues lo (cb_owner body) = []"
    "pair_issues ctx (si_side (cb_intent body)) lo = []"
    "terms_issues ctx (si_side (cb_intent body)) lo sz lt = []"
    "expiry_issues (sx_env x) lo ex = []"
    "lookup_issues body (snd (computed_hash x lo)) (sea_db s) (sea_intents s) = []"
    "runCancelPairFloorCheck x (cb_owner body) (lo_makerToken lo) (lo_takerToken lo) (lo_salt lo)
       (sea_floors s) = Inr []"
    by (auto simp: cl_issues_def Let_def case_prod_unfold split: if_splits)
  with that 1 show ?thesis by (metis prod.collapse)
qed


lemma create_signature_sound:
  assumes "create_signature_issues x body lo = Inr []" and "computed_hash x lo = ([], h)"
    and "create_hash_issues body h = []" and "lookup_issues body h (sea_db s) (sea_intents s) = []"
    and "\<not> blank (cb_preSignedOrderHash body)" and "\<not> dev_skip x"
  shows "\<exists>sg a g. parseSigHexToTuple (the (cb_signature body)) = Some sg \<and>
    verifySignature (sx_zx x) (sx_cfg x) (getChainIdFromEnv (sx_env x)) (order_json lo) sg = Inr (Some a) \<and>
    to_lower a = to_lower (cb_owner body) \<and>
    getOrderHash (sx_zx x) (sx_cfg x) (getChainIdFromEnv (sx_env x)) (order_json lo) = Inr g \<and>
    (g \<noteq> [] \<longrightarrow> to_lower g = to_lower (the (cb_preSignedOrderHash body)) \<and>
       \<not> orderHashExists (sea_db s) g \<and> findActiveByPreSignedHash g (sea_intents s) = None)"
proof -
  from assms(1,6) obtain sg ad where "parseSigHexToTuple (the (cb_signature body)) = Some sg"
    "verifySignature (sx_zx x) (sx_cfg x) (getChainIdFromEnv (sx_env x)) (order_json lo) sg = Inr (Some ad)"
    "to_lower ad = to_lower (cb_owner body)"
    by (auto simp: create_signature_issues_def signer_issues_Nil split: if_splits option.splits)
  moreover from assms(2,6) obtain g where
    g: "getOrderHash (sx_zx x) (sx_cfg x) (getChainIdFromEnv (sx_env x)) (order_json lo) = Inr g" "h = Some g"
    by (auto simp: computed_hash_def split: sum.splits)
  moreover have "g \<noteq> [] \<longrightarrow> to_lower g = to_lower (the (cb_preSignedOrderHash body)) \<and>
       \<not> orderHashExists (sea_db s) g \<and> findActiveByPreSignedHash g (sea_intents s) = None"
    using assms(3-5) g(2)
    by (auto simp: create_hash_issues_def lookup_issues_def blank_def split: if_splits)
  ultimately show ?thesis by blast
qed

text \<open>
  C4. An accepted conditional limit is exactly what its owner signed: the pre-signed order sells
  and buys the market's tokens on the intent's side, is made by the owner, and its amounts give
  the intent's size and limit price with no remainder; it meets the market's minimum size and
  notional, and its salt is not below the maker's cancel floor. Outside the skip mode the
  signature recovers to the owner, the declared hash is the order's own, no order row has that
  hash and no live intent holds it.
\<close>

theorem accepted_limit_is_authentic:
  assumes "validateAtCreate x body ctx ex s = Inr ()" and "is_CL (cb_intent body)"
  shows "\<exists>lo sz lt. sanitizeOrder (cb_zeroExOrder body) = Inr lo \<and>
    str_to_bigint (si_sizeBase (cb_intent body)) = Inr sz \<and>
    str_to_bigint (si_limitPriceTicks (cb_intent body)) = Inr lt \<and>
    exact_terms ctx (si_side (cb_intent body)) lo sz lt \<and>
    right_pair ctx (si_side (cb_intent body)) lo \<and> lo_maker lo = to_lower (cb_owner body) \<and>
    ctx_minSizeB ctx \<le> sz \<and>
    ctx_minNotionalQ ctx * pow10 (ctx_baseDecimals ctx) \<le> lt * ctx_priceTickQ ctx * sz \<and>
    (\<forall>n. stored_floor (sea_floors s)
       (to_lower (cb_owner body), to_lower (lo_makerToken lo), to_lower (lo_takerToken lo)) = Some n \<longrightarrow>
         n \<le> lo_salt lo) \<and>
    (\<not> dev_skip x \<longrightarrow> (\<exists>sg a h.
       parseSigHexToTuple (the (cb_signature body)) = Some sg \<and>
       verifySignature (sx_zx x) (sx_cfg x) (getChainIdFromEnv (sx_env x)) (order_json lo) sg = Inr (Some a) \<and>
       to_lower a = to_lower (cb_owner body) \<and>
       getOrderHash (sx_zx x) (sx_cfg x) (getChainIdFromEnv (sx_env x)) (order_json lo) = Inr h \<and>
       (h \<noteq> [] \<longrightarrow> to_lower h = to_lower (the (cb_preSignedOrderHash body)) \<and>
         \<not> orderHashExists (sea_db s) h \<and> findActiveByPreSignedHash h (sea_intents s) = None)))"
proof -
  obtain lo sz lt h where a: "str_to_bigint (si_sizeBase (cb_intent body)) = Inr sz"
    "str_to_bigint (si_limitPriceTicks (cb_intent body)) = Inr lt"
    "sanitizeOrder (cb_zeroExOrder body) = Inr lo"
    "validateCreateIntentBodyInvariants body = []" "size_issues ctx sz = []"
    "notional_issues ctx lt sz = []"
    "dev_skip x \<or> create_signature_issues x body lo = Inr []"
    "computed_hash x lo = ([], h)"
    "create_hash_issues body h = []" "maker_issues lo (cb_owner body) = []"
    "pair_issues ctx (si_side (cb_intent body)) lo = []"
    "terms_issues ctx (si_side (cb_intent body)) lo sz lt = []"
    "expiry_issues (sx_env x) lo ex = []"
    "lookup_issues body h (sea_db s) (sea_intents s) = []"
    "runCancelPairFloorCheck x (cb_owner body) (lo_makerToken lo) (lo_takerToken lo) (lo_salt lo)
       (sea_floors s) = Inr []"
    using assms by (rule validateAtCreate_CL)
  have m: "lo_maker lo = to_lower (cb_owner body)"
    using a(10) sanitizeOrder_fields(3) [OF a(3)] by (auto simp: maker_issues_def split: if_splits)
  have z: "ctx_minSizeB ctx \<le> sz"
    "ctx_minNotionalQ ctx * pow10 (ctx_baseDecimals ctx) \<le> lt * ctx_priceTickQ ctx * sz"
    using a(5,6) by (auto simp: size_issues_def notional_issues_def split: if_splits)
  have f: "\<forall>n. stored_floor (sea_floors s)
       (to_lower (cb_owner body), to_lower (lo_makerToken lo), to_lower (lo_takerToken lo)) = Some n \<longrightarrow>
         n \<le> lo_salt lo"
    using a(15) by (auto simp: floor_issues_Nil split: option.splits)
  have nb: "\<not> blank (cb_preSignedOrderHash body)"
    using a(4) assms(2) by (auto simp: validateCreateIntentBodyInvariants_def Let_def split: if_splits)
  note sig = create_signature_sound [OF _ a(8,9,14) nb]
  show ?thesis
    using a(1-3) terms_issues_Nil [OF a(12)] pair_issues_Nil [OF a(11,3)] m z f sig a(7) by blast
qed


definition sample_order :: jval where
  "sample_order = JObj
    [(''makerToken'', JStr (hex_addr CHR ''b'')), (''takerToken'', JStr (hex_addr CHR ''c'')),
     (''makerAmount'', JStr ''30''), (''takerAmount'', JStr ''21''), (''takerTokenFeeAmount'', JStr ''0''),
     (''maker'', JStr (hex_addr CHR ''A'')), (''taker'', JStr zero_address),
     (''sender'', JStr zero_address), (''feeRecipient'', JStr zero_address),
     (''pool'', JStr ZERO_BYTES32), (''expiry'', JNum (num 9000)), (''salt'', JStr ''12'')]"

definition sample_cl_body :: create_body where
  "sample_cl_body =
    \<lparr>cb_owner = hex_addr CHR ''A'',
     cb_intent = CL_Intent ''m1'' SELL ''30'' ''7''
       \<lparr>tr_type = PRICE_ABOVE, tr_reference = BEST_BID, tr_priceTicks = ''5''\<rparr> (AtUnix 5000),
     cb_zeroExOrder = sample_order,
     cb_signature = Some (''0x'' @ replicate 128 CHR ''5'' @ ''1B''),
     cb_preSignedOrderHash = Some (''0x'' @ replicate 64 CHR ''7''),
     cb_ownerAuth = None, cb_rawText = None, cb_parserMeta = JUndef\<rparr>"

definition sample_ctx :: trading_ctx where
  "sample_ctx =
    \<lparr>ctx_id = ''m1'', ctx_symbol = ''B-Q'', ctx_baseDecimals = 2, ctx_quoteDecimals = 2,
     ctx_minNotionalQ = 1, ctx_minSizeB = 1, ctx_priceTickQ = 10,
     ctx_baseAddress = hex_addr CHR ''b'', ctx_quoteAddress = hex_addr CHR ''c''\<rparr>"

lemma sample_cl_accepted: "validateAtCreate sample_sx sample_cl_body sample_ctx (Some 5000000) sea_sample = Inr ()"
  by code_simp

theorem accepted_limit_is_authentic_witness:
  "\<exists>lo. sanitizeOrder sample_order = Inr lo \<and> exact_terms sample_ctx SELL lo 30 7"
proof -
  have "is_CL (cb_intent sample_cl_body)" "str_to_bigint ''30'' = Inr 30" "str_to_bigint ''7'' = Inr 7"
    by code_simp+
  with accepted_limit_is_authentic [OF sample_cl_accepted] show ?thesis
    by (auto simp: sample_cl_body_def)
qed


section \<open>What a signed message says\<close>

lemma bar_free_digits: "all_digits 10 s \<Longrightarrow> bar_free s"
  by (auto simp: all_digits_def bar_free_def list_all_iff is_digit_def digit_val_def code_def Let_def
      split: if_splits)

lemma bar_free_0x:
  assumes "is_0x_hex n s"
  shows "bar_free (to_lower s)"
proof -
  from assms obtain t where s: "s = CHR ''0'' # CHR ''x'' # t" and t: "list_all (is_digit 16) t"
    by (auto simp: is_0x_hex_def starts_with_two)
  have d: "lower_char c \<noteq> CHR ''|''" if "is_digit 16 c" for c
  proof -
    from that have "code (lower_char c) \<noteq> code (CHR ''|'')"
      using code_char_of [of "code c + 32"]
      by (auto simp: is_digit_def digit_val_def lower_char_def code_def Let_def split: if_splits)
    then show ?thesis by auto
  qed
  have "lower_char CHR ''0'' \<noteq> CHR ''|''" "lower_char CHR ''x'' \<noteq> CHR ''|''" by code_simp+
  moreover have "\<forall>c \<in> set t. lower_char c \<noteq> CHR ''|''" using t d by (simp add: list_all_iff)
  ultimately show ?thesis unfolding s bar_free_def to_lower_def by auto
qed

lemma bar_free_Cons [simp]: "bar_free (c # s) \<longleftrightarrow> c \<noteq> CHR ''|'' \<and> bar_free s"
  by (auto simp: bar_free_def)

lemma bar_free_Nil [simp]: "bar_free []"
  by (simp add: bar_free_def)

definition tif_or_default :: "structured_intent \<Rightarrow> tif" where
  "tif_or_default si = (case si_tif si of Some y \<Rightarrow> y | None \<Rightarrow> IOC)"

lemma side_str_inject [simp]: "side_str a = side_str b \<longleftrightarrow> a = b"
  by (cases a; cases b) auto

lemma tif_str_inject [simp]: "tif_str a = tif_str b \<longleftrightarrow> a = b"
  by (cases a; cases b) auto

lemma trigger_inject:
  "trigger_type_str a @ '':'' @ ref_kind_str b @ '':'' @ c = trigger_type_str a' @ '':'' @ ref_kind_str b' @ '':'' @ c'
     \<longleftrightarrow> a = a' \<and> b = b' \<and> c = c'"
  by (cases a; cases a'; cases b; cases b') auto

lemmas trigger_inject_Cons = trigger_inject [simplified append_Cons append_Nil]

definition cmr_fields :: "create_body \<Rightarrow> int \<Rightarrow> int \<Rightarrow> string list" where
  "cmr_fields body chainId n =
    (let si = cb_intent body in
     [''SEA-CMR-INTENT'', ''v=1'', ''chainId='' @ big_to_string chainId,
      ''owner='' @ to_lower (cb_owner body), ''marketId='' @ si_marketId si,
      ''side='' @ side_str (si_side si), ''sizeBase='' @ si_sizeBase si, ''tif='' @ tif_str (tif_or_default si),
      ''trigger='' @ trigger_type_str (tr_type (si_trigger si)) @ '':'' @
        ref_kind_str (tr_reference (si_trigger si)) @ '':'' @ tr_priceTicks (si_trigger si),
      ''expiresAtUnix='' @ big_to_string n])"

lemma cmr_message_fields:
  assumes "buildCmrOwnerAuthMessage body chainId = Inr m"
  obtains n where "si_expiry (cb_intent body) = AtUnix n" "\<not> is_CL (cb_intent body)"
    "m = join_bar (cmr_fields body chainId n)"
  using assms that
  by (auto simp: buildCmrOwnerAuthMessage_def cmr_fields_def tif_or_default_def Let_def
      split: if_splits expiry.splits)

lemma cmr_fields_bar_free:
  assumes "createIntentBodySchema body" and "bar_free (si_marketId (cb_intent body))"
    and "\<not> is_CL (cb_intent body)"
  shows "list_all bar_free (cmr_fields body chainId n)"
proof -
  have c: "bar_free (to_lower (cb_owner body))" "bar_free (si_sizeBase (cb_intent body))"
    "bar_free (tr_priceTicks (si_trigger (cb_intent body)))"
    using assms bar_free_0x bar_free_digits
    by (cases "cb_intent body"; auto simp: createIntentBodySchema_def HEX_ADDR_RE_def NON_NEG_INT_RE_def
        triggerSchema_def)+
  have l: "bar_free (side_str sd)" "bar_free (tif_str tf)" "bar_free (trigger_type_str ty)"
    "bar_free (ref_kind_str rf)" for sd tf ty rf
    by (cases sd; cases tf; cases ty; cases rf; simp add: bar_free_def)+
  show ?thesis using assms(2) c l by (simp add: cmr_fields_def Let_def)
qed

text \<open>
  C35. The message a market-intent owner signs determines everything the signature is to
  authorise: two requests with the same canonical message are for the same chain, owner, market,
  side, size, time in force, trigger and expiry, so a signature cannot be replayed for other
  terms (market ids free of the separator); and no such message is ever a cancel or a
  wallet-lock message, so the three kinds of signature cannot be exchanged.
\<close>

theorem cmr_signature_binds_terms:
  assumes "createIntentBodySchema b" and "createIntentBodySchema b'"
    and "bar_free (si_marketId (cb_intent b))" and "bar_free (si_marketId (cb_intent b'))"
    and "buildCmrOwnerAuthMessage b c = Inr m" and "buildCmrOwnerAuthMessage b' c' = Inr m"
  shows "c = c' \<and> to_lower (cb_owner b) = to_lower (cb_owner b') \<and>
    si_marketId (cb_intent b) = si_marketId (cb_intent b') \<and>
    si_side (cb_intent b) = si_side (cb_intent b') \<and>
    si_sizeBase (cb_intent b) = si_sizeBase (cb_intent b') \<and>
    tif_or_default (cb_intent b) = tif_or_default (cb_intent b') \<and>
    si_trigger (cb_intent b) = si_trigger (cb_intent b') \<and>
    si_expiry (cb_intent b) = si_expiry (cb_intent b') \<and>
    m \<noteq> buildCancelOwnerAuthMessage ch owner i \<and>
    m \<noteq> buildWalletLockOwnerAuthMessage i owner ch nonce until \<and>
    buildCancelOwnerAuthMessage ch owner i \<noteq> buildWalletLockOwnerAuthMessage i' owner' ch' nonce until"
proof -
  obtain n where n: "si_expiry (cb_intent b) = AtUnix n" "\<not> is_CL (cb_intent b)"
    "m = join_bar (cmr_fields b c n)" using assms(5) by (rule cmr_message_fields)
  obtain n' where n': "si_expiry (cb_intent b') = AtUnix n'" "\<not> is_CL (cb_intent b')"
    "m = join_bar (cmr_fields b' c' n')" using assms(6) by (rule cmr_message_fields)
  have bf: "list_all bar_free (cmr_fields b c n)" "list_all bar_free (cmr_fields b' c' n')"
    using cmr_fields_bar_free assms(1-4) n(2) n'(2) by blast+
  have "cmr_fields b c n = cmr_fields b' c' n'"
    using n(3) n'(3) bf by (subst (asm) n(3), subst (asm) join_bar_inject)
      (auto simp: cmr_fields_def Let_def list_all_iff dest: in_set_butlastD)
  then have "c = c'" "to_lower (cb_owner b) = to_lower (cb_owner b')"
    "si_marketId (cb_intent b) = si_marketId (cb_intent b')"
    "si_side (cb_intent b) = si_side (cb_intent b')"
    "si_sizeBase (cb_intent b) = si_sizeBase (cb_intent b')"
    "tif_or_default (cb_intent b) = tif_or_default (cb_intent b')" "n = n'"
    and t: "tr_type (si_trigger (cb_intent b)) = tr_type (si_trigger (cb_intent b'))"
    "tr_reference (si_trigger (cb_intent b)) = tr_reference (si_trigger (cb_intent b'))"
    "tr_priceTicks (si_trigger (cb_intent b)) = tr_priceTicks (si_trigger (cb_intent b'))"
    by (simp_all add: cmr_fields_def Let_def trigger_inject_Cons)
  moreover have "m \<noteq> buildCancelOwnerAuthMessage ch owner i"
    "m \<noteq> buildWalletLockOwnerAuthMessage i owner ch nonce until"
    by (simp_all add: n(3) cmr_fields_def buildCancelOwnerAuthMessage_def
        buildWalletLockOwnerAuthMessage_def Let_def)
  ultimately show ?thesis using n(1) n'(1) t
    by (simp add: buildCancelOwnerAuthMessage_def buildWalletLockOwnerAuthMessage_def)
qed

definition sample_cmr_body :: create_body where
  "sample_cmr_body =
    \<lparr>cb_owner = hex_addr CHR ''A'', cb_intent = sample_cmr, cb_zeroExOrder = JUndef,
     cb_signature = None, cb_preSignedOrderHash = None, cb_ownerAuth = Some ''0x1'',
     cb_rawText = None, cb_parserMeta = JUndef\<rparr>"

theorem cmr_signature_binds_terms_witness:
  "\<exists>m. buildCmrOwnerAuthMessage sample_cmr_body 84532 = Inr m \<and>
    m \<noteq> buildCancelOwnerAuthMessage 84532 ''0xa'' ''i1''"
proof -
  have a: "createIntentBodySchema sample_cmr_body" "bar_free (si_marketId (cb_intent sample_cmr_body))"
    "isl (buildCmrOwnerAuthMessage sample_cmr_body 84532) = False"
    by code_simp+
  then obtain m where m: "buildCmrOwnerAuthMessage sample_cmr_body 84532 = Inr m"
    by (cases "buildCmrOwnerAuthMessage sample_cmr_body 84532") auto
  from cmr_signature_binds_terms [OF a(1,1,2,2) m m] m show ?thesis by blast
qed

end
