(* ===== verification/IntentService.thy ===== *)
theory IntentService
  imports IntentValidator
begin

text \<open>
  \<open>apps/api/src/sea/intent.service.ts\<close>: the request handlers of the SEA endpoints. A handler is
  a function of the state; where it reads a row and later writes it under a compound \<open>where\<close>,
  the argument \<open>env\<close> is what the other writers do in between (the identity when nothing runs).
  \<open>now\<close> is the clock, which does not advance within a handler.
\<close>

section \<open>Module-local helpers\<close>

definition getWalletLockSecs :: "penv \<Rightarrow> int" where
  "getWalletLockSecs pe =
    (case str_to_num (env_or_nullish pe ''SEA_WALLET_LOCK_SEC'' '''') of
       Fin raw \<Rightarrow> if raw < 30 then 300 else min \<lfloor>raw\<rfloor> 3600
     | _ \<Rightarrow> 300)"

definition WALLET_LOCK_SKEW_GRACE_SEC :: int where
  "WALLET_LOCK_SKEW_GRACE_SEC = 10"

definition CMR_EXECUTING_MARK_GRACE_SEC :: int where
  "CMR_EXECUTING_MARK_GRACE_SEC = 45"

definition requireSecret :: "penv \<Rightarrow> string \<Rightarrow> string result" where
  "requireSecret pe key =
    (case readSecret pe key of
       Some v \<Rightarrow> Inr v
     | None \<Rightarrow> Inl (PlainError (''SEA execution-lifecycle requires '' @ key @ '' in non-dev profiles'')))"

definition readTtlSecFromSnapshot :: "jval \<Rightarrow> int" where
  "readTtlSecFromSnapshot snap =
    (case jget snap ''ttlSec'' of
       JNum (Fin raw) \<Rightarrow> if 0 < raw then min 300 (max 5 \<lfloor>raw\<rfloor>) else 60
     | _ \<Rightarrow> 60)"

fun status_str :: "intent_status \<Rightarrow> string" where
  "status_str S_DRAFT = ''DRAFT''"
| "status_str S_ACTIVE = ''ACTIVE''"
| "status_str S_TRIGGERED = ''TRIGGERED''"
| "status_str S_READY = ''READY''"
| "status_str S_EXECUTING = ''EXECUTING''"
| "status_str S_PLACED = ''PLACED''"
| "status_str S_EXECUTED = ''EXECUTED''"
| "status_str S_CANCELLED = ''CANCELLED''"
| "status_str S_EXPIRED = ''EXPIRED''"
| "status_str S_REJECTED = ''REJECTED''"
| "status_str S_FAILED = ''FAILED''"

definition all_statuses :: "intent_status list" where
  "all_statuses = [S_DRAFT, S_ACTIVE, S_TRIGGERED, S_READY, S_EXECUTING, S_PLACED, S_EXECUTED,
     S_CANCELLED, S_EXPIRED, S_REJECTED, S_FAILED]"

section \<open>Create and list\<close>

definition intent_type_str :: "structured_intent \<Rightarrow> string" where
  "intent_type_str si = (if is_CL si then ''CONDITIONAL_LIMIT'' else ''CONDITIONAL_MARKET_READY'')"

definition authority_str :: "structured_intent \<Rightarrow> string" where
  "authority_str si =
    (if is_CL si then ''PRE_SIGNED_LIMIT_ORDER'' else ''USER_CONFIRMATION_REQUIRED'')"

definition create_input_of :: "create_body \<Rightarrow> string \<Rightarrow> int option \<Rightarrow> create_input" where
  "create_input_of body marketId expiresAt =
    \<lparr>ci_owner = to_lower (cb_owner body), ci_marketId = marketId, ci_intent = cb_intent body,
     ci_preSignedOrder = (if jnullish (cb_zeroExOrder body) then JNull else cb_zeroExOrder body),
     ci_signatureHex = cb_signature body, ci_preSignedOrderHash = cb_preSignedOrderHash body,
     ci_rawText = cb_rawText body,
     ci_parserMeta = (if jnullish (cb_parserMeta body) then JNull else cb_parserMeta body),
     ci_expiresAt = expiresAt, ci_initialStatus = S_ACTIVE\<rparr>"

definition create_handler :: "sea_ext \<Rightarrow> int \<Rightarrow> string \<Rightarrow> create_body \<Rightarrow> sea \<Rightarrow> intent_dto result \<times> sea" where
  "create_handler x now newId body s =
    (case resolveMarketId (sea_db s) (si_marketId (cb_intent body)) of
       None \<Rightarrow> (Inl (BadRequest ''market_not_found''), s)
     | Some marketId \<Rightarrow>
         if marketId = [] then (Inl (BadRequest ''market_not_found''), s)
         else
           let expiresAt = computeExpiresAt (si_expiry (cb_intent body)) now in
           if (case expiresAt of None \<Rightarrow> False | Some ex \<Rightarrow> ex \<le> now + 60000)
           then (Inl (BadRequest ''expiry_too_close''), s)
           else
             (case bind_res (getTradingContext (sea_db s) marketId)
                     (\<lambda>ctx. validateAtCreate x body ctx expiresAt s) of
                Inl e \<Rightarrow> (Inl e, s)
              | Inr _ \<Rightarrow>
                  andthen (on_intents (create_intent (sx_decToString x) now newId
                      (create_input_of body marketId expiresAt) (sea_db s)) s) (\<lambda>intent s1.
                  andthen (append_event_sea (dt_id intent) IE_CREATED (JObj
                      [(''type'', JStr (intent_type_str (cb_intent body))),
                       (''executionAuthority'', JStr (authority_str (cb_intent body)))]) s1) (\<lambda>_ s2.
                  andthen (append_event_sea (dt_id intent) IE_ACTIVATED (JObj
                      [(''type'', JStr (intent_type_str (cb_intent body)))]) s2) (\<lambda>_ s3.
                    (Inr intent, s3))))))"

text \<open>\<open>toUpperCase\<close>, but for the three Latin-1 letters whose upper case lies outside Latin-1.\<close>

definition to_upper :: "string \<Rightarrow> string" where
  "to_upper s = map (\<lambda>c. if (97 \<le> code c \<and> code c \<le> 122) \<or> (224 \<le> code c \<and> code c \<le> 254 \<and> code c \<noteq> 247)
     then char_of (code c - 32) else c) s"

definition status_of_name :: "string \<Rightarrow> intent_status option" where
  "status_of_name s = find (\<lambda>st. status_str st = to_upper (trim s)) all_statuses"

definition parse_statuses :: "string \<Rightarrow> intent_status list" where
  "parse_statuses s = List.map_filter status_of_name (split_on CHR '','' s)"

definition listByOwner ::
  "sea_ext \<Rightarrow> string \<Rightarrow> string option \<Rightarrow> nat \<Rightarrow> sea \<Rightarrow> intent_dto list result" where
  "listByOwner x address statusFilter n s =
    (if blank statusFilter
     then Inr (listByOwner_repo (sx_decToString x) (to_lower address) None n (sea_intents s))
     else if parse_statuses (the statusFilter) = [] then Inl (BadRequest ''invalid_status_filter'')
     else Inr (listByOwner_repo (sx_decToString x) (to_lower address)
                 (Some (parse_statuses (the statusFilter))) n (sea_intents s)))"

section \<open>Cancel\<close>

definition cancellable :: "intent_status list" where
  "cancellable = [S_DRAFT, S_ACTIVE, S_READY]"

definition cancel_handler ::
  "sea_ext \<Rightarrow> int \<Rightarrow> (sea \<Rightarrow> sea) \<Rightarrow> string \<Rightarrow> string \<Rightarrow> sea \<Rightarrow> intent_dto result \<times> sea" where
  "cancel_handler x now env i signature s =
    (case findById (sx_decToString x) (sea_intents s) i of
       None \<Rightarrow> (Inl (NotFound ''intent_not_found''), s)
     | Some intent \<Rightarrow>
         (case verifyCancelAuth x (dt_id intent) (dt_owner intent) signature of
            Inl e \<Rightarrow> (Inl e, s)
          | Inr _ \<Rightarrow>
              if dt_status intent \<notin> set cancellable
              then (Inl (Conflict (''cannot_cancel_status:'' @ status_str (dt_status intent))), s)
              else
                let (updated, s1) = on_intents (transitionStatus (sx_decToString x) now i
                      (dt_status intent) S_CANCELLED (Some ''user_cancel'')) (env s) in
                case updated of
                  None \<Rightarrow> (Inl (Conflict ''status_changed_concurrently''), s1)
                | Some u \<Rightarrow>
                    andthen (append_event_sea i IE_CANCELLED (JObj [(''reason'', JStr ''user_cancel'')]) s1)
                      (\<lambda>_ s2. (Inr u, s2))))"

section \<open>Wallet lock\<close>

text \<open>The decision of \<open>lockWallet\<close> on the row it read: a token at once, or a write to attempt.\<close>

datatype lock_plan = LockReply string string | LockWrite int int token_ctx string

definition lock_window_ok :: "sea_ext \<Rightarrow> int \<Rightarrow> jnum \<Rightarrow> string \<Rightarrow> int option" where
  "lock_window_ok x now expiresAtMs supplied =
    (case sx_dateParse x supplied of
       None \<Rightarrow> None
     | Some suppliedMs \<Rightarrow>
         if suppliedMs \<le> now \<or> after suppliedMs expiresAtMs \<or>
            suppliedMs > now + (getWalletLockSecs (sx_env x) + WALLET_LOCK_SKEW_GRACE_SEC) * 1000
         then None else Some suppliedMs)"

definition lock_existing :: "sea_ext \<Rightarrow> int \<Rightarrow> intent_dto \<Rightarrow> int option" where
  "lock_existing x now intent =
    (case non_empty (dt_walletLockUntilAt intent) of
       None \<Rightarrow> None
     | Some w \<Rightarrow> (case sx_dateParse x w of
         None \<Rightarrow> None | Some ms \<Rightarrow> if ms > now then Some ms else None))"

definition lock_decide :: "sea_ext \<Rightarrow> int \<Rightarrow> lock_body \<Rightarrow> intent_dto \<Rightarrow> lock_plan result" where
  "lock_decide x now body intent =
    (if dt_status intent \<noteq> S_READY \<or> dt_type intent \<noteq> T_CONDITIONAL_MARKET_READY
     then Inl (Conflict (''cannot_lock_status:'' @ status_str (dt_status intent)))
     else if at_or_after now (date_ms x (dt_expiresAt intent)) then Inl (Conflict ''intent_expired'')
     else case non_empty (dt_preparedQuoteAt intent) of
       None \<Rightarrow> Inl (Conflict ''not_ready_no_snapshot'')
     | Some pqIso \<Rightarrow>
         if after now (num_add (date_ms x pqIso) (readTtlSecFromSnapshot (dt_preparedQuote intent) * 1000))
         then Inl (Conflict ''ready_ttl_expired'')
         else
           let chainId = getChainIdFromEnv (sx_env x) in
           bind_res (requireSecret (sx_env x) ''SEA_LOCK_NONCE_SECRET'') (\<lambda>nonceSecret.
           case sx_dateParse x pqIso of
             None \<Rightarrow> Inl RangeError
           | Some pqMs \<Rightarrow>
             bind_res (verifyLockNonce (sx_hmac x) nonceSecret (lb_lockNonce body)
                 \<lparr>nc_intentId = dt_id intent, nc_owner = dt_owner intent,
                  nc_preparedQuoteAt = pqMs, nc_chainId = chainId\<rparr>) (\<lambda>nonceOk.
             if \<not> nonceOk then Inl (BadRequest ''lock_nonce_mismatch'')
             else case lock_window_ok x now (date_ms x (dt_expiresAt intent)) (lb_walletLockUntilAt body) of
               None \<Rightarrow> Inl (BadRequest ''wallet_lock_until_mismatch'')
             | Some until \<Rightarrow>
                 bind_res (requireSecret (sx_env x) ''SEA_EXECUTION_TOKEN_SECRET'') (\<lambda>secret.
                 let token = (\<lambda>ms. \<lparr>tk_intentId = dt_id intent, tk_owner = dt_owner intent,
                       tk_chainId = chainId, tk_walletLockUntilAt = ms, tk_lockNonce = lb_lockNonce body\<rparr>)
                 in case lock_existing x now intent of
                      Some ms \<Rightarrow>
                        if lb_walletLockUntilAt body \<noteq> toISOString ms
                        then Inl (BadRequest ''wallet_lock_until_mismatch'')
                        else Inr (LockReply (toISOString ms) (issueExecutionToken (sx_hmac x) secret (token ms)))
                    | None \<Rightarrow>
                        bind_res (verifyWalletLockAuth x (dt_id intent) (dt_owner intent) chainId
                            (lb_lockNonce body) (lb_walletLockUntilAt body) (lb_signature body)) (\<lambda>_.
                          Inr (LockWrite pqMs until (token until) secret))))))"

definition lockWallet ::
  "sea_ext \<Rightarrow> int \<Rightarrow> (sea \<Rightarrow> sea) \<Rightarrow> string \<Rightarrow> lock_body \<Rightarrow> sea \<Rightarrow> (string \<times> string) result \<times> sea" where
  "lockWallet x now env i body s =
    (case findById (sx_decToString x) (sea_intents s) i of
       None \<Rightarrow> (Inl (NotFound ''intent_not_found''), s)
     | Some intent \<Rightarrow>
         (case lock_decide x now body intent of
            Inl e \<Rightarrow> (Inl e, s)
          | Inr (LockReply iso_str token) \<Rightarrow> (Inr (iso_str, token), s)
          | Inr (LockWrite pqMs until token secret) \<Rightarrow>
              (let (ok, s1) = on_intents (lockWalletFromReady now (dt_id intent) pqMs until) (env s) in
               if \<not> ok then (Inl (Conflict ''status_changed_concurrently''), s1)
               else (Inr (toISOString until, issueExecutionToken (sx_hmac x) secret token), s1))))"

section \<open>Executing marker\<close>

definition TERM_STATES :: "intent_status list" where
  "TERM_STATES = [S_EXECUTING, S_EXECUTED, S_FAILED]"

definition checkReceiptReverted :: "sea_ext \<Rightarrow> string \<Rightarrow> bool" where
  "checkReceiptReverted x txHash =
    (let rpc = (case sx_env x ''RPC_URL_READONLY'' of Some v \<Rightarrow> v
                | None \<Rightarrow> env_or_nullish (sx_env x) ''RPC_URL'' '''')
     in rpc \<noteq> [] \<and> sx_receipt x txHash = Inr (Receipt (Some 0)))"

definition linked_to :: "intent_dto \<Rightarrow> string \<Rightarrow> bool" where
  "linked_to intent txHash \<longleftrightarrow>
    (case non_empty (dt_linkedTxHash intent) of None \<Rightarrow> False | Some h \<Rightarrow> to_lower h = txHash)"

text \<open>The checks before any write: the row as it is (an idempotent answer), or the go-ahead.\<close>

definition mark_decide :: "sea_ext \<Rightarrow> int \<Rightarrow> executing_body \<Rightarrow> intent_dto \<Rightarrow> bool result" where
  "mark_decide x now body intent =
    (if dt_status intent \<in> set TERM_STATES then
       (if linked_to intent (to_lower (xb_txHash body)) then Inr False
        else Inl (Conflict ''executing_tx_hash_conflict''))
     else if dt_status intent \<noteq> S_READY
     then Inl (Conflict (''cannot_mark_executing_status:'' @ status_str (dt_status intent)))
     else
       bind_res (requireSecret (sx_env x) ''SEA_LOCK_NONCE_SECRET'') (\<lambda>nonceSecret.
       bind_res (requireSecret (sx_env x) ''SEA_EXECUTION_TOKEN_SECRET'') (\<lambda>secret.
       case (non_empty (dt_walletLockUntilAt intent), non_empty (dt_preparedQuoteAt intent)) of
         (Some lockIso, Some pqIso) \<Rightarrow>
           if after now (num_add (date_ms x lockIso) (CMR_EXECUTING_MARK_GRACE_SEC * 1000))
           then Inl (Conflict ''wallet_lock_expired'')
           else (case (sx_dateParse x pqIso, sx_dateParse x lockIso) of
             (Some pqMs, Some lockMs) \<Rightarrow>
               (let chainId = getChainIdFromEnv (sx_env x);
                    lockNonce = issueLockNonce (sx_hmac x) nonceSecret
                      \<lparr>nc_intentId = dt_id intent, nc_owner = dt_owner intent,
                       nc_preparedQuoteAt = pqMs, nc_chainId = chainId\<rparr>
                in bind_res (verifyExecutionToken (sx_hmac x) secret (xb_executionToken body)
                     \<lparr>tk_intentId = dt_id intent, tk_owner = dt_owner intent, tk_chainId = chainId,
                      tk_walletLockUntilAt = lockMs, tk_lockNonce = lockNonce\<rparr>) (\<lambda>tokenOk.
                   if \<not> tokenOk then Inl (Unauthorized ''invalid_execution_token'') else Inr True))
           | _ \<Rightarrow> Inl RangeError)
       | _ \<Rightarrow> Inl (Conflict ''wallet_lock_expired''))))"

definition tx_payload :: "string \<Rightarrow> (string \<times> jval) list" where
  "tx_payload txHash = [(''txHash'', JStr txHash)]"

text \<open>\<open>(await this.repo.findById(id))!\<close>, and the answer to a lost race.\<close>

definition reload :: "sea_ext \<Rightarrow> string \<Rightarrow> sea \<Rightarrow> intent_dto result \<times> sea" where
  "reload x i s = ((case findById (sx_decToString x) (sea_intents s) i of
     Some u \<Rightarrow> Inr u | None \<Rightarrow> Inl TypeError), s)"

definition lost_race :: "sea_ext \<Rightarrow> string \<Rightarrow> string \<Rightarrow> (intent_dto \<Rightarrow> bool) \<Rightarrow> sea \<Rightarrow> intent_dto result \<times> sea" where
  "lost_race x i txHash good s =
    ((case findById (sx_decToString x) (sea_intents s) i of
        Some u \<Rightarrow> if linked_to u txHash \<and> good u then Inr u else Inl (Conflict ''status_changed_concurrently'')
      | None \<Rightarrow> Inl (Conflict ''status_changed_concurrently'')), s)"

definition mark_via_trade ::
  "sea_ext \<Rightarrow> int \<Rightarrow> string \<Rightarrow> string \<Rightarrow> trade_row \<Rightarrow> sea \<Rightarrow> intent_dto result \<times> sea" where
  "mark_via_trade x now i txHash trade s =
    (let (ok, s1) = on_intents (markExecutedFromReady now i txHash) s in
     if ok then
       andthen (append_event_sea i IE_EXECUTING (JObj (tx_payload txHash)) s1) (\<lambda>_ s2.
       andthen (append_event_sea i IE_EXECUTED (JObj (tx_payload txHash @
           [(''orderHash'', JStr (t_makerHash trade)),
            (''sizeBase'', JStr (sx_decToString x (t_sizeBase trade))),
            (''viaLateMarker'', JBool True)])) s2) (\<lambda>_ s3. reload x i s3))
     else lost_race x i txHash (\<lambda>u. True) s1)"

definition mark_via_revert :: "sea_ext \<Rightarrow> int \<Rightarrow> string \<Rightarrow> string \<Rightarrow> sea \<Rightarrow> intent_dto result \<times> sea" where
  "mark_via_revert x now i txHash s =
    (let (ok, s1) = on_intents (markFailedFromReady now i txHash ''tx_reverted_at_marker'') s in
     if ok then
       andthen (append_event_sea i IE_FAILED (JObj ((''reason'', JStr ''tx_reverted_at_marker'') #
           tx_payload txHash)) s1) (\<lambda>_ s2. reload x i s2)
     else (Inl (Conflict ''status_changed_concurrently''), s1))"

definition mark_normal :: "sea_ext \<Rightarrow> int \<Rightarrow> string \<Rightarrow> string \<Rightarrow> sea \<Rightarrow> intent_dto result \<times> sea" where
  "mark_normal x now i txHash s =
    (let (ok, s1) = on_intents (markExecuting_repo now i txHash) s in
     if \<not> ok then lost_race x i txHash (\<lambda>u. dt_status u \<in> set TERM_STATES) s1
     else andthen (append_event_sea i IE_EXECUTING (JObj (tx_payload txHash)) s1) (\<lambda>_ s2. reload x i s2))"

definition markExecuting ::
  "sea_ext \<Rightarrow> int \<Rightarrow> (sea \<Rightarrow> sea) \<Rightarrow> string \<Rightarrow> executing_body \<Rightarrow> sea \<Rightarrow> intent_dto result \<times> sea" where
  "markExecuting x now env i body s =
    (case findById (sx_decToString x) (sea_intents s) i of
       None \<Rightarrow> (Inl (NotFound ''intent_not_found''), s)
     | Some intent \<Rightarrow>
         (let txHash = to_lower (xb_txHash body) in
          case mark_decide x now body intent of
            Inl e \<Rightarrow> (Inl e, s)
          | Inr go \<Rightarrow>
              if \<not> go then (Inr intent, s)
              else (case findTradeByTxHashForIntent (sea_db s) txHash (dt_marketId intent) (dt_owner intent) of
                Some trade \<Rightarrow> mark_via_trade x now (dt_id intent) txHash trade (env s)
              | None \<Rightarrow>
                  if checkReceiptReverted x txHash
                  then mark_via_revert x now (dt_id intent) txHash (env s)
                  else mark_normal x now (dt_id intent) txHash (env s))))"

end
