(* ===== verification/IntentServiceProps.thy ===== *)
theory IntentServiceProps
  imports IntentService
begin

text \<open>
  What the SEA handlers guarantee: the bounds and the immutability of a wallet lock, the
  execution token as the only key to the executing marker, the idempotence of the marker, and
  that a handler that loses a race writes nothing.
\<close>

section \<open>Dates of a row\<close>

text \<open>\<open>Date.parse\<close> reads back what \<open>toISOString\<close> writes, as ECMAScript specifies.\<close>

definition dates_ok :: "sea_ext \<Rightarrow> bool" where
  "dates_ok x \<longleftrightarrow> (\<forall>ms. iso_range ms \<longrightarrow> sx_dateParse x (toISOString ms) = Some ms)"

definition row_dates_ok :: "intent_row \<Rightarrow> bool" where
  "row_dates_ok r \<longleftrightarrow> iso_range (it_expiresAt r) \<and> opt_all iso_range (it_preparedQuoteAt r) \<and>
     opt_all iso_range (it_walletLockUntilAt r)"

lemma dates_okD: "dates_ok x \<Longrightarrow> iso_range ms \<Longrightarrow> sx_dateParse x (toISOString ms) = Some ms"
  by (simp add: dates_ok_def)

lemma toISOString_not_Nil [simp]: "toISOString ms \<noteq> []"
  by (simp add: toISOString_def Let_def split: prod.splits)

lemma non_empty_iso [simp]: "non_empty (map_option toISOString v) = map_option toISOString v"
  by (auto simp: non_empty_def split: option.splits)

lemma non_empty_None [simp]: "non_empty None = None"
  and non_empty_Some_iso [simp]: "non_empty (Some (toISOString ms)) = Some (toISOString ms)"
  by (simp_all add: non_empty_def)

lemma at_or_after_num [simp]: "at_or_after n (num m) \<longleftrightarrow> m \<le> n"
  by simp

lemma after_num [simp]: "after n (num m) \<longleftrightarrow> m < n"
  by simp

lemma num_add_num [simp]: "num_add (num a) k = num (a + k)"
  by simp

declare at_or_after.simps [simp del] after.simps [simp del] num_add.simps [simp del]

lemma findById_row: "findById ts t i = map_option (serializeIntent ts) (intent_at t i)"
  by (simp add: findById_def)

lemma dto_fields [simp]:
  "dt_id (serializeIntent ts r) = it_id r" "dt_owner (serializeIntent ts r) = it_owner r"
  "dt_marketId (serializeIntent ts r) = it_marketId r"
  "dt_status (serializeIntent ts r) = it_status r" "dt_type (serializeIntent ts r) = it_type r"
  "dt_expiresAt (serializeIntent ts r) = toISOString (it_expiresAt r)"
  "dt_preparedQuoteAt (serializeIntent ts r) = map_option toISOString (it_preparedQuoteAt r)"
  "dt_walletLockUntilAt (serializeIntent ts r) = map_option toISOString (it_walletLockUntilAt r)"
  "dt_linkedTxHash (serializeIntent ts r) = it_linkedTxHash r"
  by (simp_all add: serializeIntent_def)

lemma ttl_of_dto [simp]:
  "readTtlSecFromSnapshot (dt_preparedQuote (serializeIntent ts r)) = readTtlSecFromSnapshot (it_preparedQuote r)"
  by (cases "it_preparedQuote r") (auto simp: serializeIntent_def readTtlSecFromSnapshot_def)

lemma getWalletLockSecs_bounds: "30 \<le> getWalletLockSecs pe \<and> getWalletLockSecs pe \<le> 3600"
proof (cases "str_to_num (env_or_nullish pe ''SEA_WALLET_LOCK_SEC'' '''')")
  case (Fin q)
  show ?thesis
  proof (cases "q < 30")
    case False
    then have "30 \<le> \<lfloor>q\<rfloor>" by linarith
    with Fin False show ?thesis by (simp add: getWalletLockSecs_def)
  qed (simp add: getWalletLockSecs_def Fin)
qed (simp_all add: getWalletLockSecs_def)

lemma ttl_bounds: "5 \<le> readTtlSecFromSnapshot q \<and> readTtlSecFromSnapshot q \<le> 300"
  by (auto simp: readTtlSecFromSnapshot_def split: jval.splits jnum.splits)

section \<open>The wallet lock\<close>

text \<open>The nonce and the token of a row, under the two secrets.\<close>

definition row_nonce :: "sea_ext \<Rightarrow> string \<Rightarrow> intent_row \<Rightarrow> int \<Rightarrow> string" where
  "row_nonce x nonceSecret r pq = issueLockNonce (sx_hmac x) nonceSecret
     \<lparr>nc_intentId = it_id r, nc_owner = it_owner r, nc_preparedQuoteAt = pq,
      nc_chainId = getChainIdFromEnv (sx_env x)\<rparr>"

definition row_token :: "sea_ext \<Rightarrow> string \<Rightarrow> string \<Rightarrow> intent_row \<Rightarrow> int \<Rightarrow> int \<Rightarrow> string" where
  "row_token x nonceSecret secret r pq until = issueExecutionToken (sx_hmac x) secret
     \<lparr>tk_intentId = it_id r, tk_owner = it_owner r, tk_chainId = getChainIdFromEnv (sx_env x),
      tk_walletLockUntilAt = until, tk_lockNonce = row_nonce x nonceSecret r pq\<rparr>"

text \<open>What every accepted lock request has passed.\<close>

definition lockable :: "sea_ext \<Rightarrow> int \<Rightarrow> intent_row \<Rightarrow> int \<Rightarrow> int \<Rightarrow> bool" where
  "lockable x now r pq until \<longleftrightarrow>
    it_status r = S_READY \<and> it_type r = T_CONDITIONAL_MARKET_READY \<and>
    it_preparedQuoteAt r = Some pq \<and> now \<le> pq + readTtlSecFromSnapshot (it_preparedQuote r) * 1000 \<and>
    now < until \<and> until \<le> it_expiresAt r \<and>
    until \<le> now + (getWalletLockSecs (sx_env x) + WALLET_LOCK_SKEW_GRACE_SEC) * 1000"

lemma lockable_hour: "lockable x now r pq until \<Longrightarrow> until \<le> now + 3610 * 1000"
  using getWalletLockSecs_bounds [of "sx_env x"] by (auto simp: lockable_def WALLET_LOCK_SKEW_GRACE_SEC_def)

definition live_lock :: "int \<Rightarrow> intent_row \<Rightarrow> int option" where
  "live_lock now r = (case it_walletLockUntilAt r of Some w \<Rightarrow> if now < w then Some w else None | None \<Rightarrow> None)"

lemma lock_existing_row:
  assumes "dates_ok x" and "row_dates_ok r"
  shows "lock_existing x now (serializeIntent ts r) = live_lock now r"
  using assms dates_okD [OF assms(1)]
  by (auto simp: lock_existing_def live_lock_def row_dates_ok_def opt_all_def split: option.splits)

lemma lock_decide_sound:
  assumes "dates_ok x" and "row_dates_ok r" and "lock_decide x now body (serializeIntent ts r) = Inr plan"
  obtains ns sec pq until where
    "requireSecret (sx_env x) ''SEA_LOCK_NONCE_SECRET'' = Inr ns"
    "requireSecret (sx_env x) ''SEA_EXECUTION_TOKEN_SECRET'' = Inr sec"
    "sx_dateParse x (lb_walletLockUntilAt body) = Some until" "lockable x now r pq until"
    "lb_lockNonce body = row_nonce x ns r pq"
    "case live_lock now r of
       Some w \<Rightarrow> lb_walletLockUntilAt body = toISOString w \<and>
         plan = LockReply (toISOString w) (row_token x ns sec r pq w)
     | None \<Rightarrow> plan = LockWrite pq until
         \<lparr>tk_intentId = it_id r, tk_owner = it_owner r, tk_chainId = getChainIdFromEnv (sx_env x),
          tk_walletLockUntilAt = until, tk_lockNonce = row_nonce x ns r pq\<rparr> sec \<and>
        verifyWalletLockAuth x (it_id r) (it_owner r) (getChainIdFromEnv (sx_env x))
          (lb_lockNonce body) (lb_walletLockUntilAt body) (lb_signature body) = Inr ()"
proof -
  obtain pq where pq: "it_preparedQuoteAt r = Some pq"
    using assms(3) by (cases "it_preparedQuoteAt r") (auto simp: lock_decide_def split: if_splits)
  have d: "date_ms x (toISOString (it_expiresAt r)) = num (it_expiresAt r)"
    "date_ms x (toISOString pq) = num pq" "sx_dateParse x (toISOString pq) = Some pq"
    using assms(1,2) dates_okD [OF assms(1)] pq by (simp_all add: date_ms_def row_dates_ok_def opt_all_def)
  from assms(3) obtain ns sec until where
    b: "it_status r = S_READY" "it_type r = T_CONDITIONAL_MARKET_READY" "now < it_expiresAt r"
    "now \<le> pq + readTtlSecFromSnapshot (it_preparedQuote r) * 1000"
    "requireSecret (sx_env x) ''SEA_LOCK_NONCE_SECRET'' = Inr ns"
    "requireSecret (sx_env x) ''SEA_EXECUTION_TOKEN_SECRET'' = Inr sec"
    "verifyLockNonce (sx_hmac x) ns (lb_lockNonce body)
       \<lparr>nc_intentId = it_id r, nc_owner = it_owner r, nc_preparedQuoteAt = pq,
        nc_chainId = getChainIdFromEnv (sx_env x)\<rparr> = Inr True"
    "lock_window_ok x now (num (it_expiresAt r)) (lb_walletLockUntilAt body) = Some until"
    and p: "(case live_lock now r of
       Some w \<Rightarrow> if lb_walletLockUntilAt body \<noteq> toISOString w
         then Inl (BadRequest ''wallet_lock_until_mismatch'')
         else Inr (LockReply (toISOString w) (issueExecutionToken (sx_hmac x) sec
           \<lparr>tk_intentId = it_id r, tk_owner = it_owner r, tk_chainId = getChainIdFromEnv (sx_env x),
            tk_walletLockUntilAt = w, tk_lockNonce = lb_lockNonce body\<rparr>))
     | None \<Rightarrow> bind_res (verifyWalletLockAuth x (it_id r) (it_owner r) (getChainIdFromEnv (sx_env x))
          (lb_lockNonce body) (lb_walletLockUntilAt body) (lb_signature body)) (\<lambda>_.
          Inr (LockWrite pq until \<lparr>tk_intentId = it_id r, tk_owner = it_owner r,
            tk_chainId = getChainIdFromEnv (sx_env x), tk_walletLockUntilAt = until,
            tk_lockNonce = lb_lockNonce body\<rparr> sec))) = Inr plan"
    by (cases "live_lock now r") (auto simp: lock_decide_def Let_def pq d lock_existing_row [OF assms(1,2)]
        simp del: of_int_add of_int_mult split: if_splits option.splits)
  have w: "sx_dateParse x (lb_walletLockUntilAt body) = Some until" "now < until" "until \<le> it_expiresAt r"
    "until \<le> now + (getWalletLockSecs (sx_env x) + WALLET_LOCK_SKEW_GRACE_SEC) * 1000"
    using b(8) by (auto simp: lock_window_ok_def split: option.splits if_splits)
  have n: "lb_lockNonce body = row_nonce x ns r pq"
    using b(7) by (simp add: verifyLockNonce_def row_nonce_def)
  show ?thesis
    by (rule that [OF b(5,6) w(1)])
      (use b w n pq p in \<open>auto simp: lockable_def row_token_def split: option.splits if_splits\<close>)
qed


lemma lockWallet_cases:
  assumes "lockWallet x now env i body s = (Inr (u, tok), s')"
  obtains (reply) r where "intent_at (sea_intents s) i = Some r" "s' = s"
      "lock_decide x now body (serializeIntent (sx_decToString x) r) = Inr (LockReply u tok)"
    | (written) r pq until tk sec where "intent_at (sea_intents s) i = Some r"
      "lock_decide x now body (serializeIntent (sx_decToString x) r) = Inr (LockWrite pq until tk sec)"
      "fst (lockWalletFromReady now (it_id r) pq until (sea_intents (env s)))"
      "s' = snd (on_intents (lockWalletFromReady now (it_id r) pq until) (env s))"
      "u = toISOString until" "tok = issueExecutionToken (sx_hmac x) sec tk"
proof -
  obtain r where r: "intent_at (sea_intents s) i = Some r"
    using assms by (cases "intent_at (sea_intents s) i") (auto simp: lockWallet_def findById_row)
  let ?d = "lock_decide x now body (serializeIntent (sx_decToString x) r)"
  obtain plan where p: "?d = Inr plan" using assms r by (cases ?d) (auto simp: lockWallet_def findById_row)
  show ?thesis
  proof (cases plan)
    case (LockReply a b)
    have "lockWallet x now env i body s = (Inr (a, b), s)"
      by (simp add: lockWallet_def findById_row r p LockReply)
    with assms p LockReply have "s' = s" "?d = Inr (LockReply u tok)" by simp_all
    with r show ?thesis by (rule reply)
  next
    case (LockWrite pq until tk sec)
    let ?w = "on_intents (lockWalletFromReady now (it_id r) pq until) (env s)"
    have o: "?w = (fst (lockWalletFromReady now (it_id r) pq until (sea_intents (env s))), snd ?w)"
      by (simp add: prod_eq_iff)
    have "lockWallet x now env i body s =
        (if \<not> fst ?w then (Inl (Conflict ''status_changed_concurrently''), snd ?w)
         else (Inr (toISOString until, issueExecutionToken (sx_hmac x) sec tk), snd ?w))"
      by (simp add: lockWallet_def findById_row r p LockWrite case_prod_unfold Let_def)
    with assms have "fst ?w" "s' = snd ?w" "u = toISOString until"
      "tok = issueExecutionToken (sx_hmac x) sec tk"
      by (auto split: if_splits)
    with r p LockWrite written show ?thesis by simp
  qed
qed

lemma lock_reply_sound:
  assumes "dates_ok x" and "row_dates_ok r"
    and "lock_decide x now body (serializeIntent ts r) = Inr (LockReply u tok)"
  shows "\<exists>ns sec pq w. live_lock now r = Some w \<and> lb_walletLockUntilAt body = toISOString w \<and>
    u = toISOString w \<and> tok = row_token x ns sec r pq w \<and> lockable x now r pq w \<and>
    lb_lockNonce body = row_nonce x ns r pq"
proof (rule lock_decide_sound [OF assms])
  fix ns sec pq until
  assume *: "sx_dateParse x (lb_walletLockUntilAt body) = Some until" "lockable x now r pq until"
    "lb_lockNonce body = row_nonce x ns r pq"
    and "case live_lock now r of
       Some w \<Rightarrow> lb_walletLockUntilAt body = toISOString w \<and>
         LockReply u tok = LockReply (toISOString w) (row_token x ns sec r pq w)
     | None \<Rightarrow> LockReply u tok = LockWrite pq until
         \<lparr>tk_intentId = it_id r, tk_owner = it_owner r, tk_chainId = getChainIdFromEnv (sx_env x),
          tk_walletLockUntilAt = until, tk_lockNonce = row_nonce x ns r pq\<rparr> sec \<and>
        verifyWalletLockAuth x (it_id r) (it_owner r) (getChainIdFromEnv (sx_env x))
          (lb_lockNonce body) (lb_walletLockUntilAt body) (lb_signature body) = Inr ()"
  then obtain w where w: "live_lock now r = Some w" "lb_walletLockUntilAt body = toISOString w"
    "u = toISOString w" "tok = row_token x ns sec r pq w"
    by (auto split: option.splits)
  have "it_walletLockUntilAt r = Some w" using w(1) by (auto simp: live_lock_def split: option.splits if_splits)
  then have "sx_dateParse x (toISOString w) = Some w"
    using assms(2) dates_okD [OF assms(1)] by (simp add: row_dates_ok_def opt_all_def)
  with *(1) w(2) have "until = w" by simp
  with w * show ?thesis by blast
qed

lemma lock_write_sound:
  assumes "dates_ok x" and "row_dates_ok r"
    and "lock_decide x now body (serializeIntent ts r) = Inr (LockWrite pq until tk sec)"
  shows "\<exists>ns. live_lock now r = None \<and> sx_dateParse x (lb_walletLockUntilAt body) = Some until \<and>
    lockable x now r pq until \<and> lb_lockNonce body = row_nonce x ns r pq \<and>
    issueExecutionToken (sx_hmac x) sec tk = row_token x ns sec r pq until \<and>
    verifyWalletLockAuth x (it_id r) (it_owner r) (getChainIdFromEnv (sx_env x))
      (lb_lockNonce body) (lb_walletLockUntilAt body) (lb_signature body) = Inr ()"
  by (rule lock_decide_sound [OF assms]) (auto simp: row_token_def split: option.splits)

text \<open>
  A wallet lock is only granted inside its bounds, and the caller gets a token for exactly
  the lock that is stored. If the request succeeds, the intent was a \<open>READY\<close> market intent inside
  its snapshot's time to live, the nonce is the one of the row's current snapshot, the lock ends
  after now, not after the intent's expiry and at most one hour and ten seconds ahead; the
  returned token is the one of that row and lock, and after the call, whatever the other writers
  did meanwhile, the addressed row holds that lock on that very snapshot (or held it already,
  and nothing was written).
\<close>

theorem wallet_lock_within_bounds:
  assumes "lockWallet x now env i body s = (Inr (u, tok), s')"
    and "intent_at (sea_intents s) i = Some r" and "dates_ok x" and "row_dates_ok r"
    and env: "ids_ok (sea_intents (env s))"
  shows "\<exists>ns sec pq until. lockable x now r pq until \<and> until \<le> now + 3610 * 1000 \<and>
    sx_dateParse x (lb_walletLockUntilAt body) = Some until \<and>
    lb_lockNonce body = row_nonce x ns r pq \<and>
    u = toISOString until \<and> tok = row_token x ns sec r pq until \<and>
    (s' = s \<and> it_walletLockUntilAt r = Some until \<or>
     (\<exists>r'. intent_at (sea_intents (env s)) i = Some r' \<and> it_status r' = S_READY \<and>
       it_preparedQuoteAt r' = Some pq \<and>
       intent_at (sea_intents s') i =
         Some (r'\<lparr>it_walletLockUntilAt := Some until, it_updatedAt := now\<rparr>)))"
  using assms(1)
proof (cases rule: lockWallet_cases)
  case (reply r0)
  with assms(2) have r0: "r0 = r" by simp
  from lock_reply_sound [OF assms(3,4) reply(3) [unfolded r0]] obtain ns sec pq w where
    w: "live_lock now r = Some w" "lb_walletLockUntilAt body = toISOString w" "u = toISOString w"
    "tok = row_token x ns sec r pq w" "lockable x now r pq w" "lb_lockNonce body = row_nonce x ns r pq"
    by blast
  have wl: "it_walletLockUntilAt r = Some w"
    using w(1) by (auto simp: live_lock_def split: option.splits if_splits)
  have "sx_dateParse x (lb_walletLockUntilAt body) = Some w"
    using w(2) wl assms(4) dates_okD [OF assms(3)] by (simp add: row_dates_ok_def opt_all_def)
  with w wl reply(2) lockable_hour [OF w(5)] show ?thesis by blast
next
  case (written r0 pq until tk sec)
  with assms(2) have r0: "r0 = r" by simp
  from lock_write_sound [OF assms(3,4) written(2) [unfolded r0]] obtain ns where
    w: "sx_dateParse x (lb_walletLockUntilAt body) = Some until" "lockable x now r pq until"
    "lb_lockNonce body = row_nonce x ns r pq" "tok = row_token x ns sec r pq until"
    by (auto simp: written(6))
  have i: "it_id r = i" using assms(2) intent_at_id by blast
  obtain r' where r': "intent_at (sea_intents (env s)) i = Some r'"
    "it_status r' = S_READY" "it_preparedQuoteAt r' = Some pq"
    using written(3) i r0 env by (auto simp: lockWalletFromReady_def update_intent_hit)
  then have "intent_at (sea_intents s') i = Some (r'\<lparr>it_walletLockUntilAt := Some until, it_updatedAt := now\<rparr>)"
    using i by (simp add: written(4) r0 lockWalletFromReady_def intent_at_update)
  with w r' written(5) lockable_hour [OF w(2)] show ?thesis by blast
qed


lemma live_lock_no_write:
  assumes "dates_ok x" and "row_dates_ok r" and "live_lock now r = Some w"
  shows "lock_decide x now body (serializeIntent ts r) \<noteq> Inr (LockWrite pq until tk sec)"
  using lock_write_sound [OF assms(1,2)] assms(3) by force

lemma lock_decide_any_signature:
  assumes "dates_ok x" and "row_dates_ok r" and "live_lock now r = Some w"
  shows "lock_decide x now (body\<lparr>lb_signature := sg\<rparr>) (serializeIntent ts r) =
    lock_decide x now body (serializeIntent ts r)"
  by (cases body) (simp only: lock_decide_def lock_existing_row [OF assms(1,2)] assms(3) option.case
    lock_body.simps)

text \<open>
  C31. A live wallet lock is immutable: while its window is open no lock request changes anything,
  whatever it supplies and whatever the other writers do, a request succeeds only for the very
  lock time that is stored, and it then gets the token of that lock again. The answer does not
  depend on the signature of the request, so during the window the nonce and the lock time alone
  fetch the token.
\<close>

theorem live_lock_is_immutable:
  assumes "intent_at (sea_intents s) i = Some r" and "dates_ok x" and "row_dates_ok r"
    and "it_walletLockUntilAt r = Some w" and "now < w" and "lockWallet x now env i body s = (res, s')"
  shows "s' = s \<and> lockWallet x now env' i (body\<lparr>lb_signature := sg\<rparr>) s = (res, s) \<and>
    (\<forall>u tok. res = Inr (u, tok) \<longrightarrow> lb_walletLockUntilAt body = toISOString w \<and> u = toISOString w \<and>
      (\<exists>ns sec pq. tok = row_token x ns sec r pq w))"
proof -
  have l: "live_lock now r = Some w" using assms(4,5) by (simp add: live_lock_def)
  let ?d = "lock_decide x now body (serializeIntent (sx_decToString x) r)"
  have d': "lock_decide x now (body\<lparr>lb_signature := sg\<rparr>) (serializeIntent (sx_decToString x) r) = ?d"
    using lock_decide_any_signature [OF assms(2,3) l] .
  show ?thesis
  proof (cases ?d)
    case (Inl e)
    then have "lockWallet x now en i bd s = (Inl e, s)"
      if "lock_decide x now bd (serializeIntent (sx_decToString x) r) = ?d" for en bd
      using that assms(1) by (simp add: lockWallet_def findById_row)
    with assms(6) d' show ?thesis by auto
  next
    case (Inr plan)
    then obtain a b where p: "plan = LockReply a b"
      using live_lock_no_write [OF assms(2,3) l] by (cases plan) auto
    have q: "lockWallet x now en i bd s = (Inr (a, b), s)"
      if "lock_decide x now bd (serializeIntent (sx_decToString x) r) = ?d" for en bd
      using that assms(1) Inr p by (simp add: lockWallet_def findById_row)
    from lock_reply_sound [OF assms(2,3) Inr [unfolded p]] l
    have "lb_walletLockUntilAt body = toISOString w" "a = toISOString w" "\<exists>ns sec pq. b = row_token x ns sec r pq w"
      by auto
    with q [OF refl] q [OF d'] assms(6) show ?thesis by auto
  qed
qed

section \<open>The executing marker\<close>

text \<open>The token of the row as it stands, under the configured secrets.\<close>

definition presents_token :: "sea_ext \<Rightarrow> int \<Rightarrow> intent_row \<Rightarrow> string \<Rightarrow> bool" where
  "presents_token x now r token \<longleftrightarrow>
    (\<exists>ns sec pq w. requireSecret (sx_env x) ''SEA_LOCK_NONCE_SECRET'' = Inr ns \<and>
      requireSecret (sx_env x) ''SEA_EXECUTION_TOKEN_SECRET'' = Inr sec \<and>
      it_preparedQuoteAt r = Some pq \<and> it_walletLockUntilAt r = Some w \<and>
      now \<le> w + CMR_EXECUTING_MARK_GRACE_SEC * 1000 \<and> token = row_token x ns sec r pq w)"

lemma mark_decide_go:
  assumes "dates_ok x" and "row_dates_ok r" and "mark_decide x now body (serializeIntent ts r) = Inr True"
  shows "it_status r = S_READY \<and> presents_token x now r (xb_executionToken body)"
proof -
  obtain w pq where wp: "it_walletLockUntilAt r = Some w" "it_preparedQuoteAt r = Some pq"
    using assms(3) by (cases "it_walletLockUntilAt r"; cases "it_preparedQuoteAt r")
      (auto simp: mark_decide_def split: if_splits)
  have d: "date_ms x (toISOString w) = num w" "sx_dateParse x (toISOString w) = Some w"
    "sx_dateParse x (toISOString pq) = Some pq"
    using assms(2) wp dates_okD [OF assms(1)] by (simp_all add: date_ms_def row_dates_ok_def opt_all_def)
  show ?thesis
    using assms(3) wp
    by (auto simp: mark_decide_def d Let_def verifyExecutionToken_def presents_token_def row_token_def
        row_nonce_def simp del: of_int_add of_int_mult split: if_splits)
qed

lemma mark_decide_stop:
  "mark_decide x now body (serializeIntent ts r) = Inr False \<Longrightarrow>
    it_status r \<in> set TERM_STATES \<and> linked_to (serializeIntent ts r) (to_lower (xb_txHash body))"
  by (auto simp: mark_decide_def Let_def split: if_splits option.splits)

text \<open>Any outcome of the marker: nothing written, or one of the three transitions of a \<open>READY\<close> row.\<close>

definition marked_row :: "intent_row \<Rightarrow> intent_status \<Rightarrow> string \<Rightarrow> int \<Rightarrow> string option \<Rightarrow> intent_row" where
  "marked_row r st h now reason =
    (case reason of
       None \<Rightarrow> r\<lparr>it_status := st, it_linkedTxHash := Some (to_lower h), it_lastEvaluatedAt := Some now,
                it_updatedAt := now\<rparr>
     | Some m \<Rightarrow> r\<lparr>it_status := st, it_linkedTxHash := Some (to_lower h), it_failureReason := Some m,
                it_lastEvaluatedAt := Some now, it_updatedAt := now\<rparr>)"

lemma andthen_intents:
  "sea_intents (snd (andthen m f)) = sea_intents (snd m)"
  if "\<And>v s. sea_intents (snd (f v s)) = sea_intents s"
  using that by (cases m; cases "fst m") (auto simp: andthen_def split: sum.splits)

lemma reload_snd [simp]: "snd (reload x i s) = s" and lost_race_snd [simp]: "snd (lost_race x i h g s) = s"
  by (simp_all add: reload_def lost_race_def)

lemma mark_intents:
  "sea_intents (snd (mark_via_trade x now i h trade s)) = snd (markExecutedFromReady now i h (sea_intents s))"
  "sea_intents (snd (mark_via_revert x now i h s)) =
     snd (markFailedFromReady now i h ''tx_reverted_at_marker'' (sea_intents s))"
  "sea_intents (snd (mark_normal x now i h s)) = snd (markExecuting_repo now i h (sea_intents s))"
  by (auto simp: mark_via_trade_def mark_via_revert_def mark_normal_def andthen_intents Let_def
      case_prod_unfold)


lemma mark_writes:
  assumes "ids_ok t"
  shows "if fst (markExecutedFromReady now i h t) then
      \<exists>r'. intent_at t i = Some r' \<and> it_status r' = S_READY \<and>
        intent_at (snd (markExecutedFromReady now i h t)) i = Some (marked_row r' S_EXECUTED h now None)
     else snd (markExecutedFromReady now i h t) = t"
    and "if fst (markFailedFromReady now i h m t) then
      \<exists>r'. intent_at t i = Some r' \<and> it_status r' = S_READY \<and>
        intent_at (snd (markFailedFromReady now i h m t)) i = Some (marked_row r' S_FAILED h now (Some m))
     else snd (markFailedFromReady now i h m t) = t"
    and "if fst (markExecuting_repo now i h t) then
      \<exists>r'. intent_at t i = Some r' \<and> it_status r' = S_READY \<and>
        intent_at (snd (markExecuting_repo now i h t)) i = Some (marked_row r' S_EXECUTING h now None)
     else snd (markExecuting_repo now i h t) = t"
  unfolding markExecutedFromReady_def markFailedFromReady_def markExecuting_repo_def marked_row_def
    Let_def option.case
  by (rule update_intent_result [OF assms], simp)+

lemma markExecuting_eq:
  assumes "intent_at (sea_intents s) i = Some r"
  shows "markExecuting x now env i body s =
    (let intent = serializeIntent (sx_decToString x) r; h = to_lower (xb_txHash body) in
     case mark_decide x now body intent of
       Inl e \<Rightarrow> (Inl e, s)
     | Inr go \<Rightarrow>
         if \<not> go then (Inr intent, s)
         else (case findTradeByTxHashForIntent (sea_db s) h (it_marketId r) (it_owner r) of
           Some trade \<Rightarrow> mark_via_trade x now i h trade (env s)
         | None \<Rightarrow> if checkReceiptReverted x h then mark_via_revert x now i h (env s)
                   else mark_normal x now i h (env s)))"
  unfolding markExecuting_def findById_row assms option.map option.case dto_fields Let_def
    conjunct1 [OF intent_at_id [OF assms]] ..

text \<open>
  C20. Only the bearer of the row's own execution token can move an intent with the executing
  marker, and only from \<open>READY\<close>. Whatever the other writers do between the read and the write,
  either the handler writes nothing, or the row was \<open>READY\<close> when read and when written, the
  presented token is the one of its current snapshot and lock, the lock ended at most 45 seconds
  ago, and the row becomes \<open>EXECUTED\<close> exactly when the owner already has a trade of that
  transaction in that market, \<open>FAILED\<close> exactly when there is none and the receipt says reverted,
  and \<open>EXECUTING\<close> otherwise, linked to that transaction.
\<close>

theorem marker_requires_token:
  assumes "intent_at (sea_intents s) i = Some r" and "dates_ok x" and "row_dates_ok r"
    and "ids_ok (sea_intents (env s))" and "markExecuting x now env i body s = (res, s')"
  shows "sea_intents s' \<in> {sea_intents s, sea_intents (env s)} \<or>
    it_status r = S_READY \<and> presents_token x now r (xb_executionToken body) \<and>
    (\<exists>r' st reason. intent_at (sea_intents (env s)) i = Some r' \<and> it_status r' = S_READY \<and>
      intent_at (sea_intents s') i = Some (marked_row r' st (to_lower (xb_txHash body)) now reason) \<and>
      (let trade = findTradeByTxHashForIntent (sea_db s) (to_lower (xb_txHash body)) (it_marketId r) (it_owner r)
       in st = (if trade \<noteq> None then S_EXECUTED
                else if checkReceiptReverted x (to_lower (xb_txHash body)) then S_FAILED
                else S_EXECUTING)))"
proof -
  let ?h = "to_lower (xb_txHash body)" and ?t = "sea_intents (env s)"
  let ?d = "mark_decide x now body (serializeIntent (sx_decToString x) r)"
  have i: "it_id r = i" using assms(1) intent_at_id by blast
  note w = mark_writes [OF assms(4), of now i ?h]
  note eq = markExecuting_eq [OF assms(1), of x now env body, unfolded assms(5) Let_def]
  let ?trade = "findTradeByTxHashForIntent (sea_db s) ?h (it_marketId r) (it_owner r)"
  consider e where "?d = Inl e" | "?d = Inr False" | "?d = Inr True" by (cases ?d) auto
  then show ?thesis
  proof cases
    case 3
    note go = mark_decide_go [OF assms(2,3) 3]
    consider trade where "?trade = Some trade" | "?trade = None" "checkReceiptReverted x ?h"
      | "?trade = None" "\<not> checkReceiptReverted x ?h" by fastforce
    then show ?thesis
    proof cases
      case 1
      then have "s' = snd (mark_via_trade x now i ?h trade (env s))" using eq 3 by (auto dest: arg_cong [of _ _ snd])
      then have "sea_intents s' = snd (markExecutedFromReady now i ?h ?t)" by (simp only: mark_intents)
      with w(1) go 1 show ?thesis by (auto split: if_splits)
    next
      case 2
      then have "s' = snd (mark_via_revert x now i ?h (env s))" using eq 3 by (auto dest: arg_cong [of _ _ snd])
      then have "sea_intents s' = snd (markFailedFromReady now i ?h ''tx_reverted_at_marker'' ?t)"
        by (simp only: mark_intents)
      with w(2) [of "''tx_reverted_at_marker''"] go 2 show ?thesis by (auto split: if_splits)
    next
      case 3
      then have "s' = snd (mark_normal x now i ?h (env s))"
        using eq \<open>?d = Inr True\<close> by (auto dest: arg_cong [of _ _ snd])
      then have "sea_intents s' = snd (markExecuting_repo now i ?h ?t)" by (simp only: mark_intents)
      with w(3) go 3 show ?thesis by (auto split: if_splits)
    qed
  qed (use eq in auto)
qed


lemma andthen_append:
  assumes "intent_at (sea_intents s) i \<noteq> None"
  shows "andthen (append_event_sea i ty p s) f =
    f () (s\<lparr>sea_events := sea_events s @ [\<lparr>ie_intentId = i, ie_type = ty, ie_payload = p\<rparr>]\<rparr>)"
  using assms by (simp add: sea_event_ok)

lemma on_intents_eq: "on_intents f s = (fst (f (sea_intents s)), s\<lparr>sea_intents := snd (f (sea_intents s))\<rparr>)"
  by (simp add: on_intents_def case_prod_unfold Let_def)

lemma mark_result:
  assumes "intent_at (snd (f (sea_intents s))) i = Some r'" and "fst (f (sea_intents s))"
  shows "f = markExecutedFromReady now i h \<Longrightarrow>
      fst (mark_via_trade x now i h trade s) = Inr (serializeIntent (sx_decToString x) r')"
    and "f = markFailedFromReady now i h ''tx_reverted_at_marker'' \<Longrightarrow>
      fst (mark_via_revert x now i h s) = Inr (serializeIntent (sx_decToString x) r')"
    and "f = markExecuting_repo now i h \<Longrightarrow>
      fst (mark_normal x now i h s) = Inr (serializeIntent (sx_decToString x) r')"
  using assms
  by (simp_all add: mark_via_trade_def mark_via_revert_def mark_normal_def on_intents_eq andthen_append
      reload_def findById_row)

lemma linked_to_row:
  "linked_to (serializeIntent ts r) h \<longleftrightarrow> (\<exists>g. it_linkedTxHash r = Some g \<and> g \<noteq> [] \<and> to_lower g = h)"
  by (auto simp: linked_to_def non_empty_def split: option.splits)

lemma already_marked:
  assumes "intent_at (sea_intents s) i = Some r" and "it_status r \<in> set TERM_STATES"
    and "linked_to (serializeIntent (sx_decToString x) r) h"
  shows "markExecuting x now env i body s =
    (if to_lower (xb_txHash body) = h then (Inr (serializeIntent (sx_decToString x) r), s)
     else (Inl (Conflict ''executing_tx_hash_conflict''), s))"
proof -
  have "linked_to (serializeIntent (sx_decToString x) r) g \<longleftrightarrow> g = h" for g
    using assms(3) by (auto simp: linked_to_row)
  with assms(2) show ?thesis
    by (simp add: markExecuting_eq [OF assms(1)] mark_decide_def Let_def)
qed

lemma mark_hit:
  assumes "ids_ok t" and "intent_at t i = Some r" and "it_status r = S_READY"
  shows "fst (markExecutedFromReady now i h t) \<and>
      intent_at (snd (markExecutedFromReady now i h t)) i = Some (marked_row r S_EXECUTED h now None)"
    and "fst (markFailedFromReady now i h m t) \<and>
      intent_at (snd (markFailedFromReady now i h m t)) i = Some (marked_row r S_FAILED h now (Some m))"
    and "fst (markExecuting_repo now i h t) \<and>
      intent_at (snd (markExecuting_repo now i h t)) i = Some (marked_row r S_EXECUTING h now None)"
  using assms(2,3)
  by (simp_all add: markExecutedFromReady_def markFailedFromReady_def markExecuting_repo_def marked_row_def
      update_intent_hit [OF assms(1)] intent_at_update)

text \<open>Past its checks and without a race, the marker always moves the row and returns it.\<close>

lemma mark_outcome:
  assumes "intent_at (sea_intents s) i = Some r" and "ids_ok (sea_intents s)" and "it_status r = S_READY"
    and "mark_decide x now body (serializeIntent (sx_decToString x) r) = Inr True"
  obtains st reason s' where "st \<in> set TERM_STATES"
    "markExecuting x now (\<lambda>s. s) i body s =
      (Inr (serializeIntent (sx_decToString x) (marked_row r st (to_lower (xb_txHash body)) now reason)), s')"
    "intent_at (sea_intents s') i = Some (marked_row r st (to_lower (xb_txHash body)) now reason)"
proof -
  let ?h = "to_lower (xb_txHash body)" and ?t = "sea_intents s"
  let ?trade = "findTradeByTxHashForIntent (sea_db s) ?h (it_marketId r) (it_owner r)"
  note eq = markExecuting_eq [OF assms(1), of x now "\<lambda>s. s" body, unfolded Let_def assms(4) sum.case]
  note hit = mark_hit [OF assms(2,1,3), of now ?h]
  consider trade where "?trade = Some trade" | "?trade = None" "checkReceiptReverted x ?h"
    | "?trade = None" "\<not> checkReceiptReverted x ?h" by fastforce
  then show ?thesis
  proof cases
    case 1
    have "fst (mark_via_trade x now i ?h trade s) = Inr (serializeIntent (sx_decToString x) (marked_row r S_EXECUTED ?h now None))"
      using mark_result(1) [OF conjunct2 [OF hit(1)] conjunct1 [OF hit(1)] refl] .
    with 1 eq show ?thesis
      using that [of S_EXECUTED None "snd (mark_via_trade x now i ?h trade s)"] hit(1)
      by (simp add: TERM_STATES_def mark_intents prod_eq_iff)
  next
    case 2
    have "fst (mark_via_revert x now i ?h s) =
        Inr (serializeIntent (sx_decToString x) (marked_row r S_FAILED ?h now (Some ''tx_reverted_at_marker'')))"
      using mark_result(2) [OF conjunct2 [OF hit(2)] conjunct1 [OF hit(2)] refl] .
    with 2 eq show ?thesis
      using that [of S_FAILED "Some ''tx_reverted_at_marker''" "snd (mark_via_revert x now i ?h s)"] hit(2)
      by (simp add: TERM_STATES_def mark_intents prod_eq_iff)
  next
    case 3
    have "fst (mark_normal x now i ?h s) = Inr (serializeIntent (sx_decToString x) (marked_row r S_EXECUTING ?h now None))"
      using mark_result(3) [OF conjunct2 [OF hit(3)] conjunct1 [OF hit(3)] refl] .
    with 3 eq show ?thesis
      using that [of S_EXECUTING None "snd (mark_normal x now i ?h s)"] hit(3)
      by (simp add: TERM_STATES_def mark_intents prod_eq_iff)
  qed
qed

text \<open>
  The executing marker is idempotent on the transaction: once it has succeeded, repeating it
  with the same hash in any letter case, at any later time and with any token, returns the same
  row and changes nothing, and a different hash is refused as a conflict, also without effect.
\<close>

theorem marker_is_idempotent:
  assumes "intent_at (sea_intents s) i = Some r" and "dates_ok x" and "row_dates_ok r"
    and "ids_ok (sea_intents s)" and "executingBodySchema body"
    and "markExecuting x now (\<lambda>s. s) i body s = (Inr u, s')"
  shows "markExecuting x now' env i body' s' =
    (if to_lower (xb_txHash body') = to_lower (xb_txHash body) then (Inr u, s')
     else (Inl (Conflict ''executing_tx_hash_conflict''), s'))"
proof -
  let ?h = "to_lower (xb_txHash body)" and ?ser = "serializeIntent (sx_decToString x)"
  let ?d = "mark_decide x now body (?ser r)"
  note eq = markExecuting_eq [OF assms(1), of x now "\<lambda>s. s" body, unfolded assms(6) Let_def]
  have h: "?h \<noteq> []" using assms(5) by (auto simp: executingBodySchema_def is_0x_hex_def to_lower_def)
  consider e where "?d = Inl e" | "?d = Inr False" | "?d = Inr True" by (cases ?d) auto
  then show ?thesis
  proof cases
    case 1
    then show ?thesis using eq by simp
  next
    case 2
    then have "u = ?ser r" "s' = s" using eq by auto
    with already_marked [OF assms(1), of x ?h now' env body'] mark_decide_stop [OF 2] show ?thesis by simp
  next
    case 3
    then have ready: "it_status r = S_READY" using mark_decide_go [OF assms(2,3)] by blast
    obtain st reason where m: "st \<in> set TERM_STATES" "u = ?ser (marked_row r st ?h now reason)"
      "intent_at (sea_intents s') i = Some (marked_row r st ?h now reason)"
      by (rule mark_outcome [OF assms(1,4) ready 3]) (use assms(6) in auto)
    have "linked_to (?ser (marked_row r st ?h now reason)) ?h" "it_status (marked_row r st ?h now reason) = st"
      using h by (auto simp: linked_to_row marked_row_def split: option.splits)
    with already_marked [OF m(3)] m(1,2) show ?thesis by simp
  qed
qed

end
