(* ===== verification/CmrPrepare.thy ===== *)
theory CmrPrepare
  imports IntentServiceProps
begin

text \<open>
  \<open>apps/api/src/sea/cmr-prepare.service.ts\<close>: the evaluation of one active market intent, from
  its trigger over the guarded liquidity preview to the \<open>READY\<close> snapshot. The candidate is what
  the monitor read earlier; the state is the one at the evaluation, which is not interrupted.
\<close>

section \<open>Configuration\<close>

definition env_num :: "penv \<Rightarrow> string \<Rightarrow> jnum" where
  "env_num pe key = str_to_num (env_or_nullish pe key '''')"

text \<open>\<open>Math.min(hi, Math.max(lo, Math.floor(raw)))\<close> of a positive finite value.\<close>

definition clamped_env :: "penv \<Rightarrow> string \<Rightarrow> int \<Rightarrow> int \<Rightarrow> int \<Rightarrow> int" where
  "clamped_env pe key dflt lo hi =
    (case env_num pe key of
       Fin raw \<Rightarrow> if raw \<le> 0 then dflt else min hi (max lo \<lfloor>raw\<rfloor>)
     | _ \<Rightarrow> dflt)"

definition resolveTtlSec :: "penv \<Rightarrow> int" where
  "resolveTtlSec pe = clamped_env pe ''SEA_CMR_READY_TTL_SECS'' 60 5 300"

definition resolveProgressDebounceSec :: "penv \<Rightarrow> int" where
  "resolveProgressDebounceSec pe = clamped_env pe ''SEA_CMR_PROGRESS_DEBOUNCE_SECS'' 60 5 600"

definition TAKER_FEE_BPS :: "penv \<Rightarrow> jnum" where
  "TAKER_FEE_BPS pe = str_to_num (env_or_falsy pe ''TAKER_FEE_BPS'' ''0'')"

section \<open>Trigger\<close>

definition top_ticks :: "snap_row list \<Rightarrow> int option result" where
  "top_ticks rows =
    (case rows of
       [] \<Rightarrow> Inr None
     | r # _ \<Rightarrow> if sn_priceTicks r = [] then Inr None
                 else bind_res (str_to_bigint (sn_priceTicks r)) (\<lambda>n. Inr (Some n)))"

definition readReferenceTicks :: "string \<Rightarrow> ref_kind \<Rightarrow> engine \<Rightarrow> int option result" where
  "readReferenceTicks symbol reference e =
    (let snap = snapshot symbol 1 e in
     case reference of
       BEST_ASK \<Rightarrow> top_ticks (snd snap) | BEST_BID \<Rightarrow> top_ticks (fst snap) | MID \<Rightarrow> Inr None)"

definition triggerSatisfied :: "trigger_type \<Rightarrow> int \<Rightarrow> int \<Rightarrow> bool" where
  "triggerSatisfied ty refTicks threshold =
    (case ty of PRICE_BELOW \<Rightarrow> refTicks \<le> threshold | PRICE_ABOVE \<Rightarrow> refTicks \<ge> threshold)"

section \<open>The snapshot\<close>

definition buildPreparedQuoteSnapshot :: "quote_res \<Rightarrow> int \<Rightarrow> int \<Rightarrow> jval result" where
  "buildPreparedQuoteSnapshot q preparedAt ttlSec =
    bind_res (map_res (\<lambda>f. str_to_bigint (qf_sizeBase f)) (q_fills q)) (\<lambda>sizes.
    bind_res (map_res (\<lambda>f. str_to_bigint (qf_priceTicks f)) (q_fills q)) (\<lambda>prices.
    let fillsBase = sum_list sizes;
        fillsNotional = sum_list (map2 (*) prices sizes);
        avg = (if fillsBase > 0 then big_to_string (tdiv fillsNotional fillsBase) else ''0'');
        top = (case q_fills q of [] \<Rightarrow> ''0'' | f # _ \<Rightarrow> qf_priceTicks f)
    in Inr (JObj
      [(''marketId'', JStr (q_marketId q)), (''symbol'', JStr (q_symbol q)),
       (''side'', JStr (side_str (q_side q))), (''requestedBase'', JStr (q_requestedBase q)),
       (''remainingBase'', JStr (q_remainingBase q)), (''takerToken'', JStr (q_takerToken q)),
       (''takerAmount'', JStr (q_takerAmount q)), (''takerFeeAmount'', JStr (q_takerFeeAmount q)),
       (''takerTotalAmount'', JStr (q_takerTotalAmount q)),
       (''levelCount'', JNum (num (int (length (q_fills q))))), (''topLevelPriceTicks'', JStr top),
       (''avgPriceTicks'', JStr avg), (''snapshotBlock'', JNull),
       (''preparedAtUnix'', JNum (num (preparedAt div 1000))), (''ttlSec'', JNum (num ttlSec))])))"

section \<open>Evaluation\<close>

text \<open>The debounced \<open>PROGRESS\<close>: bump the cooldown of the active row, and one event if it was there.\<close>

definition debounced_progress ::
  "sea_ext \<Rightarrow> int \<Rightarrow> string \<Rightarrow> (string \<times> jval) list \<Rightarrow> sea \<Rightarrow> unit result \<times> sea" where
  "debounced_progress x now i payload s =
    (let debounceSec = resolveProgressDebounceSec (sx_env x);
         (stamped, s1) = on_intents (setActiveCooldown now i (now + debounceSec * 1000)) s
     in if stamped
        then append_event_sea i IE_PROGRESS
               (JObj (payload @ [(''debounceSec'', JNum (num debounceSec))])) s1
        else (Inr (), s1))"

text \<open>What the preview allows: not enough at the trigger, too small, several fills, or ready.\<close>

definition mark_ready_with :: "sea_ext \<Rightarrow> int \<Rightarrow> string \<Rightarrow> quote_res \<Rightarrow> sea \<Rightarrow> unit result \<times> sea" where
  "mark_ready_with x now i q s =
    (let ttlSec = resolveTtlSec (sx_env x) in
     case buildPreparedQuoteSnapshot q now ttlSec of
       Inl e \<Rightarrow> (Inl e, s)
     | Inr snap \<Rightarrow>
         (let (latched, s1) = on_intents (markReady now i snap now) s in
          if \<not> latched then (Inr (), s1)
          else append_event_sea i IE_READY (JObj
                 [(''preparedQuote'', snap), (''preparedAtUnix'', JNum (num (now div 1000))),
                  (''ttlSec'', JNum (num ttlSec))]) s1))"

definition prepare_with_quote :: "sea_ext \<Rightarrow> int \<Rightarrow> cmr_candidate \<Rightarrow> quote_res \<Rightarrow> sea \<Rightarrow> unit result \<times> sea" where
  "prepare_with_quote x now c q s =
    (case str_to_bigint (q_remainingBase q) of
       Inl e \<Rightarrow> (Inl e, s)
     | Inr remainingBase \<Rightarrow>
         if remainingBase > 0
         then debounced_progress x now (cc_id c)
                [(''reason'', JStr ''insufficient_liquidity''), (''requestedBase'', JStr (q_requestedBase q)),
                 (''remainingBase'', JStr (q_remainingBase q))] s
         else (case getTradingContext (sea_db s) (cc_marketId c) of
             Inl e \<Rightarrow> (Inr (), s)
           | Inr ctx \<Rightarrow>
               (let notionalQ = computeQuoteNotionalQ (q_fills q) (ctx_priceTickQ ctx) (ctx_baseDecimals ctx) in
                if notionalQ < ctx_minNotionalQ ctx
                then debounced_progress x now (cc_id c)
                       [(''reason'', JStr ''notional_below_min_notional''),
                        (''notionalQ'', JStr (big_to_string notionalQ)),
                        (''minNotionalQ'', JStr (big_to_string (ctx_minNotionalQ ctx)))] s
                else if length (q_fills q) \<noteq> 1
                then debounced_progress x now (cc_id c)
                       [(''reason'', JStr ''requires_single_fill''),
                        (''fills'', JNum (num (int (length (q_fills q)))))] s
                else mark_ready_with x now (cc_id c) q s)))"

definition evaluateAndPrepare :: "sea_ext \<Rightarrow> int \<Rightarrow> cmr_candidate \<Rightarrow> sea \<Rightarrow> unit result \<times> sea" where
  "evaluateAndPrepare x now c s =
    (if read_only x \<or> mainnet x then (Inr (), s)
     else case readReferenceTicks (cc_marketSymbol c) (cc_triggerReference c) (sea_engine s) of
       Inl e \<Rightarrow> (Inl e, s)
     | Inr None \<Rightarrow> (Inr (), s)
     | Inr (Some refTicks) \<Rightarrow>
         if \<not> triggerSatisfied (cc_triggerType c) refTicks (cc_triggerPriceTicks c) then (Inr (), s)
         else (case quote (TAKER_FEE_BPS (sx_env x)) (cc_marketSymbol c) (cc_side c) (cc_sizeBase c)
                      (Some (cc_triggerPriceTicks c)) (sea_engine s) of
             (Inl e, eng) \<Rightarrow> (Inr (), s\<lparr>sea_engine := eng\<rparr>)
           | (Inr q, eng) \<Rightarrow> prepare_with_quote x now c q (s\<lparr>sea_engine := eng\<rparr>)))"

section \<open>What \<open>READY\<close> means\<close>

lemma env_nums:
  "5 \<le> resolveTtlSec pe" "resolveTtlSec pe \<le> 300"
  "5 \<le> resolveProgressDebounceSec pe" "resolveProgressDebounceSec pe \<le> 600"
  by (auto simp: resolveTtlSec_def resolveProgressDebounceSec_def clamped_env_def split: jnum.splits)

lemma debounced_intents:
  "sea_intents (snd (debounced_progress x now i p s)) =
     snd (setActiveCooldown now i (now + resolveProgressDebounceSec (sx_env x) * 1000) (sea_intents s))"
  by (auto simp: debounced_progress_def on_intents_eq Let_def)

lemma setActiveCooldown_status:
  "map_option it_status (intent_at (snd (setActiveCooldown now i c t)) j) =
     map_option it_status (intent_at t j)"
  by (cases "intent_at t j") (simp_all add: setActiveCooldown_def intent_at_update)

lemma mark_ready_intents:
  "buildPreparedQuoteSnapshot q now (resolveTtlSec (sx_env x)) = Inr snap \<Longrightarrow>
    sea_intents (snd (mark_ready_with x now i q s)) = snd (markReady now i snap now (sea_intents s))"
  by (auto simp: mark_ready_with_def on_intents_eq Let_def)

lemma mark_ready_engine: "sea_engine (snd (mark_ready_with x now i q s)) = sea_engine s"
  by (cases "buildPreparedQuoteSnapshot q now (resolveTtlSec (sx_env x))")
    (simp_all add: mark_ready_with_def on_intents_eq Let_def)

text \<open>A plan of one fill that leaves nothing open takes the whole request from the first order.\<close>

lemma single_fill:
  assumes "length (greedy x L) = 1" and "x - filled (greedy x L) \<le> 0"
  obtains l ls where "L = l # ls" "greedy x L = [(l, x)]" "0 < x" "x \<le> lv_sizeBase l"
proof (cases L)
  case (Cons l ls)
  have "0 < x" using assms(1) Cons by (auto split: if_splits)
  with assms Cons have g: "greedy x L = [(l, min x (lv_sizeBase l))]" by auto
  with assms(2) have "x \<le> lv_sizeBase l" by (simp add: filled_def)
  with that Cons g \<open>0 < x\<close> show ?thesis by (simp add: min_def)
qed (use assms in simp)

lemma snapshot_ttl:
  "buildPreparedQuoteSnapshot q now ttl = Inr snap \<Longrightarrow> jget snap ''ttlSec'' = JNum (num ttl)"
  by (auto simp: buildPreparedQuoteSnapshot_def Let_def)

text \<open>Only \<open>mark_ready_with\<close> moves a status, and only past the three gates.\<close>

abbreviation status_at :: "sea \<Rightarrow> string \<Rightarrow> intent_status option" where
  "status_at s i \<equiv> map_option it_status (intent_at (sea_intents s) i)"

lemma debounced_status [simp]: "status_at (snd (debounced_progress x now i p s)) j = status_at s j"
  by (simp add: debounced_intents setActiveCooldown_status)

lemma prepare_moves:
  assumes "status_at (snd (prepare_with_quote x now c q s)) i \<noteq> status_at s i"
  obtains rem ctx where "str_to_bigint (q_remainingBase q) = Inr rem" "rem \<le> 0" "length (q_fills q) = 1"
    "getTradingContext (sea_db s) (cc_marketId c) = Inr ctx"
    "ctx_minNotionalQ ctx \<le> computeQuoteNotionalQ (q_fills q) (ctx_priceTickQ ctx) (ctx_baseDecimals ctx)"
    "prepare_with_quote x now c q s = mark_ready_with x now (cc_id c) q s"
proof -
  obtain rem where r: "str_to_bigint (q_remainingBase q) = Inr rem"
    using assms by (cases "str_to_bigint (q_remainingBase q)") (auto simp: prepare_with_quote_def)
  have "\<not> 0 < rem" using assms r by (auto simp: prepare_with_quote_def)
  moreover obtain ctx where c: "getTradingContext (sea_db s) (cc_marketId c) = Inr ctx"
    using assms r calculation
    by (cases "getTradingContext (sea_db s) (cc_marketId c)") (auto simp: prepare_with_quote_def)
  ultimately show ?thesis
    using that [OF r _ _ c] assms r by (auto simp: prepare_with_quote_def Let_def split: if_splits)
qed

lemma evaluate_moves:
  assumes "status_at (snd (evaluateAndPrepare x now c s)) i \<noteq> status_at s i"
  obtains ref q eng where
    "readReferenceTicks (cc_marketSymbol c) (cc_triggerReference c) (sea_engine s) = Inr (Some ref)"
    "triggerSatisfied (cc_triggerType c) ref (cc_triggerPriceTicks c)"
    "quote (TAKER_FEE_BPS (sx_env x)) (cc_marketSymbol c) (cc_side c) (cc_sizeBase c)
       (Some (cc_triggerPriceTicks c)) (sea_engine s) = (Inr q, eng)"
    "evaluateAndPrepare x now c s = prepare_with_quote x now c q (s\<lparr>sea_engine := eng\<rparr>)"
    "\<not> read_only x" "\<not> mainnet x"
  using assms that by (auto simp: evaluateAndPrepare_def split: if_splits sum.splits option.splits prod.splits)

lemma prepared_ready:
  assumes "evaluateAndPrepare x now c s = (res, s')" and "intent_at (sea_intents s) (cc_id c) = Some r"
    and "it_status r \<noteq> S_READY" and "intent_at (sea_intents s') (cc_id c) = Some r'"
    and "it_status r' = S_READY" and "ids_ok (sea_intents s)"
  obtains q eng rem ctx snap ref where
    "quote (TAKER_FEE_BPS (sx_env x)) (cc_marketSymbol c) (cc_side c) (cc_sizeBase c)
       (Some (cc_triggerPriceTicks c)) (sea_engine s) = (Inr q, eng)"
    "str_to_bigint (q_remainingBase q) = Inr rem" "rem \<le> 0" "length (q_fills q) = 1"
    "getTradingContext (eng_db eng) (cc_marketId c) = Inr ctx"
    "ctx_minNotionalQ ctx \<le> computeQuoteNotionalQ (q_fills q) (ctx_priceTickQ ctx) (ctx_baseDecimals ctx)"
    "buildPreparedQuoteSnapshot q now (resolveTtlSec (sx_env x)) = Inr snap"
    "sea_engine s' = eng" "it_status r = S_ACTIVE"
    "r' = r\<lparr>it_status := S_READY, it_preparedQuote := snap, it_preparedQuoteAt := Some now,
            it_lastEvaluatedAt := Some now, it_updatedAt := now\<rparr>"
    "readReferenceTicks (cc_marketSymbol c) (cc_triggerReference c) (sea_engine s) = Inr (Some ref)"
    "triggerSatisfied (cc_triggerType c) ref (cc_triggerPriceTicks c)"
proof -
  have s': "s' = snd (evaluateAndPrepare x now c s)" using assms(1) by simp
  have mv: "status_at (snd (evaluateAndPrepare x now c s)) (cc_id c) \<noteq> status_at s (cc_id c)"
    using assms(2-5) by (simp add: s')
  obtain ref q eng where e:
    "readReferenceTicks (cc_marketSymbol c) (cc_triggerReference c) (sea_engine s) = Inr (Some ref)"
    "triggerSatisfied (cc_triggerType c) ref (cc_triggerPriceTicks c)"
    "quote (TAKER_FEE_BPS (sx_env x)) (cc_marketSymbol c) (cc_side c) (cc_sizeBase c)
       (Some (cc_triggerPriceTicks c)) (sea_engine s) = (Inr q, eng)"
    "evaluateAndPrepare x now c s = prepare_with_quote x now c q (s\<lparr>sea_engine := eng\<rparr>)"
    by (rule evaluate_moves [OF mv])
  have "status_at (snd (prepare_with_quote x now c q (s\<lparr>sea_engine := eng\<rparr>))) (cc_id c) \<noteq>
      status_at (s\<lparr>sea_engine := eng\<rparr>) (cc_id c)" using mv by (simp add: e(4))
  then obtain rem ctx where p: "str_to_bigint (q_remainingBase q) = Inr rem" "rem \<le> 0" "length (q_fills q) = 1"
    "getTradingContext (eng_db eng) (cc_marketId c) = Inr ctx"
    "ctx_minNotionalQ ctx \<le> computeQuoteNotionalQ (q_fills q) (ctx_priceTickQ ctx) (ctx_baseDecimals ctx)"
    "evaluateAndPrepare x now c s = mark_ready_with x now (cc_id c) q (s\<lparr>sea_engine := eng\<rparr>)"
    unfolding e(4) by (rule prepare_moves) simp_all
  obtain snap where n: "buildPreparedQuoteSnapshot q now (resolveTtlSec (sx_env x)) = Inr snap"
    using mv unfolding p(6) by (cases "buildPreparedQuoteSnapshot q now (resolveTtlSec (sx_env x))")
      (simp_all add: mark_ready_with_def)
  have it: "sea_intents s' = snd (markReady now (cc_id c) snap now (sea_intents s))"
    unfolding s' p(6) mark_ready_intents [OF n] by simp
  have en: "sea_engine s' = eng"
    unfolding s' p(6) mark_ready_engine by simp
  let ?r = "r\<lparr>it_status := S_READY, it_preparedQuote := snap, it_preparedQuoteAt := Some now,
      it_lastEvaluatedAt := Some now, it_updatedAt := now\<rparr>"
  have "intent_at (sea_intents s') (cc_id c) = Some (if it_status r = S_ACTIVE then ?r else r)"
    unfolding it markReady_def by (subst intent_at_update) (simp_all add: assms(2))
  then have r': "r' = (if it_status r = S_ACTIVE then ?r else r)" using assms(4) by simp
  then have ac: "it_status r = S_ACTIVE" using assms(3,5) by presburger
  then have rr: "r' = ?r" using r' by presburger
  from that [OF e(3) p(1-5) n en ac rr e(1,2)] show ?thesis .
qed

lemma quote_engine:
  assumes "quote fb k sd x lmt e = (Inr q, e')" and "getTradingContext (eng_db e) k = Inr ctx"
  shows "e' = snd (ensure_book (ctx_symbol ctx) e)"
  using assms by (simp add: quote_def case_prod_unfold Let_def)

lemma notional_single:
  "computeQuoteNotionalQ [quoted (l, x)] tick dec =
     (if tick \<le> 0 then 0 else tdiv (lv_priceTicks l * tick * x) (10 ^ dec))"
  by (simp add: computeQuoteNotionalQ_def quoted_def fill_notional_level)

text \<open>A complete quote of one fill: the first order of the side takes it all, and nothing changed.\<close>

lemma quote_single:
  assumes "quote fb k sd x lmt e = (Inr q, e')" and "str_to_bigint (q_remainingBase q) = Inr rem"
    and "rem \<le> 0" and "length (q_fills q) = 1"
  obtains ctx b l ls where "getTradingContext (eng_db e) k = Inr ctx" "book_at e (ctx_symbol ctx) = Some b"
    "against sd b = l # ls" "\<not> beyond_limit sd lmt (lv_priceTicks l)" "0 < x" "x \<le> lv_sizeBase l"
    "q_fills q = [quoted (l, x)]" "e' = e"
proof -
  obtain ctx where ctx: "getTradingContext (eng_db e) k = Inr ctx"
    and q: "q_fills q = map quoted (greedy x (in_limit sd lmt (against sd (fst (ensure_book (ctx_symbol ctx) e)))))"
      "q_remainingBase q = big_to_string (x - filled (greedy x (in_limit sd lmt
         (against sd (fst (ensure_book (ctx_symbol ctx) e))))))"
    using quote_result [of fb k sd x lmt e q] assms(1) by (metis fst_conv)
  let ?L = "in_limit sd lmt (against sd (fst (ensure_book (ctx_symbol ctx) e)))"
  have rem: "x - filled (greedy x ?L) \<le> 0" using assms(2,3) q(2) by simp
  obtain l ls where l: "?L = l # ls" "greedy x ?L = [(l, x)]" "0 < x" "x \<le> lv_sizeBase l"
    using single_fill [OF _ rem] assms(4) q(1) by (metis length_map)
  obtain b where b: "book_at e (ctx_symbol ctx) = Some b"
    using l(1) by (cases "book_at e (ctx_symbol ctx)"; cases sd) (auto simp: ensure_book_def empty_book_def)
  then have eb: "ensure_book (ctx_symbol ctx) e = (b, e)" by (simp add: ensure_book_def)
  obtain ls' where h: "against sd b = l # ls'" "\<not> beyond_limit sd lmt (lv_priceTicks l)"
    using l(1) eb by (cases "against sd b") (auto split: if_splits)
  have "q_fills q = [quoted (l, x)]" using q(1) l(2) by simp
  from that [OF ctx b h l(3,4) this] quote_engine [OF assms(1) ctx] eb show ?thesis by simp
qed

text \<open>
  C25. An intent only becomes \<open>READY\<close> when one single resting order can execute it in full on
  its terms. The trigger held at the top of the book, the first order of the opposite side is
  priced at the trigger or better and is at least as large as the intent, the notional of that
  one fill meets the minimum of the intent's market, the stored snapshot carries a time to live
  between 5 and 300 seconds and the time of the preparation, the intent was \<open>ACTIVE\<close>, and neither
  the books nor the order tables have changed. It does not happen in the read-only or mainnet
  profile.
\<close>

theorem ready_is_executable:
  assumes "evaluateAndPrepare x now c s = (res, s')" and "ids_ok (sea_intents s)"
    and "intent_at (sea_intents s) (cc_id c) = Some r" and "it_status r \<noteq> S_READY"
    and "intent_at (sea_intents s') (cc_id c) = Some r'" and "it_status r' = S_READY"
  shows "it_status r = S_ACTIVE \<and> sea_engine s' = sea_engine s \<and> \<not> read_only x \<and> \<not> mainnet x \<and>
    (\<exists>ctx b l ls mkt ref ttl.
      getTradingContext (sea_db s) (cc_marketSymbol c) = Inr ctx \<and>
      book_at (sea_engine s) (ctx_symbol ctx) = Some b \<and> against (cc_side c) b = l # ls \<and>
      \<not> beyond_limit (cc_side c) (Some (cc_triggerPriceTicks c)) (lv_priceTicks l) \<and>
      0 < cc_sizeBase c \<and> cc_sizeBase c \<le> lv_sizeBase l \<and>
      getTradingContext (sea_db s) (cc_marketId c) = Inr mkt \<and>
      (0 < ctx_priceTickQ mkt \<longrightarrow> ctx_minNotionalQ mkt \<le>
        tdiv (lv_priceTicks l * ctx_priceTickQ mkt * cc_sizeBase c) (10 ^ ctx_baseDecimals mkt)) \<and>
      readReferenceTicks (cc_marketSymbol c) (cc_triggerReference c) (sea_engine s) = Inr (Some ref) \<and>
      triggerSatisfied (cc_triggerType c) ref (cc_triggerPriceTicks c) \<and>
      jget (it_preparedQuote r') ''ttlSec'' = JNum (num ttl) \<and> 5 \<le> ttl \<and> ttl \<le> 300 \<and>
      it_preparedQuoteAt r' = Some now)"
proof -
  obtain q eng rem mkt snap ref where p:
    "quote (TAKER_FEE_BPS (sx_env x)) (cc_marketSymbol c) (cc_side c) (cc_sizeBase c)
       (Some (cc_triggerPriceTicks c)) (sea_engine s) = (Inr q, eng)"
    "str_to_bigint (q_remainingBase q) = Inr rem" "rem \<le> 0" "length (q_fills q) = 1"
    "getTradingContext (eng_db eng) (cc_marketId c) = Inr mkt"
    "ctx_minNotionalQ mkt \<le> computeQuoteNotionalQ (q_fills q) (ctx_priceTickQ mkt) (ctx_baseDecimals mkt)"
    "buildPreparedQuoteSnapshot q now (resolveTtlSec (sx_env x)) = Inr snap"
    "sea_engine s' = eng" "it_status r = S_ACTIVE"
    "r' = r\<lparr>it_status := S_READY, it_preparedQuote := snap, it_preparedQuoteAt := Some now,
            it_lastEvaluatedAt := Some now, it_updatedAt := now\<rparr>"
    "readReferenceTicks (cc_marketSymbol c) (cc_triggerReference c) (sea_engine s) = Inr (Some ref)"
    "triggerSatisfied (cc_triggerType c) ref (cc_triggerPriceTicks c)"
    by (rule prepared_ready [OF assms(1,3,4,5,6,2)])
  obtain ctx b l ls where l: "getTradingContext (sea_db s) (cc_marketSymbol c) = Inr ctx"
    "book_at (sea_engine s) (ctx_symbol ctx) = Some b" "against (cc_side c) b = l # ls"
    "\<not> beyond_limit (cc_side c) (Some (cc_triggerPriceTicks c)) (lv_priceTicks l)"
    "0 < cc_sizeBase c" "cc_sizeBase c \<le> lv_sizeBase l"
    "q_fills q = [quoted (l, cc_sizeBase c)]" "eng = sea_engine s"
    by (rule quote_single [OF p(1-4)])
  have n: "0 < ctx_priceTickQ mkt \<longrightarrow> ctx_minNotionalQ mkt \<le>
      tdiv (lv_priceTicks l * ctx_priceTickQ mkt * cc_sizeBase c) (10 ^ ctx_baseDecimals mkt)"
    using p(6) l(7) notional_single [of l "cc_sizeBase c" "ctx_priceTickQ mkt" "ctx_baseDecimals mkt"]
    by (simp split: if_splits)
  have t: "jget (it_preparedQuote r') ''ttlSec'' = JNum (num (resolveTtlSec (sx_env x)))" "it_preparedQuoteAt r' = Some now"
    using snapshot_ttl [OF p(7)] p(10) by simp_all
  have g: "\<not> read_only x" "\<not> mainnet x"
    using assms(1,3,4,5,6) by (auto simp: evaluateAndPrepare_def)
  show ?thesis
    using p(5,8) [unfolded l(8)] p(9,11,12) l(1-6) g n t env_nums(1,2) [of "sx_env x"] by blast
qed

section \<open>A sample preparation\<close>

definition sample_due :: sea where
  "sample_due = sea_sample\<lparr>sea_engine := sample_engine, sea_intents := [sample_row]\<rparr>"

definition sample_candidate :: cmr_candidate where
  "sample_candidate =
    \<lparr>cc_id = ''i1'', cc_owner = ''0xa'', cc_marketId = ''m1'', cc_marketSymbol = ''B-Q'', cc_side = BUY,
     cc_sizeBase = 20, cc_triggerType = PRICE_BELOW, cc_triggerReference = BEST_ASK,
     cc_triggerPriceTicks = 6, cc_expiresAt = 5000000\<rparr>"

lemma sample_due_rows:
  "intent_at (sea_intents sample_due) ''i1'' = Some sample_row" "ids_ok (sea_intents sample_due)"
  "it_status sample_row \<noteq> S_READY"
  by code_simp+

lemma sample_prepared:
  "map_option it_status (intent_at (sea_intents (snd (evaluateAndPrepare sample_sx 20 sample_candidate sample_due))) ''i1'')
     = Some S_READY"
  by code_simp

theorem ready_is_executable_witness:
  "sea_engine (snd (evaluateAndPrepare sample_sx 20 sample_candidate sample_due)) = sample_engine \<and>
    (\<exists>r'. intent_at (sea_intents (snd (evaluateAndPrepare sample_sx 20 sample_candidate sample_due))) ''i1'' = Some r' \<and>
      it_preparedQuoteAt r' = Some 20)"
proof -
  let ?e = "evaluateAndPrepare sample_sx 20 sample_candidate sample_due"
  have e: "?e = (fst ?e, snd ?e)" by simp
  have i: "cc_id sample_candidate = ''i1''" by (simp add: sample_candidate_def)
  obtain r' where r': "intent_at (sea_intents (snd ?e)) ''i1'' = Some r'" "it_status r' = S_READY"
    using sample_prepared by auto
  from ready_is_executable [OF e sample_due_rows(2) _ sample_due_rows(3), unfolded i, OF sample_due_rows(1) r'] r'
  show ?thesis by (auto simp: sample_due_def)
qed

end
