(* ===== verification/IntentFire.thy ===== *)
theory IntentFire
  imports CmrPrepare
begin

text \<open>
  \<open>apps/api/src/sea/intent-fire.service.ts\<close>: firing a conditional limit order. The latch, the
  fire-time validation, the placement and the recording of its outcome, with every \<open>catch\<close> of the
  source as a branch. The intent argument is what the monitor read; the firing itself is not
  interrupted by the other writers. A \<open>detail\<close> of a validation issue is not modelled, so an event
  carries the codes of the issues only.
\<close>

section \<open>Helpers\<close>

definition fire_bytesToHex :: "bytes \<Rightarrow> string" where
  "fire_bytesToHex b = ''0x'' @ concat (map byte_to_hex b)"

definition firstIssueCode :: "exn \<Rightarrow> string option" where
  "firstIssueCode e = (case e of ValidationFailed m (c # cs) \<Rightarrow> Some c | _ \<Rightarrow> None)"

text \<open>A plain bad request has no \<open>issues\<close>; the key with the value \<open>undefined\<close> is not stored.\<close>

definition errPayload :: "exn \<Rightarrow> (string \<times> jval) list" where
  "errPayload e =
    (case e of
       ValidationFailed m issues \<Rightarrow> [(''issues'', jarray (map (\<lambda>c. JObj [(''code'', JStr c)]) issues))]
     | _ \<Rightarrow> if is_bad_request e then [] else [(''error'', JStr (exn_message e))])"

definition failIntent ::
  "sea_ext \<Rightarrow> int \<Rightarrow> string \<Rightarrow> string \<Rightarrow> (string \<times> jval) list \<Rightarrow> sea \<Rightarrow> unit result \<times> sea" where
  "failIntent x now i failureReason eventPayload s =
    append_event_sea i IE_FAILED (JObj ((''reason'', JStr failureReason) # eventPayload))
      (snd (on_intents (transitionStatus (sx_decToString x) now i S_TRIGGERED S_FAILED (Some failureReason)) s))"

definition on_engine :: "(engine \<Rightarrow> 'a \<times> engine) \<Rightarrow> sea \<Rightarrow> 'a \<times> sea" where
  "on_engine f s = (let (r, e) = f (sea_engine s) in (r, s\<lparr>sea_engine := e\<rparr>))"

section \<open>Firing\<close>

definition fire_input_of :: "cl_candidate \<Rightarrow> string \<Rightarrow> string \<Rightarrow> fire_input" where
  "fire_input_of c sigHex declaredHash =
    \<lparr>fr_intentId = cl_id c, fr_owner = cl_owner c, fr_side = cl_side c, fr_sizeBase = cl_sizeBase c,
     fr_limitPriceTicks = cl_limitPriceTicks c, fr_preSignedOrder = cl_preSignedOrder c,
     fr_signatureHex = sigHex, fr_preSignedOrderHash = declaredHash, fr_expiresAt = cl_expiresAt c\<rparr>"

definition sig_hex_of :: "cl_candidate \<Rightarrow> string" where
  "sig_hex_of c = (case cl_preSignedSignature c of Some b \<Rightarrow> fire_bytesToHex b | None \<Rightarrow> '''')"

definition declared_hash_of :: "cl_candidate \<Rightarrow> string" where
  "declared_hash_of c = (case cl_preSignedOrderHash c of Some h \<Rightarrow> h | None \<Rightarrow> '''')"

definition placement_failed :: "sea_ext \<Rightarrow> int \<Rightarrow> cl_candidate \<Rightarrow> exn \<Rightarrow> sea \<Rightarrow> unit result \<times> sea" where
  "placement_failed x now c e s =
    (if is_bad_request e \<and> exn_message e = ''post_only_would_cross''
     then failIntent x now (cl_id c) ''would_cross_at_fire''
            [(''side'', JStr (side_str (cl_side c))),
             (''limitPriceTicks'', JStr (big_to_string (cl_limitPriceTicks c))),
             (''suggestion'', JStr ''use_conditional_market_ready'')] s
     else failIntent x now (cl_id c) (''placement_rejected:'' @ exn_message e) [] s)"

definition fire_order_hash :: "sea_ext \<Rightarrow> limit_order \<Rightarrow> string \<Rightarrow> string" where
  "fire_order_hash x lo declaredHash =
    (case getOrderHash (sx_zx x) (sx_cfg x) (getChainIdFromEnv (sx_env x)) (order_json lo) of
       Inl e \<Rightarrow> declaredHash | Inr h \<Rightarrow> h)"

definition fire_request :: "cl_candidate \<Rightarrow> limit_order \<Rightarrow> zx_sig \<Rightarrow> string \<Rightarrow> place_request" where
  "fire_request c lo sg orderHash =
    \<lparr>pq_order = order_json lo, pq_signature = sig_json sg, pq_orderHash = orderHash,
     pq_makerExpected = to_lower (cl_owner c), pq_postOnly = True\<rparr>"

text \<open>Recording a placement; an exception here is caught like one of the placement itself.\<close>

definition record_placed :: "int \<Rightarrow> string \<Rightarrow> string \<Rightarrow> sea \<Rightarrow> unit result \<times> sea" where
  "record_placed now i orderHash s =
    append_event_sea i IE_PLACED (JObj [(''linkedOrderHash'', JStr orderHash),
        (''orderbookStatus'', JStr ''placed'')])
      (snd (on_intents (markPlaced now i orderHash) s))"

definition fire_place :: "sea_ext \<Rightarrow> int \<Rightarrow> cl_candidate \<Rightarrow> sea \<Rightarrow> unit result \<times> sea" where
  "fire_place x now c s =
    (case sanitizeOrder (cl_preSignedOrder c) of
       Inl e \<Rightarrow> (Inl e, s)
     | Inr lo \<Rightarrow>
         (case parseSigHexToTuple (sig_hex_of c) of
            None \<Rightarrow> failIntent x now (cl_id c) ''invalid_signature'' [] s
          | Some sg \<Rightarrow>
              (case on_engine (place_order (sx_env x) (sx_chain x) now
                      (fire_request c lo sg (fire_order_hash x lo (declared_hash_of c)))) s of
                 (Inl e, s1) \<Rightarrow> placement_failed x now c e s1
               | (Inr orderHash, s1) \<Rightarrow>
                   (case record_placed now (cl_id c) orderHash s1 of
                      (Inl e, s2) \<Rightarrow> placement_failed x now c e s2
                    | (Inr _, s2) \<Rightarrow> (Inr (), s2)))))"

definition fire :: "sea_ext \<Rightarrow> int \<Rightarrow> cl_candidate \<Rightarrow> sea \<Rightarrow> unit result \<times> sea" where
  "fire x now c s =
    (if read_only x \<or> mainnet x then (Inr (), s)
     else
       let (latched, s1) = on_intents (transitionStatus (sx_decToString x) now (cl_id c)
             S_ACTIVE S_TRIGGERED None) s in
       if latched = None then (Inr (), s1)
       else (case getTradingContext (sea_db s1) (cl_marketId c) of
           Inl e \<Rightarrow> (Inl e, s1)
         | Inr ctx \<Rightarrow>
             (case validateAtFire x (fire_input_of c (sig_hex_of c) (declared_hash_of c)) ctx s1 of
                Inl e \<Rightarrow> failIntent x now (cl_id c)
                           (case firstIssueCode e of Some cd \<Rightarrow> cd | None \<Rightarrow> ''fire_validation_failed'')
                           (errPayload e) s1
              | Inr _ \<Rightarrow> fire_place x now c s1)))"

section \<open>The outcome\<close>

text \<open>One status change of one row and one event for it.\<close>

definition settled :: "sea \<Rightarrow> sea \<Rightarrow> string \<Rightarrow> intent_status \<Rightarrow> intent_event_type \<Rightarrow> bool" where
  "settled s s' i st ty \<longleftrightarrow>
    map_option it_status (intent_at (sea_intents s') i) = Some st \<and>
    (\<forall>j. j \<noteq> i \<longrightarrow> intent_at (sea_intents s') j = intent_at (sea_intents s) j) \<and>
    (\<exists>p. sea_events s' = sea_events s @ [\<lparr>ie_intentId = i, ie_type = ty, ie_payload = p\<rparr>])"

lemma shift_at:
  "intent_at (snd (transitionStatus ts now i from to m t)) k =
    map_option (\<lambda>r. if k = i \<and> it_status r = from
      then r\<lparr>it_status := to, it_failureReason := (if blank m then it_failureReason r else m), it_updatedAt := now\<rparr>
      else r) (intent_at t k)"
proof -
  have "snd (transitionStatus ts now i from to m t) = snd (shift_status now i from to m t)"
    by (simp add: transitionStatus_def case_prod_unfold Let_def)
  then show ?thesis unfolding shift_status_def by (simp add: intent_at_update if_distrib)
qed

lemma shift_status_at:
  "map_option it_status (intent_at (snd (transitionStatus ts now i from to m t)) k) =
    map_option (\<lambda>st. if k = i \<and> st = from then to else st) (map_option it_status (intent_at t k))"
  by (cases "intent_at t k") (simp_all add: shift_at)

lemma shift_other:
  "k \<noteq> i \<Longrightarrow> intent_at (snd (transitionStatus ts now i from to m t)) k = intent_at t k"
  by (cases "intent_at t k") (simp_all add: shift_at)

lemma shift_hit:
  assumes "ids_ok t"
  shows "fst (transitionStatus ts now i from to m t) = None \<longleftrightarrow>
    map_option it_status (intent_at t i) \<noteq> Some from"
proof -
  have t: "transitionStatus ts now i from to m t =
      (if \<not> fst (shift_status now i from to m t) then None else findById ts (snd (shift_status now i from to m t)) i,
       snd (shift_status now i from to m t))"
    by (simp add: transitionStatus_def case_prod_unfold Let_def)
  have at: "intent_at (snd (shift_status now i from to m t)) i = None \<longleftrightarrow> intent_at t i = None"
    unfolding shift_status_def by (simp add: intent_at_update)
  have f: "fst (shift_status now i from to m t) \<longleftrightarrow> map_option it_status (intent_at t i) = Some from"
    unfolding shift_status_def using update_intent_hit [OF assms] by auto
  show ?thesis using at f by (auto simp: t findById_row)
qed

lemma shift_ids: "ids_ok (snd (transitionStatus ts now i from to m t)) = ids_ok t"
  by (simp add: transitionStatus_def case_prod_unfold Let_def shift_status_def update_intent_ids)

lemma failIntent_settles:
  assumes "map_option it_status (intent_at (sea_intents s) i) = Some S_TRIGGERED"
  shows "fst (failIntent x now i m p s) = Inr ()"
    and "settled s (snd (failIntent x now i m p s)) i S_FAILED IE_FAILED"
proof -
  let ?s1 = "snd (on_intents (transitionStatus (sx_decToString x) now i S_TRIGGERED S_FAILED (Some m)) s)"
  have st: "map_option it_status (intent_at (sea_intents ?s1) i) = Some S_FAILED"
    by (simp add: shift_status_at assms)
  then have e: "failIntent x now i m p s = (Inr (), ?s1\<lparr>sea_events := sea_events s @
      [\<lparr>ie_intentId = i, ie_type = IE_FAILED, ie_payload = JObj ((''reason'', JStr m) # p)\<rparr>]\<rparr>)"
    unfolding failIntent_def by (subst sea_event_ok) auto
  show "fst (failIntent x now i m p s) = Inr ()" by (simp add: e)
  show "settled s (snd (failIntent x now i m p s)) i S_FAILED IE_FAILED"
    using st by (simp add: e settled_def shift_other)
qed

lemma settled_engine [simp]: "settled (s\<lparr>sea_engine := e\<rparr>) s' i st ty = settled s s' i st ty"
  by (simp add: settled_def)

lemma placement_failed_settles:
  assumes "map_option it_status (intent_at (sea_intents s) (cl_id c)) = Some S_TRIGGERED"
  shows "fst (placement_failed x now c e s) = Inr ()"
    and "settled s (snd (placement_failed x now c e s)) (cl_id c) S_FAILED IE_FAILED"
  using failIntent_settles [OF assms] by (simp_all add: placement_failed_def)

lemma record_placed_settles:
  assumes "map_option it_status (intent_at (sea_intents s) i) = Some S_TRIGGERED"
  shows "fst (record_placed now i h s) = Inr ()"
    and "settled s (snd (record_placed now i h s)) i S_PLACED IE_PLACED"
    and "sea_engine (snd (record_placed now i h s)) = sea_engine s"
    and "\<exists>r. intent_at (sea_intents (snd (record_placed now i h s))) i = Some r \<and>
           it_linkedOrderHash r = Some (to_lower h)"
proof -
  let ?s1 = "snd (on_intents (markPlaced now i h) s)"
  have at: "intent_at (sea_intents ?s1) k = map_option (\<lambda>r. if k = i \<and> it_status r = S_TRIGGERED
      then r\<lparr>it_status := S_PLACED, it_linkedOrderHash := Some (to_lower h), it_lastEvaluatedAt := Some now,
             it_updatedAt := now\<rparr> else r) (intent_at (sea_intents s) k)" for k
    by (simp add: markPlaced_def intent_at_update)
  obtain r where r: "intent_at (sea_intents s) i = Some r" "it_status r = S_TRIGGERED" using assms by auto
  have other: "k \<noteq> i \<Longrightarrow> intent_at (sea_intents ?s1) k = intent_at (sea_intents s) k" for k
    by (cases "intent_at (sea_intents s) k") (simp_all add: at del: on_intents_frame)
  have e: "record_placed now i h s = (Inr (), ?s1\<lparr>sea_events := sea_events s @
      [\<lparr>ie_intentId = i, ie_type = IE_PLACED, ie_payload = JObj [(''linkedOrderHash'', JStr h),
        (''orderbookStatus'', JStr ''placed'')]\<rparr>]\<rparr>)"
    unfolding record_placed_def by (subst sea_event_ok) (simp_all add: at r del: on_intents_frame(4))
  show "fst (record_placed now i h s) = Inr ()" "sea_engine (snd (record_placed now i h s)) = sea_engine s"
    by (simp_all add: e)
  show "settled s (snd (record_placed now i h s)) i S_PLACED IE_PLACED"
    using other by (simp add: e settled_def at r del: on_intents_frame(4))
  show "\<exists>r. intent_at (sea_intents (snd (record_placed now i h s))) i = Some r \<and>
      it_linkedOrderHash r = Some (to_lower h)"
    by (simp add: e at r del: on_intents_frame(4))
qed

lemma on_engine_eq: "on_engine f s = (fst (f (sea_engine s)), s\<lparr>sea_engine := snd (f (sea_engine s))\<rparr>)"
  by (simp add: on_engine_def case_prod_unfold Let_def)

text \<open>Where the placement ends: a failure on record, or the order in the book and its hash in the row.\<close>

lemma fire_place_settles:
  assumes "map_option it_status (intent_at (sea_intents s) (cl_id c)) = Some S_TRIGGERED"
    and "sanitizeOrder (cl_preSignedOrder c) = Inr lo"
  shows "fst (fire_place x now c s) = Inr () \<and>
    (settled s (snd (fire_place x now c s)) (cl_id c) S_FAILED IE_FAILED \<or>
     settled s (snd (fire_place x now c s)) (cl_id c) S_PLACED IE_PLACED \<and>
     (\<exists>sg h e' r. parseSigHexToTuple (sig_hex_of c) = Some sg \<and>
       place_order (sx_env x) (sx_chain x) now
         (fire_request c lo sg (fire_order_hash x lo (declared_hash_of c))) (sea_engine s) = (Inr h, e') \<and>
       sea_engine (snd (fire_place x now c s)) = e' \<and>
       intent_at (sea_intents (snd (fire_place x now c s))) (cl_id c) = Some r \<and>
       it_linkedOrderHash r = Some (to_lower h)))"
proof (cases "parseSigHexToTuple (sig_hex_of c)")
  case None
  then show ?thesis using failIntent_settles [OF assms(1)] assms(2) by (simp add: fire_place_def)
next
  case (Some sg)
  let ?p = "place_order (sx_env x) (sx_chain x) now
    (fire_request c lo sg (fire_order_hash x lo (declared_hash_of c))) (sea_engine s)"
  have tr: "map_option it_status (intent_at (sea_intents (s\<lparr>sea_engine := e\<rparr>)) (cl_id c)) = Some S_TRIGGERED" for e
    using assms(1) by simp
  show ?thesis
  proof (cases "fst ?p")
    case (Inl e)
    then have f: "fire_place x now c s = placement_failed x now c e (s\<lparr>sea_engine := snd ?p\<rparr>)"
      using Some assms(2) by (simp add: fire_place_def on_engine_eq)
    show ?thesis using placement_failed_settles [OF tr] by (simp add: f)
  next
    case (Inr h)
    let ?s1 = "s\<lparr>sea_engine := snd ?p\<rparr>"
    note rp = record_placed_settles [OF tr [of "snd ?p"], of now h]
    have f: "fire_place x now c s = (Inr (), snd (record_placed now (cl_id c) h ?s1))"
      using Some assms(2) Inr rp(1)
      by (cases "record_placed now (cl_id c) h ?s1") (simp add: fire_place_def on_engine_eq)
    have "?p = (Inr h, snd ?p)" using Inr by (simp add: prod_eq_iff)
    with rp(2,3,4) Some show ?thesis by (simp add: f) blast
  qed
qed

section \<open>What fires\<close>

text \<open>The order is the owner's own, on the intent's exact terms, and its signature still verifies.\<close>

definition fire_authentic :: "sea_ext \<Rightarrow> fire_input \<Rightarrow> trading_ctx \<Rightarrow> sea \<Rightarrow> limit_order \<Rightarrow> bool" where
  "fire_authentic x inp ctx s lo \<longleftrightarrow>
    exact_terms ctx (fr_side inp) lo (fr_sizeBase inp) (fr_limitPriceTicks inp) \<and>
    right_pair ctx (fr_side inp) lo \<and> lo_maker lo = to_lower (fr_owner inp) \<and>
    ctx_minSizeB ctx \<le> fr_sizeBase inp \<and>
    ctx_minNotionalQ ctx * pow10 (ctx_baseDecimals ctx) \<le>
      fr_limitPriceTicks inp * ctx_priceTickQ ctx * fr_sizeBase inp \<and>
    (case stored_floor (sea_floors s)
        (to_lower (fr_owner inp), to_lower (lo_makerToken lo), to_lower (lo_takerToken lo)) of
       None \<Rightarrow> True | Some n \<Rightarrow> n \<le> lo_salt lo) \<and>
    (dev_skip x \<or>
     (case parseSigHexToTuple (fr_signatureHex inp) of
        None \<Rightarrow> False
      | Some sg \<Rightarrow>
          (case verifySignature (sx_zx x) (sx_cfg x) (getChainIdFromEnv (sx_env x)) (order_json lo) sg of
             Inr (Some a) \<Rightarrow> to_lower a = to_lower (fr_owner inp) | _ \<Rightarrow> False)))"

lemma validateAtFire_authentic:
  assumes "validateAtFire x inp ctx s = Inr ()"
  obtains lo where "sanitizeOrder (fr_preSignedOrder inp) = Inr lo" "fire_authentic x inp ctx s lo"
proof -
  have iss: "fire_issues x inp ctx s = Inr []"
    using assms by (cases "fire_issues x inp ctx s") (auto simp: validateAtFire_def split: if_splits)
  obtain lo where lo: "sanitizeOrder (fr_preSignedOrder inp) = Inr lo"
    using iss by (cases "sanitizeOrder (fr_preSignedOrder inp)") (auto simp: fire_issues_def)
  obtain hi h where h: "computed_hash x lo = (hi, h)" by fastforce
  from iss lo h have a: "dev_skip x \<or> fire_signature_issues x inp lo = Inr []"
    "runCancelPairFloorCheck x (fr_owner inp) (lo_makerToken lo) (lo_takerToken lo) (lo_salt lo) (sea_floors s) = Inr []"
    "size_issues ctx (fr_sizeBase inp) = []"
    "notional_issues ctx (fr_limitPriceTicks inp) (fr_sizeBase inp) = []"
    "maker_issues lo (fr_owner inp) = []" "pair_issues ctx (fr_side inp) lo = []"
    "terms_issues ctx (fr_side inp) lo (fr_sizeBase inp) (fr_limitPriceTicks inp) = []"
    by (auto simp: fire_issues_def split: if_splits)
  have "lo_maker lo = to_lower (fr_owner inp)"
    using a(5) sanitizeOrder_fields(3) [OF lo] by (auto simp: maker_issues_def split: if_splits)
  moreover have "dev_skip x \<or> (\<exists>sg ad. parseSigHexToTuple (fr_signatureHex inp) = Some sg \<and>
      verifySignature (sx_zx x) (sx_cfg x) (getChainIdFromEnv (sx_env x)) (order_json lo) sg = Inr (Some ad) \<and>
      to_lower ad = to_lower (fr_owner inp))"
    using a(1) by (auto simp: fire_signature_issues_def signer_issues_Nil split: option.splits)
  ultimately have "fire_authentic x inp ctx s lo"
    using a(2-4) terms_issues_Nil [OF a(7)] pair_issues_Nil [OF a(6) lo]
    by (auto simp: fire_authentic_def size_issues_def notional_issues_def floor_issues_Nil
        split: if_splits option.splits)
  with that lo show ?thesis by blast
qed

text \<open>The market of the intent is the only one that trades its pair of tokens.\<close>

definition only_market :: "db \<Rightarrow> trading_ctx \<Rightarrow> bool" where
  "only_market d ctx \<longleftrightarrow> ctx_baseAddress ctx \<noteq> ctx_quoteAddress ctx \<and>
    (\<forall>m \<in> set (listMarketsBasic d).
      {to_lower (trim (mb_baseAddress m)), to_lower (trim (mb_quoteAddress m))} =
        {ctx_baseAddress ctx, ctx_quoteAddress ctx} \<longrightarrow> mb_id m = ctx_id ctx)"

lemma find_market_tokens:
  "find_market mt tt ms = Some m \<Longrightarrow> m \<in> set ms \<and>
    {to_lower (trim (mb_baseAddress m)), to_lower (trim (mb_quoteAddress m))} = {mt, tt}"
  using find_in [of _ ms m] by (auto simp: find_market_def Let_def)

lemma ctx_by_id:
  assumes "markets_ok d" and "getTradingContext d k = Inr ctx"
  shows "getTradingContext d (ctx_id ctx) = Inr ctx"
proof -
  obtain m where mem: "m \<in> set (d_markets d)" and c: "mk_id m = ctx_id ctx"
    and m: "find (\<lambda>m. mk_id m = k \<or> mk_symbol m = k) (d_markets d) = Some m"
    using ctx_of_market [OF assms(2)] by blast
  have "find (\<lambda>n. mk_id n = mk_id m \<or> mk_symbol n = mk_id m) (d_markets d) = Some m"
    using market_unique [OF assms(1) mem] mem by (intro find_unique) auto
  with m c have "getTradingContext d k = getTradingContext d (ctx_id ctx)"
    by (intro ctx_same_market) simp
  with assms(2) show ?thesis by simp
qed

lemma ctx_addresses_lower:
  "getTradingContext d k = Inr ctx \<Longrightarrow>
    to_lower (ctx_baseAddress ctx) = ctx_baseAddress ctx \<and> to_lower (ctx_quoteAddress ctx) = ctx_quoteAddress ctx"
  by (auto simp: getTradingContext_def split: option.splits)

lemma is_space_lower: "is_space (lower_char c) = is_space c"
  by (auto simp: is_space_def lower_char_def code_char_of)

lemma no_space_0x: "is_0x_hex n s \<Longrightarrow> c \<in> set s \<Longrightarrow> \<not> is_space c"
proof -
  assume h: "is_0x_hex n s" and c: "c \<in> set s"
  then have "s = ''0x'' @ drop 2 s" by (auto simp: is_0x_hex_def starts_with_two)
  with c consider "c \<in> set ''0x''" | "c \<in> set (drop 2 s)" by (metis UnE set_append)
  then show ?thesis
  proof cases
    case 1
    then show ?thesis by (auto simp: is_space_def code_def)
  next
    case 2
    with h show ?thesis
      by (auto simp: is_0x_hex_def all_digits_def is_digit_def digit_val_def is_space_def list_all_iff
          split: if_splits)
  qed
qed

lemma toLower_toAddr: "toLower (JStr (toAddr v)) = Inr (toAddr v)"
proof -
  have z: "is_0x_hex 40 zero_address" by code_simp
  have "\<not> is_space c" if "c \<in> set (toAddr v)" for c
    using that no_space_0x no_space_0x [OF z] is_space_lower
    by (auto simp: toAddr_def to_lower_def split: jval.splits if_splits)
  then have "trim (toAddr v) = toAddr v" by (intro trim_no_space ballI)
  then show ?thesis by (simp add: toLower_def to_lower_toAddr)
qed

lemma decided_market:
  assumes wf: "engine_wf e" and dec: "place_decide pe x rq e = Inr (mkt, sd, sz, px)"
    and rq: "pq_order rq = order_json lo" and lo: "sanitizeOrder raw = Inr lo"
    and ctx: "getTradingContext (eng_db e) k = Inr ctx" and only: "only_market (eng_db e) ctx"
    and rp: "right_pair ctx sd0 lo"
  shows "derive_terms ctx (lo_makerToken lo) (lo_takerToken lo) (lo_makerAmount lo) (lo_takerAmount lo) =
    Inr (sd, sz, px)"
proof -
  have tl: "toLower (JStr (lo_makerToken lo)) = Inr (lo_makerToken lo)"
    "toLower (JStr (lo_takerToken lo)) = Inr (lo_takerToken lo)"
    using toLower_toAddr sanitizeOrder_fields(1,2) [OF lo] by simp_all
  have j: "jget (pq_order rq) ''makerToken'' = JStr (lo_makerToken lo)"
    "jget (pq_order rq) ''takerToken'' = JStr (lo_takerToken lo)"
    "js_BigInt (jget (pq_order rq) ''makerAmount'') = Inr (lo_makerAmount lo)"
    "js_BigInt (jget (pq_order rq) ''takerAmount'') = Inr (lo_takerAmount lo)"
    by (simp_all add: rq order_json_def)
  obtain ctx' where f: "find_market (lo_makerToken lo) (lo_takerToken lo) (listMarketsBasic (eng_db e)) = Some mkt"
    and c': "getTradingContext (eng_db e) (mb_id mkt) = Inr ctx'"
    and d: "derive_terms ctx' (lo_makerToken lo) (lo_takerToken lo) (lo_makerAmount lo) (lo_takerAmount lo) = Inr (sd, sz, px)"
    using dec by (auto simp: place_decide_def Let_def j tl split: option.splits if_splits)
  have "{lo_makerToken lo, lo_takerToken lo} = {ctx_baseAddress ctx, ctx_quoteAddress ctx}"
    using rp ctx_addresses_lower [OF ctx] by (auto simp: right_pair_def split: side.splits)
  with find_market_tokens [OF f] only have "mb_id mkt = ctx_id ctx" by (auto simp: only_market_def)
  with c' ctx_by_id [OF _ ctx] wf have "ctx' = ctx" by (simp add: engine_wf_def)
  with d show ?thesis by simp
qed

lemma decided_terms:
  assumes "derive_terms ctx (lo_makerToken lo) (lo_takerToken lo) (lo_makerAmount lo) (lo_takerAmount lo) = Inr (sd, sz, px)"
    and ctx: "getTradingContext d k = Inr ctx" and only: "only_market d ctx"
    and rp: "right_pair ctx sd0 lo" and tm: "exact_terms ctx sd0 lo sz0 t0"
  shows "sd = sd0 \<and> sz = sz0 \<and> px = t0"
proof -
  have ne: "ctx_baseAddress ctx \<noteq> ctx_quoteAddress ctx" using only by (simp add: only_market_def)
  note low = ctx_addresses_lower [OF ctx]
  have unique: "exact_ticks n den = Inr q \<Longrightarrow> t0 * den = n \<Longrightarrow> q = t0" for n den q
    using exact_ticks_sound [of n den q] by (cases "den = 0") (auto simp: exact_ticks_def big_div_def)
  show ?thesis
  proof (cases sd0)
    case BUY
    with rp ne low assms(1) obtain q where q: "sd = BUY" "sz = lo_takerAmount lo" "px = q"
      "exact_ticks (lo_makerAmount lo * pow10 (ctx_baseDecimals ctx)) (lo_takerAmount lo * ctx_priceTickQ ctx) = Inr q"
      by (auto simp: derive_terms_def right_pair_def split: if_splits)
    with tm BUY unique [OF q(4)] show ?thesis by (simp add: exact_terms_def)
  next
    case SELL
    with rp ne low assms(1) obtain q where q: "sd = SELL" "sz = lo_makerAmount lo" "px = q"
      "exact_ticks (lo_takerAmount lo * pow10 (ctx_baseDecimals ctx)) (lo_makerAmount lo * ctx_priceTickQ ctx) = Inr q"
      by (auto simp: derive_terms_def right_pair_def split: if_splits)
    with tm SELL unique [OF q(4)] show ?thesis by (simp add: exact_terms_def)
  qed
qed

text \<open>The order a fired intent refers to, as it rests in the book.\<close>

definition rests :: "engine \<Rightarrow> string \<Rightarrow> side \<Rightarrow> int \<Rightarrow> int \<Rightarrow> string \<Rightarrow> bool" where
  "rests e h sd sz px maker \<longleftrightarrow>
    (\<exists>k b l. book_at e k = Some b \<and> find_level (\<lambda>l. lv_id l = h) b = Some l \<and>
       lv_side l = sd \<and> lv_sizeBase l = sz \<and> lv_priceTicks l = px \<and> lv_maker l = maker)"

lemma fired_order_rests:
  assumes wf: "engine_wf e" and lo: "sanitizeOrder (cl_preSignedOrder c) = Inr lo"
    and run: "place_order pe ch now (fire_request c lo sg oh) e = (Inr h, e')"
    and ctx: "getTradingContext (eng_db e) k = Inr ctx" and only: "only_market (eng_db e) ctx"
    and auth: "fire_authentic x (fire_input_of c sh dh) ctx s lo"
  shows "h = oh \<and> rests e' h (cl_side c) (cl_sizeBase c) (cl_limitPriceTicks c) (to_lower (cl_owner c))"
proof -
  obtain mkt sd sz px ctx' b l r st where d: "place_decide pe ch (fire_request c lo sg oh) e = Inr (mkt, sd, sz, px)"
    and h: "h = oh" and l: "book_at e' (mb_symbol mkt) = Some b" "find_level (\<lambda>l. lv_id l = h) b = Some l"
    "lv_side l = sd" "lv_sizeBase l = sz" "lv_priceTicks l = px" "lv_maker l = to_lower (to_lower (cl_owner c))"
    by (rule place_order_rests [OF wf run]) (auto simp: fire_request_def)
  have rp: "right_pair ctx (cl_side c) lo" "exact_terms ctx (cl_side c) lo (cl_sizeBase c) (cl_limitPriceTicks c)"
    using auth by (simp_all add: fire_authentic_def fire_input_of_def)
  have "derive_terms ctx (lo_makerToken lo) (lo_takerToken lo) (lo_makerAmount lo) (lo_takerAmount lo) = Inr (sd, sz, px)"
    by (rule decided_market [OF wf d _ lo ctx only rp(1)]) (simp add: fire_request_def)
  from decided_terms [OF this ctx only rp] l h show ?thesis by (auto simp: rests_def)
qed

text \<open>
  C22. Firing an active conditional limit settles it in one step, and only an authentic order is
  placed. Outside the read-only and mainnet profiles and with its market known, the intent ends
  \<open>PLACED\<close> or \<open>FAILED\<close>, never in between, with exactly one event of that kind and no other intent
  touched. When it is \<open>PLACED\<close>, the stored order is made by the owner, has exactly the intent's
  side, pair, size and limit price, meets the market's minima, its salt is not below the owner's
  cancel floor, its signature recovers to the owner (outside the skip mode), the row links its
  hash, and, when no other market trades the same pair, the order rests in the book under that
  hash on exactly those terms.
\<close>

theorem fire_settles:
  assumes wf: "engine_wf (sea_engine s)" and ids: "ids_ok (sea_intents s)"
    and act: "map_option it_status (intent_at (sea_intents s) (cl_id c)) = Some S_ACTIVE"
    and ctx: "getTradingContext (sea_db s) (cl_marketId c) = Inr ctx"
    and on: "\<not> read_only x" "\<not> mainnet x" and run: "fire x now c s = (res, s')"
  shows "res = Inr () \<and>
    (settled s s' (cl_id c) S_FAILED IE_FAILED \<or>
     settled s s' (cl_id c) S_PLACED IE_PLACED \<and>
     (\<exists>lo h r. sanitizeOrder (cl_preSignedOrder c) = Inr lo \<and>
       fire_authentic x (fire_input_of c (sig_hex_of c) (declared_hash_of c)) ctx s lo \<and>
       h = fire_order_hash x lo (declared_hash_of c) \<and>
       intent_at (sea_intents s') (cl_id c) = Some r \<and> it_linkedOrderHash r = Some (to_lower h) \<and>
       (only_market (sea_db s) ctx \<longrightarrow>
         rests (sea_engine s') h (cl_side c) (cl_sizeBase c) (cl_limitPriceTicks c) (to_lower (cl_owner c)))))"
proof -
  let ?i = "cl_id c" and ?inp = "fire_input_of c (sig_hex_of c) (declared_hash_of c)"
  let ?t = "transitionStatus (sx_decToString x) now ?i S_ACTIVE S_TRIGGERED None"
  let ?s1 = "snd (on_intents ?t s)"
  have hit: "fst (?t (sea_intents s)) \<noteq> None" using act shift_hit [OF ids] by simp
  have tr: "map_option it_status (intent_at (sea_intents ?s1) ?i) = Some S_TRIGGERED"
    unfolding on_intents_frame shift_status_at act by simp
  have fr: "settled ?s1 s' ?i st ty = settled s s' ?i st ty" for st ty
    by (simp add: settled_def shift_other cong: conj_cong)
  have fl: "fire_authentic x inp ctx ?s1 lo = fire_authentic x inp ctx s lo" for inp lo
    by (simp add: fire_authentic_def)
  show ?thesis
  proof (cases "validateAtFire x ?inp ctx ?s1")
    case (Inl e)
    then have "(res, s') = failIntent x now ?i
        (case firstIssueCode e of Some cd \<Rightarrow> cd | None \<Rightarrow> ''fire_validation_failed'') (errPayload e) ?s1"
      using run hit ctx on by (simp add: fire_def case_prod_unfold Let_def)
    with failIntent_settles [OF tr, of x now] fr show ?thesis by (metis fst_conv snd_conv)
  next
    case (Inr u)
    then have "validateAtFire x ?inp ctx ?s1 = Inr ()" by simp
    then obtain lo where lo: "sanitizeOrder (cl_preSignedOrder c) = Inr lo" "fire_authentic x ?inp ctx s lo"
      by (rule validateAtFire_authentic) (auto simp: fl fire_input_of_def)
    have f: "fire_place x now c ?s1 = (res, s')"
      using run hit ctx on Inr by (simp add: fire_def case_prod_unfold Let_def)
    have res: "res = Inr ()" using fire_place_settles [OF tr lo(1), of x now] by (simp add: f)
    from fire_place_settles [OF tr lo(1), of x now, unfolded f fr snd_conv]
    show ?thesis
    proof (elim conjE disjE exE)
      fix sg h e' r
      assume *: "settled s s' ?i S_PLACED IE_PLACED" "sea_engine s' = e'"
        "intent_at (sea_intents s') ?i = Some r" "it_linkedOrderHash r = Some (to_lower h)"
        and p: "place_order (sx_env x) (sx_chain x) now
          (fire_request c lo sg (fire_order_hash x lo (declared_hash_of c))) (sea_engine ?s1) = (Inr h, e')"
      have p': "place_order (sx_env x) (sx_chain x) now
          (fire_request c lo sg (fire_order_hash x lo (declared_hash_of c))) (sea_engine s) = (Inr h, e')"
        using p by simp
      have h: "h = fire_order_hash x lo (declared_hash_of c)"
        using place_order_ok [OF p'] by (metis fire_request_def place_request.select_convs(3))
      have "only_market (sea_db s) ctx \<longrightarrow>
          rests (sea_engine s') h (cl_side c) (cl_sizeBase c) (cl_limitPriceTicks c) (to_lower (cl_owner c))"
        using fired_order_rests [OF wf lo(1) p' ctx _ lo(2)] *(2) by blast
      with * lo h res show ?thesis by blast
    qed (use res in simp)
  qed
qed

section \<open>A sample fire\<close>

definition sample_cl_row :: intent_row where
  "sample_cl_row = new_intent_row 10 ''i2'' (create_input_of sample_cl_body ''m1'' (Some 5000000)) 5000000"

definition sample_armed :: sea where
  "sample_armed = sea_sample\<lparr>sea_intents := [sample_cl_row]\<rparr>"

definition sample_cl :: cl_candidate where
  "sample_cl =
    \<lparr>cl_id = ''i2'', cl_owner = hex_addr CHR ''a'', cl_marketId = ''m1'', cl_marketSymbol = ''B-Q'',
     cl_side = SELL, cl_sizeBase = 30, cl_limitPriceTicks = 7, cl_triggerType = PRICE_ABOVE,
     cl_triggerReference = BEST_BID, cl_triggerPriceTicks = 5, cl_preSignedOrder = sample_order,
     cl_preSignedSignature = it_preSignedSignature sample_cl_row,
     cl_preSignedOrderHash = it_preSignedOrderHash sample_cl_row, cl_expiresAt = 5000000\<rparr>"

lemma sample_cl_read: "findActiveCLIntents big_to_string 20 100 (sea_db sample_armed) (sea_intents sample_armed) = Inr [sample_cl]"
  by code_simp

lemma sample_armed_ok:
  "engine_wf (sea_engine sample_armed)" "ids_ok (sea_intents sample_armed)"
  "map_option it_status (intent_at (sea_intents sample_armed) (cl_id sample_cl)) = Some S_ACTIVE"
  "getTradingContext (sea_db sample_armed) (cl_marketId sample_cl) = Inr sample_ctx"
  "\<not> read_only sample_sx" "\<not> mainnet sample_sx"
  by (simp add: engine_wf_def sample_armed_def sea_sample_def markets_ok_def engine_ok_def sea_market_def) code_simp+

lemma sample_fires:
  "map_option it_status (intent_at (sea_intents (snd (fire sample_sx 20 sample_cl sample_armed))) ''i2'') = Some S_PLACED"
  by code_simp

lemma sample_only_market: "only_market (sea_db sample_armed) sample_ctx"
  by (simp add: only_market_def sample_armed_def sea_sample_def listMarketsBasic_def sea_market_def sample_ctx_def hex_addr_def)

theorem fire_settles_witness:
  "\<exists>h. rests (sea_engine (snd (fire sample_sx 20 sample_cl sample_armed))) h SELL 30 7 (to_lower (hex_addr CHR ''a''))"
proof -
  let ?f = "fire sample_sx 20 sample_cl sample_armed"
  have e: "?f = (fst ?f, snd ?f)" by simp
  have "\<not> settled sample_armed (snd ?f) (cl_id sample_cl) S_FAILED IE_FAILED"
    using sample_fires by (auto simp: settled_def sample_cl_def)
  with fire_settles [OF sample_armed_ok e] sample_only_market show ?thesis
    by (auto simp: sample_cl_def)
qed

end
