(* ===== verification/CreateToFire.thy ===== *)
theory CreateToFire
  imports IntentFire
begin

text \<open>
  The agreement of the two validations: what \<open>validateAtCreate\<close> accepted and the repository
  stored passes \<open>validateAtFire\<close> as long as the market, the environment and the floors are the
  same, although the owner, the hash and the signature are stored in lower case and the amounts
  go through the database's decimal columns.
\<close>

section \<open>Decimal strings\<close>

lemma str_to_bigint_digits:
  assumes "all_digits 10 s"
  shows "str_to_bigint s = Inr (digits_val 10 s)"
proof -
  have d: "\<forall>c \<in> set s. 48 \<le> code c \<and> code c \<le> 57"
    using assms by (auto simp: all_digits_def list_all_iff is_digit_def digit_val_def Let_def split: if_splits)
  then have "trim s = s" using digit_not_space by (intro trim_no_space) blast
  moreover have "s \<noteq> []" using assms by (simp add: all_digits_def)
  ultimately show ?thesis using radix_literal_digits [OF d] assms by (simp add: str_to_bigint_def)
qed

section \<open>The signature bytes\<close>

lemma digit_val_lower: "digit_val 16 (lower_char c) = digit_val 16 c"
  by (auto simp: digit_val_def lower_char_def Let_def code_char_of)

lemma is_digit_lower: "is_digit 16 (lower_char c) = is_digit 16 c"
  by (simp add: is_digit_def digit_val_lower)

lemma buffer_roundtrip:
  "even (length s) \<Longrightarrow> list_all (is_digit 16) s \<Longrightarrow>
    concat (map byte_to_hex (buffer_from_hex s)) = to_lower s"
proof (induction s rule: buffer_from_hex.induct)
  case (1 a b s)
  obtain x y where xy: "digit_val 16 a = Some x" "digit_val 16 b = Some y"
    using 1(3) by (auto simp: is_digit_def)
  have "byte_to_hex (word_of_int (16 * x + y)) = [lower_char a, lower_char b]"
    using byte_to_hex_to_byte [of a b] 1(3) to_byte_pair [OF xy] by simp
  with 1 xy show ?case by (simp add: to_lower_def)
qed (auto simp: to_lower_def)

text \<open>The stored signature reads as the submitted one, in lower case.\<close>

definition lower_sig :: "zx_sig \<Rightarrow> zx_sig" where
  "lower_sig sg = sg\<lparr>zs_r := to_lower (zs_r sg), zs_s := to_lower (zs_s sg)\<rparr>"

lemma lower_sig_fields [simp]:
  "zs_signatureType (lower_sig sg) = zs_signatureType sg" "zs_v (lower_sig sg) = zs_v sg"
  "zs_r (lower_sig sg) = to_lower (zs_r sg)" "zs_s (lower_sig sg) = to_lower (zs_s sg)"
  by (cases sg; simp add: lower_sig_def)+

lemma parse_int_hex_lower:
  "is_digit 16 a \<Longrightarrow> is_digit 16 b \<Longrightarrow>
    parse_int 16 [lower_char a, lower_char b] = parse_int 16 [a, b]"
  using parse_int_hex_pair by (auto simp: is_digit_def digit_val_lower)

lemma lower_0x [simp]: "to_lower (CHR ''0'' # CHR ''x'' # s) = CHR ''0'' # CHR ''x'' # to_lower s"
  by (simp add: to_lower_def lower_char_def code_def)

lemma two_last:
  assumes "length s = 130"
  obtains a b where "js_slice 128 130 s = [a, b]" "a \<in> set s" "b \<in> set s"
proof -
  have l: "length (drop 128 s) = 2" using assms by simp
  obtain a b where ab: "drop 128 s = [a, b]"
    using l by (cases "drop 128 s"; cases "tl (drop 128 s)") auto
  have "js_slice 128 130 s = [a, b]" using ab assms by (simp add: js_slice_def)
  moreover have "a \<in> set s" "b \<in> set s" using ab by (metis in_set_dropD list.set_intros)+
  ultimately show ?thesis using that by blast
qed

lemma parseSig_lower:
  assumes "list_all (is_digit 16) s" and "length s = 130"
  shows "parseSigHexToTuple (''0x'' @ to_lower s) = map_option lower_sig (parseSigHexToTuple (''0x'' @ s))"
proof -
  obtain a b where ab: "js_slice 128 130 s = [a, b]" "a \<in> set s" "b \<in> set s"
    using two_last [OF assms(2)] .
  have v: "parse_int 16 (js_slice 128 130 (to_lower s)) = parse_int 16 (js_slice 128 130 s)"
    using ab parse_int_hex_lower [of a b] assms(1) by (simp add: js_slice_def to_lower_def list_all_iff take_map drop_map)
  show ?thesis
    using assms(2) v by (simp add: parseSigHexToTuple_def strip_0x_def lower_sig_def Let_def js_slice_def
        to_lower_take to_lower_drop)
qed

section \<open>The stored intent\<close>

text \<open>Address recovery reads \<open>r\<close> and \<open>s\<close> as hexadecimal numbers, in any letter case.\<close>

definition recover_any_case :: "zx_ext \<Rightarrow> bool" where
  "recover_any_case zx \<longleftrightarrow>
    (\<forall>d v r s. zx_recoverAddress zx d v (to_lower r) (to_lower s) = zx_recoverAddress zx d v r s)"

text \<open>A typed-data hash is never the empty string.\<close>

definition hash_not_empty :: "zx_ext \<Rightarrow> bool" where
  "hash_not_empty zx \<longleftrightarrow> (\<forall>c ep lo h. zx_typedDataHash zx c ep lo = Inr h \<longrightarrow> h \<noteq> [])"

lemma verify_lower:
  "recover_any_case zx \<Longrightarrow> verifySignature zx cfg ch v (lower_sig sg) = verifySignature zx cfg ch v sg"
  by (simp add: verifySignature_def recover_any_case_def cong: if_cong)

lemma signature_issues_agree:
  assumes "create_signature_issues x body lo = Inr []" and "recover_any_case (sx_zx x)"
    and "opt_all HEX_BYTES_RE (cb_signature body)"
    and "fr_owner inp = to_lower (cb_owner body)"
    and "fr_signatureHex inp = (case signature_bytes (cb_signature body) of
           Some b \<Rightarrow> fire_bytesToHex b | None \<Rightarrow> [])"
  shows "fire_signature_issues x inp lo = Inr []"
proof -
  obtain sh where sh: "cb_signature body = Some sh" and nb: "sh \<noteq> []"
    using assms(1) by (cases "cb_signature body") (auto simp: create_signature_issues_def blank_def split: if_splits)
  obtain sg where sg: "parseSigHexToTuple sh = Some sg"
    and ok: "signer_issues (verifySignature (sx_zx x) (sx_cfg x) (getChainIdFromEnv (sx_env x)) (order_json lo) sg)
      (cb_owner body) = Inr []"
    using assms(1) sh nb by (auto simp: create_signature_issues_def blank_def split: option.splits)
  obtain t where t: "sh = CHR ''0'' # CHR ''x'' # t" and hex: "list_all (is_digit 16) t"
    using assms(3) sh by (auto simp: opt_all_def HEX_BYTES_RE_def starts_with_two all_digits_def)
  have len: "length t = 130"
    using sg t by (auto simp: parseSigHexToTuple_def strip_0x_def Let_def split: if_splits)
  have "fr_signatureHex inp = ''0x'' @ to_lower t"
    using buffer_roundtrip [of t] hex len assms(5) sh t
    by (simp add: signature_bytes_def fire_bytesToHex_def)
  then have "parseSigHexToTuple (fr_signatureHex inp) = Some (lower_sig sg)"
    using parseSig_lower [OF hex len] sg t by simp
  with ok show ?thesis
    by (simp add: fire_signature_issues_def verify_lower [OF assms(2)] signer_issues_Nil assms(4))
qed

lemma stored_candidate:
  assumes "cl_candidate_of ts d (new_intent_row now i (create_input_of body marketId (Some ex)) ex) = Inr c"
    and "is_CL (cb_intent body)" and "str_to_bigint (ts sz) = Inr sz"
    and "digits_val 10 (si_sizeBase (cb_intent body)) = sz"
  shows "cl_owner c = to_lower (cb_owner body)" "cl_side c = si_side (cb_intent body)" "cl_sizeBase c = sz"
    "cl_limitPriceTicks c = digits_val 10 (si_limitPriceTicks (cb_intent body))"
    "cl_preSignedOrder c = (if jnullish (cb_zeroExOrder body) then JNull else cb_zeroExOrder body)"
    "cl_preSignedSignature c = signature_bytes (cb_signature body)"
    "cl_preSignedOrderHash c = (if blank (cb_preSignedOrderHash body) then None
       else map_option to_lower (cb_preSignedOrderHash body))" "cl_expiresAt c = ex"
  using assms
  by (auto simp: cl_candidate_of_def new_intent_row_def create_input_of_def Let_def)

lemma sanitize_stored: "sanitizeOrder (if jnullish v then JNull else v) = sanitizeOrder v"
  by (cases v) (simp_all add: sanitizeOrder_def)

lemma invariants_CL:
  assumes "validateCreateIntentBodyInvariants body = []" and "is_CL (cb_intent body)"
  shows "\<not> blank (cb_preSignedOrderHash body)" "\<not> blank (cb_signature body)"
  using assms by (auto simp: validateCreateIntentBodyInvariants_def Let_def split: if_splits)

text \<open>
  C23. What was accepted passes again at fire time. Take a conditional limit that
  \<open>validateAtCreate\<close> accepted and the row the service stores for it, read back by the monitor. If
  the cancel floors and the set of order hashes have not grown against it, the fire-time
  validation of that row raises no issue in the same market, environment and expiry, so a fire
  can only fail for a reason that arose in between or in the placement. The parameters must read
  hexadecimal in any letter case, give no empty hash, and print the size so that it reads back.
\<close>

theorem created_passes_fire:
  assumes acc: "validateAtCreate x body ctx (Some ex) s = Inr ()" and cl: "is_CL (cb_intent body)"
    and sch: "createIntentBodySchema body"
    and stored: "cl_candidate_of (sx_decToString x) d
      (new_intent_row now i (create_input_of body marketId (Some ex)) ex) = Inr c"
    and dec: "\<And>sz. str_to_bigint (si_sizeBase (cb_intent body)) = Inr sz \<Longrightarrow>
      str_to_bigint (sx_decToString x sz) = Inr sz"
    and zx: "recover_any_case (sx_zx x)" "hash_not_empty (sx_zx x)"
    and later: "\<And>k. stored_floor (sea_floors s') k = stored_floor (sea_floors s) k"
      "\<And>h. orderHashExists (sea_db s') h \<Longrightarrow> orderHashExists (sea_db s) h"
  shows "validateAtFire x (fire_input_of c (sig_hex_of c) (declared_hash_of c)) ctx s' = Inr ()"
proof -
  obtain lo sz lt h where a: "str_to_bigint (si_sizeBase (cb_intent body)) = Inr sz"
    "str_to_bigint (si_limitPriceTicks (cb_intent body)) = Inr lt"
    "sanitizeOrder (cb_zeroExOrder body) = Inr lo"
    "validateCreateIntentBodyInvariants body = []" "size_issues ctx sz = []"
    "notional_issues ctx lt sz = []"
    "dev_skip x \<or> create_signature_issues x body lo = Inr []"
    "computed_hash x lo = ([], h)"
    "create_hash_issues body h = []" "maker_issues lo (cb_owner body) = []"
    "pair_issues ctx (si_side (cb_intent body)) lo = []"
    "terms_issues ctx (si_side (cb_intent body)) lo sz lt = []"
    "expiry_issues (sx_env x) lo (Some ex) = []"
    "lookup_issues body h (sea_db s) (sea_intents s) = []"
    "runCancelPairFloorCheck x (cb_owner body) (lo_makerToken lo) (lo_takerToken lo) (lo_salt lo)
       (sea_floors s) = Inr []"
    using acc cl by (rule validateAtCreate_CL)
  note nb = invariants_CL [OF a(4) cl]
  have dg: "all_digits 10 (si_sizeBase (cb_intent body))" "all_digits 10 (si_limitPriceTicks (cb_intent body))"
    using sch cl by (cases "cb_intent body"; simp add: createIntentBodySchema_def NON_NEG_INT_RE_def)+
  have v: "digits_val 10 (si_sizeBase (cb_intent body)) = sz" "digits_val 10 (si_limitPriceTicks (cb_intent body)) = lt"
    using a(1,2) str_to_bigint_digits [OF dg(1)] str_to_bigint_digits [OF dg(2)] by simp_all
  note st = stored_candidate [OF stored cl dec [OF a(1)] v(1)]
  let ?inp = "fire_input_of c (sig_hex_of c) (declared_hash_of c)"
  have dh: "fr_preSignedOrderHash ?inp = to_lower (the (cb_preSignedOrderHash body))"
    "to_lower (the (cb_preSignedOrderHash body)) \<noteq> []"
    using nb(1) st(7) by (auto simp: fire_input_of_def declared_hash_of_def blank_def to_lower_def split: option.splits)
  have sig: "dev_skip x \<or> fire_signature_issues x ?inp lo = Inr []"
    using a(7) signature_issues_agree [OF _ zx(1), of body lo ?inp] sch st(1,6)
    by (auto simp: createIntentBodySchema_def fire_input_of_def sig_hex_of_def)
  have h: "h = None \<or> (\<exists>g. h = Some g \<and> g \<noteq> [])"
    using a(8) zx(2) by (auto simp: computed_hash_def getOrderHash_def hash_not_empty_def split: if_splits sum.splits)
  have hash: "fire_hash_issues ?inp h = []"
    using a(9) h nb(1) dh by (auto simp: fire_hash_issues_def create_hash_issues_def blank_def split: if_splits)
  have look: "fire_lookup_issues ?inp h (sea_db s') = []"
    using a(14) h nb(1) dh later(2)
    by (auto simp: fire_lookup_issues_def lookup_issues_def blank_def split: if_splits option.splits)
  have floor: "runCancelPairFloorCheck x (fr_owner ?inp) (lo_makerToken lo) (lo_takerToken lo) (lo_salt lo)
       (sea_floors s') = Inr []"
    using a(15) st(1) by (simp add: floor_issues_Nil later(1) fire_input_of_def)
  have rest: "fire_issues x ?inp ctx s' = Inr []"
    using a(3,5,6,8,10-13) sig hash look floor st v
    by (auto simp: fire_issues_def fire_input_of_def sanitize_stored maker_issues_def)
  then show ?thesis by (simp add: validateAtFire_def)
qed

theorem created_passes_fire_witness:
  "validateAtFire sample_sx (fire_input_of sample_cl (sig_hex_of sample_cl) (declared_hash_of sample_cl))
     sample_ctx sample_armed = Inr ()"
proof (rule created_passes_fire [OF sample_cl_accepted])
  show "is_CL (cb_intent sample_cl_body)" "createIntentBodySchema sample_cl_body"
    "cl_candidate_of (sx_decToString sample_sx) (sea_db sample_armed)
      (new_intent_row 10 ''i2'' (create_input_of sample_cl_body ''m1'' (Some 5000000)) 5000000) = Inr sample_cl"
    by code_simp+
  show "str_to_bigint (sx_decToString sample_sx sz) = Inr sz" for sz by (simp add: sample_sx_def)
  show "recover_any_case (sx_zx sample_sx)" "hash_not_empty (sx_zx sample_sx)"
    by (simp_all add: sample_sx_def sample_zx_def recover_any_case_def hash_not_empty_def)
  show "stored_floor (sea_floors sample_armed) k = stored_floor (sea_floors sea_sample) k" for k
    by (simp add: sample_armed_def)
  show "orderHashExists (sea_db sample_armed) h \<Longrightarrow> orderHashExists (sea_db sea_sample) h" for h
    by (simp add: sample_armed_def)
qed

end
