(* ===== verification/IntentMonitor.thy ===== *)
theory IntentMonitor
  imports CreateToFire
begin

text \<open>
  \<open>apps/api/src/sea/intent-monitor.service.ts\<close>, \<open>intent-expiry-sweeper.service.ts\<close> and
  \<open>intent-executing-sweeper.service.ts\<close>: their configuration from the environment and one tick of
  each. A tick runs on one reading of the clock and is not interleaved with the other writers;
  what a per-intent \<open>catch\<close> swallows leaves the writes made before the exception.
\<close>

section \<open>Configuration\<close>

definition ranged_env :: "penv \<Rightarrow> string \<Rightarrow> (rat \<Rightarrow> bool) \<Rightarrow> rat \<Rightarrow> rat" where
  "ranged_env pe key ok dflt = (case env_num pe key of Fin q \<Rightarrow> if ok q then q else dflt | _ \<Rightarrow> dflt)"

record monitor_cfg =
  mc_enabled :: bool
  mc_cmrEnabled :: bool
  mc_intervalMs :: rat
  mc_limitPerTick :: rat
  mc_bootDelayMs :: rat
  mc_rearmCooldownSec :: int

definition new_monitor :: "penv \<Rightarrow> monitor_cfg" where
  "new_monitor pe =
    (let enabled = env_is pe ''SEA_MONITOR_ENABLED'' ''1'' in
     \<lparr>mc_enabled = enabled, mc_cmrEnabled = (enabled \<and> env_is pe ''SEA_CMR_PREPARE_ENABLED'' ''1''),
      mc_intervalMs = ranged_env pe ''SEA_MONITOR_INTERVAL_MS'' (\<lambda>q. q \<ge> 250) 1000,
      mc_limitPerTick = ranged_env pe ''SEA_MONITOR_LIMIT_PER_TICK'' (\<lambda>q. q > 0 \<and> q \<le> 500) 100,
      mc_bootDelayMs = ranged_env pe ''SEA_MONITOR_BOOT_DELAY_MS'' (\<lambda>q. q > 0) 0,
      mc_rearmCooldownSec =
        (case env_num pe ''SEA_CMR_REARM_COOLDOWN_SECS'' of
           Fin q \<Rightarrow> if q \<ge> 0 then min 60 (max 0 \<lfloor>q\<rfloor>) else 5
         | _ \<Rightarrow> 5)\<rparr>)"

text \<open>Whether a service starts its timer.\<close>

definition starts :: "sea_ext \<Rightarrow> bool \<Rightarrow> bool" where
  "starts x enabled \<longleftrightarrow> enabled \<and> \<not> read_only x \<and> \<not> mainnet x"

section \<open>The monitor's tick\<close>

text \<open>The loop over the fetched rows: an exception ends the row, not the loop.\<close>

fun each_row :: "('a \<Rightarrow> sea \<Rightarrow> unit result \<times> sea) \<Rightarrow> 'a list \<Rightarrow> sea \<Rightarrow> sea" where
  "each_row f [] s = s"
| "each_row f (r # rs) s = each_row f rs (snd (f r s))"

definition cl_one :: "sea_ext \<Rightarrow> int \<Rightarrow> cl_candidate \<Rightarrow> sea \<Rightarrow> unit result \<times> sea" where
  "cl_one x now c s =
    (case readReferenceTicks (cl_marketSymbol c) (cl_triggerReference c) (sea_engine s) of
       Inl e \<Rightarrow> (Inl e, s)
     | Inr None \<Rightarrow> (Inr (), s)
     | Inr (Some refTicks) \<Rightarrow>
         if \<not> triggerSatisfied (cl_triggerType c) refTicks (cl_triggerPriceTicks c) then (Inr (), s)
         else fire x now c s)"

definition tickCL :: "sea_ext \<Rightarrow> int \<Rightarrow> monitor_cfg \<Rightarrow> sea \<Rightarrow> unit result \<times> sea" where
  "tickCL x now cfg s =
    (case findActiveCLIntents (sx_decToString x) now (mc_limitPerTick cfg) (sea_db s) (sea_intents s) of
       Inl e \<Rightarrow> (Inl e, s)
     | Inr rows \<Rightarrow> (Inr (), each_row (cl_one x now) rows s))"

definition tickCMRActive :: "sea_ext \<Rightarrow> int \<Rightarrow> monitor_cfg \<Rightarrow> sea \<Rightarrow> unit result \<times> sea" where
  "tickCMRActive x now cfg s =
    (case findActiveCMRIntents (sx_decToString x) now (mc_limitPerTick cfg) (sea_db s) (sea_intents s) of
       Inl e \<Rightarrow> (Inl e, s)
     | Inr rows \<Rightarrow> (Inr (), each_row (evaluateAndPrepare x now) rows s))"

definition rearmWithCooldown :: "int \<Rightarrow> monitor_cfg \<Rightarrow> string \<Rightarrow> string \<Rightarrow> sea \<Rightarrow> unit result \<times> sea" where
  "rearmWithCooldown now cfg i reason s =
    (let (ok, s1) = on_intents (rearmFromReady now i (now + mc_rearmCooldownSec cfg * 1000)) s in
     if ok then append_event_sea i IE_PROGRESS (JObj
            [(''from'', JStr ''READY''), (''to'', JStr ''ACTIVE''), (''reason'', JStr reason),
             (''cooldownSec'', JNum (num (mc_rearmCooldownSec cfg)))]) s1
     else (Inr (), s1))"

definition ready_one :: "int \<Rightarrow> monitor_cfg \<Rightarrow> ready_row \<Rightarrow> sea \<Rightarrow> unit result \<times> sea" where
  "ready_one now cfg r s =
    (if now > rr_expiresAt r then
       (let (ok, s1) = on_intents (markExpiredFromReady now (rr_id r) ''intent_expired_by_ts'') s in
        if ok then append_event_sea (rr_id r) IE_EXPIRED (JObj
               [(''from'', JStr ''READY''), (''reason'', JStr ''past_expiresAt'')]) s1
        else (Inr (), s1))
     else if (case rr_walletLockUntilAt r of
                None \<Rightarrow> False | Some w \<Rightarrow> w + CMR_EXECUTING_MARK_GRACE_SEC * 1000 > now)
     then (Inr (), s)
     else
       let ttlSec = readTtlSecFromSnapshot (rr_preparedQuote r);
           preparedAtMs = (case rr_preparedQuoteAt r of Some p \<Rightarrow> p | None \<Rightarrow> 0)
       in if preparedAtMs = 0 then rearmWithCooldown now cfg (rr_id r) ''missing_preparedQuoteAt'' s
          else if now > preparedAtMs + ttlSec * 1000
          then rearmWithCooldown now cfg (rr_id r) ''ready_ttl_expired'' s
          else (Inr (), s))"

definition tickCMRReady :: "int \<Rightarrow> monitor_cfg \<Rightarrow> sea \<Rightarrow> unit result \<times> sea" where
  "tickCMRReady now cfg s =
    (case findReadyCMRIntents (mc_limitPerTick cfg) (sea_intents s) of
       Inl e \<Rightarrow> (Inl e, s)
     | Inr rows \<Rightarrow> (Inr (), each_row (ready_one now cfg) rows s))"

definition monitor_tick :: "sea_ext \<Rightarrow> int \<Rightarrow> monitor_cfg \<Rightarrow> sea \<Rightarrow> unit result \<times> sea" where
  "monitor_tick x now cfg s =
    andthen (tickCL x now cfg s) (\<lambda>_ s1.
      if mc_cmrEnabled cfg
      then andthen (tickCMRActive x now cfg s1) (\<lambda>_ s2. tickCMRReady now cfg s2)
      else (Inr (), s1))"

section \<open>The sweepers\<close>

record sweeper_cfg =
  sw_enabled :: bool
  sw_intervalMs :: rat
  sw_limitPerTick :: rat
  sw_staleThresholdMs :: rat

definition new_expiry_sweeper :: "penv \<Rightarrow> sweeper_cfg" where
  "new_expiry_sweeper pe =
    \<lparr>sw_enabled = (env_or_nullish pe ''SEA_INTENT_EXPIRY_ENABLED'' ''1'' = ''1''),
     sw_intervalMs = ranged_env pe ''SEA_INTENT_EXPIRY_INTERVAL_MS'' (\<lambda>q. q \<ge> 1000) 30000,
     sw_limitPerTick = ranged_env pe ''SEA_INTENT_EXPIRY_LIMIT_PER_TICK'' (\<lambda>q. q > 0 \<and> q \<le> 500) 100,
     sw_staleThresholdMs = 0\<rparr>"

definition new_executing_sweeper :: "penv \<Rightarrow> sweeper_cfg" where
  "new_executing_sweeper pe =
    \<lparr>sw_enabled = env_is pe ''SEA_EXECUTING_SWEEP_ENABLED'' ''1'',
     sw_intervalMs = ranged_env pe ''SEA_EXECUTING_SWEEP_INTERVAL_MS'' (\<lambda>q. q \<ge> 1000) 30000,
     sw_limitPerTick = ranged_env pe ''SEA_EXECUTING_SWEEP_LIMIT_PER_TICK'' (\<lambda>q. q > 0 \<and> q \<le> 500) 100,
     sw_staleThresholdMs = ranged_env pe ''SEA_EXECUTING_STALE_MIN'' (\<lambda>q. q \<ge> 1 \<and> q \<le> 1440) 10 * 60000\<rparr>"

text \<open>One event per id the repository moved; what an append throws is logged.\<close>

definition report_each :: "intent_event_type \<Rightarrow> string \<Rightarrow> string list \<Rightarrow> sea \<Rightarrow> sea" where
  "report_each ty reason ids s =
    each_row (\<lambda>i. append_event_sea i ty (JObj [(''reason'', JStr reason)])) ids s"

definition expiry_sweeper_tick :: "int \<Rightarrow> sweeper_cfg \<Rightarrow> sea \<Rightarrow> unit result \<times> sea" where
  "expiry_sweeper_tick now cfg s =
    andthen (on_intents (expireDueIntents now (sw_limitPerTick cfg)) s)
      (\<lambda>ids s1. (Inr (), report_each IE_EXPIRED ''intent_expired_by_ts'' ids s1))"

definition executing_sweeper_tick :: "int \<Rightarrow> sweeper_cfg \<Rightarrow> sea \<Rightarrow> unit result \<times> sea" where
  "executing_sweeper_tick now cfg s =
    andthen (on_intents (sweepStaleExecuting now (sw_limitPerTick cfg) (sw_staleThresholdMs cfg)) s)
      (\<lambda>ids s1. (Inr (), report_each IE_FAILED ''stale_pending'' ids s1))"

end
