(* ===== verification/SeaRefinement.thy ===== *)
theory SeaRefinement
  imports IntentMonitor
begin

text \<open>
  The SEA services as a refinement of the intent life cycle: every request handler, the monitor's
  tick and the two sweepers change the \<open>Intent\<close> table by a sequence of steps of the abstract
  machine only, with the other writers running between the read and the write of a handler, and
  keep the order book well formed.
\<close>

section \<open>Sequences of steps\<close>

abbreviation intent_steps :: "db \<Rightarrow> intents \<Rightarrow> intents \<Rightarrow> bool" where
  "intent_steps d \<equiv> (intent_step d)\<^sup>*\<^sup>*"

lemma market_by_id_markets: "d_markets d' = d_markets d \<Longrightarrow> market_by_id d' = market_by_id d"
  by (rule ext) (simp add: market_by_id_def)

lemma step_db: "intent_step d t t' \<Longrightarrow> d_markets d' = d_markets d \<Longrightarrow> intent_step d' t t'"
proof (induction rule: intent_step.induct)
  case (created ts now i inp t dto t')
  have "intent_row_fits d' = intent_row_fits d"
    using market_by_id_markets [OF created(3)] by (simp add: fun_eq_iff intent_row_fits_def)
  then have "create_intent ts now i inp d' t = create_intent ts now i inp d t"
    by (simp only: create_intent_def)
  with created show ?case by (metis intent_step.created)
qed (auto intro: intent_step.intros)

lemma steps_db: "intent_steps d t t' \<Longrightarrow> d_markets d' = d_markets d \<Longrightarrow> intent_steps d' t t'"
  by (induction rule: rtranclp_induct) (auto intro: rtranclp.rtrancl_into_rtrancl step_db)

text \<open>What a sequence of steps keeps of a row: its identity, its type and its expiry.\<close>

lemma steps_keep_row:
  assumes "intent_steps d t t'" and "rows_ok t" and "intent_at t k = Some r"
  obtains r' where "intent_at t' k = Some r'" "it_type r' = it_type r" "it_expiresAt r' = it_expiresAt r"
  using steps_history [OF assms] that by (auto simp: terms_of_def trigger_of_def)

lemma steps_keep_rows: "intent_steps d t t' \<Longrightarrow> rows_ok t \<Longrightarrow> rows_ok t'"
proof (induction rule: rtranclp_induct)
  case (step u t')
  then show ?case using step_keeps by (auto simp: keeps_def)
qed

lemma one_step: "intent_step d t t' \<Longrightarrow> intent_steps d t t'"
  by (rule r_into_rtranclp)

section \<open>The order book under a placement\<close>

lemma place_markets:
  assumes "engine_wf e"
  shows "d_markets (eng_db (snd (place now p e))) = d_markets (eng_db e)"
proof (cases "getTradingContext (eng_db e) (pl_marketId p)")
  case (Inr rules)
  obtain r e' where pc: "place_core now rules p e = (r, e')" by fastforce
  have "place_checks rules p = None \<Longrightarrow> 0 \<le> pl_sizeBase p"
    by (auto simp: place_checks_def split: if_splits)
  with place_core_book [OF assms Inr _ pc] Inr pc show ?thesis
    by (auto simp: place_def split: option.splits)
qed (simp add: place_def)

lemma engine_wf_db: "engine_wf e \<Longrightarrow> d_markets d = d_markets (eng_db e) \<Longrightarrow> engine_wf (e\<lparr>eng_db := d\<rparr>)"
  by (simp add: engine_wf_def engine_ok_def markets_ok_def)

lemma attachRawToOrder_markets: "d_markets (snd (attachRawToOrder h ord sg d)) = d_markets d"
  by (auto simp: attachRawToOrder_def Let_def split: option.splits sum.splits)

definition keeps_engine :: "engine \<Rightarrow> engine \<Rightarrow> bool" where
  "keeps_engine e e' \<longleftrightarrow> (engine_wf e \<longrightarrow> engine_wf e' \<and> d_markets (eng_db e') = d_markets (eng_db e))"

lemma keeps_engine_trans: "keeps_engine e e1 \<Longrightarrow> keeps_engine e1 e2 \<Longrightarrow> keeps_engine e e2"
  by (simp add: keeps_engine_def)

lemma keeps_engine_refl [simp]: "keeps_engine e e"
  by (simp add: keeps_engine_def)

lemma persist_raw_keeps: "keeps_engine e (snd (persist_raw k rq e))"
proof (cases "engine_wf e")
  case True
  obtain r1 e1 where at: "attachRaw k (pq_orderHash rq) (pq_order rq) (pq_signature rq) e = (r1, e1)" by fastforce
  note ae = attachRaw_engine [OF True, of k "pq_orderHash rq" "pq_order rq" "pq_signature rq", unfolded at snd_conv]
  have "snd (persist_raw k rq e) = e1 \<or> snd (persist_raw k rq e) =
      e1\<lparr>eng_db := snd (attachRawToOrder (pq_orderHash rq) (pq_order rq) (pq_signature rq) (eng_db e1))\<rparr>"
    by (simp add: persist_raw_def at split: sum.split prod.split)
  moreover have "keeps_engine e (e1\<lparr>eng_db := snd (attachRawToOrder (pq_orderHash rq) (pq_order rq) (pq_signature rq) (eng_db e1))\<rparr>)"
    using ae by (simp add: keeps_engine_def engine_wf_db attachRawToOrder_markets)
  ultimately show ?thesis using ae by (auto simp: keeps_engine_def)
qed (simp add: keeps_engine_def)

lemma roll_back_keeps: "keeps_engine e (roll_back now mkt h e)"
proof -
  have "d_markets (snd (cancelOrder now (mb_id mkt) h d)) = d_markets d" for d
    using cancelOrder_db(2) [of now "mb_id mkt" h d] by (cases "cancelOrder now (mb_id mkt) h d") simp
  then show ?thesis
    by (simp add: roll_back_def Let_def keeps_engine_def engine_wf_db engine_wf_cancel cancel_markets)
qed

lemma place_keeps: "keeps_engine e (snd (place now p e))"
  by (simp add: keeps_engine_def place_markets engine_wf_place)

lemma place_order_keeps: "keeps_engine e (snd (place_order pe x now rq e))"
proof (cases "place_decide pe x rq e")
  case (Inr d)
  obtain mkt sd sz px where d: "d = (mkt, sd, sz, px)" by (rule prod_cases4)
  let ?p = "\<lparr>pl_marketId = mb_symbol mkt, pl_orderHash = pq_orderHash rq,
    pl_maker = pq_makerExpected rq, pl_side = sd, pl_priceTicks = px, pl_sizeBase = sz\<rparr>"
  obtain r1 e1 where p: "place now ?p e = (r1, e1)" by fastforce
  obtain r2 e2 where q: "persist_raw (mb_symbol mkt) rq e1 = (r2, e2)" by fastforce
  have 1: "keeps_engine e e1" using place_keeps [of e now ?p] by (simp add: p)
  have 2: "keeps_engine e e2"
    using keeps_engine_trans [OF 1] persist_raw_keeps [of e1 "mb_symbol mkt" rq] by (simp add: q)
  have 3: "keeps_engine e (roll_back now mkt (pq_orderHash rq) e2)"
    by (rule keeps_engine_trans [OF 2 roll_back_keeps])
  have 4: "keeps_engine e (e2\<lparr>eng_db := inc_metric m (eng_db e2)\<rparr>)" for m
    using 2 by (simp add: keeps_engine_def engine_wf_db inc_metric_def)
  show ?thesis using 1 3 4 by (simp add: place_order_def Inr d p q split: sum.split)
qed (simp add: place_order_def)

lemma quote_keeps: "keeps_engine e (snd (quote fb k sd x lmt e))"
proof (cases "getTradingContext (eng_db e) k")
  case (Inr ctx)
  have "eng_db (snd (quote fb k sd x lmt e)) = eng_db e"
    using ensure_book_frame [of "ctx_symbol ctx" e] by (simp add: quote_def Inr case_prod_unfold Let_def)
  then show ?thesis by (simp add: keeps_engine_def engine_wf_quote)
qed (simp add: quote_def)


section \<open>Exceptions with a code\<close>

text \<open>
  The primitives of the \<open>ethers\<close> package throw errors of their own, never one of the service's
  validation failures; so an issue code the fire reads is never the empty string.
\<close>

definition named :: "'a result \<Rightarrow> bool" where
  "named m \<longleftrightarrow> (\<forall>e. m = Inl e \<longrightarrow> firstIssueCode e \<noteq> Some [])"

definition crypto_named :: "zx_ext \<Rightarrow> bool" where
  "crypto_named zx \<longleftrightarrow> (\<forall>c ep lo. named (zx_typedDataHash zx c ep lo)) \<and>
    (\<forall>h. named (zx_personalDigest zx h)) \<and> (\<forall>h v r sv. named (zx_recoverAddress zx h v r sv))"

lemma named_Inr [simp]: "named (Inr v)"
  by (simp add: named_def)

lemma named_bind [simp]: "named m \<Longrightarrow> \<forall>v. named (f v) \<Longrightarrow> named (bind_res m f)"
  by (cases m) (auto simp: named_def)

lemma named_plain [simp]:
  "named (Inl (PlainError m))" "named (Inl SyntaxError)" "named (Inl RangeError)" "named (Inl TypeError)"
  by (simp_all add: named_def firstIssueCode_def)

lemma named_bigint [simp]: "named (str_to_bigint s)"
  by (simp add: str_to_bigint_def Let_def split: option.split prod.split)

lemma named_BigInt [simp]: "named (js_BigInt v)"
  by (cases v rule: js_BigInt.cases) simp_all

lemma named_readers [simp]: "named (toBig v)" "named (asBig v)"
  by (auto simp: toBig_def asBig_def split: jval.split sum.split)

lemma named_sanitize [simp]: "named (sanitizeOrder v)" and named_normalize [simp]: "named (normalize v)"
  by (simp_all add: sanitizeOrder_def normalize_def)

lemma named_verify: "crypto_named zx \<Longrightarrow> named (verifySignature zx cfg ch order sg)"
  by (simp add: crypto_named_def verifySignature_def getOrderHash_def resolve_def Let_def split: option.split)

text \<open>No list of issues has an empty code.\<close>

lemma issue_codes:
  "[] \<notin> set (size_issues ctx sz)" "[] \<notin> set (notional_issues ctx lt sz)" "[] \<notin> set (fst (computed_hash x lo))"
  "[] \<notin> set (fire_hash_issues inp h)" "[] \<notin> set (maker_issues lo owner)" "[] \<notin> set (pair_issues ctx sd lo)"
  "[] \<notin> set (expiry_issues pe lo ex)" "[] \<notin> set (fire_lookup_issues inp h d)"
  by (simp_all add: size_issues_def notional_issues_def computed_hash_def fire_hash_issues_def
      maker_issues_def pair_issues_def expiry_issues_def fire_lookup_issues_def Let_def
      split: option.split sum.split)

lemma derived_codes: "[] \<notin> set (fst (derived_ticks n d))"
  by (simp add: derived_ticks_def split: sum.split)

lemma terms_codes: "[] \<notin> set (terms_issues ctx sd lo sz lt)"
  using derived_codes by (cases sd) (simp_all add: terms_issues_def Let_def case_prod_unfold split: option.split)

lemma floor_codes: "runCancelPairFloorCheck x o' mt tt salt t = Inr iss \<Longrightarrow> [] \<notin> set iss"
  by (auto simp: runCancelPairFloorCheck_def getFloor_stored split: option.splits if_splits)

lemma signature_codes: "fire_signature_issues x inp lo = Inr iss \<Longrightarrow> [] \<notin> set iss"
  by (auto simp: fire_signature_issues_def signer_issues_def split: option.splits if_splits)

lemma fire_issue_codes:
  assumes "fire_issues x inp ctx s = Inr issues"
  shows "[] \<notin> set issues"
proof -
  obtain lo sg fl where "(if dev_skip x then Inr [] else fire_signature_issues x inp lo) = Inr sg"
    and f: "runCancelPairFloorCheck x (fr_owner inp) (lo_makerToken lo) (lo_takerToken lo)
        (lo_salt lo) (sea_floors s) = Inr fl"
    and i: "issues = size_issues ctx (fr_sizeBase inp) @
       notional_issues ctx (fr_limitPriceTicks inp) (fr_sizeBase inp) @ sg @ fst (computed_hash x lo) @
       fire_hash_issues inp (snd (computed_hash x lo)) @ maker_issues lo (fr_owner inp) @ pair_issues ctx (fr_side inp) lo @
       terms_issues ctx (fr_side inp) lo (fr_sizeBase inp) (fr_limitPriceTicks inp) @
       expiry_issues (sx_env x) lo (Some (fr_expiresAt inp)) @
       fire_lookup_issues inp (snd (computed_hash x lo)) (sea_db s) @ fl"
    using assms by (auto simp: fire_issues_def case_prod_unfold Let_def)
  then have "[] \<notin> set sg" using signature_codes by (auto split: if_splits)
  then show ?thesis unfolding i using floor_codes [OF f] by (simp add: terms_codes issue_codes)
qed

lemma named_fire_issues:
  assumes "crypto_named (sx_zx x)"
  shows "named (fire_issues x inp ctx s)"
proof -
  have "named (fire_signature_issues x inp lo)" for lo
    using named_verify [OF assms] by (simp add: fire_signature_issues_def signer_issues_def split: option.split)
  moreover have "named (runCancelPairFloorCheck x o' mt tt salt t)" for o' mt tt salt t
    by (simp add: runCancelPairFloorCheck_def getFloor_stored)
  ultimately show ?thesis by (simp add: fire_issues_def split: prod.split)
qed

lemma named_validateAtFire: "crypto_named (sx_zx x) \<Longrightarrow> named (validateAtFire x inp ctx s)"
  using named_fire_issues [of x inp ctx s] fire_issue_codes [of x inp ctx s]
  by (cases "fire_issues x inp ctx s")
    (auto simp: validateAtFire_def named_def firstIssueCode_def split: list.splits)


section \<open>Refinement\<close>

text \<open>
  The contract of everything that runs against the state: on well-formed rows and books it moves
  the intents by steps of the abstract machine, and leaves well-formed books over the same markets.
\<close>

definition sea_ok :: "sea \<Rightarrow> bool" where
  "sea_ok s \<longleftrightarrow> rows_ok (sea_intents s) \<and> engine_wf (sea_engine s)"

definition refined :: "sea \<Rightarrow> sea \<Rightarrow> bool" where
  "refined s s' \<longleftrightarrow> (sea_ok s \<longrightarrow> intent_steps (sea_db s) (sea_intents s) (sea_intents s') \<and>
     keeps_engine (sea_engine s) (sea_engine s'))"

lemma refined_refl [simp]: "refined s s"
  by (simp add: refined_def)

lemma refined_ok: "refined s s' \<Longrightarrow> sea_ok s \<Longrightarrow> sea_ok s'"
  using steps_keep_rows by (auto simp: refined_def sea_ok_def keeps_engine_def)

lemma refined_trans:
  assumes "refined s s1" and "refined s1 s2"
  shows "refined s s2"
  unfolding refined_def
proof
  assume ok: "sea_ok s"
  with assms(1) have 1: "intent_steps (sea_db s) (sea_intents s) (sea_intents s1)"
    "keeps_engine (sea_engine s) (sea_engine s1)" by (simp_all add: refined_def)
  from refined_ok [OF assms(1) ok] assms(2) have 2: "intent_steps (sea_db s1) (sea_intents s1) (sea_intents s2)"
    "keeps_engine (sea_engine s1) (sea_engine s2)" by (simp_all add: refined_def)
  have "d_markets (sea_db s) = d_markets (sea_db s1)" using 1(2) ok by (simp add: keeps_engine_def sea_ok_def)
  with 2(1) have "intent_steps (sea_db s) (sea_intents s1) (sea_intents s2)" by (rule steps_db)
  with 1 2(2) show "intent_steps (sea_db s) (sea_intents s) (sea_intents s2) \<and>
      keeps_engine (sea_engine s) (sea_engine s2)"
    using keeps_engine_trans by auto
qed

lemma refined_step:
  assumes "sea_ok s \<Longrightarrow> intent_step (sea_db s) (sea_intents s) (snd (f (sea_intents s)))"
  shows "refined s (snd (on_intents f s))"
  using assms by (simp add: refined_def one_step)

lemma refined_event [simp]: "refined s (snd (append_event_sea i ty p s))"
  by (simp add: refined_def)

lemma refined_engine: "keeps_engine (sea_engine s) e \<Longrightarrow> refined s (s\<lparr>sea_engine := e\<rparr>)"
  by (simp add: refined_def)

lemma refined_then_event: "refined s s1 \<Longrightarrow> refined s (snd (append_event_sea i ty p s1))"
  by (rule refined_trans [OF _ refined_event])

lemma refined_andthen:
  "refined s (snd m) \<Longrightarrow> (\<And>v s1. refined s s1 \<Longrightarrow> refined s (snd (f v s1))) \<Longrightarrow> refined s (snd (andthen m f))"
  by (cases m; cases "fst m") (auto simp: andthen_def)

text \<open>A row of a given type and expiry at an id stays one.\<close>

definition row_at :: "intent_type \<Rightarrow> int \<Rightarrow> string \<Rightarrow> sea \<Rightarrow> bool" where
  "row_at ty ex i s \<longleftrightarrow> (\<exists>r. intent_at (sea_intents s) i = Some r \<and> it_type r = ty \<and> it_expiresAt r = ex)"

lemma row_at_refined: "row_at ty ex i s \<Longrightarrow> refined s s' \<Longrightarrow> sea_ok s \<Longrightarrow> row_at ty ex i s'"
  unfolding row_at_def refined_def sea_ok_def by (metis steps_keep_row)

lemma each_row_refined:
  assumes "\<And>r s. r \<in> set rs \<Longrightarrow> row_at ty (ex r) (key r) s \<Longrightarrow> refined s (snd (f r s))"
    and "\<forall>r \<in> set rs. row_at ty (ex r) (key r) s" and "sea_ok s"
  shows "refined s (each_row f rs s)"
  using assms
proof (induction rs arbitrary: s)
  case (Cons r rs)
  have 1: "refined s (snd (f r s))" using Cons.prems by simp
  have "refined (snd (f r s)) (each_row f rs (snd (f r s)))"
    using Cons.prems row_at_refined [OF _ 1 Cons.prems(3)] refined_ok [OF 1 Cons.prems(3)]
    by (intro Cons.IH) auto
  with 1 show ?case by (simp add: refined_trans)
qed simp

section \<open>The firing\<close>

lemma transition_snd: "snd (transitionStatus ts now i from to m t) = snd (shift_status now i from to m t)"
  by (simp add: transitionStatus_def case_prod_unfold Let_def)

lemma failIntent_refined: "m \<noteq> [] \<Longrightarrow> refined s (snd (failIntent x now i m p s))"
  unfolding failIntent_def
  by (intro refined_then_event refined_step) (simp add: transition_snd intent_step.fire_failed)

lemma placement_failed_refined: "refined s (snd (placement_failed x now c e s))"
  by (simp add: placement_failed_def failIntent_refined)

lemma record_placed_refined: "refined s (snd (record_placed now i h s))"
  unfolding record_placed_def
  by (intro refined_then_event refined_step) (simp add: intent_step.fire_placed)

lemma fire_place_refined: "refined s (snd (fire_place x now c s))"
proof (cases "sanitizeOrder (cl_preSignedOrder c)")
  case (Inr lo)
  note san = Inr
  show ?thesis
  proof (cases "parseSigHexToTuple (sig_hex_of c)")
    case None
    then show ?thesis using san by (simp add: fire_place_def failIntent_refined)
  next
    case (Some sg)
    let ?p = "place_order (sx_env x) (sx_chain x) now (fire_request c lo sg (fire_order_hash x lo (declared_hash_of c))) (sea_engine s)"
    let ?s1 = "s\<lparr>sea_engine := snd ?p\<rparr>"
    have 1: "refined s ?s1" by (intro refined_engine place_order_keeps)
    note r = refined_trans [OF 1 placement_failed_refined] refined_trans [OF 1 record_placed_refined]
    have "refined s (snd (record_placed now (cl_id c) h ?s1))" for h by (rule r(2))
    then have "refined s (snd (placement_failed x now c e (snd (record_placed now (cl_id c) h ?s1))))" for e h
      by (rule refined_trans) (rule placement_failed_refined)
    then show ?thesis using san Some r
      by (simp add: fire_place_def on_engine_eq case_prod_unfold split: sum.split prod.split)
  qed
qed (simp add: fire_place_def)

lemma fire_refined:
  assumes "crypto_named (sx_zx x)" and "row_at T_CONDITIONAL_LIMIT (cl_expiresAt c) (cl_id c) s"
  shows "refined s (snd (fire x now c s))"
proof -
  let ?s1 = "snd (on_intents (transitionStatus (sx_decToString x) now (cl_id c) S_ACTIVE S_TRIGGERED None) s)"
  have 1: "refined s ?s1"
    using assms(2) by (intro refined_step) (auto simp: transition_snd row_at_def intro: intent_step.latched)
  have "firstIssueCode e \<noteq> Some []" if "validateAtFire x inp ctx s' = Inl e" for inp ctx s' e
    using named_validateAtFire [OF assms(1), of inp ctx s'] that by (simp add: named_def)
  then have "refined s (snd (failIntent x now (cl_id c)
      (case firstIssueCode e of Some cd \<Rightarrow> cd | None \<Rightarrow> ''fire_validation_failed'') p ?s1))"
    if "validateAtFire x inp ctx ?s1 = Inl e" for inp ctx e p
    using that by (intro refined_trans [OF 1] failIntent_refined) (auto split: option.split)
  moreover have "refined s (snd (fire_place x now c ?s1))" by (rule refined_trans [OF 1 fire_place_refined])
  ultimately show ?thesis using 1
    by (simp add: fire_def case_prod_unfold Let_def split: sum.split)
qed


section \<open>The preparation and the \<open>READY\<close> pass\<close>

lemma debounced_refined: "refined s (snd (debounced_progress x now i p s))"
proof -
  have "refined s (snd (on_intents (setActiveCooldown now i k) s))" for k
    by (intro refined_step) (simp add: intent_step.cooled)
  then show ?thesis
    by (simp add: debounced_progress_def case_prod_unfold Let_def refined_then_event)
qed

lemma mark_ready_refined:
  assumes "row_at T_CONDITIONAL_MARKET_READY ex i s"
  shows "refined s (snd (mark_ready_with x now i q s))"
proof -
  have "refined s (snd (on_intents (markReady now i snap p) s))" for snap p
    using assms by (intro refined_step) (auto simp: row_at_def intro: intent_step.made_ready)
  then show ?thesis
    by (simp add: mark_ready_with_def case_prod_unfold Let_def refined_then_event split: sum.split)
qed

lemma evaluate_refined:
  assumes "row_at T_CONDITIONAL_MARKET_READY ex (cc_id c) s"
  shows "refined s (snd (evaluateAndPrepare x now c s))"
proof -
  let ?q = "quote (TAKER_FEE_BPS (sx_env x)) (cc_marketSymbol c) (cc_side c) (cc_sizeBase c)
    (Some (cc_triggerPriceTicks c)) (sea_engine s)"
  let ?s1 = "s\<lparr>sea_engine := snd ?q\<rparr>"
  have 1: "refined s ?s1" by (intro refined_engine quote_keeps)
  have "row_at T_CONDITIONAL_MARKET_READY ex (cc_id c) ?s1" using assms by (simp add: row_at_def)
  then have "refined s (snd (mark_ready_with x now (cc_id c) q ?s1))" for q
    by (intro refined_trans [OF 1] mark_ready_refined)
  moreover have "refined s (snd (debounced_progress x now (cc_id c) p ?s1))" for p
    by (rule refined_trans [OF 1 debounced_refined])
  ultimately have "refined s (snd (prepare_with_quote x now c q ?s1))" for q
    using 1 by (simp add: prepare_with_quote_def Let_def split: sum.split)
  with 1 show ?thesis
    by (simp add: evaluateAndPrepare_def case_prod_unfold split: sum.split option.split prod.split)
qed

lemma rearm_refined: "refined s (snd (rearmWithCooldown now cfg i reason s))"
proof -
  have "refined s (snd (on_intents (rearmFromReady now i k) s))" for k
    by (intro refined_step) (simp add: intent_step.rearmed)
  then show ?thesis by (simp add: rearmWithCooldown_def case_prod_unfold Let_def refined_then_event)
qed

lemma ready_one_refined:
  assumes "row_at T_CONDITIONAL_MARKET_READY (rr_expiresAt r) (rr_id r) s"
  shows "refined s (snd (ready_one now cfg r s))"
proof -
  have "refined s (snd (on_intents (markExpiredFromReady now (rr_id r) m) s))" if "rr_expiresAt r < now" for m
    using assms that by (intro refined_step) (auto simp: row_at_def intro: intent_step.ready_expired)
  then show ?thesis
    using rearm_refined by (simp add: ready_one_def case_prod_unfold Let_def refined_then_event)
qed

section \<open>What the queries return\<close>

lemma queried_row:
  assumes "take_rows k (js_sort cmp (filter P t)) = Inr rs" and "r \<in> set rs"
  shows "r \<in> set t \<and> P r"
proof -
  have "set (js_sort cmp (filter P t)) = set (filter P t)" by simp
  with assms take_rows_set [OF assms(1)] show ?thesis by auto
qed

lemma map_res_mem: "map_res f xs = Inr ys \<Longrightarrow> y \<in> set ys \<Longrightarrow> \<exists>x \<in> set xs. f x = Inr y"
  using map_res_Inr [of f xs ys] by (fastforce simp: list_all2_conv_all_nth in_set_conv_nth)

lemma sea_ok_row: "sea_ok s \<Longrightarrow> r \<in> set (sea_intents s) \<Longrightarrow> row_at (it_type r) (it_expiresAt r) (it_id r) s"
  by (auto simp: sea_ok_def rows_ok_def row_at_def intent_at_mem)

lemma queried_candidate:
  assumes "bind_res (take_rows k (js_sort cmp (filter P t))) (map_res f) = Inr cs" and "c \<in> set cs"
  obtains r where "r \<in> set t" "P r" "f r = Inr c"
proof -
  obtain rs where rs: "take_rows k (js_sort cmp (filter P t)) = Inr rs" "map_res f rs = Inr cs"
    using assms(1) by auto
  obtain r where r: "r \<in> set rs" "f r = Inr c" using map_res_mem [OF rs(2) assms(2)] by blast
  with that queried_row [OF rs(1) r(1)] show ?thesis by blast
qed

lemma active_CL_rows:
  assumes "findActiveCLIntents ts now k d (sea_intents s) = Inr cs" and "sea_ok s"
  shows "\<forall>c \<in> set cs. row_at T_CONDITIONAL_LIMIT (cl_expiresAt c) (cl_id c) s"
proof
  fix c assume "c \<in> set cs"
  then obtain r where r: "r \<in> set (sea_intents s)" "cl_due now r" "cl_candidate_of ts d r = Inr c"
    by (rule queried_candidate [OF assms(1) [unfolded findActiveCLIntents_def]])
  with sea_ok_row [OF assms(2) r(1)] show "row_at T_CONDITIONAL_LIMIT (cl_expiresAt c) (cl_id c) s"
    by (auto simp: cl_candidate_of_def cl_due_def)
qed

lemma active_CMR_rows:
  assumes "findActiveCMRIntents ts now k d (sea_intents s) = Inr cs" and "sea_ok s"
  shows "\<forall>c \<in> set cs. row_at T_CONDITIONAL_MARKET_READY (cc_expiresAt c) (cc_id c) s"
proof
  fix c assume "c \<in> set cs"
  then obtain r where r: "r \<in> set (sea_intents s)" "cmr_due now r" "cmr_candidate_of ts d r = Inr c"
    by (rule queried_candidate [OF assms(1) [unfolded findActiveCMRIntents_def]])
  with sea_ok_row [OF assms(2) r(1)] show "row_at T_CONDITIONAL_MARKET_READY (cc_expiresAt c) (cc_id c) s"
    by (auto simp: cmr_candidate_of_def cmr_due_def)
qed

lemma ready_CMR_rows:
  assumes "findReadyCMRIntents k (sea_intents s) = Inr rs" and "sea_ok s"
  shows "\<forall>r \<in> set rs. row_at T_CONDITIONAL_MARKET_READY (rr_expiresAt r) (rr_id r) s"
  using assms sea_ok_row [OF assms(2)]
  by (fastforce simp: findReadyCMRIntents_def dest: queried_row)


section \<open>The ticks\<close>

lemma refinedI: "(sea_ok s \<Longrightarrow> refined s s') \<Longrightarrow> refined s s'"
  by (simp add: refined_def)

lemma tickCL_refined: "crypto_named (sx_zx x) \<Longrightarrow> refined s (snd (tickCL x now cfg s))"
proof (rule refinedI)
  assume zx: "crypto_named (sx_zx x)" and ok: "sea_ok s"
  have "refined s (each_row (cl_one x now) cs s)"
    if "findActiveCLIntents (sx_decToString x) now (mc_limitPerTick cfg) (sea_db s) (sea_intents s) = Inr cs" for cs
    using fire_refined [OF zx]
    by (intro each_row_refined [OF _ active_CL_rows [OF that ok] ok])
      (simp add: cl_one_def split: sum.split option.split)
  then show "refined s (snd (tickCL x now cfg s))" by (simp add: tickCL_def split: sum.split)
qed

lemma tickCMRActive_refined: "refined s (snd (tickCMRActive x now cfg s))"
proof (rule refinedI)
  assume ok: "sea_ok s"
  have "refined s (each_row (evaluateAndPrepare x now) cs s)"
    if "findActiveCMRIntents (sx_decToString x) now (mc_limitPerTick cfg) (sea_db s) (sea_intents s) = Inr cs" for cs
    by (rule each_row_refined [OF evaluate_refined active_CMR_rows [OF that ok] ok])
  then show "refined s (snd (tickCMRActive x now cfg s))" by (simp add: tickCMRActive_def split: sum.split)
qed

lemma tickCMRReady_refined: "refined s (snd (tickCMRReady now cfg s))"
proof (rule refinedI)
  assume ok: "sea_ok s"
  have "refined s (each_row (ready_one now cfg) rs s)"
    if "findReadyCMRIntents (mc_limitPerTick cfg) (sea_intents s) = Inr rs" for rs
    by (rule each_row_refined [OF ready_one_refined ready_CMR_rows [OF that ok] ok])
  then show "refined s (snd (tickCMRReady now cfg s))" by (simp add: tickCMRReady_def split: sum.split)
qed

lemma monitor_refined: "crypto_named (sx_zx x) \<Longrightarrow> refined s (snd (monitor_tick x now cfg s))"
  unfolding monitor_tick_def
  by (intro refined_andthen tickCL_refined)
    (auto intro: refined_andthen refined_trans [OF _ tickCMRActive_refined] refined_trans [OF _ tickCMRReady_refined])

lemma expire_loop_steps:
  assumes "\<forall>(i, st) \<in> set cs. st \<in> {S_DRAFT, S_ACTIVE} \<and> (\<exists>r. intent_at t i = Some r \<and> it_expiresAt r < now)"
    and "rows_ok t"
  shows "intent_steps d t (snd (expire_loop now cs t))"
  using assms
proof (induction cs arbitrary: t)
  case (Cons c cs)
  obtain i st where c: "c = (i, st)" by (cases c)
  let ?t1 = "snd (expire_one now i st t)"
  have 1: "intent_steps d t ?t1" using Cons.prems(1) c by (intro one_step) (auto intro: intent_step.swept)
  have "\<exists>r'. intent_at ?t1 j = Some r' \<and> it_expiresAt r' < now"
    if "intent_at t j = Some r" "it_expiresAt r < now" for j r
    using steps_keep_row [OF 1 Cons.prems(2) that(1)] that(2) by metis
  then have "\<forall>(i, st) \<in> set cs. st \<in> {S_DRAFT, S_ACTIVE} \<and> (\<exists>r. intent_at ?t1 i = Some r \<and> it_expiresAt r < now)"
    using Cons.prems(1) by fastforce
  from Cons.IH [OF this steps_keep_rows [OF 1 Cons.prems(2)]] 1
  show ?case by (simp add: c case_prod_unfold Let_def)
qed simp

lemma expireDue_steps:
  assumes "rows_ok t"
  shows "intent_steps d t (snd (expireDueIntents now k t))"
proof (cases "take_rows k (js_sort (asc_by it_expiresAt) (filter (expiry_due now) t))")
  case (Inr rows)
  have "intent_at t (it_id r) = Some r \<and> expiry_due now r" if "r \<in> set rows" for r
    using queried_row [OF Inr that] assms by (simp add: rows_ok_def intent_at_mem)
  then have "intent_steps d t (snd (expire_loop now (map (\<lambda>r. (it_id r, it_status r)) rows) t))"
    by (intro expire_loop_steps assms) (auto simp: expiry_due_def)
  then show ?thesis by (simp add: expireDueIntents_def Inr case_prod_unfold Let_def)
qed (simp add: expireDueIntents_def)

lemma stale_loop_steps: "intent_steps d t (snd (stale_loop now cutoff cs t))"
proof (induction cs arbitrary: t)
  case (Cons i cs)
  have "intent_steps d t (snd (stale_one now cutoff i t))" by (intro one_step intent_step.stale_swept)
  with Cons.IH show ?case by (simp add: case_prod_unfold Let_def) (meson rtranclp_trans)
qed simp

lemma report_frame [simp]:
  "sea_intents (report_each ty m ids s) = sea_intents s" "sea_engine (report_each ty m ids s) = sea_engine s"
  unfolding report_each_def by (induction ids arbitrary: s) simp_all

lemma refined_report: "refined s s1 \<Longrightarrow> refined s (report_each ty m ids s1)"
  by (simp add: refined_def)

lemma expiry_sweep_refined: "refined s (snd (expiry_sweeper_tick now cfg s))"
proof -
  have "refined s (snd (on_intents (expireDueIntents now (sw_limitPerTick cfg)) s))"
    by (simp add: refined_def sea_ok_def expireDue_steps)
  then show ?thesis unfolding expiry_sweeper_tick_def by (intro refined_andthen) (auto intro: refined_report)
qed

lemma stale_sweep_refined: "refined s (snd (executing_sweeper_tick now cfg s))"
proof -
  have "intent_steps d t (snd (sweepStaleExecuting now k ms t))" for d t k ms
    by (simp add: sweepStaleExecuting_def Let_def case_prod_unfold stale_loop_steps split: sum.split)
  then have "refined s (snd (on_intents (sweepStaleExecuting now (sw_limitPerTick cfg) (sw_staleThresholdMs cfg)) s))"
    by (simp add: refined_def)
  then show ?thesis unfolding executing_sweeper_tick_def by (intro refined_andthen) (auto intro: refined_report)
qed

section \<open>The request handlers\<close>

lemma create_refined: "refined s (snd (create_handler x now i body s))"
proof -
  have "refined s (snd (on_intents (create_intent (sx_decToString x) now i inp (sea_db s)) s))"
    if "ci_initialStatus inp = S_ACTIVE" for inp
  proof (cases "fst (create_intent (sx_decToString x) now i inp (sea_db s) (sea_intents s))")
    case (Inl e)
    then have "snd (create_intent (sx_decToString x) now i inp (sea_db s) (sea_intents s)) = sea_intents s"
      by (auto simp: create_intent_def Let_def split: option.splits if_splits)
    then show ?thesis by (simp add: refined_def)
  next
    case (Inr dto)
    then have "create_intent (sx_decToString x) now i inp (sea_db s) (sea_intents s) =
        (Inr dto, snd (create_intent (sx_decToString x) now i inp (sea_db s) (sea_intents s)))"
      by (simp add: prod_eq_iff)
    with that show ?thesis by (intro refined_step) (auto intro: intent_step.created)
  qed
  then have "refined s (snd (on_intents (create_intent (sx_decToString x) now i (create_input_of body m ex) (sea_db s)) s))" for m ex
    by (simp add: create_input_of_def)
  then show ?thesis
    unfolding create_handler_def Let_def
    by (auto intro!: refined_andthen refined_then_event split: option.split sum.split)
qed

lemma cancel_refined:
  assumes "\<And>s. refined s (env s)"
  shows "refined s (snd (cancel_handler x now env i sg s))"
proof -
  have "refined (env s) (snd (on_intents (transitionStatus (sx_decToString x) now i st S_CANCELLED (Some ''user_cancel'')) (env s)))"
    if "st \<in> set cancellable" for st
    using that by (intro refined_step) (auto simp: transition_snd cancellable_def intro: intent_step.cancelled)
  then have "refined s (snd (on_intents (transitionStatus (sx_decToString x) now i st S_CANCELLED (Some ''user_cancel'')) (env s)))"
    if "st \<in> set cancellable" for st using that refined_trans [OF assms] by blast
  then show ?thesis
    by (auto simp: cancel_handler_def case_prod_unfold Let_def intro!: refined_andthen refined_then_event
        split: option.split sum.split)
qed

lemma lock_refined:
  assumes "\<And>s. refined s (env s)"
  shows "refined s (snd (lockWallet x now env i body s))"
proof -
  have "refined s (snd (on_intents (lockWalletFromReady now j pq u) (env s)))" for j pq u
    by (rule refined_trans [OF assms], rule refined_step) (simp add: intent_step.locked)
  then show ?thesis
    by (simp add: lockWallet_def case_prod_unfold Let_def split: option.split sum.split lock_plan.split)
qed

lemma andthen_engine:
  "sea_engine (snd (andthen m f)) = sea_engine (snd m)"
  if "\<And>v s. sea_engine (snd (f v s)) = sea_engine s"
  using that by (cases m; cases "fst m") (auto simp: andthen_def split: sum.splits)

lemma mark_engine:
  "sea_engine (snd (mark_via_trade x now i h trade s)) = sea_engine s"
  "sea_engine (snd (mark_via_revert x now i h s)) = sea_engine s"
  "sea_engine (snd (mark_normal x now i h s)) = sea_engine s"
  by (simp_all add: mark_via_trade_def mark_via_revert_def mark_normal_def andthen_engine Let_def case_prod_unfold)

lemma refined_write:
  "intent_step (sea_db s) (sea_intents s) (sea_intents s') \<Longrightarrow> sea_engine s' = sea_engine s \<Longrightarrow> refined s s'"
  by (simp add: refined_def one_step)

lemma mark_refined:
  assumes "\<And>s. refined s (env s)"
  shows "refined s (snd (markExecuting x now env i body s))"
proof -
  have "refined s (snd (mark_via_trade x now j h trade (env s)))" for j h trade
    by (rule refined_trans [OF assms refined_write]) (simp_all add: mark_intents mark_engine intent_step.executed_late)
  moreover have "refined s (snd (mark_via_revert x now j h (env s)))" for j h
    by (rule refined_trans [OF assms refined_write]) (simp_all add: mark_intents mark_engine intent_step.reverted_late)
  moreover have "refined s (snd (mark_normal x now j h (env s)))" for j h
    by (rule refined_trans [OF assms refined_write]) (simp_all add: mark_intents mark_engine intent_step.started)
  ultimately show ?thesis
    by (simp add: markExecuting_def Let_def split: option.split sum.split)
qed


section \<open>The book requests\<close>

lemma market_markets: "d_markets (eng_db (snd (market now k sd x e))) = d_markets (eng_db e)"
proof (cases "getTradingContext (eng_db e) k")
  case (Inr ctx)
  obtain b e1 where eb: "ensure_book (ctx_symbol ctx) e = (b, e1)" by fastforce
  obtain r ls d where ml: "market_loop now ctx x [] (against sd b) (eng_db e1) = (r, ls, d)"
    using prod_cases3 by blast
  have "d_markets d = d_markets (eng_db e1)" using market_loop_frame [OF ml] by blast
  also have "eng_db e1 = eng_db e" using ensure_book_frame [of "ctx_symbol ctx" e] eb by simp
  finally show ?thesis using ml by (simp add: market_def Inr eb del: ensure_book_frame)
qed (simp add: market_def)

lemma serve_keeps:
  assumes "request_ok rq"
  shows "keeps_engine e (serve fb now rq e)"
proof -
  have "engine_wf e \<Longrightarrow> d_markets (eng_db (serve fb now rq e)) = d_markets (eng_db e)"
    using quote_keeps attachRaw_engine
    by (cases rq) (auto simp: place_markets cancel_markets applyExternalFill_markets sweepExpired_def
        sweep_books_markets market_markets clear_def keeps_engine_def)
  with engine_wf_serve assms show ?thesis by (simp add: keeps_engine_def)
qed

section \<open>The contract\<close>

locale sea_service =
  fixes x :: sea_ext and run :: "sea \<Rightarrow> sea"
  assumes refines: "crypto_named (sx_zx x) \<Longrightarrow> refined s (run s)"
begin

lemma keeps_ok: "crypto_named (sx_zx x) \<Longrightarrow> sea_ok s \<Longrightarrow> sea_ok (run s)"
  using refined_ok refines by blast

lemma moves:
  "crypto_named (sx_zx x) \<Longrightarrow> sea_ok s \<Longrightarrow> intent_steps (sea_db s) (sea_intents s) (sea_intents (run s)) \<and>
    d_markets (sea_db (run s)) = d_markets (sea_db s)"
  using refines [of s] by (simp add: refined_def keeps_engine_def sea_ok_def)

lemma history:
  assumes "crypto_named (sx_zx x)" and "sea_ok s" and "intent_at (sea_intents s) i = Some r"
  obtains r' where "intent_at (sea_intents (run s)) i = Some r'" "terms_of r' = terms_of r" "trigger_of r' = trigger_of r"
    "(status_step (it_type r))\<^sup>*\<^sup>* (it_status r) (it_status r')" "terminal (it_status r) \<longrightarrow> r' = r"
  using steps_history [of "sea_db s" "sea_intents s" "sea_intents (run s)" i r] moves [OF assms(1,2)] assms
  by (auto simp: sea_ok_def)

end

interpretation creating: sea_service x "\<lambda>s. snd (create_handler x now i body s)" for x now i body
  by unfold_locales (rule create_refined)

interpretation cancelling: sea_service x "\<lambda>s. snd (cancel_handler x now (\<lambda>s. s) i sg s)" for x now i sg
  by unfold_locales (simp add: cancel_refined)

interpretation locking: sea_service x "\<lambda>s. snd (lockWallet x now (\<lambda>s. s) i body s)" for x now i body
  by unfold_locales (simp add: lock_refined)

interpretation marking: sea_service x "\<lambda>s. snd (markExecuting x now (\<lambda>s. s) i body s)" for x now i body
  by unfold_locales (simp add: mark_refined)

interpretation monitoring: sea_service x "\<lambda>s. snd (monitor_tick x now cfg s)" for x now cfg
  by unfold_locales (rule monitor_refined)

interpretation expiring: sea_service x "\<lambda>s. snd (expiry_sweeper_tick now cfg s)" for x now cfg
  by unfold_locales (rule expiry_sweep_refined)

interpretation sweeping: sea_service x "\<lambda>s. snd (executing_sweeper_tick now cfg s)" for x now cfg
  by unfold_locales (rule stale_sweep_refined)

definition sample_monitor :: monitor_cfg where
  "sample_monitor = new_monitor (\<lambda>k. if k = ''SEA_MONITOR_ENABLED'' \<or> k = ''SEA_CMR_PREPARE_ENABLED'' then Some ''1'' else None)"

lemma sample_crypto: "crypto_named (sx_zx sample_sx)"
  by (simp add: crypto_named_def sample_sx_def sample_zx_def)

lemma sample_armed_sea_ok: "sea_ok sample_armed"
proof -
  have "ids_ok (sea_intents sample_armed)" by (rule sample_armed_ok)
  moreover have "it_status sample_cl_row = S_ACTIVE" by code_simp
  ultimately show ?thesis
    using sample_armed_ok(1) by (simp add: sea_ok_def rows_ok_def sample_armed_def row_ok_def)
qed

end
