(* ===== verification/TxBuilders.thy ===== *)
theory TxBuilders
  imports ZeroEx
begin

text \<open>
  \<open>apps/api/src/zeroex/tx-builders.service.ts\<close>: the transactions the API hands to a wallet. A
  transaction is its target and its calldata; its value is always \<open>"0"\<close>. The ABI encoder of
  \<open>ethers\<close> is the record \<open>abi_ext\<close>; each of its calls may throw. \<open>chain\<close> is what
  \<open>parseZeroExEnv\<close> (\<open>zeroex.config.ts\<close>) reads from the environment, or what its schema throws.
\<close>

record abi_ext =
  ab_fill :: "jval \<Rightarrow> jval \<Rightarrow> int \<Rightarrow> string result"
  ab_batchFill :: "jval list \<Rightarrow> jval list \<Rightarrow> int list \<Rightarrow> bool \<Rightarrow> string result"
  ab_cancel :: "jval \<Rightarrow> string result"
  ab_cancelPair :: "string \<Rightarrow> string \<Rightarrow> int \<Rightarrow> string result"

type_synonym call_data = "string \<times> string"

definition tb_parseSig :: "string \<Rightarrow> zx_sig result" where
  "tb_parseSig sigHex =
    (let hex = strip_0x sigHex in
     if length hex < 130 then Inl (PlainError ''invalid signature length'')
     else Inr \<lparr>zs_signatureType = 2, zs_v = lift_v (parse_int 16 (js_slice 128 130 hex)),
                zs_r = ''0x'' @ js_slice 0 64 hex, zs_s = ''0x'' @ js_slice 64 128 hex\<rparr>)"

definition sig_for_abi :: "jval \<Rightarrow> jval result" where
  "sig_for_abi signature =
    (case signature of JStr s \<Rightarrow> bind_res (tb_parseSig s) (\<lambda>t. Inr (sig_json t)) | _ \<Rightarrow> Inr signature)"

definition buildFillLimitOrder ::
  "zx_ext \<Rightarrow> zx_config \<Rightarrow> abi_ext \<Rightarrow> limit_order \<Rightarrow> jval \<Rightarrow> int \<Rightarrow> call_data result" where
  "buildFillLimitOrder x cfg ab order signature takerTokenFillAmount =
    bind_res (resolve x cfg) (\<lambda>(proxy, _).
    bind_res (sig_for_abi signature) (\<lambda>sigForAbi.
    bind_res (ab_fill ab (order_json order) sigForAbi takerTokenFillAmount) (\<lambda>calldata. Inr (proxy, calldata))))"

definition buildCancelLimitOrder :: "zx_ext \<Rightarrow> zx_config \<Rightarrow> abi_ext \<Rightarrow> jval \<Rightarrow> call_data result" where
  "buildCancelLimitOrder x cfg ab order =
    bind_res (resolve x cfg) (\<lambda>(proxy, _).
    bind_res (ab_cancel ab order) (\<lambda>calldata. Inr (proxy, calldata)))"

definition buildBatchFillLimitOrders ::
  "zx_ext \<Rightarrow> zx_config \<Rightarrow> abi_ext \<Rightarrow> int result \<Rightarrow> limit_order list \<Rightarrow> jval list \<Rightarrow> int list \<Rightarrow> bool \<Rightarrow>
     call_data result" where
  "buildBatchFillLimitOrders x cfg ab chain orders signatures amounts revertIfIncomplete =
    bind_res (resolve x cfg) (\<lambda>(proxy, _).
    bind_res chain (\<lambda>chainId.
      if chainId = 8453 \<or> chainId = 11155111
      then Inl (PlainError ''batchFillLimitOrders disabled on this network; using sequential fillLimitOrder fallback'')
      else
        bind_res (map_res sig_for_abi signatures) (\<lambda>sigs.
        bind_res (ab_batchFill ab (map order_json orders) sigs amounts revertIfIncomplete) (\<lambda>calldata.
          Inr (proxy, calldata)))))"

definition buildCancelPairLimitOrders ::
  "zx_ext \<Rightarrow> zx_config \<Rightarrow> abi_ext \<Rightarrow> string \<Rightarrow> string \<Rightarrow> int \<Rightarrow> call_data result" where
  "buildCancelPairLimitOrders x cfg ab makerToken takerToken minValidSalt =
    bind_res (resolve x cfg) (\<lambda>(proxy, _).
    bind_res (ab_cancelPair ab makerToken takerToken minValidSalt) (\<lambda>calldata. Inr (proxy, calldata)))"

end
