(* ===== verification/Delegation.thy ===== *)
theory Delegation
  imports DelegatedStore SeaRefinement TxBuilders
begin

text \<open>
  Delegated execution up to the grant: the configuration (\<open>delegation.config.ts\<close>), the guards
  (\<open>delegation.guard.ts\<close>), the session policy (\<open>cmr-delegation-policy.builder.ts\<close>,
  \<open>cmr-delegated-policy.validator.ts\<close>) and the grant service (\<open>delegation.service.ts\<close>), all
  under \<open>apps/api/src/sea/delegated\<close>.

  The provider behind \<open>DelegationProvider\<close> and the address of the session key are the record
  \<open>deleg_world\<close>; the fields of the configuration that only a provider reads are left out.
\<close>

section \<open>Configuration\<close>

record delegation_config =
  dc_profile :: delegation_profile
  dc_chainId :: int
  dc_writable :: bool
  dc_enabled :: bool
  dc_execEnabled :: bool
  dc_provider :: provider_kind
  dc_accountModelDefault :: account_model
  dc_exchangeProxy :: "string option"
  dc_allowanceSpender :: "string option"
  dc_disabledReason :: "string option"

fun profile_str :: "delegation_profile \<Rightarrow> string" where
  "profile_str P_ethereum_sepolia = ''ethereum-sepolia''"
| "profile_str P_base_mainnet = ''base-mainnet''"

fun profile_chainId :: "delegation_profile \<Rightarrow> int" where
  "profile_chainId P_ethereum_sepolia = 11155111"
| "profile_chainId P_base_mainnet = 8453"

fun profile_writable :: "delegation_profile \<Rightarrow> bool" where
  "profile_writable P_ethereum_sepolia = True"
| "profile_writable P_base_mainnet = False"

definition env_trim :: "penv \<Rightarrow> string \<Rightarrow> string" where
  "env_trim pe k = trim (env_or_nullish pe k '''')"

definition clean_env :: "string option \<Rightarrow> string option" where
  "clean_env v = non_empty (map_option trim v)"

text \<open>\<open>z.coerce.number().int().positive().optional()\<close>; the schema refuses anything else.\<close>

definition env_chainId :: "penv \<Rightarrow> int option result" where
  "env_chainId pe =
    (case pe ''CHAIN_ID'' of
       None \<Rightarrow> Inr None
     | Some s \<Rightarrow> (case str_to_num s of
         Fin q \<Rightarrow> if is_int_rat q \<and> 0 < q then Inr (Some \<lfloor>q\<rfloor>) else Inl (PlainError ''ZodError'')
       | _ \<Rightarrow> Inl (PlainError ''ZodError'')))"

definition resolveDelegationProfile :: "penv \<Rightarrow> int option \<Rightarrow> delegation_profile" where
  "resolveDelegationProfile pe chainId =
    (let p = to_lower (env_trim pe ''PROFILE'') in
     if p = ''sepolia'' \<or> p = ''ethereum-sepolia'' then P_ethereum_sepolia
     else if p = ''mainnet'' \<or> p = ''base-mainnet'' \<or> p = ''base'' then P_base_mainnet
     else if chainId = Some 11155111 then P_ethereum_sepolia
     else if chainId = Some 8453 then P_base_mainnet
     else P_base_mainnet)"

definition resolveDelegationProviderKind :: "penv \<Rightarrow> provider_kind" where
  "resolveDelegationProviderKind pe =
    (if to_lower (trim (env_or_nullish pe ''SEA_DELEGATED_PROVIDER'' ''mock'')) = ''biconomy''
     then BICONOMY else MOCK)"

definition resolveDelegationConfig :: "penv \<Rightarrow> delegation_config result" where
  "resolveDelegationConfig pe =
    bind_res (env_chainId pe) (\<lambda>chainId. Inr
      (let profile = resolveDelegationProfile pe chainId;
           writable = profile_writable profile;
           readOnly = (env_trim pe ''READ_ONLY'' = ''true'');
           flagOn = (env_trim pe ''SEA_DELEGATED_ENABLED'' = ''1'');
           execFlagOn = (env_trim pe ''SEA_DELEGATED_EXEC_ENABLED'' = ''1'');
           enabled = writable \<and> \<not> readOnly \<and> flagOn
       in \<lparr>dc_profile = profile,
           dc_chainId = (case chainId of Some c \<Rightarrow> c | None \<Rightarrow> profile_chainId profile),
           dc_writable = writable, dc_enabled = enabled, dc_execEnabled = enabled \<and> execFlagOn,
           dc_provider = resolveDelegationProviderKind pe, dc_accountModelDefault = EIP7702,
           dc_exchangeProxy = clean_env (pe ''ZEROEX_EXCHANGE_PROXY''),
           dc_allowanceSpender = clean_env (pe ''ZEROEX_ALLOWANCE_SPENDER''),
           dc_disabledReason =
             (if \<not> writable then Some (''profile '' @ profile_str profile @ '' is read-only'')
              else if readOnly then Some ''READ_ONLY=true''
              else if \<not> flagOn then Some ''SEA_DELEGATED_ENABLED!=1'' else None)\<rparr>))"

section \<open>Guards\<close>

text \<open>\<open>None\<close> is \<open>allowed\<close>, otherwise the reason.\<close>

definition delegationWriteGate :: "penv \<Rightarrow> delegation_config \<Rightarrow> string option" where
  "delegationWriteGate pe cfg =
    (if dc_profile cfg = P_base_mainnet \<or> \<not> dc_writable cfg
     then Some (''profile '' @ profile_str (dc_profile cfg) @ '' is read-only'')
     else if env_trim pe ''READ_ONLY'' = ''true'' then Some ''READ_ONLY=true''
     else if env_trim pe ''PROFILE'' = ''mainnet'' then Some ''PROFILE=mainnet''
     else if \<not> dc_enabled cfg
     then Some (case dc_disabledReason cfg of Some r \<Rightarrow> r | None \<Rightarrow> ''delegated CMR disabled'')
     else None)"

definition delegationExecGate :: "penv \<Rightarrow> delegation_config \<Rightarrow> string option" where
  "delegationExecGate pe cfg =
    (case delegationWriteGate pe cfg of
       Some r \<Rightarrow> Some r
     | None \<Rightarrow> if \<not> dc_execEnabled cfg then Some ''SEA_DELEGATED_EXEC_ENABLED!=1'' else None)"

text \<open>The private key of the session signer, which only an enabled configuration loads.\<close>

definition session_key :: "penv \<Rightarrow> delegation_config \<Rightarrow> string option" where
  "session_key pe cfg =
    (if dc_enabled cfg then non_empty (Some (env_trim pe ''DELEGATION_SESSION_SIGNER_PK'')) else None)"

definition signer_available :: "penv \<Rightarrow> delegation_config \<Rightarrow> bool" where
  "signer_available pe cfg \<longleftrightarrow> session_key pe cfg \<noteq> None"

section \<open>The session policy\<close>

definition FILL_LIMIT_ORDER_SELECTOR :: string where
  "FILL_LIMIT_ORDER_SELECTOR = ''0xf6274f66''"

record policy_input =
  pn_chainId :: int
  pn_profile :: delegation_profile
  pn_exchangeProxy :: string
  pn_spendToken :: string
  pn_takerFillAmountQ :: int
  pn_takerFeeAmountQ :: int
  pn_validUntilUnix :: int
  pn_accountModel :: account_model

definition buildCmrDelegationPolicy :: "policy_input \<Rightarrow> delegation_policy result" where
  "buildCmrDelegationPolicy p =
    (if \<not> is_0x_hex 40 (pn_exchangeProxy p)
     then Inl (PlainError ''buildCmrDelegationPolicy: invalid exchangeProxy address'')
     else if \<not> is_0x_hex 40 (pn_spendToken p)
     then Inl (PlainError ''buildCmrDelegationPolicy: invalid spendToken address'')
     else if pn_takerFillAmountQ p \<le> 0
     then Inl (PlainError ''buildCmrDelegationPolicy: takerFillAmountQ must be > 0'')
     else if pn_takerFeeAmountQ p < 0
     then Inl (PlainError ''buildCmrDelegationPolicy: takerFeeAmountQ must be >= 0'')
     else if pn_validUntilUnix p \<le> 0
     then Inl (PlainError ''buildCmrDelegationPolicy: invalid validUntilUnix'')
     else Inr
       \<lparr>po_chainId = pn_chainId p, po_profile = pn_profile p, po_target = pn_exchangeProxy p,
        po_functionSelector = FILL_LIMIT_ORDER_SELECTOR, po_usageLimit = 1,
        po_validUntil = pn_validUntilUnix p, po_spendToken = pn_spendToken p,
        po_spendCapQ = pn_takerFillAmountQ p + pn_takerFeeAmountQ p,
        po_maxTakerFillAmountQ = pn_takerFillAmountQ p, po_accountModel = pn_accountModel p\<rparr>)"

text \<open>\<open>None\<close> is \<open>ok\<close>, otherwise the reason.\<close>

definition validateFreshQuoteAgainstPolicy :: "int \<Rightarrow> delegation_policy \<Rightarrow> delegated_quote \<Rightarrow> string option" where
  "validateFreshQuoteAgainstPolicy nowUnix policy q =
    (if nowUnix > po_validUntil policy then Some ''grant_expired''
     else if dq_remainingBaseB q \<noteq> 0 then Some ''not_full_size''
     else if dq_fillsCount q \<noteq> 1 then Some ''requires_single_fill''
     else if to_lower (dq_takerToken q) \<noteq> to_lower (po_spendToken policy) then Some ''wrong_taker_token''
     else if dq_takerFillAmountQ q > po_maxTakerFillAmountQ policy then Some ''exceeds_fill_bound''
     else if dq_takerTotalAmountQ q > po_spendCapQ policy then Some ''exceeds_spend_cap''
     else None)"

section \<open>The grant service\<close>

record prepare_result =
  pr_accountAddress :: "string option"
  pr_needsDelegation :: "bool option"
  pr_delegationImplementation :: "string option"
  pr_enableDigest :: "string option"
  pr_sessionBlob :: "string option"

record finalize_result =
  fr_permissionId :: "string option"
  fr_enableData :: "string option"

record exec_expected =
  xe_orderHash :: string
  xe_taker :: string
  xe_takerToken :: string
  xe_takerFillAmount :: int
  xe_takerFeeAmount :: int
  xe_execBase :: int
  xe_priceTicks :: int

record exec_request =
  xr_intentId :: string
  xr_accountModel :: account_model
  xr_accountAddress :: string
  xr_permissionId :: string
  xr_enableData :: string
  xr_policy :: delegation_policy
  xr_target :: string
  xr_calldata :: string
  xr_expected :: exec_expected

record exec_result =
  xs_ok :: bool
  xs_txHash :: "string option"
  xs_confirmed :: bool
  xs_reason :: "string option"

text \<open>
  The answers of the provider: a reason when \<open>ok\<close> is false, and each call may throw. An answer of
  \<open>execute\<close> is the record it returns. \<open>abi\<close> is the ABI encoder of \<open>ethers\<close>.
\<close>

record deleg_world =
  dx_sea :: sea_ext
  dx_sessionAddress :: "string result"
  dx_prepare :: "string \<Rightarrow> string \<Rightarrow> account_model \<Rightarrow> delegation_policy \<Rightarrow> string \<Rightarrow>
    (string option + prepare_result) result"
  dx_finalize :: "string \<Rightarrow> string \<Rightarrow> string \<Rightarrow> string \<Rightarrow> (string option + finalize_result) result"
  dx_revoke :: "string \<Rightarrow> string \<Rightarrow> string \<Rightarrow> string \<Rightarrow> (string option + string option \<times> string option) result"
  dx_execute :: "exec_request \<Rightarrow> exec_result result"
  dx_abi :: abi_ext

record deleg =
  de_sea :: sea
  de_grants :: "grant_row list"
  de_attempts :: "attempt_row list"

abbreviation dx_env :: "deleg_world \<Rightarrow> penv" where
  "dx_env x \<equiv> sx_env (dx_sea x)"

text \<open>\<open>Number('')\<close> is 0, which passes the test of the constructor.\<close>

definition fee_buffer_bps :: "penv \<Rightarrow> rat" where
  "fee_buffer_bps pe =
    (case str_to_num (env_or_nullish pe ''DELEGATION_FEE_BUFFER_BPS'' '''') of
       Fin q \<Rightarrow> if 0 \<le> q \<and> q \<le> 2000 then q else 200
     | _ \<Rightarrow> 200)"

text \<open>\<open>signer.getAddress()\<close>, null without a key.\<close>

definition signer_address :: "deleg_world \<Rightarrow> delegation_config \<Rightarrow> string option result" where
  "signer_address x cfg =
    (if signer_available (dx_env x) cfg then bind_res (dx_sessionAddress x) (\<lambda>a. Inr (Some a)) else Inr None)"

fun intent_status_lower :: "intent_status \<Rightarrow> string" where
  "intent_status_lower S_EXECUTED = ''executed''"
| "intent_status_lower S_FAILED = ''failed''"
| "intent_status_lower S_CANCELLED = ''cancelled''"
| "intent_status_lower S_EXPIRED = ''expired''"
| "intent_status_lower S_REJECTED = ''rejected''"
| "intent_status_lower _ = ''''"

definition policy_input_of ::
  "delegation_config \<Rightarrow> intent_row \<Rightarrow> trading_ctx \<Rightarrow> int \<Rightarrow> int \<Rightarrow> policy_input" where
  "policy_input_of cfg r ctx takerFillAmountQ takerFeeAmountQ =
    \<lparr>pn_chainId = dc_chainId cfg, pn_profile = dc_profile cfg,
     pn_exchangeProxy = (case dc_exchangeProxy cfg of Some a \<Rightarrow> a | None \<Rightarrow> ''undefined''),
     pn_spendToken = (case it_side r of BUY \<Rightarrow> ctx_quoteAddress ctx | SELL \<Rightarrow> ctx_baseAddress ctx),
     pn_takerFillAmountQ = takerFillAmountQ, pn_takerFeeAmountQ = takerFeeAmountQ,
     pn_validUntilUnix = it_expiresAt r div 1000, pn_accountModel = dc_accountModelDefault cfg\<rparr>"

text \<open>The outflow at the trigger price.\<close>

definition trigger_outflow :: "trading_ctx \<Rightarrow> side \<Rightarrow> int \<Rightarrow> int \<Rightarrow> int" where
  "trigger_outflow ctx sd sizeBase triggerTicks =
    (case sd of
       BUY \<Rightarrow> tdiv (sizeBase * triggerTicks * ctx_priceTickQ ctx) (pow10 (ctx_baseDecimals ctx))
     | SELL \<Rightarrow> sizeBase)"

text \<open>\<open>Inl\<close> inside is \<open>ok: false\<close> with its reason.\<close>

definition policy_of_intent ::
  "deleg_world \<Rightarrow> delegation_config \<Rightarrow> intent_row \<Rightarrow> trading_ctx \<Rightarrow> (string + delegation_policy) result" where
  "policy_of_intent x cfg r ctx =
    bind_res (str_to_bigint (sx_decToString (dx_sea x) (it_sizeBase r))) (\<lambda>sizeBase.
      let fill = trigger_outflow ctx (it_side r) sizeBase (it_triggerPriceTicks r) in
      if fill \<le> 0 then Inr (Inl ''zero_taker_amount'')
      else bind_res (js_BigInt (JNum (Fin (fee_buffer_bps (dx_env x))))) (\<lambda>bps.
        case buildCmrDelegationPolicy (policy_input_of cfg r ctx fill (tdiv (fill * bps) 10000)) of
          Inl e \<Rightarrow> Inr (Inl (exn_message e))
        | Inr p \<Rightarrow> Inr (Inr p)))"

definition buildPolicyForIntent ::
  "deleg_world \<Rightarrow> delegation_config \<Rightarrow> string \<Rightarrow> string \<Rightarrow> deleg \<Rightarrow> (string + delegation_policy) result" where
  "buildPolicyForIntent x cfg i owner d =
    (case intent_at (sea_intents (de_sea d)) i of
       None \<Rightarrow> Inr (Inl ''intent_not_found'')
     | Some r \<Rightarrow>
         if it_type r \<noteq> T_CONDITIONAL_MARKET_READY then Inr (Inl ''not_cmr'')
         else if to_lower (it_owner r) \<noteq> to_lower owner then Inr (Inl ''owner_mismatch'')
         else if it_status r \<in> {S_EXECUTED, S_FAILED, S_CANCELLED, S_EXPIRED, S_REJECTED}
         then Inr (Inl (''intent_'' @ intent_status_lower (it_status r)))
         else (case getTradingContext (sea_db (de_sea d)) (it_marketId r) of
                 Inl e \<Rightarrow> Inr (Inl ''market_context_unavailable'')
               | Inr ctx \<Rightarrow> policy_of_intent x cfg r ctx))"

definition reason_or :: "string \<Rightarrow> string option \<Rightarrow> string" where
  "reason_or dflt r = (case r of Some s \<Rightarrow> s | None \<Rightarrow> dflt)"

definition prepareGrant ::
  "deleg_world \<Rightarrow> delegation_config \<Rightarrow> string \<Rightarrow> string \<Rightarrow> account_model option \<Rightarrow> deleg \<Rightarrow>
     (string + prepare_result) result" where
  "prepareGrant x cfg i owner model d =
    (case delegationWriteGate (dx_env x) cfg of
       Some reason \<Rightarrow> Inr (Inl reason)
     | None \<Rightarrow>
         if dc_exchangeProxy cfg = None then Inr (Inl ''exchangeProxy not configured'')
         else bind_res (signer_address x cfg) (\<lambda>a. case a of
           None \<Rightarrow> Inr (Inl ''session_signer_unavailable'')
         | Some key \<Rightarrow> bind_res (buildPolicyForIntent x cfg i owner d) (\<lambda>b. case b of
             Inl reason \<Rightarrow> Inr (Inl reason)
           | Inr policy \<Rightarrow>
               bind_res (dx_prepare x i owner
                   (case model of Some m \<Rightarrow> m | None \<Rightarrow> dc_accountModelDefault cfg) policy key) (\<lambda>res.
                 case res of
                   Inl reason \<Rightarrow> Inr (Inl (reason_or ''prepare_failed'' reason))
                 | Inr p \<Rightarrow> Inr (Inr p)))))"

record finalize_params =
  fz_intentId :: string
  fz_owner :: string
  fz_accountModel :: "account_model option"
  fz_accountAddress :: string
  fz_sessionBlob :: string
  fz_ownerSignature :: string

definition grant_input_of ::
  "delegation_config \<Rightarrow> finalize_params \<Rightarrow> delegation_policy \<Rightarrow> string \<Rightarrow> string option \<Rightarrow> string \<Rightarrow> grant_input" where
  "grant_input_of cfg p policy key permissionId enableData =
    \<lparr>gi_intentId = fz_intentId p, gi_owner = fz_owner p, gi_chainId = dc_chainId cfg,
     gi_profile = dc_profile cfg,
     gi_accountModel = (case fz_accountModel p of Some m \<Rightarrow> m | None \<Rightarrow> dc_accountModelDefault cfg),
     gi_provider = dc_provider cfg, gi_sessionKeyRef = Some key, gi_permissionId = permissionId,
     gi_policy = policy,
     gi_meta = JObj [(''accountAddress'', JStr (fz_accountAddress p)), (''enableData'', JStr enableData),
       (''maxTakerFillAmountQ'', JStr (big_to_string (po_maxTakerFillAmountQ policy)))],
     gi_status = G_ACTIVE\<rparr>"

text \<open>\<open>gid\<close> is the id the database gives the row.\<close>

definition finalizeGrant ::
  "deleg_world \<Rightarrow> delegation_config \<Rightarrow> int \<Rightarrow> string \<Rightarrow> finalize_params \<Rightarrow> deleg \<Rightarrow>
     (string + string \<times> string option) result \<times> deleg" where
  "finalizeGrant x cfg now gid p d =
    (case delegationWriteGate (dx_env x) cfg of
       Some reason \<Rightarrow> (Inr (Inl reason), d)
     | None \<Rightarrow>
         (case bind_res (signer_address x cfg) (\<lambda>a. case a of
             None \<Rightarrow> Inr (Inl ''session_signer_unavailable'')
           | Some key \<Rightarrow> bind_res (buildPolicyForIntent x cfg (fz_intentId p) (fz_owner p) d) (\<lambda>b. case b of
               Inl reason \<Rightarrow> Inr (Inl reason)
             | Inr policy \<Rightarrow>
                 bind_res (dx_finalize x (fz_intentId p) (fz_owner p) (fz_sessionBlob p) (fz_ownerSignature p)) (\<lambda>res.
                   case res of
                     Inl reason \<Rightarrow> Inr (Inl (reason_or ''finalize_failed'' reason))
                   | Inr f \<Rightarrow> (case non_empty (fr_enableData f) of
                       None \<Rightarrow> Inr (Inl ''finalize_failed'')
                     | Some enableData \<Rightarrow>
                         Inr (Inr (grant_input_of cfg p policy key (fr_permissionId f) enableData)))))) of
            Inl e \<Rightarrow> (Inl e, d)
          | Inr (Inl reason) \<Rightarrow> (Inr (Inl reason), d)
          | Inr (Inr inp) \<Rightarrow>
              (case create_grant now gid inp (de_grants d) of
                 (Inl e, gs) \<Rightarrow> (Inl e, d)
               | (Inr row, gs) \<Rightarrow> (Inr (Inr (gr_id row, gi_permissionId inp)), d\<lparr>de_grants := gs\<rparr>))))"

definition meta_string :: "jval \<Rightarrow> string \<Rightarrow> string option" where
  "meta_string meta k = (case jget meta k of JStr s \<Rightarrow> Some s | _ \<Rightarrow> None)"

definition revoke ::
  "deleg_world \<Rightarrow> delegation_config \<Rightarrow> int \<Rightarrow> string \<Rightarrow> string \<Rightarrow> deleg \<Rightarrow>
     (string + string option \<times> string option) result \<times> deleg" where
  "revoke x cfg now i owner d =
    (case delegationWriteGate (dx_env x) cfg of
       Some reason \<Rightarrow> (Inr (Inl reason), d)
     | None \<Rightarrow>
         (case findByIntentId i (de_grants d) of
            None \<Rightarrow> (Inr (Inl ''grant_not_found''), d)
          | Some g \<Rightarrow>
              if to_lower (gr_owner g) \<noteq> to_lower owner then (Inr (Inl ''owner_mismatch''), d)
              else (case dx_revoke x i owner
                      (case meta_string (gr_meta g) ''accountAddress'' of Some a \<Rightarrow> a | None \<Rightarrow> gr_owner g)
                      (case gr_permissionId g of Some p \<Rightarrow> p | None \<Rightarrow> '''') of
                Inl e \<Rightarrow> (Inl e, d)
              | Inr res \<Rightarrow>
                  (case markStatus now (gr_id g) G_REVOKED (de_grants d) of
                     (Inl e, gs) \<Rightarrow> (Inl e, d\<lparr>de_grants := gs\<rparr>)
                   | (Inr _, gs) \<Rightarrow>
                       ((case res of
                           Inl reason \<Rightarrow> Inr (Inl (reason_or ''revoke_failed'' reason))
                         | Inr call \<Rightarrow> Inr (Inr call)), d\<lparr>de_grants := gs\<rparr>)))))"

end
