(* ===== verification/DelegatedExecutor.thy ===== *)
theory DelegatedExecutor
  imports Delegation Rehydrate TxBuilders
begin

text \<open>
  The execution of a grant, under \<open>apps/api/src/sea/delegated\<close>: the fresh single fill
  (\<open>delegated-fill.builder.ts\<close>), the reconciliation of a confirmed fill
  (\<open>delegated-fill-reconciler.service.ts\<close>) and the worker (\<open>delegated-executor.worker.ts\<close>).

  \<open>env\<close> is what the rest of the API does to the state of the SEA services after the worker has
  read its batch, and again while it waits for the provider. Timers and log lines are left out.
\<close>

section \<open>A fresh fill\<close>

text \<open>The local readers: \<open>toBig\<close> of this file is \<open>asBig\<close> of the signing service.\<close>

definition df_sanitizeOrder :: "jval \<Rightarrow> limit_order result" where
  "df_sanitizeOrder r =
    bind_res (asBig (jget r ''makerAmount'')) (\<lambda>ma.
    bind_res (asBig (jget r ''takerAmount'')) (\<lambda>ta.
    bind_res (asBig (jget r ''takerTokenFeeAmount'')) (\<lambda>fee.
    bind_res (asBig (jget r ''salt'')) (\<lambda>salt. Inr
      \<lparr>lo_makerToken = asAddr (jget r ''makerToken''), lo_takerToken = asAddr (jget r ''takerToken''),
       lo_makerAmount = ma, lo_takerAmount = ta, lo_takerTokenFeeAmount = fee,
       lo_maker = asAddr (jget r ''maker''), lo_taker = asAddr (jget r ''taker''),
       lo_sender = asAddr (jget r ''sender''), lo_feeRecipient = asAddr (jget r ''feeRecipient''),
       lo_pool = asBytes32 (jget r ''pool''), lo_expiry = toNum (jget r ''expiry''), lo_salt = salt\<rparr>))))"

record fill_request =
  dfr_marketId :: string
  dfr_side :: side
  dfr_sizeBase :: int
  dfr_triggerPriceTicks :: int

record fresh_fill =
  ff_target :: string
  ff_calldata :: string
  ff_quote :: delegated_quote
  ff_expected :: exec_expected

text \<open>The raw order and signature of the fill, from the book or else from the database.\<close>

definition hydrated :: "db \<Rightarrow> quote_fill \<Rightarrow> (jval \<times> jval) option" where
  "hydrated d f =
    (case (qf_rawOrder f, qf_rawSig f) of
       (Some ro, Some sg) \<Rightarrow>
         if truthy ro \<and> truthy sg then Some (ro, sg)
         else (case findRawOrderByHash d (qf_hash f) of
                 (Some ro, Some t) \<Rightarrow> if truthy ro then Some (ro, tuple_json t) else None | _ \<Rightarrow> None)
     | _ \<Rightarrow> (case findRawOrderByHash d (qf_hash f) of
                 (Some ro, Some t) \<Rightarrow> if truthy ro then Some (ro, tuple_json t) else None | _ \<Rightarrow> None))"

definition taker_fill :: "side \<Rightarrow> int \<Rightarrow> limit_order \<Rightarrow> int" where
  "taker_fill sd fillBase lo =
    (case sd of
       BUY \<Rightarrow> tdiv (fillBase * lo_takerAmount lo) (if lo_makerAmount lo = 0 then 1 else lo_makerAmount lo)
     | SELL \<Rightarrow> fillBase)"

definition taker_fee :: "int \<Rightarrow> limit_order \<Rightarrow> int" where
  "taker_fee takerFillAmount lo =
    (if lo_takerAmount lo = 0 then 0
     else tdiv (lo_takerTokenFeeAmount lo * takerFillAmount) (lo_takerAmount lo))"

definition fresh_price :: "trading_ctx \<Rightarrow> limit_order \<Rightarrow> int result" where
  "fresh_price ctx lo =
    (if lo_makerAmount lo = 0 \<or> lo_takerAmount lo = 0 then Inr 0
     else if to_lower (lo_makerToken lo) = to_lower (ctx_baseAddress ctx)
     then big_div (lo_takerAmount lo * pow10 (ctx_baseDecimals ctx)) (lo_makerAmount lo * ctx_priceTickQ ctx)
     else big_div (lo_makerAmount lo * pow10 (ctx_baseDecimals ctx)) (lo_takerAmount lo * ctx_priceTickQ ctx))"

definition fill_of_order ::
  "deleg_world \<Rightarrow> fill_request \<Rightarrow> string \<Rightarrow> trading_ctx \<Rightarrow> string \<Rightarrow> int \<Rightarrow> int \<Rightarrow> limit_order \<Rightarrow> jval \<Rightarrow>
     fresh_fill result" where
  "fill_of_order x rq account ctx h fillBase remaining lo sg =
    (let fill = taker_fill (dfr_side rq) fillBase lo; fee = taker_fee fill lo;
         takerToken = (case dfr_side rq of BUY \<Rightarrow> ctx_quoteAddress ctx | SELL \<Rightarrow> ctx_baseAddress ctx)
     in bind_res (fresh_price ctx lo) (\<lambda>px.
        bind_res (buildFillLimitOrder (sx_zx (dx_sea x)) (sx_cfg (dx_sea x)) (dx_abi x) lo sg fill) (\<lambda>(to, calldata). Inr
          \<lparr>ff_target = to, ff_calldata = calldata,
           ff_quote = \<lparr>dq_marketId = dfr_marketId rq, dq_side = dfr_side rq, dq_fillsCount = 1,
             dq_remainingBaseB = remaining, dq_takerToken = takerToken,
             dq_takerFillAmountQ = fill, dq_takerTotalAmountQ = fill + fee\<rparr>,
           ff_expected = \<lparr>xe_orderHash = h, xe_taker = account, xe_takerToken = takerToken,
             xe_takerFillAmount = fill, xe_takerFeeAmount = fee, xe_execBase = fillBase,
             xe_priceTicks = px\<rparr>\<rparr>)))"

fun sum_sizes :: "quote_fill list \<Rightarrow> int result" where
  "sum_sizes [] = Inr 0"
| "sum_sizes (f # fs) =
    bind_res (str_to_bigint (qf_sizeBase f)) (\<lambda>n. bind_res (sum_sizes fs) (\<lambda>m. Inr (n + m)))"

text \<open>What follows the quote; \<open>Inl\<close> inside is \<open>ok: false\<close> with its reason.\<close>

definition fresh_plan ::
  "deleg_world \<Rightarrow> fill_request \<Rightarrow> string \<Rightarrow> trading_ctx \<Rightarrow> quote_res \<Rightarrow> db \<Rightarrow> (string + fresh_fill) result" where
  "fresh_plan x rq account ctx plan d =
    bind_res (sum_sizes (q_fills plan)) (\<lambda>availableBase.
      let remaining = (if dfr_sizeBase rq > availableBase then dfr_sizeBase rq - availableBase else 0) in
      case q_fills plan of
        [f] \<Rightarrow>
          if remaining \<noteq> 0 then Inr (Inl ''not_full_size'')
          else (case hydrated d f of
                  None \<Rightarrow> Inr (Inl ''missing_raw'')
                | Some (ro, sg) \<Rightarrow>
                    bind_res (df_sanitizeOrder ro) (\<lambda>lo.
                    bind_res (str_to_bigint (qf_sizeBase f)) (\<lambda>fillBase.
                    bind_res (fill_of_order x rq account ctx (qf_hash f) fillBase remaining lo sg) (\<lambda>ff.
                      Inr (Inr ff)))))
      | _ \<Rightarrow> Inr (Inl ''requires_single_fill''))"

definition buildFreshFill ::
  "deleg_world \<Rightarrow> fill_request \<Rightarrow> string \<Rightarrow> sea \<Rightarrow> (string + fresh_fill) \<times> sea" where
  "buildFreshFill x rq account s =
    (case getTradingContext (sea_db s) (dfr_marketId rq) of
       Inl e \<Rightarrow> (Inl ''build_error'', s)
     | Inr ctx \<Rightarrow>
         (case on_engine (quote (TAKER_FEE_BPS (dx_env x)) (dfr_marketId rq) (dfr_side rq) (dfr_sizeBase rq)
                 (Some (dfr_triggerPriceTicks rq))) s of
            (Inl e, s1) \<Rightarrow> (Inl ''build_error'', s1)
          | (Inr plan, s1) \<Rightarrow>
              (case fresh_plan x rq account ctx plan (sea_db s1) of
                 Inl e \<Rightarrow> (Inl ''build_error'', s1)
               | Inr r \<Rightarrow> (r, s1))))"


section \<open>Reconciliation\<close>

record reconcile_input =
  ri_marketId :: string
  ri_orderHash :: string
  ri_execBase :: int
  ri_taker :: string
  ri_priceTicks :: int
  ri_txHash :: string

text \<open>Whether it reconciled, and the status of the order or the reason; whatever throws is a reason.\<close>

definition reconcileConfirmedFill ::
  "int \<Rightarrow> reconcile_input \<Rightarrow> engine \<Rightarrow> (string + fill_status) \<times> engine" where
  "reconcileConfirmedFill now ri e =
    (if ri_execBase ri \<le> 0 then (Inl ''nonpositive_execBase'', e)
     else if findTradeByTxHashForIntent (eng_db e) (ri_txHash ri) (ri_marketId ri) (ri_taker ri) \<noteq> None
     then (Inl ''already_reconciled'', e)
     else (case addTrade now (ri_marketId ri) (ri_orderHash ri) (to_lower (ri_taker ri)) (ri_priceTicks ri)
                  (ri_execBase ri) (Some (ri_txHash ri)) (eng_db e) of
             (Inl err, d) \<Rightarrow> (Inl ''reconcile_error'', e\<lparr>eng_db := d\<rparr>)
           | (Inr _, d) \<Rightarrow>
               (case applyExternalFill now (ri_marketId ri) (ri_orderHash ri) (ri_execBase ri) (e\<lparr>eng_db := d\<rparr>) of
                  (Inl err, e1) \<Rightarrow> (Inl ''reconcile_error'', e1)
                | (Inr st, e1) \<Rightarrow> (Inr st, e1))))"

section \<open>The worker\<close>

definition exec_interval_ms :: "penv \<Rightarrow> rat" where
  "exec_interval_ms pe = ranged_env pe ''SEA_DELEGATED_EXEC_INTERVAL_MS'' (\<lambda>q. q \<ge> 1000) 5000"

definition exec_limit_per_tick :: "penv \<Rightarrow> rat" where
  "exec_limit_per_tick pe = ranged_env pe ''SEA_DELEGATED_EXEC_LIMIT_PER_TICK'' (\<lambda>q. q > 0 \<and> q \<le> 100) 10"

text \<open>
  A hash the provider returns fits its column, so the audit append always succeeds. The grant
  service stores the fields of \<open>meta\<close> as strings.
\<close>

definition audit_row ::
  "intent_row \<Rightarrow> grant_row \<Rightarrow> exec_decision \<Rightarrow> string \<Rightarrow> string option \<Rightarrow> deleg \<Rightarrow> deleg" where
  "audit_row r g decision reason txHash d =
    d\<lparr>de_attempts := de_attempts d @
      [\<lparr>at_intentId = it_id r, at_grantId = Some (gr_id g), at_chainId = gr_chainId g,
        at_profile = gr_profile g, at_decision = decision, at_reason = Some reason,
        at_txHash = txHash, at_providerRef = gr_permissionId g\<rparr>]\<rparr>"

definition meta_field :: "grant_row \<Rightarrow> string \<Rightarrow> string option" where
  "meta_field g k = non_empty (meta_string (gr_meta g) k)"

definition stored_max :: "grant_row \<Rightarrow> int result" where
  "stored_max g = (let v = jget (gr_meta g) ''maxTakerFillAmountQ'' in if jnullish v then Inr 0 else js_BigInt v)"

definition policyFromGrant :: "deleg_world \<Rightarrow> grant_row \<Rightarrow> delegation_policy result" where
  "policyFromGrant x g =
    bind_res (str_to_bigint (sx_decToString (dx_sea x) (gr_spendCapQ g))) (\<lambda>cap.
    bind_res (stored_max g) (\<lambda>most. Inr
        \<lparr>po_chainId = gr_chainId g, po_profile = gr_profile g, po_target = gr_target g,
         po_functionSelector = gr_functionSelector g, po_usageLimit = gr_usageLimit g,
         po_validUntil = gr_validUntil g div 1000, po_spendToken = gr_spendToken g,
         po_spendCapQ = cap, po_maxTakerFillAmountQ = most, po_accountModel = gr_accountModel g\<rparr>))"

definition request_of ::
  "intent_row \<Rightarrow> grant_row \<Rightarrow> string \<Rightarrow> string \<Rightarrow> string \<Rightarrow> delegation_policy \<Rightarrow> fresh_fill \<Rightarrow> exec_request" where
  "request_of r g account enableData permissionId policy ff =
    \<lparr>xr_intentId = it_id r, xr_accountModel = gr_accountModel g, xr_accountAddress = account,
     xr_permissionId = permissionId, xr_enableData = enableData, xr_policy = policy,
     xr_target = ff_target ff, xr_calldata = ff_calldata ff, xr_expected = ff_expected ff\<rparr>"

text \<open>The checks on a fresh fill: a reason to reject it, if any.\<close>

definition fill_refused :: "int \<Rightarrow> delegation_policy \<Rightarrow> fresh_fill \<Rightarrow> string option" where
  "fill_refused now policy ff =
    (if ff_calldata ff = '''' \<or> ff_target ff = '''' then Some ''no_fill''
     else case validateFreshQuoteAgainstPolicy (now div 1000) policy (ff_quote ff) of
       Some reason \<Rightarrow> Some reason
     | None \<Rightarrow> if to_lower (ff_target ff) \<noteq> to_lower (po_target policy) then Some ''target_mismatch'' else None)"

text \<open>Up to the claim: an exception, a reason to reject, or the request to submit.\<close>

definition checked_request ::
  "deleg_world \<Rightarrow> int \<Rightarrow> intent_row \<Rightarrow> grant_row \<Rightarrow> sea \<Rightarrow> (string + exec_request) result \<times> sea" where
  "checked_request x now r g s =
    (case (meta_field g ''accountAddress'', meta_field g ''enableData'', non_empty (gr_permissionId g)) of
       (Some account, Some enableData, Some permissionId) \<Rightarrow>
         (case bind_res (policyFromGrant x g) (\<lambda>policy.
             bind_res (str_to_bigint (sx_decToString (dx_sea x) (it_sizeBase r))) (\<lambda>n. Inr (policy, n))) of
            Inl e \<Rightarrow> (Inl e, s)
          | Inr (policy, n) \<Rightarrow>
              (case buildFreshFill x
                  \<lparr>dfr_marketId = it_marketId r, dfr_side = it_side r, dfr_sizeBase = n,
                   dfr_triggerPriceTicks = it_triggerPriceTicks r\<rparr> account s of
                 (Inl reason, s1) \<Rightarrow> (Inr (Inl reason), s1)
               | (Inr ff, s1) \<Rightarrow>
                   ((case fill_refused now policy ff of
                       Some reason \<Rightarrow> Inr (Inl reason)
                     | None \<Rightarrow> Inr (Inr (request_of r g account enableData permissionId policy ff))), s1)))
     | _ \<Rightarrow> (Inr (Inl ''grant_incomplete''), s))"

definition on_deleg :: "(intents \<Rightarrow> 'a \<times> intents) \<Rightarrow> deleg \<Rightarrow> 'a \<times> deleg" where
  "on_deleg f d = (let (r, s) = on_intents f (de_sea d) in (r, d\<lparr>de_sea := s\<rparr>))"

definition grant_status_to :: "int \<Rightarrow> grant_row \<Rightarrow> grant_status \<Rightarrow> deleg \<Rightarrow> deleg" where
  "grant_status_to now g status d = d\<lparr>de_grants := setGrantStatus now (gr_id g) status (de_grants d)\<rparr>"

definition reconcile_in :: "int \<Rightarrow> reconcile_input \<Rightarrow> deleg \<Rightarrow> deleg" where
  "reconcile_in now ri d =
    d\<lparr>de_sea := (de_sea d)\<lparr>sea_engine := snd (reconcileConfirmedFill now ri (sea_engine (de_sea d)))\<rparr>\<rparr>"

text \<open>The end of an attempt, by what the provider answered.\<close>

definition give_back :: "int \<Rightarrow> intent_row \<Rightarrow> grant_row \<Rightarrow> string \<Rightarrow> deleg \<Rightarrow> deleg" where
  "give_back now r g reason d =
    audit_row r g D_REJECTED reason None (snd (on_deleg (releaseToReady now (it_id r)) d))"

definition settle_confirmed ::
  "int \<Rightarrow> intent_row \<Rightarrow> grant_row \<Rightarrow> exec_request \<Rightarrow> string \<Rightarrow> deleg \<Rightarrow> deleg" where
  "settle_confirmed now r g rq txHash d =
    (let (executed, d1) = on_deleg (delegated_markExecuted now (it_id r) txHash) d;
         d2 = audit_row r g D_CONFIRMED ''fill_verified'' (Some txHash) (grant_status_to now g G_USED d1);
         xe = xr_expected rq
     in if executed then reconcile_in now
          \<lparr>ri_marketId = it_marketId r, ri_orderHash = xe_orderHash xe, ri_execBase = xe_execBase xe,
           ri_taker = xr_accountAddress rq, ri_priceTicks = xe_priceTicks xe, ri_txHash = txHash\<rparr> d2
        else d2)"

definition settle_unverified ::
  "int \<Rightarrow> intent_row \<Rightarrow> grant_row \<Rightarrow> string \<Rightarrow> string \<Rightarrow> deleg \<Rightarrow> deleg" where
  "settle_unverified now r g reason txHash d =
    audit_row r g D_FAILED reason (Some txHash) (grant_status_to now g G_FAILED
      (snd (on_deleg (delegated_markFailed now (it_id r) reason (Some txHash)) d)))"

definition settle_attempt ::
  "int \<Rightarrow> intent_row \<Rightarrow> grant_row \<Rightarrow> exec_request \<Rightarrow> exec_result result \<Rightarrow> deleg \<Rightarrow> deleg" where
  "settle_attempt now r g rq answer d =
    (case answer of
       Inl e \<Rightarrow> give_back now r g (''execute_threw:'' @ exn_message e) d
     | Inr res \<Rightarrow>
         (case non_empty (xs_txHash res) of
            None \<Rightarrow> give_back now r g (reason_or ''submit_rejected'' (xs_reason res)) d
          | Some h \<Rightarrow>
              if xs_ok res \<and> xs_confirmed res then settle_confirmed now r g rq h d
              else settle_unverified now r g (reason_or ''fill_unverified'' (xs_reason res)) h d))"

text \<open>Where the rest of the API may run: before a plan, before the claim, while the provider works.\<close>

datatype await_point = Before_plan | Before_claim | While_executing

text \<open>The claim, and what follows it when it is won.\<close>

definition submit ::
  "deleg_world \<Rightarrow> (await_point \<Rightarrow> deleg \<Rightarrow> deleg) \<Rightarrow> int \<Rightarrow> intent_row \<Rightarrow> grant_row \<Rightarrow> exec_request \<Rightarrow>
     deleg \<Rightarrow> deleg" where
  "submit x env now r g rq d =
    (let (claimed, d1) = on_deleg (claimExecuting now (it_id r)) (env Before_claim d) in
     if \<not> claimed then d1
     else settle_attempt now r g rq (dx_execute x rq)
            (env While_executing (audit_row r g D_VALIDATED ''claimed'' None d1)))"

definition processOne ::
  "deleg_world \<Rightarrow> (await_point \<Rightarrow> deleg \<Rightarrow> deleg) \<Rightarrow> int \<Rightarrow> intent_row \<times> grant_row \<Rightarrow> deleg \<Rightarrow>
     unit result \<times> deleg" where
  "processOne x env now rg d =
    (let (r, g) = rg; d0 = env Before_plan d;
         (plan, s) = checked_request x now r g (de_sea d0); d1 = d0\<lparr>de_sea := s\<rparr>
     in case plan of
       Inl e \<Rightarrow> (Inl e, d1)
     | Inr (Inl reason) \<Rightarrow> (Inr (), audit_row r g D_REJECTED reason None d1)
     | Inr (Inr rq) \<Rightarrow> (Inr (), submit x env now r g rq d1))"

fun process_all ::
  "deleg_world \<Rightarrow> (await_point \<Rightarrow> deleg \<Rightarrow> deleg) \<Rightarrow> int \<Rightarrow> (intent_row \<times> grant_row) list \<Rightarrow> deleg \<Rightarrow>
     unit result \<times> deleg" where
  "process_all x env now [] d = (Inr (), d)"
| "process_all x env now (rg # rgs) d =
    (case processOne x env now rg d of
       (Inl e, d1) \<Rightarrow> (Inl e, d1)
     | (Inr _, d1) \<Rightarrow> process_all x env now rgs d1)"

definition exec_tick ::
  "deleg_world \<Rightarrow> delegation_config \<Rightarrow> (await_point \<Rightarrow> deleg \<Rightarrow> deleg) \<Rightarrow> int \<Rightarrow> rat \<Rightarrow> deleg \<Rightarrow>
     unit result \<times> deleg" where
  "exec_tick x cfg env now limitPerTick d =
    (if delegationExecGate (dx_env x) cfg \<noteq> None \<or> \<not> signer_available (dx_env x) cfg then (Inr (), d)
     else if \<not> is_int_rat limitPerTick then (Inl (PlainError ''PrismaClientValidationError''), d)
     else process_all x env now
       (findExecutable now (nat \<lfloor>limitPerTick\<rfloor>) (de_grants d) (sea_intents (de_sea d))) d)"

end
