(* ===== verification/Watcher.thy ===== *)
theory Watcher
  imports SeaRefinement
begin

text \<open>
  What \<open>apps/api/src/onchain/fill-watcher.service.ts\<close> and \<open>cancel-watcher.service.ts\<close> have in
  common, text for text: the persisted cursor, the configuration read by the constructor, the
  boot, the cooldown, the guards on decoded calldata and the loop over blocks.

  An RPC call returns its value or throws a \<open>jval\<close>. A block is the array of its transactions or a
  payload without one. The cursor file is absent, unreadable (a read or \<open>JSON.parse\<close> that throws)
  or a JSON value; a write to it may fail and is then ignored. The timers are not modelled, and log
  lines are left out.
\<close>

section \<open>The cursor file\<close>

datatype cursor_file = NoFile | Unreadable | Json jval

text \<open>\<open>String(v)\<close> is only parsed as an integer here; a number is in plain decimal notation.\<close>

definition cursor_number :: "jval \<Rightarrow> jnum" where
  "cursor_number v =
    (case v of JStr s \<Rightarrow> parse_int 10 s | JNum n \<Rightarrow> if num_finite n then num_trunc n else NaN | _ \<Rightarrow> NaN)"

definition loadCursor :: "cursor_file \<Rightarrow> int option" where
  "loadCursor f =
    (case f of
       Json v \<Rightarrow>
         if jnullish v then None
         else (case cursor_number (jget v ''lastScanned'') of
                 Fin q \<Rightarrow> if 0 < q then Some \<lfloor>q\<rfloor> else None
               | _ \<Rightarrow> None)
     | _ \<Rightarrow> None)"

definition cursor_json :: "int \<Rightarrow> cursor_file" where
  "cursor_json height = Json (JObj [(''lastScanned'', JStr (big_to_string height))])"

definition saveCursor :: "bool \<Rightarrow> int \<Rightarrow> cursor_file \<Rightarrow> cursor_file" where
  "saveCursor writable height f = (if writable then cursor_json height else f)"

section \<open>The watcher\<close>

record watch =
  wt_lastScanned :: int
  wt_backoff :: backoff
  wt_cooldownUntil :: int
  wt_needsCursorInit :: bool
  wt_cursor :: cursor_file

record watch_cfg =
  wc_enabled :: bool
  wc_chainId :: int
  wc_maxBlocks :: int
  wc_intervalMs :: int

text \<open>
  The constructor; \<open>CHAIN_ID\<close> is an integer when it is a positive number. \<open>specific\<close>,
  \<open>maxKey\<close> and \<open>intKey\<close> are the names of the watcher's own three variables.
\<close>

definition env_number :: "penv \<Rightarrow> string \<Rightarrow> int \<Rightarrow> jnum" where
  "env_number pe k d = (case pe k of Some v \<Rightarrow> str_to_num v | None \<Rightarrow> num d)"

definition new_watcher ::
  "penv \<Rightarrow> string \<Rightarrow> string \<Rightarrow> string \<Rightarrow> string \<Rightarrow> cursor_file \<Rightarrow> (watch_cfg \<times> watch) result" where
  "new_watcher pe specific maxKey intKey rpcUrl file =
    (if rpcUrl = [] then Inl (PlainError ''RPC_URL_READONLY'')
     else Inr
       (\<lparr>wc_enabled = resolveWatcherEnabled (pe specific) (pe ''DEV_ONCHAIN_WATCHER''),
         wc_chainId = positive_floor (env_number pe ''CHAIN_ID'' 8453) 8453,
         wc_maxBlocks = min 500 (max 1 (positive_floor (env_number pe maxKey 100) 100)),
         wc_intervalMs = max 500 (positive_floor (env_number pe intKey 2000) 2000)\<rparr>,
        \<lparr>wt_lastScanned = 0,
         wt_backoff = new_backoff (env_number pe ''WATCHER_RPC_BACKOFF_BASE_MS'' 15000)
           (env_number pe ''WATCHER_RPC_BACKOFF_MAX_MS'' 120000),
         wt_cooldownUntil = 0, wt_needsCursorInit = False, wt_cursor = file\<rparr>))"

definition initCursorFrom :: "bool \<Rightarrow> int \<Rightarrow> watch \<Rightarrow> watch" where
  "initCursorFrom writable latest w =
    (case loadCursor (wt_cursor w) of
       Some p \<Rightarrow>
         if p \<le> latest then w\<lparr>wt_lastScanned := p\<rparr>
         else w\<lparr>wt_lastScanned := max 0 (latest - 1),
                wt_cursor := saveCursor writable (max 0 (latest - 1)) (wt_cursor w)\<rparr>
     | None \<Rightarrow> w\<lparr>wt_lastScanned := max 0 (latest - 1),
                 wt_cursor := saveCursor writable (max 0 (latest - 1)) (wt_cursor w)\<rparr>)"

definition enterCooldown :: "int \<Rightarrow> watch \<Rightarrow> watch" where
  "enterCooldown now w =
    (let (ms, b) = nextDelay (wt_backoff w) in w\<lparr>wt_backoff := b, wt_cooldownUntil := now + ms\<rparr>)"

text \<open>The result says whether the timer is started.\<close>

definition onModuleInit :: "watch_cfg \<Rightarrow> bool \<Rightarrow> jval + int \<Rightarrow> int \<Rightarrow> watch \<Rightarrow> bool \<times> watch" where
  "onModuleInit cfg writable head now w =
    (if \<not> wc_enabled cfg then (False, w)
     else case head of
       Inl e \<Rightarrow>
         if isTransientRpcError e then (True, enterCooldown now (w\<lparr>wt_needsCursorInit := True\<rparr>))
         else (False, w)
     | Inr latest \<Rightarrow> (True, initCursorFrom writable latest w))"

section \<open>Blocks\<close>

datatype raw_block = NoTransactions | Transactions "jval list"

type_synonym rpc_block = "int \<Rightarrow> jval + raw_block"

datatype scan_end = Scanned | FetchFailed jval | TxThrew

text \<open>The loop over a range of blocks; \<open>run\<close> handles one transaction and says whether it returned.\<close>

fun scan_txs :: "(jval \<Rightarrow> 'd \<Rightarrow> bool \<times> 'd) \<Rightarrow> jval list \<Rightarrow> 'd \<Rightarrow> bool \<times> 'd" where
  "scan_txs run [] d = (True, d)"
| "scan_txs run (tx # txs) d =
    (case run tx d of (True, d1) \<Rightarrow> scan_txs run txs d1 | (False, d1) \<Rightarrow> (False, d1))"

fun scan_blocks ::
  "rpc_block \<Rightarrow> (jval \<Rightarrow> 'd \<Rightarrow> bool \<times> 'd) \<Rightarrow> int list \<Rightarrow> 'd \<Rightarrow> scan_end \<times> 'd" where
  "scan_blocks fetch run [] d = (Scanned, d)"
| "scan_blocks fetch run (b # bs) d =
    (case fetch b of
       Inl e \<Rightarrow> (FetchFailed e, d)
     | Inr NoTransactions \<Rightarrow> scan_blocks fetch run bs d
     | Inr (Transactions txs) \<Rightarrow>
         (case scan_txs run txs d of
            (True, d1) \<Rightarrow> scan_blocks fetch run bs d1
          | (False, d1) \<Rightarrow> (TxThrew, d1)))"

datatype tick_end = Idle | Paused | Retried | Threw | Done

definition target_of :: "watch_cfg \<Rightarrow> int \<Rightarrow> watch \<Rightarrow> int" where
  "target_of cfg latest w = min latest (wt_lastScanned w + wc_maxBlocks cfg)"

text \<open>The head of a tick: the deferred initialisation of the cursor and the reset of the backoff.\<close>

definition clean_head :: "bool \<Rightarrow> int \<Rightarrow> watch \<Rightarrow> watch" where
  "clean_head writable latest w =
    (let w1 = (if wt_needsCursorInit w
               then (initCursorFrom writable latest w)\<lparr>wt_needsCursorInit := False\<rparr> else w)
     in w1\<lparr>wt_backoff := reset (wt_backoff w1)\<rparr>)"

text \<open>The end of a tick.\<close>

definition advance :: "bool \<Rightarrow> int \<Rightarrow> watch \<Rightarrow> watch" where
  "advance writable target w =
    w\<lparr>wt_lastScanned := target, wt_cursor := saveCursor writable target (wt_cursor w)\<rparr>"

section \<open>Decoded calldata\<close>

definition isBig :: "jval \<Rightarrow> bool" where
  "isBig v = (case v of JBig _ \<Rightarrow> True | _ \<Rightarrow> False)"

definition isHexAddr :: "jval \<Rightarrow> bool" where
  "isHexAddr v = (case v of JStr s \<Rightarrow> is_0x_hex 40 s | _ \<Rightarrow> False)"

definition isHex32_0x :: "jval \<Rightarrow> bool" where
  "isHex32_0x v = (case v of JStr s \<Rightarrow> is_0x_hex 64 s | _ \<Rightarrow> False)"

definition is_object :: "jval \<Rightarrow> bool" where
  "is_object v = (case v of JObj _ \<Rightarrow> True | _ \<Rightarrow> False)"

definition isDecodedOrderLike :: "(jval \<Rightarrow> bool) \<Rightarrow> jval \<Rightarrow> bool" where
  "isDecodedOrderLike hex32 v \<longleftrightarrow> is_object v \<and>
    isHexAddr (jget v ''makerToken'') \<and> isHexAddr (jget v ''takerToken'') \<and>
    isBig (jget v ''makerAmount'') \<and> isBig (jget v ''takerAmount'') \<and>
    isBig (jget v ''takerTokenFeeAmount'') \<and>
    isHexAddr (jget v ''maker'') \<and> isHexAddr (jget v ''taker'') \<and> isHexAddr (jget v ''sender'') \<and>
    isHexAddr (jget v ''feeRecipient'') \<and> hex32 (jget v ''pool'') \<and>
    isBig (jget v ''expiry'') \<and> isBig (jget v ''salt'')"

definition toZx :: "jval \<Rightarrow> jval" where
  "toZx v = JObj
    (map (\<lambda>k. (k, jget v k)) [''makerToken'', ''takerToken'', ''makerAmount'', ''takerAmount'',
       ''takerTokenFeeAmount'', ''maker'', ''taker'', ''sender'', ''feeRecipient'', ''pool''] @
     [(''expiry'', JNum (js_Number (jget v ''expiry''))), (''salt'', jget v ''salt'')])"

definition big_of :: "jval \<Rightarrow> int" where
  "big_of v = (case v of JBig i \<Rightarrow> i | _ \<Rightarrow> 0)"

definition token_of :: "jval \<Rightarrow> string \<Rightarrow> string" where
  "token_of v k = to_lower (json_string (jget v k))"

definition market_of_tokens :: "db \<Rightarrow> string \<Rightarrow> string \<Rightarrow> market_basic option" where
  "market_of_tokens d mk tk =
    find (\<lambda>m. let base = to_lower (mb_baseAddress m); quote = to_lower (mb_quoteAddress m)
              in (base = mk \<and> quote = tk) \<or> (base = tk \<and> quote = mk)) (listMarketsBasic d)"

definition on_db :: "(db \<Rightarrow> 'a \<times> db) \<Rightarrow> sea \<Rightarrow> 'a \<times> sea" where
  "on_db f s = on_engine (\<lambda>e. let (r, d) = f (eng_db e) in (r, e\<lparr>eng_db := d\<rparr>)) s"

end
