(* ===== verification/FillWatcher.thy ===== *)
theory FillWatcher
  imports Watcher
begin

text \<open>
  \<open>apps/api/src/onchain/fill-watcher.service.ts\<close>: the reconciliation of on-chain fills. A tick
  reads the blocks after the cursor, and for each transaction to the exchange proxy whose calldata
  starts with the selector of \<open>fillLimitOrder\<close> it decodes the order, finds its market, computes
  the size filled, skips what it has handled already, looks at the receipt, and either fails the
  executing intent (a reverted transaction) or records the trade, applies the fill to the book and
  the order row, and settles the executing intent.

  The ABI decoder (with the selector it derives) is a parameter, and so are the head of the chain,
  the blocks and the receipts of a tick. \<open>env\<close> is what the rest of the API does to the state while
  a candidate waits for its receipt; one tick is otherwise one step. The model state is the
  de-duplication set, in insertion order, and the state of the SEA services.
\<close>

record fill_ext =
  fx_sea :: sea_ext
  fx_selector :: string
  fx_decode :: "string \<Rightarrow> jval list result"

record fills =
  fs_seen :: "string list"
  fs_sea :: sea

section \<open>Reading a transaction\<close>

definition new_fill_watcher :: "penv \<Rightarrow> string \<Rightarrow> cursor_file \<Rightarrow> (watch_cfg \<times> watch) result" where
  "new_fill_watcher pe rpcUrl file =
    new_watcher pe ''DEV_FILL_WATCHER'' ''FILL_WATCHER_MAX_BLOCKS_PER_TICK''
      ''FILL_WATCHER_INTERVAL_MS'' rpcUrl file"

definition tx_to :: "jval \<Rightarrow> string" where
  "tx_to tx = to_lower (json_string (jget tx ''to''))"

definition tx_hash :: "jval \<Rightarrow> string" where
  "tx_hash tx = (let h = json_string (jget tx ''hash'') in if is_0x_hex 64 h then h else '''')"

definition tx_data :: "jval \<Rightarrow> string" where
  "tx_data tx =
    (let raw = (case jget tx ''input'' of JStr s \<Rightarrow> s
                | _ \<Rightarrow> (case jget tx ''data'' of JStr s \<Rightarrow> s | _ \<Rightarrow> ''0x''))
     in if starts_with raw ''0x'' then raw else ''0x'')"

definition tx_taker :: "jval \<Rightarrow> string" where
  "tx_taker tx = (let f = json_string (jget tx ''from'') in if is_0x_hex 40 f then f else zero_address)"

text \<open>What the handler knows of a candidate before it looks at its receipt.\<close>

record candidate =
  fc_txHash :: string
  fc_orderHash :: string
  fc_market :: market_basic
  fc_ctx :: trading_ctx
  fc_execBase :: int
  fc_priceTicks :: int
  fc_taker :: string
  fc_key :: string

definition exec_base :: "jval \<Rightarrow> market_basic \<Rightarrow> int \<Rightarrow> int result" where
  "exec_base zx m takerFill =
    (if token_of zx ''makerToken'' = to_lower (mb_baseAddress m)
     then big_div (takerFill * big_of (jget zx ''makerAmount'')) (big_of (jget zx ''takerAmount''))
     else Inr takerFill)"

definition fill_key :: "string \<Rightarrow> string \<Rightarrow> int \<Rightarrow> string" where
  "fill_key h orderHash execBase =
    (if h \<noteq> [] then to_lower h else ''nohash'') @ '':'' @ to_lower orderHash @ '':'' @ big_to_string execBase"

definition fill_price :: "jval \<Rightarrow> market_basic \<Rightarrow> trading_ctx \<Rightarrow> int result" where
  "fill_price zx m ctx =
    (let makerAmt = big_of (jget zx ''makerAmount''); takerAmt = big_of (jget zx ''takerAmount'') in
     if token_of zx ''makerToken'' = to_lower (mb_baseAddress m)
     then big_div (takerAmt * pow10 (ctx_baseDecimals ctx)) (makerAmt * ctx_priceTickQ ctx)
     else big_div (makerAmt * pow10 (ctx_baseDecimals ctx)) (takerAmt * ctx_priceTickQ ctx))"

text \<open>The decoding and the lookups; \<open>Inr None\<close> is a \<open>continue\<close>, \<open>Inl\<close> an exception.\<close>

definition priced_candidate ::
  "jval \<Rightarrow> jval \<Rightarrow> string \<Rightarrow> market_basic \<Rightarrow> int \<Rightarrow> fills \<Rightarrow> candidate option result" where
  "priced_candidate tx zx orderHash m execBase w =
    (let key = fill_key (tx_hash tx) orderHash execBase in
     if execBase \<le> 0 then Inr None
     else if key \<in> set (fs_seen w) then Inr None
     else bind_res (getTradingContext (sea_db (fs_sea w)) (mb_id m)) (\<lambda>ctx.
       bind_res (fill_price zx m ctx) (\<lambda>px. Inr (Some
         \<lparr>fc_txHash = tx_hash tx, fc_orderHash = orderHash, fc_market = m, fc_ctx = ctx,
          fc_execBase = execBase, fc_priceTicks = px, fc_taker = tx_taker tx, fc_key = key\<rparr>))))"

definition decoded_candidate ::
  "fill_ext \<Rightarrow> watch_cfg \<Rightarrow> jval \<Rightarrow> jval \<Rightarrow> jval \<Rightarrow> fills \<Rightarrow> candidate option result" where
  "decoded_candidate x cfg tx ord takerFill w =
    (if \<not> isDecodedOrderLike isHex32_0x ord \<or> \<not> isBig takerFill then Inr None
     else let zx = toZx ord in
       bind_res (getOrderHash (sx_zx (fx_sea x)) (sx_cfg (fx_sea x)) (wc_chainId cfg) zx) (\<lambda>orderHash.
       case market_of_tokens (sea_db (fs_sea w)) (token_of zx ''makerToken'') (token_of zx ''takerToken'') of
         None \<Rightarrow> Inr None
       | Some m \<Rightarrow>
           bind_res (exec_base zx m (big_of takerFill)) (\<lambda>execBase.
             priced_candidate tx zx orderHash m execBase w)))"

definition read_candidate :: "fill_ext \<Rightarrow> watch_cfg \<Rightarrow> jval \<Rightarrow> fills \<Rightarrow> candidate option result" where
  "read_candidate x cfg tx w =
    bind_res (fx_decode x (tx_data tx)) (\<lambda>args.
      if length args < 3 then Inr None
      else decoded_candidate x cfg tx (args ! 0) (args ! 2) w)"

section \<open>Applying a fill\<close>

definition receipt_reverted :: "fill_ext \<Rightarrow> string \<Rightarrow> bool" where
  "receipt_reverted x h = (h \<noteq> [] \<and> sx_receipt (fx_sea x) h = Inr (Receipt (Some 0)))"

text \<open>The two reconcilers of the executing intent; an exception is caught and logged.\<close>

definition settle_intent ::
  "(string \<Rightarrow> intents \<Rightarrow> bool \<times> intents) \<Rightarrow> intent_event_type \<Rightarrow> jval \<Rightarrow> candidate \<Rightarrow> sea \<Rightarrow> sea" where
  "settle_intent write ty payload c s =
    (if fc_txHash c = [] then s
     else case findExecutingByTxHashForOwner (to_lower (fc_txHash c)) (mb_id (fc_market c))
                 (to_lower (fc_taker c)) (sea_intents s) of
       None \<Rightarrow> s
     | Some i \<Rightarrow>
         (case on_intents (write i) s of
            (True, s1) \<Rightarrow> snd (append_event_sea i ty payload s1)
          | (False, s1) \<Rightarrow> s1))"

definition settle_failed :: "int \<Rightarrow> candidate \<Rightarrow> sea \<Rightarrow> sea" where
  "settle_failed now c =
    settle_intent (\<lambda>i. markFailedFromExecuting now i (to_lower (fc_txHash c)) ''tx_reverted'') IE_FAILED
      (JObj [(''reason'', JStr ''tx_reverted''), (''txHash'', JStr (to_lower (fc_txHash c)))]) c"

definition settle_executed :: "int \<Rightarrow> candidate \<Rightarrow> sea \<Rightarrow> sea" where
  "settle_executed now c =
    settle_intent (\<lambda>i. markExecuted now i (to_lower (fc_txHash c))) IE_EXECUTED
      (JObj [(''txHash'', JStr (to_lower (fc_txHash c))), (''orderHash'', JStr (fc_orderHash c)),
             (''sizeBase'', JStr (big_to_string (fc_execBase c)))]) c"

definition add_seen :: "string \<Rightarrow> fills \<Rightarrow> fills" where
  "add_seen k w = (if k \<in> set (fs_seen w) then w else w\<lparr>fs_seen := fs_seen w @ [k]\<rparr>)"

definition evict_seen :: "fills \<Rightarrow> fills" where
  "evict_seen w = (if length (fs_seen w) > 10000 then w\<lparr>fs_seen := tl (fs_seen w)\<rparr> else w)"

fun fill_status_str :: "fill_status \<Rightarrow> string" where
  "fill_status_str FillPartial = ''partial''"
| "fill_status_str FillFilled = ''filled''"
| "fill_status_str FillDbOnly = ''db_only''"
| "fill_status_str FillNotFound = ''not_found''"

definition apply_fill :: "int \<Rightarrow> candidate \<Rightarrow> sea \<Rightarrow> unit result \<times> sea" where
  "apply_fill now c s =
    andthen (on_db (addTrade now (ctx_id (fc_ctx c)) (fc_orderHash c) (to_lower (fc_taker c))
               (fc_priceTicks c) (fc_execBase c) (non_empty (Some (fc_txHash c)))) s) (\<lambda>_ s1.
    andthen (on_engine (applyExternalFill now (mb_symbol (fc_market c)) (fc_orderHash c) (fc_execBase c)) s1)
      (\<lambda>res s2. (Inr (), settle_executed now c
        (snd (on_db (\<lambda>d. ((), inc_metric (''fills:'' @ fill_status_str res) d)) s2)))))"

definition handle_candidate :: "fill_ext \<Rightarrow> (sea \<Rightarrow> sea) \<Rightarrow> int \<Rightarrow> candidate \<Rightarrow> fills \<Rightarrow> unit result \<times> fills" where
  "handle_candidate x env now c w =
    (let s = (if fc_txHash c = [] then fs_sea w else env (fs_sea w)) in
     if receipt_reverted x (fc_txHash c)
     then (Inr (), add_seen (fc_key c) (w\<lparr>fs_sea := settle_failed now c s\<rparr>))
     else (case apply_fill now c s of
             (Inl e, s1) \<Rightarrow> (Inl e, w\<lparr>fs_sea := s1\<rparr>)
           | (Inr _, s1) \<Rightarrow> (Inr (), evict_seen (add_seen (fc_key c) (w\<lparr>fs_sea := s1\<rparr>)))))"

definition handle_fill ::
  "fill_ext \<Rightarrow> watch_cfg \<Rightarrow> (sea \<Rightarrow> sea) \<Rightarrow> int \<Rightarrow> jval \<Rightarrow> fills \<Rightarrow> unit result \<times> fills" where
  "handle_fill x cfg env now tx w =
    (case read_candidate x cfg tx w of
       Inl e \<Rightarrow> (Inl e, w)
     | Inr None \<Rightarrow> (Inr (), w)
     | Inr (Some c) \<Rightarrow> handle_candidate x env now c w)"

section \<open>A tick\<close>

text \<open>One transaction; reading a property of a null transaction throws out of the tick.\<close>

definition fill_tx ::
  "fill_ext \<Rightarrow> watch_cfg \<Rightarrow> (sea \<Rightarrow> sea) \<Rightarrow> int \<Rightarrow> string \<Rightarrow> jval \<Rightarrow> fills \<Rightarrow> bool \<times> fills" where
  "fill_tx x cfg env now ep tx w =
    (if jnullish tx then (False, w)
     else if tx_to tx \<noteq> ep \<or> \<not> starts_with (tx_data tx) (fx_selector x) then (True, w)
     else (True, snd (handle_fill x cfg env now tx w)))"

definition fill_tick ::
  "fill_ext \<Rightarrow> watch_cfg \<Rightarrow> (sea \<Rightarrow> sea) \<Rightarrow> bool \<Rightarrow> jval + int \<Rightarrow> rpc_block \<Rightarrow> int \<Rightarrow> watch \<times> fills \<Rightarrow>
     tick_end \<times> watch \<times> fills" where
  "fill_tick x cfg env writable head fetch now = (\<lambda>(w, d).
    if now < wt_cooldownUntil w then (Idle, w, d)
    else case resolve (sx_zx (fx_sea x)) (sx_cfg (fx_sea x)) of
      Inl e \<Rightarrow> (Threw, w, d)
    | Inr (proxy, _) \<Rightarrow>
       (case head of
          Inl e \<Rightarrow> if isTransientRpcError e then (Paused, enterCooldown now w, d) else (Threw, w, d)
        | Inr latest \<Rightarrow>
            (let w1 = clean_head writable latest w; target = target_of cfg latest w1 in
             case scan_blocks fetch (fill_tx x cfg env now (to_lower proxy))
                    [wt_lastScanned w1 + 1 .. target] d of
               (Scanned, d1) \<Rightarrow> (Done, advance writable target w1, d1)
             | (FetchFailed e, d1) \<Rightarrow>
                 if isTransientRpcError e then (Paused, enterCooldown now w1, d1) else (Threw, w1, d1)
             | (TxThrew, d1) \<Rightarrow> (Threw, w1, d1))))"

end
