(* ===== verification/CancelWatcher.thy ===== *)
theory CancelWatcher
  imports Watcher
begin

text \<open>
  \<open>apps/api/src/onchain/cancel-watcher.service.ts\<close>: the reconciliation of on-chain cancellations.
  A transaction to the exchange proxy is either a pair cancel (every order of the sender on the
  market with a smaller salt is cancelled, and the floor of the pair is raised) or a single cancel.
  The two ABI decoders are parameters; a pair cancel decodes to two addresses and a salt, as its
  ABI says. Cursor, cooldown and scan are those of \<open>Watcher\<close>.
\<close>

record cancel_ext =
  cx_sea :: sea_ext
  cx_decode :: "string \<Rightarrow> jval list result"
  cx_decodePair :: "string \<Rightarrow> (string \<times> string \<times> int) result"

definition SELECTOR_CANCEL :: string where
  "SELECTOR_CANCEL = ''0x7d49ec1a''"

definition SELECTOR_CANCEL_PAIR :: string where
  "SELECTOR_CANCEL_PAIR = ''0xd0a55fb0''"

definition new_cancel_watcher :: "penv \<Rightarrow> string \<Rightarrow> cursor_file \<Rightarrow> (watch_cfg \<times> watch) result" where
  "new_cancel_watcher pe rpcUrl file =
    new_watcher pe ''DEV_CANCEL_WATCHER'' ''CANCEL_WATCHER_MAX_BLOCKS_PER_TICK''
      ''CANCEL_WATCHER_INTERVAL_MS'' rpcUrl file"

text \<open>This file's \<open>isHex32\<close> also takes 64 digits without a prefix.\<close>

definition isHex32_lax :: "jval \<Rightarrow> bool" where
  "isHex32_lax v =
    (case v of
       JStr s \<Rightarrow> let hex = (if starts_with s ''0x'' then drop 2 s else s)
                 in length hex = 64 \<and> list_all (is_digit 16) hex
     | _ \<Rightarrow> False)"

text \<open>\<open>(v ?? '').toLowerCase()\<close>, which throws on a value that is no string.\<close>

definition lower_or_throw :: "jval \<Rightarrow> string result" where
  "lower_or_throw v =
    (if jnullish v then Inr '''' else (case v of JStr s \<Rightarrow> Inr (to_lower s) | _ \<Rightarrow> Inl TypeError))"

definition non_empty_str :: "jval \<Rightarrow> string option" where
  "non_empty_str v = (case v of JStr s \<Rightarrow> non_empty (Some s) | _ \<Rightarrow> None)"

definition cancel_data :: "jval \<Rightarrow> string" where
  "cancel_data tx =
    (let raw = (case non_empty_str (jget tx ''input'') of Some s \<Rightarrow> s
                | None \<Rightarrow> (case non_empty_str (jget tx ''data'') of Some s \<Rightarrow> s | None \<Rightarrow> ''0x''))
     in if starts_with raw ''0x'' then raw else ''0x'')"

section \<open>Pair cancel\<close>

text \<open>The stored salt is smaller than the floor; an order without a readable salt is skipped.\<close>

definition salt_below :: "db \<Rightarrow> int \<Rightarrow> string \<Rightarrow> bool" where
  "salt_below d minValidSalt h =
    (let salt = (case fst (findRawOrderByHash d h) of Some raw \<Rightarrow> jget raw ''salt'' | None \<Rightarrow> JUndef) in
     truthy salt \<and> (case js_BigInt salt of Inr n \<Rightarrow> n < minValidSalt | Inl _ \<Rightarrow> False))"

definition to_cancel :: "db \<Rightarrow> string \<Rightarrow> string \<Rightarrow> int \<Rightarrow> string list" where
  "to_cancel d symbol makerLower minValidSalt =
    map pc_hash (filter (\<lambda>p. to_lower (pc_maker p) = makerLower \<and> salt_below d minValidSalt (pc_hash p))
      (listPlacedBySymbol d symbol))"

text \<open>One order: the book and its row, or the row alone; every exception is caught.\<close>

definition cancel_one :: "int \<Rightarrow> market_basic \<Rightarrow> string \<Rightarrow> engine \<Rightarrow> engine" where
  "cancel_one now m h e =
    (case cancel now (mb_symbol m) h e of
       (Inr CancelledStatus, e1) \<Rightarrow> e1
     | (Inr CancelNotFound, e1) \<Rightarrow> e1\<lparr>eng_db := snd (cancelOrder now (mb_id m) h (eng_db e1))\<rparr>
     | (Inl _, e1) \<Rightarrow> e1)"

fun cancel_all :: "int \<Rightarrow> market_basic \<Rightarrow> string list \<Rightarrow> engine \<Rightarrow> engine" where
  "cancel_all now m [] e = e"
| "cancel_all now m (h # hs) e = cancel_all now m hs (cancel_one now m h e)"

fun count_cancelled :: "string \<Rightarrow> nat \<Rightarrow> db \<Rightarrow> db" where
  "count_cancelled k 0 d = d"
| "count_cancelled k (Suc n) d = count_cancelled k n (inc_metric k d)"

definition on_floors :: "(floor_table \<Rightarrow> unit result \<times> floor_table) \<Rightarrow> sea \<Rightarrow> sea" where
  "on_floors f s = s\<lparr>sea_floors := snd (f (sea_floors s))\<rparr>"

definition pair_cancel_market ::
  "int \<Rightarrow> jval \<Rightarrow> market_basic \<Rightarrow> string \<Rightarrow> string \<Rightarrow> string \<Rightarrow> int \<Rightarrow> sea \<Rightarrow> sea" where
  "pair_cancel_market now tx m makerLower mk tk minValidSalt s =
    (let hs = to_cancel (sea_db s) (mb_symbol m) makerLower minValidSalt;
         e1 = cancel_all now m hs (sea_engine s);
         e2 = e1\<lparr>eng_db := count_cancelled ''cancelled:pair'' (length hs) (eng_db e1)\<rparr>
     in on_floors (upsertFloor now
          \<lparr>fi_maker = makerLower, fi_makerToken = mk, fi_takerToken = tk,
           fi_minValidSalt = minValidSalt, fi_fromTxHash = non_empty_str (jget tx ''hash'')\<rparr>)
          (s\<lparr>sea_engine := e2\<rparr>))"

definition pair_cancel :: "cancel_ext \<Rightarrow> int \<Rightarrow> jval \<Rightarrow> sea \<Rightarrow> sea" where
  "pair_cancel x now tx s =
    (case cx_decodePair x (cancel_data tx) of
       Inl _ \<Rightarrow> s
     | Inr (makerToken, takerToken, minValidSalt) \<Rightarrow>
         (case lower_or_throw (jget tx ''from'') of
            Inl _ \<Rightarrow> s
          | Inr makerLower \<Rightarrow>
              (case market_of_tokens (sea_db s) (to_lower makerToken) (to_lower takerToken) of
                 None \<Rightarrow> s
               | Some m \<Rightarrow> pair_cancel_market now tx m makerLower (to_lower makerToken)
                   (to_lower takerToken) minValidSalt s)))"

section \<open>Single cancel\<close>

definition single_cancel_market :: "int \<Rightarrow> market_basic \<Rightarrow> string \<Rightarrow> engine \<Rightarrow> engine" where
  "single_cancel_market now m h e =
    (case cancel now (mb_symbol m) h e of
       (Inl _, e1) \<Rightarrow> e1
     | (Inr CancelledStatus, e1) \<Rightarrow> e1\<lparr>eng_db := inc_metric ''cancelled:single'' (eng_db e1)\<rparr>
     | (Inr CancelNotFound, e1) \<Rightarrow>
         (case cancelOrder now (mb_id m) h (eng_db e1) of
            (Inr _, d) \<Rightarrow> e1\<lparr>eng_db := inc_metric ''cancelled:single'' d\<rparr>
          | (Inl _, d) \<Rightarrow> e1\<lparr>eng_db := d\<rparr>))"

definition single_cancel :: "cancel_ext \<Rightarrow> watch_cfg \<Rightarrow> int \<Rightarrow> jval \<Rightarrow> sea \<Rightarrow> sea" where
  "single_cancel x cfg now tx s =
    (case cx_decode x (cancel_data tx) of
       Inl _ \<Rightarrow> s
     | Inr [] \<Rightarrow> s
     | Inr (ord # _) \<Rightarrow>
         if \<not> isDecodedOrderLike isHex32_lax ord then s
         else let zx = toZx ord in
           (case getOrderHash (sx_zx (cx_sea x)) (sx_cfg (cx_sea x)) (wc_chainId cfg) zx of
              Inl _ \<Rightarrow> s
            | Inr h \<Rightarrow>
                (case market_of_tokens (sea_db s) (token_of zx ''makerToken'') (token_of zx ''takerToken'') of
                   None \<Rightarrow> s
                 | Some m \<Rightarrow> s\<lparr>sea_engine := single_cancel_market now m h (sea_engine s)\<rparr>)))"

section \<open>A tick\<close>

definition cancel_tx :: "cancel_ext \<Rightarrow> watch_cfg \<Rightarrow> int \<Rightarrow> string \<Rightarrow> jval \<Rightarrow> sea \<Rightarrow> bool \<times> sea" where
  "cancel_tx x cfg now ep tx s =
    (if jnullish tx then (False, s)
     else case lower_or_throw (jget tx ''to'') of
       Inl _ \<Rightarrow> (False, s)
     | Inr to \<Rightarrow>
         if to \<noteq> ep then (True, s)
         else if starts_with (cancel_data tx) SELECTOR_CANCEL_PAIR then (True, pair_cancel x now tx s)
         else if \<not> starts_with (cancel_data tx) SELECTOR_CANCEL then (True, s)
         else (True, single_cancel x cfg now tx s))"

text \<open>\<open>env\<close> is what the rest of the API does to the state while the tick waits for the chain.\<close>

definition cancel_tick ::
  "cancel_ext \<Rightarrow> watch_cfg \<Rightarrow> (sea \<Rightarrow> sea) \<Rightarrow> bool \<Rightarrow> jval + int \<Rightarrow> rpc_block \<Rightarrow> int \<Rightarrow> watch \<times> sea \<Rightarrow>
     tick_end \<times> watch \<times> sea" where
  "cancel_tick x cfg env writable head fetch now = (\<lambda>(w, s).
    if now < wt_cooldownUntil w then (Idle, w, s)
    else case resolve (sx_zx (cx_sea x)) (sx_cfg (cx_sea x)) of
      Inl e \<Rightarrow> (Threw, w, s)
    | Inr (proxy, _) \<Rightarrow>
       (case head of
          Inl e \<Rightarrow> if isTransientRpcError e then (Paused, enterCooldown now w, s) else (Threw, w, s)
        | Inr latest \<Rightarrow>
            (let w1 = clean_head writable latest w; target = target_of cfg latest w1 in
             if latest \<le> wt_lastScanned w1 then (Idle, w1, s)
             else case scan_blocks fetch (cancel_tx x cfg now (to_lower proxy))
                    [wt_lastScanned w1 + 1 .. target] (env s) of
               (Scanned, s1) \<Rightarrow> (Done, advance writable target w1, s1)
             | (FetchFailed e, s1) \<Rightarrow>
                 if isTransientRpcError e then (Paused, enterCooldown now w1, s1) else (Retried, w1, s1)
             | (TxThrew, s1) \<Rightarrow> (Threw, w1, s1))))"

end
