(* ===== verification/IntentSamples.thy ===== *)
theory IntentSamples
  imports IntentServiceProps
begin

text \<open>
  A quoted and a locked market intent, and the properties of the wallet lock and the executing
  marker applied to them.
\<close>

definition sample_quoted :: intent_row where
  "sample_quoted = sample_row\<lparr>it_status := S_READY, it_preparedQuoteAt := Some 10000,
     it_owner := sample_owner, it_preparedQuote := JObj [(''ttlSec'', JNum (num 60))]\<rparr>"

definition sample_locked :: intent_row where
  "sample_locked = sample_quoted\<lparr>it_walletLockUntilAt := Some 100000\<rparr>"

definition sample_lock :: lock_body where
  "sample_lock = \<lparr>lb_signature = ''0x00'', lb_lockNonce = row_nonce sample_sx ''0123456789abcdef'' sample_quoted 10000,
     lb_walletLockUntilAt = toISOString 100000\<rparr>"

definition sample_marker :: executing_body where
  "sample_marker = \<lparr>xb_txHash = ''0x'' @ replicate 64 CHR ''A'',
     xb_executionToken = row_token sample_sx ''0123456789abcdef'' ''fedcba9876543210'' sample_quoted 10000 100000\<rparr>"

abbreviation sample_sea :: "intent_row \<Rightarrow> sea" where
  "sample_sea r \<equiv> sea_sample\<lparr>sea_intents := [r]\<rparr>"

lemma sample_dates: "dates_ok sample_sx" "row_dates_ok sample_quoted" "row_dates_ok sample_locked"
  by (simp add: dates_ok_def sample_sx_def iso_parse_toISOString) code_simp+

lemma sample_at:
  "intent_at (sea_intents (sample_sea sample_quoted)) ''i1'' = Some sample_quoted"
  "intent_at (sea_intents (sample_sea sample_locked)) ''i1'' = Some sample_locked"
  "ids_ok (sea_intents (sample_sea sample_quoted))" "ids_ok (sea_intents (sample_sea sample_locked))"
  by code_simp+

lemma sample_lock_runs:
  "isl (fst (lockWallet sample_sx 20000 (\<lambda>s. s) ''i1'' sample_lock (sample_sea sample_quoted))) = False"
  by code_simp

lemma sample_mark_runs:
  "isl (fst (markExecuting sample_sx 30000 (\<lambda>s. s) ''i1'' sample_marker (sample_sea sample_locked))) = False"
  by code_simp

theorem wallet_lock_within_bounds_witness:
  "\<exists>u tok s'. lockWallet sample_sx 20000 (\<lambda>s. s) ''i1'' sample_lock (sample_sea sample_quoted) = (Inr (u, tok), s') \<and>
    (\<exists>pq until. lockable sample_sx 20000 sample_quoted pq until)"
proof -
  obtain u tok s' where l:
    "lockWallet sample_sx 20000 (\<lambda>s. s) ''i1'' sample_lock (sample_sea sample_quoted) = (Inr (u, tok), s')"
    using sample_lock_runs by (metis isl_def prod.exhaust_sel sum.exhaust_sel)
  from wallet_lock_within_bounds [OF l sample_at(1) sample_dates(1,2)] sample_at(3) l show ?thesis by blast
qed

theorem live_lock_is_immutable_witness:
  "snd (lockWallet sample_sx 20000 (\<lambda>s. s) ''i1'' sample_lock (sample_sea sample_locked)) = sample_sea sample_locked"
proof -
  let ?w = "lockWallet sample_sx 20000 (\<lambda>s. s) ''i1'' sample_lock (sample_sea sample_locked)"
  have w: "it_walletLockUntilAt sample_locked = Some 100000" by (simp add: sample_locked_def)
  have e: "?w = (fst ?w, snd ?w)" by simp
  from live_lock_is_immutable [OF sample_at(2) sample_dates(1,3) w _ e] show ?thesis by simp
qed

theorem marker_requires_token_witness:
  "\<exists>s' st r'. snd (markExecuting sample_sx 30000 (\<lambda>s. s) ''i1'' sample_marker (sample_sea sample_locked)) = s' \<and>
    (sea_intents s' = sea_intents (sample_sea sample_locked) \<or>
     map_option it_status (intent_at (sea_intents s') ''i1'') = Some st)"
proof -
  let ?w = "markExecuting sample_sx 30000 (\<lambda>s. s) ''i1'' sample_marker (sample_sea sample_locked)"
  have e: "?w = (fst ?w, snd ?w)" by simp
  from marker_requires_token [OF sample_at(2) sample_dates(1,3) _ e] sample_at(4) show ?thesis by auto
qed

theorem marker_is_idempotent_witness:
  "\<exists>u s'. markExecuting sample_sx 30000 (\<lambda>s. s) ''i1'' sample_marker (sample_sea sample_locked) = (Inr u, s') \<and>
    markExecuting sample_sx 999999 (\<lambda>s. s) ''i1'' sample_marker s' = (Inr u, s')"
proof -
  obtain u s' where l:
    "markExecuting sample_sx 30000 (\<lambda>s. s) ''i1'' sample_marker (sample_sea sample_locked) = (Inr u, s')"
    using sample_mark_runs by (metis isl_def prod.exhaust_sel sum.exhaust_sel)
  have b: "executingBodySchema sample_marker" by code_simp
  from marker_is_idempotent [OF sample_at(2) sample_dates(1,3) sample_at(4) b l] l show ?thesis by auto
qed

end
