(* ===== verification/WatcherProps.thy ===== *)
theory WatcherProps
  imports FillWatcher CancelWatcher IntentSamples Coherence
begin

text \<open>
  What the two watchers promise: the cursor only passes blocks that were read, catching up ends,
  a fill is applied once, a reverted fill touches nothing but the executing intent, and every tick
  is a step of the abstract machine of \<open>SeaRefinement\<close>. The contract of a tick is the locale
  \<open>block_watcher\<close>, interpreted on both watchers.
\<close>

section \<open>The scan\<close>

text \<open>
  The transactions of a block: none when its payload is null or has no list of transactions. And a
  run of a handler over transactions, each of which returned.
\<close>

definition block_txs :: "rpc_block \<Rightarrow> int \<Rightarrow> jval list" where
  "block_txs fetch b = (case fetch b of Inr (Transactions txs) \<Rightarrow> txs | _ \<Rightarrow> [])"

fun all_handled :: "(jval \<Rightarrow> 'd \<Rightarrow> bool \<times> 'd) \<Rightarrow> jval list \<Rightarrow> 'd \<Rightarrow> 'd \<Rightarrow> bool" where
  "all_handled run [] d d' \<longleftrightarrow> d' = d"
| "all_handled run (tx # txs) d d' \<longleftrightarrow> fst (run tx d) \<and> all_handled run txs (snd (run tx d)) d'"

lemma all_handled_append:
  "all_handled run (xs @ ys) d d' \<longleftrightarrow> (\<exists>d1. all_handled run xs d d1 \<and> all_handled run ys d1 d')"
  by (induction xs arbitrary: d) auto

lemma scan_txs_handled: "scan_txs run txs d = (True, d') \<Longrightarrow> all_handled run txs d d'"
  by (induction txs arbitrary: d) (auto split: prod.splits bool.splits)

text \<open>What was read of the blocks \<open>bs\<close>: every one was answered, and every transaction handled, in order.\<close>

definition blocks_read :: "rpc_block \<Rightarrow> (jval \<Rightarrow> 'd \<Rightarrow> bool \<times> 'd) \<Rightarrow> int list \<Rightarrow> 'd \<Rightarrow> 'd \<Rightarrow> bool" where
  "blocks_read fetch run bs d d' \<longleftrightarrow> (\<forall>b \<in> set bs. \<not> isl (fetch b)) \<and>
    all_handled run (concat (map (block_txs fetch) bs)) d d'"

lemma scan_blocks_read:
  "scan_blocks fetch run bs d = (Scanned, d') \<Longrightarrow> blocks_read fetch run bs d d'"
proof (induction bs arbitrary: d)
  case (Cons b bs)
  then show ?case
    by (fastforce simp: blocks_read_def block_txs_def all_handled_append dest: scan_txs_handled
        split: sum.splits raw_block.splits prod.splits bool.splits)
qed (simp add: blocks_read_def)

text \<open>A block every transaction of which the handlers can look at.\<close>

definition plain_tx :: "jval \<Rightarrow> bool" where
  "plain_tx tx \<longleftrightarrow> \<not> jnullish tx \<and> (jnullish (jget tx ''to'') \<or> (\<exists>s. jget tx ''to'' = JStr s))"

definition healthy :: "rpc_block \<Rightarrow> bool" where
  "healthy fetch \<longleftrightarrow>
    (\<forall>b. fetch b = Inr NoTransactions \<or> (\<exists>txs. fetch b = Inr (Transactions txs) \<and> list_all plain_tx txs))"

lemma scan_txs_plain:
  assumes "\<And>tx d. plain_tx tx \<Longrightarrow> fst (run tx d)"
  shows "list_all plain_tx txs \<Longrightarrow> fst (scan_txs run txs d)"
proof (induction txs arbitrary: d)
  case (Cons tx txs)
  then show ?case using assms [of tx d] by (auto split: prod.split bool.split)
qed simp

lemma scan_blocks_healthy:
  assumes "\<And>tx d. plain_tx tx \<Longrightarrow> fst (run tx d)" and "healthy fetch"
  shows "fst (scan_blocks fetch run bs d) = Scanned"
proof (induction bs arbitrary: d)
  case (Cons b bs)
  consider "fetch b = Inr NoTransactions"
    | txs where "fetch b = Inr (Transactions txs)" "list_all plain_tx txs"
    using assms(2) by (auto simp: healthy_def)
  then show ?case
  proof cases
    case 2
    with scan_txs_plain [of run, OF assms(1), of txs d] Cons.IH show ?thesis
      by (auto split: prod.split bool.split)
  qed (simp add: Cons.IH)
qed simp

text \<open>A relation every transaction keeps is kept by a scan.\<close>

lemma scan_blocks_rel:
  assumes "\<And>d. R d d" and "\<And>a b c. R a b \<Longrightarrow> R b c \<Longrightarrow> R a c" and "\<And>tx d. R d (snd (run tx d))"
  shows "R d (snd (scan_blocks fetch run bs d))"
proof -
  have tx: "R d (snd (scan_txs run txs d))" for txs d
  proof (induction txs arbitrary: d)
    case (Cons t ts)
    obtain k d1 where r: "run t d = (k, d1)" by fastforce
    have "R d d1" using assms(3) [of d t] r by simp
    with Cons.IH [of d1] r assms(2) show ?case by (cases k) auto
  qed (simp add: assms(1))
  show ?thesis
  proof (induction bs arbitrary: d)
    case (Cons b bs)
    have "R d (snd (scan_txs run txs d))" for txs by (rule tx)
    moreover have "R d (snd (scan_blocks fetch run bs (snd (scan_txs run txs d))))" for txs
      using assms(2) tx Cons.IH by blast
    ultimately show ?case
      by (auto simp: assms(1) Cons.IH case_prod_unfold split: sum.split raw_block.split bool.split)
  qed (simp add: assms(1))
qed

section \<open>The contract of a tick\<close>

lemma clean_head_frame [simp]: "\<not> wt_needsCursorInit w \<Longrightarrow> wt_lastScanned (clean_head b l w) = wt_lastScanned w"
  "\<not> wt_needsCursorInit w \<Longrightarrow> wt_cooldownUntil (clean_head b l w) = wt_cooldownUntil w"
  "\<not> wt_needsCursorInit w \<Longrightarrow> \<not> wt_needsCursorInit (clean_head b l w)"
  "\<not> wt_needsCursorInit w \<Longrightarrow> wt_cursor (clean_head b l w) = wt_cursor w"
  by (simp_all add: clean_head_def)

lemma enterCooldown_frame [simp]: "wt_lastScanned (enterCooldown now w) = wt_lastScanned w"
  "wt_cursor (enterCooldown now w) = wt_cursor w"
  by (simp_all add: enterCooldown_def case_prod_unfold Let_def)

lemma advance_frame [simp]: "wt_lastScanned (advance b t w) = t"
  "wt_cooldownUntil (advance b t w) = wt_cooldownUntil w"
  "wt_needsCursorInit (advance b t w) = wt_needsCursorInit w"
  "wt_cursor (advance b t w) = saveCursor b t (wt_cursor w)"
  by (simp_all add: advance_def)

text \<open>
  How a tick that ends with \<open>r\<close> may move the cursor of an initialised watcher, and what it has then
  done to the data \<open>d\<close>.
\<close>

definition cursor_moves ::
  "watch_cfg \<Rightarrow> bool \<Rightarrow> jval + int \<Rightarrow> rpc_block \<Rightarrow> (jval \<Rightarrow> 'd \<Rightarrow> bool \<times> 'd) \<Rightarrow>
     watch \<Rightarrow> 'd \<Rightarrow> tick_end \<Rightarrow> watch \<Rightarrow> 'd \<Rightarrow> bool" where
  "cursor_moves cfg writable head fetch run w d r w' d' \<longleftrightarrow>
    (if r = Done then \<exists>latest. head = Inr latest \<and>
       wt_lastScanned w' = min latest (wt_lastScanned w + wc_maxBlocks cfg) \<and>
       wt_cursor w' = (if writable then cursor_json (wt_lastScanned w') else wt_cursor w) \<and>
       blocks_read fetch run [wt_lastScanned w + 1 .. wt_lastScanned w'] d d'
     else wt_lastScanned w' = wt_lastScanned w \<and> wt_cursor w' = wt_cursor w)"

locale block_watcher =
  fixes tick :: "jval + int \<Rightarrow> rpc_block \<Rightarrow> int \<Rightarrow> watch \<times> 'd \<Rightarrow> tick_end \<times> watch \<times> 'd"
    and cfg :: watch_cfg and writable :: bool and up :: bool
    and pre :: "'d \<Rightarrow> 'd" and run :: "int \<Rightarrow> jval \<Rightarrow> 'd \<Rightarrow> bool \<times> 'd"
  assumes moved: "tick head fetch now (w, d) = (Done, w', d') \<Longrightarrow>
      \<exists>latest. head = Inr latest \<and>
        w' = advance writable (target_of cfg latest (clean_head writable latest w)) (clean_head writable latest w) \<and>
        blocks_read fetch (run now) [wt_lastScanned (clean_head writable latest w) + 1 ..
          target_of cfg latest (clean_head writable latest w)] (pre d) d'"
    and stayed: "tick head fetch now (w, d) = (r, w', d') \<Longrightarrow> r \<noteq> Done \<Longrightarrow>
      \<exists>w1. (w1 = w \<or> (\<exists>latest. head = Inr latest \<and> w1 = clean_head writable latest w)) \<and>
        (w' = w1 \<or> w' = enterCooldown now w1)"
    and progress: "up \<Longrightarrow> healthy fetch \<Longrightarrow> wt_cooldownUntil w \<le> now \<Longrightarrow> \<not> wt_needsCursorInit w \<Longrightarrow>
      wt_lastScanned w \<le> latest \<Longrightarrow> tick (Inr latest) fetch now (w, d) = (r, w', d') \<Longrightarrow>
      r = Done \<or> (wt_lastScanned w = latest \<and> wt_lastScanned w' = latest \<and>
        wt_cooldownUntil w' = wt_cooldownUntil w \<and> \<not> wt_needsCursorInit w')"
begin

lemma cursor_safe:
  assumes "tick head fetch now (w, d) = (r, w', d')" and "\<not> wt_needsCursorInit w"
  shows "cursor_moves cfg writable head fetch (run now) w (pre d) r w' d'"
proof (cases "r = Done")
  case True
  with moved assms show ?thesis
    by (fastforce simp: cursor_moves_def target_of_def saveCursor_def)
next
  case False
  from stayed [OF assms(1) False] assms(2) show ?thesis using False by (auto simp: cursor_moves_def)
qed

lemma catch_up:
  assumes "up" and "healthy fetch" and "wt_cooldownUntil w \<le> now" and "\<not> wt_needsCursorInit w"
    and "wt_lastScanned w \<le> latest" and "0 \<le> wc_maxBlocks cfg"
  shows "wt_lastScanned (fst (((\<lambda>s. snd (tick (Inr latest) fetch now s)) ^^ n) (w, d))) =
    min latest (wt_lastScanned w + int n * wc_maxBlocks cfg)"
proof -
  let ?t = "\<lambda>s. snd (tick (Inr latest) fetch now s)"
  have "wt_lastScanned (fst ((?t ^^ n) (w, d))) = min latest (wt_lastScanned w + int n * wc_maxBlocks cfg) \<and>
    wt_cooldownUntil (fst ((?t ^^ n) (w, d))) \<le> now \<and> \<not> wt_needsCursorInit (fst ((?t ^^ n) (w, d)))"
  proof (induction n)
    case (Suc n)
    obtain w1 d1 where 1: "(?t ^^ n) (w, d) = (w1, d1)" by fastforce
    obtain r w2 d2 where 2: "tick (Inr latest) fetch now (w1, d1) = (r, w2, d2)" by (rule prod_cases3)
    have w1: "wt_lastScanned w1 = min latest (wt_lastScanned w + int n * wc_maxBlocks cfg)"
      "wt_cooldownUntil w1 \<le> now" "\<not> wt_needsCursorInit w1" using Suc 1 by auto
    from progress [OF assms(1,2) w1(2,3) _ 2] w1(1)
    have "r = Done \<or> (wt_lastScanned w1 = latest \<and> wt_lastScanned w2 = latest \<and>
      wt_cooldownUntil w2 = wt_cooldownUntil w1 \<and> \<not> wt_needsCursorInit w2)" by simp
    then have "wt_lastScanned w2 = min latest (wt_lastScanned w1 + wc_maxBlocks cfg) \<and>
      wt_cooldownUntil w2 \<le> now \<and> \<not> wt_needsCursorInit w2"
    proof
      assume "r = Done"
      with moved 2 w1(2,3) show ?thesis
        by (fastforce simp: target_of_def)
    qed (use w1 assms(6) in auto)
    with w1(1) assms(6) 1 2 show ?case by (simp add: algebra_simps min_def)
  qed (use assms in auto)
  then show ?thesis ..
qed

end

definition proxy_known :: "sea_ext \<Rightarrow> bool" where
  "proxy_known x \<longleftrightarrow> (\<exists>p. resolve (sx_zx x) (sx_cfg x) = Inr p)"

lemma fill_tx_plain: "plain_tx tx \<Longrightarrow> fst (fill_tx x cfg env now ep tx d)"
  by (simp add: fill_tx_def plain_tx_def)

lemma cancel_tx_plain: "plain_tx tx \<Longrightarrow> fst (cancel_tx x cfg now ep tx s)"
  by (auto simp: cancel_tx_def plain_tx_def lower_or_throw_def split: sum.split)

text \<open>The proxy whose transactions a watcher looks at.\<close>

definition proxy_of :: "sea_ext \<Rightarrow> string" where
  "proxy_of x = (case resolve (sx_zx x) (sx_cfg x) of Inr (p, _) \<Rightarrow> to_lower p | Inl _ \<Rightarrow> [])"

interpretation filling: block_watcher "fill_tick x cfg env writable" cfg writable "proxy_known (fx_sea x)"
  id "\<lambda>now. fill_tx x cfg env now (proxy_of (fx_sea x))"
  for x cfg env writable
proof unfold_locales
  fix head fetch now w d w' d'
  assume t: "fill_tick x cfg env writable head fetch now (w, d) = (Done, w', d')"
  then show "\<exists>latest. head = Inr latest \<and>
        w' = advance writable (target_of cfg latest (clean_head writable latest w)) (clean_head writable latest w) \<and>
        blocks_read fetch (fill_tx x cfg env now (proxy_of (fx_sea x)))
          [wt_lastScanned (clean_head writable latest w) + 1 ..
           target_of cfg latest (clean_head writable latest w)] (id d) d'"
    by (auto simp: fill_tick_def Let_def proxy_of_def dest!: scan_blocks_read
        split: if_splits sum.splits prod.splits scan_end.splits)
next
  fix head fetch now w d r w' d'
  assume "fill_tick x cfg env writable head fetch now (w, d) = (r, w', d')" "r \<noteq> Done"
  then show "\<exists>w1. (w1 = w \<or> (\<exists>latest. head = Inr latest \<and> w1 = clean_head writable latest w)) \<and>
        (w' = w1 \<or> w' = enterCooldown now w1)"
    by (auto simp: fill_tick_def Let_def split: if_splits sum.splits prod.splits scan_end.splits)
next
  fix fetch w now latest d r w' d'
  assume a: "proxy_known (fx_sea x)" "healthy fetch" "wt_cooldownUntil w \<le> now" "\<not> wt_needsCursorInit w"
    "wt_lastScanned w \<le> latest" and t: "fill_tick x cfg env writable (Inr latest) fetch now (w, d) = (r, w', d')"
  obtain p q where "resolve (sx_zx (fx_sea x)) (sx_cfg (fx_sea x)) = Inr (p, q)"
    using a(1) by (auto simp: proxy_known_def)
  moreover have "fst (scan_blocks fetch (fill_tx x cfg env now ep) bs d) = Scanned" for ep bs
    by (rule scan_blocks_healthy [OF fill_tx_plain a(2)])
  then have "\<exists>d1. scan_blocks fetch (fill_tx x cfg env now ep) bs d = (Scanned, d1)" for ep bs
    by (metis prod.collapse)
  ultimately have "r = Done" using t a(3)
    by (auto simp: fill_tick_def Let_def split: prod.splits scan_end.splits)
      (metis Pair_inject scan_end.distinct)+
  then show "r = Done \<or> (wt_lastScanned w = latest \<and> wt_lastScanned w' = latest \<and>
        wt_cooldownUntil w' = wt_cooldownUntil w \<and> \<not> wt_needsCursorInit w')" ..
qed

interpretation cancelling_watch: block_watcher "cancel_tick x cfg env writable" cfg writable "proxy_known (cx_sea x)"
  env "\<lambda>now. cancel_tx x cfg now (proxy_of (cx_sea x))"
  for x cfg env writable
proof unfold_locales
  fix head fetch now w d w' d'
  assume "cancel_tick x cfg env writable head fetch now (w, d) = (Done, w', d')"
  then show "\<exists>latest. head = Inr latest \<and>
        w' = advance writable (target_of cfg latest (clean_head writable latest w)) (clean_head writable latest w) \<and>
        blocks_read fetch (cancel_tx x cfg now (proxy_of (cx_sea x)))
          [wt_lastScanned (clean_head writable latest w) + 1 ..
           target_of cfg latest (clean_head writable latest w)] (env d) d'"
    by (auto simp: cancel_tick_def Let_def proxy_of_def dest!: scan_blocks_read
        split: if_splits sum.splits prod.splits scan_end.splits)
next
  fix head fetch now w d r w' d'
  assume "cancel_tick x cfg env writable head fetch now (w, d) = (r, w', d')" "r \<noteq> Done"
  then show "\<exists>w1. (w1 = w \<or> (\<exists>latest. head = Inr latest \<and> w1 = clean_head writable latest w)) \<and>
        (w' = w1 \<or> w' = enterCooldown now w1)"
    by (auto simp: cancel_tick_def Let_def split: if_splits sum.splits prod.splits scan_end.splits)
next
  fix fetch w now latest d r w' d'
  assume a: "proxy_known (cx_sea x)" "healthy fetch" "wt_cooldownUntil w \<le> now" "\<not> wt_needsCursorInit w"
    "wt_lastScanned w \<le> latest" and t: "cancel_tick x cfg env writable (Inr latest) fetch now (w, d) = (r, w', d')"
  obtain p q where p: "resolve (sx_zx (cx_sea x)) (sx_cfg (cx_sea x)) = Inr (p, q)"
    using a(1) by (auto simp: proxy_known_def)
  have "fst (scan_blocks fetch (cancel_tx x cfg now ep) bs d) = Scanned" for ep bs d
    by (rule scan_blocks_healthy [OF cancel_tx_plain a(2)])
  then have "\<exists>d1. scan_blocks fetch (cancel_tx x cfg now ep) bs d = (Scanned, d1)" for ep bs d
    by (metis prod.collapse)
  then obtain d1 where d1: "scan_blocks fetch (cancel_tx x cfg now (to_lower p))
      [wt_lastScanned (clean_head writable latest w) + 1 .. target_of cfg latest (clean_head writable latest w)] (env d)
    = (Scanned, d1)" by blast
  show "r = Done \<or> (wt_lastScanned w = latest \<and> wt_lastScanned w' = latest \<and>
        wt_cooldownUntil w' = wt_cooldownUntil w \<and> \<not> wt_needsCursorInit w')"
    using t a(3-5) d1 by (auto simp: cancel_tick_def p Let_def split: if_splits)
qed

section \<open>The cursor\<close>


definition sample_fx :: fill_ext where
  "sample_fx = \<lparr>fx_sea = sample_sx, fx_selector = ''0xf6274f66'', fx_decode = (\<lambda>h. Inl TypeError)\<rparr>"

definition sample_cx :: cancel_ext where
  "sample_cx = \<lparr>cx_sea = sample_sx, cx_decode = (\<lambda>h. Inl TypeError), cx_decodePair = (\<lambda>h. Inl TypeError)\<rparr>"

definition sample_watch :: "watch_cfg \<times> watch" where
  "sample_watch =
    (\<lparr>wc_enabled = True, wc_chainId = 84532, wc_maxBlocks = 100, wc_intervalMs = 2000\<rparr>,
     \<lparr>wt_lastScanned = 7, wt_backoff = new_backoff (num 15000) (num 120000), wt_cooldownUntil = 0,
      wt_needsCursorInit = False, wt_cursor = cursor_json 7\<rparr>)"



text \<open>
  C34. Catching up ends. However far behind the head the cursor is, with the configuration any
  environment gives (at least one and at most 500 blocks per tick), \<open>n\<close> ticks that meet no RPC
  error bring either watcher \<open>n\<close> times that many blocks forward, so that after as many ticks as the
  distance divided by the batch, rounded up, it stands at the head, and it stays there.
\<close>

theorem catch_up_ends:
  assumes "new_watcher pe k1 k2 k3 url file = Inr (cfg, w0)"
    and "healthy fetch" and "proxy_known (fx_sea fx)" and "proxy_known (cx_sea cx)"
    and "wt_cooldownUntil w \<le> now" and "\<not> wt_needsCursorInit w"
    and "wt_lastScanned w \<le> latest" and "latest - wt_lastScanned w \<le> int n * wc_maxBlocks cfg"
  shows "wt_lastScanned (fst (((\<lambda>s. snd (fill_tick fx cfg env writable (Inr latest) fetch now s)) ^^ n) (w, d))) = latest \<and>
    wt_lastScanned (fst (((\<lambda>s. snd (cancel_tick cx cfg env writable (Inr latest) fetch now s)) ^^ n) (w, s))) = latest \<and>
    1 \<le> wc_maxBlocks cfg \<and> wc_maxBlocks cfg \<le> 500"
proof -
  have m: "1 \<le> wc_maxBlocks cfg" "wc_maxBlocks cfg \<le> 500"
    using assms(1) by (auto simp: new_watcher_def split: if_splits)
  then have "0 \<le> wc_maxBlocks cfg" by simp
  note c = assms(2,5,6,7) this
  show ?thesis
    using filling.catch_up [OF assms(3) c] cancelling_watch.catch_up [OF assms(4) c] assms(8) m by simp
qed

theorem catch_up_ends_witness:
  "wt_lastScanned (fst (((\<lambda>s. snd (fill_tick sample_fx (fst sample_watch) id True (Inr 250)
     (\<lambda>b. Inr NoTransactions) 5 s)) ^^ 3) (snd sample_watch, \<lparr>fs_seen = [], fs_sea = sea_sample\<rparr>))) = 250"
proof -
  have n: "new_watcher (\<lambda>k. if k = ''f'' then Some ''1'' else if k = ''CHAIN_ID'' then Some ''84532'' else None)
      ''f'' ''m'' ''i'' ''http'' NoFile = Inr (fst sample_watch, (snd sample_watch)
      \<lparr>wt_lastScanned := 0, wt_cursor := NoFile\<rparr>)"
    by code_simp
  have p: "proxy_known sample_sx"
    by (simp add: proxy_known_def resolve_def sample_sx_def sample_zx_def non_empty_def hex_addr_def)
  show ?thesis
    using catch_up_ends [OF n, of "\<lambda>b. Inr NoTransactions" sample_fx sample_cx "snd sample_watch" 5 250 3] p
    by (simp add: healthy_def sample_fx_def sample_cx_def sample_watch_def)
qed

section \<open>The ticks as steps of the intent machine\<close>

lemma on_engine_refined: "keeps_engine (sea_engine s) (snd (f (sea_engine s))) \<Longrightarrow> refined s (snd (on_engine f s))"
  by (simp add: on_engine_eq refined_engine)

lemma db_keeps: "d_markets d = d_markets (eng_db e) \<Longrightarrow> keeps_engine e (e\<lparr>eng_db := d\<rparr>)"
  by (simp add: keeps_engine_def engine_wf_db)

lemma on_db_refined:
  "(\<And>d. d_markets (snd (f d)) = d_markets d) \<Longrightarrow> refined s (snd (on_db f s))"
  unfolding on_db_def by (intro on_engine_refined) (simp add: case_prod_unfold Let_def db_keeps)

lemma on_db_eq: "on_db f s = (fst (f (sea_db s)), s\<lparr>sea_engine := (sea_engine s)\<lparr>eng_db := snd (f (sea_db s))\<rparr>\<rparr>)"
  by (simp add: on_db_def on_engine_eq case_prod_unfold Let_def)

lemma settle_refined:
  assumes "\<And>i t. intent_step (sea_db s) t (snd (write i t))"
  shows "refined s (settle_intent write ty p c s)"
proof -
  have 1: "refined s (snd (on_intents (write i) s))" for i using assms by (intro refined_step)
  show ?thesis
    using 1 refined_then_event [OF 1]
    by (simp add: settle_intent_def case_prod_unfold split: option.split bool.split)
qed

lemma settle_failed_refined: "refined s (settle_failed now c s)"
  unfolding settle_failed_def by (intro settle_refined) (auto intro: intent_step.intros)

lemma settle_executed_refined: "refined s (settle_executed now c s)"
  unfolding settle_executed_def by (intro settle_refined) (auto intro: intent_step.intros)

lemma external_fill_keeps: "0 \<le> n \<Longrightarrow> keeps_engine e (snd (applyExternalFill now k h n e))"
  by (simp add: keeps_engine_def engine_wf_applyExternalFill applyExternalFill_markets)

lemma apply_fill_refined:
  assumes "0 \<le> fc_execBase c"
  shows "refined s (snd (apply_fill now c s))"
  unfolding apply_fill_def
proof (rule refined_andthen)
  show "refined s (snd (on_db (addTrade now (ctx_id (fc_ctx c)) (fc_orderHash c) (to_lower (fc_taker c))
               (fc_priceTicks c) (fc_execBase c) (non_empty (Some (fc_txHash c)))) s))"
    by (intro on_db_refined) simp
  fix v s1 assume s1: "refined s s1"
  have e: "refined s1 (snd (on_engine (applyExternalFill now (mb_symbol (fc_market c)) (fc_orderHash c) (fc_execBase c)) s1))"
    by (intro on_engine_refined external_fill_keeps assms)
  have "refined s2 (settle_executed now c (snd (on_db (\<lambda>d. ((), inc_metric k d)) s2)))" for k s2
    by (rule refined_trans [OF on_db_refined settle_executed_refined]) simp
  with refined_trans [OF s1 e] refined_trans
  show "refined s (snd (andthen (on_engine (applyExternalFill now (mb_symbol (fc_market c)) (fc_orderHash c) (fc_execBase c)) s1)
      (\<lambda>res s2. (Inr (), settle_executed now c
        (snd (on_db (\<lambda>d. ((), inc_metric (''fills:'' @ fill_status_str res) d)) s2))))))"
    by (intro refined_andthen) auto
qed

lemma read_candidate_pos: "read_candidate x cfg tx w = Inr (Some c) \<Longrightarrow> 0 < fc_execBase c"
  by (auto simp: read_candidate_def decoded_candidate_def priced_candidate_def Let_def
      split: if_splits option.splits)

lemma add_seen_sea [simp]: "fs_sea (add_seen k w) = fs_sea w" "fs_sea (evict_seen w) = fs_sea w"
  by (simp_all add: add_seen_def evict_seen_def)

lemma handle_candidate_refined:
  assumes "\<And>s. refined s (env s)" and "0 \<le> fc_execBase c"
  shows "refined (fs_sea w) (fs_sea (snd (handle_candidate x env now c w)))"
proof -
  define s where "s = (if fc_txHash c = [] then fs_sea w else env (fs_sea w))"
  have 1: "refined (fs_sea w) s" using assms(1) by (simp add: s_def)
  show ?thesis
    using refined_trans [OF 1 apply_fill_refined [OF assms(2)]] refined_trans [OF 1 settle_failed_refined]
    unfolding handle_candidate_def Let_def s_def [symmetric]
    by (simp add: case_prod_unfold split: sum.split)
qed

lemma fill_tx_refined:
  assumes "\<And>s. refined s (env s)"
  shows "refined (fs_sea w) (fs_sea (snd (fill_tx x cfg env now ep tx w)))"
  using handle_candidate_refined [OF assms] read_candidate_pos [of x cfg tx w]
  by (auto simp: fill_tx_def handle_fill_def order_less_imp_le split: sum.split option.split)

lemma fill_tick_refined:
  assumes "\<And>s. refined s (env s)"
  shows "refined (fs_sea d) (fs_sea (snd (snd (fill_tick x cfg env b head fetch now (w, d)))))"
proof -
  have "refined (fs_sea d) (fs_sea (snd (scan_blocks fetch (fill_tx x cfg env now ep) bs d)))" for ep bs
    by (rule scan_blocks_rel [where R = "\<lambda>d d'. refined (fs_sea d) (fs_sea d')"])
      (auto intro: refined_trans fill_tx_refined [OF assms])
  then show ?thesis
    by (simp add: fill_tick_def case_prod_unfold Let_def split: sum.split scan_end.split)
qed

lemma cancel_keeps: "keeps_engine e (snd (cancel now k h e))"
  by (simp add: keeps_engine_def engine_wf_cancel cancel_markets)

lemma cancelOrder_keeps: "keeps_engine e (e\<lparr>eng_db := snd (cancelOrder now i h (eng_db e))\<rparr>)"
  by (rule db_keeps) simp

lemma metric_keeps: "keeps_engine e (e\<lparr>eng_db := inc_metric k (eng_db e)\<rparr>)"
  by (rule db_keeps) simp

lemma cancel_one_keeps: "keeps_engine e (cancel_one now m h e)"
proof -
  obtain r e1 where c: "cancel now (mb_symbol m) h e = (r, e1)" by fastforce
  have "keeps_engine e e1" using cancel_keeps [of e now "mb_symbol m" h] c by simp
  then have "keeps_engine e e1" "keeps_engine e (e1\<lparr>eng_db := snd (cancelOrder now (mb_id m) h (eng_db e1))\<rparr>)"
    by (simp_all add: keeps_engine_trans [OF _ cancelOrder_keeps])
  then show ?thesis
    by (simp add: cancel_one_def c split: sum.split cancel_status.split)
qed

lemma cancel_all_keeps: "keeps_engine e (cancel_all now m hs e)"
  by (induction hs arbitrary: e) (auto intro: keeps_engine_trans cancel_one_keeps)

lemma single_cancel_keeps: "keeps_engine e (single_cancel_market now m h e)"
proof -
  obtain r e1 where c: "cancel now (mb_symbol m) h e = (r, e1)" by fastforce
  obtain q d where d: "cancelOrder now (mb_id m) h (eng_db e1) = (q, d)" by fastforce
  have 1: "keeps_engine e e1" using cancel_keeps [of e now "mb_symbol m" h] c by simp
  have "d_markets d = d_markets (eng_db e1)" using cancelOrder_db(2) [of now "mb_id m" h "eng_db e1"] d by simp
  then have "keeps_engine e (e1\<lparr>eng_db := inc_metric k d\<rparr>)" "keeps_engine e (e1\<lparr>eng_db := d\<rparr>)"
    "keeps_engine e (e1\<lparr>eng_db := inc_metric k (eng_db e1)\<rparr>)" for k
    by (auto intro!: keeps_engine_trans [OF 1] db_keeps simp: log_frame)
  with 1 show ?thesis
    by (simp add: single_cancel_market_def c d split: sum.split cancel_status.split)
qed

lemma count_cancelled_frame [simp]:
  "d_markets (count_cancelled k n d) = d_markets d" "d_orders (count_cancelled k n d) = d_orders d"
  by (induction n arbitrary: d) simp_all

lemma refined_floors: "refined s s1 \<Longrightarrow> refined s (on_floors f s1)"
  by (simp add: refined_def on_floors_def)

lemma pair_cancel_refined: "refined s (pair_cancel x now tx s)"
proof -
  have "keeps_engine e ((cancel_all now m hs e)\<lparr>eng_db := count_cancelled k n (eng_db (cancel_all now m hs e))\<rparr>)"
    for e m hs k n
    by (rule keeps_engine_trans [OF cancel_all_keeps db_keeps]) simp
  then have "refined s (pair_cancel_market now tx m ml mk tk v s)" for m ml mk tk v
    by (simp add: pair_cancel_market_def Let_def refined_floors refined_engine)
  then show ?thesis by (simp add: pair_cancel_def split: sum.split option.split)
qed

lemma single_cancel_refined: "refined s (single_cancel x cfg now tx s)"
  by (simp add: single_cancel_def Let_def refined_engine single_cancel_keeps
      split: sum.split option.split list.split)

lemma cancel_tick_refined:
  assumes "\<And>s. refined s (env s)"
  shows "refined s (snd (snd (cancel_tick x cfg env b head fetch now (w, s))))"
proof -
  have tx: "refined t (snd (cancel_tx x cfg now ep tx t))" for ep tx t
    by (simp add: cancel_tx_def pair_cancel_refined single_cancel_refined split: sum.split)
  have "refined t (snd (scan_blocks fetch (cancel_tx x cfg now ep) bs t))" for ep bs t
    by (rule scan_blocks_rel [where R = refined, OF refined_refl _ tx]) (erule (1) refined_trans)
  then have "refined s (snd (scan_blocks fetch (cancel_tx x cfg now ep) bs (env s)))" for ep bs
    using assms refined_trans by blast
  then show ?thesis
    by (simp add: cancel_tick_def case_prod_unfold Let_def split: sum.split scan_end.split)
qed

text \<open>Both ticks keep the contract of the services, whatever service runs in between.\<close>

interpretation fill_ticks: sea_service "fx_sea x"
  "\<lambda>s. fs_sea (snd (snd (fill_tick x cfg (\<lambda>s. s) b head fetch now (w, \<lparr>fs_seen = seen, fs_sea = s\<rparr>))))"
  for x cfg b head fetch now w seen
  using fill_tick_refined [of "\<lambda>s. s" "\<lparr>fs_seen = seen, fs_sea = _\<rparr>" x cfg b head fetch now w]
  by unfold_locales simp

interpretation cancel_ticks: sea_service "cx_sea x"
  "\<lambda>s. snd (snd (cancel_tick x cfg (\<lambda>s. s) b head fetch now (w, s)))" for x cfg b head fetch now w
  by unfold_locales (simp add: cancel_tick_refined)

end
