(* ===== verification/DelegatedProps.thy ===== *)
theory DelegatedProps
  imports DelegatedExecutor WatcherProps
begin

text \<open>
  What bounds a delegated execution: the provider is only ever asked for a fill that the grant it
  belongs to covers, each attempt ends the intent and the grant the way the provider answered, and
  the worker moves the intents by steps of the life cycle only.
\<close>

section \<open>The request stays within the grant\<close>

lemma fresh_fill_amounts:
  assumes "fill_of_order x rq account ctx h fillBase remaining lo sg = Inr ff"
  shows "dq_takerToken (ff_quote ff) = xe_takerToken (ff_expected ff)"
    "dq_takerFillAmountQ (ff_quote ff) = xe_takerFillAmount (ff_expected ff)"
    "dq_takerTotalAmountQ (ff_quote ff) = xe_takerFillAmount (ff_expected ff) + xe_takerFeeAmount (ff_expected ff)"
    "xe_execBase (ff_expected ff) = fillBase" "xe_taker (ff_expected ff) = account"
  using assms by (auto simp: fill_of_order_def Let_def)

lemma fresh_plan_single:
  assumes "fresh_plan x rq account ctx plan d = Inr (Inr ff)"
  obtains f ro sg lo n remaining where "q_fills plan = [f]" "str_to_bigint (qf_sizeBase f) = Inr n"
    "dfr_sizeBase rq \<le> n" "hydrated d f = Some (ro, sg)" "df_sanitizeOrder ro = Inr lo"
    "fill_of_order x rq account ctx (qf_hash f) n remaining lo sg = Inr ff"
proof (cases "\<exists>f. q_fills plan = [f]")
  case True
  then obtain f where f: "q_fills plan = [f]" by blast
  with assms that show thesis
    by (cases "hydrated d f") (auto simp: fresh_plan_def Let_def split: if_splits)
next
  case False
  then have "q_fills plan = [] \<or> (\<exists>f g fs. q_fills plan = f # g # fs)"
    by (cases "q_fills plan" rule: remdups_adj.cases) auto
  then show thesis using assms by (auto simp: fresh_plan_def Let_def)
qed

lemma fresh_plan_sound:
  assumes "fresh_plan x rq account ctx plan d = Inr (Inr ff)"
  shows "dq_takerToken (ff_quote ff) = xe_takerToken (ff_expected ff)"
    "dq_takerFillAmountQ (ff_quote ff) = xe_takerFillAmount (ff_expected ff)"
    "dq_takerTotalAmountQ (ff_quote ff) = xe_takerFillAmount (ff_expected ff) + xe_takerFeeAmount (ff_expected ff)"
    "dfr_sizeBase rq \<le> xe_execBase (ff_expected ff)" "xe_taker (ff_expected ff) = account"
  using fresh_plan_single [OF assms] fresh_fill_amounts by metis+

lemma quote_db: "eng_db (snd (quote fb k sd n limit e)) = eng_db e"
  by (auto simp: quote_def ensure_book_def Let_def split: sum.split option.split prod.split)

lemma buildFreshFill_plan:
  assumes "buildFreshFill x rq account s = (Inr ff, s')"
  obtains ctx plan where "getTradingContext (sea_db s) (dfr_marketId rq) = Inr ctx"
    "fst (quote (TAKER_FEE_BPS (dx_env x)) (dfr_marketId rq) (dfr_side rq) (dfr_sizeBase rq)
      (Some (dfr_triggerPriceTicks rq)) (sea_engine s)) = Inr plan"
    "sea_db s' = sea_db s" "fresh_plan x rq account ctx plan (sea_db s) = Inr (Inr ff)"
  using assms that quote_db [of "TAKER_FEE_BPS (dx_env x)" "dfr_marketId rq" "dfr_side rq" "dfr_sizeBase rq"
      "Some (dfr_triggerPriceTicks rq)" "sea_engine s"]
  by (auto simp: buildFreshFill_def on_engine_def Let_def case_prod_unfold prod_eq_iff split: sum.splits prod.splits)

text \<open>A quote answered by one fill of at least the requested size takes it from one resting level.\<close>

lemma single_fill_level:
  assumes q: "fst (quote fb k sd x (Some p) e) = Inr q" and f: "q_fills q = [f]"
    and n: "str_to_bigint (qf_sizeBase f) = Inr n" "x \<le> n"
    and ctx: "getTradingContext (eng_db e) k = Inr ctx"
  obtains b l where "book_at e (ctx_symbol ctx) = Some b" "l \<in> set (against sd b)"
    "\<not> beyond_limit sd (Some p) (lv_priceTicks l)" "f = quoted (l, x)" "n = x" "x \<le> lv_sizeBase l"
proof -
  let ?A = "against sd (fst (ensure_book (ctx_symbol ctx) e))"
  obtain plan where plan: "plan = greedy x (in_limit sd (Some p) ?A)" and fs: "q_fills q = map quoted plan"
    using quote_result [OF q] ctx by (metis Inr_inject)
  from fs f obtain l y where ly: "plan = [(l, y)]" and fq: "f = quoted (l, y)" by (auto simp: map_eq_Cons_conv)
  then obtain ls where ls: "in_limit sd (Some p) ?A = l # ls" and y: "y = min x (lv_sizeBase l)" "0 < x"
    using plan by (cases "in_limit sd (Some p) ?A") (auto split: if_splits)
  have "n = y" using n(1) by (simp add: fq quoted_def)
  with n(2) y have e: "y = x" "n = x" "x \<le> lv_sizeBase l" by auto
  have l: "l \<in> set ?A" "\<not> beyond_limit sd (Some p) (lv_priceTicks l)"
    using set_takeWhileD [of l "\<lambda>l. \<not> beyond_limit sd (Some p) (lv_priceTicks l)" ?A] ls by auto
  from l(1) obtain b where "book_at e (ctx_symbol ctx) = Some b" "l \<in> set (against sd b)"
    by (cases sd) (auto simp: ensure_book_def empty_book_def split: option.splits)
  then show thesis using that l(2) fq e by simp
qed

lemma hydrated_source:
  assumes "hydrated d f = Some (ro, sg)"
  shows "(qf_rawOrder f = Some ro \<and> qf_rawSig f = Some sg) \<or>
    (\<exists>t. findRawOrderByHash d (qf_hash f) = (Some ro, Some t) \<and> sg = tuple_json t)"
  using assms unfolding hydrated_def by (auto split: option.splits if_splits prod.splits)

text \<open>What a grant allows, of a request and the intent it is for.\<close>

definition within_grant :: "int \<Rightarrow> intent_row \<Rightarrow> grant_row \<Rightarrow> exec_request \<Rightarrow> bool" where
  "within_grant now r g rq \<longleftrightarrow>
    xr_intentId rq = it_id r \<and> xr_accountModel rq = gr_accountModel g \<and>
    Some (xr_permissionId rq) = gr_permissionId g \<and>
    Some (xr_accountAddress rq) = meta_string (gr_meta g) ''accountAddress'' \<and>
    Some (xr_enableData rq) = meta_string (gr_meta g) ''enableData'' \<and>
    to_lower (xr_target rq) = to_lower (gr_target g) \<and>
    to_lower (xe_takerToken (xr_expected rq)) = to_lower (gr_spendToken g) \<and>
    stored_max g = Inr (po_maxTakerFillAmountQ (xr_policy rq)) \<and>
    xe_takerFillAmount (xr_expected rq) \<le> po_maxTakerFillAmountQ (xr_policy rq) \<and>
    xe_takerFillAmount (xr_expected rq) + xe_takerFeeAmount (xr_expected rq) \<le> gr_spendCapQ g \<and>
    it_sizeBase r \<le> xe_execBase (xr_expected rq) \<and>
    xe_taker (xr_expected rq) = xr_accountAddress rq \<and>
    gr_status g = G_ACTIVE \<and> gr_intentId g = it_id r \<and> now < gr_validUntil g"

text \<open>
  What the request executes: in the state \<open>s\<close> a resting order of the opposite side, priced within
  the trigger, has the intent's full size left; the request names its hash and that size, and its
  calldata is the \<open>fillLimitOrder\<close> call of this one order with its stored signature, for the taker
  tokens of exactly that size.
\<close>

definition full_fill :: "deleg_world \<Rightarrow> sea \<Rightarrow> intent_row \<Rightarrow> exec_request \<Rightarrow> bool" where
  "full_fill x s r rq \<longleftrightarrow> (\<exists>ctx b l ro sg lo abiSig.
    getTradingContext (sea_db s) (it_marketId r) = Inr ctx \<and>
    book_at (sea_engine s) (ctx_symbol ctx) = Some b \<and> l \<in> set (against (it_side r) b) \<and>
    (case it_side r of BUY \<Rightarrow> lv_priceTicks l \<le> it_triggerPriceTicks r
       | SELL \<Rightarrow> it_triggerPriceTicks r \<le> lv_priceTicks l) \<and>
    it_sizeBase r \<le> lv_sizeBase l \<and>
    xe_orderHash (xr_expected rq) = lv_id l \<and> xe_execBase (xr_expected rq) = it_sizeBase r \<and>
    (lv_rawOrder l = Some ro \<and> lv_rawSig l = Some sg \<or>
      (\<exists>t. findRawOrderByHash (sea_db s) (lv_id l) = (Some ro, Some t) \<and> sg = tuple_json t)) \<and>
    df_sanitizeOrder ro = Inr lo \<and> sig_for_abi sg = Inr abiSig \<and>
    xe_takerToken (xr_expected rq) =
      (case it_side r of BUY \<Rightarrow> ctx_quoteAddress ctx | SELL \<Rightarrow> ctx_baseAddress ctx) \<and>
    xe_takerFillAmount (xr_expected rq) =
      (case it_side r of
         BUY \<Rightarrow> tdiv (it_sizeBase r * lo_takerAmount lo) (if lo_makerAmount lo = 0 then 1 else lo_makerAmount lo)
       | SELL \<Rightarrow> it_sizeBase r) \<and>
    ab_fill (dx_abi x) (order_json lo) abiSig (xe_takerFillAmount (xr_expected rq)) = Inr (xr_calldata rq))"

lemma policyFromGrant_fields:
  assumes "policyFromGrant x g = Inr p"
  shows "po_target p = gr_target g" "po_spendToken p = gr_spendToken g"
    "str_to_bigint (sx_decToString (dx_sea x) (gr_spendCapQ g)) = Inr (po_spendCapQ p)"
    "stored_max g = Inr (po_maxTakerFillAmountQ p)"
  using assms by (auto simp: policyFromGrant_def)

lemma fill_refused_None:
  assumes "fill_refused now p ff = None"
  shows "to_lower (ff_target ff) = to_lower (po_target p)"
    "to_lower (dq_takerToken (ff_quote ff)) = to_lower (po_spendToken p)"
    "dq_takerFillAmountQ (ff_quote ff) \<le> po_maxTakerFillAmountQ p"
    "dq_takerTotalAmountQ (ff_quote ff) \<le> po_spendCapQ p"
  using assms by (auto simp: fill_refused_def validateFreshQuoteAgainstPolicy_def split: if_splits option.splits)

text \<open>\<open>Decimal.toString\<close>, where \<open>BigInt\<close> reads it at all, denotes the stored number.\<close>

definition decimals_exact :: "sea_ext \<Rightarrow> bool" where
  "decimals_exact x \<longleftrightarrow> (\<forall>n v. str_to_bigint (sx_decToString x n) = Inr v \<longrightarrow> v = n)"

lemma checked_request_plan:
  assumes "checked_request x now r g s = (Inr (Inr rq), s')"
  obtains account enableData permissionId policy n ff s1
  where "meta_field g ''accountAddress'' = Some account" "meta_field g ''enableData'' = Some enableData"
    "non_empty (gr_permissionId g) = Some permissionId" "policyFromGrant x g = Inr policy"
    "str_to_bigint (sx_decToString (dx_sea x) (it_sizeBase r)) = Inr n"
    "buildFreshFill x \<lparr>dfr_marketId = it_marketId r, dfr_side = it_side r, dfr_sizeBase = n,
       dfr_triggerPriceTicks = it_triggerPriceTicks r\<rparr> account s = (Inr ff, s')"
    "fill_refused now policy ff = None" "rq = request_of r g account enableData permissionId policy ff"
  using assms that
  by (auto simp: checked_request_def split: option.splits sum.splits prod.splits)

lemma non_empty_SomeD: "non_empty v = Some w \<Longrightarrow> v = Some w"
  by (auto simp: non_empty_def split: option.splits if_splits)

lemma fill_of_order_call:
  assumes "fill_of_order x rq account ctx h n remaining lo sg = Inr ff"
  obtains abiSig where "sig_for_abi sg = Inr abiSig"
    "ab_fill (dx_abi x) (order_json lo) abiSig (taker_fill (dfr_side rq) n lo) = Inr (ff_calldata ff)"
    "xe_takerFillAmount (ff_expected ff) = taker_fill (dfr_side rq) n lo" "xe_orderHash (ff_expected ff) = h"
    "xe_takerToken (ff_expected ff) = (case dfr_side rq of BUY \<Rightarrow> ctx_quoteAddress ctx | SELL \<Rightarrow> ctx_baseAddress ctx)"
  using assms that by (auto simp: fill_of_order_def Let_def buildFillLimitOrder_def)

lemma checked_request_full_fill:
  assumes rq: "checked_request x now r g s = (Inr (Inr rq), s')" and dec: "decimals_exact (dx_sea x)"
  shows "full_fill x s r rq"
proof -
  obtain account enableData permissionId policy n ff
    where n: "str_to_bigint (sx_decToString (dx_sea x) (it_sizeBase r)) = Inr n"
    and ff: "buildFreshFill x \<lparr>dfr_marketId = it_marketId r, dfr_side = it_side r, dfr_sizeBase = n,
       dfr_triggerPriceTicks = it_triggerPriceTicks r\<rparr> account s = (Inr ff, s')"
    and rq: "rq = request_of r g account enableData permissionId policy ff"
    by (rule checked_request_plan [OF rq])
  have "n = it_sizeBase r" using dec n by (simp add: decimals_exact_def)
  let ?rq = "\<lparr>dfr_marketId = it_marketId r, dfr_side = it_side r, dfr_sizeBase = it_sizeBase r,
       dfr_triggerPriceTicks = it_triggerPriceTicks r\<rparr>"
  obtain ctx plan where ctx: "getTradingContext (sea_db s) (it_marketId r) = Inr ctx"
    and q: "fst (quote (TAKER_FEE_BPS (dx_env x)) (it_marketId r) (it_side r) (it_sizeBase r)
      (Some (it_triggerPriceTicks r)) (sea_engine s)) = Inr plan"
    and fp: "fresh_plan x ?rq account ctx plan (sea_db s) = Inr (Inr ff)"
    by (rule buildFreshFill_plan [OF ff [unfolded \<open>n = it_sizeBase r\<close>]]) simp
  obtain f ro sg lo m remaining where f: "q_fills plan = [f]" "str_to_bigint (qf_sizeBase f) = Inr m"
      "it_sizeBase r \<le> m" and hy: "hydrated (sea_db s) f = Some (ro, sg)" "df_sanitizeOrder ro = Inr lo"
    and fo: "fill_of_order x ?rq account ctx (qf_hash f) m remaining lo sg = Inr ff"
    by (rule fresh_plan_single [OF fp]) simp
  obtain b l where l: "book_at (sea_engine s) (ctx_symbol ctx) = Some b" "l \<in> set (against (it_side r) b)"
    "\<not> beyond_limit (it_side r) (Some (it_triggerPriceTicks r)) (lv_priceTicks l)"
    and fq: "f = quoted (l, it_sizeBase r)" and m: "m = it_sizeBase r" "it_sizeBase r \<le> lv_sizeBase l"
    by (rule single_fill_level [OF q f ctx])
  have px: "case it_side r of BUY \<Rightarrow> lv_priceTicks l \<le> it_triggerPriceTicks r
      | SELL \<Rightarrow> it_triggerPriceTicks r \<le> lv_priceTicks l"
    using l(3) by (simp add: beyond_limit_def not_less split: side.splits)
  have src: "lv_rawOrder l = Some ro \<and> lv_rawSig l = Some sg \<or>
      (\<exists>t. findRawOrderByHash (sea_db s) (lv_id l) = (Some ro, Some t) \<and> sg = tuple_json t)"
    using hydrated_source [OF hy(1)] by (simp add: fq quoted_def)
  obtain abiSig where call: "sig_for_abi sg = Inr abiSig"
      "ab_fill (dx_abi x) (order_json lo) abiSig (taker_fill (it_side r) m lo) = Inr (ff_calldata ff)"
      "xe_takerFillAmount (ff_expected ff) = taker_fill (it_side r) m lo" "xe_orderHash (ff_expected ff) = qf_hash f"
      "xe_takerToken (ff_expected ff) = (case it_side r of BUY \<Rightarrow> ctx_quoteAddress ctx | SELL \<Rightarrow> ctx_baseAddress ctx)"
    by (rule fill_of_order_call [OF fo]) simp
  show ?thesis
    unfolding full_fill_def
    by (rule exI [of _ ctx], rule exI [of _ b], rule exI [of _ l], rule exI [of _ ro], rule exI [of _ sg],
        rule exI [of _ lo], rule exI [of _ abiSig])
      (use ctx l(1,2) px m src hy(2) call fresh_fill_amounts(4) [OF fo] in
        \<open>simp add: rq request_of_def fq taker_fill_def cong: side.case_cong\<close>)
qed

lemma checked_request_within:
  assumes rq: "checked_request x now r g s = (Inr (Inr rq), s')" and dec: "decimals_exact (dx_sea x)"
    and g: "gr_status g = G_ACTIVE" "gr_intentId g = it_id r" "now < gr_validUntil g"
  shows "within_grant now r g rq"
proof -
  obtain account enableData permissionId policy n ff
    where m: "meta_field g ''accountAddress'' = Some account" "meta_field g ''enableData'' = Some enableData"
      "non_empty (gr_permissionId g) = Some permissionId"
    and p: "policyFromGrant x g = Inr policy" and n: "str_to_bigint (sx_decToString (dx_sea x) (it_sizeBase r)) = Inr n"
    and ff: "buildFreshFill x \<lparr>dfr_marketId = it_marketId r, dfr_side = it_side r, dfr_sizeBase = n,
       dfr_triggerPriceTicks = it_triggerPriceTicks r\<rparr> account s = (Inr ff, s')"
    and ok: "fill_refused now policy ff = None" and rq: "rq = request_of r g account enableData permissionId policy ff"
    by (rule checked_request_plan [OF rq])
  obtain ctx plan where fp: "fresh_plan x \<lparr>dfr_marketId = it_marketId r, dfr_side = it_side r, dfr_sizeBase = n,
       dfr_triggerPriceTicks = it_triggerPriceTicks r\<rparr> account ctx plan (sea_db s) = Inr (Inr ff)"
    by (rule buildFreshFill_plan [OF ff])
  note sound = fresh_plan_sound [OF fp]
  have "n = it_sizeBase r" "po_spendCapQ policy = gr_spendCapQ g"
    using dec n policyFromGrant_fields(3) [OF p] by (auto simp: decimals_exact_def)
  then show ?thesis
    using m [unfolded meta_field_def, THEN non_empty_SomeD]
      g policyFromGrant_fields [OF p] fill_refused_None [OF ok] sound
    by (simp add: within_grant_def rq request_of_def)
qed


section \<open>The provider is asked for nothing else\<close>

lemma checked_request_execute [simp]:
  "checked_request (x\<lparr>dx_execute := f\<rparr>) now r g s = checked_request x now r g s"
proof -
  have "fill_of_order (x\<lparr>dx_execute := f\<rparr>) = fill_of_order x"
    by (simp add: fun_eq_iff fill_of_order_def)
  have sx: "dx_sea (x\<lparr>dx_execute := f\<rparr>) = dx_sea x" by simp
  from \<open>fill_of_order (x\<lparr>dx_execute := f\<rparr>) = fill_of_order x\<close>
  have plan: "fresh_plan (x\<lparr>dx_execute := f\<rparr>) a b c e h = fresh_plan x a b c e h" for a b c e h
    unfolding fresh_plan_def by (simp only:)
  have bff: "buildFreshFill (x\<lparr>dx_execute := f\<rparr>) a b c = buildFreshFill x a b c" for a b c
    unfolding buildFreshFill_def plan sx ..
  have pol: "policyFromGrant (x\<lparr>dx_execute := f\<rparr>) = policyFromGrant x"
    by (simp add: fun_eq_iff policyFromGrant_def)
  show ?thesis unfolding checked_request_def bff pol sx ..
qed

lemma findExecutable_covers:
  assumes "(r, g) \<in> set (findExecutable now k grants t)"
  shows "g \<in> set grants" "gr_status g = G_ACTIVE" "now < gr_validUntil g" "gr_intentId g = it_id r"
    "r \<in> set t" "executable_intent now (it_id r) r"
proof -
  let ?gs = "js_sort (asc_by gr_createdAt) (filter (\<lambda>g. gr_status g = G_ACTIVE \<and> gr_validUntil g > now) grants)"
  obtain h where h: "h \<in> set (take k ?gs)"
    and "(r, g) \<in> set (case find (executable_intent now (gr_intentId h)) t of None \<Rightarrow> [] | Some q \<Rightarrow> [(q, h)])"
    using assms unfolding findExecutable_def set_concat set_map by blast
  then have g: "g = h" and f: "find (executable_intent now (gr_intentId g)) t = Some r"
    by (cases "find (executable_intent now (gr_intentId h)) t"; simp)+
  have "g \<in> set ?gs" using h g in_set_takeD by metis
  then show "g \<in> set grants" "gr_status g = G_ACTIVE" "now < gr_validUntil g" by simp_all
  have "executable_intent now (gr_intentId g) r" and t: "r \<in> set t"
    using f [unfolded find_Some_iff] by auto
  then show "gr_intentId g = it_id r" "executable_intent now (it_id r) r"
    by (simp_all add: executable_intent_def)
  show "r \<in> set t" by (rule t)
qed

text \<open>The attempts of a batch, each with the state it starts from.\<close>

fun attempts_of ::
  "deleg_world \<Rightarrow> (await_point \<Rightarrow> deleg \<Rightarrow> deleg) \<Rightarrow> int \<Rightarrow> (intent_row \<times> grant_row) list \<Rightarrow> deleg \<Rightarrow>
     (intent_row \<times> grant_row \<times> deleg) list" where
  "attempts_of x env now [] d = []"
| "attempts_of x env now ((r, g) # rgs) d = (r, g, d) #
    (case processOne x env now (r, g) d of
       (Inl e, d1) \<Rightarrow> []
     | (Inr _, d1) \<Rightarrow> attempts_of x env now rgs d1)"

lemma attempts_of_batch: "(r, g, e) \<in> set (attempts_of x env now rgs d) \<Longrightarrow> (r, g) \<in> set rgs"
  by (induction rgs arbitrary: d) (fastforce split: sum.splits prod.splits)+

lemma processOne_cong:
  assumes "decimals_exact (dx_sea x)" and "gr_status g = G_ACTIVE" "gr_intentId g = it_id r" "now < gr_validUntil g"
    and "\<And>rq. within_grant now r g rq \<Longrightarrow> full_fill x (de_sea (env Before_plan d)) r rq \<Longrightarrow> f rq = dx_execute x rq"
  shows "processOne (x\<lparr>dx_execute := f\<rparr>) env now (r, g) d = processOne x env now (r, g) d"
proof -
  obtain plan s where c: "checked_request x now r g (de_sea (env Before_plan d)) = (plan, s)" by fastforce
  have "submit (x\<lparr>dx_execute := f\<rparr>) env now r g rq e = submit x env now r g rq e" if "plan = Inr (Inr rq)" for rq e
  proof -
    note c = c [unfolded that]
    have "f rq = dx_execute x rq"
      by (rule assms(5) [OF checked_request_within [OF c assms(1-4)] checked_request_full_fill [OF c assms(1)]])
    then show ?thesis by (simp add: submit_def split: prod.split)
  qed
  then show ?thesis by (simp add: processOne_def c Let_def split: sum.split)
qed

lemma process_all_cong:
  "(\<And>r g e. (r, g, e) \<in> set (attempts_of x env now rgs d) \<Longrightarrow>
      processOne y env now (r, g) e = processOne x env now (r, g) e) \<Longrightarrow>
    process_all y env now rgs d = process_all x env now rgs d"
proof (induction rgs arbitrary: d)
  case (Cons rg rgs)
  obtain r g where rg: "rg = (r, g)" by fastforce
  have one: "processOne y env now (r, g) d = processOne x env now (r, g) d"
    using Cons.prems by (simp add: rg)
  show ?case
  proof (cases "processOne x env now (r, g) d")
    case (Pair q d1)
    show ?thesis
    proof (cases q)
      case (Inr u)
      have "process_all y env now rgs d1 = process_all x env now rgs d1"
        using Cons.prems by (intro Cons.IH) (simp add: rg Pair Inr)
      then show ?thesis by (simp add: rg one Pair Inr)
    qed (simp add: rg one Pair)
  qed
qed simp

text \<open>
  C8. The executor asks its provider for nothing but the fill a grant covers. Replace the provider's
  \<open>execute\<close> by any function that answers alike on the requests that an attempt of the tick can
  justify: for an active, unexpired grant of an executable intent, within its limits (the signed
  permission and account, its target and spend token, a taker fill at most the granted one, fill
  and fee within the spend cap), and calling \<open>fillLimitOrder\<close> on one order that rests within the
  trigger when the attempt plans, for exactly the intent's full size. Every tick then does exactly
  the same, whatever the rest of the API does meanwhile. It is assumed that \<open>Decimal.toString\<close>
  denotes the number it prints.
\<close>

theorem executor_stays_within_grants:
  assumes "decimals_exact (dx_sea x)"
    and "\<And>r g e rq. (r, g, e) \<in> set (attempts_of x env now
        (findExecutable now (nat \<lfloor>limitPerTick\<rfloor>) (de_grants d) (sea_intents (de_sea d))) d) \<Longrightarrow>
      g \<in> set (de_grants d) \<Longrightarrow> r \<in> set (sea_intents (de_sea d)) \<Longrightarrow>
      executable_intent now (gr_intentId g) r \<Longrightarrow> within_grant now r g rq \<Longrightarrow>
      full_fill x (de_sea (env Before_plan e)) r rq \<Longrightarrow> f rq = dx_execute x rq"
  shows "exec_tick (x\<lparr>dx_execute := f\<rparr>) cfg env now limitPerTick d = exec_tick x cfg env now limitPerTick d"
proof -
  let ?rgs = "findExecutable now (nat \<lfloor>limitPerTick\<rfloor>) (de_grants d) (sea_intents (de_sea d))"
  have sx: "dx_sea (x\<lparr>dx_execute := f\<rparr>) = dx_sea x" by simp
  have one: "processOne (x\<lparr>dx_execute := f\<rparr>) env now (r, g) e = processOne x env now (r, g) e"
    if "(r, g, e) \<in> set (attempts_of x env now ?rgs d)" for r g e
  proof -
    note c = findExecutable_covers [OF attempts_of_batch [OF that]]
    have "executable_intent now (gr_intentId g) r" using c(6) by (simp only: c(4))
    then show ?thesis
      using assms(2) [OF that c(1,5)] by (intro processOne_cong [OF assms(1) c(2,4,3)])
  qed
  have "process_all (x\<lparr>dx_execute := f\<rparr>) env now ?rgs d = process_all x env now ?rgs d"
    by (rule process_all_cong) (rule one)
  then show ?thesis unfolding exec_tick_def sx by (simp only:)
qed


section \<open>How an attempt ends\<close>

text \<open>Status and hash of the intent, status of the grant (none: as it was), and the decision audited.\<close>

definition attempt_end ::
  "exec_result result \<Rightarrow> intent_status \<times> string option \<times> grant_status option \<times> exec_decision" where
  "attempt_end answer =
    (case answer of
       Inl e \<Rightarrow> (S_READY, None, None, D_REJECTED)
     | Inr res \<Rightarrow>
         (case non_empty (xs_txHash res) of
            None \<Rightarrow> (S_READY, None, None, D_REJECTED)
          | Some h \<Rightarrow>
              if xs_ok res \<and> xs_confirmed res then (S_EXECUTED, Some h, Some G_USED, D_CONFIRMED)
              else (S_FAILED, Some h, Some G_FAILED, D_FAILED)))"

abbreviation deleg_row :: "deleg \<Rightarrow> string \<Rightarrow> intent_row option" where
  "deleg_row d \<equiv> intent_at (sea_intents (de_sea d))"

abbreviation deleg_grant :: "deleg \<Rightarrow> string \<Rightarrow> grant_row option" where
  "deleg_grant d g \<equiv> row_by gr_id g (de_grants d)"

lemma on_deleg_frame [simp]:
  "de_grants (snd (on_deleg f d)) = de_grants d" "de_attempts (snd (on_deleg f d)) = de_attempts d"
  "sea_intents (de_sea (snd (on_deleg f d))) = snd (f (sea_intents (de_sea d)))"
  "sea_engine (de_sea (snd (on_deleg f d))) = sea_engine (de_sea d)"
  "fst (on_deleg f d) = fst (f (sea_intents (de_sea d)))"
  "de_sea (snd (on_deleg f d)) = snd (on_intents f (de_sea d))"
  by (simp_all add: on_deleg_def case_prod_unfold)

lemma audit_frame [simp]:
  "de_sea (audit_row r g a b c d) = de_sea d" "de_grants (audit_row r g a b c d) = de_grants d"
  "at_decision (last (de_attempts (audit_row r g a b c d))) = a"
  by (simp_all add: audit_row_def)

lemma grant_to_frame [simp]:
  "de_sea (grant_status_to now g st d) = de_sea d" "de_attempts (grant_status_to now g st d) = de_attempts d"
  by (simp_all add: grant_status_to_def)

lemma reconcile_frame [simp]:
  "sea_intents (de_sea (reconcile_in now ri d)) = sea_intents (de_sea d)"
  "de_grants (reconcile_in now ri d) = de_grants d" "de_attempts (reconcile_in now ri d) = de_attempts d"
  by (simp_all add: reconcile_in_def)

lemma grant_to_row:
  "deleg_grant (grant_status_to now g st d) k =
    map_option (\<lambda>q. if gr_id q = gr_id g then stamp_grant now st q else q) (deleg_grant d k)"
  unfolding grant_status_to_def setGrantStatus_def
  by (simp add: row_by_update_where stamp_grant_def)

lemma settle_confirmed_eq:
  assumes "fst (delegated_markExecuted now (it_id r) h (sea_intents (de_sea d)))"
  shows "sea_intents (de_sea (settle_confirmed now r g rq h d)) =
      snd (delegated_markExecuted now (it_id r) h (sea_intents (de_sea d)))"
    "de_grants (settle_confirmed now r g rq h d) = de_grants (grant_status_to now g G_USED d)"
    "at_decision (last (de_attempts (settle_confirmed now r g rq h d))) = D_CONFIRMED"
proof -
  define d1 where "d1 = snd (on_deleg (delegated_markExecuted now (it_id r) h) d)"
  have s: "settle_confirmed now r g rq h d = (let xe = xr_expected rq in reconcile_in now
      \<lparr>ri_marketId = it_marketId r, ri_orderHash = xe_orderHash xe, ri_execBase = xe_execBase xe,
       ri_taker = xr_accountAddress rq, ri_priceTicks = xe_priceTicks xe, ri_txHash = h\<rparr>
      (audit_row r g D_CONFIRMED ''fill_verified'' (Some h) (grant_status_to now g G_USED d1)))"
    using assms by (simp add: settle_confirmed_def d1_def case_prod_unfold Let_def)
  show "sea_intents (de_sea (settle_confirmed now r g rq h d)) =
      snd (delegated_markExecuted now (it_id r) h (sea_intents (de_sea d)))"
    "at_decision (last (de_attempts (settle_confirmed now r g rq h d))) = D_CONFIRMED"
    by (simp_all add: s Let_def d1_def)
  show "de_grants (settle_confirmed now r g rq h d) = de_grants (grant_status_to now g G_USED d)"
    by (simp add: s Let_def d1_def grant_status_to_def)
qed

text \<open>The rows of an attempt in flight, and after it.\<close>

definition in_flight :: "intent_row \<Rightarrow> grant_row \<Rightarrow> deleg \<Rightarrow> bool" where
  "in_flight r g d \<longleftrightarrow> ids_ok (sea_intents (de_sea d)) \<and> deleg_grant d (gr_id g) = Some g \<and>
    (\<exists>q. deleg_row d (it_id r) = Some q \<and> it_status q = S_EXECUTING \<and> it_linkedTxHash q = None)"

definition ended :: "intent_row \<Rightarrow> grant_row \<Rightarrow>
    intent_status \<times> string option \<times> grant_status option \<times> exec_decision \<Rightarrow> deleg \<Rightarrow> bool" where
  "ended r g outcome d = (case outcome of (st, link, gst, decision) \<Rightarrow>
    (\<exists>q. deleg_row d (it_id r) = Some q \<and> it_status q = st \<and> it_linkedTxHash q = link) \<and>
    map_option gr_status (deleg_grant d (gr_id g)) = Some (case gst of Some s \<Rightarrow> s | None \<Rightarrow> gr_status g) \<and>
    at_decision (last (de_attempts d)) = decision)"

lemma settle_attempt_ends:
  assumes fl: "in_flight r g d"
  shows "ended r g (attempt_end answer) (settle_attempt now r g rq answer d)"
proof -
  from fl obtain q where ids: "ids_ok (sea_intents (de_sea d))" and g: "deleg_grant d (gr_id g) = Some g"
    and q: "deleg_row d (it_id r) = Some q" "it_status q = S_EXECUTING" "it_linkedTxHash q = None"
    by (auto simp: in_flight_def)
  have returned: "ended r g (S_READY, None, None, D_REJECTED) (give_back now r g m d)" for m
    using q g intent_at_update [of "\<lambda>r. r\<lparr>it_status := S_READY\<rparr>" now "it_id r"
        "\<lambda>r. it_status r = S_EXECUTING \<and> it_linkedTxHash r = None" "sea_intents (de_sea d)" "it_id r"]
    by (simp add: ended_def give_back_def releaseToReady_def)
  have confirmed: "ended r g (S_EXECUTED, Some h, Some G_USED, D_CONFIRMED) (settle_confirmed now r g rq h d)" for h
  proof -
    have "fst (delegated_markExecuted now (it_id r) h (sea_intents (de_sea d)))"
      using q ids delegated_executed.hit_iff by blast
    note e = settle_confirmed_eq [OF this, where g = g and rq = rq]
    show ?thesis
      using q g grant_to_row [of "gr_id g" now g G_USED d]
        intent_at_update [of "\<lambda>r. r\<lparr>it_status := S_EXECUTED, it_linkedTxHash := Some h\<rparr>" now "it_id r"
          "\<lambda>r. it_status r = S_EXECUTING" "sea_intents (de_sea d)" "it_id r"]
      by (simp add: ended_def e stamp_grant_def delegated_markExecuted_def)
  qed
  have lost: "ended r g (S_FAILED, Some h, Some G_FAILED, D_FAILED) (settle_unverified now r g m h d)"
    if "h \<noteq> []" for m h
    using that q g grant_to_row [of "gr_id g" now g G_FAILED]
      intent_at_update [of "\<lambda>r. r\<lparr>it_status := S_FAILED, it_failureReason := Some m,
             it_linkedTxHash := (if blank (Some h) then it_linkedTxHash r else Some h)\<rparr>" now "it_id r"
        "\<lambda>r. it_status r = S_EXECUTING" "sea_intents (de_sea d)" "it_id r"]
    by (simp add: ended_def settle_unverified_def stamp_grant_def delegated_markFailed_def blank_def)
  show ?thesis
    using returned confirmed lost
    by (auto simp: settle_attempt_def attempt_end_def non_empty_def split: sum.split option.split)
qed


lemma buildFreshFill_frame [simp]: "sea_intents (snd (buildFreshFill x rq account s)) = sea_intents s"
  by (simp add: buildFreshFill_def on_engine_def case_prod_unfold Let_def split: sum.split)

lemma checked_request_frame [simp]: "sea_intents (snd (checked_request x now r g s)) = sea_intents s"
  by (auto simp: checked_request_def case_prod_unfold split: option.split sum.split)

text \<open>The rest of the API leaves the two rows of the attempt alone while it runs.\<close>

definition leaves_attempt :: "intent_row \<Rightarrow> grant_row \<Rightarrow> (await_point \<Rightarrow> deleg \<Rightarrow> deleg) \<Rightarrow> bool" where
  "leaves_attempt r g env \<longleftrightarrow> (\<forall>p e. deleg_row (env p e) (it_id r) = deleg_row e (it_id r) \<and>
    deleg_grant (env p e) (gr_id g) = deleg_grant e (gr_id g) \<and>
    (ids_ok (sea_intents (de_sea e)) \<longrightarrow> ids_ok (sea_intents (de_sea (env p e)))))"

lemma claimed_in_flight:
  assumes "ids_ok (sea_intents (de_sea e))" and "deleg_row e (it_id r) = Some r" and "executable_intent now (it_id r) r"
    and "deleg_grant e (gr_id g) = Some g"
  shows "fst (on_deleg (claimExecuting now (it_id r)) e)"
    "in_flight r g (snd (on_deleg (claimExecuting now (it_id r)) e))"
proof -
  have c: "it_status r = S_READY" "it_type r = T_CONDITIONAL_MARKET_READY" "it_linkedTxHash r = None"
    using assms(3) by (auto simp: executable_intent_def)
  show "fst (on_deleg (claimExecuting now (it_id r)) e)"
    using assms(1,2) c claimed.hit_iff by auto
  have "intent_at (snd (claimExecuting now (it_id r) (sea_intents (de_sea e)))) (it_id r) =
      Some (r\<lparr>it_status := S_EXECUTING, it_updatedAt := now\<rparr>)"
    using intent_at_update [of "\<lambda>r. r\<lparr>it_status := S_EXECUTING\<rparr>" now "it_id r"
        "\<lambda>r. it_status r = S_READY \<and> it_type r = T_CONDITIONAL_MARKET_READY \<and> it_linkedTxHash r = None"
        "sea_intents (de_sea e)" "it_id r"] assms(2) c
    by (simp add: claimExecuting_def)
  then show "in_flight r g (snd (on_deleg (claimExecuting now (it_id r)) e))"
    using assms(1,4) c claimed.keeps_wf by (simp add: in_flight_def)
qed

lemma submit_ends:
  assumes "ids_ok (sea_intents (de_sea d))" and "deleg_row d (it_id r) = Some r" and "executable_intent now (it_id r) r"
    and "deleg_grant d (gr_id g) = Some g" and env: "leaves_attempt r g env"
  shows "ended r g (attempt_end (dx_execute x rq)) (submit x env now r g rq d)"
proof -
  let ?e = "env Before_claim d"
  define d1 where "d1 = snd (on_deleg (claimExecuting now (it_id r)) ?e)"
  have e: "ids_ok (sea_intents (de_sea ?e))" "deleg_row ?e (it_id r) = Some r" "deleg_grant ?e (gr_id g) = Some g"
    using env assms by (simp_all add: leaves_attempt_def)
  note c = claimed_in_flight [OF e(1,2) assms(3) e(3)]
  have "in_flight r g (env While_executing (audit_row r g D_VALIDATED ''claimed'' None d1))"
    using c(2) env by (simp add: in_flight_def leaves_attempt_def d1_def)
  from settle_attempt_ends [OF this] show ?thesis
    using c(1) by (simp add: submit_def d1_def case_prod_unfold)
qed

text \<open>
  C27. An attempt ends the way the provider answered. Take an executable intent with its grant, and
  let the rest of the API leave the two rows alone until the attempt is over. When the checks find a
  request, the intent ends \<open>EXECUTED\<close> with the grant \<open>USED\<close> exactly when the provider confirmed the
  fill of a transaction, \<open>FAILED\<close> with the grant \<open>FAILED\<close> and the hash kept when it submitted one it
  could not verify, and \<open>READY\<close> again with the grant as it was when nothing was submitted or the call
  threw, and the audit ends with that decision; when they find none, both rows are untouched. The
  intent is never left \<open>EXECUTING\<close>.
\<close>

theorem attempt_ends_as_answered:
  assumes "ids_ok (sea_intents (de_sea d))" and "deleg_row d (it_id r) = Some r" and "executable_intent now (it_id r) r"
    and "deleg_grant d (gr_id g) = Some g" and "leaves_attempt r g env"
    and "processOne x env now (r, g) d = (res, d')"
  shows "case fst (checked_request x now r g (de_sea (env Before_plan d))) of
      Inr (Inr rq) \<Rightarrow> ended r g (attempt_end (dx_execute x rq)) d'
    | _ \<Rightarrow> deleg_row d' (it_id r) = Some r \<and> deleg_grant d' (gr_id g) = Some g"
proof -
  obtain plan s where p: "checked_request x now r g (de_sea (env Before_plan d)) = (plan, s)" by fastforce
  define d1 where "d1 = (env Before_plan d)\<lparr>de_sea := s\<rparr>"
  have s: "sea_intents s = sea_intents (de_sea (env Before_plan d))"
    using checked_request_frame [of x now r g "de_sea (env Before_plan d)"] by (simp add: p)
  have d1: "ids_ok (sea_intents (de_sea d1))" "deleg_row d1 (it_id r) = Some r" "deleg_grant d1 (gr_id g) = Some g"
    using assms(1,2,4,5) by (simp_all add: leaves_attempt_def d1_def s)
  show ?thesis
    using assms(6) d1 submit_ends [OF d1(1,2) assms(3) d1(3) assms(5)]
    by (auto simp: processOne_def p Let_def d1_def [symmetric] split: sum.splits)
qed


section \<open>The worker as steps of the intent machine\<close>

lemma on_deleg_refined:
  assumes "\<And>t. intent_step (sea_db (de_sea d)) t (snd (f t))"
  shows "refined (de_sea d) (de_sea (snd (on_deleg f d)))"
  using assms by (simp add: refined_step)

lemma reconcileConfirmedFill_keeps: "keeps_engine e (snd (reconcileConfirmedFill now ri e))"
proof (cases "ri_execBase ri \<le> 0")
  case False
  obtain r d where a: "addTrade now (ri_marketId ri) (ri_orderHash ri) (to_lower (ri_taker ri)) (ri_priceTicks ri)
      (ri_execBase ri) (Some (ri_txHash ri)) (eng_db e) = (r, d)" by fastforce
  have 1: "keeps_engine e (e\<lparr>eng_db := d\<rparr>)"
    using addTrade_db(2) [of now "ri_marketId ri" "ri_orderHash ri" "to_lower (ri_taker ri)" "ri_priceTicks ri"
        "ri_execBase ri" "Some (ri_txHash ri)" "eng_db e"] a by (simp add: db_keeps)
  obtain q e2 where x: "applyExternalFill now (ri_marketId ri) (ri_orderHash ri) (ri_execBase ri) (e\<lparr>eng_db := d\<rparr>) = (q, e2)"
    by fastforce
  have "keeps_engine e e2"
    using keeps_engine_trans [OF 1 external_fill_keeps, of "ri_execBase ri" now "ri_marketId ri" "ri_orderHash ri"]
      False x by simp
  with 1 show ?thesis by (simp add: reconcileConfirmedFill_def a x split: sum.split)
qed (simp add: reconcileConfirmedFill_def)

lemma reconcile_refined: "refined (de_sea d) (de_sea (reconcile_in now ri d))"
  by (simp add: reconcile_in_def refined_engine reconcileConfirmedFill_keeps)

lemma settle_attempt_refined: "refined (de_sea d) (de_sea (settle_attempt now r g rq answer d))"
proof -
  note step = on_deleg_refined [of d, OF intent_step.delegated_filled]
    on_deleg_refined [of d, OF intent_step.delegated_failed] on_deleg_refined [of d, OF intent_step.released]
  have "refined (de_sea d) (de_sea (settle_confirmed now r g rq h d))" for h
  proof -
    have "refined (de_sea d) (de_sea (audit_row r g D_CONFIRMED ''fill_verified'' (Some h)
        (grant_status_to now g G_USED (snd (on_deleg (delegated_markExecuted now (it_id r) h) d)))))"
      using step(1) by simp
    from this refined_trans [OF this reconcile_refined] show ?thesis
      by (simp add: settle_confirmed_def case_prod_unfold Let_def)
  qed
  with step show ?thesis
    by (simp add: settle_attempt_def give_back_def settle_unverified_def split: sum.split option.split)
qed

lemma buildFreshFill_refined: "refined s (snd (buildFreshFill x rq account s))"
proof -
  have "refined s (snd (on_engine (quote fb k sd n lmt) s))" for fb k sd n lmt
    by (rule on_engine_refined) (rule quote_keeps)
  then show ?thesis
    by (simp add: buildFreshFill_def case_prod_unfold Let_def split: sum.split)
qed

lemma checked_request_refined: "refined s (snd (checked_request x now r g s))"
  using buildFreshFill_refined
  by (auto simp: checked_request_def case_prod_unfold split: option.split sum.split)

lemma submit_refined:
  assumes "\<And>p e. refined (de_sea e) (de_sea (env p e))"
  shows "refined (de_sea d) (de_sea (submit x env now r g rq d))"
proof -
  let ?e = "snd (on_deleg (claimExecuting now (it_id r)) (env Before_claim d))"
  have 1: "refined (de_sea d) (de_sea ?e)"
    by (rule refined_trans [OF assms on_deleg_refined]) (rule intent_step.claimed)
  have 2: "refined (de_sea d) (de_sea (env While_executing (audit_row r g D_VALIDATED ''claimed'' None ?e)))"
    using refined_trans [OF 1, of "de_sea (env While_executing (audit_row r g D_VALIDATED ''claimed'' None ?e))"]
      assms [of "audit_row r g D_VALIDATED ''claimed'' None ?e" While_executing] by simp
  from 1 refined_trans [OF 2 settle_attempt_refined] show ?thesis
    by (simp add: submit_def case_prod_unfold Let_def)
qed

lemma processOne_refined:
  assumes "\<And>p e. refined (de_sea e) (de_sea (env p e))"
  shows "refined (de_sea d) (de_sea (snd (processOne x env now (r, g) d)))"
proof -
  obtain plan s where p: "checked_request x now r g (de_sea (env Before_plan d)) = (plan, s)" by fastforce
  have "refined (de_sea (env Before_plan d)) s"
    using checked_request_refined [of "de_sea (env Before_plan d)" x now r g] by (simp add: p)
  with assms have 1: "refined (de_sea d) s" by (rule refined_trans)
  have "refined (de_sea d) (de_sea (submit x env now r g rq (env Before_plan d\<lparr>de_sea := s\<rparr>)))" for rq
    using refined_trans [OF 1, of "de_sea (submit x env now r g rq (env Before_plan d\<lparr>de_sea := s\<rparr>))"]
      submit_refined [where env = env and d = "env Before_plan d\<lparr>de_sea := s\<rparr>", OF assms] by simp
  with 1 show ?thesis by (simp add: processOne_def p Let_def split: sum.split)
qed

lemma process_all_refined:
  assumes "\<And>p e. refined (de_sea e) (de_sea (env p e))"
  shows "refined (de_sea d) (de_sea (snd (process_all x env now rgs d)))"
proof (induction rgs arbitrary: d)
  case (Cons rg rgs)
  obtain r g where rg: "rg = (r, g)" by (cases rg)
  obtain q d1 where p: "processOne x env now rg d = (q, d1)" by fastforce
  have 1: "refined (de_sea d) (de_sea d1)"
    using processOne_refined [where env = env and d = d and x = x and now = now and r = r and g = g, OF assms] p rg by simp
  from 1 refined_trans [OF 1 Cons.IH] show ?case by (simp add: p split: sum.split)
qed simp

lemma exec_tick_refined:
  assumes "\<And>p e. refined (de_sea e) (de_sea (env p e))"
  shows "refined (de_sea d) (de_sea (snd (exec_tick x cfg env now limitPerTick d)))"
  by (simp add: exec_tick_def process_all_refined [where env = env, OF assms])

interpretation delegated_ticks: sea_service "dx_sea x"
  "\<lambda>s. de_sea (snd (exec_tick x cfg (\<lambda>p d. d) now limitPerTick \<lparr>de_sea = s, de_grants = gs, de_attempts = as\<rparr>))"
  for x cfg now limitPerTick gs as
  using exec_tick_refined [of "\<lambda>p d. d" "\<lparr>de_sea = _, de_grants = gs, de_attempts = as\<rparr>" x cfg now limitPerTick]
  by unfold_locales simp

end
