(* ===== verification/FillProps.thy ===== *)
theory FillProps
  imports WatcherProps
begin

text \<open>
  What the fill watcher does to the state: a fill that was handled is never handled again, a
  reverted transaction reaches the executing intent only, and a confirmed one moves the trade log,
  the book, the order row and the executing intent together.
\<close>

section \<open>Replays\<close>

lemma market_of_tokens_cong:
  "d_markets d' = d_markets d \<Longrightarrow> market_of_tokens d' a b = market_of_tokens d a b"
  by (simp add: market_of_tokens_def listMarketsBasic_def)

text \<open>The same transaction read again, with the same markets, once its key has been seen.\<close>

definition rereads :: "candidate option result \<Rightarrow> candidate option result \<Rightarrow> fills \<Rightarrow> bool" where
  "rereads r1 r2 w2 \<longleftrightarrow> (case r1 of Inr (Some c) \<Rightarrow> fc_key c \<in> set (fs_seen w2) \<longrightarrow> r2 = Inr None | _ \<Rightarrow> True)"

lemma rereads_bind: "(\<And>v. m = Inr v \<Longrightarrow> rereads (f v) (g v) w2) \<Longrightarrow> rereads (bind_res m f) (bind_res m g) w2"
  by (cases m) (auto simp: rereads_def)

lemma rereads_simps [simp]: "rereads (Inl e) r w2" "rereads (Inr None) r w2"
  by (simp_all add: rereads_def)

lemma priced_reread:
  "rereads (priced_candidate tx zx h m n w) (priced_candidate tx zx h m n w2) w2"
  by (cases "priced_candidate tx zx h m n w") (auto simp: rereads_def priced_candidate_def Let_def split: if_splits)

text \<open>The parts of the outside world a transaction is read with.\<close>

definition same_reader :: "fill_ext \<Rightarrow> fill_ext \<Rightarrow> bool" where
  "same_reader x x2 \<longleftrightarrow> fx_decode x2 = fx_decode x \<and> sx_zx (fx_sea x2) = sx_zx (fx_sea x) \<and>
    sx_cfg (fx_sea x2) = sx_cfg (fx_sea x)"

lemma reread:
  assumes "same_reader x x2" and "d_markets (sea_db (fs_sea w2)) = d_markets (sea_db (fs_sea w))"
  shows "rereads (read_candidate x cfg tx w) (read_candidate x2 cfg tx w2) w2"
proof -
  have "rereads (decoded_candidate x cfg tx a b w) (decoded_candidate x2 cfg tx a b w2) w2" for a b
    using market_of_tokens_cong [OF assms(2)] assms(1)
    by (auto simp: decoded_candidate_def same_reader_def Let_def intro!: rereads_bind priced_reread split: option.split)
  then show ?thesis
    using assms(1) unfolding read_candidate_def by (auto simp: same_reader_def intro!: rereads_bind)
qed

text \<open>A key and how many keys came after it: it goes only when 10000 have.\<close>

definition newer :: "string \<Rightarrow> nat \<Rightarrow> fills \<Rightarrow> bool" where
  "newer k n w \<longleftrightarrow> (\<exists>as bs. fs_seen w = as @ k # bs \<and> length bs \<le> n)"

lemma newer_seen: "newer k n w \<Longrightarrow> k \<in> set (fs_seen w)"
  by (auto simp: newer_def)

lemma newer_sea [simp]: "newer k n (w\<lparr>fs_sea := s\<rparr>) = newer k n w"
  by (simp add: newer_def)

lemma newer_mono: "newer k n w \<Longrightarrow> n \<le> m \<Longrightarrow> newer k m w"
  by (force simp: newer_def)

lemma newer_add: "newer k n w \<Longrightarrow> newer k (Suc n) (add_seen k' w)"
proof -
  assume "newer k n w"
  then obtain as bs where w: "fs_seen w = as @ k # bs" "length bs \<le> n" by (auto simp: newer_def)
  then have "fs_seen w @ [k'] = as @ k # (bs @ [k'])" "length (bs @ [k']) \<le> Suc n" by simp_all
  then have "newer k (Suc n) (w\<lparr>fs_seen := fs_seen w @ [k']\<rparr>)" unfolding newer_def by fastforce
  moreover have "newer k (Suc n) w" using w unfolding newer_def by (meson le_SucI)
  ultimately show ?thesis by (simp add: add_seen_def)
qed

lemma newer_evict:
  assumes "newer k n w" and "n < 10000"
  shows "newer k n (evict_seen w)"
proof -
  obtain as bs where w: "fs_seen w = as @ k # bs" "length bs \<le> n" using assms(1) by (auto simp: newer_def)
  show ?thesis
  proof (cases "length (fs_seen w) > 10000")
    case True
    then have "as \<noteq> []" using w assms(2) by auto
    then have "tl (fs_seen w) = tl as @ k # bs" using w(1) by simp
    with True w(2) show ?thesis by (auto simp: newer_def evict_seen_def)
  qed (use assms(1) in \<open>simp add: evict_seen_def\<close>)
qed

lemma evict_keeps_last: "k \<in> set (fs_seen (evict_seen (add_seen k w)))" if "k \<notin> set (fs_seen w)"
  using that by (cases "fs_seen w") (auto simp: evict_seen_def add_seen_def)

lemma fresh_key: "read_candidate x cfg tx w = Inr (Some c) \<Longrightarrow> fc_key c \<notin> set (fs_seen w)"
  by (auto simp: read_candidate_def decoded_candidate_def priced_candidate_def Let_def
      split: if_splits option.splits)

lemma add_fresh: "k \<notin> set (fs_seen w) \<Longrightarrow> newer k 0 (add_seen k w)"
  by (auto simp: newer_def add_seen_def)

lemma handled_seen:
  assumes "read_candidate x cfg tx w = Inr (Some c)" and "handle_candidate x env now c w = (Inr (), w1)"
  shows "newer (fc_key c) 0 w1"
  using assms(2) add_fresh [of "fc_key c" "w\<lparr>fs_sea := s\<rparr>" for s] newer_evict fresh_key [OF assms(1)]
  by (auto simp: handle_candidate_def Let_def split: if_splits sum.splits prod.splits)

lemma handle_fill_newer:
  assumes "newer k n w" and "Suc n < 10000"
  shows "newer k (Suc n) (snd (handle_fill x cfg env now tx w))"
proof -
  have same: "newer k (Suc n) (w\<lparr>fs_sea := s\<rparr>)" "newer k (Suc n) w" for s using newer_mono [OF assms(1)] by simp_all
  have add: "newer k (Suc n) (add_seen k' (w\<lparr>fs_sea := s\<rparr>))" for k' s using assms(1) by (intro newer_add) simp
  show ?thesis
    using same add newer_evict [OF add assms(2)]
    by (auto simp: handle_fill_def handle_candidate_def Let_def split: sum.split option.split prod.split)
qed

text \<open>The market table under a handling.\<close>

definition keeps_markets :: "(sea \<Rightarrow> sea) \<Rightarrow> bool" where
  "keeps_markets env \<longleftrightarrow> (\<forall>s. d_markets (sea_db (env s)) = d_markets (sea_db s))"

lemma settle_intent_engine: "sea_engine (settle_intent write ty p c s) = sea_engine s"
  by (auto simp: settle_intent_def on_intents_def append_event_sea_def Let_def split: option.split prod.split bool.split)

lemma apply_fill_markets: "d_markets (sea_db (snd (apply_fill now c s))) = d_markets (sea_db s)"
  using applyExternalFill_markets
  by (simp add: apply_fill_def andthen_def on_db_def on_engine_def settle_executed_def settle_intent_engine
      Let_def case_prod_unfold split: sum.split)

lemma handle_fill_markets:
  "keeps_markets env \<Longrightarrow> d_markets (sea_db (fs_sea (snd (handle_fill x cfg env now tx w)))) = d_markets (sea_db (fs_sea w))"
  using apply_fill_markets [of now _ "env (fs_sea w)"] apply_fill_markets [of now _ "fs_sea w"]
  by (auto simp: handle_fill_def handle_candidate_def keeps_markets_def settle_failed_def settle_intent_engine Let_def
      add_seen_def evict_seen_def split: sum.split option.split prod.split) (metis snd_conv)+

text \<open>Transactions handled one after the other by one process, whatever the chain answers and the API does.\<close>

fun fill_run :: "watch_cfg \<Rightarrow> (fill_ext \<times> (sea \<Rightarrow> sea) \<times> int \<times> jval) list \<Rightarrow> fills \<Rightarrow> fills" where
  "fill_run cfg [] w = w"
| "fill_run cfg ((x, env, now, tx) # ops) w = fill_run cfg ops (snd (handle_fill x cfg env now tx w))"

lemma fill_run_keeps:
  assumes "newer k n w" and "n + length ops < 10000" and "\<forall>(x, env, now, tx) \<in> set ops. keeps_markets env"
  shows "newer k (n + length ops) (fill_run cfg ops w) \<and>
    d_markets (sea_db (fs_sea (fill_run cfg ops w))) = d_markets (sea_db (fs_sea w))"
  using assms
proof (induction ops arbitrary: n w)
  case (Cons a ops)
  obtain x env now tx where a: "a = (x, env, now, tx)" by (cases a) auto
  have "newer k (Suc n) (snd (handle_fill x cfg env now tx w))" using Cons.prems by (intro handle_fill_newer) simp_all
  from Cons.IH [OF this] Cons.prems handle_fill_markets [of env x cfg now tx w] show ?case by (simp add: a)
qed simp

text \<open>
  C19. A fill is applied once by a process. When a transaction was read as a fill and its handling
  returned without an exception (applied, or reverted), the same process may handle up to 9999 other
  transactions, of any kind and in any order, with whatever receipts the chain has and whatever the
  rest of the API does to the state short of editing the market table: handling the same transaction
  again then changes nothing and does not throw. So a re-read block, a lower head or a second copy of
  a transaction cannot double a trade or a fill, until 10000 newer ones have been handled.
\<close>

theorem fill_applied_once:
  assumes rd: "read_candidate x cfg tx w = Inr (Some c)"
    and h: "handle_fill x cfg env now tx w = (Inr (), w1)" and env: "keeps_markets env"
    and ops: "length ops < 10000" "\<forall>(x, env, now, tx) \<in> set ops. keeps_markets env" and x2: "same_reader x x2"
  shows "handle_fill x2 cfg env2 now2 tx (fill_run cfg ops w1) = (Inr (), fill_run cfg ops w1)"
proof -
  have "newer (fc_key c) 0 w1" using h by (intro handled_seen [OF rd]) (simp add: handle_fill_def rd)
  from fill_run_keeps [OF this _ ops(2), of cfg] ops(1)
  have k: "newer (fc_key c) (length ops) (fill_run cfg ops w1)"
    "d_markets (sea_db (fs_sea (fill_run cfg ops w1))) = d_markets (sea_db (fs_sea w1))" by simp_all
  have "d_markets (sea_db (fs_sea w1)) = d_markets (sea_db (fs_sea w))"
    using handle_fill_markets [OF env, of x cfg now tx w] h by simp
  with k(2) have "d_markets (sea_db (fs_sea (fill_run cfg ops w1))) = d_markets (sea_db (fs_sea w))" by simp
  from reread [OF x2 this, of cfg tx] newer_seen [OF k(1)]
  have "read_candidate x2 cfg tx (fill_run cfg ops w1) = Inr None" by (simp add: rereads_def rd)
  then show ?thesis by (simp add: handle_fill_def)
qed

section \<open>The executing intent\<close>

text \<open>The intent the transaction belongs to: executing, with its hash, on its market, of its taker.\<close>

definition executing_for :: "candidate \<Rightarrow> intent_row \<Rightarrow> bool" where
  "executing_for c r \<longleftrightarrow> it_status r = S_EXECUTING \<and>
    it_linkedTxHash r = Some (to_lower (fc_txHash c)) \<and> it_marketId r = mb_id (fc_market c) \<and>
    it_owner r = to_lower (fc_taker c)"

text \<open>At most that intent is settled, with one event; the books and the floors stay.\<close>

definition settles :: "candidate \<Rightarrow> intent_status \<Rightarrow> intent_event_type \<Rightarrow> sea \<Rightarrow> sea \<Rightarrow> bool" where
  "settles c st ty s s' \<longleftrightarrow> sea_engine s' = sea_engine s \<and> sea_floors s' = sea_floors s \<and>
    (case find (executing_for c) (sea_intents s) of
       None \<Rightarrow> s' = s
     | Some r \<Rightarrow> settled s s' (it_id r) st ty)"

lemma find_executing:
  "findExecutingByTxHashForOwner (to_lower (fc_txHash c)) (mb_id (fc_market c)) (to_lower (fc_taker c)) t =
    map_option it_id (find (executing_for c) t)"
  by (simp add: findExecutingByTxHashForOwner_def executing_for_def [abs_def])

lemma settle_settles:
  assumes "ids_ok (sea_intents s)" and "fc_txHash c \<noteq> []"
    and w: "\<And>i. write i = update_intent now i (\<lambda>r. it_status r = S_EXECUTING \<and>
      it_linkedTxHash r = Some (to_lower (fc_txHash c))) f"
    and f: "\<And>r. it_status (f r) = st" "\<And>r. it_id (f r) = it_id r"
  shows "settles c st ty s (settle_intent write ty p c s)"
proof (cases "find (executing_for c) (sea_intents s)")
  case None
  then show ?thesis by (simp add: settles_def settle_intent_def find_executing assms(2))
next
  case (Some r)
  let ?t = "sea_intents s" and ?i = "it_id r"
  have r: "r \<in> set ?t" "executing_for c r" using find_in [OF Some] by simp_all
  have at: "intent_at ?t ?i = Some r" using intent_at_mem [OF assms(1) r(1)] .
  have ok: "fst (write ?i ?t)" unfolding w using update_intent_hit [OF assms(1)] at r(2)
    by (auto simp: executing_for_def)
  have new: "intent_at (snd (write ?i ?t)) j =
      map_option (\<lambda>r. if j = ?i \<and> it_status r = S_EXECUTING \<and> it_linkedTxHash r = Some (to_lower (fc_txHash c))
        then (f r)\<lparr>it_updatedAt := now\<rparr> else r) (intent_at ?t j)" for j
    unfolding w by (rule intent_at_update) (rule f(2))
  have "map_option it_status (intent_at (snd (write ?i ?t)) ?i) = Some st"
    using r(2) by (simp add: new at executing_for_def f(1))
  moreover have "intent_at (snd (write ?i ?t)) j = intent_at ?t j" if "j \<noteq> ?i" for j
    using that by (simp add: new option.map_id0 cong: option.map_cong)
  moreover have "intent_at (snd (write ?i ?t)) ?i \<noteq> None" by (simp add: new at)
  ultimately show ?thesis using ok
    by (simp add: settles_def settle_intent_def find_executing assms(2) Some settled_def on_intents_def
        case_prod_unfold Let_def sea_event_ok split: bool.split)
qed

lemma settle_failed_settles:
  assumes "ids_ok (sea_intents s)" and "fc_txHash c \<noteq> []"
  shows "settles c S_FAILED IE_FAILED s (settle_failed now c s)"
  unfolding settle_failed_def
  by (rule settle_settles [OF assms, where now = now and f = "\<lambda>r. r\<lparr>it_status := S_FAILED,
      it_failureReason := Some ''tx_reverted'', it_lastEvaluatedAt := Some now\<rparr>"])
    (simp_all add: markFailedFromExecuting_def)

lemma settle_executed_settles:
  assumes "ids_ok (sea_intents s)" and "fc_txHash c \<noteq> []"
  shows "settles c S_EXECUTED IE_EXECUTED s (settle_executed now c s)"
  unfolding settle_executed_def
  by (rule settle_settles [OF assms, where now = now and f = "\<lambda>r. r\<lparr>it_status := S_EXECUTED,
      it_lastEvaluatedAt := Some now\<rparr>"]) (simp_all add: markExecuted_def)

text \<open>
  A reverted transaction leaves no trace in the market. When the receipt of a candidate
  says it reverted, no trade is recorded, no book, order row or cancel floor changes, and of the
  intents only the one that is executing this very transaction, on this market, for the sender,
  is touched: it becomes \<open>FAILED\<close> with one event. The candidate is never looked at again.
\<close>

theorem reverted_fill_is_inert:
  assumes "read_candidate x cfg tx w = Inr (Some c)" and "receipt_reverted x (fc_txHash c)"
    and "handle_fill x cfg env now tx w = (r, w1)" and "ids_ok (sea_intents (env (fs_sea w)))"
  shows "r = Inr () \<and> settles c S_FAILED IE_FAILED (env (fs_sea w)) (fs_sea w1) \<and>
    fs_seen w1 = fs_seen w @ [fc_key c]"
proof -
  have h: "fc_txHash c \<noteq> []" using assms(2) by (simp add: receipt_reverted_def)
  then have "(r, w1) = (Inr (), add_seen (fc_key c) (w\<lparr>fs_sea := settle_failed now c (env (fs_sea w))\<rparr>))"
    using assms(1-3) by (simp add: handle_fill_def handle_candidate_def)
  then show ?thesis
    using settle_failed_settles [OF assms(4) h] fresh_key [OF assms(1)] by (simp add: add_seen_def)
qed

section \<open>A confirmed fill\<close>

lemma candidate_facts:
  assumes "read_candidate x cfg tx w = Inr (Some c)"
  shows "getTradingContext (sea_db (fs_sea w)) (mb_id (fc_market c)) = Inr (fc_ctx c)"
    "fc_market c \<in> set (listMarketsBasic (sea_db (fs_sea w)))" "length (fc_taker c) = 42"
    "fc_txHash c = tx_hash tx"
proof -
  have "length (tx_taker tx) = 42"
    by (auto simp: tx_taker_def Let_def zero_address_def is_0x_hex_def)
  then show "getTradingContext (sea_db (fs_sea w)) (mb_id (fc_market c)) = Inr (fc_ctx c)"
    "fc_market c \<in> set (listMarketsBasic (sea_db (fs_sea w)))" "length (fc_taker c) = 42"
    "fc_txHash c = tx_hash tx"
    using assms
    by (auto simp: read_candidate_def decoded_candidate_def priced_candidate_def market_of_tokens_def Let_def
        dest: find_in split: if_splits option.splits)
qed

lemma market_ctx:
  assumes "markets_ok d" and "m \<in> set (listMarketsBasic d)" and "getTradingContext d (mb_id m) = Inr ctx"
  shows "mb_id m = ctx_id ctx" "mb_symbol m = ctx_symbol ctx" "getTradingContext d (mb_symbol m) = Inr ctx"
proof -
  obtain n where n: "n \<in> set (d_markets d)" "mb_id m = mk_id n" "mb_symbol m = mk_symbol n"
    using assms(2) by (auto simp: listMarketsBasic_def)
  obtain n' where n': "n' \<in> set (d_markets d)" "mk_id n' = mb_id m \<or> mk_symbol n' = mb_id m"
    "mk_id n' = ctx_id ctx" "mk_symbol n' = ctx_symbol ctx"
    using ctx_of_market [OF assms(3)] by blast
  have "mk_id n' = mk_id n" using assms(1) n n'(1,2) unfolding markets_ok_def by metis
  moreover have "inj_on mk_id (set (d_markets d))" using assms(1) by (simp add: markets_ok_def distinct_map)
  ultimately have "n' = n" using n(1) n'(1) by (simp add: inj_on_eq_iff)
  with n n' show "mb_id m = ctx_id ctx" "mb_symbol m = ctx_symbol ctx" by simp_all
  with ctx_resolves [OF assms(1,3)] show "getTradingContext d (mb_symbol m) = Inr ctx" by simp
qed

lemma norm_tx_hash_candidate: "fc_txHash c = tx_hash tx \<Longrightarrow> fc_txHash c \<noteq> [] \<Longrightarrow>
    norm_tx_hash (non_empty (Some (fc_txHash c))) = Some (to_lower (fc_txHash c))"
  by (auto simp: norm_tx_hash_def non_empty_def tx_hash_def Let_def split: if_splits)

lemma coherent_db:
  assumes "coherent e" and "d_markets d = d_markets (eng_db e)" and "d_orders d = d_orders (eng_db e)"
  shows "coherent (e\<lparr>eng_db := d\<rparr>)"
proof -
  have "level_matches d k l = level_matches (eng_db e) k l" for k l
    using order_of_cong [OF assms(3)] by (intro level_matches_cong [OF assms(2)]) simp
  with assms(1) show ?thesis by (simp add: coherent_def)
qed

lemma rows_fit_db:
  assumes "rows_fit d0" and "d_markets d = d_markets d0" and "d_orders d = d_orders d0"
  shows "rows_fit d"
  using assms order_of_cong [OF assms(3)] market_by_id_cong [OF assms(2)] by (simp add: rows_fit_def)

text \<open>The trade a candidate leaves.\<close>

definition candidate_trade :: "int \<Rightarrow> candidate \<Rightarrow> trade_row" where
  "candidate_trade now c = \<lparr>t_marketId = mb_id (fc_market c), t_makerHash = fc_orderHash c,
     t_taker = to_lower (fc_taker c), t_priceTicks = fc_priceTicks c, t_sizeBase = fc_execBase c,
     t_txHash = Some (to_lower (fc_txHash c)), t_ts = now\<rparr>"

text \<open>The state of the books and rows after a fill of \<open>x\<close> on the level \<open>l\<close>.\<close>

definition level_filled :: "string \<Rightarrow> level \<Rightarrow> int \<Rightarrow> engine \<Rightarrow> engine \<Rightarrow> bool" where
  "level_filled k l x e e' \<longleftrightarrow> coherent e' \<and>
    (\<exists>b'. book_at e' k = Some b' \<and> find_level (same_id (to_lower (lv_id l))) b' =
       (if x < lv_sizeBase l then Some (fill_level l x) else None)) \<and>
    (\<forall>g. order_of (eng_db e') g = map_option
       (\<lambda>r. if g = lv_id l then filled_row (min x (lv_sizeBase l)) r else r) (order_of (eng_db e) g))"

lemma apply_fill_effect:
  assumes wf: "engine_wf (sea_engine s)" and co: "coherent (sea_engine s)" and fit: "rows_fit (sea_db s)"
    and ctx: "getTradingContext (sea_db s) (mb_id (fc_market c)) = Inr (fc_ctx c)"
    and m: "fc_market c \<in> set (listMarketsBasic (sea_db s))"
    and c: "0 < fc_execBase c" "length (fc_taker c) = 42" "fits_int64 (fc_priceTicks c)" "fits_dec78 (fc_execBase c)"
      "norm_tx_hash (non_empty (Some (fc_txHash c))) = Some (to_lower (fc_txHash c))"
    and b: "book_at (sea_engine s) (mb_symbol (fc_market c)) = Some b"
    and l: "find_level (same_id (to_lower (fc_orderHash c))) b = Some l" "lv_id l = fc_orderHash c"
  obtains e where "apply_fill now c s = (Inr (), settle_executed now c (s\<lparr>sea_engine := e\<rparr>))"
    "d_trades (eng_db e) = d_trades (sea_db s) @ [candidate_trade now c]"
    "level_filled (mb_symbol (fc_market c)) l (fc_execBase c) (sea_engine s) e"
proof -
  let ?x = "fc_execBase c" and ?h = "fc_orderHash c" and ?m = "fc_market c"
  have ok: "markets_ok (sea_db s)" using wf by (simp add: engine_wf_def)
  note mc = market_ctx [OF ok m ctx]
  let ?add = "addTrade now (ctx_id (fc_ctx c)) ?h (to_lower (fc_taker c)) (fc_priceTicks c) ?x (non_empty (Some (fc_txHash c))) (sea_db s)"
  have at: "fst ?add = Inr () \<and> d_trades (snd ?add) = d_trades (sea_db s) @ [candidate_trade now c]"
    using addTrade_ok [OF ctx_market [OF ctx] _ c(3,4), of "to_lower (fc_taker c)"] c(2,5) mc(1)
    by (simp add: candidate_trade_def)
  let ?e1 = "(sea_engine s)\<lparr>eng_db := snd ?add\<rparr>"
  have fr: "d_markets (snd ?add) = d_markets (sea_db s)" "d_orders (snd ?add) = d_orders (sea_db s)" by simp_all
  have k: "getTradingContext (eng_db ?e1) (mb_symbol ?m) = Inr (fc_ctx c)"
    using getTradingContext_cong [OF fr(1)] mc(3) by simp
  have bk: "book_at ?e1 (ctx_symbol (fc_ctx c)) = Some b" using b mc(2) by simp
  have rf: "rows_fit (eng_db ?e1)" using rows_fit_db [OF fit fr] by simp
  obtain e b' where e: "applyExternalFill now (mb_symbol ?m) ?h ?x ?e1 =
        (Inr (if ?x < lv_sizeBase l then FillPartial else FillFilled), e)"
      "book_at e (mb_symbol ?m) = Some b'"
      "find_level (same_id (to_lower ?h)) b' = (if ?x < lv_sizeBase l then Some (fill_level l ?x) else None)"
      "\<forall>g. order_of (eng_db e) g = map_option
        (\<lambda>r. if g = ?h then filled_row (min ?x (lv_sizeBase l)) r else r) (order_of (eng_db ?e1) g)"
      "coherent e" "d_trades (eng_db e) = d_trades (eng_db ?e1)"
    using external_fill_effect [OF engine_wf_db [OF wf fr(1)] coherent_db [OF co fr] rf k bk l c(1), of now]
    unfolding mc(2) [symmetric] by blast
  let ?e = "e\<lparr>eng_db := inc_metric (''fills:'' @ fill_status_str
    (if ?x < lv_sizeBase l then FillPartial else FillFilled)) (eng_db e)\<rparr>"
  have "apply_fill now c s = (Inr (), settle_executed now c (s\<lparr>sea_engine := ?e\<rparr>))"
    using at e(1) by (simp add: apply_fill_def on_db_eq on_engine_eq)
  moreover have "d_trades (eng_db ?e) = d_trades (sea_db s) @ [candidate_trade now c]" using e(6) at by simp
  moreover have "level_filled (mb_symbol ?m) l ?x (sea_engine s) ?e"
    using e(2-5) l(2) coherent_db [OF e(5), of "inc_metric _ (eng_db e)"] by (simp add: level_filled_def)
  ultimately show ?thesis by (rule that)
qed

text \<open>
  C28. A confirmed fill moves everything together. For a candidate whose transaction did not
  revert and whose maker order rests in the book in agreement with its row, the tick records one
  trade with the taker, the price, the size and the transaction, takes the same amount (the smaller
  of the fill and what rests) from the level and from the order row, removes the level when nothing
  is left, keeps book and rows in agreement, and settles the intent that is executing this
  transaction, if there is one, as \<open>EXECUTED\<close> with one event; no other intent is touched.
\<close>

theorem confirmed_fill_effect:
  assumes c: "read_candidate x cfg tx w = Inr (Some c)" "fc_txHash c \<noteq> []" "\<not> receipt_reverted x (fc_txHash c)"
    and ok: "engine_wf (sea_engine s)" "coherent (sea_engine s)" "rows_fit (sea_db s)" "ids_ok (sea_intents s)"
    and env: "env (fs_sea w) = s" "d_markets (sea_db s) = d_markets (sea_db (fs_sea w))"
    and fits: "fits_int64 (fc_priceTicks c)" "fits_dec78 (fc_execBase c)"
    and l: "book_at (sea_engine s) (mb_symbol (fc_market c)) = Some b"
      "find_level (same_id (to_lower (fc_orderHash c))) b = Some l" "lv_id l = fc_orderHash c"
    and run: "handle_fill x cfg env now tx w = (r, w1)"
  shows "r = Inr () \<and> fc_key c \<in> set (fs_seen w1) \<and>
    d_trades (sea_db (fs_sea w1)) = d_trades (sea_db s) @ [candidate_trade now c] \<and>
    level_filled (mb_symbol (fc_market c)) l (fc_execBase c) (sea_engine s) (sea_engine (fs_sea w1)) \<and>
    settles c S_EXECUTED IE_EXECUTED (s\<lparr>sea_engine := sea_engine (fs_sea w1)\<rparr>) (fs_sea w1)"
proof -
  note cf = candidate_facts [OF c(1)]
  have ctx: "getTradingContext (sea_db s) (mb_id (fc_market c)) = Inr (fc_ctx c)"
    "fc_market c \<in> set (listMarketsBasic (sea_db s))"
    using cf(1,2) getTradingContext_cong [OF env(2)] env(2) by (simp_all add: listMarketsBasic_def)
  obtain e where e: "apply_fill now c s = (Inr (), settle_executed now c (s\<lparr>sea_engine := e\<rparr>))"
    "d_trades (eng_db e) = d_trades (sea_db s) @ [candidate_trade now c]"
    "level_filled (mb_symbol (fc_market c)) l (fc_execBase c) (sea_engine s) e"
    using apply_fill_effect [OF ok(1-3) ctx read_candidate_pos [OF c(1)] cf(3) fits
        norm_tx_hash_candidate [OF cf(4) c(2)] l] by metis
  have st: "settles c S_EXECUTED IE_EXECUTED (s\<lparr>sea_engine := e\<rparr>) (settle_executed now c (s\<lparr>sea_engine := e\<rparr>))"
    using settle_executed_settles [OF _ c(2), of "s\<lparr>sea_engine := e\<rparr>"] ok(4) by simp
  then have en: "sea_engine (settle_executed now c (s\<lparr>sea_engine := e\<rparr>)) = e" by (simp add: settles_def)
  have h: "handle_candidate x env now c w =
      (Inr (), evict_seen (add_seen (fc_key c) (w\<lparr>fs_sea := settle_executed now c (s\<lparr>sea_engine := e\<rparr>)\<rparr>)))"
    using c(2,3) env(1) e(1) by (simp add: handle_candidate_def)
  then have w1: "(r, w1) = (Inr (), evict_seen (add_seen (fc_key c) (w\<lparr>fs_sea := settle_executed now c (s\<lparr>sea_engine := e\<rparr>)\<rparr>)))"
    using run c(1) by (simp add: handle_fill_def)
  moreover have "fc_key c \<in> set (fs_seen w1)" using newer_seen [OF handled_seen [OF c(1)]] h w1 by auto
  ultimately show ?thesis using e(2,3) st en by simp
qed

section \<open>A sample fill\<close>

definition fill_order :: jval where
  "fill_order = JObj
    [(''makerToken'', JStr (hex_addr CHR ''b'')), (''takerToken'', JStr (hex_addr CHR ''c'')),
     (''makerAmount'', JBig 40), (''takerAmount'', JBig 28), (''takerTokenFeeAmount'', JBig 0),
     (''maker'', JStr sample_owner), (''taker'', JStr zero_address), (''sender'', JStr zero_address),
     (''feeRecipient'', JStr zero_address), (''pool'', JStr ZERO_BYTES32), (''expiry'', JBig 9000),
     (''salt'', JBig 5)]"

definition fill_world :: "int \<Rightarrow> fill_ext" where
  "fill_world status = \<lparr>fx_sea = sample_sx\<lparr>sx_receipt := (\<lambda>h. Inr (Receipt (Some status)))\<rparr>,
     fx_selector = ''0xf6274f66'', fx_decode = (\<lambda>h. Inr [fill_order, JUndef, JBig 14])\<rparr>"

definition fill_hash :: string where
  "fill_hash = ''0x'' @ replicate 64 CHR ''7''"

definition sample_tx :: jval where
  "sample_tx = JObj [(''to'', JStr (hex_addr CHR ''d'')), (''hash'', JStr (''0x'' @ replicate 64 CHR ''9'')),
     (''input'', JStr ''0xf6274f66''), (''from'', JStr (hex_addr CHR ''e''))]"

text \<open>The order of the transaction rests; its taker is executing it.\<close>

definition fill_engine :: engine where
  "fill_engine = snd (place 1 \<lparr>pl_marketId = ''m1'', pl_orderHash = fill_hash, pl_maker = sample_owner,
     pl_side = SELL, pl_priceTicks = 7, pl_sizeBase = 40\<rparr> (sea_engine sea_sample))"

definition fill_intent :: intent_row where
  "fill_intent = sample_row\<lparr>it_status := S_EXECUTING, it_owner := hex_addr CHR ''e'',
     it_linkedTxHash := Some (''0x'' @ replicate 64 CHR ''9'')\<rparr>"

definition fill_state :: fills where
  "fill_state = \<lparr>fs_seen = [], fs_sea = sea_sample\<lparr>sea_engine := fill_engine, sea_intents := [fill_intent]\<rparr>\<rparr>"

abbreviation sample_wc :: watch_cfg where
  "sample_wc \<equiv> fst sample_watch"

lemma fill_engine_wf: "engine_wf fill_engine"
  unfolding fill_engine_def
  by (rule engine_wf_place) (simp add: engine_wf_def engine_ok_def sea_sample_def markets_ok_def sea_market_def)

lemma fill_engine_coherent: "coherent fill_engine" and fill_engine_fits: "rows_fit (eng_db fill_engine)"
proof -
  have "list_all (\<lambda>(k, b). list_all (matches_row (eng_db fill_engine) k) (bids b @ asks b)) (eng_books fill_engine)"
    by code_simp
  then show "coherent fill_engine" by (rule coherentI)
  have "list_all (\<lambda>r. market_by_id (eng_db fill_engine) (o_marketId r) \<noteq> None \<and> fits_int64 (o_priceTicks r) \<and>
      fits_dec78 (o_sizeBase r) \<and> 0 \<le> o_remaining r \<and> o_remaining r \<le> o_sizeBase r) (d_orders (eng_db fill_engine))"
    by code_simp
  then show "rows_fit (eng_db fill_engine)" by (rule rows_fitI)
qed

lemma fill_state_sea: "sea_engine (fs_sea fill_state) = fill_engine" "ids_ok (sea_intents (fs_sea fill_state))"
  by (simp_all add: fill_state_def ids_ok_def)

text \<open>What is needed of the sample candidate.\<close>

lemma fill_candidate:
  obtains c where "read_candidate (fill_world n) sample_wc sample_tx fill_state = Inr (Some c)"
    "fc_txHash c = ''0x'' @ replicate 64 CHR ''9''" "fc_orderHash c = fill_hash" "fc_execBase c = 20"
    "fc_priceTicks c = 7" "mb_symbol (fc_market c) = ''B-Q''"
proof -
  have r: "read_candidate (fill_world n) = read_candidate (fill_world 0)"
    by (intro ext) (simp add: read_candidate_def decoded_candidate_def fill_world_def)
  have "map_option (map_option (\<lambda>c. (fc_txHash c, fc_orderHash c, fc_execBase c, fc_priceTicks c, mb_symbol (fc_market c))))
      (case read_candidate (fill_world 0) sample_wc sample_tx fill_state of Inr v \<Rightarrow> Some v | Inl _ \<Rightarrow> None) =
    Some (Some (''0x'' @ replicate 64 CHR ''9'', fill_hash, 20, 7, ''B-Q''))" by code_simp
  then show ?thesis using that r by (auto split: sum.splits)
qed

theorem fill_applied_once_witness:
  "\<exists>w1. handle_fill (fill_world 1) sample_wc id 5 sample_tx fill_state = (Inr (), w1) \<and> fs_seen w1 \<noteq> [] \<and>
    handle_fill (fill_world 0) sample_wc id 9 sample_tx (fill_run sample_wc [(fill_world 1, id, 7, sample_tx)] w1) =
      (Inr (), fill_run sample_wc [(fill_world 1, id, 7, sample_tx)] w1)"
proof -
  let ?h = "handle_fill (fill_world 1) sample_wc id 5 sample_tx fill_state"
  obtain c where c: "read_candidate (fill_world 1) sample_wc sample_tx fill_state = Inr (Some c)"
    by (rule fill_candidate)
  have h: "fst ?h = Inr ()" "fs_seen (snd ?h) \<noteq> []" by code_simp+
  then have run: "?h = (Inr (), snd ?h)" by (simp add: prod_eq_iff)
  have x2: "same_reader (fill_world 1) (fill_world 0)" by (simp add: same_reader_def fill_world_def)
  have id: "keeps_markets id" by (simp add: keeps_markets_def)
  show ?thesis
    using fill_applied_once [OF c run id _ _ x2, of "[(fill_world 1, id, 7, sample_tx)]" id 9] h(2) run id
    by (intro exI [of _ "snd ?h"]) simp
qed

theorem reverted_fill_is_inert_witness:
  "\<exists>w1. handle_fill (fill_world 0) sample_wc id 5 sample_tx fill_state = (Inr (), w1) \<and>
    sea_engine (fs_sea w1) = fill_engine"
proof -
  obtain c where c: "read_candidate (fill_world 0) sample_wc sample_tx fill_state = Inr (Some c)"
    and h: "fc_txHash c = ''0x'' @ replicate 64 CHR ''9''" by (rule fill_candidate)
  have r: "receipt_reverted (fill_world 0) (fc_txHash c)" by (simp add: receipt_reverted_def fill_world_def h)
  obtain r1 w1 where e: "handle_fill (fill_world 0) sample_wc id 5 sample_tx fill_state = (r1, w1)" by fastforce
  from reverted_fill_is_inert [OF c r e] fill_state_sea e show ?thesis by (simp add: settles_def)
qed

theorem confirmed_fill_effect_witness:
  "\<exists>w1 l. handle_fill (fill_world 1) sample_wc id 5 sample_tx fill_state = (Inr (), w1) \<and>
    level_filled ''B-Q'' l 20 fill_engine (sea_engine (fs_sea w1))"
proof -
  obtain c where c: "read_candidate (fill_world 1) sample_wc sample_tx fill_state = Inr (Some c)"
    and h: "fc_txHash c = ''0x'' @ replicate 64 CHR ''9''" "fc_orderHash c = fill_hash" "fc_execBase c = 20"
      "fc_priceTicks c = 7" "mb_symbol (fc_market c) = ''B-Q''" by (rule fill_candidate)
  have ne: "fc_txHash c \<noteq> []" and r: "\<not> receipt_reverted (fill_world 1) (fc_txHash c)"
    by (simp_all add: receipt_reverted_def fill_world_def h)
  have "(case book_at fill_engine ''B-Q'' of None \<Rightarrow> None
     | Some b \<Rightarrow> map_option lv_id (find_level (same_id (to_lower fill_hash)) b)) = Some fill_hash" by code_simp
  then obtain b l where l: "book_at fill_engine ''B-Q'' = Some b"
    "find_level (same_id (to_lower fill_hash)) b = Some l" "lv_id l = fill_hash"
    by (auto split: option.splits)
  obtain r1 w1 where e: "handle_fill (fill_world 1) sample_wc id 5 sample_tx fill_state = (r1, w1)" by fastforce
  have f: "fits_int64 (fc_priceTicks c)" "fits_dec78 (fc_execBase c)"
    by (simp_all add: h fits_int64_def fits_dec78_def)
  have "r1 = Inr () \<and> level_filled (mb_symbol (fc_market c)) l (fc_execBase c) (sea_engine (fs_sea fill_state))
      (sea_engine (fs_sea w1))"
    using confirmed_fill_effect [OF c ne r _ _ _ _ _ _ f _ _ _ e, of "fs_sea fill_state" b l]
      fill_engine_wf fill_engine_coherent fill_engine_fits fill_state_sea l by (simp add: h)
  with e show ?thesis by (auto simp: h fill_state_sea)
qed

end
