(* ===== verification/PairCancel.thy ===== *)
theory PairCancel
  imports FillProps
begin

text \<open>
  What a pair cancel seen on chain does: exactly the sender's orders on that market with a smaller
  salt leave the book and are stored as cancelled, and the floor of the pair is raised.
\<close>

section \<open>One order\<close>

definition cancelled_row :: "order_row \<Rightarrow> order_row" where
  "cancelled_row r = r\<lparr>o_status := O_CANCELLED\<rparr>"

text \<open>The book at a symbol, empty when there is none.\<close>

definition levels_at :: "engine \<Rightarrow> string \<Rightarrow> level list \<times> level list" where
  "levels_at e k = (case book_at e k of Some b \<Rightarrow> (bids b, asks b) | None \<Rightarrow> ([], []))"

definition without_ids :: "string set \<Rightarrow> level list \<times> level list \<Rightarrow> level list \<times> level list" where
  "without_ids T = map_prod (filter (\<lambda>l. id_key l \<notin> T)) (filter (\<lambda>l. id_key l \<notin> T))"

text \<open>The orders \<open>H\<close> were cancelled on the market with symbol \<open>k\<close>, and nothing else.\<close>

definition cancelled_set :: "string \<Rightarrow> string set \<Rightarrow> engine \<Rightarrow> engine \<Rightarrow> bool" where
  "cancelled_set k H e e' \<longleftrightarrow>
    (\<forall>h. order_of (eng_db e') h = map_option (\<lambda>r. if h \<in> H then cancelled_row r else r) (order_of (eng_db e) h)) \<and>
    levels_at e' k = without_ids (to_lower ` H) (levels_at e k) \<and>
    (\<forall>j. j \<noteq> k \<longrightarrow> book_at e' j = book_at e j) \<and>
    d_markets (eng_db e') = d_markets (eng_db e)"

lemma cancelled_set_empty: "cancelled_set k {} e e"
  by (simp add: cancelled_set_def without_ids_def map_prod_def case_prod_unfold)

lemma cancelled_set_trans:
  assumes "cancelled_set k H e e1" and "cancelled_set k G e1 e2"
  shows "cancelled_set k (H \<union> G) e e2"
proof -
  have "map_option (\<lambda>r. if h \<in> G then cancelled_row r else r) (map_option (\<lambda>r. if h \<in> H then cancelled_row r else r) v) =
      map_option (\<lambda>r. if h \<in> H \<union> G then cancelled_row r else r) v" for h v
    by (cases v) (auto simp: cancelled_row_def)
  moreover have "without_ids (to_lower ` G) (without_ids (to_lower ` H) p) = without_ids (to_lower ` (H \<union> G)) p" for p
    by (cases p) (auto simp: without_ids_def intro!: filter_cong)
  ultimately show ?thesis using assms by (simp add: cancelled_set_def)
qed

lemma cancel_db:
  assumes "getTradingContext (eng_db e) k = Inr ctx" and "cancel now k h e = (r, e')"
  shows "if r = Inr CancelNotFound then eng_db e' = eng_db e
    else eng_db e' = snd (cancelOrder now (ctx_id ctx) h (eng_db e))"
proof -
  obtain b e1 where eb: "ensure_book (ctx_symbol ctx) e = (b, e1)" by fastforce
  have "eng_db e1 = eng_db e" using ensure_book_frame [of "ctx_symbol ctx" e] eb by simp
  with assms eb show ?thesis
    by (auto simp: cancel_def Let_def split: sum.splits prod.splits if_splits)
qed

lemma cancel_effect:
  assumes "engine_ok e" and "getTradingContext (eng_db e) k = Inr ctx" and "cancel now k h e = (r, e')"
  shows "levels_at e' (ctx_symbol ctx) = without_ids {to_lower h} (levels_at e (ctx_symbol ctx))"
    "\<forall>j. j \<noteq> ctx_symbol ctx \<longrightarrow> book_at e' j = book_at e j" "d_markets (eng_db e') = d_markets (eng_db e)"
  using cancel_book [OF assms]
  by (auto simp: levels_at_def without_ids_def ensure_book_fst drop_id_def without_id_def same_id_def
      id_key_def empty_book_def split: option.splits)

lemma cancel_one_effect:
  assumes "engine_ok e" and ctx: "getTradingContext (eng_db e) (mb_symbol m) = Inr ctx"
  shows "cancelled_set (ctx_symbol ctx) {h} e (cancel_one now m h e)"
proof -
  obtain r e1 where c: "cancel now (mb_symbol m) h e = (r, e1)" by fastforce
  note eff = cancel_effect [OF assms(1) ctx c] and db = cancel_db [OF ctx c]
  have rows: "order_of (snd (cancelOrder now i h (eng_db e))) g =
      map_option (\<lambda>r. if g \<in> {h} then cancelled_row r else r) (order_of (eng_db e) g)" for i g
    by (cases "order_of (eng_db e) g") (simp_all add: cancelled_row_def)
  show ?thesis
  proof (cases "r = Inr CancelNotFound")
    case True
    with c have "cancel_one now m h e = e1\<lparr>eng_db := snd (cancelOrder now (mb_id m) h (eng_db e1))\<rparr>"
      by (simp add: cancel_one_def)
    with eff db True rows show ?thesis by (simp add: cancelled_set_def levels_at_def)
  next
    case False
    with c have "cancel_one now m h e = e1"
      by (auto simp: cancel_one_def split: sum.split cancel_status.split)
    with eff db False rows show ?thesis by (simp add: cancelled_set_def)
  qed
qed

lemma cancel_all_effect:
  assumes "engine_wf e" and "getTradingContext (eng_db e) (mb_symbol m) = Inr ctx"
  shows "cancelled_set (ctx_symbol ctx) (set hs) e (cancel_all now m hs e)"
  using assms
proof (induction hs arbitrary: e)
  case (Cons h hs)
  have 1: "cancelled_set (ctx_symbol ctx) {h} e (cancel_one now m h e)"
    using Cons.prems engine_wf_ok by (intro cancel_one_effect) simp_all
  have "engine_wf (cancel_one now m h e)" "d_markets (eng_db (cancel_one now m h e)) = d_markets (eng_db e)"
    using cancel_one_keeps [of e now m h] Cons.prems(1) by (simp_all add: keeps_engine_def)
  then have "cancelled_set (ctx_symbol ctx) (set hs) (cancel_one now m h e) (cancel_all now m hs (cancel_one now m h e))"
    using Cons.prems(2) getTradingContext_cong by (intro Cons.IH) metis+
  from cancelled_set_trans [OF 1 this] show ?case by simp
qed (simp add: cancelled_set_empty)

section \<open>The orders a pair cancel concerns\<close>

text \<open>The stored salt of an order, when it can be read as an integer.\<close>

definition salt_of :: "order_row \<Rightarrow> int option" where
  "salt_of r = (let v = jget (o_zeroEx r) ''salt'' in
     if truthy v then (case js_BigInt v of Inr n \<Rightarrow> Some n | Inl _ \<Rightarrow> None) else None)"

definition outdated :: "db \<Rightarrow> string \<Rightarrow> string \<Rightarrow> int \<Rightarrow> order_row \<Rightarrow> bool" where
  "outdated d k maker minSalt r \<longleftrightarrow> o_status r = O_PLACED \<and> symbol_of d (o_marketId r) = k \<and>
    0 < o_remaining r \<and> to_lower (o_maker r) = maker \<and> (\<exists>n. salt_of r = Some n \<and> n < minSalt)"

definition placed_rows :: "db \<Rightarrow> string \<Rightarrow> order_row list" where
  "placed_rows d k = filter (\<lambda>r. o_status r = O_PLACED \<and> symbol_of d (o_marketId r) = k \<and> 0 < o_remaining r) (d_orders d)"

lemma salt_below_row:
  assumes "order_of d h = Some r"
  shows "salt_below d minSalt h \<longleftrightarrow> (\<exists>n. salt_of r = Some n \<and> n < minSalt)"
  using assms
  by (cases "o_zeroEx r") (auto simp: salt_below_def salt_of_def findRawOrderByHash_def Let_def split: sum.splits)

lemma to_cancel_set:
  assumes "db_keys d" and "length (placed_rows d k) \<le> 10000"
  shows "set (to_cancel d k maker minSalt) = {h. \<exists>r. order_of d h = Some r \<and> outdated d k maker minSalt r}"
proof -
  have at: "order_of d (o_hash r) = Some r" if "r \<in> set (d_orders d)" for r
    using assms(1) that by (simp add: order_of_def db_keys_def row_by_distinct)
  have "listPlacedBySymbol d k = map (core_of d) (js_sort cmp_placedAt (placed_rows d k))"
    using assms(2) by (simp add: listPlacedBySymbol_def placed_rows_def)
  then have "set (to_cancel d k maker minSalt) =
      o_hash ` {r \<in> set (placed_rows d k). to_lower (o_maker r) = maker \<and> salt_below d minSalt (o_hash r)}"
    by (simp add: to_cancel_def filter_map o_def core_of_def)
  also have "\<dots> = o_hash ` {r \<in> set (d_orders d). outdated d k maker minSalt r}"
    using at salt_below_row by (auto simp: placed_rows_def outdated_def image_iff)
  also have "\<dots> = {h. \<exists>r. order_of d h = Some r \<and> outdated d k maker minSalt r}"
    using at row_by_SomeD by (fastforce simp: order_of_def)
  finally show ?thesis .
qed

text \<open>
  C29. A pair cancel clears exactly the sender's outdated orders. When a transaction of a maker
  raises the minimum valid salt of a pair that is a market (with at most ten thousand placed
  orders), then every placed order of that maker on that market whose stored salt is below it, and no
  other, is stored as cancelled and leaves the book; the other levels keep their place, the other
  markets and rows are untouched, the intents are untouched, and the floor of the pair becomes the
  larger of the old and the new one.
\<close>

theorem pair_cancel_clears:
  assumes wf: "engine_wf (sea_engine s)" and keys: "db_keys (sea_db s)"
    and dec: "cx_decodePair x (cancel_data tx) = Inr (mt, tt, minSalt)" and sdr: "jget tx ''from'' = JStr sender"
    and m: "market_of_tokens (sea_db s) (to_lower mt) (to_lower tt) = Some m"
    and few: "length (placed_rows (sea_db s) (mb_symbol m)) \<le> 10000" and fits: "fits_dec78 minSalt"
  shows "cancelled_set (mb_symbol m)
      {h. \<exists>r. order_of (sea_db s) h = Some r \<and> outdated (sea_db s) (mb_symbol m) (to_lower sender) minSalt r}
      (sea_engine s) (sea_engine (pair_cancel x now tx s)) \<and>
    sea_intents (pair_cancel x now tx s) = sea_intents s \<and>
    stored_floor (sea_floors (pair_cancel x now tx s)) (to_lower sender, to_lower mt, to_lower tt) =
      join_max (stored_floor (sea_floors s) (to_lower sender, to_lower mt, to_lower tt)) minSalt"
proof -
  let ?d = "sea_db s" and ?k = "mb_symbol m"
  have mem: "m \<in> set (listMarketsBasic ?d)" using m by (auto simp: market_of_tokens_def dest: find_in)
  then obtain n where n: "n \<in> set (d_markets ?d)" "mk_symbol n = ?k" by (auto simp: listMarketsBasic_def)
  then obtain ctx where "getTradingContext ?d ?k = Inr ctx"
    by (cases "find (\<lambda>q. mk_id q = ?k \<or> mk_symbol q = ?k) (d_markets ?d)")
      (auto simp: getTradingContext_def find_None_iff)
  moreover obtain q where "q \<in> set (d_markets ?d)" "mk_id q = ?k \<or> mk_symbol q = ?k" "mk_symbol q = ctx_symbol ctx"
    using ctx_of_market [OF calculation] by blast
  then have "ctx_symbol ctx = ?k" using n wf unfolding engine_wf_def markets_ok_def by metis
  ultimately have ctx: "getTradingContext ?d ?k = Inr ctx" "ctx_symbol ctx = ?k" by simp_all
  define e where "e = cancel_all now m (to_cancel ?d ?k (to_lower sender) minSalt) (sea_engine s)"
  have "cancelled_set ?k (set (to_cancel ?d ?k (to_lower sender) minSalt)) (sea_engine s) e"
    using cancel_all_effect [OF wf ctx(1)] ctx(2) by (simp add: e_def)
  then have "cancelled_set ?k (set (to_cancel ?d ?k (to_lower sender) minSalt)) (sea_engine s)
      (e\<lparr>eng_db := count_cancelled ''cancelled:pair'' l (eng_db e)\<rparr>)" for l
    using order_of_cong [OF count_cancelled_frame(2)] by (simp add: cancelled_set_def levels_at_def)
  then show ?thesis
    using to_cancel_set [OF keys few] fits
    by (simp add: pair_cancel_def dec sdr lower_or_throw_def m pair_cancel_market_def Let_def on_floors_def
        stored_floor_upsert input_key_def flip: e_def)
qed

section \<open>A sample pair cancel\<close>

definition salted_state :: sea where
  "salted_state = sea_sample\<lparr>sea_engine := fill_engine\<lparr>eng_db :=
     update_order fill_hash (\<lambda>r. r\<lparr>o_zeroEx := JObj [(''salt'', JStr ''5'')]\<rparr>) (eng_db fill_engine)\<rparr>\<rparr>"

definition cancel_world :: cancel_ext where
  "cancel_world = \<lparr>cx_sea = sample_sx, cx_decode = (\<lambda>h. Inl TypeError),
     cx_decodePair = (\<lambda>h. Inr (hex_addr CHR ''b'', hex_addr CHR ''C'', 6))\<rparr>"

definition pair_tx :: jval where
  "pair_tx = JObj [(''from'', JStr (hex_addr CHR ''A''))]"

theorem pair_cancel_clears_witness:
  "map_option o_status (order_of (sea_db (pair_cancel cancel_world 9 pair_tx salted_state)) fill_hash) = Some O_CANCELLED \<and>
   stored_floor (sea_floors (pair_cancel cancel_world 9 pair_tx salted_state))
     (hex_addr CHR ''a'', hex_addr CHR ''b'', hex_addr CHR ''c'') = Some 6"
proof -
  let ?m = "hd (listMarketsBasic (sea_db salted_state))"
  have wf: "engine_wf (sea_engine salted_state)"
    using engine_wf_db [OF fill_engine_wf] by (simp add: salted_state_def)
  have "list_all (\<lambda>r. market_by_id (sea_db salted_state) (o_marketId r) \<noteq> None) (d_orders (sea_db salted_state))"
    "distinct (map o_hash (d_orders (sea_db salted_state)))" "distinct (map mk_id (d_markets (sea_db salted_state)))"
    "distinct (map mk_symbol (d_markets (sea_db salted_state)))" by code_simp+
  then have keys: "db_keys (sea_db salted_state)" by (simp add: db_keys_def list_all_iff)
  have m: "market_of_tokens (sea_db salted_state) (to_lower (hex_addr CHR ''b'')) (to_lower (hex_addr CHR ''C'')) = Some ?m"
    by code_simp
  have few: "length (placed_rows (sea_db salted_state) (mb_symbol ?m)) \<le> 10000" by code_simp
  have low: "to_lower (hex_addr CHR ''A'') = hex_addr CHR ''a''" "to_lower (hex_addr CHR ''b'') = hex_addr CHR ''b''"
    "to_lower (hex_addr CHR ''C'') = hex_addr CHR ''c''" by code_simp+
  have "map_option (\<lambda>r. (o_status r = O_PLACED \<and> symbol_of (sea_db salted_state) (o_marketId r) = mb_symbol ?m \<and>
      0 < o_remaining r \<and> to_lower (o_maker r) = hex_addr CHR ''a'', salt_of r)) (order_of (sea_db salted_state) fill_hash)
    = Some (True, Some 5)" by code_simp
  then obtain r where r: "order_of (sea_db salted_state) fill_hash = Some r"
    "outdated (sea_db salted_state) (mb_symbol ?m) (hex_addr CHR ''a'') 6 r"
    by (auto simp: outdated_def)
  have d: "cx_decodePair cancel_world (cancel_data pair_tx) = Inr (hex_addr CHR ''b'', hex_addr CHR ''C'', 6)"
    by (simp add: cancel_world_def)
  have s: "jget pair_tx ''from'' = JStr (hex_addr CHR ''A'')" by (simp add: pair_tx_def)
  have f: "stored_floor (sea_floors salted_state) k = None" for k
    by (simp add: stored_floor_def salted_state_def sea_sample_def)
  from pair_cancel_clears [OF wf keys d s m few, of 9] r f show ?thesis
    by (auto simp: low cancelled_set_def cancelled_row_def join_max_def fits_dec78_def)
qed

end
