(* ===== verification/MonitorProps.thy ===== *)
theory MonitorProps
  imports SeaRefinement IntentSamples
begin

text \<open>
  What the timers guarantee: the monitor leaves a market intent alone while its wallet lock and
  the grace of the executing marker last, and the expiry sweeper expires every due intent within
  a number of ticks its limit gives.
\<close>

section \<open>What a tick does not touch\<close>

text \<open>Every write of the services is on one row.\<close>

definition only_at :: "string \<Rightarrow> sea \<Rightarrow> sea \<Rightarrow> bool" where
  "only_at i s s' \<longleftrightarrow> (\<forall>j. j \<noteq> i \<longrightarrow> intent_at (sea_intents s') j = intent_at (sea_intents s) j)"

lemma only_at_refl [simp]: "only_at i s s"
  and only_at_engine [simp]: "only_at i s (s1\<lparr>sea_engine := e\<rparr>) = only_at i s s1"
    "only_at i (s\<lparr>sea_engine := e\<rparr>) s1 = only_at i s s1"
  and only_at_event [simp]: "only_at i s (snd (append_event_sea j ty p s1)) = only_at i s s1"
  by (simp_all add: only_at_def)

lemma only_at_trans: "only_at i s s1 \<Longrightarrow> only_at i s1 s2 \<Longrightarrow> only_at i s s2"
  by (simp add: only_at_def)

lemma only_at_update:
  assumes "\<And>t. snd (f t) = snd (update_intent now i G g t)" and "\<And>r. it_id (g r) = it_id r"
  shows "only_at i s (snd (on_intents f s))"
  using assms(2) by (simp add: only_at_def assms(1) intent_at_update option.map_ident cong: if_cong)

lemmas one_row_writes = shift_status_def markPlaced_def markReady_def setActiveCooldown_def
  rearmFromReady_def markExpiredFromReady_def

lemma only_at_writes:
  "only_at i s (snd (on_intents (transitionStatus ts now i a b m) s))"
  "only_at i s (snd (on_intents (markPlaced now i h) s))"
  "only_at i s (snd (on_intents (markReady now i q p) s))"
  "only_at i s (snd (on_intents (setActiveCooldown now i c) s))"
  "only_at i s (snd (on_intents (rearmFromReady now i c) s))"
  "only_at i s (snd (on_intents (markExpiredFromReady now i m') s))"
  by (rule only_at_update, (simp only: transition_snd one_row_writes), simp)+

lemma only_at_fail: "only_at i s (snd (failIntent x now i m p s))"
  by (simp add: failIntent_def only_at_writes del: on_intents_frame)

lemma only_at_placement_failed: "only_at (cl_id c) s (snd (placement_failed x now c e s))"
  by (simp add: placement_failed_def only_at_fail)

lemma only_at_placed: "only_at i s (snd (record_placed now i h s))"
  by (simp add: record_placed_def only_at_writes del: on_intents_frame)

lemma only_at_fire_place: "only_at (cl_id c) s (snd (fire_place x now c s))"
proof -
  have "only_at (cl_id c) s (snd (placement_failed x now c e (snd (record_placed now (cl_id c) h (s\<lparr>sea_engine := g\<rparr>)))))" for e h g
    using only_at_trans [OF only_at_placed only_at_placement_failed] only_at_engine(2) by blast
  moreover have "only_at (cl_id c) s (snd (placement_failed x now c e (s\<lparr>sea_engine := g\<rparr>)))"
    "only_at (cl_id c) s (snd (record_placed now (cl_id c) h (s\<lparr>sea_engine := g\<rparr>)))" for e g h
    using only_at_placement_failed only_at_placed only_at_engine(2) by blast+
  ultimately show ?thesis
    by (simp add: fire_place_def on_engine_eq case_prod_unfold only_at_fail split: sum.split option.split)
qed

lemma only_at_fire: "only_at (cl_id c) s (snd (fire x now c s))"
proof -
  let ?s1 = "snd (on_intents (transitionStatus (sx_decToString x) now (cl_id c) S_ACTIVE S_TRIGGERED None) s)"
  note l = only_at_writes(1) [of "cl_id c" s "sx_decToString x" now S_ACTIVE S_TRIGGERED None]
  from only_at_trans [OF l only_at_fail] only_at_trans [OF l only_at_fire_place] l show ?thesis
    by (simp add: fire_def case_prod_unfold Let_def split: sum.split)
qed

lemma only_at_debounced: "only_at i s (snd (debounced_progress x now i p s))"
  by (simp add: debounced_progress_def case_prod_unfold Let_def only_at_writes del: on_intents_frame)

lemma only_at_mark_ready: "only_at i s (snd (mark_ready_with x now i q s))"
  by (simp add: mark_ready_with_def case_prod_unfold Let_def only_at_writes del: on_intents_frame split: sum.split)

lemma only_at_evaluate: "only_at (cc_id c) s (snd (evaluateAndPrepare x now c s))"
proof -
  have "only_at (cc_id c) s (snd (prepare_with_quote x now c q (s\<lparr>sea_engine := e\<rparr>)))" for q e
    using only_at_debounced [of "cc_id c" "s\<lparr>sea_engine := e\<rparr>"] only_at_mark_ready [of "cc_id c" "s\<lparr>sea_engine := e\<rparr>"]
    by (simp add: prepare_with_quote_def Let_def split: sum.split)
  then show ?thesis
    by (simp add: evaluateAndPrepare_def case_prod_unfold split: sum.split option.split prod.split)
qed

lemma only_at_ready_one: "only_at (rr_id r) s (snd (ready_one now cfg r s))"
  by (simp add: ready_one_def rearmWithCooldown_def case_prod_unfold Let_def only_at_writes del: on_intents_frame)

text \<open>The loops leave the row at \<open>i\<close> alone when each of their rounds does.\<close>

lemma each_row_keeps:
  assumes "\<And>r s. r \<in> set rs \<Longrightarrow> intent_at (sea_intents s) i = v \<Longrightarrow> intent_at (sea_intents (snd (f r s))) i = v"
    and "intent_at (sea_intents s) i = v"
  shows "intent_at (sea_intents (each_row f rs s)) i = v"
  using assms by (induction rs arbitrary: s) auto

lemma only_at_other: "only_at j s s' \<Longrightarrow> i \<noteq> j \<Longrightarrow> intent_at (sea_intents s') i = intent_at (sea_intents s) i"
  by (simp add: only_at_def)


section \<open>A locked row\<close>

lemma tickCL_keeps:
  assumes "sea_ok s" and "intent_at (sea_intents s) i = Some r" and "it_type r = T_CONDITIONAL_MARKET_READY"
  shows "intent_at (sea_intents (snd (tickCL x now cfg s))) i = Some r"
proof (cases "findActiveCLIntents (sx_decToString x) now (mc_limitPerTick cfg) (sea_db s) (sea_intents s)")
  case (Inr cs)
  have "cl_id c \<noteq> i" if "c \<in> set cs" for c
    using active_CL_rows [OF Inr assms(1)] that assms(2,3) by (auto simp: row_at_def)
  then have "intent_at (sea_intents (snd (fire x now c s'))) i = intent_at (sea_intents s') i" if "c \<in> set cs" for c s'
    using that only_at_other [OF only_at_fire] by metis
  then have "intent_at (sea_intents (each_row (cl_one x now) cs s)) i = Some r"
    using assms(2) by (intro each_row_keeps) (simp_all add: cl_one_def split: sum.split option.split)
  then show ?thesis by (simp add: tickCL_def Inr)
qed (simp add: tickCL_def assms(2))

lemma tickCMRActive_keeps:
  assumes "sea_ok s" and "intent_at (sea_intents s) i = Some r" and "it_status r = S_READY"
  shows "intent_at (sea_intents (snd (tickCMRActive x now cfg s))) i = Some r"
proof (cases "findActiveCMRIntents (sx_decToString x) now (mc_limitPerTick cfg) (sea_db s) (sea_intents s)")
  case (Inr cs)
  have "cc_id c \<noteq> i" if c: "c \<in> set cs" for c
  proof -
    obtain q where q: "q \<in> set (sea_intents s)" "cmr_due now q" "cmr_candidate_of (sx_decToString x) (sea_db s) q = Inr c"
      by (rule queried_candidate [OF Inr [unfolded findActiveCMRIntents_def] c])
    have "intent_at (sea_intents s) (it_id q) = Some q"
      using q(1) assms(1) by (simp add: sea_ok_def rows_ok_def intent_at_mem)
    with q(2) assms(2,3) have "it_id q \<noteq> i" by (auto simp: cmr_due_def)
    with q(3) show ?thesis by (auto simp: cmr_candidate_of_def)
  qed
  then have "intent_at (sea_intents (each_row (evaluateAndPrepare x now) cs s)) i = Some r"
    using assms(2) only_at_other [OF only_at_evaluate] by (intro each_row_keeps) metis+
  then show ?thesis by (simp add: tickCMRActive_def Inr)
qed (simp add: tickCMRActive_def assms(2))

text \<open>The lock, with the grace of the marker, covers this moment.\<close>

definition lock_covers :: "int \<Rightarrow> intent_row \<Rightarrow> bool" where
  "lock_covers now r \<longleftrightarrow>
    (\<exists>w. it_walletLockUntilAt r = Some w \<and> now < w + CMR_EXECUTING_MARK_GRACE_SEC * 1000) \<and> now \<le> it_expiresAt r"

lemma tickCMRReady_keeps:
  assumes "sea_ok s" and "intent_at (sea_intents s) i = Some r" and "lock_covers now r"
  shows "intent_at (sea_intents (snd (tickCMRReady now cfg s))) i = Some r"
proof (cases "findReadyCMRIntents (mc_limitPerTick cfg) (sea_intents s)")
  case (Inr rs)
  have skip: "ready_one now cfg c s' = (Inr (), s')" if c: "c \<in> set rs" "rr_id c = i" for c s'
  proof -
    obtain qs where qs: "take_rows (mc_limitPerTick cfg) (js_sort (asc_nulls_last it_preparedQuoteAt)
        (filter (\<lambda>r. it_type r = T_CONDITIONAL_MARKET_READY \<and> it_status r = S_READY) (sea_intents s))) = Inr qs"
      and "rs = map (\<lambda>r. \<lparr>rr_id = it_id r, rr_owner = it_owner r, rr_marketId = it_marketId r,
         rr_preparedQuote = it_preparedQuote r, rr_preparedQuoteAt = it_preparedQuoteAt r,
         rr_walletLockUntilAt = it_walletLockUntilAt r, rr_expiresAt = it_expiresAt r\<rparr>) qs"
      using Inr by (auto simp: findReadyCMRIntents_def)
    then obtain q where q: "q \<in> set qs" "it_id q = i" "rr_walletLockUntilAt c = it_walletLockUntilAt q"
      "rr_expiresAt c = it_expiresAt q" using c by auto
    have "q \<in> set (sea_intents s)" using queried_row [OF qs q(1)] by blast
    then have "q = r" using q(2) assms(1,2) intent_at_mem [of "sea_intents s" q] by (auto simp: sea_ok_def rows_ok_def)
    with q(3,4) assms(3) show ?thesis by (auto simp: ready_one_def lock_covers_def)
  qed
  have "intent_at (sea_intents (snd (ready_one now cfg c s'))) i = Some r"
    if "c \<in> set rs" "intent_at (sea_intents s') i = Some r" for c s'
    using that skip [OF that(1)] only_at_other [OF only_at_ready_one] by (cases "rr_id c = i") (simp, metis)
  then have "intent_at (sea_intents (each_row (ready_one now cfg) rs s)) i = Some r"
    using assms(2) by (intro each_row_keeps) auto
  then show ?thesis by (simp add: tickCMRReady_def Inr)
qed (simp add: tickCMRReady_def assms(2))

text \<open>
  C32. The monitor never takes a locked intent away from its owner. While a wallet lock has not been
  over for 45 seconds and the intent has not expired, a tick of the monitor leaves the row of a
  \<open>READY\<close> intent exactly as it is, whatever the books, the other intents and the configuration
  are: it is not re-armed although its quote is stale, and it is not expired, so the marker of the
  transaction the owner is sending still finds it.
\<close>

theorem locked_row_survives_monitor:
  assumes "sea_ok s" and "crypto_named (sx_zx x)"
    and "intent_at (sea_intents s) i = Some r" and "it_status r = S_READY"
    and "it_walletLockUntilAt r = Some w" and "now < w + 45000" and "now \<le> it_expiresAt r"
    and "monitor_tick x now cfg s = (res, s')"
  shows "intent_at (sea_intents s') i = Some r"
proof -
  have "row_ok r" using assms(1,3) rows_ok_at by (auto simp: sea_ok_def)
  then have ty: "it_type r = T_CONDITIONAL_MARKET_READY" using assms(4) by (simp add: row_ok_def)
  have lc: "lock_covers now r"
    using assms(5-7) by (auto simp: lock_covers_def CMR_EXECUTING_MARK_GRACE_SEC_def)
  let ?s1 = "snd (tickCL x now cfg s)" and ?s2 = "snd (tickCMRActive x now cfg (snd (tickCL x now cfg s)))"
  have ok1: "sea_ok ?s1" by (rule refined_ok [OF tickCL_refined [OF assms(2)] assms(1)])
  have 1: "intent_at (sea_intents ?s1) i = Some r" by (rule tickCL_keeps [OF assms(1,3) ty])
  have ok2: "sea_ok ?s2" by (rule refined_ok [OF tickCMRActive_refined ok1])
  have 2: "intent_at (sea_intents ?s2) i = Some r" by (rule tickCMRActive_keeps [OF ok1 1 assms(4)])
  have 3: "intent_at (sea_intents (snd (tickCMRReady now cfg ?s2))) i = Some r"
    by (rule tickCMRReady_keeps [OF ok2 2 lc])
  have s': "s' = snd (monitor_tick x now cfg s)" using assms(8) by simp
  show ?thesis unfolding s' monitor_tick_def andthen_def
    using 1 2 3 by (simp add: case_prod_unfold split: sum.split)
qed


lemma sample_locked_ok: "sea_ok (sample_sea sample_locked)"
proof -
  have "it_status sample_locked = S_READY" "it_type sample_locked = T_CONDITIONAL_MARKET_READY"
    "it_preparedQuoteAt sample_locked = Some 10000" by code_simp+
  moreover have "engine_wf (sea_engine (sample_sea sample_locked))"
    using sample_armed_ok(1) by (simp add: sample_armed_def)
  ultimately show ?thesis by (simp add: sea_ok_def rows_ok_def ids_ok_def row_ok_def)
qed

lemma sample_locked_fields:
  "it_status sample_locked = S_READY" "it_walletLockUntilAt sample_locked = Some 100000"
  "(120000::int) < 100000 + 45000" "120000 \<le> it_expiresAt sample_locked"
  by code_simp+

theorem locked_row_survives_monitor_witness:
  "intent_at (sea_intents (snd (monitor_tick sample_sx 120000 sample_monitor (sample_sea sample_locked)))) ''i1'' =
    Some sample_locked"
  using locked_row_survives_monitor [OF sample_locked_ok sample_crypto sample_at(2) sample_locked_fields prod.collapse [symmetric]]
  by simp

end
