(* ===== verification/SweeperProps.thy ===== *)
theory SweeperProps
  imports IntentMonitor IntentSamples
begin

text \<open>
  The expiry sweeper: the exact effect of a tick on the rows and the events, and that every due
  intent expires after as many ticks as its limit asks for.
\<close>

section \<open>The effect of a sweep\<close>

definition expired_row :: "int \<Rightarrow> intent_row \<Rightarrow> intent_row" where
  "expired_row now r = r\<lparr>it_status := S_EXPIRED, it_failureReason := Some ''intent_expired_by_ts'',
     it_lastEvaluatedAt := Some now, it_updatedAt := now\<rparr>"

lemma expired_row_fields [simp]:
  "it_id (expired_row now r) = it_id r" "it_status (expired_row now r) = S_EXPIRED"
  "it_expiresAt (expired_row now r) = it_expiresAt r" "\<not> expiry_due now' (expired_row now r)"
  by (simp_all add: expired_row_def expiry_due_def)

definition expire_all :: "int \<Rightarrow> intent_row list \<Rightarrow> intents \<Rightarrow> intents" where
  "expire_all now L t = map (\<lambda>r. if r \<in> set L then expired_row now r else r) t"

lemma expire_all_Nil [simp]: "expire_all now [] t = t"
  by (simp add: expire_all_def)

lemma expire_one_row:
  assumes "ids_ok t" and "l \<in> set t"
  shows "expire_one now (it_id l) (it_status l) t = (True, expire_all now [l] t)"
proof -
  have u: "r \<in> set t \<Longrightarrow> it_id r = it_id l \<longleftrightarrow> r = l" for r
    using assms by (auto simp: ids_ok_def distinct_map inj_on_def)
  have "expire_one now (it_id l) (it_status l) t =
      (fst (expire_one now (it_id l) (it_status l) t), expire_all now [l] t)"
    unfolding expire_one_def update_intent_def update_many_def update_where_def expire_all_def expired_row_def
    by (auto simp: u)
  moreover have "fst (expire_one now (it_id l) (it_status l) t)"
    using assms by (auto simp: expire_one_def update_intent_hit intent_at_mem)
  ultimately show ?thesis by simp
qed

lemma expire_all_ids [simp]: "map it_id (expire_all now L t) = map it_id t"
  by (simp add: expire_all_def)

lemma expire_loop_effect:
  assumes "ids_ok t" and "set L \<subseteq> set t" and "\<forall>r \<in> set L. expiry_due now r" and "distinct L"
  shows "expire_loop now (map (\<lambda>r. (it_id r, it_status r)) L) t = (map it_id L, expire_all now L t)"
  using assms
proof (induction L arbitrary: t)
  case (Cons l L)
  let ?t1 = "expire_all now [l] t"
  have ne: "expired_row now l \<notin> set L"
    using Cons.prems(3) expired_row_fields(4) by fastforce
  have 1: "ids_ok ?t1" using Cons.prems(1) by (simp add: ids_ok_def)
  have "set L \<subseteq> set ?t1" using Cons.prems(2,4) by (force simp: expire_all_def)
  with Cons.IH [OF 1] Cons.prems have IH: "expire_loop now (map (\<lambda>r. (it_id r, it_status r)) L) ?t1 =
      (map it_id L, expire_all now L ?t1)" by simp
  have "expire_all now L ?t1 = expire_all now (l # L) t"
    using ne Cons.prems(4) by (auto simp: expire_all_def)
  with IH Cons.prems expire_one_row [of t l now] show ?case by simp
qed simp

text \<open>How many rows a tick takes.\<close>

definition per_tick :: "sweeper_cfg \<Rightarrow> nat" where
  "per_tick cfg = nat \<lfloor>max 1 (min (sw_limitPerTick cfg) 500)\<rfloor>"

definition swept_rows :: "int \<Rightarrow> sweeper_cfg \<Rightarrow> intents \<Rightarrow> intent_row list" where
  "swept_rows now cfg t = take (per_tick cfg) (js_sort (asc_by it_expiresAt) (filter (expiry_due now) t))"

lemma swept_rows_due: "r \<in> set (swept_rows now cfg t) \<Longrightarrow> r \<in> set t \<and> expiry_due now r"
  using set_take_subset [of "per_tick cfg" "js_sort (asc_by it_expiresAt) (filter (expiry_due now) t)"]
  by (auto simp: swept_rows_def)

lemma ids_distinct: "ids_ok t \<Longrightarrow> distinct t"
  by (simp add: ids_ok_def distinct_map)

lemma distinct_js_sort [simp]: "distinct (js_sort c xs) = distinct xs"
  using distinct_map_js_sort [of "\<lambda>r. r" c xs] by simp

lemma swept_rows_distinct: "ids_ok t \<Longrightarrow> distinct (swept_rows now cfg t)"
  by (simp add: swept_rows_def ids_distinct)

definition expired_event :: "string \<Rightarrow> intent_event" where
  "expired_event i = \<lparr>ie_intentId = i, ie_type = IE_EXPIRED,
     ie_payload = JObj [(''reason'', JStr ''intent_expired_by_ts'')]\<rparr>"

lemma report_all:
  assumes "\<forall>i \<in> set ids. intent_at (sea_intents s) i \<noteq> None"
  shows "report_each IE_EXPIRED ''intent_expired_by_ts'' ids s =
    s\<lparr>sea_events := sea_events s @ map expired_event ids\<rparr>"
  using assms unfolding report_each_def
proof (induction ids arbitrary: s)
  case (Cons i ids)
  then show ?case by (simp add: sea_event_ok expired_event_def)
qed simp

lemma sweep_effect:
  assumes "ids_ok (sea_intents s)" and "is_int_rat (max 1 (min (sw_limitPerTick cfg) 500))"
  shows "expiry_sweeper_tick now cfg s = (Inr (), s
    \<lparr>sea_intents := expire_all now (swept_rows now cfg (sea_intents s)) (sea_intents s),
     sea_events := sea_events s @ map (\<lambda>r. expired_event (it_id r)) (swept_rows now cfg (sea_intents s))\<rparr>)"
proof -
  let ?t = "sea_intents s" and ?L = "swept_rows now cfg (sea_intents s)"
  have "take_rows (sw_limitPerTick cfg) (js_sort (asc_by it_expiresAt) (filter (expiry_due now) ?t)) = Inr ?L"
    using assms(2) by (simp add: take_rows_def swept_rows_def per_tick_def Let_def)
  moreover have "expire_loop now (map (\<lambda>r. (it_id r, it_status r)) ?L) ?t = (map it_id ?L, expire_all now ?L ?t)"
    using swept_rows_due swept_rows_distinct [OF assms(1)] by (intro expire_loop_effect assms(1)) auto
  ultimately have e: "expireDueIntents now (sw_limitPerTick cfg) ?t = (Inr (map it_id ?L), expire_all now ?L ?t)"
    by (simp add: expireDueIntents_def)
  have "intent_at (expire_all now ?L ?t) i \<noteq> None" if "i \<in> set (map it_id ?L)" for i
  proof -
    from that obtain r where "r \<in> set ?L" and i: "it_id r = i" by auto
    then have "r \<in> set ?t" using swept_rows_due by blast
    with i have "i \<in> set (map it_id (expire_all now ?L ?t))" unfolding expire_all_ids set_map by blast
    then show ?thesis by (auto simp: intent_at_def row_by_None_iff simp del: expire_all_ids)
  qed
  then show ?thesis
    by (simp add: expiry_sweeper_tick_def on_intents_def e report_all comp_def)
qed


section \<open>Oldest first\<close>

lemma filter_take_sorted:
  "sorted_wrt (\<lambda>a b. asc_by f a b \<le> 0) xs \<Longrightarrow>
    filter (\<lambda>r. f r < c) (take n xs) = take n (filter (\<lambda>r. f r < c) xs)"
proof (induction xs arbitrary: n)
  case (Cons a xs)
  show ?case
  proof (cases "f a < c")
    case False
    then have "\<forall>b \<in> set xs. \<not> f b < c" using Cons.prems by (auto simp: asc_by_def)
    then have "filter (\<lambda>r. f r < c) xs = []" "\<And>m. filter (\<lambda>r. f r < c) (take m xs) = []"
      by (auto simp: filter_empty_conv dest: in_set_takeD)
    with False show ?thesis by (cases n) simp_all
  qed (use Cons in \<open>cases n; simp\<close>)
qed simp

lemma swept_before:
  assumes "t0 \<le> now"
  shows "filter (expiry_due t0) (swept_rows now cfg t) =
    take (per_tick cfg) (filter (expiry_due t0) (js_sort (asc_by it_expiresAt) (filter (expiry_due now) t)))"
proof -
  let ?S = "js_sort (asc_by it_expiresAt) (filter (expiry_due now) t)"
  have e: "expiry_due t0 r \<longleftrightarrow> it_expiresAt r < t0" if "r \<in> set ?S" for r
    using that by (auto simp: expiry_due_def)
  have "filter (expiry_due t0) (swept_rows now cfg t) = filter (\<lambda>r. it_expiresAt r < t0) (take (per_tick cfg) ?S)"
    unfolding swept_rows_def by (rule filter_cong [OF refl]) (meson e in_set_takeD)
  also have "\<dots> = take (per_tick cfg) (filter (\<lambda>r. it_expiresAt r < t0) ?S)"
    by (rule filter_take_sorted [OF by_column.sorted_js_sort])
  also have "filter (\<lambda>r. it_expiresAt r < t0) ?S = filter (expiry_due t0) ?S"
    by (rule filter_cong [OF refl]) (simp add: e)
  finally show ?thesis .
qed

definition due_count :: "int \<Rightarrow> intents \<Rightarrow> nat" where
  "due_count t0 t = length (filter (expiry_due t0) t)"

lemma due_in_sort:
  assumes "t0 \<le> now"
  shows "length (filter (expiry_due t0) (js_sort c (filter (expiry_due now) t))) = due_count t0 t"
proof -
  have "filter (expiry_due t0) (filter (expiry_due now) t) = filter (expiry_due t0) t"
    using assms by (auto simp: expiry_due_def filter_filter intro!: filter_cong)
  moreover have "mset (filter (expiry_due t0) (js_sort c xs)) = mset (filter (expiry_due t0) xs)" for xs
    by simp
  ultimately show ?thesis unfolding due_count_def by (metis size_mset)
qed

lemma due_count_sweep:
  assumes "ids_ok t" and "t0 \<le> now"
  shows "due_count t0 (expire_all now (swept_rows now cfg t) t) = due_count t0 t - per_tick cfg"
proof -
  let ?L = "swept_rows now cfg t"
  have d: "distinct t" "distinct ?L" "set ?L \<subseteq> set t"
    using assms(1) swept_rows_distinct ids_distinct swept_rows_due by auto
  have "length (filter (\<lambda>r. r \<in> set ?L \<and> expiry_due t0 r) t) = length (filter (expiry_due t0) ?L)"
  proof -
    have "set (filter (\<lambda>r. r \<in> set ?L \<and> expiry_due t0 r) t) = set (filter (expiry_due t0) ?L)" using d(3) by auto
    then show ?thesis using d(1,2) by (metis distinct_card distinct_filter)
  qed
  moreover have "length (filter (expiry_due t0) ?L) = min (per_tick cfg) (due_count t0 t)"
    using due_in_sort [OF assms(2)] by (simp add: swept_before [OF assms(2)])
  moreover have "length (filter (expiry_due t0) (expire_all now L u)) = length (filter (\<lambda>r. r \<notin> set L \<and> expiry_due t0 r) u)" for L u
    unfolding expire_all_def by (induction u) auto
  moreover have "due_count t0 t = length (filter (\<lambda>r. r \<in> set ?L \<and> expiry_due t0 r) t) +
      length (filter (\<lambda>r. r \<notin> set ?L \<and> expiry_due t0 r) t)"
    using sum_length_filter_compl [of "\<lambda>r. r \<in> set ?L" "filter (expiry_due t0) t"]
    by (simp add: due_count_def conj_commute)
  ultimately show ?thesis by (simp add: due_count_def)
qed

section \<open>Every due intent expires\<close>

definition sweeps :: "sweeper_cfg \<Rightarrow> int list \<Rightarrow> sea \<Rightarrow> sea" where
  "sweeps cfg nows s = fold (\<lambda>now s. snd (expiry_sweeper_tick now cfg s)) nows s"

definition limit_whole :: "sweeper_cfg \<Rightarrow> bool" where
  "limit_whole cfg \<longleftrightarrow> is_int_rat (max 1 (min (sw_limitPerTick cfg) 500))"

lemma event_count:
  "distinct (map it_id L) \<Longrightarrow>
    count_list (map (\<lambda>r. expired_event (it_id r)) L) (expired_event i) = (if i \<in> it_id ` set L then 1 else 0)"
  by (induction L) (auto simp: expired_event_def)

lemma sweep_row:
  assumes "ids_ok (sea_intents s)" and "limit_whole cfg" and "r \<in> set (sea_intents s)"
    and "s1 = snd (expiry_sweeper_tick now cfg s)"
  shows "ids_ok (sea_intents s1)"
    and "(if r \<in> set (swept_rows now cfg (sea_intents s)) then expired_row now r else r) \<in> set (sea_intents s1)"
    and "count_list (sea_events s1) (expired_event (it_id r)) = count_list (sea_events s) (expired_event (it_id r)) +
      (if r \<in> set (swept_rows now cfg (sea_intents s)) then 1 else 0)"
proof -
  let ?L = "swept_rows now cfg (sea_intents s)"
  have e: "sea_intents s1 = expire_all now ?L (sea_intents s)"
    "sea_events s1 = sea_events s @ map (\<lambda>r. expired_event (it_id r)) ?L"
    using sweep_effect [OF assms(1), of cfg now] assms(2,4) by (simp_all add: limit_whole_def)
  show "ids_ok (sea_intents s1)" using assms(1) by (simp add: e ids_ok_def)
  show "(if r \<in> set ?L then expired_row now r else r) \<in> set (sea_intents s1)"
    unfolding e expire_all_def using assms(3) by auto
  have inj: "inj_on it_id (set (sea_intents s))" using assms(1) by (simp add: ids_ok_def distinct_map)
  have sub: "set ?L \<subseteq> set (sea_intents s)" using swept_rows_due by blast
  then have "distinct (map it_id ?L)" "it_id r \<in> it_id ` set ?L \<longleftrightarrow> r \<in> set ?L"
    using inj swept_rows_distinct [OF assms(1)] inj_on_subset [OF inj sub] inj_on_image_mem_iff [OF inj assms(3) sub]
    by (auto simp: distinct_map)
  then show "count_list (sea_events s1) (expired_event (it_id r)) = count_list (sea_events s) (expired_event (it_id r)) +
      (if r \<in> set ?L then 1 else 0)"
    by (simp add: e event_count)
qed

lemma sweeps_spare:
  assumes "ids_ok (sea_intents s)" and "limit_whole cfg" and "r \<in> set (sea_intents s)"
    and "\<forall>now \<in> set nows. \<not> expiry_due now r"
  shows "intent_at (sea_intents (sweeps cfg nows s)) (it_id r) = Some r \<and>
    count_list (sea_events (sweeps cfg nows s)) (expired_event (it_id r)) =
      count_list (sea_events s) (expired_event (it_id r))"
  using assms
proof (induction nows arbitrary: s)
  case (Cons now nows)
  have "r \<notin> set (swept_rows now cfg (sea_intents s))" using Cons.prems(4) swept_rows_due by auto
  with sweep_row [OF Cons.prems(1-3) refl, of now] Cons.IH [of "snd (expiry_sweeper_tick now cfg s)"] Cons.prems
  show ?case by (simp add: sweeps_def)
qed (simp add: sweeps_def intent_at_mem)


lemma sweeps_expire:
  assumes "ids_ok (sea_intents s)" and "limit_whole cfg" and "r \<in> set (sea_intents s)" and "expiry_due t0 r"
    and "\<forall>now \<in> set nows. t0 \<le> now" and "due_count t0 (sea_intents s) \<le> length nows * per_tick cfg"
  shows "(\<exists>now \<in> set nows. intent_at (sea_intents (sweeps cfg nows s)) (it_id r) = Some (expired_row now r)) \<and>
    count_list (sea_events (sweeps cfg nows s)) (expired_event (it_id r)) =
      count_list (sea_events s) (expired_event (it_id r)) + 1"
  using assms
proof (induction nows arbitrary: s)
  case Nil
  then have "r \<in> set (filter (expiry_due t0) (sea_intents s))" by simp
  with Nil(6) show ?case by (simp add: due_count_def filter_empty_conv)
next
  case (Cons now nows)
  let ?s1 = "snd (expiry_sweeper_tick now cfg s)" and ?L = "swept_rows now cfg (sea_intents s)"
  note row = sweep_row [OF Cons.prems(1-3) refl, of now]
  have run: "sweeps cfg (now # nows) s = sweeps cfg nows ?s1" by (simp add: sweeps_def)
  show ?case
  proof (cases "r \<in> set ?L")
    case True
    with sweeps_spare [OF row(1) Cons.prems(2), of "expired_row now r" nows] row(2,3)
    show ?thesis unfolding run by simp
  next
    case False
    have "sea_intents ?s1 = expire_all now ?L (sea_intents s)"
      using sweep_effect [OF Cons.prems(1)] Cons.prems(2) by (simp add: limit_whole_def)
    then have "due_count t0 (sea_intents ?s1) \<le> length nows * per_tick cfg"
      using due_count_sweep [OF Cons.prems(1), of t0 now cfg] Cons.prems(5,6) by simp
    with Cons.IH [OF row(1) Cons.prems(2)] row(2,3) False Cons.prems(4,5) show ?thesis unfolding run by auto
  qed
qed

text \<open>
  C33. Every due intent expires, and nothing else does. Let the sweeper tick at any times from \<open>t0\<close>
  on, often enough that the ticks together may take the \<open>DRAFT\<close> and \<open>ACTIVE\<close> intents that were
  past their expiry at \<open>t0\<close>. Then each of those ends \<open>EXPIRED\<close> with its reason and exactly one
  \<open>EXPIRED\<close> event, although new intents may fall due meanwhile, since the oldest are taken first;
  and an intent that is due at none of the ticks keeps its row and its events. The limit must be a
  whole number; with a fractional one, which the configuration accepts, no tick does anything.
\<close>

theorem due_intents_expire:
  assumes "ids_ok (sea_intents s)" and "r \<in> set (sea_intents s)"
    and "\<forall>now \<in> set nows. t0 \<le> now" and "due_count t0 (sea_intents s) \<le> length nows * per_tick cfg"
  shows "(limit_whole cfg \<and> expiry_due t0 r \<longrightarrow>
      (\<exists>now \<in> set nows. intent_at (sea_intents (sweeps cfg nows s)) (it_id r) = Some (expired_row now r)) \<and>
      count_list (sea_events (sweeps cfg nows s)) (expired_event (it_id r)) =
        count_list (sea_events s) (expired_event (it_id r)) + 1) \<and>
    (limit_whole cfg \<and> (\<forall>now \<in> set nows. \<not> expiry_due now r) \<longrightarrow>
      intent_at (sea_intents (sweeps cfg nows s)) (it_id r) = Some r \<and>
      count_list (sea_events (sweeps cfg nows s)) (expired_event (it_id r)) =
        count_list (sea_events s) (expired_event (it_id r))) \<and>
    (\<not> limit_whole cfg \<longrightarrow> sweeps cfg nows s = s)"
proof -
  have "sweeps cfg nows s = s" if "\<not> limit_whole cfg"
  proof -
    have "snd (expiry_sweeper_tick now cfg s) = s" for now s
      using that by (simp add: expiry_sweeper_tick_def on_intents_def expireDueIntents_def take_rows_def
          limit_whole_def Let_def)
    then show ?thesis unfolding sweeps_def by (induction nows) simp_all
  qed
  then show ?thesis using sweeps_expire [OF assms(1) _ assms(2) _ assms(3,4)] sweeps_spare [OF assms(1) _ assms(2)]
    by blast
qed

definition sample_sweeper :: sweeper_cfg where
  "sample_sweeper = new_expiry_sweeper (\<lambda>k. None)"

theorem due_intents_expire_witness:
  "\<exists>r'. intent_at (sea_intents (sweeps sample_sweeper [6000000] (sample_sea sample_row))) ''i1'' = Some r' \<and>
    it_status r' = S_EXPIRED"
proof -
  have a: "ids_ok (sea_intents (sample_sea sample_row))" "sample_row \<in> set (sea_intents (sample_sea sample_row))"
    "\<forall>now \<in> set [6000000]. (6000000::int) \<le> now"
    "due_count 6000000 (sea_intents (sample_sea sample_row)) \<le> length [6000000::int] * per_tick sample_sweeper"
    by (simp_all add: ids_ok_def) code_simp
  have b: "limit_whole sample_sweeper" "expiry_due 6000000 sample_row" "it_id sample_row = ''i1''" by code_simp+
  from due_intents_expire [OF a] b show ?thesis by auto
qed

end
