(* ===== verification/SeaController.thy ===== *)
theory SeaController
  imports SeaRefinement IntentSamples
begin

text \<open>
  \<open>apps/api/src/sea/sea.controller.ts\<close>: the REST handlers of the SEA endpoints over the services,
  and the fresh-quote check with its lock nonce and lock proposal. A body is the value its schema
  parses, so an ill-formed one is a body the schema's refinement refuses. The private copies of
  the reference-price, trigger, chain-id, lock-time and snapshot readers in that file are the same
  functions as those of the services and are not defined again.
\<close>

section \<open>Requests\<close>

text \<open>The guard every writing endpoint opens with: read-only first, then the schema.\<close>

definition guarded :: "sea_ext \<Rightarrow> bool \<Rightarrow> 'a result \<times> sea \<Rightarrow> sea \<Rightarrow> 'a result \<times> sea" where
  "guarded x parses answer s =
    (if read_only x then (Inl (Forbidden ''read-only''), s)
     else if \<not> parses then (Inl (BadRequest ''invalid_payload''), s)
     else answer)"

definition cancelIntentBodySchema :: "string \<Rightarrow> bool" where
  "cancelIntentBodySchema signature \<longleftrightarrow> HEX_BYTES_RE signature"

definition post_create :: "sea_ext \<Rightarrow> int \<Rightarrow> string \<Rightarrow> create_body \<Rightarrow> sea \<Rightarrow> intent_dto result \<times> sea" where
  "post_create x now newId body s =
    guarded x (createIntentBodySchema body) (create_handler x now newId body s) s"

definition post_cancel ::
  "sea_ext \<Rightarrow> int \<Rightarrow> (sea \<Rightarrow> sea) \<Rightarrow> string \<Rightarrow> string \<Rightarrow> sea \<Rightarrow> intent_dto result \<times> sea" where
  "post_cancel x now env i signature s =
    guarded x (cancelIntentBodySchema signature) (cancel_handler x now env i signature s) s"

definition post_walletLock ::
  "sea_ext \<Rightarrow> int \<Rightarrow> (sea \<Rightarrow> sea) \<Rightarrow> string \<Rightarrow> lock_body \<Rightarrow> sea \<Rightarrow> (string \<times> string) result \<times> sea" where
  "post_walletLock x now env i body s =
    guarded x (walletLockBodySchema body) (lockWallet x now env i body s) s"

definition post_markExecuting ::
  "sea_ext \<Rightarrow> int \<Rightarrow> (sea \<Rightarrow> sea) \<Rightarrow> string \<Rightarrow> executing_body \<Rightarrow> sea \<Rightarrow> intent_dto result \<times> sea" where
  "post_markExecuting x now env i body s =
    guarded x (executingBodySchema body) (markExecuting x now env i body s) s"

text \<open>\<open>Math.max(1, Math.min(parseInt(limitStr, 10) || 50, 200))\<close>, and 50 without the parameter.\<close>

definition list_limit :: "string option \<Rightarrow> int" where
  "list_limit limitStr =
    (if blank limitStr then 50
     else case parse_int 10 (the limitStr) of
       Fin q \<Rightarrow> if q = 0 then 50 else max 1 (min \<lfloor>q\<rfloor> 200)
     | _ \<Rightarrow> 50)"

definition get_list ::
  "sea_ext \<Rightarrow> string option \<Rightarrow> string option \<Rightarrow> string option \<Rightarrow> sea \<Rightarrow> intent_dto list result" where
  "get_list x address status limitStr s =
    (if blank address then Inl (BadRequest ''address required'')
     else listByOwner x (the address) status (nat (list_limit limitStr)) s)"

definition get_intent :: "sea_ext \<Rightarrow> string \<Rightarrow> sea \<Rightarrow> intent_dto result" where
  "get_intent x i s =
    (case findById (sx_decToString x) (sea_intents s) i of
       None \<Rightarrow> Inl (NotFound ''intent_not_found'') | Some intent \<Rightarrow> Inr intent)"

section \<open>The fresh quote\<close>

record preview =
  pv_marketId :: string
  pv_symbol :: string
  pv_side :: side
  pv_requestedBase :: string
  pv_remainingBase :: string
  pv_takerToken :: string
  pv_takerAmount :: string
  pv_takerFeeAmount :: string
  pv_takerTotalAmount :: string
  pv_levelCount :: int
  pv_triggerPriceTicks :: string

text \<open>\<open>ok: false\<close> with its reason, or \<open>ok: true\<close>, where nonce and proposal come together or not at all.\<close>

datatype fresh_reply = FreshNo string | FreshOk intent_dto preview "(string \<times> string) option"

definition preview_of :: "quote_res \<Rightarrow> int \<Rightarrow> preview" where
  "preview_of q triggerPriceTicks =
    \<lparr>pv_marketId = q_marketId q, pv_symbol = q_symbol q, pv_side = q_side q,
     pv_requestedBase = q_requestedBase q, pv_remainingBase = q_remainingBase q,
     pv_takerToken = q_takerToken q, pv_takerAmount = q_takerAmount q,
     pv_takerFeeAmount = q_takerFeeAmount q, pv_takerTotalAmount = q_takerTotalAmount q,
     pv_levelCount = int (length (q_fills q)), pv_triggerPriceTicks = big_to_string triggerPriceTicks\<rparr>"

text \<open>The nonce and the proposed end of the lock; an Invalid Date throws when it is printed.\<close>

definition lock_proposal :: "sea_ext \<Rightarrow> int \<Rightarrow> intent_dto \<Rightarrow> (string \<times> string) option result" where
  "lock_proposal x now intent =
    (case (non_empty (dt_preparedQuoteAt intent), readSecret (sx_env x) ''SEA_LOCK_NONCE_SECRET'') of
       (Some pqIso, Some secret) \<Rightarrow>
         (case sx_dateParse x pqIso of
            None \<Rightarrow> Inl RangeError
          | Some pqMs \<Rightarrow>
              (let lockNonce = issueLockNonce (sx_hmac x) secret
                     \<lparr>nc_intentId = dt_id intent, nc_owner = dt_owner intent,
                      nc_preparedQuoteAt = pqMs, nc_chainId = getChainIdFromEnv (sx_env x)\<rparr>
               in if lockNonce = [] then Inr None
                  else case sx_dateParse x (dt_expiresAt intent) of
                    None \<Rightarrow> Inl RangeError
                  | Some expiresAtMs \<Rightarrow> Inr (Some (lockNonce,
                      toISOString (min (now + getWalletLockSecs (sx_env x) * 1000) expiresAtMs)))))
     | _ \<Rightarrow> Inr None)"

text \<open>From the guarded preview on: liquidity, notional, the single fill, and the answer.\<close>

definition fresh_from_quote ::
  "sea_ext \<Rightarrow> int \<Rightarrow> intent_dto \<Rightarrow> trading_ctx \<Rightarrow> int \<Rightarrow> quote_res \<Rightarrow> fresh_reply result" where
  "fresh_from_quote x now intent ctx triggerPriceTicks q =
    bind_res (str_to_bigint (q_remainingBase q)) (\<lambda>remainingBase.
      if remainingBase > 0 then Inr (FreshNo ''insufficient_liquidity'')
      else if computeQuoteNotionalQ (q_fills q) (ctx_priceTickQ ctx) (ctx_baseDecimals ctx) < ctx_minNotionalQ ctx
      then Inr (FreshNo ''notional_below_min_notional'')
      else if length (q_fills q) \<noteq> 1 then Inr (FreshNo ''requires_single_fill'')
      else bind_res (lock_proposal x now intent) (\<lambda>lock.
        Inr (FreshOk intent (preview_of q triggerPriceTicks) lock)))"

definition fresh_quote_book ::
  "sea_ext \<Rightarrow> int \<Rightarrow> intent_dto \<Rightarrow> trading_ctx \<Rightarrow> int \<Rightarrow> engine \<Rightarrow> fresh_reply result \<times> engine" where
  "fresh_quote_book x now intent ctx triggerPriceTicks e =
    (case str_to_bigint (dt_sizeBase intent) of
       Inl ex \<Rightarrow> (Inr (FreshNo ''insufficient_liquidity''), e)
     | Inr sizeBase \<Rightarrow>
         (case quote (TAKER_FEE_BPS (sx_env x)) (ctx_symbol ctx) (dt_side intent) sizeBase
                (Some triggerPriceTicks) e of
            (Inl ex, e1) \<Rightarrow> (Inr (FreshNo ''insufficient_liquidity''), e1)
          | (Inr q, e1) \<Rightarrow> (fresh_from_quote x now intent ctx triggerPriceTicks q, e1)))"

text \<open>The trigger against the top of the book, then the preview.\<close>

definition fresh_trigger ::
  "sea_ext \<Rightarrow> int \<Rightarrow> intent_dto \<Rightarrow> trading_ctx \<Rightarrow> engine \<Rightarrow> fresh_reply result \<times> engine" where
  "fresh_trigger x now intent ctx e =
    (case str_to_bigint (dt_triggerPriceTicks intent) of
       Inl ex \<Rightarrow> (Inl ex, e)
     | Inr triggerPriceTicks \<Rightarrow>
         (case readReferenceTicks (ctx_symbol ctx) (dt_triggerReference intent) e of
            Inl ex \<Rightarrow> (Inl ex, e)
          | Inr None \<Rightarrow> (Inr (FreshNo ''trigger_no_longer_satisfied''), e)
          | Inr (Some refTicks) \<Rightarrow>
              if \<not> triggerSatisfied (dt_triggerType intent) refTicks triggerPriceTicks
              then (Inr (FreshNo ''trigger_no_longer_satisfied''), e)
              else fresh_quote_book x now intent ctx triggerPriceTicks e))"

definition quote_stale :: "sea_ext \<Rightarrow> int \<Rightarrow> intent_dto \<Rightarrow> bool" where
  "quote_stale x now intent \<longleftrightarrow>
    (case non_empty (dt_preparedQuoteAt intent) of
       None \<Rightarrow> True
     | Some pqIso \<Rightarrow> date_ms x pqIso = Fin 0 \<or>
         after now (num_add (date_ms x pqIso) (readTtlSecFromSnapshot (dt_preparedQuote intent) * 1000)))"

definition freshQuote :: "sea_ext \<Rightarrow> int \<Rightarrow> string \<Rightarrow> sea \<Rightarrow> fresh_reply result \<times> sea" where
  "freshQuote x now i s =
    (case findById (sx_decToString x) (sea_intents s) i of
       None \<Rightarrow> (Inr (FreshNo ''intent_not_found''), s)
     | Some intent \<Rightarrow>
         if dt_status intent \<noteq> S_READY \<or> dt_type intent \<noteq> T_CONDITIONAL_MARKET_READY
         then (Inr (FreshNo (''intent_not_ready:'' @ status_str (dt_status intent))), s)
         else if after now (date_ms x (dt_expiresAt intent)) then (Inr (FreshNo ''intent_expired''), s)
         else if quote_stale x now intent then (Inr (FreshNo ''ready_ttl_expired''), s)
         else (case getTradingContext (sea_db s) (dt_marketId intent) of
             Inl ex \<Rightarrow> (Inl ex, s)
           | Inr ctx \<Rightarrow> on_engine (fresh_trigger x now intent ctx) s))"


section \<open>What the fresh quote promises\<close>

text \<open>The end of the lock the controller proposes.\<close>

definition proposed_until :: "sea_ext \<Rightarrow> int \<Rightarrow> intent_row \<Rightarrow> int" where
  "proposed_until x now r = min (now + getWalletLockSecs (sx_env x) * 1000) (it_expiresAt r)"

lemma fresh_okD:
  assumes "fresh_trigger x now intent ctx e = (Inr (FreshOk d pv lk), e')"
  shows "d = intent \<and> lock_proposal x now intent = Inr lk"
  using assms by (auto simp: fresh_trigger_def fresh_quote_book_def fresh_from_quote_def
      split: sum.splits option.splits if_splits prod.splits)

lemma fresh_quote_sound:
  assumes "freshQuote x now i s = (Inr (FreshOk d pv (Some (nonce, untilIso))), s')"
    and "intent_at (sea_intents s) i = Some r" and "dates_ok x" and "row_dates_ok r"
  obtains ns pq where "readSecret (sx_env x) ''SEA_LOCK_NONCE_SECRET'' = Some ns"
    "it_preparedQuoteAt r = Some pq" "it_status r = S_READY" "it_type r = T_CONDITIONAL_MARKET_READY"
    "now \<le> it_expiresAt r" "now \<le> pq + readTtlSecFromSnapshot (it_preparedQuote r) * 1000"
    "nonce = row_nonce x ns r pq" "nonce \<noteq> []" "untilIso = toISOString (proposed_until x now r)"
proof -
  let ?d = "serializeIntent (sx_decToString x) r"
  have ex: "sx_dateParse x (toISOString (it_expiresAt r)) = Some (it_expiresAt r)"
    using assms(4) dates_okD [OF assms(3)] by (simp add: row_dates_ok_def)
  have f: "it_status r = S_READY" "it_type r = T_CONDITIONAL_MARKET_READY" "now \<le> it_expiresAt r"
    "\<not> quote_stale x now ?d" and
    t: "\<exists>ctx. fst (fresh_trigger x now ?d ctx (sea_engine s)) = Inr (FreshOk d pv (Some (nonce, untilIso)))"
    using assms(1) ex by (auto simp: freshQuote_def findById_row assms(2) date_ms_def on_engine_eq
        simp del: of_int_add of_int_mult split: if_splits sum.splits)
  obtain pq where pq: "it_preparedQuoteAt r = Some pq"
    using f(4) by (cases "it_preparedQuoteAt r") (auto simp: quote_stale_def)
  have pd: "sx_dateParse x (toISOString pq) = Some pq"
    using assms(4) dates_okD [OF assms(3)] pq by (simp add: row_dates_ok_def opt_all_def)
  have "now \<le> pq + readTtlSecFromSnapshot (it_preparedQuote r) * 1000"
    using f(4) by (simp add: quote_stale_def pq pd date_ms_def del: of_int_add of_int_mult)
  moreover obtain ctx where "fst (fresh_trigger x now ?d ctx (sea_engine s)) = Inr (FreshOk d pv (Some (nonce, untilIso)))"
    using t by blast
  then have "lock_proposal x now ?d = Inr (Some (nonce, untilIso))"
    using fresh_okD [of x now ?d ctx "sea_engine s" d pv "Some (nonce, untilIso)"] by (metis prod.collapse)
  then obtain ns where "readSecret (sx_env x) ''SEA_LOCK_NONCE_SECRET'' = Some ns" "nonce = row_nonce x ns r pq" "nonce \<noteq> []"
    "untilIso = toISOString (proposed_until x now r)"
    by (auto simp: lock_proposal_def pq pd ex row_nonce_def proposed_until_def Let_def split: option.splits if_splits)
  ultimately show ?thesis using that f pq by blast
qed

section \<open>From the fresh quote to the execution\<close>

lemma lock_decide_complete:
  assumes "dates_ok x" and "row_dates_ok r" and "iso_range until"
    and "requireSecret (sx_env x) ''SEA_LOCK_NONCE_SECRET'' = Inr ns"
    and "requireSecret (sx_env x) ''SEA_EXECUTION_TOKEN_SECRET'' = Inr sec"
    and "lockable x now r pq until" and "now < it_expiresAt r" and "live_lock now r = None"
    and "body = \<lparr>lb_signature = sig, lb_lockNonce = row_nonce x ns r pq, lb_walletLockUntilAt = toISOString until\<rparr>"
    and "verifyWalletLockAuth x (it_id r) (it_owner r) (getChainIdFromEnv (sx_env x)) (row_nonce x ns r pq)
      (toISOString until) sig = Inr ()"
  shows "\<exists>tk. lock_decide x now body (serializeIntent ts r) = Inr (LockWrite pq until tk sec) \<and>
    issueExecutionToken (sx_hmac x) sec tk = row_token x ns sec r pq until"
proof -
  have l: "it_preparedQuoteAt r = Some pq" "it_status r = S_READY" "it_type r = T_CONDITIONAL_MARKET_READY"
    "now \<le> pq + readTtlSecFromSnapshot (it_preparedQuote r) * 1000" "now < until" "until \<le> it_expiresAt r"
    "until \<le> now + (getWalletLockSecs (sx_env x) + WALLET_LOCK_SKEW_GRACE_SEC) * 1000"
    using assms(6) by (auto simp: lockable_def)
  have d: "date_ms x (toISOString (it_expiresAt r)) = num (it_expiresAt r)" "sx_dateParse x (toISOString until) = Some until"
    "date_ms x (toISOString pq) = num pq" "sx_dateParse x (toISOString pq) = Some pq"
    using assms(2,3) dates_okD [OF assms(1)] l(1) by (simp_all add: date_ms_def row_dates_ok_def opt_all_def)
  have n: "verifyLockNonce (sx_hmac x) ns (row_nonce x ns r pq)
      \<lparr>nc_intentId = it_id r, nc_owner = it_owner r, nc_preparedQuoteAt = pq,
       nc_chainId = getChainIdFromEnv (sx_env x)\<rparr> = Inr True"
    by (simp add: verifyLockNonce_def row_nonce_def)
  have w: "lock_window_ok x now (num (it_expiresAt r)) (toISOString until) = Some until"
    using l(5-7) by (simp add: lock_window_ok_def d)
  show ?thesis
    using l assms(4,5,7-10) n w
    by (simp add: lock_decide_def d lock_existing_row [OF assms(1,2)] Let_def row_token_def
        del: of_int_add of_int_mult)
qed

lemma lockWallet_complete:
  assumes "lock_decide x now body (serializeIntent (sx_decToString x) r) = Inr (LockWrite pq until tk sec)"
    and "intent_at (sea_intents s) i = Some r" and "ids_ok (sea_intents s)"
    and "it_status r = S_READY" and "it_preparedQuoteAt r = Some pq"
  shows "\<exists>s'. lockWallet x now (\<lambda>s. s) i body s = (Inr (toISOString until, issueExecutionToken (sx_hmac x) sec tk), s') \<and>
    ids_ok (sea_intents s') \<and>
    intent_at (sea_intents s') i = Some (r\<lparr>it_walletLockUntilAt := Some until, it_updatedAt := now\<rparr>)"
proof -
  let ?w = "lockWalletFromReady now i pq until (sea_intents s)"
  have i: "it_id r = i" using assms(2) intent_at_id by blast
  have "fst ?w" "ids_ok (snd ?w)"
    "intent_at (snd ?w) i = Some (r\<lparr>it_walletLockUntilAt := Some until, it_updatedAt := now\<rparr>)"
    using assms(2-5) by (simp_all add: lockWalletFromReady_def update_intent_hit update_intent_ids intent_at_update)
  then show ?thesis
    by (simp add: lockWallet_def findById_row assms(1,2) i on_intents_eq)
qed

lemma lockWallet_ids:
  assumes "lockWallet x now (\<lambda>s. s) i body s = (Inr (u, tok), s')"
  shows "ids_ok (sea_intents s') = ids_ok (sea_intents s)"
  using assms by (rule lockWallet_cases) (simp_all add: lockWalletFromReady_def update_intent_ids)

lemma mark_decide_complete:
  assumes "dates_ok x" and "row_dates_ok r" and "it_status r = S_READY"
    and "presents_token x now r (xb_executionToken body)"
  shows "mark_decide x now body (serializeIntent ts r) = Inr True"
proof -
  obtain ns sec pq w where p: "requireSecret (sx_env x) ''SEA_LOCK_NONCE_SECRET'' = Inr ns"
    "requireSecret (sx_env x) ''SEA_EXECUTION_TOKEN_SECRET'' = Inr sec"
    "it_preparedQuoteAt r = Some pq" "it_walletLockUntilAt r = Some w"
    "now \<le> w + CMR_EXECUTING_MARK_GRACE_SEC * 1000" "xb_executionToken body = row_token x ns sec r pq w"
    using assms(4) by (auto simp: presents_token_def)
  have d: "date_ms x (toISOString w) = num w" "sx_dateParse x (toISOString w) = Some w"
    "sx_dateParse x (toISOString pq) = Some pq"
    using assms(2) p dates_okD [OF assms(1)] by (simp_all add: date_ms_def row_dates_ok_def opt_all_def)
  show ?thesis
    using p assms(3) by (auto simp: mark_decide_def d Let_def verifyExecutionToken_def row_token_def row_nonce_def
        TERM_STATES_def simp del: of_int_add of_int_mult)
qed


text \<open>The owner's answer to a fresh quote: the lock request that returns nonce and proposal, signed.\<close>

definition signed_lock :: "string \<Rightarrow> string \<Rightarrow> string \<Rightarrow> lock_body" where
  "signed_lock sig nonce untilIso = \<lparr>lb_signature = sig, lb_lockNonce = nonce, lb_walletLockUntilAt = untilIso\<rparr>"

lemma getWalletLockSecs_pos: "0 < getWalletLockSecs pe"
  using getWalletLockSecs_bounds [of pe] by simp

lemma locked_after_fresh:
  assumes fq: "freshQuote x t0 i s = (Inr (FreshOk d pv (Some (nonce, untilIso))), s0)"
    and r: "intent_at (sea_intents s) i = Some r" "dates_ok x" "row_dates_ok r" "iso_range (proposed_until x t0 r)"
    and sec: "requireSecret (sx_env x) ''SEA_EXECUTION_TOKEN_SECRET'' = Inr sec"
    and later: "intent_at (sea_intents s1) i = Some r" "ids_ok (sea_intents s1)" "live_lock t1 r = None"
    and t1: "t0 \<le> t1" "t1 < proposed_until x t0 r" "\<not> quote_stale x t1 (serializeIntent (sx_decToString x) r)"
    and sig: "verifyWalletLockAuth x i (it_owner r) (getChainIdFromEnv (sx_env x)) nonce untilIso sg = Inr ()"
  obtains ns pq s2 where "requireSecret (sx_env x) ''SEA_LOCK_NONCE_SECRET'' = Inr ns"
    "it_preparedQuoteAt r = Some pq" "it_status r = S_READY"
    "lockWallet x t1 (\<lambda>s. s) i (signed_lock sg nonce untilIso) s1 =
       (Inr (untilIso, row_token x ns sec r pq (proposed_until x t0 r)), s2)"
    "ids_ok (sea_intents s2)"
    "intent_at (sea_intents s2) i = Some (r\<lparr>it_walletLockUntilAt := Some (proposed_until x t0 r), it_updatedAt := t1\<rparr>)"
proof -
  let ?u = "proposed_until x t0 r"
  obtain ns pq where f: "readSecret (sx_env x) ''SEA_LOCK_NONCE_SECRET'' = Some ns"
    "it_preparedQuoteAt r = Some pq" "it_status r = S_READY" "it_type r = T_CONDITIONAL_MARKET_READY"
    "nonce = row_nonce x ns r pq" "untilIso = toISOString ?u"
    by (rule fresh_quote_sound [OF fq r(1-3)])
  have ns: "requireSecret (sx_env x) ''SEA_LOCK_NONCE_SECRET'' = Inr ns" by (simp add: requireSecret_def f(1))
  have pd: "sx_dateParse x (toISOString pq) = Some pq"
    using r(3) dates_okD [OF r(2)] f(2) by (simp add: row_dates_ok_def opt_all_def)
  have ttl: "t1 \<le> pq + readTtlSecFromSnapshot (it_preparedQuote r) * 1000"
    using t1(3) by (simp add: quote_stale_def f(2) pd date_ms_def del: of_int_add of_int_mult)
  have b: "?u \<le> it_expiresAt r" "?u \<le> t0 + getWalletLockSecs (sx_env x) * 1000"
    by (simp_all add: proposed_until_def)
  then have lk: "lockable x t1 r pq ?u"
    using f ttl t1(1,2) by (simp add: lockable_def WALLET_LOCK_SKEW_GRACE_SEC_def algebra_simps)
  have id: "it_id r = i" using r(1) intent_at_id by blast
  obtain tk where tk: "lock_decide x t1 (signed_lock sg nonce untilIso) (serializeIntent (sx_decToString x) r) =
      Inr (LockWrite pq ?u tk sec)" "issueExecutionToken (sx_hmac x) sec tk = row_token x ns sec r pq ?u"
    using lock_decide_complete [OF r(2,3,4) ns sec lk _ later(3), of "signed_lock sg nonce untilIso" sg "sx_decToString x"] b t1(2) sig
    by (auto simp: signed_lock_def f id)
  from lockWallet_complete [OF tk(1) later(1,2) f(3,2)] tk(2) f that ns show ?thesis by metis
qed

text \<open>
  C24. A quote the controller calls fresh can be executed by the owner. When \<open>fresh-quote\<close> answers
  \<open>ok\<close> with a nonce and a proposed lock, the owner's signature over exactly these makes
  \<open>wallet-lock\<close> succeed at any later time before the proposed end at which the quote is not
  stale, as long as the row has not changed and carries no live lock; the lock ends when
  proposed. And the token it returns makes \<open>executing\<close> succeed, at any time until 45 seconds
  after that end at which the row still holds the lock: the intent is then \<open>EXECUTING\<close>,
  \<open>EXECUTED\<close> or \<open>FAILED\<close>, and linked to the transaction.
\<close>

theorem fresh_quote_leads_to_execution:
  assumes "freshQuote x t0 i s = (Inr (FreshOk d pv (Some (nonce, untilIso))), s0)"
    and "intent_at (sea_intents s) i = Some r" and "dates_ok x" and "row_dates_ok r"
    and "iso_range (proposed_until x t0 r)"
    and "requireSecret (sx_env x) ''SEA_EXECUTION_TOKEN_SECRET'' = Inr sec"
    and "intent_at (sea_intents s1) i = Some r" and "ids_ok (sea_intents s1)" and "live_lock t1 r = None"
    and "t0 \<le> t1" and "t1 < proposed_until x t0 r"
    and "\<not> quote_stale x t1 (serializeIntent (sx_decToString x) r)"
    and "verifyWalletLockAuth x i (it_owner r) (getChainIdFromEnv (sx_env x)) nonce untilIso sg = Inr ()"
  shows "\<exists>token s2 r2. untilIso = toISOString (proposed_until x t0 r) \<and>
    lockWallet x t1 (\<lambda>s. s) i (signed_lock sg nonce untilIso) s1 = (Inr (untilIso, token), s2) \<and>
    intent_at (sea_intents s2) i = Some r2 \<and> it_walletLockUntilAt r2 = Some (proposed_until x t0 r) \<and>
    (\<forall>s3 t2 h. intent_at (sea_intents s3) i = Some r2 \<and> ids_ok (sea_intents s3) \<and>
        t2 \<le> proposed_until x t0 r + 45000 \<longrightarrow>
      (\<exists>u s4 r4. markExecuting x t2 (\<lambda>s. s) i \<lparr>xb_txHash = h, xb_executionToken = token\<rparr> s3 = (Inr u, s4) \<and>
        intent_at (sea_intents s4) i = Some r4 \<and> it_status r4 \<in> {S_EXECUTING, S_EXECUTED, S_FAILED} \<and>
        it_linkedTxHash r4 = Some (to_lower h)))"
proof -
  let ?u = "proposed_until x t0 r"
  obtain ns pq s2 where l: "requireSecret (sx_env x) ''SEA_LOCK_NONCE_SECRET'' = Inr ns"
    "it_preparedQuoteAt r = Some pq" "it_status r = S_READY"
    "lockWallet x t1 (\<lambda>s. s) i (signed_lock sg nonce untilIso) s1 = (Inr (untilIso, row_token x ns sec r pq ?u), s2)"
    "ids_ok (sea_intents s2)"
    "intent_at (sea_intents s2) i = Some (r\<lparr>it_walletLockUntilAt := Some ?u, it_updatedAt := t1\<rparr>)"
    by (rule locked_after_fresh [OF assms])
  let ?r2 = "r\<lparr>it_walletLockUntilAt := Some ?u, it_updatedAt := t1\<rparr>"
  have u: "untilIso = toISOString ?u" by (rule fresh_quote_sound [OF assms(1-4)])
  have d2: "row_dates_ok ?r2" using assms(4,5) by (simp add: row_dates_ok_def opt_all_def)
  have "\<exists>v s4 r4. markExecuting x t2 (\<lambda>s. s) i \<lparr>xb_txHash = h, xb_executionToken = row_token x ns sec r pq ?u\<rparr> s3 = (Inr v, s4) \<and>
      intent_at (sea_intents s4) i = Some r4 \<and> it_status r4 \<in> {S_EXECUTING, S_EXECUTED, S_FAILED} \<and>
      it_linkedTxHash r4 = Some (to_lower h)"
    if s3: "intent_at (sea_intents s3) i = Some ?r2" "ids_ok (sea_intents s3)" "t2 \<le> ?u + 45000" for s3 t2 h
  proof -
    let ?b = "\<lparr>xb_txHash = h, xb_executionToken = row_token x ns sec r pq ?u\<rparr>"
    have "presents_token x t2 ?r2 (xb_executionToken ?b)"
      using l(1,2) assms(6) s3(3) by (simp add: presents_token_def row_token_def row_nonce_def CMR_EXECUTING_MARK_GRACE_SEC_def)
    then have go: "mark_decide x t2 ?b (serializeIntent (sx_decToString x) ?r2) = Inr True"
      using l(3) by (intro mark_decide_complete assms(3) d2) simp_all
    obtain st reason s4 where m: "st \<in> set TERM_STATES"
      "markExecuting x t2 (\<lambda>s. s) i ?b s3 =
        (Inr (serializeIntent (sx_decToString x) (marked_row ?r2 st (to_lower (xb_txHash ?b)) t2 reason)), s4)"
      "intent_at (sea_intents s4) i = Some (marked_row ?r2 st (to_lower (xb_txHash ?b)) t2 reason)"
      by (rule mark_outcome [OF s3(1,2) _ go]) (simp add: l(3))
    have "it_status (marked_row ?r2 st g t2 reason) = st" "it_linkedTxHash (marked_row ?r2 st g t2 reason) = Some (to_lower g)" for g
      by (simp_all add: marked_row_def split: option.split)
    with m show ?thesis by (auto simp: TERM_STATES_def)
  qed
  with l(4,6) u show ?thesis by (intro exI conjI; (assumption | simp)?) auto
qed


section \<open>A sample execution\<close>

definition sample_fresh :: sea where
  "sample_fresh = sea_sample\<lparr>sea_engine := sample_engine, sea_intents := [sample_quoted]\<rparr>"

lemma sample_fresh_runs:
  "(case fst (freshQuote sample_sx 20000 ''i1'' sample_fresh) of Inr (FreshOk d pv (Some _)) \<Rightarrow> pv_levelCount pv = 1 | _ \<Rightarrow> False)"
  by code_simp

lemma sample_fresh_row:
  "intent_at (sea_intents sample_fresh) ''i1'' = Some sample_quoted" "ids_ok (sea_intents sample_fresh)"
  by code_simp+

lemma sample_fresh_times:
  "iso_range (proposed_until sample_sx 20000 sample_quoted)" "live_lock 21000 sample_quoted = None"
  "(20000::int) \<le> 21000" "21000 < proposed_until sample_sx 20000 sample_quoted"
  "\<not> quote_stale sample_sx 21000 (serializeIntent (sx_decToString sample_sx) sample_quoted)"
  "requireSecret (sx_env sample_sx) ''SEA_EXECUTION_TOKEN_SECRET'' = Inr ''fedcba9876543210''"
  by code_simp+

lemma sample_owner_signs:
  "verifyWalletLockAuth sample_sx ''i1'' (it_owner sample_quoted) c n u sg = Inr ()"
  by (simp add: verifyWalletLockAuth_def verify_owner_message_def sample_sx_def sample_zx_def sample_quoted_def dev_skip_def)

theorem fresh_quote_leads_to_execution_witness:
  "\<exists>nonce token s2 u s4. lockWallet sample_sx 21000 (\<lambda>s. s) ''i1''
       (signed_lock ''0x00'' nonce (toISOString (proposed_until sample_sx 20000 sample_quoted))) sample_fresh =
       (Inr (toISOString (proposed_until sample_sx 20000 sample_quoted), token), s2) \<and>
     markExecuting sample_sx 30000 (\<lambda>s. s) ''i1'' \<lparr>xb_txHash = ''0xAB'', xb_executionToken = token\<rparr> s2 = (Inr u, s4)"
proof -
  obtain d pv n un s0 where f: "freshQuote sample_sx 20000 ''i1'' sample_fresh = (Inr (FreshOk d pv (Some (n, un))), s0)"
    using sample_fresh_runs
    by (cases "freshQuote sample_sx 20000 ''i1'' sample_fresh") (auto split: sum.splits fresh_reply.splits option.splits)
  obtain token s2 r2 where l: "un = toISOString (proposed_until sample_sx 20000 sample_quoted)"
    "lockWallet sample_sx 21000 (\<lambda>s. s) ''i1'' (signed_lock ''0x00'' n un) sample_fresh = (Inr (un, token), s2)"
    "intent_at (sea_intents s2) ''i1'' = Some r2"
    and m: "\<forall>s3 t2 h. intent_at (sea_intents s3) ''i1'' = Some r2 \<and> ids_ok (sea_intents s3) \<and>
        t2 \<le> proposed_until sample_sx 20000 sample_quoted + 45000 \<longrightarrow>
      (\<exists>u s4 r4. markExecuting sample_sx t2 (\<lambda>s. s) ''i1'' \<lparr>xb_txHash = h, xb_executionToken = token\<rparr> s3 = (Inr u, s4) \<and>
        intent_at (sea_intents s4) ''i1'' = Some r4 \<and> it_status r4 \<in> {S_EXECUTING, S_EXECUTED, S_FAILED} \<and>
        it_linkedTxHash r4 = Some (to_lower h))"
    using fresh_quote_leads_to_execution [OF f sample_fresh_row(1) sample_dates(1,2) sample_fresh_times(1,6)
        sample_fresh_row sample_fresh_times(2-5) sample_owner_signs, of "''0x00''"] by (elim exE conjE) rule
  have "ids_ok (sea_intents s2)"
    using l(2,3) lockWallet_ids [OF l(2)] sample_fresh_row(2) by simp
  moreover have "30000 \<le> proposed_until sample_sx 20000 sample_quoted + 45000" by code_simp
  ultimately obtain u s4 where
    "markExecuting sample_sx 30000 (\<lambda>s. s) ''i1'' \<lparr>xb_txHash = ''0xAB'', xb_executionToken = token\<rparr> s2 = (Inr u, s4)"
    using m [rule_format, of s2 30000 "''0xAB''"] l(3) by auto
  with l(1,2) show ?thesis by blast
qed

end
