(* ===== verification/System.thy ===== *)
theory System
  imports Rehydrate DelegatedProps PairCancel MonitorProps SweeperProps SeaController CreateToFire
begin

text \<open>
  The whole backend: every handler, watcher, sweeper and worker of the API as one relation on the
  state, with anything again running inside the ones that wait, and the properties of its runs; and
  the properties of the delegated executor applied to a sample grant.
\<close>

section \<open>Everything that may run\<close>

text \<open>
  \<open>env\<close> is what runs while an operation waits: another operation of the system, also on the part of
  the state the watchers and the executor share with it.
\<close>

inductive system_op :: "sea_ext \<Rightarrow> (sea \<Rightarrow> sea) \<Rightarrow> bool" for x where
  idle: "system_op x (\<lambda>s. s)"
| in_turn: "system_op x f \<Longrightarrow> system_op x g \<Longrightarrow> system_op x (\<lambda>s. g (f s))"
| create: "system_op x (\<lambda>s. snd (create_handler x now i body s))"
| cancel: "system_op x env \<Longrightarrow> system_op x (\<lambda>s. snd (cancel_handler x now env i sg s))"
| fresh: "system_op x (\<lambda>s. snd (freshQuote x now i s))"
| lock: "system_op x env \<Longrightarrow> system_op x (\<lambda>s. snd (lockWallet x now env i lb s))"
| mark: "system_op x env \<Longrightarrow> system_op x (\<lambda>s. snd (markExecuting x now env i xb s))"
| monitor: "system_op x (\<lambda>s. snd (monitor_tick x now cfg s))"
| expiry: "system_op x (\<lambda>s. snd (expiry_sweeper_tick now sc s))"
| stale: "system_op x (\<lambda>s. snd (executing_sweeper_tick now sc s))"
| fills: "system_op x env \<Longrightarrow> system_op x (\<lambda>s. fs_sea (snd (snd
    (fill_tick fx wc env b head fetch now (w, \<lparr>fs_seen = seen, fs_sea = s\<rparr>)))))"
| cancels: "system_op x env \<Longrightarrow> system_op x (\<lambda>s. snd (snd (cancel_tick cx wc env b head fetch now (w, s))))"
| delegated: "(\<And>p e. \<exists>f. system_op x f \<and> de_sea (env p e) = f (de_sea e)) \<Longrightarrow>
    system_op x (\<lambda>s. de_sea (snd (exec_tick dx dc env now k \<lparr>de_sea = s, de_grants = gs, de_attempts = as\<rparr>)))"
| book: "request_ok rq \<Longrightarrow> system_op x (\<lambda>s. s\<lparr>sea_engine := serve fb now rq (sea_engine s)\<rparr>)"
| restart: "system_op x (\<lambda>s. s\<lparr>sea_engine := snd (rehydrate pe clock ((sea_engine s)\<lparr>eng_books := []\<rparr>))\<rparr>)"
| post: "system_op x (\<lambda>s. s\<lparr>sea_engine := snd (place_order (sx_env x) (sx_chain x) now pq (sea_engine s))\<rparr>)"

lemma fresh_refined: "refined s (snd (freshQuote x now i s))"
proof -
  have "keeps_engine e (snd (fresh_trigger x now intent ctx e))" for intent ctx e
    using quote_keeps
    by (simp add: fresh_trigger_def fresh_quote_book_def case_prod_unfold split: sum.split option.split)
  then have "refined s (snd (on_engine (fresh_trigger x now intent ctx) s))" for intent ctx
    by (rule on_engine_refined)
  then show ?thesis by (simp add: freshQuote_def split: option.split sum.split)
qed

lemma rehydrate_row_keeps: "0 \<le> pc_remaining r \<Longrightarrow> keeps_engine e (snd (rehydrate_row clock k r n e))"
proof -
  assume pos: "0 \<le> pc_remaining r"
  have h: "keeps_engine e (hydrateLevel t k p e)" if "0 \<le> hy_sizeBase p" for t p
    using that by (simp add: keeps_engine_def engine_wf_hydrate)
  have a: "keeps_engine e1 (snd (attachRaw k h' ord sig e1))" for h' ord sig e1
    using attachRaw_engine [of e1 k h' ord sig] by (auto simp: keeps_engine_def)
  show ?thesis
    using h [of "\<lparr>hy_hash = pc_hash r, hy_maker = pc_maker r, hy_side = pc_side r,
        hy_priceTicks = pc_priceTicks r, hy_sizeBase = pc_remaining r, hy_expirySec = None\<rparr>"]
      keeps_engine_trans [OF h a] pos
    by (auto simp: rehydrate_row_def Let_def case_prod_unfold split: option.split sum.split)
qed

lemma rehydrate_rows_keeps:
  "\<forall>r \<in> set rs. 0 \<le> pc_remaining r \<Longrightarrow> keeps_engine e (snd (rehydrate_rows clock k rs n e))"
proof (induction rs arbitrary: n e)
  case (Cons r rs)
  obtain q e1 where p: "rehydrate_row clock k r n e = (q, e1)" by fastforce
  have 1: "keeps_engine e e1" using rehydrate_row_keeps [of r e clock k n] Cons.prems p by simp
  have "keeps_engine e1 (snd (rehydrate_rows clock k rs (n + 1) e1))" using Cons by simp
  from keeps_engine_trans [OF 1 this] 1 show ?case by (simp add: p split: sum.split)
qed simp

lemma rehydrate_markets_keeps: "keeps_engine e (snd (rehydrate_markets clock ms n e))"
proof (induction ms arbitrary: n e)
  case (Cons m ms)
  obtain q e1 where p: "rehydrate_rows clock (mb_symbol m) (listPlacedBySymbol (eng_db e) (mb_symbol m)) n e = (q, e1)"
    by fastforce
  have 1: "keeps_engine e e1"
    using rehydrate_rows_keeps [of "listPlacedBySymbol (eng_db e) (mb_symbol m)" e clock "mb_symbol m" n]
      placed_core_nonneg p by fastforce
  from keeps_engine_trans [OF 1 Cons.IH] 1 show ?case by (simp add: p split: sum.split)
qed simp

lemma restart_keeps: "keeps_engine e (snd (rehydrate pe clock (e\<lparr>eng_books := []\<rparr>)))"
proof -
  have 1: "keeps_engine e (e\<lparr>eng_books := []\<rparr>)"
    by (simp add: keeps_engine_def engine_wf_def engine_ok_def)
  from 1 keeps_engine_trans [OF 1 rehydrate_markets_keeps] show ?thesis
    by (simp add: rehydrate_def split: sum.split prod.split) (metis snd_conv)
qed

lemma system_op_refined: "system_op x f \<Longrightarrow> crypto_named (sx_zx x) \<Longrightarrow> refined s (f s)"
proof (induction arbitrary: s rule: system_op.induct)
  case (in_turn f g)
  then show ?case using refined_trans by blast
next
  case (fills env fx wc b head fetch now w seen)
  then show ?case
    using fill_tick_refined [where env = env and d = "\<lparr>fs_seen = seen, fs_sea = s\<rparr>"] by simp
next
  case (cancels env cx wc b head fetch now w)
  then show ?case using cancel_tick_refined [where env = env] by blast
next
  case (delegated env dx dc now k gs as)
  have "refined (de_sea e) (de_sea (env p e))" for p e
    using delegated by metis
  then show ?case
    using exec_tick_refined [where env = env and d = "\<lparr>de_sea = s, de_grants = gs, de_attempts = as\<rparr>"] by simp
qed (auto simp: create_refined cancel_refined lock_refined mark_refined monitor_refined expiry_sweep_refined
  stale_sweep_refined fresh_refined serve_keeps place_order_keeps restart_keeps intro!: refined_engine)

lemma system_op_service: "system_op x f \<Longrightarrow> sea_service x f"
  by (simp add: sea_service_def system_op_refined)

text \<open>
  C2. Every run of the backend is a run of the abstract intent machine. Take any order of create,
  cancel, fresh-quote, wallet-lock and executing-marker requests, book requests and placements, restarts, ticks of the monitor,
  the two sweepers, the fill and cancel watchers and the delegated executor, with anything again running inside those that wait.
  From well-formed rows and books it moves the intents only by steps of the machine and ends in
  well-formed rows and books over the same markets; no intent disappears, its terms, trigger, expiry
  and pre-signed payload stay, its status moves along the graph of its type, and a terminal row is
  never changed again. The cryptographic primitives must not throw one of the service's own
  validation failures.
\<close>

theorem services_refine_lifecycle:
  assumes "system_op x f" and "crypto_named (sx_zx x)" and "sea_ok s"
  shows "intent_steps (sea_db s) (sea_intents s) (sea_intents (f s)) \<and> sea_ok (f s) \<and>
    d_markets (sea_db (f s)) = d_markets (sea_db s) \<and>
    (\<forall>i r. intent_at (sea_intents s) i = Some r \<longrightarrow>
      (\<exists>r'. intent_at (sea_intents (f s)) i = Some r' \<and> terms_of r' = terms_of r \<and> trigger_of r' = trigger_of r \<and>
        (status_step (it_type r))\<^sup>*\<^sup>* (it_status r) (it_status r') \<and> (terminal (it_status r) \<longrightarrow> r' = r)))"
proof -
  note srv = system_op_service [OF assms(1)]
  show ?thesis
    using sea_service.moves [OF srv assms(2,3)] sea_service.keeps_ok [OF srv assms(2,3)]
      sea_service.history [OF srv assms(2,3)] by metis
qed

theorem services_refine_lifecycle_witness:
  "\<exists>r'. intent_at (sea_intents (snd (monitor_tick sample_sx 20 sample_monitor sample_armed))) ''i2'' = Some r' \<and>
    (status_step T_CONDITIONAL_LIMIT)\<^sup>*\<^sup>* S_ACTIVE (it_status r')"
proof -
  obtain r where r: "intent_at (sea_intents sample_armed) ''i2'' = Some r" "it_status r = S_ACTIVE"
    using sample_armed_ok(3) by (auto simp: sample_cl_def)
  moreover have "map_option it_type (intent_at (sea_intents sample_armed) ''i2'') = Some T_CONDITIONAL_LIMIT" by code_simp
  ultimately have "it_type r = T_CONDITIONAL_LIMIT" by simp
  with services_refine_lifecycle [OF system_op.monitor sample_crypto sample_armed_sea_ok, of 20 sample_monitor] r
  show ?thesis by metis
qed

section \<open>A sample grant\<close>

definition deleg_penv :: penv where
  "deleg_penv k =
    (if k = ''PROFILE'' then Some ''sepolia'' else if k = ''SEA_DELEGATED_ENABLED'' then Some ''1''
     else if k = ''SEA_DELEGATED_EXEC_ENABLED'' then Some ''1''
     else if k = ''DELEGATION_SESSION_SIGNER_PK'' then Some ''0x01'' else None)"

definition deleg_hash :: string where
  "deleg_hash = ''0x'' @ replicate 64 CHR ''8''"

definition deleg_abi :: abi_ext where
  "deleg_abi =
    \<lparr>ab_fill = (\<lambda>o' sg n. Inr ''0xf6274f66''), ab_batchFill = (\<lambda>os sgs ns r. Inr ''0x1baaa00b''),
     ab_cancel = (\<lambda>o'. Inr ''0x7d49ec1a''), ab_cancelPair = (\<lambda>m t s. Inr ''0x9baa45a8'')\<rparr>"

definition deleg_sample_world :: deleg_world where
  "deleg_sample_world =
    \<lparr>dx_sea = sample_sx\<lparr>sx_env := deleg_penv\<rparr>, dx_sessionAddress = Inr (hex_addr CHR ''f''),
     dx_prepare = (\<lambda>a b c p k. Inr (Inl None)), dx_finalize = (\<lambda>a b c e. Inr (Inl None)),
     dx_revoke = (\<lambda>a b c e. Inr (Inl None)),
     dx_execute = (\<lambda>rq. Inr \<lparr>xs_ok = True, xs_txHash = Some deleg_hash, xs_confirmed = True, xs_reason = None\<rparr>),
     dx_abi = deleg_abi\<rparr>"

definition deleg_intent :: intent_row where
  "deleg_intent = sample_row\<lparr>it_status := S_READY, it_sizeBase := 40, it_triggerPriceTicks := 7\<rparr>"

definition deleg_grant_row :: grant_row where
  "deleg_grant_row =
    \<lparr>gr_id = ''g1'', gr_intentId = ''i1'', gr_owner = it_owner sample_row, gr_chainId = 11155111,
     gr_profile = P_ethereum_sepolia, gr_accountModel = EIP7702, gr_provider = MOCK,
     gr_sessionKeyRef = Some (hex_addr CHR ''f''), gr_permissionId = Some ''0x05'', gr_target = hex_addr CHR ''D'',
     gr_functionSelector = FILL_LIMIT_ORDER_SELECTOR, gr_spendToken = hex_addr CHR ''c'', gr_spendCapQ = 28,
     gr_usageLimit = 1, gr_validUntil = 4000000, gr_status = G_ACTIVE, gr_revokedAt = None,
     gr_meta = JObj [(''accountAddress'', JStr (hex_addr CHR ''e'')), (''enableData'', JStr ''0x06''),
       (''maxTakerFillAmountQ'', JStr ''28'')], gr_createdAt = 5, gr_updatedAt = 5\<rparr>"

definition deleg_state :: deleg where
  "deleg_state = \<lparr>de_sea = sea_sample\<lparr>sea_engine :=
       snd (attachRaw ''m1'' fill_hash fill_order (JStr (''0x'' @ replicate 130 CHR ''1'')) fill_engine),
     sea_intents := [deleg_intent]\<rparr>, de_grants = [deleg_grant_row], de_attempts = []\<rparr>"


definition deleg_cfg :: delegation_config where
  "deleg_cfg = (case resolveDelegationConfig deleg_penv of Inr c \<Rightarrow> c | Inl e \<Rightarrow>
     \<lparr>dc_profile = P_base_mainnet, dc_chainId = 0, dc_writable = False, dc_enabled = False, dc_execEnabled = False,
      dc_provider = MOCK, dc_accountModelDefault = EIP7702, dc_exchangeProxy = None, dc_allowanceSpender = None,
      dc_disabledReason = None\<rparr>)"

text \<open>A provider that refuses everything above the granted fill.\<close>

definition careful :: "exec_request \<Rightarrow> exec_result result" where
  "careful rq = (if xe_takerFillAmount (xr_expected rq) \<le> 28 then dx_execute deleg_sample_world rq else Inl TypeError)"

lemma deleg_decimals: "decimals_exact (dx_sea deleg_sample_world)"
  by (simp add: decimals_exact_def deleg_sample_world_def deleg_abi_def sample_sx_def)

lemma deleg_tick_runs:
  "map_option it_status (deleg_row (snd (exec_tick deleg_sample_world deleg_cfg (\<lambda>p d. d) 1000000 10 deleg_state)) ''i1'') =
    Some S_EXECUTED"
  by code_simp

theorem executor_stays_within_grants_witness:
  "map_option it_status (deleg_row (snd (exec_tick (deleg_sample_world\<lparr>dx_execute := careful\<rparr>) deleg_cfg
     (\<lambda>p d. d) 1000000 10 deleg_state)) ''i1'') = Some S_EXECUTED"
proof -
  have "stored_max deleg_grant_row = Inr 28" by code_simp
  then have c: "careful rq = dx_execute deleg_sample_world rq"
    if "g \<in> set (de_grants deleg_state)" "within_grant 1000000 r g rq" for r g rq
    using that by (simp add: deleg_state_def within_grant_def careful_def)
  have "exec_tick (deleg_sample_world\<lparr>dx_execute := careful\<rparr>) deleg_cfg (\<lambda>p d. d) 1000000 10 deleg_state =
      exec_tick deleg_sample_world deleg_cfg (\<lambda>p d. d) 1000000 10 deleg_state"
    by (rule executor_stays_within_grants [OF deleg_decimals]) (rule c)
  then show ?thesis by (simp only: deleg_tick_runs)
qed

lemma deleg_rows:
  "ids_ok (sea_intents (de_sea deleg_state))" "deleg_row deleg_state (it_id deleg_intent) = Some deleg_intent"
  "executable_intent 1000000 (it_id deleg_intent) deleg_intent"
  "deleg_grant deleg_state (gr_id deleg_grant_row) = Some deleg_grant_row"
proof -
  have "it_id deleg_intent = ''i1''" "it_type deleg_intent = T_CONDITIONAL_MARKET_READY"
    "it_linkedTxHash deleg_intent = None" "it_expiresAt deleg_intent = 5000000"
    by code_simp+
  then show "ids_ok (sea_intents (de_sea deleg_state))" "deleg_row deleg_state (it_id deleg_intent) = Some deleg_intent"
    "executable_intent 1000000 (it_id deleg_intent) deleg_intent"
    "deleg_grant deleg_state (gr_id deleg_grant_row) = Some deleg_grant_row"
    by (simp_all add: deleg_state_def ids_ok_def intent_at_def executable_intent_def deleg_intent_def)
qed

lemma deleg_plan_found:
  "(case fst (checked_request deleg_sample_world 1000000 deleg_intent deleg_grant_row (de_sea deleg_state)) of
     Inr (Inr rq) \<Rightarrow> xe_takerFillAmount (xr_expected rq) = 28 | _ \<Rightarrow> False)"
  by code_simp

theorem attempt_ends_as_answered_witness:
  "ended deleg_intent deleg_grant_row (S_EXECUTED, Some deleg_hash, Some G_USED, D_CONFIRMED)
    (snd (processOne deleg_sample_world (\<lambda>p d. d) 1000000 (deleg_intent, deleg_grant_row) deleg_state))"
proof -
  obtain rq where rq: "fst (checked_request deleg_sample_world 1000000 deleg_intent deleg_grant_row (de_sea deleg_state)) =
      Inr (Inr rq)"
    using deleg_plan_found by (auto split: sum.splits)
  have alone: "leaves_attempt deleg_intent deleg_grant_row (\<lambda>p d. d)" by (simp add: leaves_attempt_def)
  have "attempt_end (dx_execute deleg_sample_world rq) = (S_EXECUTED, Some deleg_hash, Some G_USED, D_CONFIRMED)"
    by (simp add: attempt_end_def deleg_sample_world_def deleg_abi_def deleg_hash_def non_empty_def)
  with attempt_ends_as_answered [OF deleg_rows alone surjective_pairing, of deleg_sample_world] rq
  show ?thesis by simp
qed

end
