(* ===== verification/AiDraft.thy ===== *)
theory AiDraft
  imports IntentValidator
begin

text \<open>
  The AI assistant of the SEA forms, under \<open>apps/api/src/sea/ai\<close>: the rules
  (\<open>intent-rules.util.ts\<close>), the deterministic validation of a model's extraction with all the copy
  it shows (\<open>ai-draft.validator.ts\<close>), and the parser service (\<open>ai-parser.service.ts\<close>).

  \<open>parseUnits\<close> and \<open>formatUnits\<close> of the \<open>ethers\<close> package are the record \<open>units\<close>. What the model
  answers is the value its schema parses; an ill-formed answer is one the schema refuses.
\<close>

section \<open>Values\<close>

datatype sub_mode = CMR_mode | CL_mode

datatype classification = C_draft | C_needsClarification | C_unsupported

datatype unsupported_category = U_indicator | U_news | U_forecast | U_portfolio_advice | U_other

datatype draft_field = F_side | F_sizeHuman | F_triggerPriceHuman | F_limitPriceHuman

record raw_draft =
  rd_classification :: classification
  rd_side :: "side option"
  rd_sizeHuman :: "string option"
  rd_triggerPriceHuman :: "string option"
  rd_limitPriceHuman :: "string option"
  rd_missingFields :: "draft_field list option"
  rd_unsupportedCategory :: "unsupported_category option"
  rd_detectedOtherSubmode :: "bool option"

definition rawModelDraftSchema :: "raw_draft \<Rightarrow> bool" where
  "rawModelDraftSchema r \<longleftrightarrow> opt_all (\<lambda>s. length s \<le> 64) (rd_sizeHuman r) \<and>
    opt_all (\<lambda>s. length s \<le> 64) (rd_triggerPriceHuman r) \<and> opt_all (\<lambda>s. length s \<le> 64) (rd_limitPriceHuman r)"

record ai_request =
  aq_marketId :: string
  aq_subMode :: sub_mode
  aq_text :: string
  aq_sideHint :: "side option"

definition aiSeaParseRequestSchema :: "ai_request \<Rightarrow> bool" where
  "aiSeaParseRequestSchema q \<longleftrightarrow> 1 \<le> length (aq_marketId q) \<and> length (aq_marketId q) \<le> 64 \<and>
    1 \<le> length (aq_text q) \<and> length (aq_text q) \<le> 2000"

record ai_context =
  ac_symbol :: string
  ac_baseSymbol :: string
  ac_quoteSymbol :: string
  ac_baseDecimals :: nat
  ac_quoteDecimals :: nat
  ac_priceTickQ :: int
  ac_minSizeB :: int
  ac_minNotionalQ :: int

record top_of_book =
  tb_bestBidTicks :: "int option"
  tb_bestAskTicks :: "int option"

record draft_explain =
  ex_meaning :: string
  ex_notGuaranteed :: string
  ex_confirmationRequired :: string

record provenance =
  pv_model :: string
  pv_requestId :: string

record partial_draft =
  pd_side :: "side option"
  pd_sizeHuman :: "string option"
  pd_triggerPriceHuman :: "string option"
  pd_limitPriceHuman :: "string option"

datatype clarification_kind = MissingFields | Correction

record clarification_response =
  cl_subMode :: sub_mode
  cl_kind :: clarification_kind
  cl_question :: string
  cl_missingFields :: "draft_field list"
  cl_partialDraft :: "partial_draft option"
  cl_hint :: "string option"

text \<open>A valid draft; a limit price goes with the passive submode only.\<close>

record valid_draft =
  vd_side :: side
  vd_sizeHuman :: string
  vd_triggerPriceHuman :: string
  vd_limitPriceHuman :: "string option"
  vd_reference :: ref_kind
  vd_triggerType :: trigger_type
  vd_summary :: string
  vd_explain :: draft_explain
  vd_notes :: "string list"
  vd_provenance :: provenance

datatype ai_response =
    ValidDraft sub_mode valid_draft
  | NeedsClarification clarification_response
  | UnsupportedIntent sub_mode string string
  | AiUnavailable string

section \<open>Rules\<close>

record units =
  un_parse :: "string \<Rightarrow> nat \<Rightarrow> int result"
  un_format :: "int \<Rightarrow> nat \<Rightarrow> string"

definition parseHumanAtomic :: "units \<Rightarrow> string option \<Rightarrow> nat \<Rightarrow> int option" where
  "parseHumanAtomic u human decimals =
    (case human of
       None \<Rightarrow> None
     | Some h \<Rightarrow> if trim h = '''' then None
         else (case un_parse u (trim h) decimals of Inl e \<Rightarrow> None | Inr n \<Rightarrow> Some n))"

text \<open>\<open>s.replace(/0+$/, '').replace(/\.$/, '')\<close>, where there is a decimal point.\<close>

definition trim_fraction :: "string \<Rightarrow> string" where
  "trim_fraction s =
    (if CHR ''.'' \<in> set s
     then let t = rev (dropWhile (\<lambda>c. c = CHR ''0'') (rev s))
          in (case rev t of c # r \<Rightarrow> if c = CHR ''.'' then rev r else t | [] \<Rightarrow> t)
     else s)"

definition normalizeHuman :: "units \<Rightarrow> string \<Rightarrow> nat \<Rightarrow> string result" where
  "normalizeHuman u human decimals =
    bind_res (un_parse u (trim human) decimals) (\<lambda>n. Inr (trim_fraction (un_format u n decimals)))"

definition priceScaledToTicks :: "int \<Rightarrow> int \<Rightarrow> int option" where
  "priceScaledToTicks priceScaled priceTickQ =
    (if priceScaled \<le> 0 \<or> priceTickQ \<le> 0 then None
     else if priceScaled mod priceTickQ \<noteq> 0 then None
     else Some (priceScaled div priceTickQ))"

definition compareNotionalToMin :: "ai_context \<Rightarrow> int \<Rightarrow> int \<Rightarrow> int" where
  "compareNotionalToMin ctx priceTicks sizeBase =
    (let lhs = priceTicks * ac_priceTickQ ctx * sizeBase;
         rhs = ac_minNotionalQ ctx * pow10 (ac_baseDecimals ctx)
     in if lhs < rhs then - 1 else if lhs > rhs then 1 else 0)"

definition minSizeForNotional :: "ai_context \<Rightarrow> int \<Rightarrow> int" where
  "minSizeForNotional ctx priceTicks =
    (let denom = priceTicks * ac_priceTickQ ctx in
     if denom \<le> 0 then 0
     else tdiv (ac_minNotionalQ ctx * pow10 (ac_baseDecimals ctx) + denom - 1) denom)"

fun deriveRefAndType :: "side \<Rightarrow> ref_kind \<times> trigger_type" where
  "deriveRefAndType BUY = (BEST_ASK, PRICE_BELOW)"
| "deriveRefAndType SELL = (BEST_BID, PRICE_ABOVE)"

text \<open>\<open>indexOf('-')\<close>: the characters before the first dash.\<close>

definition splitPairSymbol :: "string \<Rightarrow> string \<times> string" where
  "splitPairSymbol symbol =
    (let base = takeWhile (\<lambda>c. c \<noteq> CHR ''-'') symbol; idx = length base in
     if base = [] \<or> CHR ''-'' \<notin> set symbol \<or> length symbol \<le> idx + 1 then (''base'', ''quote'')
     else (base, drop (idx + 1) symbol))"

section \<open>Copy\<close>

text \<open>A dash of the copy, in UTF-8.\<close>

definition em_dash :: string where
  "em_dash = [CHR 0xE2, CHR 0x80, CHR 0x94]"

definition SUPPORTED_HINT :: string where
  \<open>SUPPORTED_HINT = ''Try a price threshold, e.g. "Buy 0.2 WETH when best ask is at or below 20 USDC."''\<close>

definition trigger_only :: string where
  "trigger_only = ''I can only trigger on a price threshold against the best bid/ask.''"

fun UNSUPPORTED_REASON :: "unsupported_category \<Rightarrow> string" where
  "UNSUPPORTED_REASON U_indicator =
    ''Technical indicators (RSI, moving averages, and similar) are not supported. '' @ trigger_only"
| "UNSUPPORTED_REASON U_news = ''News-driven triggers are not supported. '' @ trigger_only"
| "UNSUPPORTED_REASON U_forecast = ''Price predictions/forecasts are not supported. '' @ trigger_only"
| "UNSUPPORTED_REASON U_portfolio_advice =
    ''Portfolio or allocation advice is not supported. I can only set a single conditional order on a price threshold.''"
| "UNSUPPORTED_REASON U_other = ''That request is outside what I can set up. '' @ trigger_only"

fun submodeLabel :: "sub_mode \<Rightarrow> string" where
  "submodeLabel CMR_mode = ''market-when-ready order''"
| "submodeLabel CL_mode = ''passive limit on trigger''"

fun refWord :: "side \<Rightarrow> string" where
  "refWord BUY = ''ask''"
| "refWord SELL = ''bid''"

fun dirVerb :: "side \<Rightarrow> string" where
  "dirVerb BUY = ''falls to''"
| "dirVerb SELL = ''rises to''"

fun orWord :: "side \<Rightarrow> string" where
  "orWord BUY = ''or lower''"
| "orWord SELL = ''or higher''"

fun verb :: "side \<Rightarrow> string" where
  "verb BUY = ''buy''"
| "verb SELL = ''sell''"

definition when_best :: "side \<Rightarrow> string \<Rightarrow> ai_context \<Rightarrow> string" where
  "when_best sd triggerHuman ctx =
    ''When the best '' @ refWord sd @ '' '' @ dirVerb sd @ '' '' @ triggerHuman @ '' '' @ ac_quoteSymbol ctx @
    '' '' @ orWord sd @ '', ''"

definition buildCmrSummary :: "side \<Rightarrow> string \<Rightarrow> string \<Rightarrow> ai_context \<Rightarrow> string" where
  "buildCmrSummary sd sizeHuman triggerHuman ctx =
    when_best sd triggerHuman ctx @ ''prepare a market '' @ verb sd @ '' of '' @ sizeHuman @ '' '' @
    ac_baseSymbol ctx @ ''. '' @ ''You confirm and sign the transaction yourself when it's ready.''"

definition buildClSummary :: "side \<Rightarrow> string \<Rightarrow> string \<Rightarrow> string \<Rightarrow> ai_context \<Rightarrow> string" where
  "buildClSummary sd sizeHuman triggerHuman limitHuman ctx =
    when_best sd triggerHuman ctx @ ''place your pre-signed passive '' @ verb sd @ '' limit of '' @ sizeHuman @
    '' '' @ ac_baseSymbol ctx @ '' at '' @ limitHuman @ '' '' @ ac_quoteSymbol ctx @
    ''. Passive-only: it never crosses '' @ ''and only fills at '' @ limitHuman @ '' '' @ ac_quoteSymbol ctx @
    '' or better.''"

definition cmrExplain :: draft_explain where
  "cmrExplain =
    \<lparr>ex_meaning = ''A conditional market order: the engine watches the price and arms when your trigger is met.'',
     ex_notGuaranteed = ''Hitting the trigger doesn't guarantee execution '' @ em_dash @
       '' enough liquidity must exist at your price when you execute, and the price can move first.'',
     ex_confirmationRequired = ''Yes '' @ em_dash @
       '' you review and sign the transaction in your wallet. Nothing executes automatically.''\<rparr>"

definition clExplain :: draft_explain where
  "clExplain =
    \<lparr>ex_meaning =
       ''A conditional passive limit: the engine rests your pre-signed limit order only after the trigger is met.'',
     ex_notGuaranteed = ''Placement doesn't guarantee a fill '' @ em_dash @
       '' a passive limit only fills if the market trades into it.'',
     ex_confirmationRequired =
       ''You pre-sign the limit now; the engine only places it when the trigger fires. No market order is ever sent on your behalf.''\<rparr>"


section \<open>Clarification\<close>

datatype issue_kind = K_missing | K_invalid

record issue =
  is_field :: draft_field
  is_kind :: issue_kind
  is_clause :: string

definition missing :: "draft_field \<Rightarrow> string \<Rightarrow> issue" where
  "missing f clause = \<lparr>is_field = f, is_kind = K_missing, is_clause = clause\<rparr>"

definition invalid :: "draft_field \<Rightarrow> string \<Rightarrow> issue" where
  "invalid f clause = \<lparr>is_field = f, is_kind = K_invalid, is_clause = clause\<rparr>"

fun join_with :: "string \<Rightarrow> string list \<Rightarrow> string" where
  "join_with sep [] = []"
| "join_with sep [s] = s"
| "join_with sep (s # t # ss) = s @ sep @ join_with sep (t # ss)"

definition joinClauses :: "string list \<Rightarrow> string" where
  "joinClauses clauses =
    (case clauses of
       [] \<Rightarrow> ''''
     | [a] \<Rightarrow> a
     | [a, b] \<Rightarrow> a @ '' and '' @ b
     | _ \<Rightarrow> join_with '', '' (butlast clauses) @ '', and '' @ last clauses)"

definition capitalize :: "string \<Rightarrow> string" where
  "capitalize s = (case s of [] \<Rightarrow> s | c # r \<Rightarrow> upper_char c # r)"

definition question_parts :: "issue list \<Rightarrow> string option \<Rightarrow> string list" where
  "question_parts issues hint =
    (let inv = filter (\<lambda>i. is_kind i = K_invalid) issues; mis = filter (\<lambda>i. is_kind i = K_missing) issues;
         parts = (if inv \<noteq> [] then [capitalize (joinClauses (map is_clause inv)) @ ''.''] else []) @
           (if mis \<noteq> [] then [''Could you tell me '' @ joinClauses (map is_clause mis) @ ''?''] else [])
     in if parts = [] then (case hint of Some h \<Rightarrow> [h] | None \<Rightarrow> []) else parts)"

definition nothing_known :: partial_draft where
  "nothing_known = \<lparr>pd_side = None, pd_sizeHuman = None, pd_triggerPriceHuman = None, pd_limitPriceHuman = None\<rparr>"

definition clarification ::
  "sub_mode \<Rightarrow> issue list \<Rightarrow> partial_draft \<Rightarrow> string option \<Rightarrow> clarification_response" where
  "clarification sub issues pd hint =
    \<lparr>cl_subMode = sub,
     cl_kind = (if \<exists>i \<in> set issues. is_kind i = K_invalid then Correction else MissingFields),
     cl_question = trim (join_with '' '' (question_parts issues hint)),
     cl_missingFields = map is_field (filter (\<lambda>i. is_kind i = K_missing) issues),
     cl_partialDraft = (if pd = nothing_known then None else Some pd), cl_hint = hint\<rparr>"

definition crossSubmodeClarification :: "sub_mode \<Rightarrow> clarification_response" where
  "crossSubmodeClarification sub =
    (let otherTab = (case sub of CMR_mode \<Rightarrow> ''Passive limit on trigger'' | CL_mode \<Rightarrow> ''Market when ready'');
         otherKind = submodeLabel (case sub of CMR_mode \<Rightarrow> CL_mode | CL_mode \<Rightarrow> CMR_mode);
         quoted_tab = CHR 0x22 # otherTab @ [CHR 0x22]
     in \<lparr>cl_subMode = sub, cl_kind = MissingFields,
         cl_question = ''This sounds like a '' @ otherKind @ ''. Switch to the '' @ quoted_tab @
           '' tab, or rephrase it as a '' @ submodeLabel sub @ ''.'',
         cl_missingFields = [], cl_partialDraft = None,
         cl_hint = Some (''Switch to the '' @ quoted_tab @ '' tab to set this up.'')\<rparr>)"

section \<open>Reading the fields\<close>

text \<open>An issue, or the atomic amount with the text shown for it.\<close>

definition read_size ::
  "units \<Rightarrow> ai_context \<Rightarrow> side option \<Rightarrow> string option \<Rightarrow> (issue + int \<times> string) result" where
  "read_size u ctx sd sizeHuman =
    (case parseHumanAtomic u sizeHuman (ac_baseDecimals ctx) of
       None \<Rightarrow> Inr (Inl (missing F_sizeHuman (case sd of
         Some s \<Rightarrow> ''how much '' @ ac_baseSymbol ctx @ '' you want to '' @ verb s
       | None \<Rightarrow> ''how much '' @ ac_baseSymbol ctx)))
     | Some sizeAtomic \<Rightarrow>
         if sizeAtomic \<le> 0
         then Inr (Inl (missing F_sizeHuman (case sd of
           Some s \<Rightarrow> ''how much '' @ ac_baseSymbol ctx @ '' you want to '' @ verb s
         | None \<Rightarrow> ''how much '' @ ac_baseSymbol ctx)))
         else if sizeAtomic < ac_minSizeB ctx
         then Inr (Inl (invalid F_sizeHuman (''the size must be at least '' @
           un_format u (ac_minSizeB ctx) (ac_baseDecimals ctx) @ '' '' @ ac_baseSymbol ctx)))
         else bind_res (normalizeHuman u (the sizeHuman) (ac_baseDecimals ctx)) (\<lambda>h. Inr (Inr (sizeAtomic, h))))"

definition read_price ::
  "units \<Rightarrow> ai_context \<Rightarrow> draft_field \<Rightarrow> string \<Rightarrow> string \<Rightarrow> string option \<Rightarrow> (issue + int \<times> string) result" where
  "read_price u ctx f kind absent human =
    (case parseHumanAtomic u human (ac_quoteDecimals ctx) of
       None \<Rightarrow> Inr (Inl (missing f absent))
     | Some scaled \<Rightarrow>
         if scaled \<le> 0 then Inr (Inl (missing f absent))
         else (case priceScaledToTicks scaled (ac_priceTickQ ctx) of
             None \<Rightarrow> Inr (Inl (invalid f (''the '' @ kind @ '' price must be a multiple of '' @
               un_format u (ac_priceTickQ ctx) (ac_quoteDecimals ctx) @ '' '' @ ac_quoteSymbol ctx)))
           | Some ticks \<Rightarrow>
               bind_res (normalizeHuman u (the human) (ac_quoteDecimals ctx)) (\<lambda>h. Inr (Inr (ticks, h)))))"

definition read_trigger :: "units \<Rightarrow> ai_context \<Rightarrow> raw_draft \<Rightarrow> (issue + int \<times> string) result" where
  "read_trigger u ctx raw =
    read_price u ctx F_triggerPriceHuman ''trigger'' (case rd_side raw of
        Some s \<Rightarrow> ''what best-'' @ refWord s @ '' price in '' @ ac_quoteSymbol ctx @ '' should trigger the '' @ verb s
      | None \<Rightarrow> ''what trigger price in '' @ ac_quoteSymbol ctx @ '' to use'')
      (rd_triggerPriceHuman raw)"

definition read_limit :: "units \<Rightarrow> ai_context \<Rightarrow> raw_draft \<Rightarrow> (issue + int \<times> string) result" where
  "read_limit u ctx raw =
    read_price u ctx F_limitPriceHuman ''limit''
      (''what passive limit price in '' @ ac_quoteSymbol ctx @ '' to rest at'') (rd_limitPriceHuman raw)"

fun as_issue :: "issue + 'a \<Rightarrow> issue list" where
  "as_issue (Inl i) = [i]"
| "as_issue (Inr v) = []"

fun as_value :: "issue + 'a \<Rightarrow> 'a option" where
  "as_value (Inl i) = None"
| "as_value (Inr v) = Some v"

section \<open>Notional\<close>

definition limit_notional_issues :: "units \<Rightarrow> ai_context \<Rightarrow> int \<Rightarrow> int \<Rightarrow> issue list" where
  "limit_notional_issues u ctx limitTicks sizeBase =
    (if compareNotionalToMin ctx limitTicks sizeBase < 0
     then [invalid F_limitPriceHuman (''this order's value is below the '' @
       un_format u (ac_minNotionalQ ctx) (ac_quoteDecimals ctx) @ '' '' @ ac_quoteSymbol ctx @
       '' minimum '' @ em_dash @ '' increase the size or the limit price'')]
     else [])"

text \<open>The issues and the notes of a market draft at its trigger price.\<close>

definition cmr_notional ::
  "units \<Rightarrow> ai_context \<Rightarrow> side \<Rightarrow> int \<times> string \<Rightarrow> int \<times> string \<Rightarrow> issue list \<times> string list" where
  "cmr_notional u ctx sd szh tgh =
    (let (sizeBase, sizeHuman) = szh; (triggerTicks, triggerHuman) = tgh;
         cmp = compareNotionalToMin ctx triggerTicks sizeBase;
         least = un_format u (ac_minNotionalQ ctx) (ac_quoteDecimals ctx) @ '' '' @ ac_quoteSymbol ctx
     in case sd of
       BUY \<Rightarrow>
         if cmp < 0 then
           ([invalid F_sizeHuman (''at '' @ triggerHuman @ '' '' @ ac_quoteSymbol ctx @ '', '' @ sizeHuman @ '' '' @
              ac_baseSymbol ctx @ '' is below the '' @ least @ '' minimum order value '' @ em_dash @
              '' increase the size to at least '' @
              un_format u (minSizeForNotional ctx triggerTicks) (ac_baseDecimals ctx) @ '' '' @
              ac_baseSymbol ctx @ '' or raise the trigger price'')], [])
         else if cmp = 0 then
           ([], [''At the trigger price this is exactly the '' @ least @
              '' minimum order value; if the executable price is any lower, the intent may keep waiting.''])
         else ([], [])
     | SELL \<Rightarrow>
         if cmp < 0 then
           ([], [''At the trigger price this is below the '' @ least @
              '' minimum; it becomes ready only if the bid is high enough to meet the minimum.''])
         else ([], []))"

text \<open>Only when the prices, the size and the side are all there.\<close>

definition notional_findings ::
  "units \<Rightarrow> ai_context \<Rightarrow> sub_mode \<Rightarrow> side option \<Rightarrow> (int \<times> string) option \<Rightarrow> (int \<times> string) option \<Rightarrow>
     (int \<times> string) option \<Rightarrow> issue list \<times> string list" where
  "notional_findings u ctx sub sd sz tg lm =
    (case (sub, sd, sz) of
       (CL_mode, Some s, Some (sizeBase, h)) \<Rightarrow>
         (case lm of Some (ticks, h') \<Rightarrow> (limit_notional_issues u ctx ticks sizeBase, []) | None \<Rightarrow> ([], []))
     | (CMR_mode, Some s, Some szh) \<Rightarrow>
         (case tg of Some tgh \<Rightarrow> cmr_notional u ctx s szh tgh | None \<Rightarrow> ([], []))
     | _ \<Rightarrow> ([], []))"

definition addTopOfBookNotes ::
  "units \<Rightarrow> ai_context \<Rightarrow> top_of_book \<Rightarrow> sub_mode \<Rightarrow> side \<Rightarrow> int \<Rightarrow> int option \<Rightarrow> string list" where
  "addTopOfBookNotes u ctx tob sub sd triggerTicks limitTicks =
    (case (case sd of BUY \<Rightarrow> tb_bestAskTicks tob | SELL \<Rightarrow> tb_bestBidTicks tob) of
       None \<Rightarrow> []
     | Some refTicks \<Rightarrow>
         (let refHuman = un_format u (refTicks * ac_priceTickQ ctx) (ac_quoteDecimals ctx);
              alreadyMet = (case sd of BUY \<Rightarrow> refTicks \<le> triggerTicks | SELL \<Rightarrow> refTicks \<ge> triggerTicks);
              crosses = (case limitTicks of None \<Rightarrow> False
                | Some l \<Rightarrow> (case sd of BUY \<Rightarrow> l \<ge> refTicks | SELL \<Rightarrow> l \<le> refTicks))
          in (if alreadyMet then [''The trigger is already met (best '' @ refWord sd @ '' is '' @ refHuman @ '' '' @
                ac_quoteSymbol ctx @ ''); this would arm right away.''] else []) @
             (if sub = CL_mode \<and> crosses then
                [''Your limit currently crosses the book (best '' @ refWord sd @ '' '' @ refHuman @ '' '' @
                 ac_quoteSymbol ctx @ ''), so on fire it would be rejected as passive-only. '' @ ''Use a price '' @
                 (case sd of BUY \<Rightarrow> ''at or below the best ask'' | SELL \<Rightarrow> ''at or above the best bid'') @
                 '' to rest passively.''] else [])))"


section \<open>The validator\<close>

text \<open>From the fields read to the answer.\<close>

definition draft_answer ::
  "units \<Rightarrow> ai_context \<Rightarrow> sub_mode \<Rightarrow> top_of_book \<Rightarrow> provenance \<Rightarrow> side option \<Rightarrow>
     issue + int \<times> string \<Rightarrow> issue + int \<times> string \<Rightarrow> (issue + int \<times> string) option \<Rightarrow> ai_response" where
  "draft_answer u ctx sub tob prov sd sz tg lm =
    (let lmv = (case lm of Some l \<Rightarrow> as_value l | None \<Rightarrow> None);
         (nIssues, notes) = notional_findings u ctx sub sd (as_value sz) (as_value tg) lmv;
         issues = (if sd = None then [missing F_side (''which side '' @ em_dash @ '' buy or sell'')] else []) @
           as_issue sz @ as_issue tg @ (case lm of Some l \<Rightarrow> as_issue l | None \<Rightarrow> []) @ nIssues;
         pd = \<lparr>pd_side = sd, pd_sizeHuman = map_option snd (as_value sz),
               pd_triggerPriceHuman = map_option snd (as_value tg), pd_limitPriceHuman = map_option snd lmv\<rparr>
     in case (issues, sd, sz, tg) of
       ([], Some s, Inr (sizeBase, sHuman), Inr (triggerTicks, tHuman)) \<Rightarrow>
         ValidDraft sub
           \<lparr>vd_side = s, vd_sizeHuman = sHuman, vd_triggerPriceHuman = tHuman,
            vd_limitPriceHuman = map_option snd lmv,
            vd_reference = fst (deriveRefAndType s), vd_triggerType = snd (deriveRefAndType s),
            vd_summary = (case lmv of Some (l, lHuman) \<Rightarrow> buildClSummary s sHuman tHuman lHuman ctx
              | None \<Rightarrow> buildCmrSummary s sHuman tHuman ctx),
            vd_explain = (case sub of CMR_mode \<Rightarrow> cmrExplain | CL_mode \<Rightarrow> clExplain),
            vd_notes = take 2 (notes @ addTopOfBookNotes u ctx tob sub s triggerTicks (map_option fst lmv)),
            vd_provenance = prov\<rparr>
     | _ \<Rightarrow>
         NeedsClarification (clarification sub issues pd
           (case issues of
              [i] \<Rightarrow> if sub = CL_mode \<and> is_field i = F_limitPriceHuman \<and> is_kind i = K_missing
                then Some (''This sounds like a market-ready alert. Give me the passive limit price to rest at, or switch to '' @
                  CHR 0x22 # ''Market when ready'' @ [CHR 0x22] @ ''.'')
                else None
            | _ \<Rightarrow> None)))"

definition other_submode_price :: "units \<Rightarrow> ai_context \<Rightarrow> sub_mode \<Rightarrow> raw_draft \<Rightarrow> bool" where
  "other_submode_price u ctx sub raw \<longleftrightarrow> sub = CMR_mode \<and>
    (case parseHumanAtomic u (rd_limitPriceHuman raw) (ac_quoteDecimals ctx) of Some n \<Rightarrow> 0 < n | None \<Rightarrow> False)"

definition validateAiDraft ::
  "units \<Rightarrow> ai_context \<Rightarrow> sub_mode \<Rightarrow> raw_draft \<Rightarrow> top_of_book \<Rightarrow> provenance \<Rightarrow> ai_response result" where
  "validateAiDraft u ctx sub raw tob prov =
    (if other_submode_price u ctx sub raw then Inr (NeedsClarification (crossSubmodeClarification CMR_mode))
     else if rd_classification raw = C_unsupported
     then Inr (UnsupportedIntent sub (UNSUPPORTED_REASON (case rd_unsupportedCategory raw of
         Some c \<Rightarrow> c | None \<Rightarrow> U_other)) SUPPORTED_HINT)
     else if rd_detectedOtherSubmode raw = Some True
     then Inr (NeedsClarification (crossSubmodeClarification sub))
     else bind_res (read_size u ctx (rd_side raw) (rd_sizeHuman raw)) (\<lambda>sz.
          bind_res (read_trigger u ctx raw) (\<lambda>tg.
          bind_res (if sub = CL_mode then bind_res (read_limit u ctx raw) (\<lambda>l. Inr (Some l)) else Inr None) (\<lambda>lm.
          Inr (draft_answer u ctx sub tob prov (rd_side raw) sz tg lm)))))"

section \<open>The parser service\<close>

text \<open>What the model answers to a request with a resolved market; the call may throw.\<close>

record ai_world =
  aw_env :: penv
  aw_units :: units
  aw_model :: "sub_mode \<Rightarrow> string \<Rightarrow> string \<times> string \<times> string \<Rightarrow> side option \<Rightarrow> raw_draft result"
  aw_requestId :: string

definition ai_enabled :: "penv \<Rightarrow> bool" where
  "ai_enabled pe \<longleftrightarrow> env_is pe ''SEA_AI_ENABLED'' ''1''"

definition best_ticks :: "snap_row list \<Rightarrow> int option result" where
  "best_ticks rows =
    (case rows of
       [] \<Rightarrow> Inr None
     | r # rs \<Rightarrow> if sn_priceTicks r = '''' then Inr None
         else bind_res (str_to_bigint (sn_priceTicks r)) (\<lambda>n. Inr (Some n)))"

definition safeTopOfBook :: "string \<Rightarrow> engine \<Rightarrow> top_of_book" where
  "safeTopOfBook symbol e =
    (case (best_ticks (fst (snapshot symbol 1 e)), best_ticks (snd (snapshot symbol 1 e))) of
       (Inr b, Inr a) \<Rightarrow> \<lparr>tb_bestBidTicks = b, tb_bestAskTicks = a\<rparr>
     | _ \<Rightarrow> \<lparr>tb_bestBidTicks = None, tb_bestAskTicks = None\<rparr>)"

definition ai_context_of :: "trading_ctx \<Rightarrow> ai_context" where
  "ai_context_of ctx =
    (let (b, q) = splitPairSymbol (ctx_symbol ctx) in
     \<lparr>ac_symbol = ctx_symbol ctx, ac_baseSymbol = b, ac_quoteSymbol = q,
      ac_baseDecimals = ctx_baseDecimals ctx, ac_quoteDecimals = ctx_quoteDecimals ctx,
      ac_priceTickQ = ctx_priceTickQ ctx, ac_minSizeB = ctx_minSizeB ctx, ac_minNotionalQ = ctx_minNotionalQ ctx\<rparr>)"

definition provenance_of :: "ai_world \<Rightarrow> provenance" where
  "provenance_of w =
    (let m = trim (env_or_nullish (aw_env w) ''SEA_AI_MODEL'' '''') in
     \<lparr>pv_model = (if m = '''' then ''claude-haiku-4-5'' else m), pv_requestId = aw_requestId w\<rparr>)"

definition ai_parse :: "ai_world \<Rightarrow> ai_request \<Rightarrow> engine \<Rightarrow> ai_response result" where
  "ai_parse w q e =
    (if \<not> ai_enabled (aw_env w) then Inr (AiUnavailable ''AI assist is not enabled on this environment.'')
     else case getTradingContext (eng_db e) (aq_marketId q) of
       Inl x \<Rightarrow> Inr (AiUnavailable ''Could not load market data. Try again shortly.'')
     | Inr ctx \<Rightarrow>
         (let aiCtx = ai_context_of ctx in
          case aw_model w (aq_subMode q) (aq_text q) (ctx_symbol ctx, ac_baseSymbol aiCtx, ac_quoteSymbol aiCtx)
                 (aq_sideHint q) of
            Inl x \<Rightarrow> Inr (AiUnavailable ''AI assist is unavailable right now. Use the form below.'')
          | Inr raw \<Rightarrow>
              if \<not> rawModelDraftSchema raw
              then Inr (AiUnavailable ''Couldn't interpret that. Try rephrasing, or use the form below.'')
              else validateAiDraft (aw_units w) aiCtx (aq_subMode q) raw
                     (safeTopOfBook (ctx_symbol ctx) e) (provenance_of w)))"

definition post_ai_parse :: "ai_world \<Rightarrow> ai_request \<Rightarrow> engine \<Rightarrow> ai_response result" where
  "post_ai_parse w q e =
    (if \<not> aiSeaParseRequestSchema q then Inl (BadRequest ''invalid_payload'') else ai_parse w q e)"

end
