(* ===== verification/AiProps.thy ===== *)
theory AiProps
  imports AiDraft OrderBookInv
begin

text \<open>
  What a valid draft of the AI assistant is worth: its form values read back to an intent the create
  schema and the value checks of the create validator accept, whatever the model extracted; and the
  size the assistant suggests is the least that meets the minimum.
\<close>

section \<open>The readers\<close>

text \<open>
  \<open>formatUnits\<close> prints what \<open>parseUnits\<close> reads back, also without the trailing zeros of the fraction.
\<close>

definition units_exact :: "units \<Rightarrow> nat \<Rightarrow> bool" where
  "units_exact u dec \<longleftrightarrow> (\<forall>n. 0 < n \<longrightarrow>
    trim (trim_fraction (un_format u n dec)) \<noteq> '''' \<and>
    un_parse u (trim (trim_fraction (un_format u n dec))) dec = Inr n)"

lemma normalized_reads_back:
  assumes "units_exact u dec" and "parseHumanAtomic u h dec = Some n" and "0 < n"
    and "normalizeHuman u (the h) dec = Inr s"
  shows "parseHumanAtomic u (Some s) dec = Some n"
  using assms
  by (auto simp: parseHumanAtomic_def normalizeHuman_def units_exact_def split: option.splits if_splits sum.splits)

lemma read_size_value:
  assumes "read_size u ctx sd h = Inr (Inr (n, s))" and "units_exact u (ac_baseDecimals ctx)"
  shows "0 < n" "ac_minSizeB ctx \<le> n" "parseHumanAtomic u (Some s) (ac_baseDecimals ctx) = Some n"
  using assms normalized_reads_back [OF assms(2)]
  by (auto simp: read_size_def split: option.splits if_splits)

lemma read_price_value:
  assumes "read_price u ctx f k a h = Inr (Inr (ticks, s))" and "units_exact u (ac_quoteDecimals ctx)"
  shows "\<exists>n. 0 < n \<and> priceScaledToTicks n (ac_priceTickQ ctx) = Some ticks \<and>
    parseHumanAtomic u (Some s) (ac_quoteDecimals ctx) = Some n"
  using assms normalized_reads_back [OF assms(2)]
  by (auto simp: read_price_def split: option.splits if_splits)

lemma ticks_pos: "priceScaledToTicks n t = Some k \<Longrightarrow> 0 < k \<and> n = k * t"
  by (auto simp: priceScaledToTicks_def pos_imp_zdiv_pos_iff mod_eq_0_iff_dvd dest: zdvd_imp_le split: if_splits)

lemma valid_answer:
  assumes "draft_answer u ctx sub tob prov sd sz tg lm = ValidDraft sub' d"
  obtains s n h k h' where "sub' = sub" "sd = Some s" "vd_side d = s" "sz = Inr (n, h)" "tg = Inr (k, h')"
    "vd_sizeHuman d = h" "vd_triggerPriceHuman d = h'"
    "vd_limitPriceHuman d = map_option snd (case lm of Some l \<Rightarrow> as_value l | None \<Rightarrow> None)"
    "vd_reference d = fst (deriveRefAndType s)" "vd_triggerType d = snd (deriveRefAndType s)"
    "(case lm of Some l \<Rightarrow> as_issue l | None \<Rightarrow> []) = []"
    "fst (notional_findings u ctx sub sd (Some (n, h)) (Some (k, h')) (case lm of Some l \<Rightarrow> as_value l | None \<Rightarrow> None)) = []"
  using assms that
  by (auto simp: draft_answer_def Let_def split: list.splits option.splits sum.splits prod.splits if_splits)


lemma notional_agrees:
  "compareNotionalToMin (ai_context_of tc) ticks sizeB < 0 \<longleftrightarrow> notional_issues tc ticks sizeB \<noteq> []"
  by (simp add: compareNotionalToMin_def notional_issues_def ai_context_of_def case_prod_unfold Let_def)

lemma ai_context_fields [simp]:
  "ac_baseDecimals (ai_context_of tc) = ctx_baseDecimals tc" "ac_quoteDecimals (ai_context_of tc) = ctx_quoteDecimals tc"
  "ac_priceTickQ (ai_context_of tc) = ctx_priceTickQ tc" "ac_minSizeB (ai_context_of tc) = ctx_minSizeB tc"
  by (simp_all add: ai_context_of_def case_prod_unfold Let_def)

lemma big_is_digits: "0 < n \<Longrightarrow> NON_NEG_INT_RE (big_to_string n)"
  by (simp add: NON_NEG_INT_RE_def big_to_string_def all_digits_nat_digits)

section \<open>A valid draft can be created\<close>

text \<open>The intent the form submits for a draft, with the amounts read from its values.\<close>

definition draft_intent ::
  "sub_mode \<Rightarrow> string \<Rightarrow> expiry \<Rightarrow> valid_draft \<Rightarrow> int \<Rightarrow> int \<Rightarrow> int \<Rightarrow> structured_intent" where
  "draft_intent sub m ex d sizeB triggerTicks limitTicks =
    (let t = \<lparr>tr_type = vd_triggerType d, tr_reference = vd_reference d, tr_priceTicks = big_to_string triggerTicks\<rparr>
     in case sub of
       CL_mode \<Rightarrow> CL_Intent m (vd_side d) (big_to_string sizeB) (big_to_string limitTicks) t ex
     | CMR_mode \<Rightarrow> CMR_Intent m (vd_side d) (big_to_string sizeB) (Some FOK) t ex)"

lemma read_limit_value:
  assumes "read_limit u (ai_context_of tc) raw = Inr (Inr (l, hl))" "units_exact u (ctx_quoteDecimals tc)"
  shows "0 < l" "parseHumanAtomic u (Some hl) (ctx_quoteDecimals tc) = Some (l * ctx_priceTickQ tc)"
proof -
  obtain q where "priceScaledToTicks q (ctx_priceTickQ tc) = Some l"
    "parseHumanAtomic u (Some hl) (ctx_quoteDecimals tc) = Some q"
    using read_price_value [OF assms(1) [unfolded read_limit_def]] assms(2) by auto
  with ticks_pos show "0 < l" "parseHumanAtomic u (Some hl) (ctx_quoteDecimals tc) = Some (l * ctx_priceTickQ tc)" by auto
qed

lemma drafted_intent_valid:
  assumes "m \<noteq> []" "expirySchema ex" "natural_trigger (vd_side d) (vd_triggerType d) (vd_reference d)" "vd_reference d \<noteq> MID"
    and "0 < n" "0 < k" "sub = CL_mode \<longrightarrow> 0 < l"
  shows "structuredIntentSchema (draft_intent sub m ex d n k l) \<and>
    validateStructuredIntentInvariants (draft_intent sub m ex d n k l) = []"
  using assms big_is_digits
  by (cases sub) (auto simp: draft_intent_def triggerSchema_def validateStructuredIntentInvariants_def natural_trigger_def)

text \<open>
  Whatever a model extracted, a draft the assistant calls valid reads back to amounts that make a
  structured intent: the schema of the create request and its cross-field invariants accept it,
  reference and trigger type are the ones the side admits, the prices are multiples of the tick, the
  size is at least the market's minimum, and the notional of a limit order, or of a market buy at its
  trigger, is at least the minimum the create validator asks for. Whether size times price is a whole
  number of quote units, which that validator asks of a conditional limit too, the assistant does not
  look at. It is assumed that \<open>parseUnits\<close> reads back what \<open>formatUnits\<close> prints.
\<close>

theorem valid_draft_is_creatable:
  assumes v: "validateAiDraft u (ai_context_of tc) sub raw tob prov = Inr (ValidDraft sub' d)"
    and u: "units_exact u (ctx_baseDecimals tc)" "units_exact u (ctx_quoteDecimals tc)"
    and "m \<noteq> []" and "expirySchema ex"
  shows "sub' = sub \<and> (\<exists>sizeB triggerTicks limitTicks.
    parseHumanAtomic u (Some (vd_sizeHuman d)) (ctx_baseDecimals tc) = Some sizeB \<and>
    parseHumanAtomic u (Some (vd_triggerPriceHuman d)) (ctx_quoteDecimals tc) = Some (triggerTicks * ctx_priceTickQ tc) \<and>
    (sub = CL_mode \<longrightarrow> parseHumanAtomic u (vd_limitPriceHuman d) (ctx_quoteDecimals tc) = Some (limitTicks * ctx_priceTickQ tc)) \<and>
    structuredIntentSchema (draft_intent sub m ex d sizeB triggerTicks limitTicks) \<and>
    validateStructuredIntentInvariants (draft_intent sub m ex d sizeB triggerTicks limitTicks) = [] \<and>
    natural_trigger (vd_side d) (vd_triggerType d) (vd_reference d) \<and> size_issues tc sizeB = [] \<and>
    (sub = CL_mode \<longrightarrow> notional_issues tc limitTicks sizeB = []) \<and>
    (sub = CMR_mode \<and> vd_side d = BUY \<longrightarrow> notional_issues tc triggerTicks sizeB = []))"
proof -
  let ?c = "ai_context_of tc"
  obtain sz tg lm where sz: "read_size u ?c (rd_side raw) (rd_sizeHuman raw) = Inr sz" and tg: "read_trigger u ?c raw = Inr tg"
    and lm: "if sub = CL_mode then (\<exists>l. read_limit u ?c raw = Inr l \<and> lm = Some l) else lm = None"
    and a: "draft_answer u ?c sub tob prov (rd_side raw) sz tg lm = ValidDraft sub' d"
    using v by (auto simp: validateAiDraft_def split: if_splits)
  obtain s n h k h' where e: "sub' = sub" "rd_side raw = Some s" "vd_side d = s" "sz = Inr (n, h)" "tg = Inr (k, h')"
    "vd_sizeHuman d = h" "vd_triggerPriceHuman d = h'"
    "vd_limitPriceHuman d = map_option snd (case lm of Some l \<Rightarrow> as_value l | None \<Rightarrow> None)"
    "vd_reference d = fst (deriveRefAndType s)" "vd_triggerType d = snd (deriveRefAndType s)"
    "(case lm of Some l \<Rightarrow> as_issue l | None \<Rightarrow> []) = []"
    and nt: "fst (notional_findings u ?c sub (rd_side raw) (Some (n, h)) (Some (k, h')) (case lm of Some l \<Rightarrow> as_value l | None \<Rightarrow> None)) = []"
    using valid_answer [OF a] by metis
  note n = read_size_value [OF sz [unfolded e(4)], simplified, OF u(1)]
  obtain p where p: "0 < p" "priceScaledToTicks p (ctx_priceTickQ tc) = Some k"
    "parseHumanAtomic u (Some h') (ctx_quoteDecimals tc) = Some p"
    using read_price_value [OF tg [unfolded e(5) read_trigger_def]] u(2) by auto
  note k = ticks_pos [OF p(2)]
  have nat: "natural_trigger (vd_side d) (vd_triggerType d) (vd_reference d)" "vd_reference d \<noteq> MID"
    by (cases s; simp add: natural_trigger_def e(3,9,10))+
  have sizeB: "size_issues tc n = []" using n(2) by (simp add: size_issues_def)
  have limit: "\<exists>l hl. vd_limitPriceHuman d = Some hl \<and> 0 < l \<and>
      parseHumanAtomic u (Some hl) (ctx_quoteDecimals tc) = Some (l * ctx_priceTickQ tc) \<and> notional_issues tc l n = []"
    if cl: "sub = CL_mode"
  proof -
    obtain l hl where l: "read_limit u ?c raw = Inr (Inr (l, hl))" "lm = Some (Inr (l, hl))"
      using lm cl e(11) by (auto elim!: as_issue.elims)
    have "notional_issues tc l n = []"
      using nt notional_agrees [of tc l n] by (simp add: cl l(2) e(2) notional_findings_def limit_notional_issues_def split: if_splits)
    with read_limit_value [OF l(1) u(2)] l(2) e(8) show ?thesis by auto
  qed
  have buy: "notional_issues tc k n = []" if "sub = CMR_mode" "s = BUY"
    using nt notional_agrees [of tc k n] that
    by (simp add: e(2) notional_findings_def cmr_notional_def Let_def split: if_splits)
  note made = drafted_intent_valid [OF assms(4,5) nat n(1) conjunct1 [OF k]]
  show ?thesis
  proof (cases sub)
    case CMR_mode
    with made [of sub 0] show ?thesis using e(1,3,6,7) n(3) p(3) k nat sizeB buy by auto
  next
    case CL_mode
    with limit obtain l hl where "vd_limitPriceHuman d = Some hl" "0 < l"
      "parseHumanAtomic u (Some hl) (ctx_quoteDecimals tc) = Some (l * ctx_priceTickQ tc)" "notional_issues tc l n = []"
      by auto
    with made [of sub l] CL_mode show ?thesis using e(1,3,6,7) n(3) p(3) k nat sizeB by auto
  qed
qed

section \<open>The least size\<close>

lemma div_below_iff:
  assumes "0 < (p::int)"
  shows "a div p < b \<longleftrightarrow> a < b * p"
proof
  assume "a div p < b"
  then have "(a div p + 1) * p \<le> b * p" using assms by (intro mult_right_mono) auto
  moreover have "a < (a div p + 1) * p"
    using pos_mod_bound [OF assms, of a] div_mult_mod_eq [of a p] by (simp only: distrib_right)
  ultimately show "a < b * p" by simp
next
  assume "a < b * p"
  moreover have "a div p * p \<le> a" using pos_mod_sign [OF assms, of a] div_mult_mod_eq [of a p] by linarith
  ultimately have "a div p * p < b * p" by simp
  then show "a div p < b" using assms mult_less_cancel_right_pos by blast
qed

text \<open>
  The corrected size is the least that helps. Where the price of a market buy is positive and
  the minimum is not negative, the size the assistant proposes instead of one too small meets the
  minimum at that price, and no smaller size does.
\<close>

theorem suggested_size_is_least:
  assumes "0 < ticks * ac_priceTickQ ctx" and "0 \<le> ac_minNotionalQ ctx"
  shows "0 \<le> compareNotionalToMin ctx ticks (minSizeForNotional ctx ticks) \<and>
    (\<forall>s. s < minSizeForNotional ctx ticks \<longrightarrow> compareNotionalToMin ctx ticks s < 0)"
proof -
  define p where "p = ticks * ac_priceTickQ ctx"
  define r where "r = ac_minNotionalQ ctx * pow10 (ac_baseDecimals ctx)"
  have p: "0 < p" and r: "0 \<le> r" using assms by (simp_all add: p_def r_def pow10_def)
  have least: "minSizeForNotional ctx ticks = (r + p - 1) div p"
  proof -
    have "tdiv (r + p - 1) p = (r + p - 1) div p"
      using p r by (simp add: tdiv_def sgn_if)
    then show ?thesis using p by (simp add: minSizeForNotional_def p_def r_def Let_def)
  qed
  have cmp: "compareNotionalToMin ctx ticks s < 0 \<longleftrightarrow> p * s < r" for s
    by (simp add: compareNotionalToMin_def p_def r_def Let_def)
  have ge: "r \<le> p * s \<longleftrightarrow> (r + p - 1) div p \<le> s" for s
  proof -
    have "(r + p - 1) div p \<le> s \<longleftrightarrow> (r + p - 1) div p < s + 1" by linarith
    also have "\<dots> \<longleftrightarrow> r + p - 1 < (s + 1) * p"
      using p by (rule div_below_iff)
    also have "(s + 1) * p = p * s + p" by (simp add: distrib_right)
    also have "r + p - 1 < p * s + p \<longleftrightarrow> r \<le> p * s" by linarith
    finally show ?thesis by simp
  qed
  have iff: "compareNotionalToMin ctx ticks s < 0 \<longleftrightarrow> s < minSizeForNotional ctx ticks" for s
    using cmp [of s] ge [of s] by (simp add: least flip: not_le)
  have "0 \<le> compareNotionalToMin ctx ticks (minSizeForNotional ctx ticks)" by (metis iff less_irrefl not_less)
  with iff show ?thesis by blast
qed

theorem suggested_size_is_least_witness:
  "minSizeForNotional \<lparr>ac_symbol = ''B-Q'', ac_baseSymbol = ''B'', ac_quoteSymbol = ''Q'', ac_baseDecimals = 0,
     ac_quoteDecimals = 0, ac_priceTickQ = 10, ac_minSizeB = 1, ac_minNotionalQ = 95\<rparr> 3 = 4 \<and>
   compareNotionalToMin \<lparr>ac_symbol = ''B-Q'', ac_baseSymbol = ''B'', ac_quoteSymbol = ''Q'', ac_baseDecimals = 0,
     ac_quoteDecimals = 0, ac_priceTickQ = 10, ac_minSizeB = 1, ac_minNotionalQ = 95\<rparr> 3 3 < 0"
proof -
  let ?c = "\<lparr>ac_symbol = ''B-Q'', ac_baseSymbol = ''B'', ac_quoteSymbol = ''Q'', ac_baseDecimals = 0,
     ac_quoteDecimals = 0, ac_priceTickQ = 10, ac_minSizeB = 1, ac_minNotionalQ = 95\<rparr>"
  have "minSizeForNotional ?c 3 = 4" by code_simp
  with suggested_size_is_least [of 3 ?c] show ?thesis by simp
qed

section \<open>A sample draft\<close>

text \<open>Amounts without decimals, where both functions are those of integers.\<close>

definition whole_units :: units where
  "whole_units = \<lparr>un_parse = (\<lambda>s dec. str_to_bigint s), un_format = (\<lambda>n dec. big_to_string n)\<rparr>"

definition whole_market :: trading_ctx where
  "whole_market = \<lparr>ctx_id = ''m1'', ctx_symbol = ''B-Q'', ctx_baseDecimals = 0, ctx_quoteDecimals = 0,
     ctx_minNotionalQ = 100, ctx_minSizeB = 2, ctx_priceTickQ = 10, ctx_baseAddress = hex_addr CHR ''b'',
     ctx_quoteAddress = hex_addr CHR ''c''\<rparr>"

definition sample_extraction :: raw_draft where
  "sample_extraction = \<lparr>rd_classification = C_draft, rd_side = Some BUY, rd_sizeHuman = Some '' 12'',
     rd_triggerPriceHuman = Some ''30'', rd_limitPriceHuman = Some ''20'', rd_missingFields = None,
     rd_unsupportedCategory = None, rd_detectedOtherSubmode = None\<rparr>"

lemma code_dash_dot: "code (CHR ''.'') = 46"
  by code_simp

lemma whole_units_exact: "units_exact whole_units dec"
proof -
  have "trim_fraction (big_to_string n) = big_to_string n" if "0 < n" for n
  proof -
    have "CHR ''.'' \<notin> set (nat_digits n)"
    proof
      assume "CHR ''.'' \<in> set (nat_digits n)"
      with nat_digits_codes [of n] that have "48 \<le> code CHR ''.''" by auto
      then show False by (simp add: code_dash_dot)
    qed
    with that show ?thesis by (simp add: trim_fraction_def big_to_string_def)
  qed
  moreover have "trim (big_to_string n) = big_to_string n" if "0 < n" for n
    using nat_digits_codes [of n] digit_not_space that by (auto simp: big_to_string_def intro!: trim_no_space)
  ultimately show ?thesis by (simp add: units_exact_def whole_units_def)
qed

theorem valid_draft_is_creatable_witness:
  "\<exists>d. validateAiDraft whole_units (ai_context_of whole_market) CL_mode sample_extraction
     \<lparr>tb_bestBidTicks = None, tb_bestAskTicks = Some 4\<rparr> \<lparr>pv_model = ''m'', pv_requestId = ''r''\<rparr> = Inr (ValidDraft CL_mode d) \<and>
   natural_trigger (vd_side d) (vd_triggerType d) (vd_reference d)"
proof -
  let ?v = "validateAiDraft whole_units (ai_context_of whole_market) CL_mode sample_extraction
     \<lparr>tb_bestBidTicks = None, tb_bestAskTicks = Some 4\<rparr> \<lparr>pv_model = ''m'', pv_requestId = ''r''\<rparr>"
  have "(case ?v of Inr (ValidDraft sub d) \<Rightarrow> sub = CL_mode | _ \<Rightarrow> False)" by code_simp
  then obtain d where d: "?v = Inr (ValidDraft CL_mode d)"
    by (auto split: sum.splits ai_response.splits)
  have "natural_trigger (vd_side d) (vd_triggerType d) (vd_reference d)"
    using valid_draft_is_creatable [OF d whole_units_exact whole_units_exact, of "''m1''" "SecsFromActivation 60"] by auto
  with d show ?thesis by blast
qed

end
