(* ===== verification/OrdersApi.thy ===== *)
theory OrdersApi
  imports SeaState TxBuilders
begin

text \<open>
  \<open>apps/api/src/public/orders.controller.ts\<close>: the public order endpoints. \<open>POST /orders\<close> checks the
  0x signature and hands over to the placement core, \<open>POST /cancel\<close> checks a personal signature over
  the hash, and the \<open>tx\<close> endpoints build the on-chain cancellations.

  The body of a request has the type its DTO declares, the order itself being arbitrary wire data.
  What \<open>ethers\<close> computes and the decimal text of a number are the record \<open>api_ext\<close>; log lines are
  left out.
\<close>

record api_ext =
  api_sx :: sea_ext
  api_jsonHash :: "jval \<Rightarrow> string result"
  api_recover :: "string \<Rightarrow> string \<Rightarrow> string result"
  api_numString :: "jnum \<Rightarrow> string"
  api_abi :: abi_ext
  api_zeroExChain :: "int result"

abbreviation api_env :: "api_ext \<Rightarrow> penv" where
  "api_env x \<equiv> sx_env (api_sx x)"

abbreviation api_zx :: "api_ext \<Rightarrow> zx_ext" where
  "api_zx x \<equiv> sx_zx (api_sx x)"

abbreviation api_cfg :: "api_ext \<Rightarrow> zx_config" where
  "api_cfg x \<equiv> sx_cfg (api_sx x)"

section \<open>Placing\<close>

record order_body =
  ob_order :: jval
  ob_signature :: "(string + zx_sig) option"
  ob_postOnly :: bool

text \<open>The expiry of a wire order may be a decimal string.\<close>

definition with_number_expiry :: "jval \<Rightarrow> jval" where
  "with_number_expiry order =
    (case (order, jget order ''expiry'') of
       (JObj fs, JStr s) \<Rightarrow> JObj (map (\<lambda>(k, v). (k, if k = ''expiry'' then JNum (str_to_num s) else v)) fs)
     | _ \<Rightarrow> order)"

definition wire_signature :: "string + zx_sig \<Rightarrow> zx_sig result" where
  "wire_signature sg =
    (case sg of
       Inl s \<Rightarrow> (case parseSigHexToTuple s of None \<Rightarrow> Inl (BadRequest ''invalid_signature_hex'') | Some t \<Rightarrow> Inr t)
     | Inr t \<Rightarrow> Inr (t\<lparr>zs_v := lift_v (zs_v t)\<rparr>))"

text \<open>A refused signature is recovered once more, for the log; what that throws is what the caller sees.\<close>

definition refuse_signature :: "api_ext \<Rightarrow> int \<Rightarrow> jval \<Rightarrow> zx_sig \<Rightarrow> 'a result" where
  "refuse_signature x chainId order sg =
    bind_res (verifySignature (api_zx x) (api_cfg x) chainId order (sg\<lparr>zs_signatureType := 3\<rparr>))
      (\<lambda>_. Inl (BadRequest ''invalid_signature''))"

text \<open>The hash of the order and its signature, once the maker is known to have signed it.\<close>

definition signed_hash :: "api_ext \<Rightarrow> jval \<Rightarrow> string \<Rightarrow> string + zx_sig \<Rightarrow> (string \<times> zx_sig) result" where
  "signed_hash x order makerExpected signature =
    (if dev_skip (api_sx x)
     then bind_res (api_jsonHash x order) (\<lambda>h. bind_res (wire_signature signature) (\<lambda>sg. Inr (h, sg)))
     else
       bind_res (wire_signature signature) (\<lambda>sg.
       bind_res (resolve (api_zx x) (api_cfg x)) (\<lambda>_.
       bind_res (getOrderHash (api_zx x) (api_cfg x) (getChainIdFromEnv (api_env x)) order) (\<lambda>h.
       bind_res (verifySignature (api_zx x) (api_cfg x) (getChainIdFromEnv (api_env x)) order sg) (\<lambda>recovered.
         case recovered of
           None \<Rightarrow> refuse_signature x (getChainIdFromEnv (api_env x)) order sg
         | Some a \<Rightarrow>
             if to_lower (trim a) \<noteq> makerExpected
             then refuse_signature x (getChainIdFromEnv (api_env x)) order sg
             else Inr (h, sg))))))"

definition absent_signature :: "(string + zx_sig) option \<Rightarrow> bool" where
  "absent_signature s \<longleftrightarrow> s = None \<or> s = Some (Inl [])"

definition accepted_order :: "api_ext \<Rightarrow> order_body \<Rightarrow> place_request result" where
  "accepted_order x b =
    (let order = with_number_expiry (ob_order b) in
     if read_only (api_sx x) then Inl (Forbidden ''read-only'')
     else if jnullish (ob_order b) then Inl TypeError
     else if \<not> truthy order \<or> absent_signature (ob_signature b)
     then Inl (BadRequest ''order and signature are required'')
     else
       bind_res (toLower (jget order ''maker'')) (\<lambda>makerExpected.
       bind_res (signed_hash x order makerExpected (the (ob_signature b))) (\<lambda>(h, sg). Inr
         \<lparr>pq_order = order, pq_signature = sig_json sg, pq_orderHash = h, pq_makerExpected = makerExpected,
          pq_postOnly = ob_postOnly b\<rparr>)))"

definition post_orders :: "api_ext \<Rightarrow> int \<Rightarrow> order_body \<Rightarrow> engine \<Rightarrow> string result \<times> engine" where
  "post_orders x now b e =
    (case accepted_order x b of
       Inl ex \<Rightarrow> (Inl ex, e)
     | Inr rq \<Rightarrow> place_order (api_env x) (sx_chain (api_sx x)) now rq e)"

section \<open>Cancelling\<close>

record cancel_body =
  cb_marketId :: string
  cb_orderHash :: string
  cb_maker :: string
  cb_signature :: string

definition cancel_auth :: "api_ext \<Rightarrow> cancel_body \<Rightarrow> unit result" where
  "cancel_auth x b =
    (if read_only (api_sx x) then Inl (Forbidden ''read-only'')
     else if cb_marketId b = [] \<or> cb_orderHash b = [] \<or> cb_maker b = [] \<or> cb_signature b = []
     then Inl (BadRequest ''marketId, orderHash, maker, signature are required'')
     else if dev_skip (api_sx x) then Inr ()
     else case api_recover x (cb_orderHash b) (cb_signature b) of
       Inl ex \<Rightarrow> Inl (BadRequest ''invalid_signature'')
     | Inr recovered \<Rightarrow>
         if to_lower (trim recovered) \<noteq> to_lower (trim (cb_maker b)) then Inl (BadRequest ''invalid_signature'')
         else Inr ())"

definition post_order_cancel :: "api_ext \<Rightarrow> int \<Rightarrow> cancel_body \<Rightarrow> engine \<Rightarrow> unit result \<times> engine" where
  "post_order_cancel x now b e =
    (case cancel_auth x b of
       Inl ex \<Rightarrow> (Inl ex, e)
     | Inr _ \<Rightarrow>
         (case cancel now (cb_marketId b) (cb_orderHash b) e of
            (Inl ex, e1) \<Rightarrow> (Inl ex, e1)
          | (Inr CancelledStatus, e1) \<Rightarrow> (Inr (), e1\<lparr>eng_db := inc_metric ''cancelled:single'' (eng_db e1)\<rparr>)
          | (Inr CancelNotFound, e1) \<Rightarrow>
              (case getTradingContext (eng_db e1) (cb_marketId b) of
                 Inl ex \<Rightarrow> (Inl ex, e1)
               | Inr ctx \<Rightarrow>
                   (case cancelOrder now (ctx_id ctx) (cb_orderHash b) (eng_db e1) of
                      (Inl ex, d) \<Rightarrow> (Inl ex, e1\<lparr>eng_db := d\<rparr>)
                    | (Inr _, d) \<Rightarrow> (Inr (), e1\<lparr>eng_db := d\<rparr>)))))"

section \<open>On-chain cancellations\<close>

text \<open>The raw order from the book or else from its row; a falsy one counts as absent.\<close>

definition raw_of :: "string \<Rightarrow> (jval \<times> jval) option \<Rightarrow> engine \<Rightarrow> jval option" where
  "raw_of orderHash inMem e =
    (case inMem of
       Some (order, _) \<Rightarrow> Some order
     | None \<Rightarrow> (case fst (findRawOrderByHash (eng_db e) orderHash) of
                  Some order \<Rightarrow> if truthy order then Some order else None
                | None \<Rightarrow> None))"

definition tx_cancel :: "api_ext \<Rightarrow> string \<Rightarrow> string \<Rightarrow> engine \<Rightarrow> call_data result" where
  "tx_cancel x marketId orderHash e =
    (if read_only (api_sx x) then Inl (Forbidden ''read-only'')
     else if marketId = [] \<or> orderHash = [] then Inl (BadRequest ''marketId and orderHash are required'')
     else bind_res (getRaw marketId orderHash e) (\<lambda>inMem.
       case raw_of orderHash inMem e of
         None \<Rightarrow> Inl (BadRequest ''raw_order_not_found'')
       | Some order \<Rightarrow> buildCancelLimitOrder (api_zx x) (api_cfg x) (api_abi x) order))"

definition loose_addr :: "jval \<Rightarrow> string option" where
  "loose_addr v = (case v of JStr s \<Rightarrow> if starts_with s ''0x'' \<and> length s = 42 then Some s else None | _ \<Rightarrow> None)"

text \<open>\<open>String(v)\<close> of a value the DTO allows.\<close>

definition wire_text :: "api_ext \<Rightarrow> jval \<Rightarrow> string" where
  "wire_text x v =
    (case v of JStr s \<Rightarrow> s | JNum n \<Rightarrow> api_numString x n | JBig i \<Rightarrow> big_to_string i | _ \<Rightarrow> ''undefined'')"

definition tx_cancelPair :: "api_ext \<Rightarrow> jval \<Rightarrow> jval \<Rightarrow> jval \<Rightarrow> call_data result" where
  "tx_cancelPair x makerToken takerToken minValidSalt =
    (if read_only (api_sx x) then Inl (Forbidden ''read-only'')
     else case (loose_addr makerToken, loose_addr takerToken) of
       (Some mt, Some tt) \<Rightarrow>
         if jnullish minValidSalt \<or> trim (wire_text x minValidSalt) = []
         then Inl (BadRequest ''minValidSalt is required'')
         else bind_res (str_to_bigint (wire_text x minValidSalt))
                (buildCancelPairLimitOrders (api_zx x) (api_cfg x) (api_abi x) mt tt)
     | _ \<Rightarrow> Inl (BadRequest ''makerToken and takerToken must be addresses''))"

text \<open>\<open>getRaw(h, h).catch(() => null)\<close>: the hash stands for the market too.\<close>

definition raw_by_hash :: "string \<Rightarrow> engine \<Rightarrow> jval option" where
  "raw_by_hash h e = raw_of h (case getRaw h h e of Inl ex \<Rightarrow> None | Inr r \<Rightarrow> r) e"

definition tx_cancelMany :: "api_ext \<Rightarrow> string list \<Rightarrow> engine \<Rightarrow> call_data list result" where
  "tx_cancelMany x hashes e =
    (if read_only (api_sx x) then Inl (Forbidden ''read-only'')
     else if hashes = [] then Inl (BadRequest ''orderHashes must be a non-empty array'')
     else bind_res (map_res (buildCancelLimitOrder (api_zx x) (api_cfg x) (api_abi x))
           (map the (filter (\<lambda>r. r \<noteq> None) (map (\<lambda>h. raw_by_hash h e) hashes)))) (\<lambda>txList.
         if txList = [] then Inl (BadRequest ''no_raw_orders_found'') else Inr txList))"

section \<open>What a signed order rests as\<close>

text \<open>
  An address as a checksum or lower-case wallet writes it, and an order whose fields have the
  types of \<open>LimitOrder\<close> on the wire.
\<close>

definition wire_addr :: "jval \<Rightarrow> bool" where
  "wire_addr v \<longleftrightarrow> (\<exists>s. v = JStr s \<and> starts_with s ''0x'' \<and> length s = 42 \<and> trim s = s)"

definition wire_order :: "jval \<Rightarrow> bool" where
  "wire_order v \<longleftrightarrow> wire_addr (jget v ''maker'') \<and> wire_addr (jget v ''makerToken'') \<and>
    wire_addr (jget v ''takerToken'') \<and> (\<exists>s. jget v ''makerAmount'' = JStr s) \<and> (\<exists>s. jget v ''takerAmount'' = JStr s)"

lemma wire_addr_reads: "wire_addr v \<Longrightarrow> \<exists>s. v = JStr s \<and> asAddr v = s \<and> toLower v = Inr (to_lower s)"
  by (auto simp: wire_addr_def asAddr_def toLower_def)

lemma str_to_bigint_empty: "str_to_bigint [] = Inr 0"
  by code_simp

lemma wire_amount_reads: "\<exists>s. v = JStr s \<Longrightarrow> asBig v = js_BigInt v"
  using str_to_bigint_empty by (auto simp: asBig_def)

text \<open>Reading the expiry changes no other field.\<close>

lemma with_number_expiry_get: "k \<noteq> ''expiry'' \<Longrightarrow> jget (with_number_expiry v) k = jget v k"
proof -
  assume k: "k \<noteq> ''expiry''"
  have m: "map_of (map (\<lambda>(k, v). (k, if k = ''expiry'' then w else v)) fs) k = map_of fs k" for w :: jval and fs
    using k by (induction fs) auto
  then show ?thesis by (cases v; cases "jget v ''expiry''") (auto simp: with_number_expiry_def)
qed

lemma wire_order_reads:
  assumes "wire_order v" and "normalize (with_number_expiry v) = Inr lo"
  shows "toLower (jget (with_number_expiry v) ''maker'') = Inr (to_lower (lo_maker lo))"
    "toLower (jget (with_number_expiry v) ''makerToken'') = Inr (to_lower (lo_makerToken lo))"
    "toLower (jget (with_number_expiry v) ''takerToken'') = Inr (to_lower (lo_takerToken lo))"
    "js_BigInt (jget (with_number_expiry v) ''makerAmount'') = Inr (lo_makerAmount lo)"
    "js_BigInt (jget (with_number_expiry v) ''takerAmount'') = Inr (lo_takerAmount lo)"
  using assms wire_addr_reads [of "jget v ''maker''"] wire_addr_reads [of "jget v ''makerToken''"]
    wire_addr_reads [of "jget v ''takerToken''"]
  by (auto simp: wire_order_def normalize_def with_number_expiry_get wire_amount_reads)

lemma signed_hash_sound:
  assumes "\<not> dev_skip (api_sx x)" and "signed_hash x order mk sg = Inr (h, t)"
  shows "getOrderHash (api_zx x) (api_cfg x) (getChainIdFromEnv (api_env x)) order = Inr h \<and>
    wire_signature sg = Inr t \<and>
    (\<exists>a. verifySignature (api_zx x) (api_cfg x) (getChainIdFromEnv (api_env x)) order t = Inr (Some a) \<and>
      to_lower (trim a) = mk)"
  using assms by (auto simp: signed_hash_def refuse_signature_def split: option.splits if_splits)

lemma accepted_order_sound:
  assumes "accepted_order x b = Inr rq"
  shows "\<not> read_only (api_sx x)" "pq_order rq = with_number_expiry (ob_order b)"
    "pq_postOnly rq = ob_postOnly b"
    "toLower (jget (pq_order rq) ''maker'') = Inr (pq_makerExpected rq)"
    "\<exists>t. signed_hash x (pq_order rq) (pq_makerExpected rq) (the (ob_signature b)) = Inr (pq_orderHash rq, t) \<and>
      pq_signature rq = sig_json t"
  using assms by (auto simp: accepted_order_def Let_def split: if_splits)


text \<open>Market tokens whose addresses carry no outer spaces, and the pair a market trades.\<close>

definition trimmed_tokens :: "db \<Rightarrow> bool" where
  "trimmed_tokens d \<longleftrightarrow> (\<forall>m \<in> set (listMarketsBasic d).
    trim (mb_baseAddress m) = mb_baseAddress m \<and> trim (mb_quoteAddress m) = mb_quoteAddress m)"

lemma listed_tokens:
  assumes "markets_ok d" and "mkt \<in> set (listMarketsBasic d)" and "getTradingContext d (mb_id mkt) = Inr ctx"
  shows "to_lower (mb_baseAddress mkt) = ctx_baseAddress ctx" "to_lower (mb_quoteAddress mkt) = ctx_quoteAddress ctx"
proof -
  obtain m where m: "m \<in> set (d_markets d)" "mkt = \<lparr>mb_id = mk_id m, mb_symbol = mk_symbol m,
      mb_baseAddress = to_lower (mk_baseAddress m), mb_quoteAddress = to_lower (mk_quoteAddress m)\<rparr>"
    using assms(2) by (auto simp: listMarketsBasic_def)
  have "find (\<lambda>n. mk_id n = mk_id m \<or> mk_symbol n = mk_id m) (d_markets d) = Some m"
    using market_unique [OF assms(1) m(1)] m(1) by (intro find_unique) auto
  with assms(3) m(2) show "to_lower (mb_baseAddress mkt) = ctx_baseAddress ctx"
    "to_lower (mb_quoteAddress mkt) = ctx_quoteAddress ctx"
    by (auto simp: getTradingContext_def)
qed

text \<open>
  The terms an order has in a market: it sells the base token for the quote token or buys it with
  the quote token, its size is the base amount, and the price in ticks reproduces the quote amount.
\<close>

definition terms_in :: "trading_ctx \<Rightarrow> string \<Rightarrow> string \<Rightarrow> int \<Rightarrow> int \<Rightarrow> side \<Rightarrow> int \<Rightarrow> int \<Rightarrow> bool" where
  "terms_in ctx makerToken takerToken makerAmount takerAmount sd sz px \<longleftrightarrow>
    (case sd of
       SELL \<Rightarrow> makerToken = ctx_baseAddress ctx \<and> takerToken = ctx_quoteAddress ctx \<and> sz = makerAmount \<and>
         px * (makerAmount * ctx_priceTickQ ctx) = takerAmount * 10 ^ ctx_baseDecimals ctx
     | BUY \<Rightarrow> makerToken = ctx_quoteAddress ctx \<and> takerToken = ctx_baseAddress ctx \<and> sz = takerAmount \<and>
         px * (takerAmount * ctx_priceTickQ ctx) = makerAmount * 10 ^ ctx_baseDecimals ctx)"

lemma placed_terms:
  assumes wf: "engine_wf e" and tr: "trimmed_tokens (eng_db e)"
    and dec: "place_decide pe x rq e = Inr (mkt, sd, sz, px)" and ctx: "getTradingContext (eng_db e) (mb_id mkt) = Inr ctx"
    and tok: "toLower (jget (pq_order rq) ''makerToken'') = Inr mt" "toLower (jget (pq_order rq) ''takerToken'') = Inr tt"
    and amt: "js_BigInt (jget (pq_order rq) ''makerAmount'') = Inr ma" "js_BigInt (jget (pq_order rq) ''takerAmount'') = Inr ta"
  shows "ctx_symbol ctx = mb_symbol mkt" and "terms_in ctx mt tt ma ta sd sz px"
proof -
  have f: "find_market mt tt (listMarketsBasic (eng_db e)) = Some mkt"
    and d: "derive_terms ctx mt tt ma ta = Inr (sd, sz, px)"
    using dec ctx tok amt by (auto simp: place_decide_def Let_def split: option.splits if_splits)
  have mok: "markets_ok (eng_db e)" using wf by (simp add: engine_wf_def)
  have m: "mkt \<in> set (listMarketsBasic (eng_db e))" by (rule find_market_in [OF f])
  show "ctx_symbol ctx = mb_symbol mkt" by (rule basic_ctx(1) [OF mok m ctx])
  have "trim (mb_baseAddress mkt) = mb_baseAddress mkt" "trim (mb_quoteAddress mkt) = mb_quoteAddress mkt"
    using tr m by (simp_all add: trimmed_tokens_def)
  then have "ctx_baseAddress ctx = mt \<and> ctx_quoteAddress ctx = tt \<or> ctx_baseAddress ctx = tt \<and> ctx_quoteAddress ctx = mt"
    using find_in [OF f [unfolded find_market_def Let_def]] listed_tokens [OF mok m ctx] by auto
  with d exact_ticks_sound show "terms_in ctx mt tt ma ta sd sz px"
    by (auto simp: derive_terms_def terms_in_def pow10_def split: if_splits)
qed

text \<open>
  C9. An order the public endpoint accepts was signed by its maker, and rests on the terms that were
  signed. Outside the development mode, and for an order whose addresses and amounts have their
  wire form, a successful \<open>POST /orders\<close> answers the EIP-712 hash of the normalised order under the
  exchange proxy of its chain, the recovered signer is the maker of that order, and the hash names
  a level in the book of a market that trades the two signed tokens: a sell when the maker gives the
  base token, a buy when the maker gives the quote token, of that maker, with the signed base amount
  and the price in ticks that reproduces the other signed amount without rounding, carrying the
  submitted order. A request that is refused, or made in read-only mode, leaves books and database
  alone.
\<close>

theorem posted_order_is_signed:
  assumes wf: "engine_wf e" and tr: "trimmed_tokens (eng_db e)" and strict: "\<not> dev_skip (api_sx x)"
    and wire: "wire_order (ob_order b)"
  shows "(\<forall>ex. accepted_order x b = Inl ex \<longrightarrow> post_orders x now b e = (Inl ex, e)) \<and>
    (read_only (api_sx x) \<longrightarrow> snd (post_orders x now b e) = e) \<and>
    (\<forall>h e'. post_orders x now b e = (Inr h, e') \<longrightarrow>
      (\<exists>proxy spender lo t a ctx bk l.
        resolve (api_zx x) (api_cfg x) = Inr (proxy, spender) \<and>
        normalize (with_number_expiry (ob_order b)) = Inr lo \<and>
        zx_typedDataHash (api_zx x) (getChainIdFromEnv (api_env x)) proxy lo = Inr h \<and>
        wire_signature (the (ob_signature b)) = Inr t \<and>
        verifySignature (api_zx x) (api_cfg x) (getChainIdFromEnv (api_env x))
          (with_number_expiry (ob_order b)) t = Inr (Some a) \<and>
        to_lower (trim a) = to_lower (lo_maker lo) \<and>
        getTradingContext (eng_db e) (ctx_id ctx) = Inr ctx \<and> book_at e' (ctx_symbol ctx) = Some bk \<and>
        find_level (\<lambda>l. lv_id l = h) bk = Some l \<and> lv_maker l = to_lower (lo_maker lo) \<and>
        lv_rawOrder l = Some (normalizeOrderForJson (with_number_expiry (ob_order b))) \<and>
        (case lv_side l of
           SELL \<Rightarrow> to_lower (lo_makerToken lo) = ctx_baseAddress ctx \<and> to_lower (lo_takerToken lo) = ctx_quoteAddress ctx \<and>
             lv_sizeBase l = lo_makerAmount lo \<and>
             lv_priceTicks l * (lo_makerAmount lo * ctx_priceTickQ ctx) = lo_takerAmount lo * 10 ^ ctx_baseDecimals ctx
         | BUY \<Rightarrow> to_lower (lo_makerToken lo) = ctx_quoteAddress ctx \<and> to_lower (lo_takerToken lo) = ctx_baseAddress ctx \<and>
             lv_sizeBase l = lo_takerAmount lo \<and>
             lv_priceTicks l * (lo_takerAmount lo * ctx_priceTickQ ctx) = lo_makerAmount lo * 10 ^ ctx_baseDecimals ctx)))"
proof (intro conjI allI impI)
  fix ex
  assume "accepted_order x b = Inl ex"
  then show "post_orders x now b e = (Inl ex, e)" by (simp add: post_orders_def)
next
  assume "read_only (api_sx x)"
  then show "snd (post_orders x now b e) = e" by (simp add: post_orders_def accepted_order_def)
next
  fix h e'
  assume run: "post_orders x now b e = (Inr h, e')"
  then obtain rq where rq: "accepted_order x b = Inr rq"
    and placed: "place_order (api_env x) (sx_chain (api_sx x)) now rq e = (Inr h, e')"
    by (auto simp: post_orders_def split: sum.splits)
  note acc = accepted_order_sound [OF rq]
  obtain t a where sg: "getOrderHash (api_zx x) (api_cfg x) (getChainIdFromEnv (api_env x)) (pq_order rq) = Inr h"
    "wire_signature (the (ob_signature b)) = Inr t"
    "verifySignature (api_zx x) (api_cfg x) (getChainIdFromEnv (api_env x)) (pq_order rq) t = Inr (Some a)"
    "to_lower (trim a) = pq_makerExpected rq"
    using acc(5) signed_hash_sound [OF strict] place_order_hash [OF placed] by blast
  from sg(1) obtain proxy spender lo where lo: "resolve (api_zx x) (api_cfg x) = Inr (proxy, spender)"
    "normalize (pq_order rq) = Inr lo" "zx_typedDataHash (api_zx x) (getChainIdFromEnv (api_env x)) proxy lo = Inr h"
    by (auto simp: getOrderHash_def)
  note reads = wire_order_reads [OF wire lo(2) [unfolded acc(2)], folded acc(2)]
  with acc(4) have mk: "pq_makerExpected rq = to_lower (lo_maker lo)" by simp
  obtain mkt sd sz px ctx bk l where dec: "place_decide (api_env x) (sx_chain (api_sx x)) rq e = Inr (mkt, sd, sz, px)"
    and ctx: "getTradingContext (eng_db e) (mb_id mkt) = Inr ctx"
    and r: "book_at e' (mb_symbol mkt) = Some bk" "find_level (\<lambda>l. lv_id l = h) bk = Some l"
      "lv_side l = sd" "lv_sizeBase l = sz" "lv_priceTicks l = px" "lv_maker l = to_lower (pq_makerExpected rq)"
      "lv_rawOrder l = Some (normalizeOrderForJson (pq_order rq))"
    by (rule place_order_rests [OF wf placed])
  have tm: "ctx_symbol ctx = mb_symbol mkt"
    "terms_in ctx (to_lower (lo_makerToken lo)) (to_lower (lo_takerToken lo)) (lo_makerAmount lo) (lo_takerAmount lo) sd sz px"
    by (rule placed_terms [OF wf tr dec ctx reads(2-5)])+
  have "ctx_id ctx = mb_id mkt" using basic_ctx(2) place_decide_sound [OF dec] wf ctx by (metis engine_wf_def)
  with ctx have "getTradingContext (eng_db e) (ctx_id ctx) = Inr ctx" by simp
  then show "\<exists>proxy spender lo t a ctx bk l.
        resolve (api_zx x) (api_cfg x) = Inr (proxy, spender) \<and>
        normalize (with_number_expiry (ob_order b)) = Inr lo \<and>
        zx_typedDataHash (api_zx x) (getChainIdFromEnv (api_env x)) proxy lo = Inr h \<and>
        wire_signature (the (ob_signature b)) = Inr t \<and>
        verifySignature (api_zx x) (api_cfg x) (getChainIdFromEnv (api_env x))
          (with_number_expiry (ob_order b)) t = Inr (Some a) \<and>
        to_lower (trim a) = to_lower (lo_maker lo) \<and>
        getTradingContext (eng_db e) (ctx_id ctx) = Inr ctx \<and> book_at e' (ctx_symbol ctx) = Some bk \<and>
        find_level (\<lambda>l. lv_id l = h) bk = Some l \<and> lv_maker l = to_lower (lo_maker lo) \<and>
        lv_rawOrder l = Some (normalizeOrderForJson (with_number_expiry (ob_order b))) \<and>
        (case lv_side l of
           SELL \<Rightarrow> to_lower (lo_makerToken lo) = ctx_baseAddress ctx \<and> to_lower (lo_takerToken lo) = ctx_quoteAddress ctx \<and>
             lv_sizeBase l = lo_makerAmount lo \<and>
             lv_priceTicks l * (lo_makerAmount lo * ctx_priceTickQ ctx) = lo_takerAmount lo * 10 ^ ctx_baseDecimals ctx
         | BUY \<Rightarrow> to_lower (lo_makerToken lo) = ctx_quoteAddress ctx \<and> to_lower (lo_takerToken lo) = ctx_baseAddress ctx \<and>
             lv_sizeBase l = lo_takerAmount lo \<and>
             lv_priceTicks l * (lo_takerAmount lo * ctx_priceTickQ ctx) = lo_makerAmount lo * 10 ^ ctx_baseDecimals ctx)"
    using lo sg r tm mk acc(2)
    by (intro exI [of _ proxy] exI [of _ spender] exI [of _ lo] exI [of _ t] exI [of _ a] exI [of _ ctx]
        exI [of _ bk] exI [of _ l]) (simp add: terms_in_def split: side.splits)
qed


section \<open>A sample post\<close>

definition sample_api :: api_ext where
  "sample_api =
    \<lparr>api_sx = sample_sx, api_jsonHash = (\<lambda>v. Inl TypeError), api_recover = (\<lambda>h sg. Inr sample_owner),
     api_numString = (\<lambda>n. ''0''),
     api_abi = \<lparr>ab_fill = (\<lambda>o' sg n. Inr ''0xf6274f66''), ab_batchFill = (\<lambda>os sgs ns r. Inr ''0x1baaa00b''),
       ab_cancel = (\<lambda>o'. Inr ''0x7d49ec1a''), ab_cancelPair = (\<lambda>m t s. Inr ''0x9baa45a8'')\<rparr>,
     api_zeroExChain = Inr 84532\<rparr>"

definition sample_post :: order_body where
  "sample_post =
    \<lparr>ob_order = JObj [(''maker'', JStr sample_owner), (''makerToken'', JStr (hex_addr CHR ''b'')),
       (''takerToken'', JStr (hex_addr CHR ''c'')), (''makerAmount'', JStr ''200''),
       (''takerAmount'', JStr ''100''), (''expiry'', JStr ''1700000000''), (''salt'', JStr ''1'')],
     ob_signature = Some (Inr \<lparr>zs_signatureType = 2, zs_v = num 0,
       zs_r = ''0x'' @ replicate 64 CHR ''1'', zs_s = ''0x'' @ replicate 64 CHR ''2''\<rparr>),
     ob_postOnly = True\<rparr>"

lemma sample_post_wire: "wire_order (ob_order sample_post)"
proof -
  have "wire_addr (JStr (hex_addr c))" if "\<not> is_space c" for c
    using that by (auto simp: wire_addr_def hex_addr_def starts_with_two trim_no_space is_space_def code_def)
  then show ?thesis
    by (simp add: wire_order_def sample_post_def sample_owner_def is_space_def code_def)
qed

theorem posted_order_is_signed_witness:
  "\<exists>h e' k bk l. post_orders sample_api 9 sample_post (sea_engine sea_sample) = (Inr h, e') \<and>
    book_at e' k = Some bk \<and> find_level (\<lambda>l. lv_id l = h) bk = Some l \<and> lv_maker l = sample_owner"
proof -
  let ?run = "post_orders sample_api 9 sample_post (sea_engine sea_sample)"
  have ok: "fst ?run = Inr (''0x'' @ replicate 64 CHR ''7'')" by code_simp
  have wf: "engine_wf (sea_engine sea_sample)"
    by (simp add: engine_wf_def engine_ok_def sea_sample_def markets_ok_def sea_market_def)
  have strict: "\<not> dev_skip (api_sx sample_api)" by code_simp
  have mk: "(case normalize (with_number_expiry (ob_order sample_post)) of
      Inr lo \<Rightarrow> to_lower (lo_maker lo) | Inl ex \<Rightarrow> []) = sample_owner" by code_simp
  from ok obtain h e' where run: "?run = (Inr h, e')" by (cases ?run) auto
  have tr: "trimmed_tokens (eng_db (sea_engine sea_sample))" unfolding trimmed_tokens_def by code_simp
  from posted_order_is_signed [OF wf tr strict sample_post_wire, of 9, THEN conjunct2, THEN conjunct2, rule_format, OF run]
  have "\<exists>lo k bk l. normalize (with_number_expiry (ob_order sample_post)) = Inr lo \<and>
      book_at e' k = Some bk \<and> find_level (\<lambda>l. lv_id l = h) bk = Some l \<and> lv_maker l = to_lower (lo_maker lo)"
    by (elim exE conjE) blast
  with mk run show ?thesis by auto blast
qed

end
