(* ===== verification/MatchApi.thy ===== *)
theory MatchApi
  imports OrdersApi DelegatedExecutor
begin

text \<open>
  \<open>apps/api/src/public/match.controller.ts\<close>: the quote endpoint with its gates and the transactions
  it offers, and the manual application of fills. The local \<open>sanitizeOrder\<close> of this file is the one
  of the delegated fill builder. Log lines and the latency metric are left out.
\<close>

section \<open>Requests and replies\<close>

record match_request =
  mr_marketId :: string
  mr_side :: string
  mr_sizeBase :: jval
  mr_tif :: "string option"
  mr_limitPriceTicks :: jval

record match_reply =
  mq_plan :: quote_res
  mq_tif :: string
  mq_takerToken :: string
  mq_takerAmount :: string
  mq_txData :: "call_data option"
  mq_txList :: "call_data list"
  mq_availableBase :: string
  mq_shortfallBase :: string
  mq_noTxReason :: "string option"

definition match_side :: "string \<Rightarrow> side" where
  "match_side s = (if to_upper s = ''SELL'' then SELL else BUY)"

text \<open>The optional cap: a positive integer, anything else that is an integer is ignored.\<close>

definition limit_cap :: "api_ext \<Rightarrow> jval \<Rightarrow> int option result" where
  "limit_cap x v =
    (if jnullish v then Inr None
     else case str_to_bigint (wire_text x v) of
       Inl ex \<Rightarrow> Inl (BadRequest ''limitPriceTicks must be a positive integer'')
     | Inr n \<Rightarrow> Inr (if 0 < n then Some n else None))"

section \<open>Transactions for a plan\<close>

definition fill_raw :: "quote_fill \<Rightarrow> (jval \<times> jval) option" where
  "fill_raw f =
    (case (qf_rawOrder f, qf_rawSig f) of
       (Some ro, Some sg) \<Rightarrow> if truthy ro \<and> truthy sg then Some (ro, sg) else None
     | _ \<Rightarrow> None)"

definition hydrate_fill :: "db \<Rightarrow> quote_fill \<Rightarrow> quote_fill" where
  "hydrate_fill d f =
    (case hydrated d f of
       Some (ro, sg) \<Rightarrow> f\<lparr>qf_rawOrder := Some ro, qf_rawSig := Some sg\<rparr> | None \<Rightarrow> f)"

abbreviation fill_tx_data :: "api_ext \<Rightarrow> limit_order \<Rightarrow> jval \<Rightarrow> int \<Rightarrow> call_data result" where
  "fill_tx_data x \<equiv> buildFillLimitOrder (api_zx x) (api_cfg x) (api_abi x)"

text \<open>What a plan offers: the hydrated fills, one transaction, or several, or a reason for none.\<close>

type_synonym offer = "quote_fill list \<times> call_data option \<times> call_data list \<times> string option"

definition single_offer :: "api_ext \<Rightarrow> side \<Rightarrow> quote_fill \<Rightarrow> offer result" where
  "single_offer x sd f =
    (case fill_raw f of
       None \<Rightarrow> Inr ([f], None, [], Some ''missing_raw'')
     | Some (ro, sg) \<Rightarrow>
         bind_res (df_sanitizeOrder ro) (\<lambda>lo.
         bind_res (str_to_bigint (qf_sizeBase f)) (\<lambda>fillBase. Inr
           (case fill_tx_data x lo sg (taker_fill sd fillBase lo) of
              Inl ex \<Rightarrow> ([f], None, [], Some (''builder_fail: '' @ exn_message ex))
            | Inr tx \<Rightarrow> ([f], Some tx, [], None)))))"

text \<open>A signature for the batch: a 65-byte hex string, a tuple, or else a dummy.\<close>

definition abi_signature :: "jval \<Rightarrow> jval" where
  "abi_signature sg =
    (let dummy = sig_json \<lparr>zs_signatureType = 2, zs_v = num 27, zs_r = ZERO_BYTES32, zs_s = ZERO_BYTES32\<rparr>
     in case sg of
       JStr s \<Rightarrow> if is_0x_hex 130 s then sg else dummy
     | JObj fs \<Rightarrow> if map_of fs ''r'' \<noteq> None \<and> map_of fs ''s'' \<noteq> None \<and> map_of fs ''v'' \<noteq> None then sg else dummy
     | _ \<Rightarrow> dummy)"

definition batch_or_sequence ::
  "api_ext \<Rightarrow> quote_fill list \<Rightarrow> limit_order list \<Rightarrow> jval list \<Rightarrow> int list \<Rightarrow> offer" where
  "batch_or_sequence x fs orders sigs amounts =
    (case buildBatchFillLimitOrders (api_zx x) (api_cfg x) (api_abi x) (api_zeroExChain x) orders
            (map abi_signature sigs) amounts False of
       Inr tx \<Rightarrow> (fs, Some tx, [], None)
     | Inl ex \<Rightarrow>
         (case map_res (\<lambda>(lo, sg, n). fill_tx_data x lo sg n) (zip orders (zip sigs amounts)) of
            Inr txs \<Rightarrow> (fs, None, txs, None)
          | Inl ex2 \<Rightarrow> (fs, None, [], Some (''builder_fail: '' @ exn_message ex2))))"

definition multi_offer :: "api_ext \<Rightarrow> side \<Rightarrow> quote_fill list \<Rightarrow> offer result" where
  "multi_offer x sd fs =
    (if \<exists>f \<in> set fs. fill_raw f = None then Inr (fs, None, [], Some ''missing_raw'')
     else
       bind_res (map_res (\<lambda>f. df_sanitizeOrder (fst (the (fill_raw f)))) fs) (\<lambda>orders.
       bind_res (map_res (\<lambda>f. str_to_bigint (qf_sizeBase f)) fs) (\<lambda>sizes. Inr
         (batch_or_sequence x fs orders (map (\<lambda>f. snd (the (fill_raw f))) fs) (map2 (taker_fill sd) sizes orders)))))"

definition plan_offer :: "api_ext \<Rightarrow> side \<Rightarrow> quote_fill list \<Rightarrow> offer result" where
  "plan_offer x sd fs =
    (case fs of
       [] \<Rightarrow> Inr ([], None, [], Some ''no_fills'')
     | [f] \<Rightarrow> single_offer x sd f
     | _ \<Rightarrow> multi_offer x sd fs)"

section \<open>The quote endpoint\<close>

definition gate_notional :: "trading_ctx \<Rightarrow> quote_fill list \<Rightarrow> int" where
  "gate_notional ctx fs = sum_list (map (\<lambda>f.
     case (str_to_bigint (qf_priceTicks f), str_to_bigint (qf_sizeBase f)) of
       (Inr px, Inr sz) \<Rightarrow> tdiv (px * ctx_priceTickQ ctx * sz) (pow10 (ctx_baseDecimals ctx))
     | _ \<Rightarrow> 0) fs)"

text \<open>The token of the plan when it is an address, else the one of the side.\<close>

definition reply_token :: "trading_ctx \<Rightarrow> quote_res \<Rightarrow> string" where
  "reply_token ctx plan =
    (if starts_with (q_takerToken plan) ''0x'' \<and> length (q_takerToken plan) = 42 then q_takerToken plan
     else (case q_side plan of BUY \<Rightarrow> ctx_quoteAddress ctx | SELL \<Rightarrow> ctx_baseAddress ctx))"

definition counted :: "engine \<Rightarrow> engine" where
  "counted e = e\<lparr>eng_db := inc_metric ''quotes'' (eng_db e)\<rparr>"

definition match_plan ::
  "api_ext \<Rightarrow> trading_ctx \<Rightarrow> string \<Rightarrow> int \<Rightarrow> quote_res \<Rightarrow> engine \<Rightarrow> match_reply result \<times> engine" where
  "match_plan x ctx tif sizeBase plan e =
    (case map_res (\<lambda>f. str_to_bigint (qf_sizeBase f)) (q_fills plan) of
       Inl ex \<Rightarrow> (Inl ex, e)
     | Inr sizes \<Rightarrow>
         (let availableBase = sum_list sizes;
              shortfallBase = (if sizeBase > availableBase then sizeBase - availableBase else 0)
          in if tif = ''FOK'' \<and> shortfallBase > 0 then (Inl (BadRequest ''fok_insufficient_liquidity''), counted e)
             else if q_fills plan \<noteq> [] \<and> gate_notional ctx (q_fills plan) < ctx_minNotionalQ ctx
             then (Inl (BadRequest ''notional_below_min_notional''), counted e)
             else case plan_offer x (q_side plan) (map (hydrate_fill (eng_db e)) (q_fills plan)) of
               Inl ex \<Rightarrow> (Inl ex, e)
             | Inr (fs, txData, txList, reason) \<Rightarrow>
                 (Inr \<lparr>mq_plan = plan\<lparr>q_fills := fs\<rparr>, mq_tif = tif, mq_takerToken = reply_token ctx plan,
                       mq_takerAmount = q_takerAmount plan, mq_txData = txData, mq_txList = txList,
                       mq_availableBase = big_to_string availableBase,
                       mq_shortfallBase = big_to_string shortfallBase, mq_noTxReason = reason\<rparr>, counted e)))"

definition match_terms :: "api_ext \<Rightarrow> match_request \<Rightarrow> db \<Rightarrow> (int \<times> int option \<times> trading_ctx) result" where
  "match_terms x q d =
    (if mr_marketId q = [] \<or> mr_side q = [] \<or> jnullish (mr_sizeBase q)
     then Inl (BadRequest ''marketId, side, sizeBase are required'')
     else
       bind_res (str_to_bigint (wire_text x (mr_sizeBase q))) (\<lambda>sizeBase.
       bind_res (limit_cap x (mr_limitPriceTicks q)) (\<lambda>cap.
       bind_res (getTradingContext d (mr_marketId q)) (\<lambda>ctx.
         if sizeBase < ctx_minSizeB ctx then Inl (BadRequest ''size_below_min_size'')
         else Inr (sizeBase, cap, ctx)))))"

definition match_quote :: "api_ext \<Rightarrow> match_request \<Rightarrow> engine \<Rightarrow> match_reply result \<times> engine" where
  "match_quote x q e =
    (case match_terms x q (eng_db e) of
       Inl ex \<Rightarrow> (Inl ex, e)
     | Inr (sizeBase, cap, ctx) \<Rightarrow>
         (case quote (TAKER_FEE_BPS (api_env x)) (mr_marketId q) (match_side (mr_side q)) sizeBase cap e of
            (Inl ex, e1) \<Rightarrow> (Inl ex, e1)
          | (Inr plan, e1) \<Rightarrow>
              match_plan x ctx (case mr_tif q of Some t \<Rightarrow> t | None \<Rightarrow> ''GTC'') sizeBase plan e1))"

section \<open>Applying fills by hand\<close>

definition on_chain_watcher :: "penv \<Rightarrow> bool" where
  "on_chain_watcher pe \<longleftrightarrow> env_or_nullish pe ''DEV_ONCHAIN_WATCHER'' '''' = ''1''"

text \<open>A fill of the body: its hash and executed base, the empty text and \<open>"0"\<close> when absent.\<close>

fun apply_fills :: "bool \<Rightarrow> int \<Rightarrow> string \<Rightarrow> (string option \<times> string option) list \<Rightarrow> engine \<Rightarrow> unit result \<times> engine" where
  "apply_fills watched now marketId [] e = (Inr (), e)"
| "apply_fills watched now marketId ((h, n) # fs) e =
    (case str_to_bigint (case n of Some s \<Rightarrow> s | None \<Rightarrow> ''0'') of
       Inl ex \<Rightarrow> (Inl ex, e)
     | Inr execBase \<Rightarrow>
         (let orderHash = to_lower (case h of Some s \<Rightarrow> s | None \<Rightarrow> '''') in
          if orderHash = [] \<or> execBase \<le> 0 \<or> watched then apply_fills watched now marketId fs e
          else case applyExternalFill now marketId orderHash execBase e of
            (Inl ex, e1) \<Rightarrow> (Inl ex, e1)
          | (Inr st, e1) \<Rightarrow> apply_fills watched now marketId fs e1))"

definition match_apply ::
  "api_ext \<Rightarrow> int \<Rightarrow> string \<Rightarrow> (string option \<times> string option) list option \<Rightarrow> engine \<Rightarrow> int result \<times> engine" where
  "match_apply x now marketId fills e =
    (case fills of
       None \<Rightarrow> (Inl (BadRequest ''marketId and fills[] are required''), e)
     | Some fs \<Rightarrow>
         if marketId = [] then (Inl (BadRequest ''marketId and fills[] are required''), e)
         else (case apply_fills (on_chain_watcher (api_env x)) now marketId fs e of
             (Inl ex, e1) \<Rightarrow> (Inl ex, e1)
           | (Inr _, e1) \<Rightarrow>
               (Inr (int (length fs)),
                if on_chain_watcher (api_env x) then e1 else e1\<lparr>eng_db := inc_metric ''fills'' (eng_db e1)\<rparr>)))"

end
