(* ===== verification/MatchProps.thy ===== *)
theory MatchProps
  imports MatchApi
begin

text \<open>
  What a reply of the quote endpoint is worth: the gates it passed, and that its transactions
  execute its plan.
\<close>

section \<open>Offers\<close>

text \<open>
  The signed order of a fill: the one the book holds, or else the stored one of its hash. The taker
  tokens that take a base amount from it: quote tokens in the proportion of the order for a buy, the
  base amount itself for a sell.
\<close>

definition on_file :: "db \<Rightarrow> quote_fill \<Rightarrow> jval \<Rightarrow> jval \<Rightarrow> bool" where
  "on_file d f ro sg \<longleftrightarrow>
    (if \<exists>r s. qf_rawOrder f = Some r \<and> qf_rawSig f = Some s \<and> truthy r \<and> truthy s
     then qf_rawOrder f = Some ro \<and> qf_rawSig f = Some sg
     else \<exists>t. findRawOrderByHash d (qf_hash f) = (Some ro, Some t) \<and> truthy ro \<and> sg = tuple_json t)"

definition taker_tokens :: "side \<Rightarrow> int \<Rightarrow> limit_order \<Rightarrow> int" where
  "taker_tokens sd sz lo =
    (case sd of
       BUY \<Rightarrow> tdiv (sz * lo_takerAmount lo) (if lo_makerAmount lo = 0 then 1 else lo_makerAmount lo)
     | SELL \<Rightarrow> sz)"

text \<open>The transaction takes exactly the fill \<open>f\<close> from its order, at the exchange proxy.\<close>

definition executes :: "api_ext \<Rightarrow> db \<Rightarrow> side \<Rightarrow> quote_fill \<Rightarrow> call_data \<Rightarrow> bool" where
  "executes x d sd f tx \<longleftrightarrow> (\<exists>ro sg lo proxy spender abiSig data.
    on_file d f ro sg \<and> df_sanitizeOrder ro = Inr lo \<and>
    resolve (api_zx x) (api_cfg x) = Inr (proxy, spender) \<and> sig_for_abi sg = Inr abiSig \<and>
    ab_fill (api_abi x) (order_json lo) abiSig (taker_tokens sd (fill_size f) lo) = Inr data \<and> tx = (proxy, data))"

text \<open>
  One transaction takes all fills, each from its order with the signature on file where that is a
  65-byte hex string or a tuple; the sequential networks never see it.
\<close>

definition usable_signature :: "jval \<Rightarrow> bool" where
  "usable_signature sg \<longleftrightarrow> (\<exists>s. sg = JStr s \<and> is_0x_hex 130 s) \<or>
    (\<exists>fs. sg = JObj fs \<and> map_of fs ''r'' \<noteq> None \<and> map_of fs ''s'' \<noteq> None \<and> map_of fs ''v'' \<noteq> None)"

definition batch_executes :: "api_ext \<Rightarrow> db \<Rightarrow> side \<Rightarrow> quote_fill list \<Rightarrow> call_data \<Rightarrow> bool" where
  "batch_executes x d sd fs tx \<longleftrightarrow> (\<exists>chain orders abiSigs proxy spender data.
    api_zeroExChain x = Inr chain \<and> chain \<noteq> 8453 \<and> chain \<noteq> 11155111 \<and>
    list_all2 (\<lambda>f lo. \<exists>ro sg. on_file d f ro sg \<and> df_sanitizeOrder ro = Inr lo) fs orders \<and>
    list_all2 (\<lambda>f s. \<exists>ro sg. on_file d f ro sg \<and> (usable_signature sg \<longrightarrow> sig_for_abi sg = Inr s)) fs abiSigs \<and>
    resolve (api_zx x) (api_cfg x) = Inr (proxy, spender) \<and>
    ab_batchFill (api_abi x) (map order_json orders) abiSigs
      (map2 (\<lambda>f lo. taker_tokens sd (fill_size f) lo) fs orders) False = Inr data \<and>
    tx = (proxy, data))"

text \<open>Why the call for a fill cannot be built: an address, the signature or the encoding fails.\<close>

definition call_fails :: "api_ext \<Rightarrow> db \<Rightarrow> side \<Rightarrow> quote_fill \<Rightarrow> exn \<Rightarrow> bool" where
  "call_fails x d sd f ex \<longleftrightarrow> (\<exists>ro sg lo. on_file d f ro sg \<and> df_sanitizeOrder ro = Inr lo \<and>
    (resolve (api_zx x) (api_cfg x) = Inl ex \<or> sig_for_abi sg = Inl ex \<or>
     (\<exists>abiSig. sig_for_abi sg = Inr abiSig \<and>
        ab_fill (api_abi x) (order_json lo) abiSig (taker_tokens sd (fill_size f) lo) = Inl ex)))"

definition offer_ok ::
  "api_ext \<Rightarrow> db \<Rightarrow> side \<Rightarrow> quote_fill list \<Rightarrow> call_data option \<Rightarrow> call_data list \<Rightarrow> string option \<Rightarrow> bool" where
  "offer_ok x d sd fs txData txList reason \<longleftrightarrow>
    (case reason of
       Some r \<Rightarrow> txData = None \<and> txList = [] \<and>
         (fs = [] \<and> r = ''no_fills'' \<or>
          (\<exists>f \<in> set fs. \<forall>ro sg. \<not> on_file d f ro sg) \<and> r = ''missing_raw'' \<or>
          (\<exists>f \<in> set fs. \<exists>ex. call_fails x d sd f ex \<and> r = ''builder_fail: '' @ exn_message ex))
     | None \<Rightarrow>
         (case txData of
            None \<Rightarrow> 2 \<le> length fs \<and> list_all2 (executes x d sd) fs txList
          | Some tx \<Rightarrow> txList = [] \<and>
              ((\<exists>f. fs = [f] \<and> executes x d sd f tx) \<or> (2 \<le> length fs \<and> batch_executes x d sd fs tx))))"

lemma hydrate_core [simp]:
  "qf_hash (hydrate_fill d f) = qf_hash f" "qf_priceTicks (hydrate_fill d f) = qf_priceTicks f"
  "qf_sizeBase (hydrate_fill d f) = qf_sizeBase f"
  by (auto simp: hydrate_fill_def split: option.splits)

lemma hydrated_on_file: "hydrated d f = Some (ro, sg) \<longleftrightarrow> on_file d f ro sg"
  unfolding hydrated_def on_file_def by (auto split: option.splits prod.splits)

lemma fill_raw_hydrated [simp]: "fill_raw (hydrate_fill d f) = hydrated d f"
proof (cases "hydrated d f")
  case None
  then show ?thesis by (auto simp: hydrate_fill_def fill_raw_def hydrated_def split: option.splits)
next
  case (Some r)
  then obtain ro sg where h: "hydrated d f = Some (ro, sg)" by (cases r) auto
  then have "truthy ro \<and> truthy sg"
    by (auto simp: hydrated_on_file on_file_def tuple_json_def split: if_splits)
  with h show ?thesis by (simp add: hydrate_fill_def fill_raw_def)
qed

lemma taker_fill_tokens: "str_to_bigint (qf_sizeBase f) = Inr sz \<Longrightarrow> taker_fill sd sz lo = taker_tokens sd (fill_size f) lo"
  by (simp add: taker_fill_def taker_tokens_def fill_size_def amount_def)

lemma fill_call:
  assumes "on_file d f ro sg" and "df_sanitizeOrder ro = Inr lo" and "str_to_bigint (qf_sizeBase f) = Inr sz"
  shows "fill_tx_data x lo sg (taker_fill sd sz lo) = Inr tx \<Longrightarrow> executes x d sd f tx"
    and "fill_tx_data x lo sg (taker_fill sd sz lo) = Inl ex \<Longrightarrow> call_fails x d sd f ex"
proof -
  show "executes x d sd f tx" if "fill_tx_data x lo sg (taker_fill sd sz lo) = Inr tx"
    using that assms(1,2) unfolding taker_fill_tokens [OF assms(3)]
    by (auto simp: executes_def buildFillLimitOrder_def) blast
  show "call_fails x d sd f ex" if "fill_tx_data x lo sg (taker_fill sd sz lo) = Inl ex"
  proof -
    have "resolve (api_zx x) (api_cfg x) = Inl ex \<or> sig_for_abi sg = Inl ex \<or>
      (\<exists>abiSig. sig_for_abi sg = Inr abiSig \<and>
         ab_fill (api_abi x) (order_json lo) abiSig (taker_tokens sd (fill_size f) lo) = Inl ex)"
      using that unfolding taker_fill_tokens [OF assms(3)] buildFillLimitOrder_def
      by (cases "resolve (api_zx x) (api_cfg x)"; cases "sig_for_abi sg"; cases "ab_fill (api_abi x) (order_json lo)
          (projr (sig_for_abi sg)) (taker_tokens sd (fill_size f) lo)") auto
    with assms(1,2) show ?thesis unfolding call_fails_def by blast
  qed
qed

lemma single_offer_ok:
  assumes "single_offer x sd (hydrate_fill d f) = Inr (fs, txData, txList, reason)"
  shows "fs = [hydrate_fill d f] \<and> offer_ok x d sd [f] txData txList reason"
proof (cases "hydrated d f")
  case None
  then have "\<forall>ro sg. \<not> on_file d f ro sg" by (simp add: hydrated_on_file [symmetric])
  with assms None show ?thesis by (auto simp: single_offer_def offer_ok_def)
next
  case (Some raw)
  then obtain ro sg lo sz where r: "hydrated d f = Some (ro, sg)" "df_sanitizeOrder ro = Inr lo"
    "str_to_bigint (qf_sizeBase f) = Inr sz"
    using assms by (cases raw) (auto simp: single_offer_def)
  note call = fill_call [OF r(1) [unfolded hydrated_on_file] r(2,3), of x sd]
  show ?thesis
    using assms r call
    by (cases "fill_tx_data x lo sg (taker_fill sd sz lo)") (auto simp: single_offer_def offer_ok_def)
qed

lemma usable_kept: "usable_signature sg \<Longrightarrow> abi_signature sg = sg"
  by (auto simp: usable_signature_def abi_signature_def Let_def)

lemma batch_tx_executes:
  assumes o': "list_all2 (\<lambda>f lo. \<exists>ro sg. on_file d f ro sg \<and> df_sanitizeOrder ro = Inr lo) fs orders"
    and s: "list_all2 (\<lambda>f sz. str_to_bigint (qf_sizeBase f) = Inr sz) fs sizes"
    and raws: "list_all2 (\<lambda>f sg. \<exists>ro. on_file d f ro sg) fs sigs"
    and tx: "buildBatchFillLimitOrders (api_zx x) (api_cfg x) (api_abi x) (api_zeroExChain x) orders (map abi_signature sigs)
      (map2 (taker_fill sd) sizes orders) False = Inr tx"
  shows "batch_executes x d sd fs tx"
proof -
  obtain proxy spender chain abiSigs data where c: "resolve (api_zx x) (api_cfg x) = Inr (proxy, spender)"
    "api_zeroExChain x = Inr chain" "chain \<noteq> 8453 \<and> chain \<noteq> 11155111"
    "ab_batchFill (api_abi x) (map order_json orders) abiSigs (map2 (taker_fill sd) sizes orders) False = Inr data"
    "tx = (proxy, data)" and a: "map_res sig_for_abi (map abi_signature sigs) = Inr abiSigs"
    using tx by (auto simp: buildBatchFillLimitOrders_def split: if_splits)
  have "list_all2 (\<lambda>f s. \<exists>ro sg. on_file d f ro sg \<and> (usable_signature sg \<longrightarrow> sig_for_abi sg = Inr s)) fs abiSigs"
  proof (rule list_all2_all_nthI)
    note ra = raws [unfolded list_all2_conv_all_nth] map_res_Inr [OF a, unfolded list.rel_map list_all2_conv_all_nth]
    show "length fs = length abiSigs" using ra by simp
    fix n assume "n < length fs"
    with ra obtain ro where "on_file d (fs ! n) ro (sigs ! n)" "sig_for_abi (abi_signature (sigs ! n)) = Inr (abiSigs ! n)"
      by auto
    with usable_kept [of "sigs ! n"]
    have "on_file d (fs ! n) ro (sigs ! n) \<and> (usable_signature (sigs ! n) \<longrightarrow> sig_for_abi (sigs ! n) = Inr (abiSigs ! n))"
      by auto
    then show "\<exists>ro sg. on_file d (fs ! n) ro sg \<and> (usable_signature sg \<longrightarrow> sig_for_abi sg = Inr (abiSigs ! n))"
      by (intro exI)
  qed
  moreover have "map2 (taker_fill sd) sizes orders = map2 (\<lambda>f lo. taker_tokens sd (fill_size f) lo) fs orders"
    using o' s by (auto simp: list_all2_conv_all_nth taker_fill_tokens intro!: nth_equalityI)
  ultimately show ?thesis
    unfolding batch_executes_def using c o'
    by - (rule exI [of _ chain], rule exI [of _ orders], rule exI [of _ abiSigs], rule exI [of _ proxy],
        rule exI [of _ spender], rule exI [of _ data], simp)
qed

lemma sequence_executes:
  assumes "list_all2 (\<lambda>f lo. \<exists>ro sg. hydrated d f = Some (ro, sg) \<and> df_sanitizeOrder ro = Inr lo) fs orders"
    and "list_all2 (\<lambda>f sz. str_to_bigint (qf_sizeBase f) = Inr sz) fs sizes"
  shows "map_res (\<lambda>(lo, sg, n). fill_tx_data x lo sg n)
      (zip orders (zip (map (\<lambda>f. snd (the (hydrated d f))) fs) (map2 (taker_fill sd) sizes orders))) = Inr txs \<Longrightarrow>
    list_all2 (executes x d sd) fs txs"
    and "map_res (\<lambda>(lo, sg, n). fill_tx_data x lo sg n)
      (zip orders (zip (map (\<lambda>f. snd (the (hydrated d f))) fs) (map2 (taker_fill sd) sizes orders))) = Inl ex \<Longrightarrow>
    \<exists>f \<in> set fs. call_fails x d sd f ex"
  using assms
proof (induction fs arbitrary: orders sizes txs)
  case Nil
  { case 1 then show ?case by simp }
  { case 2 then show ?case by simp }
next
  case (Cons f fs)
  { case 1
    then obtain lo orders' sz sizes' ro sg where c: "orders = lo # orders'" "sizes = sz # sizes'"
      "hydrated d f = Some (ro, sg)" "df_sanitizeOrder ro = Inr lo" "str_to_bigint (qf_sizeBase f) = Inr sz"
      by (auto simp: list_all2_Cons1)
    with fill_call(1) [OF c(3) [unfolded hydrated_on_file] c(4,5), of x sd] 1 Cons.IH(1) show ?case
      by auto }
  { case 2
    then obtain lo orders' sz sizes' ro sg where c: "orders = lo # orders'" "sizes = sz # sizes'"
      "hydrated d f = Some (ro, sg)" "df_sanitizeOrder ro = Inr lo" "str_to_bigint (qf_sizeBase f) = Inr sz"
      by (auto simp: list_all2_Cons1)
    with fill_call(2) [OF c(3) [unfolded hydrated_on_file] c(4,5), of x sd] 2 Cons.IH(2) [of orders' sizes'] show ?case
      by (cases "fill_tx_data x lo sg (taker_fill sd sz lo)"; cases "map_res (\<lambda>(lo, sg, n). fill_tx_data x lo sg n)
          (zip orders' (zip (map (\<lambda>f. snd (the (hydrated d f))) fs) (map2 (taker_fill sd) sizes' orders')))") auto }
qed

lemma multi_offer_ok:
  assumes "multi_offer x sd (map (hydrate_fill d) fs) = Inr (fs', txData, txList, reason)" and "2 \<le> length fs"
  shows "fs' = map (hydrate_fill d) fs \<and> offer_ok x d sd fs txData txList reason"
proof (cases "\<exists>f \<in> set fs. hydrated d f = None")
  case True
  then obtain f where "f \<in> set fs" "\<forall>ro sg. \<not> on_file d f ro sg" by (auto simp: hydrated_on_file [symmetric])
  moreover have "fs' = map (hydrate_fill d) fs \<and> txData = None \<and> txList = [] \<and> reason = Some ''missing_raw''"
    using True assms(1) by (auto simp: multi_offer_def)
  ultimately show ?thesis by (simp add: offer_ok_def) blast
next
  case False
  then have "\<not> (\<exists>f \<in> set (map (hydrate_fill d) fs). fill_raw f = None)" by simp
  from assms(1) [unfolded multi_offer_def if_not_P [OF this]]
  obtain orders sizes where
    o': "list_all2 (\<lambda>f lo. df_sanitizeOrder (fst (the (hydrated d f))) = Inr lo) fs orders" and
    s: "list_all2 (\<lambda>f sz. str_to_bigint (qf_sizeBase f) = Inr sz) fs sizes" and
    b: "batch_or_sequence x (map (hydrate_fill d) fs) orders (map (\<lambda>f. snd (the (hydrated d f))) fs)
      (map2 (taker_fill sd) sizes orders) = (fs', txData, txList, reason)"
    by (auto dest!: map_res_Inr simp: list.rel_map o_def)
  have o2: "list_all2 (\<lambda>f lo. \<exists>ro sg. hydrated d f = Some (ro, sg) \<and> df_sanitizeOrder ro = Inr lo) fs orders"
    using o' by (rule list.rel_mono_strong) (use False in auto)
  then have o3: "list_all2 (\<lambda>f lo. \<exists>ro sg. on_file d f ro sg \<and> df_sanitizeOrder ro = Inr lo) fs orders"
    by (simp add: hydrated_on_file)
  have "list_all2 (\<lambda>f sg. \<exists>ro. on_file d f ro sg) fs (map (\<lambda>f. snd (the (hydrated d f))) fs)"
    using False by (auto simp: list.rel_map hydrated_on_file [symmetric] intro!: list.rel_refl_strong)
  note batch = batch_tx_executes [OF o3 s this, of x sd]
  show ?thesis
    using b assms(2) batch sequence_executes [OF o2 s, of x sd]
    by (fastforce simp: batch_or_sequence_def offer_ok_def split: sum.splits)
qed

lemma plan_offer_ok:
  assumes "plan_offer x sd (map (hydrate_fill d) fs) = Inr (fs', txData, txList, reason)"
  shows "fs' = map (hydrate_fill d) fs \<and> offer_ok x d sd fs txData txList reason"
  using assms single_offer_ok multi_offer_ok [of x sd d fs]
  by (cases fs rule: remdups_adj.cases) (auto simp: plan_offer_def offer_ok_def)

text \<open>A fill with the signed order on file put in, if there is one.\<close>

definition with_order :: "db \<Rightarrow> quote_fill \<Rightarrow> quote_fill \<Rightarrow> bool" where
  "with_order d f f' \<longleftrightarrow>
    (\<exists>ro sg. on_file d f ro sg \<and> f' = f\<lparr>qf_rawOrder := Some ro, qf_rawSig := Some sg\<rparr>) \<or>
    (\<forall>ro sg. \<not> on_file d f ro sg) \<and> f' = f"

lemma hydrate_with_order: "with_order d f (hydrate_fill d f)"
proof (cases "hydrated d f")
  case None
  then show ?thesis by (simp add: with_order_def hydrated_on_file [symmetric] hydrate_fill_def)
next
  case (Some r)
  then show ?thesis by (cases r) (auto simp: with_order_def hydrated_on_file [symmetric] hydrate_fill_def)
qed


section \<open>The gates\<close>

lemma quoted_sizes: "map_res (\<lambda>f. str_to_bigint (qf_sizeBase f)) (map quoted plan) = Inr (map snd plan)"
  by (induction plan) (auto simp: quoted_def)

lemma gate_is_takerAmount: "gate_notional ctx (map quoted plan) = notional_sum ctx plan"
  by (induction plan) (auto simp: gate_notional_def quoted_def notional_of_def pow10_def)

lemma match_plan_result:
  assumes "match_plan x ctx tif want plan e = (Inr r, e')" and "q_fills plan = map quoted ps"
  shows "e' = counted e \<and> list_all2 (with_order (eng_db e)) (q_fills plan) (q_fills (mq_plan r)) \<and>
    mq_tif r = tif \<and> mq_takerToken r = reply_token ctx plan \<and> mq_takerAmount r = q_takerAmount plan \<and>
    mq_availableBase r = big_to_string (filled ps) \<and>
    mq_shortfallBase r = big_to_string (if want > filled ps then want - filled ps else 0) \<and>
    (tif = ''FOK'' \<longrightarrow> want \<le> filled ps) \<and>
    (ps \<noteq> [] \<longrightarrow> ctx_minNotionalQ ctx \<le> notional_sum ctx ps) \<and>
    offer_ok x (eng_db e) (q_side plan) (q_fills plan) (mq_txData r) (mq_txList r) (mq_noTxReason r)"
proof -
  have f: "sum_list (map snd ps) = filled ps" by (simp add: filled_def)
  from assms obtain fs txData txList reason where
    of: "plan_offer x (q_side plan) (map (hydrate_fill (eng_db e)) (q_fills plan)) = Inr (fs, txData, txList, reason)"
    and rest: "\<not> (tif = ''FOK'' \<and> want > filled ps)" "\<not> (ps \<noteq> [] \<and> notional_sum ctx ps < ctx_minNotionalQ ctx)"
    "e' = counted e" "r = \<lparr>mq_plan = plan\<lparr>q_fills := fs\<rparr>, mq_tif = tif, mq_takerToken = reply_token ctx plan,
       mq_takerAmount = q_takerAmount plan, mq_txData = txData, mq_txList = txList,
       mq_availableBase = big_to_string (filled ps),
       mq_shortfallBase = big_to_string (if want > filled ps then want - filled ps else 0), mq_noTxReason = reason\<rparr>"
    by (auto simp: match_plan_def Let_def quoted_sizes gate_is_takerAmount f split: if_splits sum.splits)
  have "list_all2 (with_order (eng_db e)) fs' (map (hydrate_fill (eng_db e)) fs')" for fs'
    by (simp add: list.rel_map list.rel_refl_strong hydrate_with_order)
  with plan_offer_ok [OF of] rest show ?thesis by (auto simp del: list_all2_map2)
qed

lemma quote_leaves:
  assumes "quote fb k sd want cap e = (Inr plan, e1)"
  shows "eng_db e1 = eng_db e \<and> q_side plan = sd \<and> (\<forall>ctx. getTradingContext (eng_db e) k = Inr ctx \<longrightarrow>
      reply_token ctx plan = (case sd of BUY \<Rightarrow> ctx_quoteAddress ctx | SELL \<Rightarrow> ctx_baseAddress ctx)) \<and> (\<forall>j b. book_at e j = Some b \<longrightarrow> book_at e1 j = Some b)"
proof -
  obtain ctx b where "getTradingContext (eng_db e) k = Inr ctx" "ensure_book (ctx_symbol ctx) e = (b, e1)" "q_side plan = sd"
    "q_takerToken plan = (case sd of BUY \<Rightarrow> ctx_quoteAddress ctx | SELL \<Rightarrow> ctx_baseAddress ctx)"
    using assms by (auto simp: quote_def Let_def split: sum.splits prod.splits)
  then show ?thesis
    using ensure_book_frame [of "ctx_symbol ctx" e] by (auto simp: ensure_book_def reply_token_def split: option.splits if_splits)
qed


text \<open>
  C10. A reply of the quote endpoint can be executed as it stands. The requested size is the number in
  the body and reached the minimum of the market; the plan is the quote of the matcher for the side
  (\<open>SELL\<close> in any case, else a buy), that size and the positive cap of the request, each fill with
  its signed order put in, from the book or else from the database; what is available and what is
  short add up to the size, and a fill-or-kill reply is short of nothing; a plan that fills anything
  is worth at least the minimum notional. Without a reason not to, the reply carries the
  transactions: for one fill the call that takes exactly that fill from its signed order at the
  exchange proxy, for several either one batch over all of them, never on the two networks without
  it, or one such call per fill in the order of the plan. A call takes quote tokens in the
  proportion of the order for a buy, the base amount for a sell. With a reason it carries none, and
  the reason is an empty plan, a fill without a signed order, or a call that cannot be built. Asking
  changes no book, row or trade.
\<close>

theorem quote_reply_executes_plan:
  assumes wf: "engine_wf e" and run: "match_quote x q e = (Inr r, e')"
  shows "\<exists>want cap ctx plan sd.
    str_to_bigint (wire_text x (mr_sizeBase q)) = Inr want \<and>
    (cap = None \<and> jnullish (mr_limitPriceTicks q) \<or>
      (\<exists>n. str_to_bigint (wire_text x (mr_limitPriceTicks q)) = Inr n \<and> cap = (if 0 < n then Some n else None))) \<and>
    sd = (if to_upper (mr_side q) = ''SELL'' then SELL else BUY) \<and>
    getTradingContext (eng_db e) (mr_marketId q) = Inr ctx \<and> ctx_minSizeB ctx \<le> want \<and>
    fst (quote (TAKER_FEE_BPS (api_env x)) (mr_marketId q) sd want cap e) = Inr plan \<and>
    list_all2 (with_order (eng_db e)) (q_fills plan) (q_fills (mq_plan r)) \<and>
    mq_takerToken r = (case sd of BUY \<Rightarrow> ctx_quoteAddress ctx | SELL \<Rightarrow> ctx_baseAddress ctx) \<and>
    mq_takerAmount r = q_takerAmount plan \<and>
    amount (mq_availableBase r) = sum_list (map fill_size (q_fills plan)) \<and>
    (0 \<le> want \<longrightarrow> 0 \<le> amount (mq_availableBase r) \<and> 0 \<le> amount (mq_shortfallBase r) \<and>
       amount (mq_availableBase r) + amount (mq_shortfallBase r) = want) \<and>
    mq_tif r = (case mr_tif q of Some t \<Rightarrow> t | None \<Rightarrow> ''GTC'') \<and>
    (mq_tif r = ''FOK'' \<longrightarrow> amount (mq_shortfallBase r) = 0) \<and>
    (q_fills plan \<noteq> [] \<longrightarrow> ctx_minNotionalQ ctx \<le> amount (mq_takerAmount r)) \<and>
    offer_ok x (eng_db e) sd (q_fills plan) (mq_txData r) (mq_txList r) (mq_noTxReason r) \<and>
    eng_db e' = inc_metric ''quotes'' (eng_db e) \<and> (\<forall>k b. book_at e k = Some b \<longrightarrow> book_at e' k = Some b)"
proof -
  let ?sd = "match_side (mr_side q)"
  obtain want cap ctx plan e1 where terms: "match_terms x q (eng_db e) = Inr (want, cap, ctx)"
    and qu: "quote (TAKER_FEE_BPS (api_env x)) (mr_marketId q) ?sd want cap e = (Inr plan, e1)"
    and mp: "match_plan x ctx (case mr_tif q of Some t \<Rightarrow> t | None \<Rightarrow> ''GTC'') want plan e1 = (Inr r, e')"
    using run by (auto simp: match_quote_def split: sum.splits prod.splits)
  have ctx: "getTradingContext (eng_db e) (mr_marketId q) = Inr ctx" "ctx_minSizeB ctx \<le> want"
    and want: "str_to_bigint (wire_text x (mr_sizeBase q)) = Inr want"
    and cap: "cap = None \<and> jnullish (mr_limitPriceTicks q) \<or>
      (\<exists>n. str_to_bigint (wire_text x (mr_limitPriceTicks q)) = Inr n \<and> cap = (if 0 < n then Some n else None))"
    using terms by (auto simp: match_terms_def limit_cap_def split: if_splits sum.splits)
  from qu have "fst (quote (TAKER_FEE_BPS (api_env x)) (mr_marketId q) ?sd want cap e) = Inr plan" by simp
  then obtain ctx' ps where c': "getTradingContext (eng_db e) (mr_marketId q) = Inr ctx'"
    and ps: "ps = greedy want (in_limit ?sd cap (against ?sd (fst (ensure_book (ctx_symbol ctx') e))))"
    and pl: "q_fills plan = map quoted ps" "q_takerAmount plan = big_to_string (notional_sum ctx' ps)"
    by (rule quote_result)
  define L where "L = in_limit ?sd cap (against ?sd (fst (ensure_book (ctx_symbol ctx') e)))"
  have nn: "\<forall>m \<in> set L. 0 \<le> lv_sizeBase m"
    using against_sorted(2) [OF ensured_ok [OF wf]] by (auto simp: L_def dest: set_takeWhileD)
  then have "0 \<le> sum_list (map lv_sizeBase L)" by (intro sum_list_nonneg) auto
  with filled_greedy [OF _ nn, of want] have fl: "0 \<le> want \<longrightarrow> 0 \<le> filled ps \<and> filled ps \<le> want"
    unfolding ps L_def [symmetric] by auto
  have sum: "sum_list (map fill_size (q_fills plan)) = filled ps" unfolding pl(1) by (rule sum_quoted)
  have some: "q_fills plan \<noteq> [] \<longleftrightarrow> ps \<noteq> []" by (simp add: pl(1))
  have same: "ctx' = ctx" using c' ctx(1) by simp
  have sd: "?sd = (if to_upper (mr_side q) = ''SELL'' then SELL else BUY)" by (simp add: match_side_def)
  note m = match_plan_result [OF mp pl(1)] and l = quote_leaves [OF qu]
  have e: "eng_db e' = inc_metric ''quotes'' (eng_db e)" "\<forall>k b. book_at e k = Some b \<longrightarrow> book_at e' k = Some b"
    using m l by (auto simp: counted_def)
  have token: "mq_takerToken r = (case ?sd of BUY \<Rightarrow> ctx_quoteAddress ctx | SELL \<Rightarrow> ctx_baseAddress ctx)"
    using m l ctx(1) by simp
  have offer: "offer_ok x (eng_db e) ?sd (q_fills plan) (mq_txData r) (mq_txList r) (mq_noTxReason r)"
    using m l by simp
  show ?thesis
    by (rule exI [of _ want], rule exI [of _ cap], rule exI [of _ ctx], rule exI [of _ plan], rule exI [of _ ?sd],
        intro conjI want cap sd ctx e token offer)
      (use m l fl sum some same pl(2) qu in \<open>auto split: if_splits\<close>)
qed


section \<open>A sample request\<close>

definition resting_order :: jval where
  "resting_order = with_number_expiry (ob_order sample_post)"

definition resting_engine :: engine where
  "resting_engine =
    snd (attachRaw ''B-Q'' ''0x5'' resting_order (sig_json \<lparr>zs_signatureType = 2, zs_v = num 27,
        zs_r = ''0x'' @ replicate 64 CHR ''1'', zs_s = ''0x'' @ replicate 64 CHR ''2''\<rparr>)
      (snd (place 9 \<lparr>pl_marketId = ''B-Q'', pl_orderHash = ''0x5'', pl_maker = sample_owner, pl_side = SELL,
        pl_priceTicks = 5, pl_sizeBase = 200\<rparr> (sea_engine sea_sample))))"

definition sample_match :: match_request where
  "sample_match = \<lparr>mr_marketId = ''B-Q'', mr_side = ''buy'', mr_sizeBase = JStr ''80'', mr_tif = Some ''FOK'',
    mr_limitPriceTicks = JStr ''6''\<rparr>"

lemma resting_wf: "engine_wf resting_engine"
proof -
  have "engine_wf (sea_engine sea_sample)"
    by (simp add: engine_wf_def engine_ok_def sea_sample_def markets_ok_def sea_market_def)
  then show ?thesis unfolding resting_engine_def by (intro engine_wf_attachRaw engine_wf_place)
qed

theorem quote_reply_executes_plan_witness:
  "\<exists>r e' tx. match_quote sample_api sample_match resting_engine = (Inr r, e') \<and> mq_txData r = Some tx \<and>
    amount (mq_shortfallBase r) = 0 \<and>
    (\<exists>f. length (q_fills (mq_plan r)) = 1 \<and> executes sample_api (eng_db resting_engine) BUY f tx)"
proof -
  have s: "(case match_quote sample_api sample_match resting_engine of
      (Inr r, e) \<Rightarrow> (mq_txData r \<noteq> None, mq_noTxReason r, length (q_fills (mq_plan r)), mq_tif r)
    | _ \<Rightarrow> (False, None, 0, [])) = (True, None, 1, ''FOK'')" by code_simp
  then obtain r e' tx where run: "match_quote sample_api sample_match resting_engine = (Inr r, e')"
    and r: "mq_txData r = Some tx" "mq_noTxReason r = None" "length (q_fills (mq_plan r)) = 1" "mq_tif r = ''FOK''"
    by (auto split: prod.splits sum.splits)
  have b: "(if to_upper (mr_side sample_match) = ''SELL'' then SELL else BUY) = BUY" by code_simp
  from quote_reply_executes_plan [OF resting_wf run, unfolded b]
  obtain fs where p: "list_all2 (with_order (eng_db resting_engine)) fs (q_fills (mq_plan r))"
    "mq_tif r = ''FOK'' \<longrightarrow> amount (mq_shortfallBase r) = 0"
    "offer_ok sample_api (eng_db resting_engine) BUY fs (mq_txData r) (mq_txList r) (mq_noTxReason r)"
    by (elim exE conjE) (hypsubst, rule that)
  moreover have "length fs = 1" using p(1) r(3) by (simp add: list_all2_lengthD)
  ultimately show ?thesis using run r by (auto simp: offer_ok_def simp del: split_paired_Ex)
qed

end
