(* ===== verification/PublicApi.thy ===== *)
theory PublicApi
  imports Coherence
begin

text \<open>
  The read side of the public API: \<open>public/public.controller.ts\<close> (order book and trades of a
  market), \<open>matching/snapshot.service.ts\<close> (the stored ladders), \<open>public/orders.query.controller.ts\<close>
  and the paginated listing \<open>findOrders\<close> of \<open>matching/persistence.repository.ts\<close>.

  \<open>dec\<close> is \<open>Decimal.toString\<close>, whose notation the handlers do not control. Reading a cursor page is
  the documented behaviour of Prisma: the rows at or after the cursor row in the order of the query,
  without the first when \<open>skip\<close> is 1; a cursor that names no row gives an empty page.
\<close>

section \<open>Ladders from the order table\<close>

record ob_level =
  ob_priceTicks :: string
  ob_sizeBase :: string

record ob_level_ts = ob_level +
  ob_ts :: "string option"

definition open_rows :: "db \<Rightarrow> string \<Rightarrow> order_row list" where
  "open_rows d marketId =
    filter (\<lambda>r. o_marketId r = marketId \<and> is_open (o_status r) \<and> 0 < o_remaining r) (d_orders d)"

definition with_level_ts :: "db \<Rightarrow> string \<Rightarrow> ob_level \<Rightarrow> ob_level_ts result" where
  "with_level_ts d marketId l =
    bind_res (str_to_bigint (ob_priceTicks l)) (\<lambda>px.
      let row = (case js_sort (\<lambda>a b. o_placedAt a - o_placedAt b)
                   (filter (\<lambda>r. o_priceTicks r = px) (open_rows d marketId)) of
                   [] \<Rightarrow> None | r # _ \<Rightarrow> Some r)
      in Inr \<lparr>ob_priceTicks = ob_priceTicks l, ob_sizeBase = ob_sizeBase l,
           ob_ts = map_option (\<lambda>r. toISOString (o_placedAt r)) row\<rparr>)"

definition attachLevelTs :: "db \<Rightarrow> string \<Rightarrow> ob_level list \<Rightarrow> ob_level_ts list result" where
  "attachLevelTs d marketId levels = map_res (with_level_ts d marketId) levels"

text \<open>\<open>map.set(px, (map.get(px) ?? 0n) + rem)\<close>.\<close>

definition bump :: "string \<Rightarrow> int \<Rightarrow> (string \<times> int) list \<Rightarrow> (string \<times> int) list" where
  "bump px rem m = AList.update px ((case map_of m px of Some v \<Rightarrow> v | None \<Rightarrow> 0) + rem) m"

fun ladder_maps ::
  "(int \<Rightarrow> string) \<Rightarrow> order_row list \<Rightarrow> (string \<times> int) list \<Rightarrow> (string \<times> int) list \<Rightarrow>
    ((string \<times> int) list \<times> (string \<times> int) list) result" where
  "ladder_maps dec [] bidsMap asksMap = Inr (bidsMap, asksMap)"
| "ladder_maps dec (r # rs) bidsMap asksMap =
    (let px = big_to_string (o_priceTicks r)
     in bind_res (str_to_bigint (dec (o_remaining r))) (\<lambda>rem.
          case o_side r of
            BUY \<Rightarrow> ladder_maps dec rs (bump px rem bidsMap) asksMap
          | SELL \<Rightarrow> ladder_maps dec rs bidsMap (bump px rem asksMap)))"

text \<open>The keys are printed integers, so \<open>BigInt\<close> reads them without an exception.\<close>

definition cmpDesc :: "string \<times> int \<Rightarrow> string \<times> int \<Rightarrow> int" where
  "cmpDesc a b = (let ax = amount (fst a); bx = amount (fst b)
     in if ax = bx then 0 else if bx > ax then 1 else - 1)"

definition cmpAsc :: "string \<times> int \<Rightarrow> string \<times> int \<Rightarrow> int" where
  "cmpAsc a b = (let ax = amount (fst a); bx = amount (fst b)
     in if ax = bx then 0 else if ax > bx then 1 else - 1)"

definition ladder :: "(string \<times> int \<Rightarrow> string \<times> int \<Rightarrow> int) \<Rightarrow> nat \<Rightarrow> (string \<times> int) list \<Rightarrow> ob_level list" where
  "ladder c depthN m =
    map (\<lambda>(px, sz). \<lparr>ob_priceTicks = px, ob_sizeBase = big_to_string sz\<rparr>) (take depthN (js_sort c m))"

definition snapshotFromDb :: "(int \<Rightarrow> string) \<Rightarrow> db \<Rightarrow> string \<Rightarrow> nat \<Rightarrow> (ob_level list \<times> ob_level list) result" where
  "snapshotFromDb dec d marketId depthN =
    bind_res (ladder_maps dec (open_rows d marketId) [] []) (\<lambda>(bidsMap, asksMap).
      Inr (ladder cmpDesc depthN bidsMap, ladder cmpAsc depthN asksMap))"

section \<open>Stored snapshots\<close>

record book_snapshot =
  bs_marketId :: string
  bs_bids :: "snap_row list"
  bs_asks :: "snap_row list"
  bs_ts :: int

text \<open>\<open>clock n\<close> is the time of the \<open>n\<close>-th insertion of a tick.\<close>

fun snapshot_rows :: "(nat \<Rightarrow> int) \<Rightarrow> nat \<Rightarrow> market_row list \<Rightarrow> engine \<Rightarrow> book_snapshot list" where
  "snapshot_rows clock n [] e = []"
| "snapshot_rows clock n (m # ms) e =
    (let s = snapshot (mk_symbol m) 25 e
     in \<lparr>bs_marketId = mk_id m, bs_bids = fst s, bs_asks = snd s, bs_ts = clock n\<rparr>
        # snapshot_rows clock (n + 1) ms e)"

definition snapshot_tick :: "(nat \<Rightarrow> int) \<Rightarrow> engine \<Rightarrow> book_snapshot list \<Rightarrow> book_snapshot list" where
  "snapshot_tick clock e table = table @ snapshot_rows clock 0 (d_markets (eng_db e)) e"

definition last_snapshot :: "string \<Rightarrow> book_snapshot list \<Rightarrow> book_snapshot option" where
  "last_snapshot marketId table =
    (case js_sort (\<lambda>a b. bs_ts b - bs_ts a) (filter (\<lambda>s. bs_marketId s = marketId) table) of
       [] \<Rightarrow> None | s # _ \<Rightarrow> Some s)"

definition stored_level :: "snap_row \<Rightarrow> ob_level" where
  "stored_level s = \<lparr>ob_priceTicks = sn_priceTicks s, ob_sizeBase = sn_sizeBase s\<rparr>"

section \<open>GET /orderbook and GET /trades\<close>

record ob_reply =
  or_symbol :: string
  or_source :: string
  or_bids :: "ob_level_ts list"
  or_asks :: "ob_level_ts list"
  or_ts :: "string option"

text \<open>\<open>Number.parseInt(s ?? dflt, 10)\<close> where it is a positive number up to \<open>cap\<close>, else the default.\<close>

definition positive_or :: "nat \<Rightarrow> int option \<Rightarrow> string option \<Rightarrow> nat" where
  "positive_or dflt cap s =
    (case parse_int 10 (case s of Some t \<Rightarrow> t | None \<Rightarrow> big_to_string (int dflt)) of
       Fin q \<Rightarrow> if 0 < q \<and> (case cap of Some n \<Rightarrow> q \<le> of_int n | None \<Rightarrow> True) then nat \<lfloor>q\<rfloor> else dflt
     | _ \<Rightarrow> dflt)"

definition market_named :: "db \<Rightarrow> string option \<Rightarrow> (string \<times> market_row) result" where
  "market_named d symbol =
    (case symbol of
       None \<Rightarrow> Inl (BadRequest ''symbol is required'')
     | Some nm \<Rightarrow>
         if nm = [] then Inl (BadRequest ''symbol is required'')
         else case row_by mk_symbol nm (d_markets d) of
           None \<Rightarrow> Inl (BadRequest ''market_not_found'')
         | Some m \<Rightarrow> Inr (nm, m))"

definition orderbook ::
  "(int \<Rightarrow> string) \<Rightarrow> int \<Rightarrow> string option \<Rightarrow> string option \<Rightarrow> string option \<Rightarrow> db \<Rightarrow> book_snapshot list \<Rightarrow> ob_reply result" where
  "orderbook dec now symbol depth source d table =
    bind_res (market_named d symbol) (\<lambda>(nm, m).
      let depthN = positive_or 25 None depth
      in if source = Some ''live''
         then bind_res (snapshotFromDb dec d (mk_id m) depthN) (\<lambda>(bs, as).
           bind_res (attachLevelTs d (mk_id m) bs) (\<lambda>bids.
           bind_res (attachLevelTs d (mk_id m) as) (\<lambda>asks.
             Inr \<lparr>or_symbol = nm, or_source = ''live'', or_bids = bids, or_asks = asks,
               or_ts = Some (toISOString now)\<rparr>)))
         else
           (let (bs, as, ts) = (case last_snapshot (mk_id m) table of
                Some s \<Rightarrow> (map stored_level (take depthN (bs_bids s)), map stored_level (take depthN (bs_asks s)),
                  Some (toISOString (bs_ts s)))
              | None \<Rightarrow> ([], [], None))
            in bind_res (attachLevelTs d (mk_id m) bs) (\<lambda>bids.
               bind_res (attachLevelTs d (mk_id m) as) (\<lambda>asks.
                 Inr \<lparr>or_symbol = nm, or_source = ''snapshot'', or_bids = bids, or_asks = asks, or_ts = ts\<rparr>))))"

record trade_view =
  tv_ts :: int
  tv_priceTicks :: string
  tv_sizeBase :: string

definition trades :: "(int \<Rightarrow> string) \<Rightarrow> string option \<Rightarrow> string option \<Rightarrow> db \<Rightarrow> trade_view list result" where
  "trades dec symbol want d =
    bind_res (market_named d symbol) (\<lambda>(nm, m).
      Inr (map (\<lambda>t. \<lparr>tv_ts = t_ts t, tv_priceTicks = big_to_string (t_priceTicks t), tv_sizeBase = dec (t_sizeBase t)\<rparr>)
        (take (positive_or 50 (Some 500) want)
          (js_sort (\<lambda>a b. t_ts b - t_ts a) (filter (\<lambda>t. t_marketId t = mk_id m) (d_trades d))))))"

section \<open>GET /orders\<close>

fun order_status_str :: "order_status \<Rightarrow> string" where
  "order_status_str O_PLACED = ''PLACED''"
| "order_status_str O_PARTIALLY_FILLED = ''PARTIALLY_FILLED''"
| "order_status_str O_FILLED = ''FILLED''"
| "order_status_str O_CANCELLED = ''CANCELLED''"
| "order_status_str O_EXPIRED = ''EXPIRED''"

definition order_status_named :: "string \<Rightarrow> order_status result" where
  "order_status_named p =
    (case find (\<lambda>s. order_status_str s = p) [O_PLACED, O_PARTIALLY_FILLED, O_FILLED, O_CANCELLED, O_EXPIRED] of
       Some s \<Rightarrow> Inr s
     | None \<Rightarrow> Inl (BadRequest ''invalid_status''))"

definition parseStatuses :: "string option \<Rightarrow> order_status list option result" where
  "parseStatuses csv =
    (case csv of
       None \<Rightarrow> Inr None
     | Some s \<Rightarrow>
         if s = [] then Inr None
         else bind_res (map_res order_status_named (filter (\<lambda>p. p \<noteq> []) (map trim (split_on CHR '','' s))))
           (\<lambda>out. Inr (if out = [] then None else Some out)))"

record orders_query =
  q_maker :: "string option"
  q_status :: "order_status list option"
  q_symbol :: "string option"
  q_limit :: "jnum option"
  q_cursorId :: "string option"

record order_item =
  oi_id :: string
  oi_symbol :: string
  oi_maker :: string
  oi_status :: order_status
  oi_priceTicks :: string
  oi_sizeBase :: string
  oi_remainingBase :: string
  oi_ts :: string

definition js_min :: "jnum \<Rightarrow> jnum \<Rightarrow> jnum" where
  "js_min a b = (if a = NaN \<or> b = NaN then NaN else if num_less b a then b else a)"

definition js_max :: "jnum \<Rightarrow> jnum \<Rightarrow> jnum" where
  "js_max a b = (if a = NaN \<or> b = NaN then NaN else if num_less a b then b else a)"

definition page_size :: "jnum option \<Rightarrow> jnum" where
  "page_size want = js_max (num 1) (js_min (case want of Some n \<Rightarrow> n | None \<Rightarrow> num 50) (num 200))"

text \<open>\<open>take\<close> has to be an integer; Prisma refuses the query otherwise.\<close>

definition take_arg :: "jnum \<Rightarrow> nat result" where
  "take_arg n =
    (case n of
       Fin q \<Rightarrow> if is_int_rat q then Inr (nat \<lfloor>q\<rfloor>) else Inl (PlainError ''PrismaClientValidationError'')
     | _ \<Rightarrow> Inl (PlainError ''PrismaClientValidationError''))"

text \<open>\<open>orderBy: [\{ placedAt: 'desc' \}, \{ orderHash: 'desc' \}]\<close>.\<close>

definition cmp_page :: "order_row \<Rightarrow> order_row \<Rightarrow> int" where
  "cmp_page a b =
    (if o_placedAt a \<noteq> o_placedAt b then o_placedAt b - o_placedAt a
     else if o_hash a = o_hash b then 0
     else if str_le (o_hash a) (o_hash b) then 1 else - 1)"

text \<open>An absent or empty filter does not restrict the query.\<close>

definition orders_where :: "db \<Rightarrow> orders_query \<Rightarrow> order_row \<Rightarrow> bool" where
  "orders_where d q r \<longleftrightarrow>
    (case map_option (\<lambda>m. to_lower (trim m)) (q_maker q) of Some m \<Rightarrow> m = [] \<or> o_maker r = m | None \<Rightarrow> True) \<and>
    (case q_status q of Some ss \<Rightarrow> ss = [] \<or> o_status r \<in> set ss | None \<Rightarrow> True) \<and>
    (case q_symbol q of Some s \<Rightarrow> s = [] \<or> symbol_of d (o_marketId r) = s | None \<Rightarrow> True)"

definition order_page :: "db \<Rightarrow> orders_query \<Rightarrow> nat \<Rightarrow> order_row list" where
  "order_page d q n =
    (let rows = js_sort cmp_page (filter (orders_where d q) (d_orders d))
     in take n (case q_cursorId q of
          None \<Rightarrow> rows
        | Some c \<Rightarrow>
            if c = [] then rows
            else case order_of d c of
              None \<Rightarrow> []
            | Some r \<Rightarrow> drop 1 (filter (\<lambda>x. cmp_page r x \<le> 0) rows)))"

definition item_of :: "(int \<Rightarrow> string) \<Rightarrow> db \<Rightarrow> order_row \<Rightarrow> order_item" where
  "item_of dec d r =
    \<lparr>oi_id = o_hash r, oi_symbol = symbol_of d (o_marketId r), oi_maker = o_maker r, oi_status = o_status r,
     oi_priceTicks = big_to_string (o_priceTicks r), oi_sizeBase = dec (o_sizeBase r),
     oi_remainingBase = dec (o_remaining r), oi_ts = toISOString (o_placedAt r)\<rparr>"

definition findOrders :: "(int \<Rightarrow> string) \<Rightarrow> db \<Rightarrow> orders_query \<Rightarrow> (order_item list \<times> string option) result" where
  "findOrders dec d q =
    bind_res (take_arg (page_size (q_limit q))) (\<lambda>n.
      let rows = order_page d q n
      in Inr (map (item_of dec d) rows,
           if length rows = n then Some (o_hash (last rows)) else None))"

record list_query =
  lq_address :: "string option"
  lq_status :: "string option"
  lq_symbol :: "string option"
  lq_limit :: "string option"
  lq_cursorId :: "string option"

definition list_orders :: "(int \<Rightarrow> string) \<Rightarrow> db \<Rightarrow> list_query \<Rightarrow> (order_item list \<times> string option) result" where
  "list_orders dec d q =
    bind_res (parseStatuses (lq_status q)) (\<lambda>status.
      let maker = map_option to_lower (lq_address q);
          want = (case lq_limit q of Some s \<Rightarrow> if s = [] then None else Some (str_to_num s) | None \<Rightarrow> None)
      in if maker \<in> {None, Some []} \<and> lq_symbol q \<in> {None, Some []}
         then Inl (BadRequest ''address or symbol is required'')
         else findOrders dec d \<lparr>q_maker = maker, q_status = status, q_symbol = lq_symbol q,
           q_limit = want, q_cursorId = lq_cursorId q\<rparr>)"

end
