(* ===== verification/WebForm.thy ===== *)
theory WebForm
  imports OrdersApi AiDraft PublicApi
begin

text \<open>
  The order form of the web application, under \<open>apps/web/src\<close>: the validation of a limit
  (\<open>lib/validation.ts\<close>), the routing of a submitted limit (\<open>onPlaceLimit\<close> of
  \<open>components/TradePanel.tsx\<close>), the building and signing of the order (\<open>hooks/useOrderSigning.ts\<close>),
  the salts of a pair cancel (\<open>lib/salt.ts\<close>,
  \<open>components/CancelPairControls.tsx\<close>), the spend estimate of a delegated intent
  (\<open>lib/delegatedSpend.ts\<close>) and the best prices of a book (\<open>lib/marketMath.ts\<close>).

  The wallet, the typed-data digest and \<open>parseUnits\<close>/\<open>formatUnits\<close> are parameters. The rendering
  of the components, their toasts and the React state that only feeds them are not modelled.
\<close>

section \<open>Numbers and markets\<close>

text \<open>A market as \<open>GET /markets\<close> lists it; its rules are decimal strings.\<close>

record web_market =
  wm_symbol :: string
  wm_baseAddress :: string
  wm_baseSymbol :: string
  wm_baseDecimals :: nat
  wm_quoteAddress :: string
  wm_quoteSymbol :: string
  wm_quoteDecimals :: nat
  wm_minNotionalQ :: string
  wm_minSizeB :: string
  wm_priceTickQ :: string

text \<open>\<open>s || "0"\<close>.\<close>

definition or_zero :: "string \<Rightarrow> string" where
  "or_zero s = (if s = [] then ''0'' else s)"

definition parseSizeWei :: "units \<Rightarrow> string \<Rightarrow> nat \<Rightarrow> int result" where
  "parseSizeWei u sizeHuman baseDecimals = un_parse u (or_zero sizeHuman) baseDecimals"

definition parsePriceScaled :: "units \<Rightarrow> string \<Rightarrow> nat \<Rightarrow> int result" where
  "parsePriceScaled u priceHuman quoteDecimals = un_parse u (or_zero priceHuman) quoteDecimals"

definition computeQuoteWei :: "int \<Rightarrow> int \<Rightarrow> nat \<Rightarrow> int" where
  "computeQuoteWei baseWei priceScaled baseDecimals = tdiv (baseWei * priceScaled) (10 ^ baseDecimals)"

section \<open>Validation\<close>

record limit_derived =
  ld_baseWei :: int
  ld_priceScaled :: int
  ld_quoteWei :: int
  ld_priceTicks :: int

record limit_validation =
  li_ok :: bool
  li_errors :: "string list"
  li_derived :: limit_derived

definition validateLimitInput :: "units \<Rightarrow> web_market \<Rightarrow> string \<Rightarrow> string \<Rightarrow> limit_validation result" where
  "validateLimitInput u m sizeHuman priceHuman =
    bind_res (parseSizeWei u sizeHuman (wm_baseDecimals m)) (\<lambda>baseWei.
    bind_res (parsePriceScaled u priceHuman (wm_quoteDecimals m)) (\<lambda>priceScaled.
    bind_res (str_to_bigint (wm_minSizeB m)) (\<lambda>minSizeB.
    bind_res (str_to_bigint (wm_minNotionalQ m)) (\<lambda>minNotionalQ.
    bind_res (str_to_bigint (wm_priceTickQ m)) (\<lambda>priceTickQ.
    bind_res (big_rem priceScaled priceTickQ) (\<lambda>rem.
      let quoteWei = computeQuoteWei baseWei priceScaled (wm_baseDecimals m);
          errs =
            (if baseWei < minSizeB
             then [''Min size: '' @ un_format u minSizeB (wm_baseDecimals m) @ '' '' @ wm_baseSymbol m] else []) @
            (if quoteWei < minNotionalQ
             then [''Min notional: '' @ un_format u minNotionalQ (wm_quoteDecimals m) @ '' '' @ wm_quoteSymbol m] else []) @
            (if rem \<noteq> 0
             then [''Price must be multiple of tick: '' @ un_format u priceTickQ (wm_quoteDecimals m) @ '' '' @ wm_quoteSymbol m]
             else [])
      in Inr \<lparr>li_ok = (errs = []), li_errors = errs,
           li_derived = \<lparr>ld_baseWei = baseWei, ld_priceScaled = priceScaled, ld_quoteWei = quoteWei,
             ld_priceTicks = (if rem = 0 then tdiv priceScaled priceTickQ else 0)\<rparr>\<rparr>))))))"

text \<open>The notional of a quote; a fill that does not read is skipped.\<close>

definition marketQuoteNotionalQ :: "web_market \<Rightarrow> (string \<times> string) list \<Rightarrow> int" where
  "marketQuoteNotionalQ m fills =
    (let tickQ = (case str_to_bigint (wm_priceTickQ m) of Inr t \<Rightarrow> t | Inl _ \<Rightarrow> 0)
     in if tickQ \<le> 0 then 0
        else sum_list (map (\<lambda>(px, sz).
          case (str_to_bigint px, str_to_bigint sz) of
            (Inr p, Inr s) \<Rightarrow> tdiv (p * tickQ * s) (10 ^ wm_baseDecimals m)
          | _ \<Rightarrow> 0) fills))"

section \<open>Building an order\<close>

record place_params =
  pp_side :: side
  pp_sizeBaseHuman :: string
  pp_priceHuman :: string
  pp_expirySec :: "jnum option"
  pp_postOnly :: bool

text \<open>Maker token, taker token, maker amount and taker amount.\<close>

definition computeAmounts :: "units \<Rightarrow> web_market \<Rightarrow> place_params \<Rightarrow> (string \<times> string \<times> int \<times> int) result" where
  "computeAmounts u m p =
    bind_res (un_parse u (pp_sizeBaseHuman p) (wm_baseDecimals m)) (\<lambda>baseWei.
    bind_res (un_parse u (pp_priceHuman p) (wm_quoteDecimals m)) (\<lambda>priceScaled.
      let quoteWei = tdiv (baseWei * priceScaled) (10 ^ wm_baseDecimals m)
      in Inr (case pp_side p of
           SELL \<Rightarrow> (wm_baseAddress m, wm_quoteAddress m, baseWei, quoteWei)
         | BUY \<Rightarrow> (wm_quoteAddress m, wm_baseAddress m, quoteWei, baseWei))))"

definition computePriceTicks :: "units \<Rightarrow> web_market \<Rightarrow> place_params \<Rightarrow> int result" where
  "computePriceTicks u m p =
    bind_res (un_parse u (pp_priceHuman p) (wm_quoteDecimals m)) (\<lambda>priceScaled.
    bind_res (str_to_bigint (wm_priceTickQ m)) (\<lambda>tickQ.
      if tickQ \<le> 0 then Inl (PlainError ''invalid_price_tickQ'') else Inr (tdiv priceScaled tickQ)))"

text \<open>\<open>String(n)\<close>: plain digits for an integer below \<open>10 ^ 21\<close>; otherwise a parameter.\<close>

definition num_string :: "(jnum \<Rightarrow> string) \<Rightarrow> jnum \<Rightarrow> string" where
  "num_string other n =
    (case n of
       Fin q \<Rightarrow> if is_int_rat q \<and> \<bar>q\<bar> < 10 ^ 21 then big_to_string \<lfloor>q\<rfloor> else other n
     | _ \<Rightarrow> other n)"

definition web_fee_bps :: "penv \<Rightarrow> jnum" where
  "web_fee_bps pe = str_to_num (env_or_falsy pe ''NEXT_PUBLIC_TAKER_FEE_BPS'' ''0'')"

definition taker_fee_amount :: "penv \<Rightarrow> int \<Rightarrow> int result" where
  "taker_fee_amount pe takerAmount =
    (if num_less (num 0) (web_fee_bps pe)
     then bind_res (js_BigInt (JNum (web_fee_bps pe))) (\<lambda>bps. Inr (tdiv (takerAmount * bps) 10000))
     else Inr 0)"

definition order_ttl :: "jnum option \<Rightarrow> rat" where
  "order_ttl e = (case e of Some (Fin q) \<Rightarrow> if 0 < q then q else 86400 | _ \<Rightarrow> 86400)"

definition order_salt :: "int \<Rightarrow> int \<Rightarrow> int" where
  "order_salt nowMs rand96 = 2 ^ 128 + (nowMs div 1000) * 2 ^ 96 + rand96"

definition zero32 :: string where
  "zero32 = ''0x'' @ replicate 64 CHR ''0''"

definition build_order ::
  "units \<Rightarrow> penv \<Rightarrow> (jnum \<Rightarrow> string) \<Rightarrow> int \<Rightarrow> int \<Rightarrow> web_market \<Rightarrow> place_params \<Rightarrow> string \<Rightarrow> jval result" where
  "build_order u pe other nowMs rand96 m p address =
    bind_res (computeAmounts u m p) (\<lambda>(makerToken, takerToken, makerAmount, takerAmount).
    bind_res (taker_fee_amount pe takerAmount) (\<lambda>fee.
      Inr (JObj
        [(''makerToken'', JStr makerToken), (''takerToken'', JStr takerToken),
         (''makerAmount'', JStr (big_to_string makerAmount)), (''takerAmount'', JStr (big_to_string takerAmount)),
         (''takerTokenFeeAmount'', JStr (big_to_string fee)), (''taker'', JStr zero_address),
         (''maker'', JStr address), (''sender'', JStr zero_address),
         (''feeRecipient'', JStr (if num_less (num 0) (web_fee_bps pe)
            then env_or_falsy pe ''NEXT_PUBLIC_TAKER_FEE_RECIPIENT'' zero_address else zero_address)),
         (''pool'', JStr zero32),
         (''expiry'', JStr (num_string other (Fin (of_int (nowMs div 1000) + order_ttl (pp_expirySec p))))),
         (''salt'', JStr (big_to_string (order_salt nowMs rand96)))])))"

section \<open>Signing\<close>

text \<open>The typed-data domain is its chain id and verifying contract.\<close>

record wallet =
  wl_address :: "string option"
  wl_domain :: "(int \<times> string) result"
  wl_sign712 :: "int \<times> string \<Rightarrow> jval \<Rightarrow> string result"
  wl_digest :: "int \<times> string \<Rightarrow> jval \<Rightarrow> string result"
  wl_recover :: "string \<Rightarrow> string \<Rightarrow> string result"
  wl_personalSign :: "string \<Rightarrow> string result"

definition splitSigHex :: "string \<Rightarrow> zx_sig result" where
  "splitSigHex sigHex =
    (let hex = (if starts_with sigHex ''0x'' then drop 2 sigHex else sigHex)
     in if length hex \<noteq> 130 then Inl (PlainError ''invalid signature length'')
        else Inr \<lparr>zs_signatureType = 3, zs_v = lift_v (parse_int 16 (js_slice 128 130 hex)),
          zs_r = ''0x'' @ js_slice 0 64 hex, zs_s = ''0x'' @ js_slice 64 128 hex\<rparr>)"

text \<open>\<open>fetchTopOfBook\<close>: the first level of either side of the live book of depth 1.\<close>

type_synonym top_prices = "(string option \<times> string option) result"

definition first_ticks :: "ob_level_ts list \<Rightarrow> string option" where
  "first_ticks ls = (case ls of [] \<Rightarrow> None | l # _ \<Rightarrow> Some (ob_priceTicks l))"

definition fetchTopOfBook :: "(int \<Rightarrow> string) \<Rightarrow> int \<Rightarrow> string \<Rightarrow> db \<Rightarrow> book_snapshot list \<Rightarrow> top_prices" where
  "fetchTopOfBook dec now symbol d table =
    bind_res (orderbook dec now (Some symbol) (Some ''1'') (Some ''live'') d table) (\<lambda>r.
      Inr (first_ticks (or_bids r), first_ticks (or_asks r)))"

definition opt_big :: "string option \<Rightarrow> int option result" where
  "opt_big s = (case s of None \<Rightarrow> Inr None | Some t \<Rightarrow> bind_res (str_to_bigint t) (\<lambda>n. Inr (Some n)))"

definition crosses_top :: "side \<Rightarrow> int \<Rightarrow> top_prices \<Rightarrow> bool result" where
  "crosses_top sd px tob =
    bind_res tob (\<lambda>(bb, ba).
    bind_res (opt_big bb) (\<lambda>bestBid.
    bind_res (opt_big ba) (\<lambda>bestAsk.
      Inr (would_cross sd px bestBid bestAsk))))"

text \<open>What throws in the check before signing leaves the decision to the backend.\<close>

definition pre_check :: "units \<Rightarrow> web_market \<Rightarrow> place_params \<Rightarrow> top_prices \<Rightarrow> bool" where
  "pre_check u m p tob \<longleftrightarrow> pp_postOnly p \<and>
    bind_res (computePriceTicks u m p) (\<lambda>px. crosses_top (pp_side p) px tob) = Inr True"

datatype placing = NotSigned | Submit order_body

definition placeLimit ::
  "units \<Rightarrow> penv \<Rightarrow> (jnum \<Rightarrow> string) \<Rightarrow> wallet \<Rightarrow> int \<Rightarrow> int \<Rightarrow> web_market \<Rightarrow> place_params \<Rightarrow> top_prices \<Rightarrow> placing result" where
  "placeLimit u pe other w nowMs rand96 m p tob =
    (if pre_check u m p tob then Inr NotSigned
     else case wl_address w of
       None \<Rightarrow> Inl (PlainError ''Connect wallet first.'')
     | Some a \<Rightarrow>
         if a = [] then Inl (PlainError ''Connect wallet first.'')
         else
           bind_res (wl_domain w) (\<lambda>domain.
           bind_res (build_order u pe other nowMs rand96 m p a) (\<lambda>order.
           bind_res (wl_sign712 w domain order) (\<lambda>sig712.
           bind_res (wl_digest w domain order) (\<lambda>digest.
           bind_res (wl_recover w digest sig712) (\<lambda>recovered.
             if to_lower recovered = to_lower a
             then Inr (Submit \<lparr>ob_order = order, ob_signature = Some (Inl sig712), ob_postOnly = pp_postOnly p\<rparr>)
             else
               bind_res (wl_personalSign w digest) (\<lambda>sigEth.
               bind_res (splitSigHex sigEth) (\<lambda>t.
                 Inr (Submit \<lparr>ob_order = order, ob_signature = Some (Inr t), ob_postOnly = pp_postOnly p\<rparr>)))))))))"

section \<open>Submitting a limit\<close>

datatype routed =
    RouteReadOnly
  | RouteInvalid "string list"
  | RouteLowBalance
  | RouteLowAllowance
  | RouteDeclined
  | RouteTaker string
  | RouteMaker

text \<open>\<open>bal\<close> and \<open>alw\<close> are balance and allowance of the token to pay, \<open>confirmed\<close> the user's answer.\<close>

definition truthy_ticks :: "string option \<Rightarrow> string option" where
  "truthy_ticks s = (if s = Some [] then None else s)"

definition onPlaceLimit ::
  "units \<Rightarrow> bool \<Rightarrow> web_market \<Rightarrow> place_params \<Rightarrow> int \<Rightarrow> int \<Rightarrow> top_prices \<Rightarrow> bool \<Rightarrow> routed result" where
  "onPlaceLimit u readOnly m p bal alw tob confirmed =
    (if readOnly then Inr RouteReadOnly
     else bind_res (validateLimitInput u m (pp_sizeBaseHuman p) (pp_priceHuman p)) (\<lambda>v.
       if \<not> li_ok v then Inr (RouteInvalid (li_errors v))
       else
         bind_res (parseSizeWei u (pp_sizeBaseHuman p) (wm_baseDecimals m)) (\<lambda>baseWei.
         bind_res (parsePriceScaled u (pp_priceHuman p) (wm_quoteDecimals m)) (\<lambda>priceScaled.
           let quoteWei = tdiv (baseWei * priceScaled) (10 ^ wm_baseDecimals m);
               required = (case pp_side p of SELL \<Rightarrow> baseWei | BUY \<Rightarrow> quoteWei);
               px = ld_priceTicks (li_derived v)
           in if 0 < required \<and> bal < required then Inr RouteLowBalance
              else if 0 < required \<and> alw < required then Inr RouteLowAllowance
              else if \<not> pp_postOnly p \<and> 0 < px \<and> crosses_top (pp_side p) px (bind_res tob (\<lambda>(b, a). Inr (truthy_ticks b, truthy_ticks a))) = Inr True
              then Inr (if confirmed then RouteTaker (big_to_string px) else RouteDeclined)
              else Inr RouteMaker))))"

section \<open>Pair cancel salts\<close>

definition SALT_OFFSET :: int where
  "SALT_OFFSET = 2 ^ 128"

definition minValidSaltAtNow :: "int \<Rightarrow> string" where
  "minValidSaltAtNow nowMs = big_to_string (SALT_OFFSET + (nowMs div 1000) * 2 ^ 96)"

definition minValidSaltOlderThan :: "int \<Rightarrow> rat \<Rightarrow> string result" where
  "minValidSaltOlderThan nowMs deltaSec =
    (let t = max 0 (of_int (nowMs div 1000) - deltaSec)
     in if is_int_rat t then Inr (big_to_string (SALT_OFFSET + \<lfloor>t\<rfloor> * 2 ^ 96)) else Inl RangeError)"

text \<open>\<open>MINVALID_AFTER_LEGACY\<close>, and the salt \<open>runCancelPair\<close> of \<open>CancelPairControls.tsx\<close> sends.\<close>

definition MINVALID_AFTER_LEGACY :: int where
  "MINVALID_AFTER_LEGACY = SALT_OFFSET + 1"

datatype cancel_scope = ScopeAll | ScopeOlderNow | ScopeOlder5m

definition pair_min_valid :: "cancel_scope \<Rightarrow> int \<Rightarrow> int" where
  "pair_min_valid scope nowMs =
    (let nowSec = nowMs div 1000;
         minValid = SALT_OFFSET + (case scope of ScopeOlder5m \<Rightarrow> max 0 (nowSec - 5 * 60) | _ \<Rightarrow> nowSec) * 2 ^ 96
     in if minValid < MINVALID_AFTER_LEGACY then MINVALID_AFTER_LEGACY else minValid)"

section \<open>Spend of a delegated intent\<close>

definition estimateRequiredSpendQ :: "units \<Rightarrow> side \<Rightarrow> string \<Rightarrow> string \<Rightarrow> nat \<Rightarrow> nat \<Rightarrow> jnum \<Rightarrow> int option" where
  "estimateRequiredSpendQ u sd sizeBaseHuman triggerPriceHuman baseDecimals quoteDecimals bufferBps =
    (case un_parse u (or_zero sizeBaseHuman) baseDecimals of
       Inl e \<Rightarrow> None
     | Inr sizeBaseQ \<Rightarrow>
         if sizeBaseQ \<le> 0 then None
         else
           (case (case sd of
                    BUY \<Rightarrow> bind_res (un_parse u (or_zero triggerPriceHuman) quoteDecimals) (\<lambda>priceQ.
                      Inr (if priceQ \<le> 0 then 0 else tdiv (sizeBaseQ * priceQ) (10 ^ baseDecimals)))
                  | SELL \<Rightarrow> Inr sizeBaseQ) of
              Inl e \<Rightarrow> None
            | Inr fillQ \<Rightarrow>
                if fillQ \<le> 0 then None
                else (case js_BigInt (JNum (js_max (num 0) (num_trunc bufferBps))) of
                        Inl e \<Rightarrow> None
                      | Inr bps \<Rightarrow> Some (fillQ + tdiv (fillQ * bps + 9999) 10000))))"

definition resolveSpendBufferBps :: "jnum option \<Rightarrow> jnum" where
  "resolveSpendBufferBps takerFeeBps =
    (case takerFeeBps of
       Some (Fin q) \<Rightarrow> Fin (max 200 (of_int (max 0 (trunc_rat q)) + 200))
     | _ \<Rightarrow> Fin 200)"

section \<open>Best prices of a book\<close>

definition ticks_big :: "string \<Rightarrow> int result" where
  "ticks_big s = (if s = [] then Inr 0 else str_to_bigint s)"

definition getBestTicks :: "(string list \<times> string list) option \<Rightarrow> (int option \<times> int option) result" where
  "getBestTicks book =
    (case book of
       None \<Rightarrow> Inr (None, None)
     | Some (bs, as) \<Rightarrow>
         bind_res (map_res ticks_big bs) (\<lambda>bids.
         bind_res (map_res ticks_big as) (\<lambda>asks.
           Inr (case bids of [] \<Rightarrow> None | b # rest \<Rightarrow> Some (foldl max b rest),
                case asks of [] \<Rightarrow> None | a # rest \<Rightarrow> Some (foldl min a rest)))))"

definition fmtPriceFromTicks :: "units \<Rightarrow> int \<Rightarrow> int \<Rightarrow> nat \<Rightarrow> string" where
  "fmtPriceFromTicks u ticks tickQ quoteDecimals = un_format u (ticks * (if tickQ = 0 then 1 else tickQ)) quoteDecimals"

end
