(* ===== verification/MarketOrder.thy ===== *)
theory MarketOrder
  imports WebForm
begin

text \<open>
  The taker side of the web application: the pipeline of a market order
  (\<open>apps/web/src/hooks/useMarketOrder.ts\<close>: quote, approve, execute, apply), the button of the market
  panel (\<open>components/TradePanel.tsx\<close>), and the execution of a ready conditional intent
  (\<open>components/ReadyIntentRowActions.tsx\<close>), which runs the same pipeline under a wallet lock.

  The state of the hook is a record; one handler run between two awaits is one step. What the API,
  the token contracts and the wallet answer are arguments. An error shown to the user is a
  constructor, not its text.
\<close>

section \<open>State\<close>

text \<open>Address, data and value of a transaction.\<close>

type_synonym web_tx = "string \<times> string \<times> string"

record web_fill =
  wf_makerOrderHash :: string
  wf_priceTicks :: string
  wf_sizeBase :: string
  wf_takerToken :: "string option"
  wf_takerAmount :: "string option"
  wf_feeRecipient :: "string option"
  wf_rawFeeRecipient :: "string option"

text \<open>An absent list of transactions is an empty one.\<close>

record web_quote =
  wq_fills :: "web_fill list"
  wq_txData :: "web_tx option"
  wq_txList :: "web_tx list"
  wq_remainingBase :: "string option"
  wq_takerAmount :: "string option"
  wq_takerTotalAmount :: "string option"
  wq_takerFeeTotal :: "string option"
  wq_takerFeeRecipient :: "string option"
  wq_topFeeRecipient :: "string option"

record order_inputs =
  in_market :: "web_market option"
  in_side :: side
  in_sizeHuman :: string
  in_fok :: bool
  in_limitPriceTicks :: "string option"

datatype ui_error =
    NoLiquidity
  | NotEnoughLiquidity int
  | NoTransaction
  | FokRejected
  | BelowMinNotional
  | ApiError string
  | ExecutionFailed string nat nat

record market_ui =
  mu_inputs :: order_inputs
  mu_busy :: bool
  mu_result :: "(nat \<times> string option) option"
  mu_err :: "ui_error option"
  mu_q :: "web_quote option"
  mu_needsApproval :: bool
  mu_needed :: int
  mu_takerToken :: "string option"
  mu_takerFee :: int
  mu_feeRecipient :: "string option"
  mu_pendingTx :: "web_tx option"
  mu_failure :: "string option"

definition quote_txs :: "web_quote \<Rightarrow> web_tx list" where
  "quote_txs q = (case wq_txData q of Some t \<Rightarrow> [t] | None \<Rightarrow> wq_txList q)"

definition quote_has_tx :: "web_quote \<Rightarrow> bool" where
  "quote_has_tx q \<longleftrightarrow> wq_txData q \<noteq> None \<or> wq_txList q \<noteq> []"

definition hasAnyTx :: "market_ui \<Rightarrow> bool" where
  "hasAnyTx s \<longleftrightarrow> (case mu_q s of Some q \<Rightarrow> quote_has_tx q | None \<Rightarrow> False)"

definition clear_plan :: "market_ui \<Rightarrow> market_ui" where
  "clear_plan s = s\<lparr>mu_q := None, mu_needsApproval := False, mu_needed := 0, mu_takerToken := None,
     mu_takerFee := 0, mu_feeRecipient := None, mu_pendingTx := None\<rparr>"

section \<open>Changing the inputs\<close>

text \<open>The dependencies of the effect that drops a cached plan.\<close>

definition plan_key :: "order_inputs \<Rightarrow> string option \<times> side \<times> string \<times> bool \<times> string option" where
  "plan_key i = (map_option wm_symbol (in_market i), in_side i, in_sizeHuman i, in_fok i, in_limitPriceTicks i)"

definition change_inputs :: "order_inputs \<Rightarrow> market_ui \<Rightarrow> market_ui" where
  "change_inputs i s =
    (let s1 = s\<lparr>mu_inputs := i\<rparr>
     in if plan_key i = plan_key (mu_inputs s) \<or> mu_q s = None then s1
        else (clear_plan s1)\<lparr>mu_result := None, mu_err := None\<rparr>)"

section \<open>Quote\<close>

definition is_address :: "string \<Rightarrow> bool" where
  "is_address s \<longleftrightarrow> is_0x_hex 40 s"

text \<open>\<open>BigInt(v)\<close> where \<open>v\<close> is a non-empty string that reads, else a default.\<close>

definition big_or :: "int \<Rightarrow> string option \<Rightarrow> int" where
  "big_or d v = (case v of
     Some t \<Rightarrow> if t = [] then d else (case str_to_bigint t of Inr n \<Rightarrow> n | Inl _ \<Rightarrow> d)
   | None \<Rightarrow> d)"

definition readable :: "string option \<Rightarrow> bool" where
  "readable v \<longleftrightarrow> (case v of Some t \<Rightarrow> t \<noteq> [] \<and> \<not> isl (str_to_bigint t) | None \<Rightarrow> False)"

definition available_base :: "web_fill list \<Rightarrow> int" where
  "available_base fs = sum_list (map (\<lambda>f. case str_to_bigint (wf_sizeBase f) of Inr n \<Rightarrow> n | Inl _ \<Rightarrow> 0) fs)"

text \<open>The amount to approve: the total with fee, the total, or the first fill's, whichever reads first.\<close>

definition amount_needed :: "web_quote \<Rightarrow> int" where
  "amount_needed q =
    (if readable (wq_takerTotalAmount q) then big_or 0 (wq_takerTotalAmount q)
     else if readable (wq_takerAmount q) then big_or 0 (wq_takerAmount q)
     else case wq_fills q of
       f # _ \<Rightarrow> big_or 0 (wf_takerAmount f)
     | [] \<Rightarrow> 0)"

fun first_some :: "'a option list \<Rightarrow> 'a option" where
  "first_some [] = None"
| "first_some (Some x # xs) = Some x"
| "first_some (None # xs) = first_some xs"

definition fee_recipient_of :: "web_quote \<Rightarrow> string option" where
  "fee_recipient_of q =
    (let f = (case wq_fills q of [] \<Rightarrow> [] | f # _ \<Rightarrow> [wf_feeRecipient f, wf_rawFeeRecipient f])
     in case first_some ([wq_takerFeeRecipient q, wq_topFeeRecipient q] @ f) of
          Some r \<Rightarrow> if is_address r then Some r else None
        | None \<Rightarrow> None)"

definition taker_token_of :: "web_market \<Rightarrow> side \<Rightarrow> web_quote \<Rightarrow> string" where
  "taker_token_of m sd q =
    (let dflt = (case sd of BUY \<Rightarrow> wm_quoteAddress m | SELL \<Rightarrow> wm_baseAddress m)
     in case wq_fills q of
          f # _ \<Rightarrow> (case wf_takerToken f of Some t \<Rightarrow> if is_address t then t else dflt | None \<Rightarrow> dflt)
        | [] \<Rightarrow> dflt)"

text \<open>The classification of a refused quote by the code its message contains.\<close>

definition failure_code :: "string \<Rightarrow> string option" where
  "failure_code raw =
    (let lower = to_lower raw
     in find (\<lambda>c. matches_in [c] lower)
          [''notional_below_min_notional'', ''size_below_min_size'', ''fok_insufficient_liquidity''])"

definition quote_error :: "string \<Rightarrow> ui_error" where
  "quote_error raw =
    (let lower = to_lower raw
     in if matches_in [''fok_insufficient_liquidity''] lower then FokRejected
        else if matches_in [''notional_below_min_notional''] lower then BelowMinNotional
        else ApiError raw)"

definition drop_quote :: "ui_error \<Rightarrow> market_ui \<Rightarrow> market_ui" where
  "drop_quote e s = s\<lparr>mu_q := None, mu_pendingTx := None, mu_needsApproval := False, mu_err := Some e\<rparr>"

definition quote_failed :: "string \<Rightarrow> market_ui \<Rightarrow> market_ui" where
  "quote_failed raw s = (drop_quote (quote_error raw) s)\<lparr>mu_failure := failure_code raw\<rparr>"

definition liquidity_error :: "int \<Rightarrow> int \<Rightarrow> ui_error" where
  "liquidity_error available requested =
    (if available = 0 then NoLiquidity
     else if available < requested then NotEnoughLiquidity available else NoTransaction)"

text \<open>The request that goes out, for a size that reads; the inputs are those of the render.\<close>

definition quote_start :: "market_ui \<Rightarrow> market_ui" where
  "quote_start s = s\<lparr>mu_busy := True, mu_err := None, mu_result := None\<rparr>"

definition quote_body :: "units \<Rightarrow> order_inputs \<Rightarrow> (string \<times> side \<times> string \<times> bool \<times> string option) result" where
  "quote_body u i =
    (case in_market i of
       None \<Rightarrow> Inl TypeError
     | Some m \<Rightarrow> bind_res (un_parse u (in_sizeHuman i) (wm_baseDecimals m)) (\<lambda>n.
         Inr (wm_symbol m, in_side i, big_to_string n, in_fok i,
           (if in_limitPriceTicks i = Some [] then None else in_limitPriceTicks i))))"

text \<open>
  The reply to a request for the inputs \<open>i\<close>, and what \<open>onQuote\<close> returns. \<open>allowance\<close> is what reading
  the allowance answers, or the message of what it throws.
\<close>

definition quote_reply ::
  "order_inputs \<Rightarrow> web_market \<Rightarrow> int \<Rightarrow> string + web_quote \<Rightarrow> string + int \<Rightarrow> market_ui \<Rightarrow> web_quote option \<times> market_ui" where
  "quote_reply i m requested reply allowance s =
    (let (ret, s') =
       (case reply of
          Inl raw \<Rightarrow> (None, quote_failed raw s)
        | Inr q \<Rightarrow>
            if \<not> quote_has_tx q
            then (None, drop_quote (liquidity_error (available_base (wq_fills q)) requested) s)
            else
              let s1 = s\<lparr>mu_q := Some q, mu_takerFee := big_or 0 (wq_takerFeeTotal q),
                    mu_feeRecipient := fee_recipient_of q,
                    mu_takerToken := Some (taker_token_of m (in_side i) q)\<rparr>;
                  amt = amount_needed q
              in if 0 < amt
                 then case allowance of
                   Inl raw \<Rightarrow> (None, quote_failed raw s1)
                 | Inr alw \<Rightarrow> (Some q, s1\<lparr>mu_needed := amt, mu_needsApproval := (alw < amt),
                     mu_pendingTx := wq_txData q, mu_failure := None\<rparr>)
                 else (Some q, s1\<lparr>mu_needed := 0, mu_needsApproval := False,
                   mu_pendingTx := wq_txData q, mu_failure := None\<rparr>))
     in (ret, s'\<lparr>mu_busy := False\<rparr>))"

section \<open>Approve\<close>

text \<open>\<open>approveIfNeeded\<close>: the amount to approve, none where the allowance is enough.\<close>

definition approveIfNeeded :: "int \<Rightarrow> int \<Rightarrow> int option" where
  "approveIfNeeded current needed = (if needed \<le> current then None else Some needed)"

definition can_approve :: "market_ui \<Rightarrow> bool" where
  "can_approve s \<longleftrightarrow> in_market (mu_inputs s) \<noteq> None \<and> mu_takerToken s \<noteq> None \<and> hasAnyTx s \<and> 0 < mu_needed s"

definition onApprove :: "bool \<Rightarrow> market_ui \<Rightarrow> market_ui" where
  "onApprove confirmed s =
    (if \<not> can_approve s then s
     else if confirmed then s\<lparr>mu_needsApproval := False, mu_busy := False\<rparr> else s\<lparr>mu_busy := False\<rparr>)"

section \<open>Execute\<close>

text \<open>What becomes of a transaction: refused by the wallet, mined as failed, or mined.\<close>

datatype sent = SendRejected string | SendFailed string string | SendMined string

datatype ui_call =
    CSend web_tx string
  | CNotify string
  | CApply string "(string \<times> string) list"
  | CRefresh nat

text \<open>The transactions in order, the hash of the last one mined, how many were, and what was thrown.\<close>

fun run_txs ::
  "bool \<Rightarrow> (nat \<Rightarrow> web_tx \<Rightarrow> sent) \<Rightarrow> nat \<Rightarrow> web_tx list \<Rightarrow> ui_call list \<times> string option \<times> nat \<times> string option" where
  "run_txs notify send n [] = ([], None, n, None)"
| "run_txs notify send n (t # ts) =
    (case str_to_bigint (snd (snd t)) of
       Inl e \<Rightarrow> ([], None, n, Some (exn_message e))
     | Inr _ \<Rightarrow>
         let told = (\<lambda>h. if notify \<and> n = 0 then [CNotify h] else [])
         in case send n t of
              SendRejected msg \<Rightarrow> ([], None, n, Some msg)
            | SendFailed h msg \<Rightarrow> (CSend t h # told h, None, n, Some msg)
            | SendMined h \<Rightarrow>
                let (cs, final, k, err) = run_txs notify send (n + 1) ts
                in (CSend t h # told h @ cs, (case final of None \<Rightarrow> Some h | Some g \<Rightarrow> Some g), k, err))"

definition apply_call :: "web_market \<Rightarrow> web_quote \<Rightarrow> ui_call list" where
  "apply_call m q =
    (if wq_fills q = [] then []
     else [CApply (wm_symbol m) (map (\<lambda>f. (wf_makerOrderHash f, wf_sizeBase f)) (wq_fills q))])"

definition onExecute ::
  "bool \<Rightarrow> (nat \<Rightarrow> web_tx \<Rightarrow> sent) \<Rightarrow> bool \<Rightarrow> market_ui \<Rightarrow> ui_call list \<times> market_ui" where
  "onExecute notify send applied s =
    (case mu_q s of
       None \<Rightarrow> ([], s)
     | Some q \<Rightarrow>
         if \<not> quote_has_tx q then ([], s)
         else case in_market (mu_inputs s) of
           None \<Rightarrow> ([], s\<lparr>mu_busy := False,
             mu_err := Some (ExecutionFailed ''Market not available'' 0 (length (quote_txs q)))\<rparr>)
         | Some m \<Rightarrow>
             let (cs, final, k, err) = run_txs notify send 0 (quote_txs q)
             in case err of
                  None \<Rightarrow>
                    (let ok = (applied \<or> wq_fills q = [])
                     in (cs @ apply_call m q @
                           (if ok then [CRefresh 0, CRefresh 3000] else [CRefresh 0, CRefresh 1500, CRefresh 4500]),
                         (clear_plan s)\<lparr>mu_busy := False, mu_err := None,
                           mu_result := Some (length (wq_fills q), final)\<rparr>))
                | Some msg \<Rightarrow>
                    (cs @ (if 0 < k then [CRefresh 0] else []),
                     (if 0 < k then clear_plan s else s)
                       \<lparr>mu_busy := False, mu_err := Some (ExecutionFailed msg k (length (quote_txs q)))\<rparr>))"

section \<open>The button of the market panel\<close>

text \<open>\<open>onCheckGas\<close> without a plan: it keeps the quote it asked for, and nothing else of it.\<close>

definition onCheckGas :: "int \<Rightarrow> string + web_quote \<Rightarrow> market_ui \<Rightarrow> market_ui" where
  "onCheckGas requested reply s =
    (if hasAnyTx s then s
     else case in_market (mu_inputs s) of
       None \<Rightarrow> s
     | Some m \<Rightarrow>
         (case reply of
            Inl raw \<Rightarrow>
              if matches_in [''fok_insufficient_liquidity''] (to_lower raw) then s\<lparr>mu_err := Some FokRejected\<rparr> else s
          | Inr q \<Rightarrow>
              if quote_has_tx q then s\<lparr>mu_q := Some q\<rparr>
              else s\<lparr>mu_err := Some (liquidity_error (available_base (wq_fills q)) requested)\<rparr>))"

datatype market_cta = CtaQuote | CtaApprove | CtaExecute

definition marketCta :: "market_ui \<Rightarrow> market_cta" where
  "marketCta s = (if \<not> hasAnyTx s then CtaQuote else if mu_needsApproval s then CtaApprove else CtaExecute)"

definition marketSizeError :: "units \<Rightarrow> order_inputs \<Rightarrow> bool result" where
  "marketSizeError u i =
    (case in_market i of
       None \<Rightarrow> Inr False
     | Some m \<Rightarrow>
         if in_sizeHuman i = [] then Inr False
         else case parseSizeWei u (in_sizeHuman i) (wm_baseDecimals m) of
           Inl e \<Rightarrow> Inr True
         | Inr n \<Rightarrow> bind_res (str_to_bigint (wm_minSizeB m)) (\<lambda>minSizeB. Inr (n \<le> 0 \<or> n < minSizeB)))"

definition marketNotionalError :: "market_ui \<Rightarrow> bool result" where
  "marketNotionalError s =
    (case (in_market (mu_inputs s), mu_q s) of
       (Some m, Some q) \<Rightarrow>
         if wq_fills q = [] then Inr False
         else bind_res (str_to_bigint (wm_minNotionalQ m)) (\<lambda>minNotionalQ.
           Inr (marketQuoteNotionalQ m (map (\<lambda>f. (wf_priceTicks f, wf_sizeBase f)) (wq_fills q)) < minNotionalQ))
     | _ \<Rightarrow> Inr False)"

definition marketCtaDisabled :: "units \<Rightarrow> market_ui \<Rightarrow> bool result" where
  "marketCtaDisabled u s =
    bind_res (marketSizeError u (mu_inputs s)) (\<lambda>sizeErr.
    bind_res (marketNotionalError s) (\<lambda>notionalErr.
      Inr (in_market (mu_inputs s) = None \<or> mu_busy s \<or>
        (marketCta s = CtaQuote \<and> (in_sizeHuman (mu_inputs s) = [] \<or> sizeErr)) \<or>
        (marketCta s \<noteq> CtaQuote \<and> notionalErr))))"

section \<open>Executing a ready intent\<close>

datatype exec_stage = StIdle | StValidating | StSufficient | StInsufficient | StError | StSubmitted

text \<open>A reason of the API is shown through a table of messages, the others as they are.\<close>

datatype exec_reason = FromApi string | Shown string

record ready_ui =
  ru_stage :: exec_stage
  ru_reason :: "exec_reason option"
  ru_token :: "string option"
  ru_lockUntil :: "string option"

definition stop :: "exec_stage \<Rightarrow> exec_reason \<Rightarrow> ready_ui \<Rightarrow> ready_ui" where
  "stop st why r = r\<lparr>ru_stage := st, ru_reason := Some why\<rparr>"

text \<open>The check of the quote \<open>onQuote\<close> returned; \<open>cls\<close> is the class of its failure.\<close>

definition judge_quote :: "web_market \<Rightarrow> string \<Rightarrow> web_quote option \<Rightarrow> string option \<Rightarrow> ready_ui \<Rightarrow> ready_ui" where
  "judge_quote m sizeBase qq cls r =
    (case qq of
       None \<Rightarrow>
         stop StError (Shown
           (if cls = Some ''notional_below_min_notional'' then ''notional_below_min_notional_at_execute''
            else if cls = Some ''size_below_min_size'' then ''size_below_min_size_at_execute''
            else ''quote_failed'')) r
     | Some q \<Rightarrow>
         (case bind_res (str_to_bigint (wm_minNotionalQ m)) (\<lambda>minNotionalQ.
               if marketQuoteNotionalQ m (map (\<lambda>f. (wf_priceTicks f, wf_sizeBase f)) (wq_fills q)) < minNotionalQ
               then Inr (stop StError (Shown ''notional_below_min_notional_at_execute'') r)
               else
                 bind_res (str_to_bigint sizeBase) (\<lambda>requested.
                 bind_res (map_res (\<lambda>f. str_to_bigint (wf_sizeBase f)) (wq_fills q)) (\<lambda>sizes.
                   let remaining = (case wq_remainingBase q of
                         None \<Rightarrow> 0 | Some t \<Rightarrow> (case str_to_bigint t of Inr n \<Rightarrow> n | Inl _ \<Rightarrow> 0))
                   in if \<not> (remaining = 0 \<and> requested \<le> sum_list sizes \<and> quote_has_tx q)
                      then Inr (stop StInsufficient (Shown ''insufficient_liquidity_at_execute'') r)
                      else if 1 < length (wq_txList q)
                      then Inr (stop StInsufficient (Shown ''multi_tx_not_supported'') r)
                      else Inr (r\<lparr>ru_stage := StSufficient\<rparr>)))) of
            Inr r' \<Rightarrow> r'
          | Inl e \<Rightarrow> stop StError (Shown (exn_message e)) r))"

text \<open>
  One run of the button: the fresh quote (a lock nonce and a proposed end of the lock), the wallet
  lock (its token and end), the executable quote. \<open>qq\<close> and \<open>cls\<close> are what the quote gives once the
  lock is held; the second component tells whether it was asked for.
\<close>

definition orchestrate ::
  "bool \<Rightarrow> web_market \<Rightarrow> string \<Rightarrow> (string + (string option \<times> string option)) result \<Rightarrow>
    (string \<times> string option) result \<Rightarrow> web_quote option \<Rightarrow> string option \<Rightarrow> ready_ui \<Rightarrow> ready_ui \<times> bool" where
  "orchestrate readOnly m sizeBase fresh lock qq cls r0 =
    (if readOnly then (r0, False)
     else
       let r = r0\<lparr>ru_stage := StValidating, ru_reason := None, ru_token := None, ru_lockUntil := None\<rparr>
       in case fresh of
            Inl e \<Rightarrow> (stop StError (Shown (exn_message e)) r, False)
          | Inr (Inl reason) \<Rightarrow> (stop StError (FromApi reason) r, False)
          | Inr (Inr (nonce, proposal)) \<Rightarrow>
              if nonce \<in> {None, Some []} \<or> proposal = None
              then (stop StError (Shown ''server_lock_unavailable'') r, False)
              else case lock of
                Inl e \<Rightarrow> (stop StError (FromApi (exn_message e)) r, False)
              | Inr (token, until) \<Rightarrow>
                  (judge_quote m sizeBase qq cls
                     (r\<lparr>ru_token := Some token, ru_lockUntil := (case until of Some t \<Rightarrow> Some t | None \<Rightarrow> proposal)\<rparr>), True))"

text \<open>
  The confirm button. The marker is posted for the first hash, with the token of the lock; the stage
  is set after the execution whatever became of it.
\<close>

definition lock_remaining :: "int \<Rightarrow> string option \<Rightarrow> int option" where
  "lock_remaining now until = (case until of None \<Rightarrow> None | Some t \<Rightarrow> map_option (\<lambda>u. u - now) (iso_parse t))"

definition onConfirmClick ::
  "bool \<Rightarrow> int \<Rightarrow> (nat \<Rightarrow> web_tx \<Rightarrow> sent) \<Rightarrow> bool \<Rightarrow> ready_ui \<Rightarrow> market_ui \<Rightarrow> ui_call list \<times> ready_ui \<times> market_ui" where
  "onConfirmClick readOnly now send applied r s =
    (if readOnly then ([], r, s)
     else
       case lock_remaining now (ru_lockUntil r) of
         None \<Rightarrow> ([], stop StError (Shown ''Confirmation window closing'') r, s)
       | Some remainingMs \<Rightarrow>
           if remainingMs \<le> 60000 then ([], stop StError (Shown ''Confirmation window closing'') r, s)
           else let (cs, s') = onExecute (ru_token r \<noteq> None) send applied s
                in (cs, r\<lparr>ru_stage := StSubmitted\<rparr>, s'))"

end
