(* ===== verification/PublicProps.thy ===== *)
theory PublicProps
  imports PublicApi
begin

text \<open>
  What the read side of the public API promises: the live ladder is the aggregation of the open
  rows, best price first, and walking the order listing page by page lists every matching order
  once.
\<close>

section \<open>The live ladder\<close>

text \<open>What rests on one side at one price, the prices of a side, and the level shown for one.\<close>

definition resting :: "order_row list \<Rightarrow> side \<Rightarrow> int \<Rightarrow> int" where
  "resting rs sd p = sum_list (map o_remaining (filter (\<lambda>r. o_side r = sd \<and> o_priceTicks r = p) rs))"

definition side_prices :: "order_row list \<Rightarrow> side \<Rightarrow> int set" where
  "side_prices rs sd = o_priceTicks ` {r \<in> set rs. o_side r = sd}"

definition exact_level :: "order_row list \<Rightarrow> side \<Rightarrow> int \<Rightarrow> ob_level_ts" where
  "exact_level rs sd p =
    \<lparr>ob_priceTicks = big_to_string p, ob_sizeBase = big_to_string (resting rs sd p),
     ob_ts = Some (toISOString (Min (o_placedAt ` {r \<in> set rs. o_priceTicks r = p})))\<rparr>"

definition tally :: "order_row list \<Rightarrow> (string \<times> int) list \<Rightarrow> (string \<times> int) list" where
  "tally rs m = foldl (\<lambda>m r. bump (big_to_string (o_priceTicks r)) (o_remaining r) m) m rs"

lemma ladder_maps_tally:
  assumes "\<forall>r \<in> set rs. str_to_bigint (dec (o_remaining r)) = Inr (o_remaining r)"
  shows "ladder_maps dec rs b a =
    Inr (tally (filter (\<lambda>r. o_side r = BUY) rs) b, tally (filter (\<lambda>r. o_side r = SELL) rs) a)"
  using assms by (induction rs arbitrary: a b) (auto simp: tally_def Let_def split: side.split)

definition total_at :: "order_row list \<Rightarrow> int \<Rightarrow> int" where
  "total_at rs p = sum_list (map o_remaining (filter (\<lambda>r. o_priceTicks r = p) rs))"

lemma total_at_absent: "p \<notin> o_priceTicks ` set rs \<Longrightarrow> total_at rs p = 0"
  by (induction rs) (auto simp: total_at_def)

lemma total_at_snoc: "total_at (rs @ [r]) p = total_at rs p + (if o_priceTicks r = p then o_remaining r else 0)"
  by (simp add: total_at_def)

lemma map_of_tally:
  "map_of (tally rs []) (big_to_string p) = (if p \<in> o_priceTicks ` set rs then Some (total_at rs p) else None)"
proof (induction rs rule: rev_induct)
  case (snoc r rs)
  then show ?case
    by (auto simp: tally_def bump_def update_conv total_at_snoc total_at_absent split: option.splits if_splits)
qed (simp add: tally_def)

lemma tally_keys:
  "distinct (map fst (tally rs [])) \<and> fst ` set (tally rs []) = big_to_string ` o_priceTicks ` set rs"
proof (induction rs rule: rev_induct)
  case (snoc r rs)
  have "fst ` set (AList.update k v m) = insert k (fst ` set m)" for k v and m :: "(string \<times> int) list"
    using dom_update [of k v m] by (simp add: dom_map_of_conv_image_fst)
  with snoc show ?case by (simp add: tally_def bump_def distinct_update)
qed (simp add: tally_def)

lemma tally_entry:
  assumes "e \<in> set (tally rs [])"
  shows "e = (big_to_string (amount (fst e)), total_at rs (amount (fst e))) \<and> amount (fst e) \<in> o_priceTicks ` set rs"
proof -
  obtain p where p: "fst e = big_to_string p" "p \<in> o_priceTicks ` set rs"
    using assms tally_keys [of rs] by (metis (no_types, lifting) imageE image_eqI)
  moreover from assms tally_keys [of rs] have "map_of (tally rs []) (fst e) = Some (snd e)"
    by (simp add: map_of_eq_Some_iff)
  ultimately have "snd e = total_at rs p" by (simp add: map_of_tally)
  with p show ?thesis by (cases e) simp
qed

interpretation asc: comparator cmpAsc
  by unfold_locales (auto simp: cmpAsc_def Let_def split: if_splits)

interpretation desc: comparator cmpDesc
  by unfold_locales (auto simp: cmpDesc_def Let_def split: if_splits)

lemma tally_prices: "distinct (map (\<lambda>e. amount (fst e)) (tally rs []))"
    "(\<lambda>e. amount (fst e)) ` set (tally rs []) = o_priceTicks ` set rs"
proof -
  have f: "amount (fst e) = amount (fst e') \<longleftrightarrow> fst e = fst e'"
    if "e \<in> set (tally rs [])" "e' \<in> set (tally rs [])" for e e'
    using tally_entry [OF that(1)] tally_entry [OF that(2)] by (metis fst_conv)
  have "inj_on amount (fst ` set (tally rs []))" by (auto simp: inj_on_def f)
  then have "distinct (map amount (map fst (tally rs [])))"
    using tally_keys [of rs] by (simp only: distinct_map set_map)
  then show "distinct (map (\<lambda>e. amount (fst e)) (tally rs []))" by (simp add: o_def)
  have "amount ` fst ` set (tally rs []) = amount ` big_to_string ` o_priceTicks ` set rs"
    using tally_keys [of rs] by simp
  then show "(\<lambda>e. amount (fst e)) ` set (tally rs []) = o_priceTicks ` set rs" by (simp add: image_image)
qed

lemma sorted_prices:
  "map (\<lambda>e. amount (fst e)) (js_sort cmpAsc (tally rs [])) = sorted_list_of_set (o_priceTicks ` set rs)"
  "map (\<lambda>e. amount (fst e)) (js_sort cmpDesc (tally rs [])) = rev (sorted_list_of_set (o_priceTicks ` set rs))"
proof -
  let ?f = "\<lambda>e. amount (fst e)"
  have a: "sorted (map ?f (js_sort cmpAsc (tally rs [])))"
    unfolding sorted_map by (rule sorted_wrt_mono_rel [OF _ asc.sorted_js_sort]) (auto simp: cmpAsc_def Let_def split: if_splits)
  have d: "sorted (rev (map ?f (js_sort cmpDesc (tally rs []))))"
    unfolding sorted_wrt_rev sorted_wrt_map
    by (rule sorted_wrt_mono_rel [OF _ desc.sorted_js_sort]) (auto simp: cmpDesc_def Let_def split: if_splits)
  show "map ?f (js_sort cmpAsc (tally rs [])) = sorted_list_of_set (o_priceTicks ` set rs)"
    using a tally_prices [of rs] by (intro sorted_distinct_set_unique) simp_all
  have "rev (map ?f (js_sort cmpDesc (tally rs []))) = sorted_list_of_set (o_priceTicks ` set rs)"
    using d tally_prices [of rs] by (intro sorted_distinct_set_unique) (simp_all add: distinct_rev del: rev_map)
  then show "map ?f (js_sort cmpDesc (tally rs [])) = rev (sorted_list_of_set (o_priceTicks ` set rs))"
    by (metis rev_rev_ident)
qed

lemma ladder_exact:
  assumes "map (\<lambda>e. amount (fst e)) (js_sort c (tally rs [])) = ps"
  shows "ladder c n (tally rs []) =
    map (\<lambda>p. \<lparr>ob_priceTicks = big_to_string p, ob_sizeBase = big_to_string (total_at rs p)\<rparr>) (take n ps)"
proof -
  have "(\<lambda>(px, sz). \<lparr>ob_priceTicks = px, ob_sizeBase = big_to_string sz\<rparr>) e =
      \<lparr>ob_priceTicks = big_to_string (amount (fst e)), ob_sizeBase = big_to_string (total_at rs (amount (fst e)))\<rparr>"
    if "e \<in> set (take n (js_sort c (tally rs [])))" for e
  proof -
    from in_set_takeD [OF that] have "e \<in> set (tally rs [])" by simp
    then have "e = (big_to_string (amount (fst e)), total_at rs (amount (fst e)))" using tally_entry by blast
    then show ?thesis by (metis (mono_tags, lifting) case_prod_conv)
  qed
  then have "ladder c n (tally rs []) = map (\<lambda>e. \<lparr>ob_priceTicks = big_to_string (amount (fst e)),
      ob_sizeBase = big_to_string (total_at rs (amount (fst e)))\<rparr>) (take n (js_sort c (tally rs [])))"
    unfolding ladder_def by (intro map_cong) simp_all
  also have "\<dots> = map (\<lambda>p. \<lparr>ob_priceTicks = big_to_string p, ob_sizeBase = big_to_string (total_at rs p)\<rparr>)
      (take n (map (\<lambda>e. amount (fst e)) (js_sort c (tally rs []))))"
    by (simp add: take_map o_def)
  finally show ?thesis by (simp only: assms)
qed

interpretation placed: comparator "\<lambda>a b. o_placedAt a - o_placedAt b"
  by unfold_locales auto

lemma earliest_row:
  assumes "xs \<noteq> []"
  shows "\<exists>r rest. js_sort (\<lambda>a b. o_placedAt a - o_placedAt b) xs = r # rest \<and> o_placedAt r = Min (o_placedAt ` set xs)"
proof -
  obtain r rest where r: "js_sort (\<lambda>a b. o_placedAt a - o_placedAt b) xs = r # rest"
    using assms by (cases "js_sort (\<lambda>a b. o_placedAt a - o_placedAt b) xs") (auto dest: arg_cong [of _ _ length])
  have s: "set xs = insert r (set rest)" using arg_cong [OF r, of set] by simp
  have "\<forall>x \<in> set rest. o_placedAt r \<le> o_placedAt x" using placed.sorted_js_sort [of xs] by (simp add: r)
  then have "Min (o_placedAt ` set xs) = o_placedAt r" unfolding s by (intro Min_eqI) auto
  with r show ?thesis by simp
qed

lemma attach_exact:
  assumes "set ps \<subseteq> o_priceTicks ` set (open_rows d mid)"
  shows "attachLevelTs d mid (map (\<lambda>p. \<lparr>ob_priceTicks = big_to_string p, ob_sizeBase = sz p\<rparr>) ps) =
    Inr (map (\<lambda>p. \<lparr>ob_priceTicks = big_to_string p, ob_sizeBase = sz p,
      ob_ts = Some (toISOString (Min (o_placedAt ` {r \<in> set (open_rows d mid). o_priceTicks r = p})))\<rparr>) ps)"
  using assms
proof (induction ps)
  case (Cons p ps)
  have "filter (\<lambda>r. o_priceTicks r = p) (open_rows d mid) \<noteq> []"
    using Cons.prems by (auto simp: filter_empty_conv)
  from earliest_row [OF this] Cons show ?case
    by (auto simp: attachLevelTs_def with_level_ts_def)
qed (simp add: attachLevelTs_def)

lemma parse_int_int: "parse_int radix s = Fin q \<Longrightarrow> q = of_int \<lfloor>q\<rfloor>"
  by (auto simp: parse_int_def Let_def split: prod.splits if_splits)

lemma positive_or_pos: "0 < dflt \<Longrightarrow> 0 < positive_or dflt cap s"
  by (auto simp: positive_or_def split: jnum.split dest!: parse_int_int)
    (metis less_numeral_extra(1) of_int_0_less_iff zero_less_floor zless_nat_conj)+

lemma parse_int_big: "parse_int 10 (big_to_string n) = num n"
proof -
  let ?d = "nat_digits \<bar>n\<bar>"
  have c: "\<forall>c \<in> set ?d. 48 \<le> code c \<and> code c \<le> 57" by (intro nat_digits_codes) simp
  have a: "all_digits 10 ?d" by (simp add: all_digits_nat_digits)
  have t: "takeWhile (is_digit 10) ?d = ?d" using a by (simp add: all_digits_def list_all_iff takeWhile_eq_all_conv)
  have w: "dropWhile is_space s = s" if "\<forall>c \<in> set s. \<not> is_space c" for s using that by (cases s) auto
  have d: "dropWhile is_space ?d = ?d" using c by (intro w) (auto simp: is_space_def)
  show ?thesis
  proof (cases "n < 0")
    case True
    then show ?thesis using t w [of "CHR ''-'' # ?d"] c
      by (simp add: parse_int_def Let_def big_to_string_def take_sign_def nat_digits_not_Nil digits_val_nat_digits
          is_space_def code_dash del: takeWhile_eq_all_conv)
  next
    case False
    then show ?thesis using t d radix_literal_digits [OF c]
      by (simp add: parse_int_def Let_def big_to_string_def take_sign_def nat_digits_not_Nil digits_val_nat_digits
          del: takeWhile_eq_all_conv)
  qed
qed

text \<open>
  C14. The live order book is exact. Where the amounts of the open rows of the market read back
  as integers, the reply holds for each side one level per price at which an open row of that side
  rests, strictly best price first and cut to the depth of the request, each with the sum of the
  remaining sizes of the rows of that side and price, to the last unit, and with the time of the
  oldest open row at that price. A missing, non-numeric or non-positive depth reads as 25.
\<close>

theorem live_book_is_exact:
  assumes "row_by mk_symbol nm (d_markets d) = Some m" and "nm \<noteq> []"
    and "\<forall>r \<in> set (open_rows d (mk_id m)). str_to_bigint (dec (o_remaining r)) = Inr (o_remaining r)"
  shows "\<exists>n. 0 < n \<and> (\<forall>k. depth = Some (big_to_string k) \<longrightarrow> n = (if 0 < k then nat k else 25)) \<and>
    orderbook dec now (Some nm) depth (Some ''live'') d table = Inr
      \<lparr>or_symbol = nm, or_source = ''live'',
       or_bids = map (exact_level (open_rows d (mk_id m)) BUY)
         (take n (rev (sorted_list_of_set (side_prices (open_rows d (mk_id m)) BUY)))),
       or_asks = map (exact_level (open_rows d (mk_id m)) SELL)
         (take n (sorted_list_of_set (side_prices (open_rows d (mk_id m)) SELL))),
       or_ts = Some (toISOString now)\<rparr>"
proof -
  let ?rs = "open_rows d (mk_id m)" and ?n = "positive_or 25 None depth"
  let ?of = "\<lambda>sd. filter (\<lambda>r. o_side r = sd) ?rs"
  have r: "total_at (?of sd) p = resting ?rs sd p" "o_priceTicks ` set (?of sd) = side_prices ?rs sd" for sd p
    by (simp_all add: total_at_def resting_def side_prices_def conj_commute)
  have s: "set (take ?n (sorted_list_of_set (side_prices ?rs sd))) \<subseteq> o_priceTicks ` set ?rs"
    "set (take ?n (rev (sorted_list_of_set (side_prices ?rs sd)))) \<subseteq> o_priceTicks ` set ?rs" for sd
    by (auto dest!: in_set_takeD simp: side_prices_def)
  note l = ladder_exact [OF sorted_prices(1), of ?n "?of SELL", unfolded r]
    ladder_exact [OF sorted_prices(2), of ?n "?of BUY", unfolded r]
  have "orderbook dec now (Some nm) depth (Some ''live'') d table = Inr
      \<lparr>or_symbol = nm, or_source = ''live'',
       or_bids = map (exact_level ?rs BUY) (take ?n (rev (sorted_list_of_set (side_prices ?rs BUY)))),
       or_asks = map (exact_level ?rs SELL) (take ?n (sorted_list_of_set (side_prices ?rs SELL))),
       or_ts = Some (toISOString now)\<rparr>"
    using assms(1,2)
    by (simp add: orderbook_def Let_def market_named_def snapshotFromDb_def ladder_maps_tally [OF assms(3)] l
        attach_exact [OF s(1)] attach_exact [OF s(2)] exact_level_def [abs_def])
  moreover have "0 < ?n" by (rule positive_or_pos) simp
  moreover have "?n = (if 0 < k then nat k else 25)" if "depth = Some (big_to_string k)" for k
    by (simp add: that positive_or_def parse_int_big)
  ultimately show ?thesis by blast
qed



section \<open>A sample market\<close>

definition sample_open :: "string \<Rightarrow> side \<Rightarrow> int \<Rightarrow> int \<Rightarrow> int \<Rightarrow> order_row" where
  "sample_open h sd px rem t =
    \<lparr>o_hash = h, o_marketId = ''m1'', o_maker = ''0xaa'', o_side = sd, o_priceTicks = px, o_sizeBase = rem,
     o_remaining = rem, o_status = O_PLACED, o_expiry = 0, o_salt = '''', o_zeroEx = JNull, o_signature = [],
     o_placedAt = t\<rparr>"

definition sample_public :: db where
  "sample_public =
    \<lparr>d_markets = [\<lparr>mk_id = ''m1'', mk_symbol = ''B-Q'', mk_baseAddress = ''0xb'', mk_quoteAddress = ''0xc'',
       mk_baseDecimals = 0, mk_quoteDecimals = 0, mk_minNotionalQ = 1, mk_minSizeB = 1, mk_priceTickQ = 1\<rparr>],
     d_orders = [sample_open ''h1'' BUY 5 10 1, sample_open ''h2'' BUY 5 7 2, sample_open ''h3'' BUY 9 1 3,
       sample_open ''h4'' SELL 11 4 3],
     d_trades = [], d_events = [], d_ws = [], d_metrics = []\<rparr>"

lemma sample_side: "side_prices (open_rows sample_public ''m1'') BUY = {5, 9}"
proof -
  have "map o_priceTicks (filter (\<lambda>r. o_side r = BUY) (open_rows sample_public ''m1'')) = [5, 5, 9]" by code_simp
  then have "set (map o_priceTicks (filter (\<lambda>r. o_side r = BUY) (open_rows sample_public ''m1''))) = {5, 9}"
    by (simp only:) auto
  then show ?thesis by (simp add: side_prices_def)
qed

theorem live_book_is_exact_witness:
  "\<exists>r. orderbook big_to_string 0 (Some ''B-Q'') (Some (big_to_string 1)) (Some ''live'') sample_public [] = Inr r \<and>
    map ob_sizeBase (or_bids r) = [big_to_string 1] \<and> map ob_priceTicks (or_bids r) = [big_to_string 9]"
proof -
  define m where "m = hd (d_markets sample_public)"
  have m: "row_by mk_symbol ''B-Q'' (d_markets sample_public) = Some m" "mk_id m = ''m1''"
    by (simp_all add: sample_public_def m_def)
  have sz: "resting (open_rows sample_public ''m1'') BUY 9 = 1" by code_simp
  have dec: "\<forall>r \<in> set (open_rows sample_public (mk_id m)).
      str_to_bigint (big_to_string (o_remaining r)) = Inr (o_remaining r)" by simp
  have "take 1 (rev (sorted_list_of_set {5, 9 :: int})) = [9]" by simp
  with live_book_is_exact [OF m(1) _ dec, of "Some (big_to_string 1)" 0 "[]"] show ?thesis
    unfolding m(2) sample_side by (auto simp: exact_level_def sz simp del: One_nat_def)
qed


section \<open>Walking the pages\<close>

lemma str_le_total: "str_le s t \<or> str_le t s"
  by (induction s t rule: str_le.induct) auto

lemma str_le_trans: "str_le s t \<Longrightarrow> str_le t u \<Longrightarrow> str_le s u"
proof (induction s t arbitrary: u rule: str_le.induct)
  case (3 a s b t)
  then show ?case by (cases u) auto
qed auto

lemma str_le_antisym: "str_le s t \<Longrightarrow> str_le t s \<Longrightarrow> s = t"
  by (induction s t rule: str_le.induct) (auto simp: code_def elim: str_le.elims)

interpretation page: comparator cmp_page
proof unfold_locales
  show "cmp_page x y \<le> 0 \<or> cmp_page y x \<le> 0" for x y
    using str_le_antisym [of "o_hash x" "o_hash y"] by (auto simp: cmp_page_def)
  show "cmp_page x z \<le> 0" if "cmp_page x y \<le> 0" "cmp_page y z \<le> 0" for x y z
    using that str_le_total [of "o_hash x" "o_hash y"] str_le_total [of "o_hash y" "o_hash z"]
      str_le_trans [of "o_hash x" "o_hash z" "o_hash y"] str_le_trans [of "o_hash z" "o_hash y" "o_hash x"]
      str_le_trans [of "o_hash y" "o_hash x" "o_hash z"] str_le_antisym [of "o_hash x" "o_hash y"]
      str_le_antisym [of "o_hash y" "o_hash z"]
    by (auto simp: cmp_page_def split: if_splits)
qed

lemma cmp_page_self [simp]: "cmp_page r r = 0"
  by (simp add: cmp_page_def)

lemma cmp_page_strict: "cmp_page a b \<le> 0 \<Longrightarrow> o_hash a \<noteq> o_hash b \<Longrightarrow> 0 < cmp_page b a"
  using str_le_total [of "o_hash a" "o_hash b"] by (auto simp: cmp_page_def split: if_splits)

text \<open>The rows at or after the cursor, without the cursor, are the rows after it.\<close>

lemma after_cursor:
  assumes "sorted_wrt (\<lambda>x y. cmp_page x y \<le> 0) (xs @ c # ys)" and "distinct (map o_hash (xs @ c # ys))"
  shows "drop 1 (filter (\<lambda>x. cmp_page c x \<le> 0) (xs @ c # ys)) = ys"
proof -
  have "filter (\<lambda>x. cmp_page c x \<le> 0) xs = []"
    using assms cmp_page_strict by (fastforce simp: filter_empty_conv sorted_wrt_append image_iff)
  moreover have "filter (\<lambda>x. cmp_page c x \<le> 0) ys = ys"
    using assms(1) by (simp add: filter_id_conv sorted_wrt_append)
  ultimately show ?thesis by simp
qed

lemma page_size_range: "take_arg (page_size l) = Inr n \<Longrightarrow> 1 \<le> n \<and> n \<le> 200"
  by (auto simp: take_arg_def page_size_def js_max_def js_min_def split: jnum.splits option.splits if_splits)
    (auto simp: Suc_le_eq nat_le_iff floor_le_iff)

text \<open>A client that follows \<open>nextCursor\<close> until there is none, in at most \<open>fuel\<close> requests.\<close>

fun walk :: "nat \<Rightarrow> (int \<Rightarrow> string) \<Rightarrow> db \<Rightarrow> orders_query \<Rightarrow> order_item list result" where
  "walk 0 dec d q = Inl (PlainError ''too many pages'')"
| "walk (Suc fuel) dec d q =
    bind_res (findOrders dec d q) (\<lambda>(items, next).
      case next of
        None \<Rightarrow> Inr items
      | Some c \<Rightarrow> bind_res (walk fuel dec d (q\<lparr>q_cursorId := Some c\<rparr>)) (\<lambda>rest. Inr (items @ rest)))"

definition at_cursor :: "orders_query \<Rightarrow> order_row list \<Rightarrow> bool" where
  "at_cursor q seen \<longleftrightarrow>
    (if seen = [] then q_cursorId q = None else q_cursorId q = Some (o_hash (last seen)))"

lemma page_at_cursor:
  assumes u: "distinct (map o_hash (d_orders d))" "[] \<notin> o_hash ` set (d_orders d)"
    and L: "js_sort cmp_page (filter (orders_where d q) (d_orders d)) = seen @ rest" and at: "at_cursor q seen"
  shows "order_page d q n = take n rest"
proof (cases "seen = []")
  case True
  with L at show ?thesis by (simp add: order_page_def at_cursor_def)
next
  case False
  then obtain xs c where s: "seen = xs @ [c]" by (metis append_butlast_last_id)
  have mem: "set (seen @ rest) \<subseteq> set (d_orders d)" unfolding L [symmetric] by auto
  have di: "distinct (map o_hash (seen @ rest))"
    unfolding L [symmetric] using u(1) by (simp add: distinct_map_filter)
  have "c \<in> set (d_orders d)" using mem s by simp
  with u(2) have "o_hash c \<noteq> []" by (metis imageI)
  then have c: "q_cursorId q = Some (o_hash c)" "o_hash c \<noteq> []" "order_of d (o_hash c) = Some c"
    using at s u mem row_by_distinct [OF u(1), of c] by (auto simp: at_cursor_def order_of_def)
  have "drop 1 (filter (\<lambda>x. cmp_page c x \<le> 0) (seen @ rest)) = rest"
    using after_cursor [of xs c rest] page.sorted_js_sort [of "filter (orders_where d q) (d_orders d)"] di
    unfolding L s by simp
  with c L show ?thesis by (simp add: order_page_def Let_def)
qed

lemma where_cursor [simp]: "orders_where d (q\<lparr>q_cursorId := c\<rparr>) = orders_where d q"
  by (simp add: orders_where_def fun_eq_iff)

lemma walk_from:
  assumes u: "distinct (map o_hash (d_orders d))" "[] \<notin> o_hash ` set (d_orders d)"
  shows "take_arg (page_size (q_limit q)) = Inr n \<Longrightarrow> length rest < fuel \<Longrightarrow> at_cursor q seen \<Longrightarrow>
    js_sort cmp_page (filter (orders_where d q) (d_orders d)) = seen @ rest \<Longrightarrow>
    walk fuel dec d q = Inr (map (item_of dec d) rest)"
proof (induction fuel arbitrary: q seen rest)
  case (Suc fuel)
  have n: "1 \<le> n" using page_size_range [OF Suc.prems(1)] by simp
  note p = page_at_cursor [OF u Suc.prems(4,3), of n]
  show ?case
  proof (cases "length (take n rest) = n")
    case False
    then have "length rest \<noteq> n" by auto
    with False p Suc.prems(1) show ?thesis by (simp add: findOrders_def Let_def)
  next
    case True
    with n have ne: "take n rest \<noteq> []" by auto
    let ?q = "q\<lparr>q_cursorId := Some (o_hash (last (take n rest)))\<rparr>"
    have "walk fuel dec d ?q = Inr (map (item_of dec d) (drop n rest))"
    proof (rule Suc.IH)
      show "at_cursor ?q (seen @ take n rest)" using ne by (simp add: at_cursor_def del: take_eq_Nil)
      show "length (drop n rest) < fuel" using Suc.prems(2) n True by simp
    qed (use Suc.prems in simp_all)
    with p True ne Suc.prems(1) show ?thesis
      by (simp add: findOrders_def Let_def flip: map_append)
  qed
qed simp

text \<open>
  C16. Paging loses nothing and repeats nothing. Over an unchanged table whose hashes are unique
  and not empty, a client that asks for orders, with whatever filters and whatever integral limit,
  and follows \<open>nextCursor\<close> to the end needs at most one request more than there are matching
  orders; what it has then collected is every order that matches the filters exactly once, newest
  first. No page is longer than 200 orders, whatever limit is asked for.
\<close>

theorem order_pages_complete:
  assumes "distinct (map o_hash (d_orders d))" and "[] \<notin> o_hash ` set (d_orders d)"
    and "take_arg (page_size (q_limit q)) = Inr n" and "q_cursorId q = None"
  shows "n \<le> 200 \<and> (\<exists>rows. walk (Suc (length rows)) dec d q = Inr (map (item_of dec d) rows) \<and>
    mset rows = mset (filter (orders_where d q) (d_orders d)) \<and>
    sorted_wrt (\<lambda>a b. o_placedAt b \<le> o_placedAt a) rows)"
proof -
  let ?L = "js_sort cmp_page (filter (orders_where d q) (d_orders d))"
  have "walk (Suc (length ?L)) dec d q = Inr (map (item_of dec d) ?L)"
    using assms(3,4) by (intro walk_from [OF assms(1,2), where seen = "[]"]) (simp_all add: at_cursor_def)
  moreover have "sorted_wrt (\<lambda>a b. o_placedAt b \<le> o_placedAt a) ?L"
    by (rule sorted_wrt_mono_rel [OF _ page.sorted_js_sort]) (auto simp: cmp_page_def split: if_splits)
  ultimately show ?thesis using page_size_range [OF assms(3)] by (intro conjI exI [of _ ?L]) simp_all
qed

definition sample_query :: orders_query where
  "sample_query = \<lparr>q_maker = Some ''0xAA'', q_status = Some [O_PLACED], q_symbol = Some ''B-Q'',
     q_limit = Some (num 3), q_cursorId = None\<rparr>"

theorem order_pages_complete_witness:
  "\<exists>items. walk 5 big_to_string sample_public sample_query = Inr items \<and> length items = 4"
proof -
  have n: "take_arg (page_size (q_limit sample_query)) = Inr 3" by code_simp
  have u: "distinct (map o_hash (d_orders sample_public))" "[] \<notin> o_hash ` set (d_orders sample_public)"
    by (simp_all add: sample_public_def sample_open_def)
  have c: "q_cursorId sample_query = None" by (simp add: sample_query_def)
  have four: "length (filter (orders_where sample_public sample_query) (d_orders sample_public)) = 4" by code_simp
  from order_pages_complete [OF u n c, of big_to_string] obtain rows where
    r: "walk (Suc (length rows)) big_to_string sample_public sample_query = Inr (map (item_of big_to_string sample_public) rows)"
    "mset rows = mset (filter (orders_where sample_public sample_query) (d_orders sample_public))" by blast
  then have "length rows = 4" using four by (metis size_mset)
  then have "Suc (length rows) = 5" "length (map (item_of big_to_string sample_public) rows) = 4" by simp_all
  from r(1) [unfolded this(1)] this(2) show ?thesis by (intro exI conjI)
qed

end
