(* ===== verification/WebProps.thy ===== *)
theory WebProps
  imports WebForm PublicProps CancelWatcher
begin

text \<open>
  What the order form of the web application and the API make of the same numbers.
\<close>

section \<open>Floored quote amounts\<close>

lemma tdiv_nonneg: "0 \<le> n \<Longrightarrow> 0 < k \<Longrightarrow> tdiv n k = n div k"
  by (simp add: tdiv_def sgn_if)

text \<open>A price in ticks that reproduces a floored quote amount is at most the price it was floored from.\<close>

lemma floored_price:
  fixes b ps D t k :: int
  assumes b: "0 < b" and t: "0 < t" and k: "0 < k" and D: "0 < D"
    and eq: "t * (b * k) = tdiv (b * ps) D * D"
  shows "t * k \<le> ps" and "t * k = ps \<longleftrightarrow> D dvd b * ps"
proof -
  have "0 < t * (b * k)" using b t k by simp
  with eq D have q: "0 < tdiv (b * ps) D" by (metis zero_less_mult_pos2)
  have nn: "0 \<le> b * ps"
  proof (rule ccontr)
    assume "\<not> 0 \<le> b * ps"
    then have "sgn (b * ps) * sgn D * (\<bar>b * ps\<bar> div \<bar>D\<bar>) \<le> 0" using D
      by (simp add: sgn_if pos_imp_zdiv_nonneg_iff split: if_splits)
    with q show False by (simp add: tdiv_def)
  qed
  with eq D have e: "b * (t * k) = b * ps div D * D" by (simp add: tdiv_nonneg ac_simps)
  have "b * ps div D * D \<le> b * ps" using D by (simp add: div_times_less_eq_dividend minus_mod_eq_div_mult [symmetric])
  with e b show "t * k \<le> ps" by (metis mult_le_cancel_left_pos)
  have "t * k = ps \<longleftrightarrow> b * (t * k) = b * ps" using b by simp
  also have "\<dots> \<longleftrightarrow> D dvd b * ps" unfolding e by (simp add: dvd_eq_mod_eq_0 minus_mod_eq_div_mult [symmetric])
  finally show "t * k = ps \<longleftrightarrow> D dvd b * ps" .
qed


section \<open>From the form to the book\<close>

text \<open>
  The market the form shows is the market of the database whose context is \<open>ctx\<close>: the pair of
  tokens leads to it in either order, with the decimals and the tick the form works with.
\<close>

definition lists_market :: "web_market \<Rightarrow> db \<Rightarrow> trading_ctx \<Rightarrow> bool" where
  "lists_market m d ctx \<longleftrightarrow>
    (let base = to_lower (trim (wm_baseAddress m)); quote = to_lower (trim (wm_quoteAddress m))
     in base \<noteq> quote \<and> ctx_baseAddress ctx = base \<and> ctx_quoteAddress ctx = quote \<and>
        (\<forall>pair \<in> {(base, quote), (quote, base)}. \<exists>mkt.
           find_market (fst pair) (snd pair) (listMarketsBasic d) = Some mkt \<and>
           getTradingContext d (mb_id mkt) = Inr ctx) \<and>
        ctx_baseDecimals ctx = wm_baseDecimals m \<and> 0 < ctx_priceTickQ ctx \<and>
        str_to_bigint (wm_priceTickQ m) = Inr (ctx_priceTickQ ctx))"

lemma submitted_built:
  assumes "placeLimit u pe other w nowMs rand m p tob = Inr (Submit body)"
  shows "\<exists>a. build_order u pe other nowMs rand m p a = Inr (ob_order body) \<and> ob_postOnly body = pp_postOnly p"
  using assms by (auto simp: placeLimit_def split: if_splits option.splits)

lemma built_fields:
  assumes "build_order u pe other nowMs rand m p a = Inr ord"
  shows "\<exists>mk tk ma ta rest. computeAmounts u m p = Inr (mk, tk, ma, ta) \<and>
    ord = JObj ((''makerToken'', JStr mk) # (''takerToken'', JStr tk) #
      (''makerAmount'', JStr (big_to_string ma)) # (''takerAmount'', JStr (big_to_string ta)) # rest)"
proof -
  obtain r where r: "computeAmounts u m p = Inr r" using assms by (auto simp: build_order_def)
  obtain mk tk ma ta where q: "r = (mk, tk, ma, ta)" by (cases r) auto
  show ?thesis using assms unfolding build_order_def r q bind_res.simps prod.case bind_res_Inr_iff
    by (elim exE conjE) (simp only: sum.inject, blast)
qed

text \<open>The order of a submission, read back field by field.\<close>

lemma submitted_order:
  assumes "placeLimit u pe other w nowMs rand m p tob = Inr (Submit body)"
  obtains b ps where "un_parse u (pp_sizeBaseHuman p) (wm_baseDecimals m) = Inr b"
    "un_parse u (pp_priceHuman p) (wm_quoteDecimals m) = Inr ps"
    "jget (ob_order body) ''makerToken'' = JStr (case pp_side p of SELL \<Rightarrow> wm_baseAddress m | BUY \<Rightarrow> wm_quoteAddress m)"
    "jget (ob_order body) ''takerToken'' = JStr (case pp_side p of SELL \<Rightarrow> wm_quoteAddress m | BUY \<Rightarrow> wm_baseAddress m)"
    "jget (ob_order body) ''makerAmount'' = JStr (big_to_string
       (case pp_side p of SELL \<Rightarrow> b | BUY \<Rightarrow> tdiv (b * ps) (10 ^ wm_baseDecimals m)))"
    "jget (ob_order body) ''takerAmount'' = JStr (big_to_string
       (case pp_side p of SELL \<Rightarrow> tdiv (b * ps) (10 ^ wm_baseDecimals m) | BUY \<Rightarrow> b))"
    "ob_postOnly body = pp_postOnly p"
proof -
  obtain a where bo: "build_order u pe other nowMs rand m p a = Inr (ob_order body)" "ob_postOnly body = pp_postOnly p"
    using submitted_built [OF assms] by blast
  obtain mk tk ma ta rest where am: "computeAmounts u m p = Inr (mk, tk, ma, ta)"
    and ob: "ob_order body = JObj ((''makerToken'', JStr mk) # (''takerToken'', JStr tk) #
      (''makerAmount'', JStr (big_to_string ma)) # (''takerAmount'', JStr (big_to_string ta)) # rest)"
    using built_fields [OF bo(1)] by blast
  from am obtain b ps where n: "un_parse u (pp_sizeBaseHuman p) (wm_baseDecimals m) = Inr b"
    "un_parse u (pp_priceHuman p) (wm_quoteDecimals m) = Inr ps"
    "(mk, tk, ma, ta) = (case pp_side p of
       SELL \<Rightarrow> (wm_baseAddress m, wm_quoteAddress m, b, tdiv (b * ps) (10 ^ wm_baseDecimals m))
     | BUY \<Rightarrow> (wm_quoteAddress m, wm_baseAddress m, tdiv (b * ps) (10 ^ wm_baseDecimals m), b))"
    by (auto simp: computeAmounts_def Let_def)
  have g: "jget (ob_order body) ''makerToken'' = JStr mk" "jget (ob_order body) ''takerToken'' = JStr tk"
    "jget (ob_order body) ''makerAmount'' = JStr (big_to_string ma)"
    "jget (ob_order body) ''takerAmount'' = JStr (big_to_string ta)"
    by (simp_all add: ob)
  show ?thesis
    by (rule that [OF n(1,2) _ _ _ _ bo(2)]) (use n(3) g in \<open>cases "pp_side p"; simp\<close>)+
qed

lemma place_decide_terms:
  assumes dec: "place_decide pe x rq e = Inr (mkt, sd, sz, px)"
    and tokens: "jget (pq_order rq) ''makerToken'' = JStr mt" "jget (pq_order rq) ''takerToken'' = JStr tt"
    and amounts: "jget (pq_order rq) ''makerAmount'' = JStr (big_to_string ma)"
      "jget (pq_order rq) ''takerAmount'' = JStr (big_to_string ta)"
    and ctx: "find_market (to_lower (trim mt)) (to_lower (trim tt)) (listMarketsBasic (eng_db e)) = Some k"
      "getTradingContext (eng_db e) (mb_id k) = Inr ctx"
  shows "derive_terms ctx (to_lower (trim mt)) (to_lower (trim tt)) ma ta = Inr (sd, sz, px)"
  using dec by (auto simp: place_decide_def Let_def tokens amounts ctx toLower_def split: if_splits)

lemma form_terms:
  assumes l: "lists_market m (eng_db e) ctx" and dec: "place_decide pe x rq e = Inr (mkt, sd', sz, px)"
    and o': "jget (pq_order rq) ''makerToken'' = JStr (case sd of SELL \<Rightarrow> wm_baseAddress m | BUY \<Rightarrow> wm_quoteAddress m)"
      "jget (pq_order rq) ''takerToken'' = JStr (case sd of SELL \<Rightarrow> wm_quoteAddress m | BUY \<Rightarrow> wm_baseAddress m)"
      "jget (pq_order rq) ''makerAmount'' = JStr (big_to_string (case sd of SELL \<Rightarrow> b | BUY \<Rightarrow> q))"
      "jget (pq_order rq) ''takerAmount'' = JStr (big_to_string (case sd of SELL \<Rightarrow> q | BUY \<Rightarrow> b))"
  shows "sd' = sd \<and> sz = b \<and> px * (b * ctx_priceTickQ ctx) = q * 10 ^ wm_baseDecimals m"
proof -
  let ?base = "to_lower (trim (wm_baseAddress m))" and ?quote = "to_lower (trim (wm_quoteAddress m))"
  obtain k k' where k: "find_market ?base ?quote (listMarketsBasic (eng_db e)) = Some k"
      "getTradingContext (eng_db e) (mb_id k) = Inr ctx"
      "find_market ?quote ?base (listMarketsBasic (eng_db e)) = Some k'"
      "getTradingContext (eng_db e) (mb_id k') = Inr ctx"
    and c: "ctx_baseAddress ctx = ?base" "ctx_quoteAddress ctx = ?quote" "?base \<noteq> ?quote"
      "ctx_baseDecimals ctx = wm_baseDecimals m"
    using l by (auto simp: lists_market_def Let_def)
  show ?thesis
  proof (cases sd)
    case SELL
    from place_decide_terms [OF dec _ _ _ _ k(1,2)] o'
    have "derive_terms ctx ?base ?quote b q = Inr (sd', sz, px)" by (simp add: SELL)
    then show ?thesis using exact_ticks_sound c by (auto simp: SELL derive_terms_def pow10_def)
  next
    case BUY
    from place_decide_terms [OF dec _ _ _ _ k(3,4)] o'
    have "derive_terms ctx ?quote ?base q b = Inr (sd', sz, px)" by (simp add: BUY)
    then show ?thesis using exact_ticks_sound c by (auto simp: BUY derive_terms_def pow10_def)
  qed
qed

text \<open>
  C11. A limit order sent from the form rests as the form meant it. Where the form shows the
  market of the database, an order the form signs and the API accepts rests in the book on the side
  that was chosen, with the size that was typed, at a price that is never above the one typed; it is
  exactly the one typed when, and only when, the quote amount of the order is an integer, that is,
  when nothing was lost in flooring it.
\<close>

theorem form_order_rests_as_shown:
  assumes wf: "engine_wf e" and shown: "lists_market m (eng_db e) ctx"
    and form: "placeLimit u pe other w nowMs rand m p tob = Inr (Submit body)"
    and run: "post_orders x now body e = (Inr h, e')"
  shows "\<exists>b ps k bk l. un_parse u (pp_sizeBaseHuman p) (wm_baseDecimals m) = Inr b \<and>
    un_parse u (pp_priceHuman p) (wm_quoteDecimals m) = Inr ps \<and>
    book_at e' k = Some bk \<and> find_level (\<lambda>l. lv_id l = h) bk = Some l \<and>
    lv_side l = pp_side p \<and> lv_sizeBase l = b \<and> lv_priceTicks l * ctx_priceTickQ ctx \<le> ps \<and>
    (lv_priceTicks l * ctx_priceTickQ ctx = ps \<longleftrightarrow> 10 ^ wm_baseDecimals m dvd b * ps)"
proof -
  obtain rq where rq: "accepted_order x body = Inr rq"
    and placed: "place_order (api_env x) (sx_chain (api_sx x)) now rq e = (Inr h, e')"
    using run by (auto simp: post_orders_def split: sum.splits)
  obtain b ps where f: "un_parse u (pp_sizeBaseHuman p) (wm_baseDecimals m) = Inr b"
      "un_parse u (pp_priceHuman p) (wm_quoteDecimals m) = Inr ps"
    and o': "jget (ob_order body) ''makerToken'' = JStr (case pp_side p of SELL \<Rightarrow> wm_baseAddress m | BUY \<Rightarrow> wm_quoteAddress m)"
      "jget (ob_order body) ''takerToken'' = JStr (case pp_side p of SELL \<Rightarrow> wm_quoteAddress m | BUY \<Rightarrow> wm_baseAddress m)"
      "jget (ob_order body) ''makerAmount'' = JStr (big_to_string
         (case pp_side p of SELL \<Rightarrow> b | BUY \<Rightarrow> tdiv (b * ps) (10 ^ wm_baseDecimals m)))"
      "jget (ob_order body) ''takerAmount'' = JStr (big_to_string
         (case pp_side p of SELL \<Rightarrow> tdiv (b * ps) (10 ^ wm_baseDecimals m) | BUY \<Rightarrow> b))"
    by (rule submitted_order [OF form])
  have get: "jget (pq_order rq) k = jget (ob_order body) k" if "k \<noteq> ''expiry''" for k
    using accepted_order_sound(2) [OF rq] with_number_expiry_get [OF that] by simp
  obtain mkt sd sz px bk l where dec: "place_decide (api_env x) (sx_chain (api_sx x)) rq e = Inr (mkt, sd, sz, px)"
    and lv: "0 < sz" "0 < px" "book_at e' (mb_symbol mkt) = Some bk" "find_level (\<lambda>l. lv_id l = h) bk = Some l"
      "lv_side l = sd" "lv_sizeBase l = sz" "lv_priceTicks l = px"
    by (rule place_order_rests [OF wf placed])
  from form_terms [OF shown dec] o' have t: "sd = pp_side p" "sz = b"
    "px * (b * ctx_priceTickQ ctx) = tdiv (b * ps) (10 ^ wm_baseDecimals m) * 10 ^ wm_baseDecimals m"
    by (simp_all add: get)
  have "0 < ctx_priceTickQ ctx" using shown by (simp add: lists_market_def Let_def)
  from floored_price [OF _ lv(2) this _ t(3)] lv t f show ?thesis by auto
qed


lemma exact_ticks_refuses:
  assumes "0 < den" and "0 \<le> n" and "\<not> den dvd n"
  shows "exact_ticks n den = Inl (BadRequest ''price_tick_violation'')"
proof -
  have "n mod den \<noteq> 0" "n \<noteq> 0" using assms(3) by (auto simp: dvd_eq_mod_eq_0)
  then have "big_rem n den = Inr (n mod den)" "n mod den \<noteq> 0" "big_div n den = Inr (tdiv n den)"
    using assms(1,2) by (simp_all add: big_rem_def big_div_def sgn_if)
  then show ?thesis by (simp add: exact_ticks_def)
qed

lemma validated_form:
  assumes "validateLimitInput u m sz price = Inr v" and "li_ok v"
    and "str_to_bigint (wm_priceTickQ m) = Inr k" and "0 < k" and "0 \<le> ld_priceScaled (li_derived v)"
  shows "ld_quoteWei (li_derived v) =
      tdiv (ld_baseWei (li_derived v) * ld_priceScaled (li_derived v)) (10 ^ wm_baseDecimals m)"
    "k dvd ld_priceScaled (li_derived v)"
proof -
  obtain b ps r es where v: "ld_quoteWei (li_derived v) = computeQuoteWei b ps (wm_baseDecimals m)"
    "ld_baseWei (li_derived v) = b" "ld_priceScaled (li_derived v) = ps" "big_rem ps k = Inr r"
    "li_ok v \<longrightarrow> r = 0"
    using assms(1,3) by (auto simp: validateLimitInput_def Let_def)
  show "ld_quoteWei (li_derived v) =
      tdiv (ld_baseWei (li_derived v) * ld_priceScaled (li_derived v)) (10 ^ wm_baseDecimals m)"
    by (simp add: v computeQuoteWei_def)
  have "ps mod k = 0"
    using v assms(2,4,5) by (cases "ps = 0") (auto simp: big_rem_def sgn_if split: if_splits)
  then show "k dvd ld_priceScaled (li_derived v)" by (simp add: v dvd_eq_mod_eq_0)
qed

text \<open>
  A form that validates is not yet an order the API takes: where the exact quote amount is not an
  integer and the base amount is worth at least one unit of base per tick, the floored order has
  no price in ticks at all.
\<close>

theorem valid_form_refused:
  assumes "validateLimitInput u m sz price = Inr v" and "li_ok v"
    and "b = ld_baseWei (li_derived v)" and "ps = ld_priceScaled (li_derived v)" and "0 < b" and "0 \<le> ps"
    and "\<not> 10 ^ wm_baseDecimals m dvd b * ps" and "0 < k" and "10 ^ wm_baseDecimals m \<le> b * k"
    and "str_to_bigint (wm_priceTickQ m) = Inr k"
  shows "exact_ticks (ld_quoteWei (li_derived v) * 10 ^ wm_baseDecimals m) (b * k) =
    Inl (BadRequest ''price_tick_violation'')"
proof -
  define D :: int where "D = 10 ^ wm_baseDecimals m"
  have nn: "0 \<le> b * ps" "0 < D" "0 < b * k" using assms(5,6,8) by (simp_all add: D_def)
  note f = validated_form [OF assms(1,2,10,8), folded assms(3,4), OF assms(6), folded D_def]
  have q: "ld_quoteWei (li_derived v) = b * ps div D" using f(1) nn by (simp add: tdiv_nonneg)
  have "\<not> b * k dvd b * ps div D * D"
  proof
    assume "b * k dvd b * ps div D * D"
    moreover have "b * k dvd b * ps" using f(2) by (rule mult_dvd_mono [OF dvd_refl])
    ultimately have "b * k dvd b * ps mod D" by (metis minus_div_mult_eq_mod dvd_diff)
    moreover have "0 < b * ps mod D"
      using assms(7) nn(2) by (metis D_def dvd_eq_mod_eq_0 order_le_less pos_mod_sign)
    moreover have "b * ps mod D < b * k" using assms(9) nn(2) by (metis D_def order_less_le_trans pos_mod_bound)
    ultimately show False using zdvd_not_zless by blast
  qed
  moreover have "0 \<le> b * ps div D * D" using nn by (simp add: pos_imp_zdiv_nonneg_iff)
  ultimately show ?thesis unfolding q D_def [symmetric] using nn(3) by (intro exact_ticks_refuses)
qed


section \<open>Cancelling a pair by time\<close>

text \<open>The second from which on the orders of the form survive a cancel of the given scope.\<close>

definition cut_second :: "cancel_scope \<Rightarrow> int \<Rightarrow> int" where
  "cut_second scope nowMs =
    (case scope of ScopeOlder5m \<Rightarrow> max 0 (nowMs div 1000 - 300) | _ \<Rightarrow> nowMs div 1000)"

lemma second_block:
  fixes r N s c :: int
  assumes "0 \<le> r" "r < N"
  shows "s * N + r < c * N \<longleftrightarrow> s < c"
proof
  assume "s < c"
  then have "(s + 1) * N \<le> c * N" using assms by (intro mult_right_mono) simp_all
  then show "s * N + r < c * N" using assms(2) by (simp add: algebra_simps)
next
  assume a: "s * N + r < c * N"
  show "s < c"
  proof (rule ccontr)
    assume "\<not> s < c"
    then have "c * N \<le> s * N" using assms by (intro mult_right_mono) simp_all
    with a assms(1) show False by simp
  qed
qed

text \<open>
  A pair cancel cuts the orders of the form by the second. For an order built by the form at
  \<open>builtMs\<close> with any 96-bit random part, its stored salt is below the salt that the cancel controls
  send, and the watcher that sees the cancel removes it from the book, exactly when it was built in a
  second before the cut: the current second, or five minutes before it. Orders of the same second
  survive, with the scope \<open>all\<close> as well. Every salt is at least
  \<open>2 ^ 128\<close>, and those of the next seventeen thousand years have at most 136 bits.
\<close>

theorem pair_cancel_cuts_by_second:
  assumes rand: "0 \<le> rand" "rand < 2 ^ 96" and t: "0 \<le> builtMs" "0 < cut_second scope nowMs"
    and raw: "fst (findRawOrderByHash d h) = Some raw" "jget raw ''salt'' = JStr (big_to_string (order_salt builtMs rand))"
  shows "(salt_below d (pair_min_valid scope nowMs) h \<longleftrightarrow> builtMs div 1000 < cut_second scope nowMs) \<and>
    2 ^ 128 \<le> order_salt builtMs rand \<and> (builtMs < 2 ^ 49 \<longrightarrow> order_salt builtMs rand < 2 ^ 136)"
proof -
  let ?s = "builtMs div 1000" and ?c = "cut_second scope nowMs"
  have s: "0 \<le> ?s" using t(1) by simp
  have v: "pair_min_valid scope nowMs = 2 ^ 128 + ?c * 2 ^ 96"
    using t(2) by (cases scope) (simp_all add: pair_min_valid_def cut_second_def SALT_OFFSET_def
        MINVALID_AFTER_LEGACY_def Let_def)
  have "order_salt builtMs rand < pair_min_valid scope nowMs \<longleftrightarrow> ?s < ?c"
    using second_block [OF rand, of ?s ?c] by (simp add: order_salt_def v)
  moreover have "builtMs < 2 ^ 49 \<longrightarrow> order_salt builtMs rand < 2 ^ 136"
    using second_block [OF rand, of ?s "2 ^ 40 - 2 ^ 32"] by (auto simp: order_salt_def)
  ultimately show ?thesis using raw rand s by (simp add: salt_below_def order_salt_def)
qed


section \<open>A sample form\<close>

definition form_units :: units where
  "form_units = \<lparr>un_parse = (\<lambda>s n. str_to_bigint s), un_format = (\<lambda>n k. big_to_string n)\<rparr>"

definition form_market :: web_market where
  "form_market =
    \<lparr>wm_symbol = ''B-Q'', wm_baseAddress = hex_addr CHR ''b'', wm_baseSymbol = ''B'', wm_baseDecimals = 2,
     wm_quoteAddress = hex_addr CHR ''c'', wm_quoteSymbol = ''Q'', wm_quoteDecimals = 2,
     wm_minNotionalQ = ''1'', wm_minSizeB = ''1'', wm_priceTickQ = ''10''\<rparr>"

definition form_wallet :: wallet where
  "form_wallet =
    \<lparr>wl_address = Some sample_owner, wl_domain = Inr (84532, ''0x0''),
     wl_sign712 = (\<lambda>dm ord. Inr (''0x'' @ replicate 128 CHR ''1'' @ ''1b'')), wl_digest = (\<lambda>dm ord. Inr ''0x7''),
     wl_recover = (\<lambda>h sg. Inr sample_owner), wl_personalSign = (\<lambda>h. Inr [])\<rparr>"

definition form_input :: place_params where
  "form_input = \<lparr>pp_side = SELL, pp_sizeBaseHuman = ''200'', pp_priceHuman = ''50'', pp_expirySec = None,
     pp_postOnly = True\<rparr>"

definition form_ctx :: trading_ctx where
  "form_ctx = (case getTradingContext (eng_db (sea_engine sea_sample)) ''m1'' of Inr c \<Rightarrow> c | Inl e \<Rightarrow> undefined)"

lemma form_lists: "lists_market form_market (eng_db (sea_engine sea_sample)) form_ctx"
proof -
  have b: "to_lower (trim (hex_addr CHR ''b'')) = hex_addr CHR ''b''" "to_lower (trim (hex_addr CHR ''c'')) = hex_addr CHR ''c''"
    by code_simp+
  have l: "to_lower (hex_addr CHR ''b'') = hex_addr CHR ''b''" "to_lower (hex_addr CHR ''c'') = hex_addr CHR ''c''"
    by code_simp+
  have n: "hex_addr CHR ''b'' \<noteq> hex_addr CHR ''c''" by code_simp
  have t: "str_to_bigint ''10'' = Inr 10" by code_simp
  show ?thesis
    by (simp add: lists_market_def form_market_def form_ctx_def sea_sample_def sea_market_def getTradingContext_def
        find_market_def listMarketsBasic_def b l n t)
qed

theorem form_order_rests_as_shown_witness:
  "\<exists>body h e' k bk l. placeLimit form_units no_env (\<lambda>n. []) form_wallet 5000 7 form_market form_input (Inl TypeError)
      = Inr (Submit body) \<and>
    post_orders sample_api 9 body (sea_engine sea_sample) = (Inr h, e') \<and>
    book_at e' k = Some bk \<and> find_level (\<lambda>l. lv_id l = h) bk = Some l \<and>
    lv_sizeBase l = 200 \<and> lv_priceTicks l * 10 = 50"
proof -
  let ?form = "placeLimit form_units no_env (\<lambda>n. []) form_wallet 5000 7 form_market form_input (Inl TypeError)"
  have ok: "(case ?form of Inr (Submit body) \<Rightarrow> isl (fst (post_orders sample_api 9 body (sea_engine sea_sample))) | _ \<Rightarrow> True)
      = False" by code_simp
  then obtain body where form: "?form = Inr (Submit body)" by (auto split: sum.splits placing.splits)
  with ok obtain h e' where run: "post_orders sample_api 9 body (sea_engine sea_sample) = (Inr h, e')"
    by (cases "post_orders sample_api 9 body (sea_engine sea_sample)"; cases "fst (post_orders sample_api 9 body (sea_engine sea_sample))")
      auto
  have wf: "engine_wf (sea_engine sea_sample)"
    by (simp add: engine_wf_def engine_ok_def sea_sample_def markets_ok_def sea_market_def)
  have dec: "wm_baseDecimals form_market = 2" "wm_quoteDecimals form_market = 2" "ctx_priceTickQ form_ctx = 10"
    by code_simp+
  have n: "un_parse form_units (pp_sizeBaseHuman form_input) 2 = Inr 200"
    "un_parse form_units (pp_priceHuman form_input) 2 = Inr 50" by code_simp+
  from form_order_rests_as_shown [OF wf form_lists form run] obtain k bk l where
    "book_at e' k = Some bk" "find_level (\<lambda>l. lv_id l = h) bk = Some l" "lv_sizeBase l = 200" "lv_priceTicks l * 10 = 50"
    unfolding dec n by auto
  with form run show ?thesis by blast
qed

definition salted_row :: order_row where
  "salted_row = (sample_open ''h1'' SELL 5 10 1)
    \<lparr>o_zeroEx := JObj [(''salt'', JStr (big_to_string (order_salt 400000 7)))]\<rparr>"

theorem pair_cancel_cuts_by_second_witness:
  "salt_below (sample_public\<lparr>d_orders := [salted_row]\<rparr>) (pair_min_valid ScopeOlder5m 701000) ''h1'' \<and>
   \<not> salt_below (sample_public\<lparr>d_orders := [salted_row]\<rparr>) (pair_min_valid ScopeOlder5m 700000) ''h1''"
proof -
  let ?d = "sample_public\<lparr>d_orders := [salted_row]\<rparr>"
  have raw: "fst (findRawOrderByHash ?d ''h1'') = Some (JObj [(''salt'', JStr (big_to_string (order_salt 400000 7)))])"
    by (simp add: findRawOrderByHash_def order_of_def salted_row_def sample_open_def Let_def)
  have s: "jget (JObj [(''salt'', JStr (big_to_string (order_salt 400000 7)))]) ''salt'' =
      JStr (big_to_string (order_salt 400000 7))" by simp
  have c: "cut_second ScopeOlder5m 701000 = 401" "cut_second ScopeOlder5m 700000 = 400" by (simp_all add: cut_second_def)
  from pair_cancel_cuts_by_second [OF _ _ _ _ raw s, of ScopeOlder5m 701000]
    pair_cancel_cuts_by_second [OF _ _ _ _ raw s, of ScopeOlder5m 700000] show ?thesis
    unfolding c by simp
qed

end
