(* ===== verification/MarketOrderProps.thy ===== *)
theory MarketOrderProps
  imports MarketOrder WebProps
begin

text \<open>
  What the taker side of the web application promises: execution follows the plan, a plan answers
  the inputs it is shown with, and a ready intent is confirmed only on a covering single-transaction
  plan under a live wallet lock.
\<close>

section \<open>Execution\<close>

fun sends :: "ui_call list \<Rightarrow> (web_tx \<times> string) list" where
  "sends [] = []"
| "sends (CSend t h # cs) = (t, h) # sends cs"
| "sends (_ # cs) = sends cs"

fun notified :: "ui_call list \<Rightarrow> string list" where
  "notified [] = []"
| "notified (CNotify h # cs) = h # notified cs"
| "notified (_ # cs) = notified cs"

fun applied_fills :: "ui_call list \<Rightarrow> (string \<times> (string \<times> string) list) list" where
  "applied_fills [] = []"
| "applied_fills (CApply m fs # cs) = (m, fs) # applied_fills cs"
| "applied_fills (_ # cs) = applied_fills cs"

lemma calls_append [simp]:
  "sends (cs @ ds) = sends cs @ sends ds" "notified (cs @ ds) = notified cs @ notified ds"
  "applied_fills (cs @ ds) = applied_fills cs @ applied_fills ds"
  by (induction cs rule: sends.induct; simp)+

text \<open>One run over a list of transactions, of which \<open>n\<close> are already mined.\<close>

definition run_ok ::
  "bool \<Rightarrow> (nat \<Rightarrow> web_tx \<Rightarrow> sent) \<Rightarrow> nat \<Rightarrow> web_tx list \<Rightarrow> ui_call list \<times> string option \<times> nat \<times> string option \<Rightarrow> bool" where
  "run_ok notify send n ts res =
    (case res of (cs, final, k, err) \<Rightarrow>
      n \<le> k \<and> k \<le> n + length ts \<and>
      (\<exists>j. k - n \<le> j \<and> map fst (sends cs) = take j ts) \<and>
      (\<forall>i < k - n. \<exists>h. send (n + i) (ts ! i) = SendMined h) \<and>
      (err = None \<longrightarrow> k = n + length ts \<and> length (sends cs) = length ts \<and>
         final = (if ts = [] then None else Some (snd (last (sends cs))))) \<and>
      notified cs = (if notify \<and> n = 0 then take 1 (map snd (sends cs)) else []) \<and>
      applied_fills cs = [])"

lemma run_ok_Cons:
  assumes "send n t = SendMined h" and "run_ok notify send (n + 1) ts (cs, final, k, err)"
  shows "run_ok notify send n (t # ts)
    (CSend t h # (if notify \<and> n = 0 then [CNotify h] else []) @ cs,
     (case final of None \<Rightarrow> Some h | Some g \<Rightarrow> Some g), k, err)"
proof -
  from assms(2) obtain j where j: "k - (n + 1) \<le> j" "map fst (sends cs) = take j ts"
    and r: "n + 1 \<le> k" "k \<le> n + 1 + length ts" "\<forall>i < k - (n + 1). \<exists>h. send (n + 1 + i) (ts ! i) = SendMined h"
      "err = None \<longrightarrow> k = n + 1 + length ts \<and> length (sends cs) = length ts \<and>
         final = (if ts = [] then None else Some (snd (last (sends cs))))"
      "notified cs = []" "applied_fills cs = []"
    by (auto simp: run_ok_def)
  have fin: "(case final of None \<Rightarrow> Some h | Some g \<Rightarrow> Some g) = Some (snd (last (sends (CSend t h # cs))))"
    if "err = None" using r(4) that by (cases ts) auto
  have mined: "\<exists>g. send (n + i) ((t # ts) ! i) = SendMined g" if "i < k - n" for i
    using that assms(1) r(3) by (cases i) auto
  have "map fst (sends (CSend t h # cs)) = take (Suc j) (t # ts)" using j(2) by simp
  moreover have "k - n \<le> Suc j" using j(1) by simp
  ultimately have "\<exists>j \<ge> k - n. map fst (sends (CSend t h # (if notify \<and> n = 0 then [CNotify h] else []) @ cs)) = take j (t # ts)"
    by (intro exI [of _ "Suc j"]) simp
  then show ?thesis
    using r fin mined unfolding run_ok_def prod.case by (intro conjI) simp_all
qed

lemma run_txs_ok: "run_ok notify send n ts (run_txs notify send n ts)"
proof (induction ts arbitrary: n)
  case Nil
  then show ?case unfolding run_ok_def by (auto intro: exI [of _ "0 :: nat"])
next
  case (Cons t ts)
  have stop: "run_ok notify send n (t # ts) ([], None, n, Some msg)" for msg
    unfolding run_ok_def prod.case by (intro conjI exI [of _ 0]) simp_all
  have failed: "run_ok notify send n (t # ts)
      (CSend t h # (if notify \<and> n = 0 then [CNotify h] else []), None, n, Some msg)" for h msg
    unfolding run_ok_def prod.case by (intro conjI exI [of _ 1]) auto
  obtain cs final k err where r: "run_txs notify send (n + 1) ts = (cs, final, k, err)"
    by (cases "run_txs notify send (n + 1) ts") auto
  show ?case
  proof (cases "str_to_bigint (snd (snd t))")
    case (Inl e)
    then show ?thesis using stop by simp
  next
    case (Inr v)
    show ?thesis
    proof (cases "send n t")
      case (SendMined h)
      from run_ok_Cons [OF this Cons.IH [of "n + 1", unfolded r]] SendMined Inr r show ?thesis
        by (simp add: Let_def)
    qed (use Inr stop failed in \<open>simp_all add: Let_def\<close>)
  qed
qed

definition planned :: "market_ui \<Rightarrow> web_tx list" where
  "planned s = (case mu_q s of Some q \<Rightarrow> quote_txs q | None \<Rightarrow> [])"

lemma execute_calls:
  assumes "onExecute notify send ok s = (cs, s')"
  shows "(\<exists>j. map fst (sends cs) = take j (planned s)) \<and>
    notified cs = (if notify then take 1 (map snd (sends cs)) else [])"
proof (cases "\<exists>q m. mu_q s = Some q \<and> quote_has_tx q \<and> in_market (mu_inputs s) = Some m")
  case False
  then have "cs = []" using assms by (auto simp: onExecute_def split: option.splits if_splits)
  then show ?thesis by (auto intro: exI [of _ 0])
next
  case True
  then obtain q m where q: "mu_q s = Some q" "quote_has_tx q" "in_market (mu_inputs s) = Some m" by blast
  obtain ds final k err where r: "run_txs notify send 0 (quote_txs q) = (ds, final, k, err)"
    by (cases "run_txs notify send 0 (quote_txs q)") auto
  have "sends cs = sends ds \<and> notified cs = notified ds"
    using assms q r by (cases err) (auto simp: onExecute_def Let_def apply_call_def)
  then show ?thesis
    using run_txs_ok [of notify send 0 "quote_txs q"] by (auto simp: r run_ok_def planned_def q)
qed

text \<open>The hash the wallet answered with, and whether the \<open>i\<close>-th transaction could be sent and was mined.\<close>

definition sent_hash :: "sent \<Rightarrow> string option" where
  "sent_hash r = (case r of SendRejected msg \<Rightarrow> None | SendFailed h msg \<Rightarrow> Some h | SendMined h \<Rightarrow> Some h)"

definition mined :: "(nat \<Rightarrow> web_tx \<Rightarrow> sent) \<Rightarrow> web_tx list \<Rightarrow> nat \<Rightarrow> bool" where
  "mined send ts i \<longleftrightarrow> \<not> isl (str_to_bigint (snd (snd (ts ! i)))) \<and> (\<exists>h. send i (ts ! i) = SendMined h)"

text \<open>What is broadcast: up to the first transaction that is not mined, which is sent if it can be.\<close>

definition broadcast_ok :: "(nat \<Rightarrow> web_tx \<Rightarrow> sent) \<Rightarrow> web_tx list \<Rightarrow> (web_tx \<times> string) list \<Rightarrow> bool" where
  "broadcast_ok send ts sent \<longleftrightarrow> length sent \<le> length ts \<and>
    (\<forall>i < length sent. fst (sent ! i) = ts ! i \<and> sent_hash (send i (ts ! i)) = Some (snd (sent ! i)) \<and>
       \<not> isl (str_to_bigint (snd (snd (ts ! i)))) \<and> (i + 1 < length sent \<longrightarrow> mined send ts i)) \<and>
    (length sent < length ts \<longrightarrow>
       (sent \<noteq> [] \<and> \<not> mined send ts (length sent - 1)) \<or>
       isl (str_to_bigint (snd (snd (ts ! length sent)))) \<or> sent_hash (send (length sent) (ts ! length sent)) = None)"

lemma broadcast_stop:
  "isl (str_to_bigint (snd (snd t))) \<or> sent_hash (send 0 t) = None \<Longrightarrow> broadcast_ok send (t # ts) []"
  by (simp add: broadcast_ok_def)

lemma broadcast_Cons:
  assumes "\<not> isl (str_to_bigint (snd (snd t)))" and "sent_hash (send 0 t) = Some h"
  shows "(\<exists>g. send 0 t = SendMined g) \<Longrightarrow> broadcast_ok (\<lambda>i. send (Suc i)) ts sent \<Longrightarrow> broadcast_ok send (t # ts) ((t, h) # sent)"
    and "\<not> (\<exists>g. send 0 t = SendMined g) \<Longrightarrow> broadcast_ok send (t # ts) [(t, h)]"
proof -
  show "broadcast_ok send (t # ts) [(t, h)]" if "\<not> (\<exists>g. send 0 t = SendMined g)"
    using assms that by (simp add: broadcast_ok_def mined_def)
  show "broadcast_ok send (t # ts) ((t, h) # sent)"
    if m: "\<exists>g. send 0 t = SendMined g" and b: "broadcast_ok (\<lambda>i. send (Suc i)) ts sent"
  proof -
    have sh: "mined send (t # ts) (Suc i) = mined (\<lambda>i. send (Suc i)) ts i" for i by (simp add: mined_def)
    have m0: "mined send (t # ts) 0" using assms(1) m by (simp add: mined_def)
    show ?thesis
      unfolding broadcast_ok_def
    proof (intro conjI allI impI)
      fix i assume i: "i < length ((t, h) # sent)"
      show "fst (((t, h) # sent) ! i) = (t # ts) ! i" "sent_hash (send i ((t # ts) ! i)) = Some (snd (((t, h) # sent) ! i))"
        "\<not> isl (str_to_bigint (snd (snd ((t # ts) ! i))))"
        "i + 1 < length ((t, h) # sent) \<Longrightarrow> mined send (t # ts) i"
        using i b assms m0 sh by (cases i; simp add: broadcast_ok_def)+
    next
      assume "length ((t, h) # sent) < length (t # ts)"
      then have "sent \<noteq> [] \<and> \<not> mined (\<lambda>i. send (Suc i)) ts (length sent - 1) \<or>
         isl (str_to_bigint (snd (snd (ts ! length sent)))) \<or> sent_hash (send (Suc (length sent)) (ts ! length sent)) = None"
        using b by (simp add: broadcast_ok_def)
      then show "(t, h) # sent \<noteq> [] \<and> \<not> mined send (t # ts) (length ((t, h) # sent) - 1) \<or>
         isl (str_to_bigint (snd (snd ((t # ts) ! length ((t, h) # sent))))) \<or>
         sent_hash (send (length ((t, h) # sent)) ((t # ts) ! length ((t, h) # sent))) = None"
        using sh [of "length sent - 1"] by (cases sent) auto
    qed (use b in \<open>simp add: broadcast_ok_def\<close>)
  qed
qed

lemma run_txs_broadcast:
  "broadcast_ok (\<lambda>i. send (n + i)) ts (sends (fst (run_txs notify send n ts))) \<and>
    (snd (snd (snd (run_txs notify send n ts))) = None \<longleftrightarrow> (\<forall>i < length ts. mined (\<lambda>i. send (n + i)) ts i))"
proof (induction ts arbitrary: n)
  case Nil
  then show ?case by (simp add: broadcast_ok_def)
next
  case (Cons t ts)
  obtain cs final k err where r: "run_txs notify send (n + 1) ts = (cs, final, k, err)"
    by (cases "run_txs notify send (n + 1) ts") auto
  have IH: "broadcast_ok (\<lambda>i. send (n + Suc i)) ts (sends cs)" "err = None \<longleftrightarrow> (\<forall>i < length ts. mined (\<lambda>i. send (n + Suc i)) ts i)"
    using Cons.IH [of "n + 1"] r by simp_all
  have all: "(\<forall>i < length (t # ts). mined (\<lambda>i. send (n + i)) (t # ts) i) \<longleftrightarrow>
      mined (\<lambda>i. send (n + i)) (t # ts) 0 \<and> (\<forall>i < length ts. mined (\<lambda>i. send (n + Suc i)) ts i)"
    by (simp add: All_less_Suc2 mined_def)
  show ?case
  proof (cases "str_to_bigint (snd (snd t))")
    case (Inl e)
    then show ?thesis using broadcast_stop [of t "\<lambda>i. send (n + i)" ts] unfolding all by (auto simp: mined_def)
  next
    case (Inr v)
    show ?thesis
    proof (cases "send n t")
      case (SendRejected msg)
      then show ?thesis
        using Inr broadcast_stop [of t "\<lambda>i. send (n + i)" ts] unfolding all by (auto simp: mined_def sent_hash_def)
    next
      case (SendFailed h msg)
      then show ?thesis
        using Inr broadcast_Cons(2) [of t "\<lambda>i. send (n + i)" h ts] unfolding all by (auto simp: mined_def sent_hash_def Let_def)
    next
      case (SendMined h)
      then show ?thesis
        using Inr r IH broadcast_Cons(1) [of t "\<lambda>i. send (n + i)" h ts "sends cs"]
        unfolding all by (auto simp: mined_def sent_hash_def Let_def)
    qed
  qed
qed

text \<open>
  C17. Execution follows the plan. Whatever the wallet does, the transactions it is given are those of
  the plan, in its order and each once, up to and including the first that is not mined, with the
  hashes the wallet answers; the marker is told the first of these hashes and no other; when every
  transaction was mined, the fills of the plan are reported to the API, once and all of them, and
  otherwise nothing is; and as soon as one is mined the plan is gone, so that pressing the button
  again sends nothing. A run that mines nothing keeps the plan.
\<close>

theorem execution_follows_plan:
  assumes run: "onExecute notify send ok s = (cs, s')" and mkt: "in_market (mu_inputs s) = Some m"
  shows "broadcast_ok send (planned s) (sends cs) \<and>
    notified cs = (if notify then take 1 (map snd (sends cs)) else []) \<and>
    applied_fills cs = (case mu_q s of
        None \<Rightarrow> []
      | Some q \<Rightarrow>
          if planned s \<noteq> [] \<and> (\<forall>i < length (planned s). mined send (planned s) i) \<and> wq_fills q \<noteq> []
          then [(wm_symbol m, map (\<lambda>f. (wf_makerOrderHash f, wf_sizeBase f)) (wq_fills q))] else []) \<and>
    (if planned s \<noteq> [] \<and> mined send (planned s) 0
     then mu_q s' = None \<and> onExecute notify send ok s' = ([], s') else mu_q s' = mu_q s)"
proof (cases "\<exists>q. mu_q s = Some q \<and> quote_has_tx q")
  case False
  then have "cs = [] \<and> mu_q s' = mu_q s \<and> planned s = []"
    using run by (auto simp: onExecute_def planned_def quote_txs_def quote_has_tx_def split: option.splits if_splits)
  then show ?thesis by (simp add: broadcast_ok_def split: option.split)
next
  case True
  then obtain q where q: "mu_q s = Some q" "quote_has_tx q" by blast
  have pl: "planned s = quote_txs q" "quote_txs q \<noteq> []"
    using q by (auto simp: planned_def quote_txs_def quote_has_tx_def split: option.split)
  obtain ds final k err where r: "run_txs notify send 0 (quote_txs q) = (ds, final, k, err)"
    by (cases "run_txs notify send 0 (quote_txs q)") auto
  note k = run_txs_ok [of notify send 0 "quote_txs q", unfolded r run_ok_def prod.case]
  have b: "broadcast_ok send (quote_txs q) (sends ds)"
    "err = None \<longleftrightarrow> (\<forall>i < length (quote_txs q). mined send (quote_txs q) i)"
    using run_txs_broadcast [of send 0 "quote_txs q" notify] r by simp_all
  have zero: "0 < k \<longleftrightarrow> mined send (quote_txs q) 0"
  proof
    assume "0 < k"
    then obtain t ts where t: "quote_txs q = t # ts" using pl(2) by (cases "quote_txs q") auto
    from r [unfolded t] \<open>0 < k\<close> show "mined send (quote_txs q) 0"
      by (auto simp: t mined_def Let_def split: sum.splits sent.splits prod.splits)
  next
    assume m0: "mined send (quote_txs q) 0"
    obtain t ts where t: "quote_txs q = t # ts" using pl(2) by (cases "quote_txs q") auto
    from m0 obtain h where h: "send 0 t = SendMined h" "\<not> isl (str_to_bigint (snd (snd t)))" by (auto simp: t mined_def)
    have "1 \<le> fst (snd (snd (run_txs notify send 1 ts)))"
      using run_txs_ok [of notify send 1 ts] by (auto simp: run_ok_def split: prod.splits)
    with r t h show "0 < k" by (auto simp: Let_def split: sum.splits prod.splits)
  qed
  have gone: "onExecute notify send ok s'' = ([], s'')" if "mu_q s'' = None" for s''
    using that by (simp add: onExecute_def)
  show ?thesis
  proof (cases err)
    case None
    have s': "mu_q s' = None" and cs: "sends cs = sends ds" "notified cs = notified ds"
      "applied_fills cs = applied_fills (apply_call m q)"
      using run q r None k mkt by (auto simp: onExecute_def Let_def clear_plan_def apply_call_def)
    have "\<forall>i < length (quote_txs q). mined send (quote_txs q) i" using b(2) None by simp
    moreover from this have "mined send (quote_txs q) 0" using pl(2) by simp
    ultimately show ?thesis
      using s' cs k b(1) gone [OF s'] q(1) pl(2) unfolding pl(1) by (simp add: apply_call_def)
  next
    case (Some msg)
    have s': "mu_q s' = (if 0 < k then None else mu_q s)" and cs: "sends cs = sends ds" "notified cs = notified ds"
      "applied_fills cs = []"
      using run q r Some k mkt by (auto simp: onExecute_def Let_def clear_plan_def)
    have "\<not> (\<forall>i < length (quote_txs q). mined send (quote_txs q) i)" using b(2) Some by simp
    then show ?thesis using s' cs k b(1) gone [of s'] q(1) zero pl(2) unfolding pl(1) by simp
  qed
qed


section \<open>A plan and its inputs\<close>

text \<open>
  The hook and the inputs of the quote that is in flight. The request is the one of the inputs of the
  render; \<open>answers\<close> says what the API may answer to a request, and \<open>ms\<close> are the markets it lists. A
  quote is a request and its reply; a gas check without a plan is one step; a step that changes the
  inputs waits for the reply.
\<close>

record panel =
  pa_ui :: market_ui
  pa_asked :: "order_inputs option"

type_synonym quote_request = "string \<times> side \<times> string \<times> bool \<times> string option"

definition shows_market :: "web_market list \<Rightarrow> order_inputs \<Rightarrow> bool" where
  "shows_market ms i \<longleftrightarrow> (case in_market i of None \<Rightarrow> True | Some m \<Rightarrow> m \<in> set ms)"

inductive panel_step ::
  "units \<Rightarrow> (quote_request \<Rightarrow> string + web_quote \<Rightarrow> bool) \<Rightarrow> web_market list \<Rightarrow> panel \<Rightarrow> panel \<Rightarrow> bool"
  for u answers ms where
  ask: "pa_asked p = None \<Longrightarrow> \<not> mu_busy (pa_ui p) \<Longrightarrow> in_market (mu_inputs (pa_ui p)) \<noteq> None \<Longrightarrow>
    panel_step u answers ms p (p\<lparr>pa_ui := quote_start (pa_ui p), pa_asked := Some (mu_inputs (pa_ui p))\<rparr>)"
| answer: "pa_asked p = Some i \<Longrightarrow> in_market i = Some m \<Longrightarrow> quote_body u i = Inr body \<Longrightarrow> answers body reply \<Longrightarrow>
    panel_step u answers ms p (p\<lparr>pa_ui := snd (quote_reply i m n reply alw (pa_ui p)), pa_asked := None\<rparr>)"
| unreadable: "pa_asked p = Some i \<Longrightarrow> in_market i = Some m \<Longrightarrow> quote_body u i = Inl ex \<Longrightarrow>
    panel_step u answers ms p (p\<lparr>pa_ui := snd (quote_reply i m 0 (Inl (exn_message ex)) alw (pa_ui p)), pa_asked := None\<rparr>)"
| change: "pa_asked p = None \<Longrightarrow> shows_market ms i \<Longrightarrow> panel_step u answers ms p (p\<lparr>pa_ui := change_inputs i (pa_ui p)\<rparr>)"
| approve: "panel_step u answers ms p (p\<lparr>pa_ui := onApprove ok (pa_ui p)\<rparr>)"
| execute: "panel_step u answers ms p (p\<lparr>pa_ui := snd (onExecute notify send ok (pa_ui p))\<rparr>)"
| gas: "pa_asked p = None \<Longrightarrow> quote_body u (mu_inputs (pa_ui p)) = Inr body \<Longrightarrow> answers body reply \<Longrightarrow>
    panel_step u answers ms p (p\<lparr>pa_ui := onCheckGas n reply (pa_ui p)\<rparr>)"

definition fresh_panel :: "web_market list \<Rightarrow> panel \<Rightarrow> bool" where
  "fresh_panel ms p \<longleftrightarrow> mu_q (pa_ui p) = None \<and> pa_asked p = None \<and> shows_market ms (mu_inputs (pa_ui p))"

inductive panel_reach ::
  "units \<Rightarrow> (quote_request \<Rightarrow> string + web_quote \<Rightarrow> bool) \<Rightarrow> web_market list \<Rightarrow> panel \<Rightarrow> bool"
  for u answers ms where
  start: "fresh_panel ms p \<Longrightarrow> panel_reach u answers ms p"
| step: "panel_reach u answers ms p \<Longrightarrow> panel_step u answers ms p p' \<Longrightarrow> panel_reach u answers ms p'"

definition panel_ok :: "units \<Rightarrow> (quote_request \<Rightarrow> string + web_quote \<Rightarrow> bool) \<Rightarrow> web_market list \<Rightarrow> panel \<Rightarrow> bool" where
  "panel_ok u answers ms p \<longleftrightarrow> shows_market ms (mu_inputs (pa_ui p)) \<and>
    (\<forall>i. pa_asked p = Some i \<longrightarrow> i = mu_inputs (pa_ui p)) \<and>
    (\<forall>q. mu_q (pa_ui p) = Some q \<longrightarrow> quote_has_tx q \<and>
      (\<exists>body. quote_body u (mu_inputs (pa_ui p)) = Inr body \<and> answers body (Inr q)))"

lemma reply_inputs: "mu_inputs (snd (quote_reply i m n reply alw s)) = mu_inputs s"
  by (simp add: quote_reply_def Let_def quote_failed_def drop_quote_def split: sum.split)

lemma reply_plan: "mu_q (snd (quote_reply i m n reply alw s)) = Some q \<Longrightarrow> reply = Inr q \<and> quote_has_tx q"
  by (auto simp: quote_reply_def Let_def quote_failed_def drop_quote_def split: sum.splits if_splits)

lemma other_inputs:
  "mu_inputs (onApprove ok s) = mu_inputs s" "mu_q (onApprove ok s) = mu_q s"
  "mu_inputs (snd (onExecute notify send ok s)) = mu_inputs s"
  "mu_inputs (onCheckGas n reply s) = mu_inputs s"
  by (auto simp: onApprove_def onExecute_def onCheckGas_def clear_plan_def Let_def
      split: option.split prod.split sum.split)

lemma execute_plan: "mu_q (snd (onExecute notify send ok s)) \<in> {None, mu_q s}"
  by (auto simp: onExecute_def clear_plan_def Let_def split: option.split prod.split)

lemma gas_plan: "mu_q (onCheckGas n reply s) = Some q \<Longrightarrow> mu_q s = Some q \<or> reply = Inr q \<and> quote_has_tx q"
  by (auto simp: onCheckGas_def split: option.splits sum.splits if_splits)

text \<open>Inputs with the same key ask for the same quote, a symbol naming one market.\<close>

lemma same_key_body:
  assumes "distinct (map wm_symbol ms)" and "shows_market ms i" "shows_market ms j" and "plan_key i = plan_key j"
  shows "quote_body u i = quote_body u j"
proof -
  have "in_market i = in_market j"
    using assms by (auto simp: plan_key_def shows_market_def distinct_map inj_on_def split: option.splits)
  with assms(4) show ?thesis by (simp add: plan_key_def quote_body_def split: option.split)
qed

lemma panel_step_ok:
  "panel_step u answers ms p p' \<Longrightarrow> distinct (map wm_symbol ms) \<Longrightarrow> panel_ok u answers ms p \<Longrightarrow> panel_ok u answers ms p'"
proof (induction rule: panel_step.induct)
  case (answer p i m body reply n alw)
  then show ?case using reply_plan by (fastforce simp: panel_ok_def reply_inputs)
next
  case (unreadable p i m ex alw)
  have "mu_q (snd (quote_reply i m 0 (Inl (exn_message ex)) alw (pa_ui p))) = None"
    using reply_plan [of i m 0 "Inl (exn_message ex)" alw "pa_ui p"]
    by (cases "mu_q (snd (quote_reply i m 0 (Inl (exn_message ex)) alw (pa_ui p)))") auto
  with unreadable show ?case by (auto simp: panel_ok_def reply_inputs)
next
  case (change p i)
  then show ?case
    using same_key_body [of ms i "mu_inputs (pa_ui p)" u] by (auto simp: panel_ok_def change_inputs_def clear_plan_def Let_def)
next
  case (execute p notify send ok)
  then show ?case using execute_plan [of notify send ok "pa_ui p"] by (auto simp: panel_ok_def other_inputs)
next
  case (gas p body reply n)
  then show ?case using gas_plan by (fastforce simp: panel_ok_def other_inputs)
qed (auto simp: panel_ok_def quote_start_def other_inputs)

lemma panel_reach_ok: "panel_reach u answers ms p \<Longrightarrow> distinct (map wm_symbol ms) \<Longrightarrow> panel_ok u answers ms p"
proof (induction rule: panel_reach.induct)
  case (start p)
  then show ?case by (simp add: fresh_panel_def panel_ok_def)
qed (rule panel_step_ok)

text \<open>
  C40. A plan answers the inputs it is shown with. However quotes, approvals, executions, gas checks
  and changes of the form follow each other, as long as the form is left alone while a request is in
  flight and a symbol names one market, the plan the panel holds has transactions to send and is
  what the API answered to a request for exactly what the form shows: its market, side, size in
  base units, time in force and price cap.
\<close>

theorem plan_answers_inputs:
  assumes reach: "panel_reach u answers ms p" and ms: "distinct (map wm_symbol ms)" and q: "mu_q (pa_ui p) = Some q"
  shows "quote_has_tx q \<and> (\<exists>m n. in_market (mu_inputs (pa_ui p)) = Some m \<and> m \<in> set ms \<and>
    un_parse u (in_sizeHuman (mu_inputs (pa_ui p))) (wm_baseDecimals m) = Inr n \<and>
    answers (wm_symbol m, in_side (mu_inputs (pa_ui p)), big_to_string n, in_fok (mu_inputs (pa_ui p)),
      (if in_limitPriceTicks (mu_inputs (pa_ui p)) = Some [] then None else in_limitPriceTicks (mu_inputs (pa_ui p)))) (Inr q))"
proof -
  obtain body where "quote_has_tx q" "quote_body u (mu_inputs (pa_ui p)) = Inr body" "answers body (Inr q)"
    "shows_market ms (mu_inputs (pa_ui p))"
    using panel_reach_ok [OF reach ms] q by (auto simp: panel_ok_def)
  then show ?thesis by (auto simp: quote_body_def shows_market_def split: option.splits)
qed

text \<open>
  Without that proviso it fails: a reply that comes after the form was changed puts the plan of the
  old inputs next to the new ones.
\<close>

theorem late_reply_shows_stale_plan:
  assumes "mu_q s = None" and "quote_has_tx q" and "amount_needed q \<le> 0"
  shows "let s' = snd (quote_reply (mu_inputs s) m n (Inr q) alw (change_inputs j (quote_start s)))
    in mu_q s' = Some q \<and> mu_inputs s' = j \<and> marketCta s' = CtaExecute"
  using assms by (simp add: quote_reply_def change_inputs_def quote_start_def Let_def marketCta_def hasAnyTx_def)

text \<open>A gas check without a plan installs one whose allowance nobody has looked at.\<close>

theorem gas_check_skips_approval:
  assumes "mu_q s = None" and "\<not> mu_needsApproval s" and "in_market (mu_inputs s) \<noteq> None" and "quote_has_tx q"
  shows "marketCta (onCheckGas n (Inr q) s) = CtaExecute"
  using assms by (auto simp: marketCta_def onCheckGas_def hasAnyTx_def)


section \<open>Ready intents\<close>

lemma judge_sufficient:
  assumes "ru_stage (judge_quote m sizeBase qq cls r) = StSufficient"
  shows "judge_quote m sizeBase qq cls r = r\<lparr>ru_stage := StSufficient\<rparr> \<and> (\<exists>q requested sizes minNotionalQ.
    qq = Some q \<and> length (quote_txs q) = 1 \<and>
    str_to_bigint sizeBase = Inr requested \<and> map_res (\<lambda>f. str_to_bigint (wf_sizeBase f)) (wq_fills q) = Inr sizes \<and>
    requested \<le> sum_list sizes \<and> str_to_bigint (wm_minNotionalQ m) = Inr minNotionalQ \<and>
    minNotionalQ \<le> marketQuoteNotionalQ m (map (\<lambda>f. (wf_priceTicks f, wf_sizeBase f)) (wq_fills q)))"
proof (cases qq)
  case None
  with assms show ?thesis by (simp add: judge_quote_def stop_def)
next
  case (Some q)
  have one: "quote_has_tx q \<Longrightarrow> \<not> 1 < length (wq_txList q) \<Longrightarrow> length (quote_txs q) = 1"
    by (cases "wq_txList q") (auto simp: quote_has_tx_def quote_txs_def split: option.split)
  obtain n where n: "str_to_bigint (wm_minNotionalQ m) = Inr n"
    using assms Some by (cases "str_to_bigint (wm_minNotionalQ m)") (simp_all add: judge_quote_def stop_def)
  moreover have ge: "n \<le> marketQuoteNotionalQ m (map (\<lambda>f. (wf_priceTicks f, wf_sizeBase f)) (wq_fills q))"
    using assms Some n by (auto simp: judge_quote_def stop_def split: if_splits)
  moreover obtain requested where rq: "str_to_bigint sizeBase = Inr requested"
    using assms Some n ge by (cases "str_to_bigint sizeBase") (simp_all add: judge_quote_def stop_def)
  moreover obtain sizes where sz: "map_res (\<lambda>f. str_to_bigint (wf_sizeBase f)) (wq_fills q) = Inr sizes"
    using assms Some n ge rq by (cases "map_res (\<lambda>f. str_to_bigint (wf_sizeBase f)) (wq_fills q)")
      (simp_all add: judge_quote_def stop_def)
  moreover from assms Some n ge rq sz have "requested \<le> sum_list sizes \<and> quote_has_tx q \<and> \<not> 1 < length (wq_txList q) \<and>
      judge_quote m sizeBase qq cls r = r\<lparr>ru_stage := StSufficient\<rparr>"
    by (simp add: judge_quote_def stop_def Let_def split: if_splits)
  ultimately show ?thesis using Some one by auto
qed

lemma orchestrate_sufficient:
  assumes "orchestrate ro m sizeBase fresh lock qq cls r0 = (r, asked)" and "\<not> ro" and "ru_stage r = StSufficient"
  obtains nonce proposal token until r1 where "asked" "fresh = Inr (Inr (Some nonce, Some proposal))"
    "lock = Inr (token, until)" "ru_token r1 = Some token"
    "ru_lockUntil r1 = Some (case until of Some t \<Rightarrow> t | None \<Rightarrow> proposal)"
    "r = judge_quote m sizeBase qq cls r1"
proof (cases "\<exists>nonce proposal. fresh = Inr (Inr (nonce, proposal)) \<and> nonce \<notin> {None, Some []} \<and> proposal \<noteq> None")
  case False
  with assms have False
    by (auto simp: orchestrate_def stop_def Let_def split: sum.splits if_splits)
  then show ?thesis ..
next
  case True
  then obtain y ya where f: "fresh = Inr (Inr (Some y, Some ya))" "y \<noteq> []" by auto
  show ?thesis
  proof (cases lock)
    case (Inl ex)
    with f assms show ?thesis by (simp add: orchestrate_def stop_def Let_def) auto
  next
    case (Inr l)
    let ?r1 = "r0\<lparr>ru_stage := StValidating, ru_reason := None, ru_token := Some (fst l),
      ru_lockUntil := (case snd l of Some t \<Rightarrow> Some t | None \<Rightarrow> Some ya)\<rparr>"
    have "(r, asked) = (judge_quote m sizeBase qq cls ?r1, True)"
      using f assms(1,2) Inr by (simp add: orchestrate_def Let_def split: prod.splits)
    moreover have "ru_lockUntil ?r1 = Some (case snd l of Some t \<Rightarrow> t | None \<Rightarrow> ya)" by (simp split: option.split)
    ultimately show ?thesis using that [of y ya "fst l" "snd l" ?r1] Inr f by simp
  qed
qed

lemma confirm_calls:
  assumes "onConfirmClick ro now send applied r s = (cs, r', s')" and "ru_token r = Some token"
  shows "(\<exists>j. map fst (sends cs) = take j (planned s)) \<and> notified cs = take 1 (map snd (sends cs)) \<and>
    (sends cs \<noteq> [] \<longrightarrow> (\<exists>left. lock_remaining now (ru_lockUntil r) = Some left \<and> 60000 < left)) \<and>
    (\<not> ro \<and> (\<exists>left. lock_remaining now (ru_lockUntil r) = Some left \<and> 60000 < left) \<longrightarrow>
      (cs, s') = onExecute True send applied s)"
proof (cases "\<not> ro \<and> (\<exists>left. lock_remaining now (ru_lockUntil r) = Some left \<and> 60000 < left)")
  case False
  then have "cs = []" using assms(1) by (auto simp: onConfirmClick_def split: option.splits if_splits)
  with False show ?thesis by (auto intro: exI [of _ 0])
next
  case True
  then have "onExecute True send applied s = (cs, s')"
    using assms by (auto simp: onConfirmClick_def split: prod.splits)
  from execute_calls [OF this] True this show ?thesis by simp
qed

text \<open>
  C18. A ready intent is confirmed only on a plan that covers it, under a live lock. When the
  orchestration ends \<open>sufficient\<close>, the wallet lock was granted before the quote was asked for, its
  token and its end are held (the end the API granted, or the one it had proposed), the plan is one
  transaction, or a batch in one, its fills sum up to the size of the intent at least and are worth
  the minimum notional of the market. Confirming sends nothing unless the end of that very lock is
  more than a minute away, and then it executes the plan: at most that one transaction, with the
  marker posted for it.
\<close>

theorem sufficient_means_executable:
  assumes run: "orchestrate ro m sizeBase fresh lock qq cls r0 = (r, asked)" and w: "\<not> ro" and st: "ru_stage r = StSufficient"
  shows "asked \<and> (\<exists>nonce proposal token until ends q requested sizes minNotionalQ.
    fresh = Inr (Inr (Some nonce, Some proposal)) \<and> lock = Inr (token, until) \<and>
    ends = (case until of Some t \<Rightarrow> t | None \<Rightarrow> proposal) \<and>
    ru_token r = Some token \<and> ru_lockUntil r = Some ends \<and> qq = Some q \<and> length (quote_txs q) = 1 \<and>
    str_to_bigint sizeBase = Inr requested \<and> map_res (\<lambda>f. str_to_bigint (wf_sizeBase f)) (wq_fills q) = Inr sizes \<and>
    requested \<le> sum_list sizes \<and> str_to_bigint (wm_minNotionalQ m) = Inr minNotionalQ \<and>
    minNotionalQ \<le> marketQuoteNotionalQ m (map (\<lambda>f. (wf_priceTicks f, wf_sizeBase f)) (wq_fills q)) \<and>
    (\<forall>now send applied s cs r' s'. mu_q s = Some q \<longrightarrow> onConfirmClick ro now send applied r s = (cs, r', s') \<longrightarrow>
       map fst (sends cs) \<in> {[], quote_txs q} \<and> notified cs = map snd (sends cs) \<and>
       (case iso_parse ends of
          Some t \<Rightarrow> if t - now > 60000 then (cs, s') = onExecute True send applied s else sends cs = []
        | None \<Rightarrow> sends cs = [])))"
proof -
  obtain nonce proposal token until r1 where o': "asked" "fresh = Inr (Inr (Some nonce, Some proposal))"
    "lock = Inr (token, until)" and r1: "ru_token r1 = Some token"
    "ru_lockUntil r1 = Some (case until of Some t \<Rightarrow> t | None \<Rightarrow> proposal)" "r = judge_quote m sizeBase qq cls r1"
    by (rule orchestrate_sufficient [OF run w st])
  let ?ends = "case until of Some t \<Rightarrow> t | None \<Rightarrow> proposal"
  note j = judge_sufficient [OF st [unfolded r1(3)], folded r1(3)]
  then have "r = r1\<lparr>ru_stage := StSufficient\<rparr>" using r1(3) by simp
  then have tk: "ru_token r = Some token" "ru_lockUntil r = Some ?ends" using r1(1,2) by simp_all
  have conf: "map fst (sends cs) \<in> {[], quote_txs q} \<and> notified cs = map snd (sends cs) \<and>
      (case iso_parse ?ends of
         Some t \<Rightarrow> if t - now > 60000 then (cs, s') = onExecute True send applied s else sends cs = []
       | None \<Rightarrow> sends cs = [])"
    if "length (quote_txs q) = 1" "mu_q s = Some q" "onConfirmClick ro now send applied r s = (cs, r', s')"
    for q now send applied s cs r' s'
  proof -
    note t = that and c = confirm_calls [OF that(3) tk(1), unfolded tk(2) lock_remaining_def option.case]
    from c obtain i where i: "map fst (sends cs) = take i (quote_txs q)" using t(2) by (auto simp: planned_def)
    have "length (take i (quote_txs q)) \<le> 1" using t(1) by simp
    then have "length (sends cs) \<le> 1" by (metis i length_map)
    moreover have "map fst (sends cs) \<in> {[], quote_txs q}" unfolding i using t(1) by (cases i) simp_all
    moreover from calculation(1) have "take 1 (map snd (sends cs)) = map snd (sends cs)" by simp
    moreover have "case iso_parse ?ends of
         Some t \<Rightarrow> if t - now > 60000 then (cs, s') = onExecute True send applied s else sends cs = []
       | None \<Rightarrow> sends cs = []"
      using c w by (cases "iso_parse ?ends") auto
    ultimately show ?thesis using c by simp
  qed
  from j obtain q requested sizes minNotionalQ where q: "qq = Some q" "length (quote_txs q) = 1"
    "str_to_bigint sizeBase = Inr requested" "map_res (\<lambda>f. str_to_bigint (wf_sizeBase f)) (wq_fills q) = Inr sizes"
    "requested \<le> sum_list sizes" "str_to_bigint (wm_minNotionalQ m) = Inr minNotionalQ"
    "minNotionalQ \<le> marketQuoteNotionalQ m (map (\<lambda>f. (wf_priceTicks f, wf_sizeBase f)) (wq_fills q))"
    by (elim conjE exE) (rule that)
  have all: "\<forall>now send applied s cs r' s'. mu_q s = Some q \<longrightarrow> onConfirmClick ro now send applied r s = (cs, r', s') \<longrightarrow>
       map fst (sends cs) \<in> {[], quote_txs q} \<and> notified cs = map snd (sends cs) \<and>
       (case iso_parse ?ends of
          Some t \<Rightarrow> if t - now > 60000 then (cs, s') = onExecute True send applied s else sends cs = []
        | None \<Rightarrow> sends cs = [])"
    by (intro allI impI) (rule conf [OF q(2)])
  show ?thesis
    by (rule conjI [OF o'(1)], rule exI [of _ nonce], rule exI [of _ proposal], rule exI [of _ token], rule exI [of _ until],
        rule exI [of _ ?ends], rule exI [of _ q], rule exI [of _ requested], rule exI [of _ sizes],
        rule exI [of _ minNotionalQ], intro conjI) (rule o' tk q all refl)+
qed


section \<open>A sample run\<close>

definition web_sample_quote :: web_quote where
  "web_sample_quote =
    \<lparr>wq_fills = [\<lparr>wf_makerOrderHash = ''0x5'', wf_priceTicks = ''5'', wf_sizeBase = ''80'', wf_takerToken = None,
       wf_takerAmount = None, wf_feeRecipient = None, wf_rawFeeRecipient = None\<rparr>],
     wq_txData = Some (''0xe'', ''0xd'', ''0''), wq_txList = [], wq_remainingBase = Some ''0'',
     wq_takerAmount = Some ''40'', wq_takerTotalAmount = None, wq_takerFeeTotal = None,
     wq_takerFeeRecipient = None, wq_topFeeRecipient = None\<rparr>"

definition web_sample_inputs :: order_inputs where
  "web_sample_inputs = \<lparr>in_market = Some form_market, in_side = BUY, in_sizeHuman = ''80'', in_fok = True,
     in_limitPriceTicks = Some ''6''\<rparr>"

definition web_sample_ui :: market_ui where
  "web_sample_ui = \<lparr>mu_inputs = web_sample_inputs, mu_busy = False, mu_result = None, mu_err = None, mu_q = None,
     mu_needsApproval = False, mu_needed = 0, mu_takerToken = None, mu_takerFee = 0, mu_feeRecipient = None,
     mu_pendingTx = None, mu_failure = None\<rparr>"

definition mine_all :: "nat \<Rightarrow> web_tx \<Rightarrow> sent" where
  "mine_all n t = SendMined ''0x9''"

theorem execution_follows_plan_witness:
  "\<exists>cs s'. onExecute True mine_all True (web_sample_ui\<lparr>mu_q := Some web_sample_quote\<rparr>) = (cs, s') \<and>
    notified cs = [''0x9''] \<and> mu_q s' = None"
proof -
  let ?s = "web_sample_ui\<lparr>mu_q := Some web_sample_quote\<rparr>"
  obtain cs s' where run: "onExecute True mine_all True ?s = (cs, s')" by fastforce
  have p: "planned ?s = [(''0xe'', ''0xd'', ''0'')]"
    by (simp add: planned_def web_sample_quote_def quote_txs_def)
  have z: "\<not> isl (str_to_bigint ''0'')" by code_simp
  have n: "notified (fst (onExecute True mine_all True ?s)) = [''0x9'']" by code_simp
  have "in_market (mu_inputs ?s) \<noteq> None" by (simp add: web_sample_ui_def web_sample_inputs_def)
  then obtain m where "in_market (mu_inputs ?s) = Some m" by blast
  from execution_follows_plan [OF run this] p z have "mu_q s' = None" by (simp add: mine_all_def mined_def)
  with run n show ?thesis by auto
qed

definition sample_panel :: panel where
  "sample_panel = \<lparr>pa_ui = web_sample_ui, pa_asked = None\<rparr>"

definition sample_answers :: "quote_request \<Rightarrow> string + web_quote \<Rightarrow> bool" where
  "sample_answers body reply \<longleftrightarrow> fst (snd body) = BUY \<and> reply = Inr web_sample_quote"

theorem plan_answers_inputs_witness:
  "\<exists>p. panel_reach form_units sample_answers [form_market] p \<and> mu_q (pa_ui p) = Some web_sample_quote \<and>
    sample_answers (wm_symbol form_market, BUY, ''80'', True, Some ''6'') (Inr web_sample_quote)"
proof -
  define p1 where "p1 = sample_panel\<lparr>pa_ui := quote_start (pa_ui sample_panel), pa_asked := Some web_sample_inputs\<rparr>"
  define p2 where "p2 = p1\<lparr>pa_ui := snd (quote_reply web_sample_inputs form_market 80 (Inr web_sample_quote) (Inr 40) (pa_ui p1)),
    pa_asked := None\<rparr>"
  have u: "un_parse form_units ''80'' (wm_baseDecimals form_market) = Inr 80" by code_simp
  have "panel_reach form_units sample_answers [form_market] sample_panel"
    by (rule panel_reach.start)
      (simp add: fresh_panel_def sample_panel_def web_sample_ui_def web_sample_inputs_def shows_market_def)
  moreover have "panel_step form_units sample_answers [form_market] sample_panel p1"
    using panel_step.ask [of sample_panel] by (simp add: p1_def sample_panel_def web_sample_ui_def web_sample_inputs_def)
  moreover have "quote_body form_units web_sample_inputs = Inr (wm_symbol form_market, BUY, ''80'', True, Some ''6'')"
    by code_simp
  then have "panel_step form_units sample_answers [form_market] p1 p2"
    unfolding p2_def
    by (intro panel_step.answer [where body = "(wm_symbol form_market, BUY, ''80'', True, Some ''6'')"])
      (simp_all add: p1_def web_sample_inputs_def sample_answers_def)
  ultimately have r: "panel_reach form_units sample_answers [form_market] p2" by (blast intro: panel_reach.step)
  have "mu_q (snd (quote_reply web_sample_inputs form_market 80 (Inr web_sample_quote) (Inr 40) (quote_start web_sample_ui))) = Some web_sample_quote"
    by code_simp
  then have q: "mu_q (pa_ui p2) = Some web_sample_quote" by (simp add: p2_def p1_def sample_panel_def)
  have i: "mu_inputs (pa_ui p2) = web_sample_inputs"
    by (simp add: p2_def p1_def sample_panel_def reply_inputs quote_start_def web_sample_ui_def)
  have b: "big_to_string 80 = ''80''" by code_simp
  from plan_answers_inputs [OF r _ q] u b
  have "sample_answers (wm_symbol form_market, BUY, ''80'', True, Some ''6'') (Inr web_sample_quote)"
    unfolding i by (auto simp: web_sample_inputs_def)
  with r q show ?thesis by blast
qed

theorem sufficient_means_executable_witness:
  "\<exists>r. orchestrate False form_market ''80'' (Inr (Inr (Some ''n'', Some ''t''))) (Inr (''tok'', None))
      (Some web_sample_quote) None \<lparr>ru_stage = StIdle, ru_reason = None, ru_token = None, ru_lockUntil = None\<rparr> = (r, True) \<and>
    ru_token r = Some ''tok''"
proof -
  let ?run = "orchestrate False form_market ''80'' (Inr (Inr (Some ''n'', Some ''t''))) (Inr (''tok'', None))
      (Some web_sample_quote) None \<lparr>ru_stage = StIdle, ru_reason = None, ru_token = None, ru_lockUntil = None\<rparr>"
  obtain r asked where run: "?run = (r, asked)" by fastforce
  have "ru_stage (fst ?run) = StSufficient" by code_simp
  then have "ru_stage r = StSufficient" by (simp add: run)
  from sufficient_means_executable [OF run _ this] run show ?thesis by auto
qed

end
