(* ===== verification/WsGateway.thy ===== *)
theory WsGateway
  imports PublicProps
begin

text \<open>
  \<open>apps/api/src/public/public.ws.ts\<close>: the WebSocket gateway. It keeps the symbols each socket
  subscribed to, a subscriber count per symbol, and the socket.io rooms; every second it broadcasts
  the live ladder of the symbols with a positive count. A handler is one step, on the database its
  lookup sees, and so is a broadcast; what a handler sends is a list of events addressed to a socket
  or to a room. \<open>dec\<close> is \<open>Decimal.toString\<close>.
\<close>

section \<open>State and events\<close>

record trade_item =
  ti_makerOrderHash :: string
  ti_taker :: string
  ti_priceTicks :: string
  ti_sizeBase :: string
  ti_ts :: string

datatype ws_event =
    BookAck string bool
  | OrdersSubscribed string
  | OrdersUnsubscribed string
  | TradesSubscribed string
  | TradesUnsubscribed string
  | TradesInit string "trade_item list"
  | Book string int "ob_level list" "ob_level list"
  | Trades jval
  | OrderEvent string jval

datatype ws_out = ToSocket string ws_event | ToRoom string ws_event

record ws_state =
  ws_subsBySocket :: "(string \<times> string list) list"
  ws_refCount :: "(string \<times> int) list"
  ws_tradesRefCount :: "(string \<times> int) list"
  ws_rooms :: "(string \<times> string) list"

definition ws_start :: ws_state where
  "ws_start = \<lparr>ws_subsBySocket = [], ws_refCount = [], ws_tradesRefCount = [], ws_rooms = []\<rparr>"

text \<open>Joining a room twice, or leaving one that was not joined, has no effect.\<close>

definition ws_join :: "string \<Rightarrow> string \<Rightarrow> ws_state \<Rightarrow> ws_state" where
  "ws_join room sock s = s\<lparr>ws_rooms := List.insert (room, sock) (ws_rooms s)\<rparr>"

definition ws_leave :: "string \<Rightarrow> string \<Rightarrow> ws_state \<Rightarrow> ws_state" where
  "ws_leave room sock s = s\<lparr>ws_rooms := filter (\<lambda>x. x \<noteq> (room, sock)) (ws_rooms s)\<rparr>"

definition book_room :: "string \<Rightarrow> string" where
  "book_room symbol = ''book:'' @ symbol"

definition orders_room :: "string \<Rightarrow> string" where
  "orders_room addr = ''orders:'' @ addr"

definition trades_room :: "string \<Rightarrow> string" where
  "trades_room symbol = ''trades:'' @ symbol"

definition count_of :: "int \<Rightarrow> string \<Rightarrow> (string \<times> int) list \<Rightarrow> int" where
  "count_of dflt symbol m = (case map_of m symbol of Some n \<Rightarrow> n | None \<Rightarrow> dflt)"

text \<open>\<open>m.set(k, (m.get(k) ?? 0) + 1)\<close> and \<open>m.set(k, Math.max(0, (m.get(k) ?? 1) - 1))\<close>.\<close>

definition count_up :: "string \<Rightarrow> (string \<times> int) list \<Rightarrow> (string \<times> int) list" where
  "count_up symbol m = AList.update symbol (count_of 0 symbol m + 1) m"

definition count_down :: "string \<Rightarrow> (string \<times> int) list \<Rightarrow> (string \<times> int) list" where
  "count_down symbol m = AList.update symbol (max 0 (count_of 1 symbol m - 1)) m"

section \<open>Subscriptions\<close>

definition resolveCanonicalSymbol :: "db \<Rightarrow> string \<Rightarrow> string option" where
  "resolveCanonicalSymbol d raw =
    (let s = trim raw
     in if s = [] then None
        else map_option mk_symbol (find (\<lambda>m. to_lower (mk_symbol m) = to_lower s) (d_markets d)))"

definition subs_of :: "ws_state \<Rightarrow> string \<Rightarrow> string list" where
  "subs_of s sock = (case map_of (ws_subsBySocket s) sock of Some cs \<Rightarrow> cs | None \<Rightarrow> [])"

definition handleBookSub :: "db \<Rightarrow> string \<Rightarrow> string \<Rightarrow> ws_state \<Rightarrow> ws_out list \<times> ws_state" where
  "handleBookSub d raw sock s =
    (case resolveCanonicalSymbol d raw of
       None \<Rightarrow> ([], s)
     | Some c \<Rightarrow>
         let cs = subs_of s sock;
             s1 = s\<lparr>ws_subsBySocket := AList.update sock (if c \<in> set cs then cs else cs @ [c]) (ws_subsBySocket s)\<rparr>;
             s2 = s1\<lparr>ws_refCount := count_up c (ws_refCount s1)\<rparr>
         in ([ToSocket sock (BookAck c True)], ws_join (book_room c) sock s2))"

definition handleBookUnsub :: "db \<Rightarrow> string \<Rightarrow> string \<Rightarrow> ws_state \<Rightarrow> ws_out list \<times> ws_state" where
  "handleBookUnsub d raw sock s =
    (case resolveCanonicalSymbol d raw of
       None \<Rightarrow> ([], s)
     | Some c \<Rightarrow>
         if c \<in> set (subs_of s sock)
         then let s1 = s\<lparr>ws_subsBySocket := AList.update sock (removeAll c (subs_of s sock)) (ws_subsBySocket s)\<rparr>;
                  s2 = s1\<lparr>ws_refCount := count_down c (ws_refCount s1)\<rparr>
              in ([ToSocket sock (BookAck c False)], ws_leave (book_room c) sock s2)
         else ([], s))"

definition handleOrdersSub :: "string \<Rightarrow> string \<Rightarrow> ws_state \<Rightarrow> ws_out list \<times> ws_state" where
  "handleOrdersSub address sock s =
    (let addr = to_lower (trim address)
     in if addr = [] then ([], s)
        else ([ToSocket sock (OrdersSubscribed addr)], ws_join (orders_room addr) sock s))"

definition handleOrdersUnsub :: "string \<Rightarrow> string \<Rightarrow> ws_state \<Rightarrow> ws_out list \<times> ws_state" where
  "handleOrdersUnsub address sock s =
    (let addr = to_lower (trim address)
     in if addr = [] then ([], s)
        else ([ToSocket sock (OrdersUnsubscribed addr)], ws_leave (orders_room addr) sock s))"

text \<open>The backfill: at most 50 rows, in no particular order, with made-up times one second apart.\<close>

definition trade_items :: "(int \<Rightarrow> string) \<Rightarrow> int \<Rightarrow> trade_row list \<Rightarrow> trade_item list" where
  "trade_items dec now rows =
    map (\<lambda>(idx, r). \<lparr>ti_makerOrderHash = t_makerHash r, ti_taker = t_taker r,
        ti_priceTicks = big_to_string (t_priceTicks r), ti_sizeBase = dec (t_sizeBase r),
        ti_ts = toISOString (now - (int (length rows) - int idx - 1) * 1000)\<rparr>)
      (enumerate 0 rows)"

definition handleTradesSub ::
  "(int \<Rightarrow> string) \<Rightarrow> int \<Rightarrow> db \<Rightarrow> string \<Rightarrow> string \<Rightarrow> ws_state \<Rightarrow> ws_out list \<times> ws_state" where
  "handleTradesSub dec now d raw sock s =
    (case resolveCanonicalSymbol d raw of
       None \<Rightarrow> ([], s)
     | Some c \<Rightarrow>
         let s1 = s\<lparr>ws_tradesRefCount := count_up c (ws_tradesRefCount s)\<rparr>;
             rows = take 50 (filter (\<lambda>t. symbol_of d (t_marketId t) = c) (d_trades d))
         in ([ToSocket sock (TradesSubscribed c), ToSocket sock (TradesInit c (trade_items dec now rows))],
             ws_join (trades_room c) sock s1))"

definition handleTradesUnsub :: "db \<Rightarrow> string \<Rightarrow> string \<Rightarrow> ws_state \<Rightarrow> ws_out list \<times> ws_state" where
  "handleTradesUnsub d raw sock s =
    (case resolveCanonicalSymbol d raw of
       None \<Rightarrow> ([], s)
     | Some c \<Rightarrow>
         ([ToSocket sock (TradesUnsubscribed c)],
          ws_leave (trades_room c) sock (s\<lparr>ws_tradesRefCount := count_down c (ws_tradesRefCount s)\<rparr>)))"

definition handleDisconnect :: "string \<Rightarrow> ws_state \<Rightarrow> ws_state" where
  "handleDisconnect sock s =
    (case map_of (ws_subsBySocket s) sock of
       None \<Rightarrow> s
     | Some cs \<Rightarrow>
         let s1 = foldl (\<lambda>s c. ws_leave (book_room c) sock (s\<lparr>ws_refCount := count_down c (ws_refCount s)\<rparr>)) s cs
         in s1\<lparr>ws_subsBySocket := AList.delete sock (ws_subsBySocket s1)\<rparr>)"

section \<open>What the rest of the API sends\<close>

definition emitTrade :: "string \<Rightarrow> jval \<Rightarrow> ws_out list" where
  "emitTrade symbol payload = [ToRoom (trades_room symbol) (Trades payload)]"

definition emitOrderEvent :: "string \<Rightarrow> jval \<Rightarrow> ws_out list" where
  "emitOrderEvent makerLower payload =
    (let room = orders_room (to_lower makerLower)
     in [ToRoom room (OrderEvent room payload), ToRoom room (OrderEvent ''orders'' payload)])"

section \<open>The broadcast\<close>

definition ws_snapshot :: "(int \<Rightarrow> string) \<Rightarrow> db \<Rightarrow> string \<Rightarrow> (ob_level list \<times> ob_level list) result" where
  "ws_snapshot dec d marketId =
    bind_res (ladder_maps dec (open_rows d marketId) [] []) (\<lambda>(bidsMap, asksMap).
      Inr (ladder cmpDesc 25 bidsMap, ladder cmpAsc 25 asksMap))"

definition active_symbols :: "ws_state \<Rightarrow> string list" where
  "active_symbols s = map fst (filter (\<lambda>(c, n). 0 < n) (ws_refCount s))"

text \<open>A ladder that throws ends the tick; what was sent before it stays sent.\<close>

fun broadcast_each ::
  "(int \<Rightarrow> string) \<Rightarrow> int \<Rightarrow> db \<Rightarrow> (string \<rightharpoonup> string) \<Rightarrow> string list \<Rightarrow> ws_out list \<times> unit result" where
  "broadcast_each dec now d bySymbol [] = ([], Inr ())"
| "broadcast_each dec now d bySymbol (c # cs) =
    (case bySymbol c of
       None \<Rightarrow> broadcast_each dec now d bySymbol cs
     | Some i \<Rightarrow>
         if i = [] then broadcast_each dec now d bySymbol cs
         else case ws_snapshot dec d i of
           Inl e \<Rightarrow> ([], Inl e)
         | Inr (bs, as) \<Rightarrow>
             let (outs, r) = broadcast_each dec now d bySymbol cs
             in (ToRoom (book_room c) (Book c now bs as) # outs, r))"

text \<open>The gauges \<open>booksActive\<close> and \<open>wsSubscribers\<close>, what is sent, and whether the tick threw.\<close>

definition ws_tick ::
  "(int \<Rightarrow> string) \<Rightarrow> int \<Rightarrow> db \<Rightarrow> ws_state \<Rightarrow> (nat \<times> int) \<times> ws_out list \<times> unit result" where
  "ws_tick dec now d s =
    (let active = active_symbols s;
         bySymbol = map_of (rev (map (\<lambda>m. (mk_symbol m, mk_id m))
           (filter (\<lambda>m. mk_symbol m \<in> set active) (d_markets d))))
     in ((length active, sum_list (map snd (ws_refCount s))),
         if active = [] then ([], Inr ()) else broadcast_each dec now d bySymbol active))"

section \<open>Histories\<close>

text \<open>
  A history of requests and disconnects. socket.io takes a socket out of all its rooms when it
  disconnects. A request that was still waiting for its lookup may come after the disconnect.
\<close>

datatype ws_op =
    OpBookSub db string string
  | OpBookUnsub db string string
  | OpTradesSub db string string
  | OpTradesUnsub db string string
  | OpOrdersSub string string
  | OpOrdersUnsub string string
  | OpDisconnect string

fun ws_op_run :: "(int \<Rightarrow> string) \<Rightarrow> int \<Rightarrow> ws_op \<Rightarrow> ws_state \<Rightarrow> ws_state" where
  "ws_op_run dec now (OpBookSub d raw sock) s = snd (handleBookSub d raw sock s)"
| "ws_op_run dec now (OpBookUnsub d raw sock) s = snd (handleBookUnsub d raw sock s)"
| "ws_op_run dec now (OpTradesSub d raw sock) s = snd (handleTradesSub dec now d raw sock s)"
| "ws_op_run dec now (OpTradesUnsub d raw sock) s = snd (handleTradesUnsub d raw sock s)"
| "ws_op_run dec now (OpOrdersSub a sock) s = snd (handleOrdersSub a sock s)"
| "ws_op_run dec now (OpOrdersUnsub a sock) s = snd (handleOrdersUnsub a sock s)"
| "ws_op_run dec now (OpDisconnect sock) s =
    (let s1 = handleDisconnect sock s in s1\<lparr>ws_rooms := filter (\<lambda>x. snd x \<noteq> sock) (ws_rooms s1)\<rparr>)"

text \<open>The latest operation comes first.\<close>

fun ws_history :: "(int \<Rightarrow> string) \<Rightarrow> int \<Rightarrow> ws_op list \<Rightarrow> ws_state" where
  "ws_history dec now [] = ws_start"
| "ws_history dec now (a # as) = ws_op_run dec now a (ws_history dec now as)"

text \<open>The specification: the last request of a socket about a symbol decides, until it disconnects.\<close>

fun subscribed :: "ws_op list \<Rightarrow> string \<Rightarrow> string \<Rightarrow> bool" where
  "subscribed [] k c = False"
| "subscribed (a # as) k c =
    (case a of
       OpBookSub d raw sock \<Rightarrow> sock = k \<and> resolveCanonicalSymbol d raw = Some c \<or> subscribed as k c
     | OpBookUnsub d raw sock \<Rightarrow> \<not> (sock = k \<and> resolveCanonicalSymbol d raw = Some c) \<and> subscribed as k c
     | OpDisconnect sock \<Rightarrow> sock \<noteq> k \<and> subscribed as k c
     | _ \<Rightarrow> subscribed as k c)"

text \<open>What a socket receives of what is sent to the rooms.\<close>

definition received :: "string \<Rightarrow> ws_state \<Rightarrow> ws_out list \<Rightarrow> ws_event list" where
  "received k s outs = List.map_filter (\<lambda>out. case out of
     ToRoom room e \<Rightarrow> if (room, k) \<in> set (ws_rooms s) then Some e else None
   | ToSocket sock e \<Rightarrow> if sock = k then Some e else None) outs"

definition book_for :: "string \<Rightarrow> ws_event \<Rightarrow> bool" where
  "book_for c e \<longleftrightarrow> (case e of Book c' t bs as \<Rightarrow> c' = c | _ \<Rightarrow> False)"

end
