(* ===== verification/WsProps.thy ===== *)
theory WsProps
  imports WsGateway
begin

text \<open>
  What the WebSocket gateway promises: whatever clients ask for, and in whatever order, a socket
  receives the live ladder of exactly the symbols it is subscribed to.
\<close>

section \<open>Counts and subscriptions\<close>

lemma count_of_up: "count_of 0 c (count_up b m) = count_of 0 c m + (if c = b then 1 else 0)"
  by (simp add: count_of_def count_up_def update_conv')

lemma count_of_down:
  "1 \<le> count_of 0 b m \<Longrightarrow> count_of 0 c (count_down b m) = count_of 0 c m - (if c = b then 1 else 0)"
  by (simp add: count_of_def count_down_def update_conv' split: option.splits)

lemma distinct_counts:
  "distinct (map fst m) \<Longrightarrow> distinct (map fst (count_up b m))"
  "distinct (map fst m) \<Longrightarrow> distinct (map fst (count_down b m))"
  by (simp_all add: count_up_def count_down_def distinct_update)

lemma subs_of_update:
  "subs_of (s\<lparr>ws_subsBySocket := AList.update k cs (ws_subsBySocket s)\<rparr>) = (subs_of s)(k := cs)"
  by (auto simp: subs_of_def update_conv')

lemma subs_of_delete:
  "subs_of (s\<lparr>ws_subsBySocket := AList.delete k (ws_subsBySocket s)\<rparr>) = (subs_of s)(k := [])"
  by (auto simp: subs_of_def delete_conv')

lemma subs_of_frame [simp]:
  "subs_of (s\<lparr>ws_refCount := x\<rparr>) = subs_of s"
  "subs_of (s\<lparr>ws_tradesRefCount := y\<rparr>) = subs_of s"
  "subs_of (s\<lparr>ws_rooms := z\<rparr>) = subs_of s"
  "subs_of (ws_join room k s) = subs_of s"
  "subs_of (ws_leave room k s) = subs_of s"
  by (simp_all add: subs_of_def ws_join_def ws_leave_def fun_eq_iff)

lemma ws_frame [simp]:
  "ws_refCount (ws_join room k s) = ws_refCount s"
  "ws_refCount (ws_leave room k s) = ws_refCount s"
  "set (ws_rooms (ws_join room k s)) = insert (room, k) (set (ws_rooms s))"
  "set (ws_rooms (ws_leave room k s)) = set (ws_rooms s) - {(room, k)}"
  "ws_subsBySocket (ws_leave room k s) = ws_subsBySocket s"
  by (auto simp: ws_join_def ws_leave_def)

lemma rooms_apart [simp]:
  "book_room c \<noteq> orders_room a" "book_room c \<noteq> trades_room b" "book_room c = book_room b \<longleftrightarrow> c = b"
  "orders_room a \<noteq> book_room c" "trades_room b \<noteq> book_room c"
  by (simp_all add: book_room_def orders_room_def trades_room_def)

definition holders :: "(string \<Rightarrow> string list) \<Rightarrow> string \<Rightarrow> string set" where
  "holders f c = {k. c \<in> set (f k)}"

lemma holders_update: "holders (f(k := cs)) c = (if c \<in> set cs then insert k (holders f c) else holders f c - {k})"
  by (auto simp: holders_def)

lemma finite_holders: "finite (holders (subs_of s) c)"
proof (rule finite_subset)
  show "holders (subs_of s) c \<subseteq> dom (map_of (ws_subsBySocket s))"
    by (auto simp: holders_def subs_of_def split: option.splits dest: sym)
qed (rule finite_dom_map_of)

lemma card_drop:
  assumes "finite A" and "k \<in> A"
  shows "int (card (A - {k})) = int (card A) - 1"
  using card_Suc_Diff1 [OF assms] by linarith

section \<open>The invariant\<close>

text \<open>Every symbol counts at least the sockets that hold it.\<close>

definition ws_ok :: "ws_state \<Rightarrow> bool" where
  "ws_ok s \<longleftrightarrow> distinct (map fst (ws_refCount s)) \<and> (\<forall>k. distinct (subs_of s k)) \<and>
    (\<forall>c. int (card (holders (subs_of s) c)) \<le> count_of 0 c (ws_refCount s))"

definition ws_agrees :: "ws_op list \<Rightarrow> ws_state \<Rightarrow> bool" where
  "ws_agrees as s \<longleftrightarrow> (\<forall>k c. c \<in> set (subs_of s k) \<longleftrightarrow> subscribed as k c) \<and>
    (\<forall>k c. (book_room c, k) \<in> set (ws_rooms s) \<longleftrightarrow> subscribed as k c)"

lemma held_counts: "ws_ok s \<Longrightarrow> c \<in> set (subs_of s k) \<Longrightarrow> 1 \<le> count_of 0 c (ws_refCount s)"
proof -
  assume "ws_ok s" and "c \<in> set (subs_of s k)"
  then have "0 < card (holders (subs_of s) c)"
    using finite_holders [of s c] by (auto simp: card_gt_0_iff holders_def)
  with \<open>ws_ok s\<close> show ?thesis by (auto simp: ws_ok_def dest!: spec [of _ c])
qed

definition drop_books :: "string \<Rightarrow> string list \<Rightarrow> ws_state \<Rightarrow> ws_state" where
  "drop_books k cs s =
    foldl (\<lambda>s c. ws_leave (book_room c) k (s\<lparr>ws_refCount := count_down c (ws_refCount s)\<rparr>)) s cs"

lemma dropped_counts:
  assumes "distinct cs" and "\<forall>c \<in> set cs. 1 \<le> count_of 0 c (ws_refCount s)" and "distinct (map fst (ws_refCount s))"
  shows "(\<forall>c. count_of 0 c (ws_refCount (drop_books k cs s)) =
      count_of 0 c (ws_refCount s) - (if c \<in> set cs then 1 else 0)) \<and>
    distinct (map fst (ws_refCount (drop_books k cs s))) \<and>
    ws_subsBySocket (drop_books k cs s) = ws_subsBySocket s \<and>
    set (ws_rooms (drop_books k cs s)) = set (ws_rooms s) - (\<lambda>c. (book_room c, k)) ` set cs"
  using assms
proof (induction cs arbitrary: s)
  case (Cons b cs)
  let ?u = "ws_leave (book_room b) k (s\<lparr>ws_refCount := count_down b (ws_refCount s)\<rparr>)"
  have b: "1 \<le> count_of 0 b (ws_refCount s)" using Cons.prems by simp
  note u = count_of_down [OF b]
  have i: "distinct cs" "\<forall>c \<in> set cs. 1 \<le> count_of 0 c (ws_refCount ?u)" "distinct (map fst (ws_refCount ?u))"
    using Cons.prems by (auto simp: u distinct_counts)
  have d: "drop_books k (b # cs) s = drop_books k cs ?u" by (simp add: drop_books_def)
  from Cons.IH [OF i] Cons.prems(1) show ?case unfolding d by (auto simp: u)
qed (simp add: drop_books_def)

lemma book_sub_ok:
  assumes "ws_ok s" and "ws_agrees as s"
  shows "ws_ok (snd (handleBookSub d raw k s)) \<and> ws_agrees (OpBookSub d raw k # as) (snd (handleBookSub d raw k s))"
proof (cases "resolveCanonicalSymbol d raw")
  case None
  then show ?thesis using assms by (simp add: handleBookSub_def ws_agrees_def)
next
  case (Some c)
  let ?cs = "if c \<in> set (subs_of s k) then subs_of s k else subs_of s k @ [c]"
  let ?t = "snd (handleBookSub d raw k s)"
  have t: "subs_of ?t = (subs_of s)(k := ?cs)" "ws_refCount ?t = count_up c (ws_refCount s)"
    "set (ws_rooms ?t) = insert (book_room c, k) (set (ws_rooms s))"
    by (simp_all add: handleBookSub_def Some Let_def subs_of_update)
  have h: "holders ((subs_of s)(k := ?cs)) b = (if b = c then insert k (holders (subs_of s) c) else holders (subs_of s) b)" for b
    by (auto simp: holders_def split: if_splits)
  have "int (card (insert k (holders (subs_of s) c))) \<le> int (card (holders (subs_of s) c)) + 1"
    by (simp add: card_insert_if [OF finite_holders])
  then have "ws_ok ?t"
    using assms(1) unfolding ws_ok_def t count_of_up h by (auto simp: distinct_counts intro: order_trans)
  moreover have "ws_agrees (OpBookSub d raw k # as) ?t"
    using assms(2) unfolding ws_agrees_def t by (auto simp: Some)
  ultimately show ?thesis by blast
qed

lemma book_unsub_ok:
  assumes "ws_ok s" and "ws_agrees as s"
  shows "ws_ok (snd (handleBookUnsub d raw k s)) \<and> ws_agrees (OpBookUnsub d raw k # as) (snd (handleBookUnsub d raw k s))"
proof (cases "\<exists>c. resolveCanonicalSymbol d raw = Some c \<and> c \<in> set (subs_of s k)")
  case False
  then have "snd (handleBookUnsub d raw k s) = s"
    by (auto simp: handleBookUnsub_def split: option.splits)
  then show ?thesis using assms False by (auto simp: ws_agrees_def)
next
  case True
  then obtain c where c: "resolveCanonicalSymbol d raw = Some c" "c \<in> set (subs_of s k)" by blast
  let ?t = "snd (handleBookUnsub d raw k s)"
  have t: "subs_of ?t = (subs_of s)(k := removeAll c (subs_of s k))" "ws_refCount ?t = count_down c (ws_refCount s)"
    "set (ws_rooms ?t) = set (ws_rooms s) - {(book_room c, k)}"
    using c by (simp_all add: handleBookUnsub_def Let_def subs_of_update)
  have h: "holders ((subs_of s)(k := removeAll c (subs_of s k))) b =
      (if b = c then holders (subs_of s) c - {k} else holders (subs_of s) b)" for b
    by (auto simp: holders_def)
  have "int (card (holders (subs_of s) c - {k})) = int (card (holders (subs_of s) c)) - 1"
    using c(2) by (intro card_drop finite_holders) (simp add: holders_def)
  moreover have "\<forall>c. int (card (holders (subs_of s) c)) \<le> count_of 0 c (ws_refCount s)"
    using assms(1) by (simp add: ws_ok_def)
  from spec [OF this, of c] have "int (card (holders (subs_of s) c)) - 1 < count_of 0 c (ws_refCount s)" by linarith
  ultimately have "ws_ok ?t"
    using assms(1) unfolding ws_ok_def t count_of_down [OF held_counts [OF assms(1) c(2)]] h
    by (auto simp: distinct_counts distinct_removeAll)
  moreover have "ws_agrees (OpBookUnsub d raw k # as) ?t"
    using assms(2) unfolding ws_agrees_def t by (auto simp: c(1))
  ultimately show ?thesis by blast
qed

lemma disconnect_ok:
  assumes "ws_ok s" and "ws_agrees as s"
  shows "ws_ok (ws_op_run dec now (OpDisconnect k) s) \<and> ws_agrees (OpDisconnect k # as) (ws_op_run dec now (OpDisconnect k) s)"
proof (cases "map_of (ws_subsBySocket s) k")
  case None
  then have "ws_op_run dec now (OpDisconnect k) s = s\<lparr>ws_rooms := filter (\<lambda>x. snd x \<noteq> k) (ws_rooms s)\<rparr>"
    and "subs_of s k = []"
    by (simp_all add: handleDisconnect_def subs_of_def)
  moreover from this assms(2) have "\<not> subscribed as k c" for c
    by (metis empty_iff list.set(1) ws_agrees_def)
  ultimately show ?thesis using assms by (auto simp: ws_ok_def ws_agrees_def)
next
  case (Some cs)
  define t where "t = ws_op_run dec now (OpDisconnect k) s"
  have cs: "subs_of s k = cs" by (simp add: subs_of_def Some)
  have d: "distinct cs" "\<forall>c \<in> set cs. 1 \<le> count_of 0 c (ws_refCount s)" "distinct (map fst (ws_refCount s))"
    using assms(1) held_counts [OF assms(1), of _ k] by (auto simp: ws_ok_def cs [symmetric])
  note dropped = dropped_counts [OF d, of k]
  have t: "subs_of t = (subs_of s)(k := [])" "distinct (map fst (ws_refCount t))"
    "count_of 0 c (ws_refCount t) = count_of 0 c (ws_refCount s) - (if c \<in> set cs then 1 else 0)"
    "set (ws_rooms t) = {x \<in> set (ws_rooms s). snd x \<noteq> k}" for c
    using dropped by (auto simp: t_def handleDisconnect_def Some Let_def drop_books_def [symmetric] subs_of_def fun_eq_iff delete_conv')
  have "int (card (holders ((subs_of s)(k := [])) c)) =
      int (card (holders (subs_of s) c)) - (if c \<in> set cs then 1 else 0)" for c
    using card_drop [OF finite_holders, of k s c] by (auto simp: holders_update) (auto simp: holders_def cs)
  then have "ws_ok t"
    using assms(1) unfolding ws_ok_def t(1,3) by (auto simp: t(2))
  moreover have "ws_agrees (OpDisconnect k # as) t"
    using assms(2) unfolding ws_agrees_def t(1,4) by auto
  ultimately show ?thesis unfolding t_def by blast
qed

lemma history_ok: "ws_ok (ws_history dec now as) \<and> ws_agrees as (ws_history dec now as)"
proof (induction as)
  case Nil
  show ?case by (simp add: ws_start_def ws_ok_def ws_agrees_def subs_of_def holders_def count_of_def)
next
  case (Cons a as)
  then have s: "ws_ok (ws_history dec now as)" "ws_agrees as (ws_history dec now as)" by simp_all
  have k: "ws_ok t \<and> ws_agrees (a # as) t"
    if "subs_of t = subs_of (ws_history dec now as)" "ws_refCount t = ws_refCount (ws_history dec now as)"
      "\<forall>c k. (book_room c, k) \<in> set (ws_rooms t) \<longleftrightarrow> (book_room c, k) \<in> set (ws_rooms (ws_history dec now as))"
      "\<forall>k c. subscribed (a # as) k c = subscribed as k c" for t
    using s that by (simp add: ws_ok_def ws_agrees_def)
  show ?case
  proof (cases a)
    case (OpBookSub d raw k)
    then show ?thesis using book_sub_ok [OF s] by simp
  next
    case (OpBookUnsub d raw k)
    then show ?thesis using book_unsub_ok [OF s] by simp
  next
    case (OpDisconnect k)
    then show ?thesis using disconnect_ok [OF s] by simp
  next
    case (OpTradesSub d raw k)
    then show ?thesis
      by (intro k) (auto simp: handleTradesSub_def Let_def split: option.split)
  next
    case (OpTradesUnsub d raw k)
    then show ?thesis
      by (intro k) (auto simp: handleTradesUnsub_def Let_def split: option.split)
  next
    case (OpOrdersSub ad k)
    then show ?thesis by (intro k) (auto simp: handleOrdersSub_def Let_def)
  next
    case (OpOrdersUnsub ad k)
    then show ?thesis by (intro k) (auto simp: handleOrdersUnsub_def Let_def)
  qed
qed

section \<open>The ladder of a broadcast\<close>

definition plain_level :: "order_row list \<Rightarrow> side \<Rightarrow> int \<Rightarrow> ob_level" where
  "plain_level rs sd p = \<lparr>ob_priceTicks = big_to_string p, ob_sizeBase = big_to_string (resting rs sd p)\<rparr>"

definition best_bids :: "order_row list \<Rightarrow> ob_level list" where
  "best_bids rs = map (plain_level rs BUY) (take 25 (rev (sorted_list_of_set (side_prices rs BUY))))"

definition best_asks :: "order_row list \<Rightarrow> ob_level list" where
  "best_asks rs = map (plain_level rs SELL) (take 25 (sorted_list_of_set (side_prices rs SELL)))"

lemma ws_snapshot_exact:
  assumes "\<forall>r \<in> set (open_rows d i). str_to_bigint (dec (o_remaining r)) = Inr (o_remaining r)"
  shows "ws_snapshot dec d i = Inr (best_bids (open_rows d i), best_asks (open_rows d i))"
proof -
  let ?of = "\<lambda>sd. filter (\<lambda>r. o_side r = sd) (open_rows d i)"
  have r: "total_at (?of sd) p = resting (open_rows d i) sd p"
    "o_priceTicks ` set (?of sd) = side_prices (open_rows d i) sd" for sd p
    by (simp_all add: total_at_def resting_def side_prices_def conj_commute)
  show ?thesis
    using ladder_exact [OF sorted_prices(1), of 25 "?of SELL", unfolded r]
      ladder_exact [OF sorted_prices(2), of 25 "?of BUY", unfolded r]
    by (simp add: ws_snapshot_def ladder_maps_tally [OF assms] best_bids_def best_asks_def plain_level_def [abs_def])
qed

lemma received_simps [simp]:
  "received k s [] = []"
  "received k s (ToRoom room e # outs) =
    (if (room, k) \<in> set (ws_rooms s) then e # received k s outs else received k s outs)"
  by (simp_all add: received_def List.map_filter_def)

lemma broadcast_received:
  assumes "\<forall>i. ws_snapshot dec d i = Inr (bs i, as i)" and "distinct cs"
    and "bySymbol c = Some i" and "i \<noteq> []"
  shows "filter (book_for c) (received k s (fst (broadcast_each dec now d bySymbol cs))) =
    (if c \<in> set cs \<and> (book_room c, k) \<in> set (ws_rooms s) then [Book c now (bs i) (as i)] else [])"
  using assms(2)
proof (induction cs)
  case (Cons b cs)
  then show ?case
    using assms(3,4)
    by (cases "broadcast_each dec now d bySymbol cs")
      (auto simp: assms(1) book_for_def split: option.split)
qed simp

lemma listed_id:
  assumes "distinct (map mk_symbol ms)" and "row_by mk_symbol c ms = Some m" and "c \<in> A"
  shows "map_of (rev (map (\<lambda>m. (mk_symbol m, mk_id m)) (filter (\<lambda>m. mk_symbol m \<in> A) ms))) c = Some (mk_id m)"
proof -
  have m: "m \<in> set ms" "mk_symbol m = c"
    using assms(2) by (auto simp: row_by_def find_Some_iff)
  let ?l = "map (\<lambda>m. (mk_symbol m, mk_id m)) (filter (\<lambda>m. mk_symbol m \<in> A) ms)"
  have "distinct (map fst ?l)"
    using assms(1) distinct_filter by (simp add: o_def distinct_map inj_on_def)
  then have "distinct (map fst (rev ?l))" by (simp add: rev_map [symmetric] del: rev_map)
  moreover have "(c, mk_id m) \<in> set (rev ?l)" using m assms(3) by force
  ultimately show ?thesis by (rule map_of_is_SomeI)
qed

lemma inactive_silent:
  assumes "\<forall>i. ws_snapshot dec d i = Inr (bs i, as i)" "c \<notin> set cs"
  shows "filter (book_for c) (received k s (fst (broadcast_each dec now d by' cs))) = []"
  using assms(2)
proof (induction cs)
  case (Cons b cs)
  then show ?case
    using assms(1) by (cases "broadcast_each dec now d by' cs") (auto simp: book_for_def split: option.split)
qed simp

text \<open>A symbol that is no market is never sent, and nothing but ladders is.\<close>

lemma unknown_silent:
  assumes "\<forall>i. ws_snapshot dec d i = Inr (bs i, as i)" "by' c = None"
  shows "filter (book_for c) (received k s (fst (broadcast_each dec now d by' cs))) = []"
proof (induction cs)
  case (Cons b cs)
  then show ?case
    using assms by (cases "broadcast_each dec now d by' cs") (auto simp: book_for_def split: option.split)
qed simp

lemma broadcast_ladders:
  assumes "\<forall>i. ws_snapshot dec d i = Inr (bs i, as i)"
  shows "snd (broadcast_each dec now d by' cs) = Inr () \<and>
    (\<forall>e \<in> set (received k s (fst (broadcast_each dec now d by' cs))). \<exists>c. book_for c e)"
proof (induction cs)
  case (Cons b cs)
  then show ?case
    using assms by (cases "broadcast_each dec now d by' cs") (auto simp: book_for_def split: option.split)
qed simp

text \<open>
  C15. The live feed follows the subscriptions. After any history of requests and disconnects,
  whatever is repeated, in whatever case a symbol is written and however late a request is handled,
  a broadcast gives every socket exactly one ladder for every listed symbol it is subscribed to,
  where the last request of the socket about that symbol decides: the exact sizes of the open rows,
  best price first, at most 25 levels a side. It gives none for any other symbol, listed or not, and
  no other event, and it does not throw. The count of a symbol is never below the number of its
  subscribers.
\<close>

theorem live_feed_follows_subscriptions:
  assumes "distinct (map mk_symbol (d_markets d))" and "[] \<notin> mk_id ` set (d_markets d)"
    and "\<forall>r \<in> set (d_orders d). str_to_bigint (dec (o_remaining r)) = Inr (o_remaining r)"
    and "s = ws_history dec' now' as"
  shows "(\<forall>k c. filter (book_for c) (received k s (fst (snd (ws_tick dec now d s)))) =
        (case row_by mk_symbol c (d_markets d) of
           Some m \<Rightarrow>
             if subscribed as k c then [Book c now (best_bids (open_rows d (mk_id m))) (best_asks (open_rows d (mk_id m)))]
             else []
         | None \<Rightarrow> [])) \<and>
    (\<forall>k. \<forall>e \<in> set (received k s (fst (snd (ws_tick dec now d s)))). \<exists>c. book_for c e) \<and>
    snd (snd (ws_tick dec now d s)) = Inr () \<and>
    (\<forall>c. int (card {k. subscribed as k c}) \<le> count_of 0 c (ws_refCount s))"
proof (intro conjI allI)
  have ok: "ws_ok s" and ag: "ws_agrees as s" using history_ok assms(4) by auto
  have h: "holders (subs_of s) c = {k. subscribed as k c}" for c
    using ag by (auto simp: holders_def ws_agrees_def)
  show "int (card {k. subscribed as k c}) \<le> count_of 0 c (ws_refCount s)" for c
    using ok by (simp add: ws_ok_def h)
  let ?by = "map_of (rev (map (\<lambda>m. (mk_symbol m, mk_id m))
    (filter (\<lambda>m. mk_symbol m \<in> set (active_symbols s)) (d_markets d))))"
  have snap: "\<forall>i. ws_snapshot dec d i = Inr (best_bids (open_rows d i), best_asks (open_rows d i))"
    using assms(3) by (intro allI ws_snapshot_exact) (simp add: open_rows_def)
  have out: "snd (ws_tick dec now d s) = broadcast_each dec now d ?by (active_symbols s)"
    by (simp add: ws_tick_def Let_def)
  show "\<forall>e \<in> set (received k s (fst (snd (ws_tick dec now d s)))). \<exists>c. book_for c e"
    "snd (snd (ws_tick dec now d s)) = Inr ()" for k
    using broadcast_ladders [OF snap] by (simp_all add: out)
  fix k c
  have room: "(book_room c, k) \<in> set (ws_rooms s) \<longleftrightarrow> subscribed as k c" using ag by (simp add: ws_agrees_def)
  have dist: "distinct (active_symbols s)"
    using ok by (auto simp: ws_ok_def active_symbols_def distinct_map inj_on_def)
  have act: "c \<in> set (active_symbols s)" if "subscribed as k c"
  proof -
    have "1 \<le> count_of 0 c (ws_refCount s)" using held_counts [OF ok] ag that by (simp add: ws_agrees_def)
    then obtain n where "(c, n) \<in> set (ws_refCount s)" "0 < n"
      by (auto simp: count_of_def split: option.splits dest: map_of_SomeD)
    then show ?thesis by (force simp: active_symbols_def)
  qed
  show "filter (book_for c) (received k s (fst (snd (ws_tick dec now d s)))) =
      (case row_by mk_symbol c (d_markets d) of
         Some m \<Rightarrow>
           if subscribed as k c then [Book c now (best_bids (open_rows d (mk_id m))) (best_asks (open_rows d (mk_id m)))]
           else []
       | None \<Rightarrow> [])"
  proof (cases "row_by mk_symbol c (d_markets d)")
    case None
    then have "c \<notin> mk_symbol ` set (d_markets d)" by (auto simp: row_by_None_iff)
    then have "?by c = None" by (auto simp: map_of_eq_None_iff)
    from unknown_silent [of dec d "\<lambda>i. best_bids (open_rows d i)" "\<lambda>i. best_asks (open_rows d i)" ?by c, OF snap this] show ?thesis by (simp add: out None)
  next
    case m: (Some m)
    show ?thesis
    proof (cases "c \<in> set (active_symbols s)")
      case True
      have "m \<in> set (d_markets d)" using m by (auto simp: row_by_def find_Some_iff)
      then have "mk_id m \<noteq> []" using assms(2) by force
      from broadcast_received [of dec d "\<lambda>i. best_bids (open_rows d i)" "\<lambda>i. best_asks (open_rows d i)"
          "active_symbols s" ?by c "mk_id m" k s now, OF snap dist listed_id [OF assms(1) m True] this] act show ?thesis
        by (simp add: out room True m)
    next
      case False
      from inactive_silent [OF snap this] False act show ?thesis by (auto simp: out m)
    qed
  qed
qed


definition sample_history :: "ws_op list" where
  "sample_history = [OpDisconnect ''k3'', OpBookUnsub sample_public ''b-q'' ''k2'', OpBookSub sample_public ''B-q '' ''k1'',
     OpBookSub sample_public ''B-Q'' ''k2'', OpBookSub sample_public ''B-Q'' ''k1'', OpBookSub sample_public ''B-Q'' ''k3'']"

theorem live_feed_follows_subscriptions_witness:
  "\<exists>s b a. filter (book_for ''B-Q'') (received ''k1'' s (fst (snd (ws_tick big_to_string 0 sample_public s)))) =
      [Book ''B-Q'' 0 b a] \<and>
    filter (book_for ''B-Q'') (received ''k2'' s (fst (snd (ws_tick big_to_string 0 sample_public s)))) = []"
proof -
  let ?s = "ws_history big_to_string 0 sample_history"
  obtain m where m: "row_by mk_symbol ''B-Q'' (d_markets sample_public) = Some m" by (simp add: sample_public_def)
  have w: "distinct (map mk_symbol (d_markets sample_public))" "[] \<notin> mk_id ` set (d_markets sample_public)"
    "\<forall>r \<in> set (d_orders sample_public). str_to_bigint (big_to_string (o_remaining r)) = Inr (o_remaining r)"
    by (simp_all add: sample_public_def)
  have "subscribed sample_history ''k1'' ''B-Q''" "\<not> subscribed sample_history ''k2'' ''B-Q''" by code_simp+
  with live_feed_follows_subscriptions [OF w refl, of big_to_string 0 sample_history 0] m show ?thesis
    by (intro exI [of _ ?s]) auto
qed

text \<open>A socket that subscribes twice is counted twice and released once, so the symbol stays active.\<close>

lemma repeated_subscription_leaks:
  "ws_refCount (ws_history big_to_string 0
     [OpDisconnect ''k'', OpBookSub sample_public ''B-Q'' ''k'', OpBookSub sample_public ''B-Q'' ''k'']) = [(''B-Q'', 1)]"
  by code_simp

end
