(* ===== verification/SeaForm.thy ===== *)
theory SeaForm
  imports WebForm
begin

text \<open>
  The conditional form of the web application, under \<open>apps/web/src\<close>: the fields and their checks
  (\<open>lib/number.ts\<close>, \<open>components/ConditionalTab.tsx\<close>), the messages a wallet signs (\<open>lib/sea.ts\<close>) and
  the creation and cancellation of an intent (\<open>hooks/useSeaCreate.ts\<close>). What is posted is the body
  of the request, the signature of a conditional limit being a string or, after the fallback, an
  object. The clock is read once per use; the chain id of the environment is a natural number.
\<close>

section \<open>Decimal input\<close>

text \<open>The first comma becomes a dot, and anything but digits and dots goes.\<close>

fun comma_to_dot :: "string \<Rightarrow> string" where
  "comma_to_dot [] = []"
| "comma_to_dot (c # s) = (if c = CHR '','' then CHR ''.'' # s else c # comma_to_dot s)"

definition is_dec :: "char \<Rightarrow> bool" where
  "is_dec c \<longleftrightarrow> 48 \<le> code c \<and> code c \<le> 57"

definition is_dot :: "char \<Rightarrow> bool" where
  "is_dot c \<longleftrightarrow> c = CHR ''.''"

text \<open>\<open>int.replace(/^0+(?=[0-9])/, '')\<close> of a string of digits: one digit is left.\<close>

fun strip_zeros :: "string \<Rightarrow> string" where
  "strip_zeros (c # d # s) = (if c = CHR ''0'' then strip_zeros (d # s) else c # d # s)"
| "strip_zeros s = s"

definition sanitizeDecimal :: "string \<Rightarrow> int \<Rightarrow> bool \<Rightarrow> string" where
  "sanitizeDecimal input maxDecimals allowTrailingDot =
    (let s = filter (\<lambda>c. is_dec c \<or> is_dot c) (comma_to_dot input)
     in if s = [] then []
        else
          let s1 = (if is_dot (hd s) then CHR ''0'' # s else s);
              whole = takeWhile (\<lambda>c. \<not> is_dot c) s1;
              dotted = dropWhile (\<lambda>c. \<not> is_dot c) s1 \<noteq> [];
              frac = filter (\<lambda>c. \<not> is_dot c) (dropWhile (\<lambda>c. \<not> is_dot c) s1);
              n = strip_zeros whole;
              d = (if 0 \<le> maxDecimals then take (nat maxDecimals) frac else frac)
          in if dotted \<and> frac = [] \<and> allowTrailingDot then n @ ''.''
             else if d \<noteq> [] then n @ ''.'' @ d else n)"

section \<open>Messages\<close>

text \<open>The values of \<open>CmrOwnerAuthInput\<close>; numbers are printed by \<open>String\<close>.\<close>

definition web_cmr_message ::
  "(jnum \<Rightarrow> string) \<Rightarrow> int \<Rightarrow> string \<Rightarrow> string \<Rightarrow> side \<Rightarrow> string \<Rightarrow> tif option \<Rightarrow> trigger \<Rightarrow> int \<Rightarrow> string" where
  "web_cmr_message other chainId owner marketId sd sizeBase tf t expiresAtUnix =
    (let tif = (case tf of Some y \<Rightarrow> y | None \<Rightarrow> IOC);
         trig = trigger_type_str (tr_type t) @ '':'' @ ref_kind_str (tr_reference t) @ '':'' @ tr_priceTicks t
     in join_bar
       [''SEA-CMR-INTENT'', ''v=1'', ''chainId='' @ num_string other (num chainId), ''owner='' @ to_lower owner,
        ''marketId='' @ marketId, ''side='' @ side_str sd, ''sizeBase='' @ sizeBase, ''tif='' @ tif_str tif,
        ''trigger='' @ trig, ''expiresAtUnix='' @ num_string other (num expiresAtUnix)])"

definition buildCancelIntentMessage :: "(jnum \<Rightarrow> string) \<Rightarrow> int \<Rightarrow> string \<Rightarrow> string \<Rightarrow> string" where
  "buildCancelIntentMessage other chainId owner intentId =
    join_bar [''SEA-CANCEL-INTENT'', ''v=1'', ''chainId='' @ num_string other (num chainId),
      ''owner='' @ to_lower owner, ''intentId='' @ intentId]"

definition buildWalletLockMessage :: "(jnum \<Rightarrow> string) \<Rightarrow> string \<Rightarrow> string \<Rightarrow> int \<Rightarrow> string \<Rightarrow> string \<Rightarrow> string" where
  "buildWalletLockMessage other intentId owner chainId lockNonce walletLockUntilAt =
    join_bar [''sea:wallet-lock'', intentId, to_lower owner, num_string other (num chainId), lockNonce, walletLockUntilAt]"

section \<open>Creating and cancelling\<close>

record sea_wallet = wallet +
  wl_signMessage :: "string \<Rightarrow> string result"

definition priceHumanToTicks :: "units \<Rightarrow> web_market \<Rightarrow> string \<Rightarrow> int result" where
  "priceHumanToTicks u m priceHuman =
    bind_res (un_parse u priceHuman (wm_quoteDecimals m)) (\<lambda>priceScaled.
    bind_res (str_to_bigint (wm_priceTickQ m)) (\<lambda>tickQ.
      if tickQ \<le> 0 then Inl (PlainError ''invalid_price_tickQ'') else Inr (tdiv priceScaled tickQ)))"

definition naturalRefAndType :: "side \<Rightarrow> ref_kind \<times> trigger_type" where
  "naturalRefAndType sd = (case sd of BUY \<Rightarrow> (BEST_ASK, PRICE_BELOW) | SELL \<Rightarrow> (BEST_BID, PRICE_ABOVE))"

record ai_meta =
  am_rawText :: string
  am_parserMeta :: jval

record create_params =
  cp_side :: side
  cp_sizeBaseHuman :: string
  cp_limitPriceHuman :: string
  cp_triggerPriceHuman :: string
  cp_expirySec :: "int option"
  cp_tif :: "tif option"
  cp_expiresAtUnix :: int
  cp_meta :: "ai_meta option"

definition raw_text :: "create_params \<Rightarrow> string option" where
  "raw_text p = (case cp_meta p of Some a \<Rightarrow> if am_rawText a = [] then None else Some (am_rawText a) | None \<Rightarrow> None)"

definition parser_meta :: "create_params \<Rightarrow> jval" where
  "parser_meta p = (case cp_meta p of Some a \<Rightarrow> am_parserMeta a | None \<Rightarrow> JUndef)"

text \<open>What goes to \<open>POST /sea/intents\<close>: a body, or a body whose signature is an object.\<close>

datatype posted_intent = Posted create_body | PostedTuple create_body zx_sig

definition connected :: "sea_wallet \<Rightarrow> string result" where
  "connected w = (case wl_address w of
     None \<Rightarrow> Inl (PlainError ''Connect wallet first.'')
   | Some a \<Rightarrow> if a = [] then Inl (PlainError ''Connect wallet first.'') else Inr a)"

definition ZEROEX_EXPIRY_BUFFER_SECS :: int where
  "ZEROEX_EXPIRY_BUFFER_SECS = 120"

definition intent_ttl :: "int option \<Rightarrow> int" where
  "intent_ttl e = (case e of Some n \<Rightarrow> if 0 < n then n else 86400 | None \<Rightarrow> 86400)"

definition web_trigger :: "side \<Rightarrow> int \<Rightarrow> trigger" where
  "web_trigger sd ticks = \<lparr>tr_type = snd (naturalRefAndType sd), tr_reference = fst (naturalRefAndType sd),
     tr_priceTicks = big_to_string ticks\<rparr>"

definition cl_body ::
  "web_market \<Rightarrow> create_params \<Rightarrow> string \<Rightarrow> jval \<Rightarrow> string \<Rightarrow> int \<Rightarrow> int \<Rightarrow> int \<Rightarrow> int \<Rightarrow> create_body" where
  "cl_body m p address order digest sizeBase limitTicks triggerTicks expiresAt =
    \<lparr>cb_owner = address,
     cb_intent = CL_Intent (wm_symbol m) (cp_side p) (big_to_string sizeBase) (big_to_string limitTicks)
       (web_trigger (cp_side p) triggerTicks) (AtUnix expiresAt),
     cb_zeroExOrder = order, cb_signature = None, cb_preSignedOrderHash = Some digest,
     cb_ownerAuth = None, cb_rawText = raw_text p, cb_parserMeta = parser_meta p\<rparr>"

definition post_cl :: "create_body \<Rightarrow> string + zx_sig \<Rightarrow> posted_intent" where
  "post_cl body sg =
    (case sg of Inl t \<Rightarrow> Posted (body\<lparr>create_body.cb_signature := Some t\<rparr>) | Inr t \<Rightarrow> PostedTuple body t)"

text \<open>\<open>nowMs\<close> is the clock of the hook, \<open>buildMs\<close> the one \<open>buildOrder\<close> reads after it.\<close>

definition createCL ::
  "units \<Rightarrow> penv \<Rightarrow> (jnum \<Rightarrow> string) \<Rightarrow> sea_wallet \<Rightarrow> int \<Rightarrow> int \<Rightarrow> int \<Rightarrow> web_market \<Rightarrow> create_params \<Rightarrow>
    posted_intent result" where
  "createCL u pe other w nowMs buildMs rand96 m p =
    bind_res (connected w) (\<lambda>address.
      let ttl = intent_ttl (cp_expirySec p);
          expiresAt = nowMs div 1000 + ttl;
          q = \<lparr>pp_side = cp_side p, pp_sizeBaseHuman = cp_sizeBaseHuman p, pp_priceHuman = cp_limitPriceHuman p,
               pp_expirySec = Some (num (ttl + ZEROEX_EXPIRY_BUFFER_SECS)), pp_postOnly = False\<rparr>
      in
      bind_res (wl_domain w) (\<lambda>domain.
      bind_res (build_order u pe other buildMs rand96 m q address) (\<lambda>order.
      bind_res (wl_sign712 w domain order) (\<lambda>sig712.
      bind_res (wl_digest w domain order) (\<lambda>digest.
      bind_res (wl_recover w digest sig712) (\<lambda>recovered.
      bind_res (if to_lower recovered = to_lower address then Inr (Inl sig712)
                else bind_res (wl_personalSign w digest) (\<lambda>sigEth. bind_res (splitSigHex sigEth) (\<lambda>t. Inr (Inr t)))) (\<lambda>sg.
      bind_res (un_parse u (cp_sizeBaseHuman p) (wm_baseDecimals m)) (\<lambda>sizeBase.
      bind_res (priceHumanToTicks u m (cp_limitPriceHuman p)) (\<lambda>limitTicks.
      bind_res (priceHumanToTicks u m (cp_triggerPriceHuman p)) (\<lambda>triggerTicks.
        Inr (post_cl (cl_body m p address order digest sizeBase limitTicks triggerTicks expiresAt) sg)))))))))))"

definition createCMR ::
  "units \<Rightarrow> (jnum \<Rightarrow> string) \<Rightarrow> sea_wallet \<Rightarrow> int \<Rightarrow> web_market \<Rightarrow> create_params \<Rightarrow> posted_intent result" where
  "createCMR u other w chainId m p =
    bind_res (connected w) (\<lambda>address.
    bind_res (un_parse u (cp_sizeBaseHuman p) (wm_baseDecimals m)) (\<lambda>sizeBase.
    bind_res (priceHumanToTicks u m (cp_triggerPriceHuman p)) (\<lambda>triggerTicks.
      let tif = (case cp_tif p of Some y \<Rightarrow> y | None \<Rightarrow> IOC);
          t = web_trigger (cp_side p) triggerTicks;
          message = web_cmr_message other chainId address (wm_symbol m) (cp_side p) (big_to_string sizeBase)
            (Some tif) t (cp_expiresAtUnix p)
      in bind_res (wl_signMessage w message) (\<lambda>signature.
           Inr (Posted \<lparr>cb_owner = address,
             cb_intent = CMR_Intent (wm_symbol m) (cp_side p) (big_to_string sizeBase) (Some tif) t (AtUnix (cp_expiresAtUnix p)),
             cb_zeroExOrder = JUndef, cb_signature = None, cb_preSignedOrderHash = None,
             cb_ownerAuth = Some signature, cb_rawText = raw_text p, cb_parserMeta = parser_meta p\<rparr>)))))"

definition cancelById :: "(jnum \<Rightarrow> string) \<Rightarrow> sea_wallet \<Rightarrow> int \<Rightarrow> string \<Rightarrow> (string \<times> string) result" where
  "cancelById other w chainId intentId =
    bind_res (connected w) (\<lambda>address.
    bind_res (wl_signMessage w (buildCancelIntentMessage other chainId address intentId)) (\<lambda>signature.
      Inr (intentId, signature)))"


section \<open>The form\<close>

record applied_draft =
  ad_subMode :: sub_mode
  ad_marketSymbol :: string
  ad_side :: side
  ad_sizeHuman :: string
  ad_triggerPriceHuman :: string
  ad_limitPriceHuman :: "string option"
  ad_rawText :: string
  ad_model :: string
  ad_requestId :: string

record sea_form =
  sf_subMode :: sub_mode
  sf_side :: side
  sf_sizeHuman :: string
  sf_triggerPriceHuman :: string
  sf_limitPriceHuman :: string
  sf_cmrExpirySec :: int
  sf_clExpirySec :: int
  sf_aiApplied :: "applied_draft option"

definition CMR_EXPIRY_PRESETS :: "int list" where
  "CMR_EXPIRY_PRESETS = [60 * 60, 6 * 60 * 60, 24 * 60 * 60, 3 * 24 * 60 * 60]"

definition CL_EXPIRY_PRESETS :: "int list" where
  "CL_EXPIRY_PRESETS = [60 * 60, 6 * 60 * 60, 24 * 60 * 60, 7 * 24 * 60 * 60]"

definition onApplyDraft :: "applied_draft \<Rightarrow> sea_form \<Rightarrow> sea_form" where
  "onApplyDraft d f =
    f\<lparr>sf_side := ad_side d, sf_sizeHuman := ad_sizeHuman d, sf_triggerPriceHuman := ad_triggerPriceHuman d,
      sf_limitPriceHuman := (case ad_limitPriceHuman d of Some p \<Rightarrow> p | None \<Rightarrow> sf_limitPriceHuman f),
      sf_aiApplied := Some d\<rparr>"

definition isPriceTickAligned :: "units \<Rightarrow> web_market \<Rightarrow> string \<Rightarrow> bool" where
  "isPriceTickAligned u m priceHuman =
    (if priceHuman = [] \<or> priceHuman = ''0'' then False
     else case bind_res (parsePriceScaled u priceHuman (wm_quoteDecimals m)) (\<lambda>priceScaled.
       if priceScaled \<le> 0 then Inr False
       else bind_res (str_to_bigint (wm_priceTickQ m)) (\<lambda>tickQ.
         if tickQ \<le> 0 then Inr False else bind_res (big_rem priceScaled tickQ) (\<lambda>r. Inr (r = 0)))) of
       Inl e \<Rightarrow> False
     | Inr b \<Rightarrow> b)"

text \<open>The hints; the market is selected.\<close>

definition hint :: "units \<Rightarrow> string \<Rightarrow> nat \<Rightarrow> string \<Rightarrow> string" where
  "hint u n decimals symbol = (case str_to_bigint n of Inl e \<Rightarrow> [] | Inr k \<Rightarrow> un_format u k decimals @ '' '' @ symbol)"

definition tickHint :: "units \<Rightarrow> web_market \<Rightarrow> string" where
  "tickHint u m = hint u (wm_priceTickQ m) (wm_quoteDecimals m) (wm_quoteSymbol m)"

definition minSizeHint :: "units \<Rightarrow> web_market \<Rightarrow> string" where
  "minSizeHint u m = hint u (wm_minSizeB m) (wm_baseDecimals m) (wm_baseSymbol m)"

record form_errors =
  fe_size :: "string option"
  fe_trigger :: "string option"
  fe_limit :: "string option"

definition or_assign :: "string option \<Rightarrow> string \<Rightarrow> string option" where
  "or_assign old msg = (case old of None \<Rightarrow> Some msg | Some x \<Rightarrow> Some x)"

definition sort_error :: "string \<Rightarrow> form_errors \<Rightarrow> form_errors" where
  "sort_error msg e =
    (if starts_with msg ''Min size:'' then e\<lparr>fe_size := or_assign (fe_size e) msg\<rparr>
     else if starts_with msg ''Min notional:'' then e\<lparr>fe_limit := or_assign (fe_limit e) msg\<rparr>
     else if starts_with msg ''Price must be multiple of tick:'' then e\<lparr>fe_limit := or_assign (fe_limit e) msg\<rparr>
     else e\<lparr>fe_size := or_assign (fe_size e) msg\<rparr>)"

definition no_errors :: form_errors where
  "no_errors = \<lparr>fe_size = None, fe_trigger = None, fe_limit = None\<rparr>"

definition trigger_error :: "units \<Rightarrow> web_market \<Rightarrow> string \<Rightarrow> form_errors \<Rightarrow> form_errors" where
  "trigger_error u m trigger e =
    (if isPriceTickAligned u m trigger then e
     else e\<lparr>fe_trigger := Some (''Trigger price must be a multiple of tick: '' @ tickHint u m)\<rparr>)"

definition cl_errors :: "units \<Rightarrow> web_market \<Rightarrow> sea_form \<Rightarrow> form_errors result" where
  "cl_errors u m f =
    bind_res (validateLimitInput u m (sf_sizeHuman f) (sf_limitPriceHuman f)) (\<lambda>v.
      Inr (trigger_error u m (sf_triggerPriceHuman f)
        (if li_ok v then no_errors else fold sort_error (li_errors v) no_errors)))"

definition cmr_errors :: "units \<Rightarrow> web_market \<Rightarrow> sea_form \<Rightarrow> form_errors result" where
  "cmr_errors u m f =
    (let parsed = parseSizeWei u (sf_sizeHuman f) (wm_baseDecimals m);
         sizeWei = (case parsed of Inr n \<Rightarrow> n | Inl e \<Rightarrow> 0);
         e0 = (case parsed of Inr n \<Rightarrow> no_errors | Inl e \<Rightarrow> no_errors\<lparr>fe_size := Some ''Invalid size''\<rparr>)
     in bind_res (str_to_bigint (wm_minSizeB m)) (\<lambda>minSizeB.
          let e1 = (if sizeWei \<le> 0 \<or> sizeWei < minSizeB then e0\<lparr>fe_size := Some (''Min size: '' @ minSizeHint u m)\<rparr> else e0)
          in Inr (trigger_error u m (sf_triggerPriceHuman f) e1)))"

definition form_ok :: "sub_mode \<Rightarrow> form_errors \<Rightarrow> bool" where
  "form_ok sm e \<longleftrightarrow> fe_size e = None \<and> fe_trigger e = None \<and> (sm = CMR_mode \<or> fe_limit e = None)"

text \<open>The check of a render; an exception of it is the component's.\<close>

definition form_validation :: "units \<Rightarrow> web_market option \<Rightarrow> sea_form \<Rightarrow> (form_errors \<times> bool) result" where
  "form_validation u mkt f =
    (case mkt of
       None \<Rightarrow> Inr (no_errors, False)
     | Some m \<Rightarrow>
         bind_res (case sf_subMode f of CL_mode \<Rightarrow> cl_errors u m f | CMR_mode \<Rightarrow> cmr_errors u m f) (\<lambda>e.
           Inr (e, form_ok (sf_subMode f) e)))"

text \<open>The draft still matches the form: any later edit detaches its provenance.\<close>

definition draft_matches :: "web_market \<Rightarrow> sea_form \<Rightarrow> applied_draft \<Rightarrow> bool" where
  "draft_matches m f d \<longleftrightarrow> ad_subMode d = sf_subMode f \<and> ad_marketSymbol d = wm_symbol m \<and> ad_side d = sf_side f \<and>
    ad_sizeHuman d = sf_sizeHuman f \<and> ad_triggerPriceHuman d = sf_triggerPriceHuman f \<and>
    (sf_subMode f = CMR_mode \<or> ad_limitPriceHuman d = Some (sf_limitPriceHuman f))"

definition ai_meta_of :: "web_market \<Rightarrow> sea_form \<Rightarrow> ai_meta option" where
  "ai_meta_of m f =
    (case sf_aiApplied f of
       None \<Rightarrow> None
     | Some d \<Rightarrow>
         if draft_matches m f d
         then Some \<lparr>am_rawText = ad_rawText d, am_parserMeta = JObj
           [(''source'', JStr ''ai''), (''model'', JStr (ad_model d)), (''requestId'', JStr (ad_requestId d)),
            (''schemaVersion'', JNum (num 1))]\<rparr>
         else None)"

datatype submitted = AskConnect | RefusedReadOnly | FixFields | Sent posted_intent

definition params_of :: "web_market \<Rightarrow> int \<Rightarrow> sea_form \<Rightarrow> create_params" where
  "params_of m nowMs f =
    \<lparr>cp_side = sf_side f, cp_sizeBaseHuman = sf_sizeHuman f, cp_limitPriceHuman = sf_limitPriceHuman f,
     cp_triggerPriceHuman = sf_triggerPriceHuman f, cp_expirySec = Some (sf_clExpirySec f), cp_tif = Some FOK,
     cp_expiresAtUnix = nowMs div 1000 + sf_cmrExpirySec f, cp_meta = ai_meta_of m f\<rparr>"

definition sea_onSubmit ::
  "units \<Rightarrow> penv \<Rightarrow> (jnum \<Rightarrow> string) \<Rightarrow> sea_wallet \<Rightarrow> bool \<Rightarrow> int \<Rightarrow> int \<Rightarrow> int \<Rightarrow> int \<Rightarrow> web_market option \<Rightarrow>
    sea_form \<Rightarrow> submitted result" where
  "sea_onSubmit u pe other w readOnly chainId nowMs buildMs rand96 mkt f =
    bind_res (form_validation u mkt f) (\<lambda>v.
    case mkt of
      None \<Rightarrow> Inr AskConnect
    | Some m \<Rightarrow>
        if blank (wl_address w) then Inr AskConnect
        else if readOnly then Inr RefusedReadOnly
        else if \<not> snd v then Inr FixFields
        else bind_res (case sf_subMode f of
            CL_mode \<Rightarrow> createCL u pe other w nowMs buildMs rand96 m (params_of m nowMs f)
          | CMR_mode \<Rightarrow> createCMR u other w chainId m (params_of m nowMs f)) (\<lambda>b. Inr (Sent b)))"

end
