(* ===== verification/SeaFormProps.thy ===== *)
theory SeaFormProps
  imports SeaForm WebProps AiProps
begin

text \<open>
  The conditional form and the create validator of the API agree: what the form lets through and an
  honest wallet signs is what the API accepts.
\<close>

section \<open>Numbers\<close>

lemma split_at_absent:
  assumes "\<forall>c \<in> set s. \<not> p c"
  shows "split_at p s = (s, None)"
proof -
  have "takeWhile (\<lambda>c. \<not> p c) s = s" and "dropWhile (\<lambda>c. \<not> p c) s = []"
    using assms by (simp_all add: takeWhile_eq_all_conv dropWhile_eq_Nil_conv)
  then show ?thesis by (simp add: split_at_def)
qed

lemma str_to_num_big: "0 \<le> n \<Longrightarrow> str_to_num (big_to_string n) = num n"
proof -
  assume n: "0 \<le> n"
  let ?d = "nat_digits n"
  have c: "\<forall>c \<in> set ?d. 48 \<le> code c \<and> code c \<le> 57" using n by (intro nat_digits_codes) simp
  then have t: "trim ?d = ?d" by (intro trim_no_space) (auto simp: is_space_def)
  have s: "split_at (\<lambda>c. c = CHR ''e'' \<or> c = CHR ''E'') ?d = (?d, None)" "split_at (\<lambda>c. c = CHR ''.'') ?d = (?d, None)"
    using c by (auto intro!: split_at_absent simp: code_def)
  have u: "unsigned_decimal ?d = Some (of_int n)"
    using n by (simp add: unsigned_decimal_def s all_digits_nat_digits digits_val_nat_digits)
  have i: "?d \<noteq> ''Infinity''" using c by (auto simp: code_def)
  show ?thesis
    using n t u i radix_literal_digits [OF c]
    by (simp add: str_to_num_def big_to_string_def take_sign_def nat_digits_not_Nil)
qed

lemma trim_hex: "is_0x_hex n s \<Longrightarrow> trim s = s"
  by (intro trim_no_space ballI) (rule no_space_0x)

lemma num_string_int:
  assumes "\<bar>n\<bar> < 10 ^ 21"
  shows "num_string other (num n) = big_to_string n"
proof -
  have "\<bar>of_int n :: rat\<bar> < of_int (10 ^ 21)" using assms by linarith
  then have "\<bar>of_int n :: rat\<bar> < 10 ^ 21" by simp
  then show ?thesis by (simp add: num_string_def is_int_rat_def)
qed


section \<open>Messages\<close>


section \<open>What the form checks\<close>

lemma big_rem_dvd: "0 < k \<Longrightarrow> 0 \<le> n \<Longrightarrow> big_rem n k = Inr 0 \<longleftrightarrow> k dvd n"
  by (cases "n = 0") (auto simp: big_rem_def sgn_if dvd_eq_mod_eq_0)



lemma trigger_error_fields [simp]:
  "fe_size (trigger_error u m t e) = fe_size e" "fe_limit (trigger_error u m t e) = fe_limit e"
  by (simp_all add: trigger_error_def)


lemma sea_sent:
  assumes "sea_onSubmit u pe other w ro chainId nowMs buildMs rand (Some m) f = Inr (Sent b)"
  obtains e a where "form_validation u (Some m) f = Inr (e, True)" "wl_address w = Some a" "a \<noteq> []" "\<not> ro"
    "(case sf_subMode f of
        CL_mode \<Rightarrow> createCL u pe other w nowMs buildMs rand m (params_of m nowMs f)
      | CMR_mode \<Rightarrow> createCMR u other w chainId m (params_of m nowMs f)) = Inr b"
proof -
  obtain v where v: "form_validation u (Some m) f = Inr v" using assms by (auto simp: sea_onSubmit_def)
  obtain e ok where ve: "v = (e, ok)" by (cases v)
  obtain a where a: "wl_address w = Some a" "a \<noteq> []"
    using assms by (auto simp: sea_onSubmit_def v blank_def split: if_splits)
  have "ok" "\<not> ro" using assms a by (auto simp: sea_onSubmit_def v ve blank_def split: if_splits)
  with that [of e a] v ve a assms show ?thesis by (auto simp: sea_onSubmit_def blank_def)
qed


section \<open>A market intent\<close>





lemma natural_triggers:
  "tr_type (web_trigger sd n) = (case sd of BUY \<Rightarrow> PRICE_BELOW | SELL \<Rightarrow> PRICE_ABOVE)"
  "tr_reference (web_trigger sd n) = (case sd of BUY \<Rightarrow> BEST_ASK | SELL \<Rightarrow> BEST_BID)"
  "tr_priceTicks (web_trigger sd n) = big_to_string n"
  by (cases sd; simp add: web_trigger_def naturalRefAndType_def)+








section \<open>A conditional limit\<close>

lemma created_cl:
  assumes "createCL u pe other w nowMs buildMs rand m p = Inr (Posted body)" and "wl_address w = Some a"
  obtains q order digest sg sz lt tt where
    "q = \<lparr>pp_side = cp_side p, pp_sizeBaseHuman = cp_sizeBaseHuman p, pp_priceHuman = cp_limitPriceHuman p,
       pp_expirySec = Some (num (intent_ttl (cp_expirySec p) + 120)), pp_postOnly = False\<rparr>"
    "build_order u pe other buildMs rand m q a = Inr order" "un_parse u (cp_sizeBaseHuman p) (wm_baseDecimals m) = Inr sz"
    "priceHumanToTicks u m (cp_limitPriceHuman p) = Inr lt"
    "body = (cl_body m p a order digest sz lt tt (nowMs div 1000 + intent_ttl (cp_expirySec p)))
       \<lparr>create_body.cb_signature := Some sg\<rparr>"
proof -
  have c: "connected w = Inr a" using assms by (auto simp: createCL_def connected_def split: if_splits)
  have b: "\<exists>t. body = b\<lparr>create_body.cb_signature := Some t\<rparr>" if "post_cl b sg = Posted body" for b sg
    using that by (auto simp: post_cl_def split: sum.splits)
  show ?thesis
    using assms(1) unfolding createCL_def c Let_def bind_res_Inr_iff ZEROEX_EXPIRY_BUFFER_SECS_def bind_res.simps sum.inject
    by (elim exE conjE) (drule b, elim exE, rule that [OF refl])
qed

lemma built_order:
  assumes "build_order u pe other buildMs rand m q a = Inr ord"
  obtains mk tk ma ta fee fr where "computeAmounts u m q = Inr (mk, tk, ma, ta)"
    "ord = JObj
        [(''makerToken'', JStr mk), (''takerToken'', JStr tk),
         (''makerAmount'', JStr (big_to_string ma)), (''takerAmount'', JStr (big_to_string ta)),
         (''takerTokenFeeAmount'', JStr (big_to_string fee)), (''taker'', JStr zero_address),
         (''maker'', JStr a), (''sender'', JStr zero_address), (''feeRecipient'', JStr fr),
         (''pool'', JStr zero32),
         (''expiry'', JStr (num_string other (Fin (of_int (buildMs div 1000) + order_ttl (pp_expirySec q))))),
         (''salt'', JStr (big_to_string (order_salt buildMs rand)))]"
proof -
  obtain r where r: "computeAmounts u m q = Inr r" using assms by (auto simp: build_order_def)
  obtain mk tk ma ta where t: "r = (mk, tk, ma, ta)" by (cases r) auto
  obtain fee where f: "taker_fee_amount pe ta = Inr fee"
    using assms by (cases "taker_fee_amount pe ta") (auto simp: build_order_def r t)
  show ?thesis
    using assms unfolding build_order_def r t f bind_res.simps prod.case sum.inject
    by (elim that [OF r [unfolded t] sym])
qed

lemma sanitized_form_order:
  assumes "ord = JObj
        [(''makerToken'', JStr mk), (''takerToken'', JStr tk),
         (''makerAmount'', JStr (big_to_string ma)), (''takerAmount'', JStr (big_to_string ta)),
         (''takerTokenFeeAmount'', JStr (big_to_string fee)), (''taker'', JStr zero_address),
         (''maker'', JStr a), (''sender'', JStr zero_address), (''feeRecipient'', JStr fr),
         (''pool'', JStr zero32), (''expiry'', JStr ex), (''salt'', JStr (big_to_string slt))]"
  shows "\<exists>lo. sanitizeOrder ord = Inr lo \<and> lo_makerToken lo = toAddr (JStr mk) \<and> lo_takerToken lo = toAddr (JStr tk) \<and>
    lo_makerAmount lo = ma \<and> lo_takerAmount lo = ta \<and> lo_maker lo = toAddr (JStr a) \<and> lo_expiry lo = toNum (JStr ex)"
  unfolding assms by (simp add: sanitizeOrder_def toBig_def)


lemma sorted_errors: "ms \<noteq> [] \<Longrightarrow> fe_size (fold sort_error ms e) \<noteq> None \<or> fe_limit (fold sort_error ms e) \<noteq> None"
proof -
  have bad: "fe_size (sort_error m e) \<noteq> None \<or> fe_limit (sort_error m e) \<noteq> None" for m e
    by (auto simp: sort_error_def or_assign_def split: option.splits)
  show "ms \<noteq> [] \<Longrightarrow> ?thesis"
  proof (induction ms rule: rev_induct)
    case (snoc m ms)
    show ?case using bad by simp
  qed simp
qed

lemma cl_form_checked:
  assumes "form_validation u (Some m) f = Inr (e, True)" and "sf_subMode f = CL_mode"
    and zero: "\<And>n. un_parse u ''0'' n = Inr 0"
    and rules: "str_to_bigint (wm_minSizeB m) = Inr minB" "0 < minB" "str_to_bigint (wm_minNotionalQ m) = Inr minN" "0 < minN"
      "str_to_bigint (wm_priceTickQ m) = Inr k" "0 < k"
  obtains b ps where "un_parse u (sf_sizeHuman f) (wm_baseDecimals m) = Inr b" "minB \<le> b"
    "un_parse u (sf_limitPriceHuman f) (wm_quoteDecimals m) = Inr ps" "0 < ps" "k dvd ps"
    "minN * 10 ^ wm_baseDecimals m \<le> b * ps" "priceHumanToTicks u m (sf_limitPriceHuman f) = Inr (ps div k)"
proof -
  obtain v where v: "validateLimitInput u m (sf_sizeHuman f) (sf_limitPriceHuman f) = Inr v"
    and e: "e = trigger_error u m (sf_triggerPriceHuman f) (if li_ok v then no_errors else fold sort_error (li_errors v) no_errors)"
    and ok: "form_ok CL_mode e"
    using assms(1,2) by (auto simp: form_validation_def cl_errors_def)
  obtain b ps r where p: "parseSizeWei u (sf_sizeHuman f) (wm_baseDecimals m) = Inr b"
      "parsePriceScaled u (sf_limitPriceHuman f) (wm_quoteDecimals m) = Inr ps" "big_rem ps k = Inr r"
    and l: "li_ok v \<longleftrightarrow> minB \<le> b \<and> minN \<le> computeQuoteWei b ps (wm_baseDecimals m) \<and> r = 0"
      "li_ok v \<longleftrightarrow> li_errors v = []"
    using v rules by (auto simp: validateLimitInput_def Let_def)
  have "li_ok v"
    using ok sorted_errors [of "li_errors v" no_errors] l(2) by (auto simp: e form_ok_def split: if_splits)
  then have c: "minB \<le> b" "minN \<le> tdiv (b * ps) (10 ^ wm_baseDecimals m)" "r = 0"
    using l(1) by (simp_all add: computeQuoteWei_def)
  have b: "0 < b" using c(1) rules(2) by simp
  have ps: "0 < ps"
  proof (rule ccontr)
    assume "\<not> 0 < ps"
    then have "b * ps \<le> 0" using b by (simp add: mult_le_0_iff)
    then have "tdiv (b * ps) (10 ^ wm_baseDecimals m) \<le> 0"
      by (simp add: tdiv_def sgn_if pos_imp_zdiv_nonneg_iff split: if_splits)
    then show False using c(2) rules(4) by simp
  qed
  have ne: "sf_sizeHuman f \<noteq> []" "sf_limitPriceHuman f \<noteq> []"
    using p(1,2) b ps zero by (auto simp: parseSizeWei_def parsePriceScaled_def or_zero_def)
  then have n: "un_parse u (sf_sizeHuman f) (wm_baseDecimals m) = Inr b"
    "un_parse u (sf_limitPriceHuman f) (wm_quoteDecimals m) = Inr ps"
    using p(1,2) by (simp_all add: parseSizeWei_def parsePriceScaled_def or_zero_def)
  have "minN \<le> b * ps div 10 ^ wm_baseDecimals m" using c(2) b ps by (simp add: tdiv_nonneg)
  then have "minN * 10 ^ wm_baseDecimals m \<le> b * ps div 10 ^ wm_baseDecimals m * 10 ^ wm_baseDecimals m"
    by (intro mult_right_mono) simp_all
  also have "\<dots> \<le> b * ps" by (simp add: minus_mod_eq_div_mult [symmetric])
  finally have "minN * 10 ^ wm_baseDecimals m \<le> b * ps" .
  moreover have "k dvd ps" using p(3) c(3) big_rem_dvd [OF rules(6), of ps] ps by simp
  moreover have "priceHumanToTicks u m (sf_limitPriceHuman f) = Inr (ps div k)"
    using n(2) rules(5,6) ps by (simp add: priceHumanToTicks_def tdiv_nonneg)
  ultimately show ?thesis using that n c(1) ps by blast
qed

lemma derived_ticks_self: "den \<noteq> 0 \<Longrightarrow> derived_ticks (t * den) den = ([], Some t)"
  by (auto simp: derived_ticks_def big_rem_def big_div_def tdiv_def abs_mult sgn_if zero_less_mult_iff)

text \<open>The terms of a floored order are those of the intent exactly when nothing was lost.\<close>

lemma floored_terms:
  assumes "0 < b" "0 < ps" "0 < k" "k dvd ps" and ctx: "ctx_priceTickQ ctx = k" "ctx_baseDecimals ctx = n"
    and lo: "(case sd of SELL \<Rightarrow> lo_makerAmount lo = b \<and> lo_takerAmount lo = b * ps div 10 ^ n
      | BUY \<Rightarrow> lo_takerAmount lo = b \<and> lo_makerAmount lo = b * ps div 10 ^ n)"
  shows "terms_issues ctx sd lo b (ps div k) = [] \<longleftrightarrow> 10 ^ n dvd b * ps"
proof
  assume "terms_issues ctx sd lo b (ps div k) = []"
  from terms_issues_Nil [OF this] lo have "b * ps div 10 ^ n * 10 ^ n = ps div k * (b * k)"
    by (cases sd) (simp_all add: exact_terms_def ctx pow10_def)
  also have "\<dots> = b * ps" using assms(4) by (simp add: ac_simps)
  finally show "10 ^ n dvd b * ps" by (metis dvd_triv_right)
next
  assume "10 ^ n dvd b * ps"
  then have "b * ps div 10 ^ n * 10 ^ n = ps div k * (b * k)" using assms(4) by (simp add: ac_simps)
  then have "derived_ticks (b * ps div 10 ^ n * 10 ^ n) (b * k) = ([], Some (ps div k))"
    using derived_ticks_self [of "b * k" "ps div k"] assms(1,3) by simp
  then show "terms_issues ctx sd lo b (ps div k) = []"
    using lo by (cases sd) (simp_all add: terms_issues_def ctx pow10_def)
qed


lemma form_order_read:
  assumes "build_order u pe other buildMs rand m q a = Inr ord"
    and "un_parse u (pp_sizeBaseHuman q) (wm_baseDecimals m) = Inr b" "un_parse u (pp_priceHuman q) (wm_quoteDecimals m) = Inr ps"
    and "0 < b" "0 < ps" and hex: "HEX_ADDR_RE (wm_baseAddress m)" "HEX_ADDR_RE (wm_quoteAddress m)" "HEX_ADDR_RE a"
    and e: "pp_expirySec q = Some (num ttl)" "0 < ttl" "ttl < 10 ^ 9" "0 \<le> buildMs" "buildMs \<le> 8640000000000000"
  obtains lo where "sanitizeOrder ord = Inr lo" "lo_maker lo = to_lower a" "lo_expiry lo = num (buildMs div 1000 + ttl)"
    "\<not> jnullish ord" "(case pp_side q of
        SELL \<Rightarrow> lo_makerToken lo = to_lower (wm_baseAddress m) \<and> lo_takerToken lo = to_lower (wm_quoteAddress m) \<and>
          lo_makerAmount lo = b \<and> lo_takerAmount lo = b * ps div 10 ^ wm_baseDecimals m
      | BUY \<Rightarrow> lo_makerToken lo = to_lower (wm_quoteAddress m) \<and> lo_takerToken lo = to_lower (wm_baseAddress m) \<and>
          lo_takerAmount lo = b \<and> lo_makerAmount lo = b * ps div 10 ^ wm_baseDecimals m)"
proof -
  obtain mk tk ma ta fee fr where am: "computeAmounts u m q = Inr (mk, tk, ma, ta)"
    and ord: "ord = JObj
        [(''makerToken'', JStr mk), (''takerToken'', JStr tk),
         (''makerAmount'', JStr (big_to_string ma)), (''takerAmount'', JStr (big_to_string ta)),
         (''takerTokenFeeAmount'', JStr (big_to_string fee)), (''taker'', JStr zero_address),
         (''maker'', JStr a), (''sender'', JStr zero_address), (''feeRecipient'', JStr fr),
         (''pool'', JStr zero32),
         (''expiry'', JStr (num_string other (Fin (of_int (buildMs div 1000) + order_ttl (pp_expirySec q))))),
         (''salt'', JStr (big_to_string (order_salt buildMs rand)))]"
    by (rule built_order [OF assms(1)])
  have n: "0 \<le> buildMs div 1000 + ttl" "\<bar>buildMs div 1000 + ttl\<bar> < 10 ^ 21" using e by auto
  have "Fin (of_int (buildMs div 1000) + order_ttl (pp_expirySec q)) = num (buildMs div 1000 + ttl)"
    using e(2) by (simp add: e(1) order_ttl_def)
  then have x: "toNum (JStr (num_string other (Fin (of_int (buildMs div 1000) + order_ttl (pp_expirySec q))))) =
      num (buildMs div 1000 + ttl)"
    by (simp only: num_string_int [OF n(2)]) (simp add: toNum_def str_to_num_big [OF n(1)] del: of_int_add)
  have t: "toAddr (JStr c) = to_lower c" if "HEX_ADDR_RE c" for c
    using that by (simp add: toAddr_def HEX_ADDR_RE_def)
  have q: "tdiv (b * ps) (10 ^ wm_baseDecimals m) = b * ps div 10 ^ wm_baseDecimals m"
    using assms(4,5) by (simp add: tdiv_nonneg)
  have nn: "\<not> jnullish ord" by (simp add: ord)
  from sanitized_form_order [OF ord] obtain lo where lo: "sanitizeOrder ord = Inr lo" "lo_makerToken lo = toAddr (JStr mk)"
    "lo_takerToken lo = toAddr (JStr tk)" "lo_makerAmount lo = ma" "lo_takerAmount lo = ta"
    "lo_maker lo = to_lower a" "lo_expiry lo = num (buildMs div 1000 + ttl)"
    unfolding x t [OF hex(3)] by blast
  show ?thesis
    by (rule that [OF lo(1,6,7) nn])
      (use am lo(2-5) t [OF hex(1)] t [OF hex(2)] q in \<open>cases "pp_side q"; auto simp: computeAmounts_def assms(2,3) Let_def\<close>)
qed

lemma expiry_fits:
  assumes "lo_expiry lo = num e" and "k + getFireGraceSecs pe * 1000 \<le> 1000 * e"
  shows "expiry_issues pe lo (js_Date k) = []"
proof -
  have "\<not> (of_int (1000 * e) :: rat) < of_int (k + getFireGraceSecs pe * 1000)"
    using assms(2) by (simp only: of_int_less_iff not_less)
  then have "\<not> num_less (num_scale 1000 (num e)) (num (k + getFireGraceSecs pe * 1000))"
    by (simp only: num_scale.simps num_less.simps of_int_mult) simp
  then show ?thesis by (simp add: expiry_issues_def js_Date_def assms(1) del: num_less.simps num_scale.simps)
qed

definition form_rules :: "web_market \<Rightarrow> trading_ctx \<Rightarrow> bool" where
  "form_rules m ctx \<longleftrightarrow> str_to_bigint (wm_minSizeB m) = Inr (ctx_minSizeB ctx) \<and> 0 < ctx_minSizeB ctx \<and>
    str_to_bigint (wm_minNotionalQ m) = Inr (ctx_minNotionalQ ctx) \<and> 0 < ctx_minNotionalQ ctx"

lemma listed_terms:
  assumes "lists_market m d ctx" and "HEX_ADDR_RE (wm_baseAddress m)" "HEX_ADDR_RE (wm_quoteAddress m)"
  shows "str_to_bigint (wm_priceTickQ m) = Inr (ctx_priceTickQ ctx)" "0 < ctx_priceTickQ ctx"
    "ctx_baseDecimals ctx = wm_baseDecimals m" "ctx_baseAddress ctx = to_lower (wm_baseAddress m)"
    "ctx_quoteAddress ctx = to_lower (wm_quoteAddress m)"
  using assms by (auto simp: lists_market_def Let_def HEX_ADDR_RE_def trim_hex)

text \<open>What the form posts for a conditional limit, and the order in it as the API reads it.\<close>

lemma posted_limit:
  assumes run: "sea_onSubmit u pe other w ro chainId nowMs buildMs rand (Some m) f = Inr (Sent (Posted body))"
    and cl: "sf_subMode f = CL_mode" "sf_clExpirySec f \<in> set CL_EXPIRY_PRESETS"
    and clock: "0 \<le> nowMs" "nowMs \<le> buildMs" "buildMs \<le> 8640000000000000"
    and shown: "lists_market m d ctx" "form_rules m ctx" and zero: "\<And>n. un_parse u ''0'' n = Inr 0"
    and hex: "HEX_ADDR_RE (wm_baseAddress m)" "HEX_ADDR_RE (wm_quoteAddress m)" "wl_address w = Some a" "HEX_ADDR_RE a"
  obtains b ps order sg digest tt lo where
    "un_parse u (sf_sizeHuman f) (wm_baseDecimals m) = Inr b" "ctx_minSizeB ctx \<le> b" "0 < b"
    "un_parse u (sf_limitPriceHuman f) (wm_quoteDecimals m) = Inr ps" "0 < ps" "ctx_priceTickQ ctx dvd ps"
    "ctx_minNotionalQ ctx * 10 ^ wm_baseDecimals m \<le> b * ps"
    "cb_owner body = a" "cb_zeroExOrder body = order" "create_body.cb_signature body = Some sg"
    "cb_preSignedOrderHash body = Some digest" "cb_ownerAuth body = None"
    "cb_intent body = CL_Intent (wm_symbol m) (sf_side f) (big_to_string b) (big_to_string (ps div ctx_priceTickQ ctx))
      (web_trigger (sf_side f) tt) (AtUnix (nowMs div 1000 + sf_clExpirySec f))"
    "sanitizeOrder order = Inr lo" "lo_maker lo = to_lower a"
    "lo_expiry lo = num (buildMs div 1000 + (sf_clExpirySec f + 120))" "\<not> jnullish order"
    "(case sf_side f of
        SELL \<Rightarrow> lo_makerToken lo = to_lower (wm_baseAddress m) \<and> lo_takerToken lo = to_lower (wm_quoteAddress m) \<and>
          lo_makerAmount lo = b \<and> lo_takerAmount lo = b * ps div 10 ^ wm_baseDecimals m
      | BUY \<Rightarrow> lo_makerToken lo = to_lower (wm_quoteAddress m) \<and> lo_takerToken lo = to_lower (wm_baseAddress m) \<and>
          lo_takerAmount lo = b \<and> lo_makerAmount lo = b * ps div 10 ^ wm_baseDecimals m)"
proof -
  note k = listed_terms [OF shown(1) hex(1,2)]
  obtain e where v: "form_validation u (Some m) f = Inr (e, True)"
    and cr: "createCL u pe other w nowMs buildMs rand m (params_of m nowMs f) = Inr (Posted body)"
    using sea_sent [OF run] by (metis cl(1) sub_mode.simps(4))
  obtain b ps where f: "un_parse u (sf_sizeHuman f) (wm_baseDecimals m) = Inr b" "ctx_minSizeB ctx \<le> b"
    "un_parse u (sf_limitPriceHuman f) (wm_quoteDecimals m) = Inr ps" "0 < ps" "ctx_priceTickQ ctx dvd ps"
    "ctx_minNotionalQ ctx * 10 ^ wm_baseDecimals m \<le> b * ps"
    "priceHumanToTicks u m (sf_limitPriceHuman f) = Inr (ps div ctx_priceTickQ ctx)"
    by (rule cl_form_checked [OF v cl(1) zero _ _ _ _ k(1,2)]) (use shown(2) in \<open>auto simp: form_rules_def\<close>)
  have b: "0 < b" using f(2) shown(2) by (simp add: form_rules_def)
  define p where "p = params_of m nowMs f"
  have p: "cp_side p = sf_side f" "cp_sizeBaseHuman p = sf_sizeHuman f" "cp_limitPriceHuman p = sf_limitPriceHuman f"
    "intent_ttl (cp_expirySec p) = sf_clExpirySec f" and ttl: "0 < sf_clExpirySec f" "sf_clExpirySec f < 10 ^ 8"
    using cl(2) by (auto simp: p_def params_of_def intent_ttl_def CL_EXPIRY_PRESETS_def)
  obtain q order digest sg tt sz lt where q: "q = \<lparr>pp_side = sf_side f, pp_sizeBaseHuman = sf_sizeHuman f,
       pp_priceHuman = sf_limitPriceHuman f, pp_expirySec = Some (num (sf_clExpirySec f + 120)), pp_postOnly = False\<rparr>"
    and o': "build_order u pe other buildMs rand m q a = Inr order"
    and n: "un_parse u (sf_sizeHuman f) (wm_baseDecimals m) = Inr sz" "priceHumanToTicks u m (sf_limitPriceHuman f) = Inr lt"
    and b': "body = (cl_body m p a order digest sz lt tt (nowMs div 1000 + sf_clExpirySec f))
       \<lparr>create_body.cb_signature := Some sg\<rparr>"
    by (rule created_cl [OF cr [folded p_def] hex(3), unfolded p])
  have same: "sz = b" "lt = ps div ctx_priceTickQ ctx" using n f(1,7) by simp_all
  have q': "pp_side q = sf_side f" "un_parse u (pp_sizeBaseHuman q) (wm_baseDecimals m) = Inr b"
    "un_parse u (pp_priceHuman q) (wm_quoteDecimals m) = Inr ps" "pp_expirySec q = Some (num (sf_clExpirySec f + 120))"
    by (simp_all add: q f)
  have body: "cb_owner body = a" "cb_zeroExOrder body = order" "create_body.cb_signature body = Some sg"
    "cb_preSignedOrderHash body = Some digest" "cb_ownerAuth body = None"
    "cb_intent body = CL_Intent (wm_symbol m) (sf_side f) (big_to_string b) (big_to_string (ps div ctx_priceTickQ ctx))
      (web_trigger (sf_side f) tt) (AtUnix (nowMs div 1000 + sf_clExpirySec f))"
    by (simp_all add: b' cl_body_def p same)
  obtain lo where lo: "sanitizeOrder order = Inr lo" "lo_maker lo = to_lower a"
      "lo_expiry lo = num (buildMs div 1000 + (sf_clExpirySec f + 120))" "\<not> jnullish order"
    and amounts: "(case pp_side q of
        SELL \<Rightarrow> lo_makerToken lo = to_lower (wm_baseAddress m) \<and> lo_takerToken lo = to_lower (wm_quoteAddress m) \<and>
          lo_makerAmount lo = b \<and> lo_takerAmount lo = b * ps div 10 ^ wm_baseDecimals m
      | BUY \<Rightarrow> lo_makerToken lo = to_lower (wm_quoteAddress m) \<and> lo_takerToken lo = to_lower (wm_baseAddress m) \<and>
          lo_takerAmount lo = b \<and> lo_makerAmount lo = b * ps div 10 ^ wm_baseDecimals m)"
    by (rule form_order_read [OF o' q'(2,3) b f(4) hex(1,2,4) q'(4)]) (use ttl clock in auto)
  show thesis by (rule that [OF f(1,2) b f(3-6) body lo amounts [unfolded q'(1)]])
qed

lemma preset_expiry_fits:
  assumes e: "lo_expiry lo = num (buildMs div 1000 + (secs + 120))"
    and g: "nowMs \<le> buildMs" "getFireGraceSecs env \<le> 120"
  shows "expiry_issues env lo (computeExpiresAt (AtUnix (nowMs div 1000 + secs)) now) = []"
proof -
  have "nowMs div 1000 \<le> buildMs div 1000" using g(1) by (rule zdiv_mono1) simp
  then have "nowMs div 1000 * 1000 + secs * 1000 + getFireGraceSecs env * 1000 \<le>
      1000 * (buildMs div 1000 + (secs + 120))" using g(2) by simp
  then have "(nowMs div 1000 + secs) * 1000 + getFireGraceSecs env * 1000 \<le>
      1000 * (buildMs div 1000 + (secs + 120))" by (simp only: distrib_right)
  from expiry_fits [OF e this] show ?thesis by (simp add: computeExpiresAt_def)
qed

text \<open>
  C13. The API takes a conditional limit made with the form exactly when its quote amount is exact. Where
  the form shows a market of the database with its own rules, the wallet's signature recovers to its
  address and its digest is the hash the API computes, the order is new and above the cancel floor
  of its maker, and the API asks for a grace of at most two minutes after the expiry of the intent,
  everything else the create validator checks holds of what the form posts; what remains is whether the
  size times the limit price, in atomic units, is a multiple of the base unit. A form that
  validates may thus be refused, for this reason only.
\<close>

theorem conditional_limit_accepted_iff_exact:
  assumes run: "sea_onSubmit u pe other w ro chainId nowMs buildMs rand (Some m) f = Inr (Sent (Posted body))"
    and cl: "sf_subMode f = CL_mode" "sf_clExpirySec f \<in> set CL_EXPIRY_PRESETS"
    and clock: "0 \<le> nowMs" "nowMs \<le> buildMs" "buildMs \<le> 8640000000000000"
    and grace: "getFireGraceSecs (sx_env x) \<le> 120"
    and shown: "lists_market m (sea_db s) ctx" "form_rules m ctx" and zero: "\<And>n. un_parse u ''0'' n = Inr 0"
    and hex: "HEX_ADDR_RE (wm_baseAddress m)" "HEX_ADDR_RE (wm_quoteAddress m)" "wl_address w = Some a" "HEX_ADDR_RE a"
    and signed: "\<And>lo. sanitizeOrder (cb_zeroExOrder body) = Inr lo \<Longrightarrow> create_signature_issues x body lo = Inr [] \<and>
      computed_hash x lo = ([], cb_preSignedOrderHash body) \<and> cb_preSignedOrderHash body \<noteq> Some [] \<and>
      lookup_issues body (cb_preSignedOrderHash body) (sea_db s) (sea_intents s) = [] \<and>
      runCancelPairFloorCheck x a (lo_makerToken lo) (lo_takerToken lo) (lo_salt lo) (sea_floors s) = Inr []"
  shows "\<exists>b ps. un_parse u (sf_sizeHuman f) (wm_baseDecimals m) = Inr b \<and>
    un_parse u (sf_limitPriceHuman f) (wm_quoteDecimals m) = Inr ps \<and>
    (validateAtCreate x body ctx (computeExpiresAt (si_expiry (cb_intent body)) now) s = Inr () \<longleftrightarrow>
      10 ^ wm_baseDecimals m dvd b * ps)"
proof -
  note k = listed_terms [OF shown(1) hex(1,2)]
  obtain b ps order sg digest tt lo where
    f: "un_parse u (sf_sizeHuman f) (wm_baseDecimals m) = Inr b" "ctx_minSizeB ctx \<le> b" and b: "0 < b"
    and ps: "un_parse u (sf_limitPriceHuman f) (wm_quoteDecimals m) = Inr ps" "0 < ps" "ctx_priceTickQ ctx dvd ps"
      "ctx_minNotionalQ ctx * 10 ^ wm_baseDecimals m \<le> b * ps"
    and body: "cb_owner body = a" "cb_zeroExOrder body = order" "create_body.cb_signature body = Some sg"
      "cb_preSignedOrderHash body = Some digest" "cb_ownerAuth body = None"
      "cb_intent body = CL_Intent (wm_symbol m) (sf_side f) (big_to_string b) (big_to_string (ps div ctx_priceTickQ ctx))
        (web_trigger (sf_side f) tt) (AtUnix (nowMs div 1000 + sf_clExpirySec f))"
    and lo: "sanitizeOrder order = Inr lo" "lo_maker lo = to_lower a"
      "lo_expiry lo = num (buildMs div 1000 + (sf_clExpirySec f + 120))" "\<not> jnullish order"
    and amounts: "(case sf_side f of
        SELL \<Rightarrow> lo_makerToken lo = to_lower (wm_baseAddress m) \<and> lo_takerToken lo = to_lower (wm_quoteAddress m) \<and>
          lo_makerAmount lo = b \<and> lo_takerAmount lo = b * ps div 10 ^ wm_baseDecimals m
      | BUY \<Rightarrow> lo_makerToken lo = to_lower (wm_quoteAddress m) \<and> lo_takerToken lo = to_lower (wm_baseAddress m) \<and>
          lo_takerAmount lo = b \<and> lo_makerAmount lo = b * ps div 10 ^ wm_baseDecimals m)"
    by (rule posted_limit [OF run cl clock shown zero hex])
  have ok: "create_signature_issues x body lo = Inr []" "computed_hash x lo = ([], Some digest)" "digest \<noteq> []"
    "lookup_issues body (Some digest) (sea_db s) (sea_intents s) = []"
    "runCancelPairFloorCheck x a (lo_makerToken lo) (lo_takerToken lo) (lo_salt lo) (sea_floors s) = Inr []"
    using signed [of lo] lo(1) by (simp_all add: body)
  have expiry: "expiry_issues (sx_env x) lo (computeExpiresAt (si_expiry (cb_intent body)) now) = []"
    using preset_expiry_fits [OF lo(3) clock(2) grace] by (simp add: body)
  have "ctx_minNotionalQ ctx * 10 ^ wm_baseDecimals m \<le> ps div ctx_priceTickQ ctx * ctx_priceTickQ ctx * b"
    using ps(3,4) by (simp add: ac_simps)
  then have notional: "notional_issues ctx (ps div ctx_priceTickQ ctx) b = []"
    by (simp add: notional_issues_def pow10_def k(3))
  have pair: "pair_issues ctx (sf_side f) lo = []"
    using amounts by (cases "sf_side f") (auto simp: pair_issues_def Let_def k(4,5))
  have inv: "validateCreateIntentBodyInvariants body = []"
    using ok(1,3) lo(4) by (cases "sf_side f") (auto simp: validateCreateIntentBodyInvariants_def
        validateStructuredIntentInvariants_def body natural_triggers blank_def create_signature_issues_def)
  have rest: "maker_issues lo a = []" "size_issues ctx b = []" "create_hash_issues body (Some digest) = []"
    using lo(2) f(2) by (simp_all add: maker_issues_def size_issues_def create_hash_issues_def body)
  have "validateAtCreate x body ctx (computeExpiresAt (si_expiry (cb_intent body)) now) s = Inr () \<longleftrightarrow>
      terms_issues ctx (sf_side f) lo b (ps div ctx_priceTickQ ctx) = []"
    using expiry notional pair inv rest ok lo(1)
    by (simp add: validateAtCreate_def Let_def body cl_issues_def)
  also have "\<dots> \<longleftrightarrow> 10 ^ wm_baseDecimals m dvd b * ps"
    by (rule floored_terms [OF b ps(2) k(2) ps(3) refl k(3)]) (use amounts in \<open>cases "sf_side f"; simp\<close>)
  finally show ?thesis using f(1) ps(1) by blast
qed


section \<open>A sample form\<close>

definition cond_wallet :: sea_wallet where
  "cond_wallet =
    \<lparr>wl_address = Some sample_owner, wl_domain = Inr (84532, ''0x0''),
     wl_sign712 = (\<lambda>dm ord. Inr (''0x'' @ replicate 128 CHR ''1'' @ ''1b'')),
     wl_digest = (\<lambda>dm ord. Inr (''0x'' @ replicate 64 CHR ''7'')), wl_recover = (\<lambda>h sg. Inr sample_owner),
     wl_personalSign = (\<lambda>h. Inr []), wl_signMessage = (\<lambda>m. Inr ''0xaa'')\<rparr>"

definition cond_form :: "sub_mode \<Rightarrow> sea_form" where
  "cond_form sm =
    \<lparr>sf_subMode = sm, sf_side = BUY, sf_sizeHuman = ''200'', sf_triggerPriceHuman = ''40'', sf_limitPriceHuman = ''50'',
     sf_cmrExpirySec = 3600, sf_clExpirySec = 3600, sf_aiApplied = None\<rparr>"

definition cond_post :: "sub_mode \<Rightarrow> submitted result" where
  "cond_post sm = sea_onSubmit form_units no_env (\<lambda>n. []) cond_wallet False 84532 5000 6000 7 (Some form_market) (cond_form sm)"

lemma cond_rules: "form_rules form_market form_ctx" "\<And>n. un_parse form_units ''0'' n = Inr 0"
proof -
  have "str_to_bigint (wm_minSizeB form_market) = Inr 1" "ctx_minSizeB form_ctx = 1"
    "str_to_bigint (wm_minNotionalQ form_market) = Inr 1" "ctx_minNotionalQ form_ctx = 1" by code_simp+
  then show "form_rules form_market form_ctx" by (simp add: form_rules_def)
  have "str_to_bigint ''0'' = Inr 0" by code_simp
  then show "un_parse form_units ''0'' n = Inr 0" for n by (simp add: form_units_def)
qed


theorem conditional_limit_accepted_iff_exact_witness:
  "\<exists>body. cond_post CL_mode = Inr (Sent (Posted body)) \<and>
    validateAtCreate sample_sx body form_ctx (computeExpiresAt (si_expiry (cb_intent body)) 9) sea_sample = Inr ()"
proof -
  have e: "(case cond_post CL_mode of Inr (Sent (Posted b)) \<Rightarrow>
      (create_body.cb_signature b, cb_preSignedOrderHash b, cb_owner b) | _ \<Rightarrow> (None, None, [])) =
    (Some (''0x'' @ replicate 128 CHR ''1'' @ ''1b''), Some (''0x'' @ replicate 64 CHR ''7''), sample_owner)" by code_simp
  then obtain body where run: "cond_post CL_mode = Inr (Sent (Posted body))"
    by (auto split: sum.splits submitted.splits posted_intent.splits)
  have f: "create_body.cb_signature body = Some (''0x'' @ replicate 128 CHR ''1'' @ ''1b'')"
    "cb_preSignedOrderHash body = Some (''0x'' @ replicate 64 CHR ''7'')" "cb_owner body = sample_owner"
    using e by (simp_all add: run)
  have c: "sf_subMode (cond_form CL_mode) = CL_mode" "getFireGraceSecs (sx_env sample_sx) \<le> 120"
    "HEX_ADDR_RE (wm_baseAddress form_market)" "HEX_ADDR_RE (wm_quoteAddress form_market)"
    "wl_address cond_wallet = Some sample_owner" "HEX_ADDR_RE sample_owner" by code_simp+
  have p: "sf_clExpirySec (cond_form CL_mode) \<in> set CL_EXPIRY_PRESETS"
    by (simp add: cond_form_def CL_EXPIRY_PRESETS_def)
  have s: "create_signature_issues sample_sx body lo = Inr [] \<and>
      computed_hash sample_sx lo = ([], cb_preSignedOrderHash body) \<and> cb_preSignedOrderHash body \<noteq> Some [] \<and>
      lookup_issues body (cb_preSignedOrderHash body) (sea_db sea_sample) (sea_intents sea_sample) = [] \<and>
      runCancelPairFloorCheck sample_sx sample_owner (lo_makerToken lo) (lo_takerToken lo) (lo_salt lo) (sea_floors sea_sample) = Inr []"
    if lo: "sanitizeOrder (cb_zeroExOrder body) = Inr lo" for lo
  proof -
    have r: "resolve (sx_zx sample_sx) (sx_cfg sample_sx) = Inr (hex_addr CHR ''d'', PERMIT2_ALLOWANCE_HOLDER)" by code_simp
    have h: "getOrderHash (sx_zx sample_sx) (sx_cfg sample_sx) (getChainIdFromEnv (sx_env sample_sx)) (order_json lo) =
        Inr (''0x'' @ replicate 64 CHR ''7'')"
      by (simp add: getOrderHash_def r normalize_sanitized [OF lo]) (simp add: sample_sx_def sample_zx_def)
    obtain t where t: "parseSigHexToTuple (''0x'' @ replicate 128 CHR ''1'' @ ''1b'') = Some t" "zs_signatureType t = 2"
    proof -
      have "map_option zs_signatureType (parseSigHexToTuple (''0x'' @ replicate 128 CHR ''1'' @ ''1b'')) = Some 2" by code_simp
      with that show thesis by auto
    qed
    have "verifySignature (sx_zx sample_sx) (sx_cfg sample_sx) (getChainIdFromEnv (sx_env sample_sx)) (order_json lo) t =
        Inr (Some sample_owner)"
      by (simp add: verifySignature_def h t(2))
        (simp add: sample_sx_def sample_zx_def non_empty_def sample_owner_def hex_addr_def)
    then have "create_signature_issues sample_sx body lo = Inr []"
      by (simp add: create_signature_issues_def f blank_def t(1) signer_issues_def del: append.simps replicate.simps)
    moreover have "computed_hash sample_sx lo = ([], cb_preSignedOrderHash body)"
    proof -
      have "\<not> dev_skip sample_sx" by code_simp
      then show ?thesis by (simp add: computed_hash_def h f)
    qed
    moreover have "lookup_issues body (cb_preSignedOrderHash body) (sea_db sea_sample) (sea_intents sea_sample) = []"
      by (simp add: lookup_issues_def f sea_sample_def orderHashExists_def order_of_def findActiveByPreSignedHash_def)
    moreover have "runCancelPairFloorCheck sample_sx sample_owner (lo_makerToken lo) (lo_takerToken lo) (lo_salt lo)
        (sea_floors sea_sample) = Inr []"
      by (simp add: floor_issues_Nil sea_sample_def stored_floor_def)
    ultimately show ?thesis by (simp add: f)
  qed
  have n: "wm_baseDecimals form_market = 2" "wm_quoteDecimals form_market = 2"
    "un_parse form_units (sf_sizeHuman (cond_form CL_mode)) 2 = Inr 200"
    "un_parse form_units (sf_limitPriceHuman (cond_form CL_mode)) 2 = Inr 50" by code_simp+
  from conditional_limit_accepted_iff_exact [OF run [unfolded cond_post_def] c(1) p _ _ _ c(2) form_lists cond_rules c(3-6) s, of 9]
  show ?thesis using run unfolding n by auto
qed

end
