(* ===== verification/DelegatedApi.thy ===== *)
theory DelegatedApi
  imports Delegation
begin

text \<open>
  The REST surface of delegated execution, under \<open>apps/api/src/sea/delegated\<close>: the schemas
  (\<open>dto/delegated.dto.ts\<close>), the handlers (\<open>delegated.controller.ts\<close>) and the reading operations of
  the service (\<open>status\<close>, \<open>capabilities\<close>, \<open>saStatus\<close>, \<open>listGrants\<close> and \<open>listAttempts\<close> of
  \<open>delegation.service.ts\<close>). A body and a query are JSON values. What the provider reports of its
  capabilities and of a smart account are the parameters \<open>caps\<close> and \<open>sa\<close>.
\<close>

section \<open>Schemas\<close>

text \<open>\<open>.strict()\<close>: an object without other keys.\<close>

definition strict_object :: "string list \<Rightarrow> jval \<Rightarrow> bool" where
  "strict_object ks v \<longleftrightarrow> (case v of JObj kvs \<Rightarrow> list_all (\<lambda>(k, _). k \<in> set ks) kvs | _ \<Rightarrow> False)"

definition zod_min1 :: "jval \<Rightarrow> string option" where
  "zod_min1 v = (case v of JStr s \<Rightarrow> if s = [] then None else Some s | _ \<Rightarrow> None)"

definition zod_address :: "jval \<Rightarrow> string option" where
  "zod_address v = (case v of JStr s \<Rightarrow> if is_0x_hex 40 s then Some s else None | _ \<Rightarrow> None)"

text \<open>Outside \<open>None\<close> is a refusal; the field is optional.\<close>

definition zod_account_model :: "jval \<Rightarrow> account_model option option" where
  "zod_account_model v =
    (case v of
       JUndef \<Rightarrow> Some None
     | JStr s \<Rightarrow> if s = ''EIP7702'' then Some (Some EIP7702) else if s = ''NEXUS_SA'' then Some (Some NEXUS_SA) else None
     | _ \<Rightarrow> None)"

definition prepareGrantBodySchema :: "jval \<Rightarrow> (string \<times> string \<times> account_model option) option" where
  "prepareGrantBodySchema v =
    (if strict_object [''intentId'', ''owner'', ''accountModel''] v
     then (case (zod_min1 (jget v ''intentId''), zod_address (jget v ''owner''),
               zod_account_model (jget v ''accountModel'')) of
             (Some i, Some ow, Some m) \<Rightarrow> Some (i, ow, m)
           | _ \<Rightarrow> None)
     else None)"

definition finalizeGrantBodySchema :: "jval \<Rightarrow> finalize_params option" where
  "finalizeGrantBodySchema v =
    (if strict_object [''intentId'', ''owner'', ''accountModel'', ''accountAddress'', ''sessionBlob'', ''ownerSignature''] v
     then (case (zod_min1 (jget v ''intentId''), zod_address (jget v ''owner''),
               zod_account_model (jget v ''accountModel''), zod_address (jget v ''accountAddress''),
               zod_min1 (jget v ''sessionBlob''), zod_min1 (jget v ''ownerSignature'')) of
             (Some i, Some ow, Some m, Some a, Some blob, Some sg) \<Rightarrow>
               Some \<lparr>fz_intentId = i, fz_owner = ow, fz_accountModel = m, fz_accountAddress = a,
                 fz_sessionBlob = blob, fz_ownerSignature = sg\<rparr>
           | _ \<Rightarrow> None)
     else None)"

definition revokeGrantBodySchema :: "jval \<Rightarrow> (string \<times> string) option" where
  "revokeGrantBodySchema v =
    (if strict_object [''intentId'', ''owner''] v
     then (case (zod_min1 (jget v ''intentId''), zod_address (jget v ''owner'')) of
             (Some i, Some ow) \<Rightarrow> Some (i, ow)
           | _ \<Rightarrow> None)
     else None)"

definition saStatusQuerySchema :: "jval \<Rightarrow> (string \<times> string \<times> account_model option) option" where
  "saStatusQuerySchema v = prepareGrantBodySchema v"

definition grantsQuerySchema :: "jval \<Rightarrow> string option" where
  "grantsQuerySchema v = (if strict_object [''owner''] v then zod_address (jget v ''owner'') else None)"

definition attemptsQuerySchema :: "jval \<Rightarrow> (string \<times> string) option" where
  "attemptsQuerySchema v =
    (if strict_object [''owner'', ''intentId''] v
     then (case (zod_address (jget v ''owner''), zod_min1 (jget v ''intentId'')) of
             (Some ow, Some i) \<Rightarrow> Some (ow, i)
           | _ \<Rightarrow> None)
     else None)"

section \<open>Reading operations of the service\<close>

record delegation_status =
  ds_enabled :: bool
  ds_writable :: bool
  ds_profile :: delegation_profile
  ds_chainId :: int
  ds_provider :: provider_kind
  ds_signerConfigured :: bool
  ds_reason :: "string option"

definition service_status :: "penv \<Rightarrow> delegation_config \<Rightarrow> delegation_status" where
  "service_status pe cfg =
    \<lparr>ds_enabled = dc_enabled cfg, ds_writable = dc_writable cfg, ds_profile = dc_profile cfg,
     ds_chainId = dc_chainId cfg, ds_provider = dc_provider cfg, ds_signerConfigured = signer_available pe cfg,
     ds_reason = (if dc_enabled cfg then None else dc_disabledReason cfg)\<rparr>"

record delegation_caps =
  dp_supported :: bool
  dp_accountModels :: "account_model list"

definition service_capabilities ::
  "penv \<Rightarrow> delegation_config \<Rightarrow> (int \<Rightarrow> delegation_profile \<Rightarrow> delegation_caps result) \<Rightarrow>
    (delegation_status \<times> delegation_caps) result" where
  "service_capabilities pe cfg caps =
    bind_res (caps (dc_chainId cfg) (dc_profile cfg)) (\<lambda>c. Inr (service_status pe cfg, c))"

text \<open>\<open>sa\<close> takes the owner, the account model, the token, the amount and the exchange proxy.\<close>

definition saStatus ::
  "deleg_world \<Rightarrow> delegation_config \<Rightarrow> (string \<Rightarrow> account_model \<Rightarrow> string \<Rightarrow> int \<Rightarrow> string \<Rightarrow> (string + 'a) result) \<Rightarrow>
    string \<Rightarrow> string \<Rightarrow> account_model option \<Rightarrow> deleg \<Rightarrow> (string + 'a) result" where
  "saStatus x cfg sa i owner model d =
    (if \<not> dc_enabled cfg then Inr (Inl (reason_or ''delegated_disabled'' (dc_disabledReason cfg)))
     else case dc_exchangeProxy cfg of
       None \<Rightarrow> Inr (Inl ''exchangeProxy not configured'')
     | Some proxy \<Rightarrow>
         bind_res (buildPolicyForIntent x cfg i owner d) (\<lambda>b. case b of
           Inl reason \<Rightarrow> Inr (Inl reason)
         | Inr policy \<Rightarrow>
             sa owner (case model of Some m \<Rightarrow> m | None \<Rightarrow> dc_accountModelDefault cfg)
               (po_spendToken policy) (po_spendCapQ policy) proxy))"

record grant_summary =
  gs_intentId :: string
  gs_status :: grant_status
  gs_accountModel :: account_model
  gs_accountAddress :: "string option"
  gs_permissionId :: "string option"
  gs_validUntil :: string

definition metaAccountAddress :: "jval \<Rightarrow> string option" where
  "metaAccountAddress meta = meta_string meta ''accountAddress''"

definition grant_summary_of :: "grant_row \<Rightarrow> grant_summary" where
  "grant_summary_of g =
    \<lparr>gs_intentId = gr_intentId g, gs_status = gr_status g, gs_accountModel = gr_accountModel g,
     gs_accountAddress = metaAccountAddress (gr_meta g), gs_permissionId = gr_permissionId g,
     gs_validUntil = toISOString (gr_validUntil g)\<rparr>"

definition listGrants :: "string \<Rightarrow> deleg \<Rightarrow> grant_summary list" where
  "listGrants owner d = map grant_summary_of (listGrantsByOwner owner (de_grants d))"

text \<open>The audit trail is in order of creation; the answer is newest first, at most 50 rows, without \<open>createdAt\<close>.\<close>

record attempt_summary =
  as_decision :: exec_decision
  as_reason :: "string option"
  as_txHash :: "string option"
  as_providerRef :: "string option"

definition attempt_summary_of :: "attempt_row \<Rightarrow> attempt_summary" where
  "attempt_summary_of a =
    \<lparr>as_decision = at_decision a, as_reason = at_reason a, as_txHash = at_txHash a, as_providerRef = at_providerRef a\<rparr>"

definition listByIntent :: "nat \<Rightarrow> string \<Rightarrow> attempt_row list \<Rightarrow> attempt_row list" where
  "listByIntent k i rows = take k (rev (filter (\<lambda>a. at_intentId a = i) rows))"

definition listAttempts :: "string \<Rightarrow> string \<Rightarrow> deleg \<Rightarrow> attempt_summary list" where
  "listAttempts owner i d =
    (case findByIntentId i (de_grants d) of
       None \<Rightarrow> []
     | Some g \<Rightarrow>
         if to_lower (gr_owner g) \<noteq> to_lower owner then []
         else map attempt_summary_of (listByIntent 50 i (de_attempts d)))"

section \<open>Handlers\<close>

text \<open>\<open>assertEnabled\<close> and the schema in front of an operation.\<close>

definition api_guard :: "delegation_config \<Rightarrow> 'p option \<Rightarrow> 'p result" where
  "api_guard cfg parsed =
    (if \<not> dc_enabled cfg then Inl (Forbidden ''delegated_disabled'')
     else case parsed of None \<Rightarrow> Inl (BadRequest ''invalid_payload'') | Some p \<Rightarrow> Inr p)"

definition get_saStatus ::
  "deleg_world \<Rightarrow> delegation_config \<Rightarrow> (string \<Rightarrow> account_model \<Rightarrow> string \<Rightarrow> int \<Rightarrow> string \<Rightarrow> (string + 'a) result) \<Rightarrow>
    jval \<Rightarrow> deleg \<Rightarrow> (string + 'a) result" where
  "get_saStatus x cfg sa query d =
    bind_res (api_guard cfg (saStatusQuerySchema query)) (\<lambda>(i, owner, model). saStatus x cfg sa i owner model d)"

definition post_prepare :: "deleg_world \<Rightarrow> delegation_config \<Rightarrow> jval \<Rightarrow> deleg \<Rightarrow> (string + prepare_result) result" where
  "post_prepare x cfg body d =
    bind_res (api_guard cfg (prepareGrantBodySchema body)) (\<lambda>(i, owner, model). prepareGrant x cfg i owner model d)"

definition post_finalize ::
  "deleg_world \<Rightarrow> delegation_config \<Rightarrow> int \<Rightarrow> string \<Rightarrow> jval \<Rightarrow> deleg \<Rightarrow>
    (string + string \<times> string option) result \<times> deleg" where
  "post_finalize x cfg now gid body d =
    (case api_guard cfg (finalizeGrantBodySchema body) of
       Inl e \<Rightarrow> (Inl e, d)
     | Inr p \<Rightarrow> finalizeGrant x cfg now gid p d)"

definition post_revoke ::
  "deleg_world \<Rightarrow> delegation_config \<Rightarrow> int \<Rightarrow> jval \<Rightarrow> deleg \<Rightarrow>
    (string + string option \<times> string option) result \<times> deleg" where
  "post_revoke x cfg now body d =
    (case api_guard cfg (revokeGrantBodySchema body) of
       Inl e \<Rightarrow> (Inl e, d)
     | Inr (i, owner) \<Rightarrow> revoke x cfg now i owner d)"

definition get_grants :: "delegation_config \<Rightarrow> jval \<Rightarrow> deleg \<Rightarrow> grant_summary list result" where
  "get_grants cfg query d =
    bind_res (api_guard cfg (grantsQuerySchema query)) (\<lambda>owner. Inr (listGrants owner d))"

definition get_attempts :: "delegation_config \<Rightarrow> jval \<Rightarrow> deleg \<Rightarrow> attempt_summary list result" where
  "get_attempts cfg query d =
    bind_res (api_guard cfg (attemptsQuerySchema query)) (\<lambda>(owner, i). Inr (listAttempts owner i d))"

end
