(* ===== verification/WebDelegated.thy ===== *)
theory WebDelegated
  imports SeaForm DelegatedApi SeaController
begin

text \<open>
  Delegated intents in the web application, under \<open>apps/web/src\<close>: the availability of the feature
  (\<open>hooks/useDelegationCapability.ts\<close>), its error texts (\<open>lib/delegatedErrors.ts\<close>), the persisted
  marker of an unfinished authorization (\<open>lib/delegatedPending.ts\<close>), the grant round trip
  (\<open>hooks/useDelegatedGrant.ts\<close>), the delegated submission (\<open>components/DelegatedCmrToggle.tsx\<close>), and
  the list of intents with its row actions (\<open>components/IntentsPanel.tsx\<close>,
  \<open>DelegatedPendingRowActions.tsx\<close>, \<open>DelegatedIntentRowActions.tsx\<close>).

  The API behind a \<open>fetch\<close> is a record of functions, which \<open>api_client\<close> instantiates with the handlers; the wallet and the state of the smart
  account that the setup panel read on chain are parameters.
\<close>

section \<open>Availability and errors\<close>

definition isDelegatedEnabled :: "penv \<Rightarrow> bool" where
  "isDelegatedEnabled pe \<longleftrightarrow> pe ''NEXT_PUBLIC_SEA_DELEGATED_ENABLED'' = Some ''true''"

datatype wallet_source = Injected | Web3Auth

datatype wallet_support = Supported | Unproven | Unknown

definition walletSupportFor :: "wallet_source option \<Rightarrow> wallet_support" where
  "walletSupportFor s = (case s of Some Injected \<Rightarrow> Supported | Some Web3Auth \<Rightarrow> Unproven | None \<Rightarrow> Unknown)"

record delegation_capability =
  cap_available :: bool
  cap_walletSupport :: wallet_support
  cap_reason :: string

definition useDelegationCapability ::
  "penv \<Rightarrow> wallet_source option \<Rightarrow> bool \<Rightarrow> bool \<Rightarrow> (delegation_status \<times> delegation_caps) option \<Rightarrow> delegation_capability" where
  "useDelegationCapability pe source ready loading backend =
    (let flagOn = isDelegatedEnabled pe;
         ws = walletSupportFor source;
         backendOk = (case backend of None \<Rightarrow> False
           | Some (st, c) \<Rightarrow> ds_enabled st \<and> dp_supported c \<and> NEXUS_SA \<in> set (dp_accountModels c));
         reason =
           (if \<not> flagOn then ''Delegated execution is not enabled.''
            else if \<not> ready then ''Connect a wallet to use delegated execution.''
            else if ws = Unproven then ''Delegated execution isn't available for this wallet yet (Web3Auth is not verified). Use manual confirmation.''
            else if ws = Unknown then ''Connect an injected wallet (e.g. MetaMask) for delegated execution.''
            else if loading then ''Checking delegated availability...''
            else if \<not> backendOk
            then reason_or ''Delegated execution isn't available on this network.'' (case backend of Some (st, _) \<Rightarrow> ds_reason st | None \<Rightarrow> None)
            else '''')
     in \<lparr>cap_available = flagOn \<and> ready \<and> ws = Supported \<and> backendOk, cap_walletSupport = ws, cap_reason = reason\<rparr>)"

definition isNetworkError :: "string \<Rightarrow> bool" where
  "isNetworkError raw \<longleftrightarrow>
    matches_in [''failed to fetch'', ''networkerror'', ''network error'', ''load failed'', ''err_connection'', ''fetch failed'']
      (to_lower raw)"

definition friendlyDelegatedError :: "exn \<Rightarrow> string" where
  "friendlyDelegatedError e =
    (if isNetworkError (exn_message e)
     then ''Could not reach the delegated API. Check that the API is running and retry.'' else exn_message e)"

section \<open>The persisted marker\<close>

datatype pending_status = P_pending | P_error

record pending_entry =
  pe_intentId :: string
  pe_owner :: string
  pe_marketId :: string
  pe_status :: pending_status
  pe_createdAt :: int

text \<open>The entries \<open>readAll\<close> finds, and whether \<open>setItem\<close> succeeds; when it throws, the marker is left.\<close>

record pending_store =
  ps_writable :: bool
  ps_entries :: "pending_entry list"

definition writeAll :: "pending_entry list \<Rightarrow> pending_store \<Rightarrow> pending_store" where
  "writeAll es st = (if ps_writable st then st\<lparr>ps_entries := es\<rparr> else st)"

definition markDelegatedPending :: "int \<Rightarrow> string \<Rightarrow> string \<Rightarrow> string \<Rightarrow> pending_store \<Rightarrow> pending_store" where
  "markDelegatedPending now i owner marketId st =
    (if i = [] \<or> owner = [] \<or> marketId = [] then st
     else
       let entry = \<lparr>pe_intentId = i, pe_owner = to_lower owner, pe_marketId = marketId, pe_status = P_pending,
             pe_createdAt = (case find (\<lambda>e. pe_intentId e = i) (ps_entries st) of Some e \<Rightarrow> pe_createdAt e | None \<Rightarrow> now)\<rparr>
       in if find (\<lambda>e. pe_intentId e = i) (ps_entries st) \<noteq> None
          then writeAll (update_first (\<lambda>e. pe_intentId e = i) (\<lambda>_. entry) (ps_entries st)) st
          else writeAll (ps_entries st @ [entry]) st)"

definition setDelegatedPendingError :: "string \<Rightarrow> pending_store \<Rightarrow> pending_store" where
  "setDelegatedPendingError i st =
    (case find (\<lambda>e. pe_intentId e = i) (ps_entries st) of
       None \<Rightarrow> st
     | Some e \<Rightarrow>
         if pe_status e = P_error then st
         else writeAll (update_first (\<lambda>e. pe_intentId e = i) (\<lambda>e. e\<lparr>pe_status := P_error\<rparr>) (ps_entries st)) st)"

definition clearDelegatedPending :: "string \<Rightarrow> pending_store \<Rightarrow> pending_store" where
  "clearDelegatedPending i st = writeAll (filter (\<lambda>e. pe_intentId e \<noteq> i) (ps_entries st)) st"

text \<open>The snapshot, a \<open>Map\<close> built in order.\<close>

definition pending_snapshot :: "pending_store \<Rightarrow> string \<Rightarrow> pending_entry option" where
  "pending_snapshot st = map_of (rev (map (\<lambda>e. (pe_intentId e, e)) (ps_entries st)))"

section \<open>The grant round trip\<close>

datatype hook_status = H_idle | H_preparing | H_awaiting_signature | H_finalizing | H_active | H_revoking | H_revoked | H_error

record grant_ui =
  gu_status :: hook_status
  gu_error :: "string option"
  gu_accountAddress :: "string option"
  gu_permissionId :: "string option"
  gu_prepare :: "prepare_result option"

definition initialState :: grant_ui where
  "initialState = \<lparr>gu_status = H_idle, gu_error = None, gu_accountAddress = None, gu_permissionId = None, gu_prepare = None\<rparr>"

text \<open>
  What the typed client answers: an exception, an answer with \<open>ok: false\<close> and its reason, or the
  value. The store of the API passes through the writing calls.
\<close>

record deleg_client =
  dk_create :: "create_body \<Rightarrow> deleg \<Rightarrow> intent_dto result \<times> deleg"
  dk_saStatus :: "jval \<Rightarrow> deleg \<Rightarrow> (string + string option) result"
  dk_prepare :: "jval \<Rightarrow> deleg \<Rightarrow> (string + prepare_result) result"
  dk_finalize :: "jval \<Rightarrow> deleg \<Rightarrow> (string + string \<times> string option) result \<times> deleg"
  dk_revoke :: "jval \<Rightarrow> deleg \<Rightarrow> (string + string option \<times> string option) result \<times> deleg"

definition grant_body :: "string \<Rightarrow> string \<Rightarrow> jval" where
  "grant_body i owner = JObj [(''intentId'', JStr i), (''owner'', JStr owner), (''accountModel'', JStr ''NEXUS_SA'')]"

definition finalize_body :: "string \<Rightarrow> string \<Rightarrow> string \<Rightarrow> string \<Rightarrow> string \<Rightarrow> jval" where
  "finalize_body i owner account blob sg =
    JObj [(''intentId'', JStr i), (''owner'', JStr owner), (''accountModel'', JStr ''NEXUS_SA''),
      (''accountAddress'', JStr account), (''sessionBlob'', JStr blob), (''ownerSignature'', JStr sg)]"

definition hook_failed :: "string \<Rightarrow> grant_ui \<Rightarrow> grant_ui" where
  "hook_failed msg s = s\<lparr>gu_status := H_error, gu_error := Some msg\<rparr>"

text \<open>From the prepared session on: the owner signs the digest, the API stores the grant.\<close>

definition sign_and_finalize ::
  "(string \<Rightarrow> string result) \<Rightarrow> deleg_client \<Rightarrow> string \<Rightarrow> string \<Rightarrow> string \<Rightarrow> string \<Rightarrow> string \<Rightarrow> grant_ui \<Rightarrow> deleg \<Rightarrow>
    grant_ui list \<times> deleg" where
  "sign_and_finalize personalSign k owner i digest blob account s d =
    (case personalSign digest of
       Inl e \<Rightarrow> ([hook_failed (exn_message e) s], d)
     | Inr sg \<Rightarrow>
         let s' = s\<lparr>gu_status := H_finalizing\<rparr>
         in (case dk_finalize k (finalize_body i owner account blob sg) d of
               (Inl e, d') \<Rightarrow> ([s', hook_failed (exn_message e) s'], d')
             | (Inr (Inl reason), d') \<Rightarrow> ([s', hook_failed reason s'], d')
             | (Inr (Inr (_, permissionId)), d') \<Rightarrow>
                 ([s', s'\<lparr>gu_status := H_active, gu_permissionId := permissionId\<rparr>], d')))"

text \<open>The states the hook goes through, the last one being where it stops.\<close>

definition createGrant ::
  "(string \<Rightarrow> string result) \<Rightarrow> deleg_client \<Rightarrow> string option \<Rightarrow> string \<Rightarrow> deleg \<Rightarrow> grant_ui list \<times> deleg" where
  "createGrant personalSign k address i d =
    (case non_empty address of
       None \<Rightarrow> ([hook_failed ''Connect wallet first.'' initialState], d)
     | Some owner \<Rightarrow>
         let s = initialState\<lparr>gu_status := H_preparing\<rparr>
         in (case dk_prepare k (grant_body i owner) d of
               Inl e \<Rightarrow> ([s, hook_failed (exn_message e) s], d)
             | Inr (Inl reason) \<Rightarrow> ([s, hook_failed reason initialState], d)
             | Inr (Inr p) \<Rightarrow>
                 (case (non_empty (pr_enableDigest p), non_empty (pr_sessionBlob p), non_empty (pr_accountAddress p)) of
                    (Some digest, Some blob, Some account) \<Rightarrow>
                      let s2 = s\<lparr>gu_status := H_awaiting_signature, gu_accountAddress := Some account, gu_prepare := Some p\<rparr>;
                          r = sign_and_finalize personalSign k owner i digest blob account s2 d
                      in (s # s2 # fst r, snd r)
                  | _ \<Rightarrow> ([s, hook_failed ''prepare_failed'' initialState], d))))"

definition revoke_body :: "string \<Rightarrow> string \<Rightarrow> jval" where
  "revoke_body i owner = JObj [(''intentId'', JStr i), (''owner'', JStr owner)]"

definition hook_revoke :: "deleg_client \<Rightarrow> string option \<Rightarrow> string \<Rightarrow> grant_ui \<Rightarrow> deleg \<Rightarrow> grant_ui \<times> deleg" where
  "hook_revoke k address i s d =
    (case non_empty address of
       None \<Rightarrow> (s, d)
     | Some owner \<Rightarrow>
         (case dk_revoke k (revoke_body i owner) d of
            (Inl e, d') \<Rightarrow> (hook_failed (exn_message e) s, d')
          | (Inr (Inl reason), d') \<Rightarrow> (hook_failed reason s, d')
          | (Inr (Inr _), d') \<Rightarrow> (s\<lparr>gu_status := H_revoked\<rparr>, d')))"

text \<open>The client over the handlers; \<open>txt\<close> is the body of an error response, which \<open>readErr\<close> reads.\<close>

definition thrown :: "(exn \<Rightarrow> string) \<Rightarrow> 'a result \<Rightarrow> 'a result" where
  "thrown txt r = (case r of Inl e \<Rightarrow> Inl (PlainError (txt e)) | Inr v \<Rightarrow> Inr v)"

definition on_sea_api :: "(sea \<Rightarrow> 'a result \<times> sea) \<Rightarrow> deleg \<Rightarrow> 'a result \<times> deleg" where
  "on_sea_api f d = (let r = f (de_sea d) in (fst r, d\<lparr>de_sea := snd r\<rparr>))"

definition api_client ::
  "deleg_world \<Rightarrow> delegation_config \<Rightarrow> (exn \<Rightarrow> string) \<Rightarrow>
    (string \<Rightarrow> account_model \<Rightarrow> string \<Rightarrow> int \<Rightarrow> string \<Rightarrow> (string + string option) result) \<Rightarrow> int \<Rightarrow> string \<Rightarrow> string \<Rightarrow> deleg_client" where
  "api_client x cfg txt sa now newId gid =
    \<lparr>dk_create = (\<lambda>body d. apfst (thrown txt) (on_sea_api (post_create (dx_sea x) now newId body) d)),
     dk_saStatus = (\<lambda>q d. thrown txt (get_saStatus x cfg sa q d)),
     dk_prepare = (\<lambda>body d. thrown txt (post_prepare x cfg body d)),
     dk_finalize = (\<lambda>body d. apfst (thrown txt) (post_finalize x cfg now gid body d)),
     dk_revoke = (\<lambda>body d. apfst (thrown txt) (post_revoke x cfg now body d))\<rparr>"

section \<open>Submitting a delegated intent\<close>

text \<open>The part of the setup state that gates the submission, read on chain by \<open>readSaSetupState\<close>.\<close>

record sa_setup =
  su_deployed :: bool
  su_moduleInstalled :: bool
  su_tokenBalanceQ :: string
  su_allowanceQ :: string

text \<open>\<open>getSubmitParams\<close> of \<open>ConditionalTab.tsx\<close>.\<close>

definition getSubmitParams :: "units \<Rightarrow> web_market option \<Rightarrow> int \<Rightarrow> sea_form \<Rightarrow> create_params option result" where
  "getSubmitParams u mkt nowMs f =
    bind_res (form_validation u mkt f) (\<lambda>v. Inr (if snd v
      then Some \<lparr>cp_side = sf_side f, cp_sizeBaseHuman = sf_sizeHuman f, cp_limitPriceHuman = [],
        cp_triggerPriceHuman = sf_triggerPriceHuman f, cp_expirySec = None, cp_tif = Some FOK,
        cp_expiresAtUnix = nowMs div 1000 + sf_cmrExpirySec f, cp_meta = None\<rparr>
      else None))"

definition requiredSpendQ :: "penv \<Rightarrow> units \<Rightarrow> web_market option \<Rightarrow> create_params option \<Rightarrow> int option" where
  "requiredSpendQ pe u mkt params =
    (case (mkt, params) of
       (Some m, Some p) \<Rightarrow> estimateRequiredSpendQ u (cp_side p) (cp_sizeBaseHuman p) (cp_triggerPriceHuman p)
         (wm_baseDecimals m) (wm_quoteDecimals m) (resolveSpendBufferBps (Some (web_fee_bps pe)))
     | _ \<Rightarrow> None)"

definition setupComplete :: "sa_setup option \<Rightarrow> int option \<Rightarrow> bool result" where
  "setupComplete setup required =
    (case setup of
       None \<Rightarrow> Inr False
     | Some st \<Rightarrow>
         bind_res (str_to_bigint (su_tokenBalanceQ st)) (\<lambda>balQ.
         bind_res (str_to_bigint (su_allowanceQ st)) (\<lambda>allowQ.
           let oks = (case required of
                 Some r \<Rightarrow> if 0 < r then (r \<le> balQ, r \<le> allowQ) else (0 < balQ, balQ \<le> allowQ \<and> 0 < balQ)
               | None \<Rightarrow> (0 < balQ, balQ \<le> allowQ \<and> 0 < balQ))
           in Inr (su_deployed st \<and> su_moduleInstalled st \<and> fst oks \<and> snd oks))))"

record toggle_ui =
  tu_intent :: "intent_dto option"
  tu_requiredTokenQ :: "string option"
  tu_submitting :: bool
  tu_submitErr :: "string option"
  tu_grant :: grant_ui

definition toggle_start :: toggle_ui where
  "toggle_start = \<lparr>tu_intent = None, tu_requiredTokenQ = None, tu_submitting = False, tu_submitErr = None, tu_grant = initialState\<rparr>"

text \<open>\<open>!!requiredSpendQ\<close> is false for \<open>0n\<close> as well.\<close>

definition canSubmit :: "bool \<Rightarrow> int option \<Rightarrow> toggle_ui \<Rightarrow> bool" where
  "canSubmit setupOk required ui \<longleftrightarrow> setupOk \<and> required \<noteq> None \<and> required \<noteq> Some 0 \<and> \<not> tu_submitting ui \<and>
    gu_status (tu_grant ui) = H_idle \<and> tu_intent ui = None"

text \<open>The effect on the marker of every state of the hook.\<close>

definition reflect_grant :: "string \<Rightarrow> grant_ui \<Rightarrow> pending_store \<Rightarrow> pending_store" where
  "reflect_grant i g st =
    (case gu_status g of H_active \<Rightarrow> clearDelegatedPending i st | H_error \<Rightarrow> setDelegatedPendingError i st | _ \<Rightarrow> st)"

text \<open>The clocks: \<open>nowMs\<close> of the form, \<open>markMs\<close> of the marker. \<open>marketId\<close> is \<open>market.id\<close>.\<close>

record submit_env =
  sb_units :: units
  sb_penv :: penv
  sb_otherNum :: "jnum \<Rightarrow> string"
  sb_wallet :: sea_wallet
  sb_chainId :: int
  sb_client :: deleg_client
  sb_nowMs :: int
  sb_markMs :: int

definition refused :: "string \<Rightarrow> toggle_ui \<Rightarrow> toggle_ui" where
  "refused msg ui = ui\<lparr>tu_submitErr := Some msg\<rparr>"

text \<open>After the intent exists: mark it, preview the policy, attach the grant.\<close>

definition attach_grant ::
  "submit_env \<Rightarrow> string \<Rightarrow> string \<Rightarrow> intent_dto \<Rightarrow> toggle_ui \<Rightarrow> pending_store \<Rightarrow> deleg \<Rightarrow>
    toggle_ui \<times> pending_store \<times> deleg" where
  "attach_grant e address marketId created ui st d =
    (let i = dt_id created;
         st1 = markDelegatedPending (sb_markMs e) i address marketId st;
         preview = (case dk_saStatus (sb_client e) (grant_body i address) d of Inr (Inr q) \<Rightarrow> non_empty q | _ \<Rightarrow> None);
         r = createGrant (wl_personalSign (sb_wallet e)) (sb_client e) (Some address) i d
     in (ui\<lparr>tu_intent := Some created,
           tu_requiredTokenQ := (case preview of Some q \<Rightarrow> Some q | None \<Rightarrow> tu_requiredTokenQ ui),
           tu_grant := last (fst r)\<rparr>,
         fold (reflect_grant i) (fst r) st1, snd r))"

definition submitDelegated ::
  "submit_env \<Rightarrow> string \<Rightarrow> web_market option \<Rightarrow> sea_form \<Rightarrow> sa_setup option \<Rightarrow> toggle_ui \<Rightarrow> pending_store \<Rightarrow> deleg \<Rightarrow>
    (toggle_ui \<times> pending_store \<times> deleg) result" where
  "submitDelegated e marketId mkt f setup ui st d =
    (case (mkt, non_empty (wl_address (sb_wallet e))) of
       (Some m, Some address) \<Rightarrow>
         bind_res (getSubmitParams (sb_units e) mkt (sb_nowMs e) f) (\<lambda>params. case params of
           None \<Rightarrow> Inr (refused ''Fill in a valid size and trigger price first.'' ui, st, d)
         | Some p \<Rightarrow>
             bind_res (setupComplete setup (requiredSpendQ (sb_penv e) (sb_units e) mkt params)) (\<lambda>setupOk.
               if \<not> setupOk
               then Inr (refused ''Smart account setup isn't complete yet. Finish every step above first.'' ui, st, d)
               else
                 let ui0 = ui\<lparr>tu_submitErr := None\<rparr> in
                 (case createCMR (sb_units e) (sb_otherNum e) (sb_wallet e) (sb_chainId e) m p of
                   Inl x \<Rightarrow> Inr (refused (friendlyDelegatedError x) ui0, st, d)
                 | Inr posted \<Rightarrow>
                     (case posted of
                        PostedTuple _ _ \<Rightarrow> Inr (ui0, st, d)
                      | Posted body \<Rightarrow>
                          (case dk_create (sb_client e) body d of
                             (Inl x, d') \<Rightarrow> Inr (refused (friendlyDelegatedError x) ui0, st, d')
                           | (Inr created, d') \<Rightarrow> Inr (attach_grant e address marketId created ui0 st d'))))))
     | _ \<Rightarrow> Inr (ui, st, d))"

text \<open>The button: the submission, when it is enabled.\<close>

definition press_submit ::
  "submit_env \<Rightarrow> string \<Rightarrow> web_market option \<Rightarrow> sea_form \<Rightarrow> sa_setup option \<Rightarrow> toggle_ui \<Rightarrow> pending_store \<Rightarrow> deleg \<Rightarrow>
    (toggle_ui \<times> pending_store \<times> deleg) result" where
  "press_submit e marketId mkt f setup ui st d =
    bind_res (getSubmitParams (sb_units e) mkt (sb_nowMs e) f) (\<lambda>params.
      let required = requiredSpendQ (sb_penv e) (sb_units e) mkt params
      in bind_res (setupComplete setup required) (\<lambda>setupOk.
           if canSubmit setupOk required ui then submitDelegated e marketId mkt f setup ui st d else Inr (ui, st, d)))"

definition startOver :: "toggle_ui \<Rightarrow> pending_store \<Rightarrow> toggle_ui \<times> pending_store" where
  "startOver ui st =
    (ui\<lparr>tu_intent := None, tu_requiredTokenQ := None, tu_submitErr := None, tu_grant := initialState\<rparr>,
     case tu_intent ui of Some i \<Rightarrow> clearDelegatedPending (dt_id i) st | None \<Rightarrow> st)"

section \<open>The list of intents\<close>

record intents_panel =
  ip_intents :: "intent_dto list"
  ip_err :: "string option"
  ip_grants :: "(string \<times> grant_summary) list"

definition panel_start :: intents_panel where
  "panel_start = \<lparr>ip_intents = [], ip_err = None, ip_grants = []\<rparr>"

text \<open>
  \<open>hydrate\<close> in its two parts, between which the panel renders: the rows, and then the grants, a
  \<open>Map\<close> with the last one first here. A failed read of the grants empties the map.
\<close>

definition hydrate_rows :: "intent_dto list result \<Rightarrow> intents_panel \<Rightarrow> intents_panel" where
  "hydrate_rows reply pn =
    (case reply of
       Inl e \<Rightarrow> pn\<lparr>ip_err := Some (exn_message e)\<rparr>
     | Inr rows \<Rightarrow> pn\<lparr>ip_intents := rows, ip_err := None\<rparr>)"

definition hydrate_grants ::
  "grant_summary list result \<Rightarrow> intents_panel \<times> pending_store \<Rightarrow> intents_panel \<times> pending_store" where
  "hydrate_grants reply s =
    (case reply of
       Inl e \<Rightarrow> ((fst s)\<lparr>ip_grants := []\<rparr>, snd s)
     | Inr gs \<Rightarrow>
         ((fst s)\<lparr>ip_grants := rev (map (\<lambda>g. (gs_intentId g, g)) gs)\<rparr>,
          fold (\<lambda>g. clearDelegatedPending (gs_intentId g)) gs (snd s)))"

definition hydrate ::
  "bool \<Rightarrow> string option \<Rightarrow> intent_dto list result \<Rightarrow> grant_summary list result \<Rightarrow>
    intents_panel \<times> pending_store \<Rightarrow> intents_panel \<times> pending_store" where
  "hydrate delegated address rows grants s =
    (case non_empty address of
       None \<Rightarrow> ((fst s)\<lparr>ip_intents := []\<rparr>, snd s)
     | Some _ \<Rightarrow>
         let s1 = (hydrate_rows rows (fst s), snd s)
         in if isl rows \<or> \<not> delegated then s1 else hydrate_grants grants s1)"

definition HISTORY_STATUSES :: "intent_status set" where
  "HISTORY_STATUSES = {S_CANCELLED, S_FAILED, S_EXPIRED, S_EXECUTED, S_REJECTED, S_PLACED}"

definition visibleIntents :: "string option \<Rightarrow> intents_panel \<Rightarrow> intent_dto list" where
  "visibleIntents marketId pn = (case marketId of None \<Rightarrow> [] | Some m \<Rightarrow> filter (\<lambda>i. dt_marketId i = m) (ip_intents pn))"

definition liveIntents :: "string option \<Rightarrow> intents_panel \<Rightarrow> intent_dto list" where
  "liveIntents marketId pn = filter (\<lambda>i. dt_status i \<notin> HISTORY_STATUSES) (visibleIntents marketId pn)"

definition historyIntents :: "string option \<Rightarrow> intents_panel \<Rightarrow> intent_dto list" where
  "historyIntents marketId pn = filter (\<lambda>i. dt_status i \<in> HISTORY_STATUSES) (visibleIntents marketId pn)"

definition POLL_IDLE_MS :: int where
  "POLL_IDLE_MS = 5000"

definition POLL_READY_MS :: int where
  "POLL_READY_MS = 1000"

definition poll_interval :: "string option \<Rightarrow> intents_panel \<Rightarrow> int" where
  "poll_interval marketId pn =
    (if list_ex (\<lambda>i. dt_status i = S_READY) (liveIntents marketId pn) then POLL_READY_MS else POLL_IDLE_MS)"

definition pendingEntryFor :: "pending_store \<Rightarrow> intent_dto \<Rightarrow> string option \<Rightarrow> pending_entry option" where
  "pendingEntryFor st intent owner =
    (case pending_snapshot st (dt_id intent) of
       None \<Rightarrow> None
     | Some e \<Rightarrow>
         (case non_empty owner of
            None \<Rightarrow> Some e
          | Some a \<Rightarrow> if pe_owner e \<noteq> to_lower a then None else Some e))"

datatype row_view = DelegatedRow grant_summary | PendingRow pending_entry | ManualRow | NoActions

definition readyCmr :: "intent_dto \<Rightarrow> bool" where
  "readyCmr i \<longleftrightarrow> dt_type i = T_CONDITIONAL_MARKET_READY \<and> dt_status i = S_READY"

text \<open>The actions of a live row; the market is selected.\<close>

definition row_actions :: "string option \<Rightarrow> intents_panel \<times> pending_store \<Rightarrow> intent_dto \<Rightarrow> row_view" where
  "row_actions address s intent =
    (case map_of (ip_grants (fst s)) (dt_id intent) of
       Some g \<Rightarrow> DelegatedRow g
     | None \<Rightarrow>
         (case pendingEntryFor (snd s) intent address of
            Some e \<Rightarrow> PendingRow e
          | None \<Rightarrow> if readyCmr intent then ManualRow else NoActions))"

definition row_cancellable :: "intent_dto \<Rightarrow> bool" where
  "row_cancellable i \<longleftrightarrow> dt_status i \<in> {S_DRAFT, S_ACTIVE, S_READY}"

definition priceTicksToQuoteHuman :: "units \<Rightarrow> web_market \<Rightarrow> string \<Rightarrow> string option" where
  "priceTicksToQuoteHuman u m priceTicks =
    (case (str_to_bigint priceTicks, str_to_bigint (wm_priceTickQ m)) of
       (Inr ticks, Inr tickQ) \<Rightarrow> Some (un_format u (ticks * tickQ) (wm_quoteDecimals m))
     | _ \<Rightarrow> None)"

section \<open>Row actions\<close>

text \<open>\<open>DelegatedPendingRowActions\<close>: resume the round trip, or give the intent back to its owner.\<close>

definition pending_busy :: "grant_ui \<Rightarrow> bool" where
  "pending_busy g \<longleftrightarrow> gu_status g \<in> {H_preparing, H_awaiting_signature, H_finalizing}"

definition pending_errored :: "grant_ui \<Rightarrow> pending_entry \<Rightarrow> bool" where
  "pending_errored g e \<longleftrightarrow> gu_status g = H_error \<or> pe_status e = P_error"

definition resume_effect :: "string \<Rightarrow> grant_ui \<Rightarrow> pending_store \<Rightarrow> pending_store" where
  "resume_effect i g st = (if gu_status g = H_active then clearDelegatedPending i st else st)"

definition returnToManual :: "string \<Rightarrow> pending_store \<Rightarrow> grant_ui \<times> pending_store" where
  "returnToManual i st = (initialState, clearDelegatedPending i st)"

text \<open>\<open>DelegatedIntentRowActions\<close>.\<close>

record delegated_row =
  dr_disableCall :: "(string \<times> string) option"
  dr_disableTx :: "string option"
  dr_err :: "string option"

definition row_onRevoke :: "deleg_client \<Rightarrow> string option \<Rightarrow> string \<Rightarrow> delegated_row \<Rightarrow> deleg \<Rightarrow> delegated_row \<times> deleg" where
  "row_onRevoke k address i ui d =
    (case non_empty address of
       None \<Rightarrow> (ui, d)
     | Some owner \<Rightarrow>
         let ui0 = ui\<lparr>dr_err := None\<rparr>
         in (case dk_revoke k (revoke_body i owner) d of
               (Inl e, d') \<Rightarrow> (ui0\<lparr>dr_err := Some (friendlyDelegatedError e)\<rparr>, d')
             | (Inr (Inl reason), d') \<Rightarrow> (ui0\<lparr>dr_err := Some reason\<rparr>, d')
             | (Inr (Inr (to, dat)), d') \<Rightarrow>
                 ((case (non_empty to, non_empty dat) of
                     (Some t, Some c) \<Rightarrow> if t \<noteq> ''0x'' \<and> c \<noteq> ''0x'' then ui0\<lparr>dr_disableCall := Some (t, c)\<rparr> else ui0
                   | _ \<Rightarrow> ui0), d')))"

definition revertReason :: "attempt_summary list \<Rightarrow> intent_dto \<Rightarrow> string option" where
  "revertReason attempts intent =
    (case find (\<lambda>a. as_decision a \<in> {D_FAILED, D_REJECTED} \<and> non_empty (as_reason a) \<noteq> None) attempts of
       Some a \<Rightarrow> as_reason a
     | None \<Rightarrow> if dt_status intent = S_FAILED then non_empty (dt_failureReason intent) else None)"

definition isUserOpRevert :: "string option \<Rightarrow> bool" where
  "isUserOpRevert reason \<longleftrightarrow>
    matches_in [''userop_failed'', ''reverted'', ''revert'', ''aa2'', ''execution''] (to_lower (case reason of Some r \<Rightarrow> r | None \<Rightarrow> []))"

definition onDisableOnChain :: "(string \<Rightarrow> string \<Rightarrow> string result) \<Rightarrow> delegated_row \<Rightarrow> delegated_row" where
  "onDisableOnChain sendTransaction ui =
    (case dr_disableCall ui of
       None \<Rightarrow> ui
     | Some (to, dat) \<Rightarrow>
         (case sendTransaction to dat of
            Inl e \<Rightarrow> ui\<lparr>dr_err := Some (exn_message e)\<rparr>
          | Inr tx \<Rightarrow> ui\<lparr>dr_err := None, dr_disableTx := Some tx\<rparr>))"

definition revoke_offered :: "grant_summary \<Rightarrow> bool" where
  "revoke_offered g \<longleftrightarrow> gs_status g = G_ACTIVE"

end
