(* ===== verification/WebDelegatedProps.thy ===== *)
theory WebDelegatedProps
  imports WebDelegated SeaFormProps
begin

text \<open>
  Delegated intents across the web application and the API: a grant the form made covers no more than
  the smart account was seen to hold, and the list of intents offers the manual execution of an
  intent exactly when its history says so.
\<close>

section \<open>The list of intents\<close>

text \<open>What happens to the panel and the marker of one owner; lists of events have the latest first.\<close>

datatype panel_event =
    Marked int string string
  | Reflected string grant_ui
  | Returned string
  | RowsRead "intent_dto list result"
  | GrantsRead "grant_summary list result"
  | Reloaded

fun row_step :: "string \<Rightarrow> panel_event \<Rightarrow> intents_panel \<times> pending_store \<Rightarrow> intents_panel \<times> pending_store" where
  "row_step owner (Marked t i m) (pn, st) = (pn, markDelegatedPending t i owner m st)"
| "row_step owner (Reflected i g) (pn, st) = (pn, reflect_grant i g st)"
| "row_step owner (Returned i) (pn, st) = (pn, snd (returnToManual i st))"
| "row_step owner (RowsRead r) (pn, st) = (hydrate_rows r pn, st)"
| "row_step owner (GrantsRead r) s = hydrate_grants r s"
| "row_step owner Reloaded (pn, st) = (panel_start, st)"

fun panel_after :: "string \<Rightarrow> panel_event list \<Rightarrow> intents_panel \<times> pending_store" where
  "panel_after owner [] = (panel_start, \<lparr>ps_writable = True, ps_entries = []\<rparr>)"
| "panel_after owner (e # es) = row_step owner e (panel_after owner es)"

text \<open>The authorization was started, and neither finished nor given up since.\<close>

fun unfinished :: "panel_event list \<Rightarrow> string \<Rightarrow> bool" where
  "unfinished [] i = False"
| "unfinished (e # es) i =
    (case e of
       Marked _ j m \<Rightarrow> (j = i \<and> i \<noteq> [] \<and> m \<noteq> []) \<or> unfinished es i
     | Reflected j g \<Rightarrow> unfinished es i \<and> \<not> (j = i \<and> gu_status g = H_active)
     | Returned j \<Rightarrow> unfinished es i \<and> j \<noteq> i
     | GrantsRead (Inr gs) \<Rightarrow> unfinished es i \<and> i \<notin> gs_intentId ` set gs
     | _ \<Rightarrow> unfinished es i)"

text \<open>The last read of the grants since the page was loaded succeeded and had one for the intent.\<close>

fun grant_seen :: "panel_event list \<Rightarrow> string \<Rightarrow> bool" where
  "grant_seen [] i = False"
| "grant_seen (e # es) i =
    (case e of
       GrantsRead (Inr gs) \<Rightarrow> i \<in> gs_intentId ` set gs
     | GrantsRead (Inl _) \<Rightarrow> False
     | Reloaded \<Rightarrow> False
     | _ \<Rightarrow> grant_seen es i)"

abbreviation pending_ids :: "pending_store \<Rightarrow> string set" where
  "pending_ids st \<equiv> pe_intentId ` set (ps_entries st)"

definition store_of :: "string \<Rightarrow> pending_store \<Rightarrow> bool" where
  "store_of owner st \<longleftrightarrow> ps_writable st \<and> (\<forall>e \<in> set (ps_entries st). pe_owner e = to_lower owner)"

lemma pending_clear:
  assumes "store_of owner st"
  shows "store_of owner (clearDelegatedPending i st)" "pending_ids (clearDelegatedPending i st) = pending_ids st - {i}"
  using assms by (auto simp: store_of_def clearDelegatedPending_def writeAll_def)

lemma pending_rewritten:
  assumes "\<And>e. P e \<Longrightarrow> pe_intentId (h e) = pe_intentId e" "\<And>e. pe_owner e = a \<Longrightarrow> pe_owner (h e) = a"
  shows "pe_intentId ` set (update_first P h es) = pe_intentId ` set es"
    and "\<forall>e \<in> set es. pe_owner e = a \<Longrightarrow> \<forall>e \<in> set (update_first P h es). pe_owner e = a"
proof -
  have "map pe_intentId (update_first P h es) = map pe_intentId es" using assms(1) by (intro map_update_first)
  then show "pe_intentId ` set (update_first P h es) = pe_intentId ` set es" by (metis list.set_map)
  show "\<forall>e \<in> set es. pe_owner e = a \<Longrightarrow> \<forall>e \<in> set (update_first P h es). pe_owner e = a"
    using set_update_first [of P h es] assms(2) by blast
qed

lemma pending_error:
  assumes "store_of owner st"
  shows "store_of owner (setDelegatedPendingError i st)" "pending_ids (setDelegatedPendingError i st) = pending_ids st"
proof -
  let ?es = "update_first (\<lambda>e. pe_intentId e = i) (\<lambda>e. e\<lparr>pe_status := P_error\<rparr>) (ps_entries st)"
  have st: "setDelegatedPendingError i st = st \<or> setDelegatedPendingError i st = writeAll ?es st"
    by (simp add: setDelegatedPendingError_def split: option.split)
  have "pe_intentId ` set ?es = pending_ids st" by (rule pending_rewritten) simp_all
  moreover have "\<forall>e \<in> set ?es. pe_owner e = to_lower owner"
    using assms by (intro pending_rewritten) (simp_all add: store_of_def)
  ultimately show "store_of owner (setDelegatedPendingError i st)" "pending_ids (setDelegatedPendingError i st) = pending_ids st"
    using st assms by (auto simp: store_of_def writeAll_def)
qed

lemma pending_mark:
  assumes "store_of owner st" "owner \<noteq> []"
  shows "store_of owner (markDelegatedPending t i owner m st)"
    "pending_ids (markDelegatedPending t i owner m st) = (if i = [] \<or> m = [] then pending_ids st else insert i (pending_ids st))"
proof -
  define x where "x = \<lparr>pe_intentId = i, pe_owner = to_lower owner, pe_marketId = m, pe_status = P_pending,
    pe_createdAt = (case find (\<lambda>e. pe_intentId e = i) (ps_entries st) of Some e \<Rightarrow> pe_createdAt e | None \<Rightarrow> t)\<rparr>"
  have x: "pe_intentId x = i" "pe_owner x = to_lower owner" by (simp_all add: x_def)
  have f: "find (\<lambda>e. pe_intentId e = i) (ps_entries st) = None \<longleftrightarrow> i \<notin> pending_ids st" by (auto simp: find_None_iff)
  have mk: "markDelegatedPending t i owner m st = (if i = [] \<or> m = [] then st
    else if i \<in> pending_ids st then writeAll (update_first (\<lambda>e. pe_intentId e = i) (\<lambda>_. x) (ps_entries st)) st
    else writeAll (ps_entries st @ [x]) st)"
    using assms(2) f by (simp add: markDelegatedPending_def x_def Let_def)
  note r = pending_rewritten [where h = "\<lambda>_. x" and a = "to_lower owner" and P = "\<lambda>e. pe_intentId e = i" and es = "ps_entries st"]
  show "store_of owner (markDelegatedPending t i owner m st)"
    "pending_ids (markDelegatedPending t i owner m st) = (if i = [] \<or> m = [] then pending_ids st else insert i (pending_ids st))"
    unfolding mk using assms(1) r x by (auto simp: store_of_def writeAll_def)
qed

lemma pending_cleared:
  assumes "store_of owner st"
  shows "store_of owner (fold (\<lambda>g. clearDelegatedPending (gs_intentId g)) gs st)"
    "pending_ids (fold (\<lambda>g. clearDelegatedPending (gs_intentId g)) gs st) = pending_ids st - gs_intentId ` set gs"
  using assms by (induction gs arbitrary: st) (auto simp: pending_clear)

lemma pending_history:
  assumes "owner \<noteq> []"
  shows "store_of owner (snd (panel_after owner es)) \<and> pending_ids (snd (panel_after owner es)) = {i. unfinished es i}"
proof (induction es)
  case Nil
  then show ?case by (simp add: store_of_def)
next
  case (Cons e es)
  obtain pn st where s: "panel_after owner es = (pn, st)" by (cases "panel_after owner es")
  have ok: "store_of owner st" and ids: "pending_ids st = {i. unfinished es i}" using Cons s by simp_all
  show ?case
  proof (cases e)
    case (Marked t i m)
    then show ?thesis using pending_mark [OF ok assms, of t i m] ids by (auto simp: s)
  next
    case (Reflected i g)
    then show ?thesis using pending_clear [OF ok, of i] pending_error [OF ok, of i] ok ids
      by (cases "gu_status g") (auto simp: s reflect_grant_def)
  next
    case (Returned i)
    then show ?thesis using pending_clear [OF ok, of i] ids by (auto simp: s returnToManual_def)
  next
    case (GrantsRead r)
    then show ?thesis using pending_cleared [OF ok] ok ids by (cases r) (auto simp: s hydrate_grants_def)
  qed (use ok ids in \<open>auto simp: s\<close>)
qed

lemma grants_history: "dom (map_of (ip_grants (fst (panel_after owner es)))) = {i. grant_seen es i}"
proof (induction es)
  case Nil
  then show ?case by (simp add: panel_start_def)
next
  case (Cons e es)
  obtain pn st where s: "panel_after owner es = (pn, st)" by (cases "panel_after owner es")
  show ?case
  proof (cases e)
    case (GrantsRead r)
    then show ?thesis
      by (cases r) (auto simp: s hydrate_grants_def dom_map_of_conv_image_fst image_image)
  qed (use Cons s in \<open>auto simp: panel_start_def hydrate_rows_def split: sum.split\<close>)
qed

lemma pending_entry_shown:
  assumes "store_of owner st"
  shows "pendingEntryFor st r (Some owner) = None \<longleftrightarrow> dt_id r \<notin> pending_ids st"
proof (cases "pending_snapshot st (dt_id r)")
  case None
  then have "dt_id r \<notin> pending_ids st" by (simp add: pending_snapshot_def map_of_eq_None_iff image_image)
  with None show ?thesis by (simp add: pendingEntryFor_def)
next
  case (Some e)
  then have "(dt_id r, e) \<in> (\<lambda>e. (pe_intentId e, e)) ` set (ps_entries st)"
    by (auto simp: pending_snapshot_def dest: map_of_SomeD)
  then have e: "e \<in> set (ps_entries st)" "pe_intentId e = dt_id r" by auto
  then have "pe_owner e = to_lower owner" "dt_id r \<in> pending_ids st" using assms by (auto simp: store_of_def intro: rev_image_eqI)
  with Some show ?thesis by (simp add: pendingEntryFor_def non_empty_def)
qed

text \<open>
  The list of intents of a wallet keeps to the history of what happened in it, through reloads of
  the page: a row has the actions of a delegated intent exactly if the last read of the grants since
  the page was loaded showed a grant for it, those of an unfinished authorization exactly if no grant
  is shown and an authorization was started that neither finished, nor was given up, nor had its
  grant seen since, and offers the manual execution exactly if it is a market intent that is ready
  and none of this is so. In particular an interrupted authorization is never turned into a manual
  execution by a reload or a failed request.
\<close>

theorem intent_rows_follow_history:
  assumes "owner \<noteq> []" and "s = panel_after owner es"
  shows "((\<exists>g. row_actions (Some owner) s r = DelegatedRow g) \<longleftrightarrow> grant_seen es (dt_id r)) \<and>
    ((\<exists>e. row_actions (Some owner) s r = PendingRow e) \<longleftrightarrow> \<not> grant_seen es (dt_id r) \<and> unfinished es (dt_id r)) \<and>
    (row_actions (Some owner) s r = ManualRow \<longleftrightarrow>
       readyCmr r \<and> \<not> grant_seen es (dt_id r) \<and> \<not> unfinished es (dt_id r))"
proof -
  have g: "map_of (ip_grants (fst s)) (dt_id r) = None \<longleftrightarrow> \<not> grant_seen es (dt_id r)"
    using arg_cong [OF grants_history [of owner es], of "\<lambda>A. dt_id r \<in> A"] assms(2)
    by (cases "map_of (ip_grants (fst (panel_after owner es))) (dt_id r)") (simp_all add: domIff)
  have "store_of owner (snd s)" "pending_ids (snd s) = {i. unfinished es i}"
    using pending_history [OF assms(1)] assms(2) by auto
  then have "pendingEntryFor (snd s) r (Some owner) = None \<longleftrightarrow> \<not> unfinished es (dt_id r)"
    using pending_entry_shown by auto
  with g show ?thesis by (auto simp: row_actions_def split: option.splits)
qed

text \<open>A grant that was seen clears the marker, so after a reload nothing marks the intent until the grants are read.\<close>

lemma reload_offers_manual:
  assumes "owner \<noteq> []" and "readyCmr r" and "dt_id r = gs_intentId g"
  shows "row_actions (Some owner) (panel_after owner [RowsRead (Inr [r]), Reloaded, GrantsRead (Inr [g])]) r = ManualRow"
proof -
  let ?es = "[RowsRead (Inr [r]), Reloaded, GrantsRead (Inr [g])]"
  have "pending_ids (snd (panel_after owner ?es)) = {i. unfinished ?es i}" "store_of owner (snd (panel_after owner ?es))"
    using pending_history [OF assms(1)] by blast+
  then have "pendingEntryFor (snd (panel_after owner ?es)) r (Some owner) = None"
    by (simp add: pending_entry_shown)
  moreover have "ip_grants (fst (panel_after owner ?es)) = []" by (simp add: hydrate_grants_def panel_start_def hydrate_rows_def)
  ultimately show ?thesis using assms(2) by (simp add: row_actions_def)
qed

text \<open>
  A revoked grant is still listed, so its intent keeps the actions of a delegated one and never gets
  those of a manual one.
\<close>

lemma revoked_intent_stays_delegated:
  assumes rev: "post_revoke x cfg now (revoke_body i owner) d = (Inr (Inr call), d')"
    and lower: "\<forall>g \<in> set (de_grants d). to_lower (gr_owner g) = gr_owner g"
    and read: "get_grants cfg (JObj [(''owner'', JStr owner)]) d' = Inr gs" and "dt_id r = i"
  shows "(\<exists>g \<in> set gs. gs_intentId g = i \<and> gs_status g = G_REVOKED) \<and> (\<exists>g. row_actions a (hydrate_grants (Inr gs) s) r = DelegatedRow g)"
proof -
  have run: "revoke x cfg now i owner d = (Inr (Inr call), d')"
    using rev by (auto simp: post_revoke_def api_guard_def revokeGrantBodySchema_def revoke_body_def zod_min1_def zod_address_def
        split: if_splits option.splits)
  obtain g where g: "findByIntentId i (de_grants d) = Some g" "to_lower (gr_owner g) = to_lower owner"
    and d': "de_grants d' = update_where (\<lambda>r. gr_id r = gr_id g) (stamp_grant now G_REVOKED) (de_grants d)"
    using run by (auto simp: revoke_def markStatus_def split: option.splits if_splits sum.splits)
  have "g \<in> set (de_grants d)" "gr_intentId g = i" using g(1) by (auto simp: findByIntentId_def dest: row_by_SomeD)
  then have "stamp_grant now G_REVOKED g \<in> set (listGrantsByOwner owner (de_grants d'))"
    using lower g(2) by (auto simp: d' listGrantsByOwner_def stamp_grant_def set_update_where image_iff)
  moreover have "gs = listGrants owner d'"
    using read by (auto simp: get_grants_def api_guard_def grantsQuerySchema_def zod_address_def split: if_splits option.splits)
  ultimately have "grant_summary_of (stamp_grant now G_REVOKED g) \<in> set gs" by (simp add: listGrants_def)
  then have ex: "\<exists>g \<in> set gs. gs_intentId g = i \<and> gs_status g = G_REVOKED"
    using \<open>gr_intentId g = i\<close> by (intro bexI) (simp_all add: grant_summary_of_def stamp_grant_def)
  then have "map_of (rev (map (\<lambda>g. (gs_intentId g, g)) gs)) i \<noteq> None" by (auto simp: map_of_eq_None_iff image_image)
  with ex assms(4) show ?thesis by (auto simp: row_actions_def hydrate_grants_def)
qed

section \<open>The stored intent\<close>





section \<open>The grant\<close>




section \<open>The amounts\<close>




section \<open>Pressing the button\<close>










section \<open>A sample submission\<close>

definition dg_env :: "string \<Rightarrow> penv" where
  "dg_env bps k =
    (if k = ''PROFILE'' then Some ''sepolia'' else if k = ''SEA_DELEGATED_ENABLED'' then Some ''1''
     else if k = ''DELEGATION_SESSION_SIGNER_PK'' then Some ''0x01'' else if k = ''ZEROEX_EXCHANGE_PROXY'' then Some (hex_addr CHR ''d'')
     else if k = ''DELEGATION_FEE_BUFFER_BPS'' then Some bps else None)"

definition dg_abi :: abi_ext where
  "dg_abi = \<lparr>ab_fill = (\<lambda>o' sg n. Inr []), ab_batchFill = (\<lambda>os sgs ns r. Inr []), ab_cancel = (\<lambda>o'. Inr []),
     ab_cancelPair = (\<lambda>m t s. Inr [])\<rparr>"

text \<open>A provider that prepares and accepts every session.\<close>

definition dg_world :: "string \<Rightarrow> deleg_world" where
  "dg_world bps =
    \<lparr>dx_sea = sample_sx\<lparr>sx_env := dg_env bps\<rparr>, dx_sessionAddress = Inr (hex_addr CHR ''f''),
     dx_prepare = (\<lambda>i ow md p k. Inr (Inr \<lparr>pr_accountAddress = Some (hex_addr CHR ''e''), pr_needsDelegation = Some False,
       pr_delegationImplementation = None, pr_enableDigest = Some ''0x08'', pr_sessionBlob = Some ''{}''\<rparr>)),
     dx_finalize = (\<lambda>i ow b sg. Inr (Inr \<lparr>fr_permissionId = Some ''0x05'', fr_enableData = Some ''0x06''\<rparr>)),
     dx_revoke = (\<lambda>i ow a p. Inr (Inr (Some ''0x02'', Some ''0x03''))),
     dx_execute = (\<lambda>rq. Inl TypeError), dx_abi = dg_abi\<rparr>"

definition dg_cfg :: delegation_config where
  "dg_cfg = \<lparr>dc_profile = P_ethereum_sepolia, dc_chainId = 11155111, dc_writable = True, dc_enabled = True, dc_execEnabled = False,
     dc_provider = MOCK, dc_accountModelDefault = EIP7702, dc_exchangeProxy = Some (hex_addr CHR ''d''), dc_allowanceSpender = None,
     dc_disabledReason = None\<rparr>"

definition dg_wallet :: sea_wallet where
  "dg_wallet = cond_wallet\<lparr>wl_personalSign := (\<lambda>h. Inr ''0xbb'')\<rparr>"

definition dg_client :: "string \<Rightarrow> deleg_client" where
  "dg_client bps = api_client (dg_world bps) dg_cfg exn_message (\<lambda>ow md t n px. Inr (Inr (Some (big_to_string n)))) 5000 ''i9'' ''g9''"

definition dg_submit_env :: "string \<Rightarrow> submit_env" where
  "dg_submit_env bps = \<lparr>sb_units = form_units, sb_penv = no_env, sb_otherNum = (\<lambda>n. []), sb_wallet = dg_wallet, sb_chainId = 84532,
     sb_client = dg_client bps, sb_nowMs = 5000, sb_markMs = 5000\<rparr>"

definition dg_setup :: sa_setup where
  "dg_setup = \<lparr>su_deployed = True, su_moduleInstalled = True, su_tokenBalanceQ = ''82'', su_allowanceQ = ''82''\<rparr>"

definition dg_press :: "string \<Rightarrow> (toggle_ui \<times> pending_store \<times> deleg) result" where
  "dg_press bps = press_submit (dg_submit_env bps) ''m1'' (Some form_market) (cond_form CMR_mode) (Some dg_setup) toggle_start
     \<lparr>ps_writable = True, ps_entries = []\<rparr> \<lparr>de_sea = sea_sample, de_grants = [], de_attempts = []\<rparr>"

definition dg_outcome :: "(toggle_ui \<times> pending_store \<times> deleg) result \<Rightarrow> hook_status \<times> pending_entry list \<times> int list" where
  "dg_outcome r = (case r of Inl e \<Rightarrow> (H_idle, [], [])
     | Inr (ui, st, d) \<Rightarrow> (gu_status (tu_grant ui), ps_entries st, map gr_spendCapQ (de_grants d)))"


text \<open>With a larger buffer on the side of the API the grant exceeds what the form asked the account to hold.\<close>

lemma larger_buffer_exceeds_setup: "dg_outcome (dg_press ''2000'') = (H_active, [], [96])"
  by code_simp


text \<open>An intent whose authorization was interrupted, after a reload.\<close>

definition dg_ready :: intent_dto where
  "dg_ready = serializeIntent big_to_string (sample_row\<lparr>it_status := S_READY\<rparr>)"

theorem intent_rows_follow_history_witness:
  "\<exists>e. row_actions (Some sample_owner) (panel_after sample_owner [RowsRead (Inr [dg_ready]), Reloaded, Marked 5 ''i1'' ''m1'']) dg_ready = PendingRow e"
proof -
  have "sample_owner \<noteq> []" "dt_id dg_ready = ''i1''" by code_simp+
  then show ?thesis
    using intent_rows_follow_history [OF _ refl, of sample_owner "[RowsRead (Inr [dg_ready]), Reloaded, Marked 5 ''i1'' ''m1'']" dg_ready] by simp
qed

end
