(* ===== verification/Spec2Isabelle.thy ===== *)
theory Spec2Isabelle
  imports System AiProps MatchProps MarketOrderProps WsProps SeaFormProps WebDelegatedProps
begin

text \<open>
  A verification development for STE, a limit-order exchange that settles 0x v4 orders on chain and
  executes conditional intents. The program is two applications: the API (\<open>src/apps/api\<close>, NestJS over
  a PostgreSQL database through Prisma) and the web application (\<open>src/apps/web\<close>, Next.js). This theory
  imports all others and says how they hang together.

  \<^bold>\<open>The program.\<close> Makers sign 0x orders; the API checks the signature, derives size and price, and keeps
  each order both as a level of an in-memory book and as a row of the database. Takers ask for a quote
  and get the transactions that execute it. Watchers read the chain and move book and rows after fills
  and cancels. Conditional intents (a limit that is placed, or a market order that becomes ready, when
  a price triggers) are created with a signature, evaluated by a monitor, locked and executed by their
  owner or, with a grant, by a worker; sweepers expire what is due. The web application builds and
  signs what the API takes.

  \<^bold>\<open>The state.\<close> A table is the list of its rows. \<open>db\<close> (Persistence) holds markets, orders, trades and
  events, with logs of what is emitted; \<open>engine\<close> (OrderBook) adds the books; \<open>sea\<close> (SeaState) adds
  intents, their events and the cancel floors; the delegated worker adds grants and attempts. An
  operation is a function of the state that returns a value or an exception, \<open>exn + 'a\<close>, together with
  the state it leaves: what it wrote before it threw stays written.

  \<^bold>\<open>Theories of the API.\<close>
  \<^item> Prelude, JsBase, JsVal, Dates: exceptions, tables, the stable sort, strings, numbers, bigints, JSON
    values, dates and the environment; the locales \<open>comparator\<close> (a comparison a sort can rely on) and
    \<open>compound_where\<close> (a guarded one-row status update).
  \<^item> RawOrder, Persistence, OrderBook, Placement, PublicApi (\<open>matching/\<close>, \<open>public/public.controller.ts\<close>,
    \<open>orders.query.controller.ts\<close>): order payloads and signatures, the repository, the book, the placement
    core, the order book, trade and listing endpoints.
  \<^item> ZeroEx, TxBuilders (\<open>zeroex/\<close>): addresses, hashing, signature check, the transactions of the proxy.
  \<^item> OrdersApi, MatchApi, WsGateway (\<open>public/\<close>): the endpoints that place, cancel, quote and apply, and the
    WebSocket gateway.
  \<^item> RpcTransient, CancelFloor, Watcher, FillWatcher, CancelWatcher (\<open>onchain/\<close>) and Rehydrate: error
    classification and backoff, the floors, the scan both watchers share, their ticks, the restart.
  \<^item> IntentDto, IntentStore, IntentValidator, IntentService, CmrPrepare, IntentFire, IntentMonitor,
    ExecToken, SeaController (\<open>sea/\<close>): shapes, repository, create and fire validation, the handlers,
    evaluation, firing, the timers' ticks, the tokens, the endpoints.
  \<^item> DelegatedStore, Delegation, DelegatedApi, DelegatedExecutor (\<open>sea/delegated/\<close>) and AiDraft (\<open>sea/ai/\<close>):
    grants, session policies, their endpoints, the worker, and the assistant that drafts intents.

  \<^bold>\<open>Theories of the web application.\<close> WebForm (limit form and order signing), MarketOrder (quote, approve,
  execute, apply, and the ready intent), SeaForm (the conditional form and what it signs) and
  WebDelegated (the grant round trip, the delegated submission, its persisted marker and the list of
  intents).

  \<^bold>\<open>What is proved.\<close> Definitions keep the source's names where they can; every other theory proves about
  them.
  \<^item> The book: OrderBookInv (price-time order and well-formedness under every operation), Execution (the
    quote is the best execution and what a take does), Coherence (takes and external fills keep every level
    in agreement with its row; a take leaves exactly the book, rows and trades its fills make).
  \<^item> Orders in and out: in Placement no post-only order crosses; in OrdersApi what rests, side and
    market included, is what was signed; in MatchProps a quote's calldata executes its plan fill by fill; in PublicProps the ladder is the
    exact aggregation of the open rows and paging lists each order once; in WsProps every socket
    receives the ladders of exactly its subscriptions to listed markets.
  \<^item> Intents: IntentLifecycle defines the abstract machine \<open>intent_step\<close>; IntentLaws interprets
    \<open>compound_where\<close> on every status write; SeaRefinement proves that each service only takes steps
    of the machine (locale \<open>sea_service\<close>, interpreted on all of them), and System closes it over any
    interleaving with the watchers and the worker. IntentServiceProps, IntentSamples, MonitorProps,
    SweeperProps and CreateToFire hold what locks, tokens, timers and the two validations promise.
  \<^item> The chain: WatcherProps (locale \<open>block_watcher\<close>: the cursor passes only blocks that were answered and
    whose transactions were all handled, catching up ends), FillProps and PairCancel (a fill is applied
    once while the memory of the process, which evicts the oldest of ten thousand entries, holds it, and
    with its whole effect; a pair cancel removes exactly the orders below the salt); Rehydrate (a restart
    rebuilds levels and raw orders).
  \<^item> Delegation: DelegatedProps (the provider is asked only for the full fill of one order, which a grant
    covers), WebDelegatedProps (a grant the form made is one the smart account was seen to cover; the
    actions of a row follow its history).
  \<^item> The forms: WebProps, SeaFormProps, AiProps and MarketOrderProps follow a form's values through signing
    into the API: what rests, what is accepted, and what a plan on screen is worth.

  \<^bold>\<open>What is a parameter.\<close> Hashing, recovery and typed data (\<open>zx_ext\<close>, \<open>api_ext\<close>, \<open>wallet\<close>), ABI encoding and
  decoding (\<open>abi_ext\<close> and the decoders of the watchers), HMAC, \<open>parseUnits\<close> and \<open>formatUnits\<close> (\<open>units\<close>),
  \<open>Decimal.toString\<close>, \<open>Date.parse\<close>, RPC answers, the delegation provider, the language model and the clock.
  Properties that need something of them state it as a hypothesis, and their witnesses instantiate
  it with concrete functions.

  \<^bold>\<open>Bounds and conventions.\<close> Strings are Latin-1; a \<open>number\<close> is an exact rational, infinite or NaN, so the
  rounding of doubles is not modelled; dates are rendered for the years 0 to 9999. A \<open>Decimal\<close> that the
  repository turns into a bigint is read as the integer it is, which is what it prints below
  \<open>10 ^ 21\<close>; where the notation matters \<open>dec\<close> is a parameter. Without an \<open>orderBy\<close> rows come in insertion order;
  a cursor page is what Prisma documents. A loop of the source is structural recursion or carries its own
  termination proof; the walk over a nested error stops after twelve objects, as in the source. Fuel appears only where a client repeats a request, in the walk over
  the pages of a listing, and there the theorem states that one step more than the matching rows is enough.
  Interleaving is explicit: a handler that waits takes the argument \<open>env\<close>, what the rest
  of the API does meanwhile; otherwise a tick is one step.

  \<^bold>\<open>Not modelled.\<close> Timers, log lines, metrics and the texts of errors that are only shown; the Biconomy
  provider, the AI provider, Web3Auth and the smart-account SDK (third-party code); rendering, polling and
  toasts of the web panels and the
  fetch wrappers; health and development endpoints, seeds and scripts; Nest modules and configuration.
\<close>

end
